(* ===== verification/Prelude.thy ===== *)
theory Prelude
  imports Main "HOL-Library.Word"
begin

text \<open>
  What the components share: the fact collections, the error-or-value results, the Go
  standard-library operations on byte strings that the sources call, little-endian integers,
  readers, and the two interfaces (locales) that several packages implement: functional
  options that validate a configuration, and reads bounded by a maximum size.
\<close>

section \<open>Collections of facts\<close>

text \<open>
  \<open>result_simps\<close> unfolds the plumbing of results, \<open>go_simps\<close> the Go library operations,
  \<open>step_simps\<close> the operations of a state machine, \<open>keeps\<close> collects preservation facts.
\<close>

named_theorems result_simps
named_theorems go_simps
named_theorems step_simps
named_theorems keeps

section \<open>Machine types and results\<close>

type_synonym byte = "8 word"
type_synonym bytes = "8 word list"
type_synonym u16 = "16 word"
type_synonym u32 = "32 word"
type_synonym u64 = "64 word"
type_synonym int64 = "64 word" \<comment> \<open>read with \<open>sint\<close>\<close>
type_synonym duration = int \<comment> \<open>\<open>time.Duration\<close>, nanoseconds\<close>

abbreviation max_int32 :: int where "max_int32 \<equiv> 2147483647"
abbreviation min_int32 :: int where "min_int32 \<equiv> -2147483648"
abbreviation max_uint32 :: int where "max_uint32 \<equiv> 4294967295"
abbreviation max_int64 :: int where "max_int64 \<equiv> 9223372036854775807"

text \<open>
  A Go call returning \<open>(value, error)\<close> is a sum: \<open>Inl\<close> the error, \<open>Inr\<close> the value.
  \<open>rbind\<close> is the statement \<open>x, err := f(); if err != nil { return err }\<close>.
\<close>

definition rbind :: "'e + 'a \<Rightarrow> ('a \<Rightarrow> 'e + 'b) \<Rightarrow> 'e + 'b" where
  "rbind r k = (case r of Inl e \<Rightarrow> Inl e | Inr x \<Rightarrow> k x)"

lemma rbind_Inl [simp, result_simps]: "rbind (Inl e) k = Inl e"
  by (simp add: rbind_def)

lemma rbind_Inr [simp, result_simps]: "rbind (Inr x) k = k x"
  by (simp add: rbind_def)

lemma rbind_eq_Inr: "rbind r k = Inr y \<longleftrightarrow> (\<exists>x. r = Inr x \<and> k x = Inr y)"
  by (cases r) auto

lemma rbind_eq_Inl: "rbind r k = Inl e \<longleftrightarrow> r = Inl e \<or> (\<exists>x. r = Inr x \<and> k x = Inl e)"
  by (cases r) auto

definition is_ok :: "'e + 'a \<Rightarrow> bool" where
  "is_ok r = (case r of Inl _ \<Rightarrow> False | Inr _ \<Rightarrow> True)"

lemma is_ok_Inl [simp]: "\<not> is_ok (Inl e)"
  by (simp add: is_ok_def)

lemma is_ok_Inr [simp]: "is_ok (Inr x)"
  by (simp add: is_ok_def)

lemma is_ok_iff: "is_ok r \<longleftrightarrow> (\<exists>x. r = Inr x)"
  by (cases r) auto

text \<open>A guard \<open>if bad { return err }\<close> as a unit result.\<close>

definition guard :: "bool \<Rightarrow> 'e \<Rightarrow> 'e + unit" where
  "guard bad e = (if bad then Inl e else Inr ())"

lemma guard_simps [simp, result_simps]:
  "guard True e = Inl e" "guard False e = Inr ()"
  by (simp_all add: guard_def)

lemma guard_eq_Inr [simp]: "guard bad e = Inr u \<longleftrightarrow> \<not> bad"
  by (simp add: guard_def)

lemma guard_eq_Inl [simp]: "guard bad e = Inl e' \<longleftrightarrow> bad \<and> e' = e"
  by (auto simp: guard_def)

text \<open>Validation loops: the first failing element decides.\<close>

fun check_all :: "('a \<Rightarrow> 'e + unit) \<Rightarrow> 'a list \<Rightarrow> 'e + unit" where
  "check_all f [] = Inr ()"
| "check_all f (x # xs) = rbind (f x) (\<lambda>_. check_all f xs)"

lemma check_all_ok: "check_all f xs = Inr u \<longleftrightarrow> (\<forall>x \<in> set xs. f x = Inr ())"
  by (induction xs) (auto simp: rbind_eq_Inr)

lemma check_all_error: "check_all f xs = Inl e \<Longrightarrow> \<exists>x \<in> set xs. f x = Inl e"
  by (induction xs) (auto simp: rbind_eq_Inl)

section \<open>Go strings: byte sequences\<close>

text \<open>
  A Go string is a byte sequence and so is an Isabelle \<open>string\<close> (a \<open>char\<close> is a byte), so
  \<open>len\<close> is \<open>length\<close>. The operations below are polymorphic where they only compare bytes, so
  that they serve strings and byte slices.
\<close>

definition has_prefix :: "'a list \<Rightarrow> 'a list \<Rightarrow> bool" where
  "has_prefix s p \<longleftrightarrow> take (length p) s = p"

definition has_suffix :: "'a list \<Rightarrow> 'a list \<Rightarrow> bool" where
  "has_suffix s p \<longleftrightarrow> length p \<le> length s \<and> drop (length s - length p) s = p"

fun contains :: "'a list \<Rightarrow> 'a list \<Rightarrow> bool" where
  "contains [] p = (p = [])"
| "contains (x # xs) p = (has_prefix (x # xs) p \<or> contains xs p)"

definition contains_any :: "'a list \<Rightarrow> 'a list \<Rightarrow> bool" where
  "contains_any s chars = list_ex (\<lambda>c. c \<in> set chars) s"

definition trim_prefix :: "'a list \<Rightarrow> 'a list \<Rightarrow> 'a list" where
  "trim_prefix s p = (if has_prefix s p then drop (length p) s else s)"

definition trim_suffix :: "'a list \<Rightarrow> 'a list \<Rightarrow> 'a list" where
  "trim_suffix s p = (if has_suffix s p then take (length s - length p) s else s)"

text \<open>\<open>strings.Split(s, sep)\<close> and \<open>strings.Join\<close> for a one-byte separator.\<close>

fun split_on :: "'a \<Rightarrow> 'a list \<Rightarrow> 'a list list" where
  "split_on c [] = [[]]"
| "split_on c (x # xs) =
     (if x = c then [] # split_on c xs
      else (case split_on c xs of [] \<Rightarrow> [[x]] | y # ys \<Rightarrow> (x # y) # ys))"

fun join_with :: "'a list \<Rightarrow> 'a list list \<Rightarrow> 'a list" where
  "join_with sep [] = []"
| "join_with sep [x] = x"
| "join_with sep (x # y # ys) = x @ sep @ join_with sep (y # ys)"

text \<open>\<open>strings.ReplaceAll\<close> with a non-empty pattern, left to right without overlap.\<close>

function replace_all :: "'a list \<Rightarrow> 'a list \<Rightarrow> 'a list \<Rightarrow> 'a list" where
  "replace_all old new s =
     (case s of [] \<Rightarrow> []
      | x # xs \<Rightarrow> if old \<noteq> [] \<and> has_prefix s old
                 then new @ replace_all old new (drop (length old) s)
                 else x # replace_all old new xs)"
  by pat_completeness auto
termination
  by (relation "measure (\<lambda>(old, new, s). length s)") auto

declare replace_all.simps [simp del]

text \<open>\<open>bytes.LastIndex\<close>: the start of the last occurrence of a non-empty pattern.\<close>

fun last_index :: "'a list \<Rightarrow> 'a list \<Rightarrow> nat option" where
  "last_index [] p = None"
| "last_index (x # xs) p =
     (case last_index xs p of Some i \<Rightarrow> Some (Suc i)
      | None \<Rightarrow> if has_prefix (x # xs) p then Some 0 else None)"

lemma has_prefix_append [simp]: "has_prefix (p @ s) p"
  by (simp add: has_prefix_def)

lemma has_prefix_iff: "has_prefix s p \<longleftrightarrow> (\<exists>t. s = p @ t)"
  unfolding has_prefix_def by (metis append_take_drop_id append_eq_conv_conj)

lemma has_suffix_iff: "has_suffix s p \<longleftrightarrow> (\<exists>t. s = t @ p)"
proof
  assume "has_suffix s p"
  then show "\<exists>t. s = t @ p"
    unfolding has_suffix_def by (metis append_take_drop_id)
next
  assume "\<exists>t. s = t @ p"
  then show "has_suffix s p" by (auto simp: has_suffix_def)
qed

lemma contains_iff: "contains s p \<longleftrightarrow> (\<exists>a b. s = a @ p @ b)"
proof (induction s)
  case Nil
  then show ?case by simp
next
  case (Cons x xs)
  show ?case
  proof
    assume "contains (x # xs) p"
    then consider "has_prefix (x # xs) p" | "contains xs p" by auto
    then show "\<exists>a b. x # xs = a @ p @ b"
    proof cases
      case 1
      then show ?thesis unfolding has_prefix_iff by (metis append_Nil)
    next
      case 2
      then show ?thesis using Cons.IH by (metis append_Cons)
    qed
  next
    assume "\<exists>a b. x # xs = a @ p @ b"
    then obtain a b where ab: "x # xs = a @ p @ b" by blast
    show "contains (x # xs) p"
    proof (cases a)
      case Nil
      with ab have "has_prefix (x # xs) p" by (simp add: has_prefix_iff)
      then show ?thesis by simp
    next
      case (Cons y ys)
      then show ?thesis using ab Cons.IH by auto
    qed
  qed
qed

lemma split_on_nonempty [simp]: "split_on c xs \<noteq> []"
  by (cases xs) (auto split: list.splits)

lemma split_on_no_sep: "seg \<in> set (split_on c xs) \<Longrightarrow> c \<notin> set seg"
  by (induction xs arbitrary: seg) (auto split: if_splits list.splits)

lemma split_on_append_sep: "c \<notin> set xs \<Longrightarrow> split_on c (xs @ c # ys) = xs # split_on c ys"
  by (induction xs) (auto split: list.splits)

lemma split_on_none: "c \<notin> set xs \<Longrightarrow> split_on c xs = [xs]"
  by (induction xs) auto

lemma join_split: "join_with [c] (split_on c xs) = xs"
proof (induction xs)
  case Nil
  then show ?case by simp
next
  case (Cons x xs)
  then show ?case by (cases "split_on c xs"; cases "tl (split_on c xs)") auto
qed

section \<open>Unicode white space in UTF-8\<close>

text \<open>
  \<open>unicode.IsSpace\<close> on the byte level: the UTF-8 encodings of the white-space code points
  (U+0009 to U+000D, U+0020, U+0085, U+00A0, U+1680, U+2000 to U+200A, U+2028, U+2029, U+202F,
  U+205F, U+3000). No encoding starts with a continuation byte, so the decoder of the Go
  library meets a white-space rune exactly where one of these byte strings starts.
\<close>

definition space_encodings :: "string list" where
  "space_encodings =
     [[CHR 0x09], [CHR 0x0A], [CHR 0x0B], [CHR 0x0C], [CHR 0x0D], [CHR 0x20],
      [CHR 0xC2, CHR 0x85], [CHR 0xC2, CHR 0xA0], [CHR 0xE1, CHR 0x9A, CHR 0x80],
      [CHR 0xE2, CHR 0x80, CHR 0x80], [CHR 0xE2, CHR 0x80, CHR 0x81], [CHR 0xE2, CHR 0x80, CHR 0x82],
      [CHR 0xE2, CHR 0x80, CHR 0x83], [CHR 0xE2, CHR 0x80, CHR 0x84], [CHR 0xE2, CHR 0x80, CHR 0x85],
      [CHR 0xE2, CHR 0x80, CHR 0x86], [CHR 0xE2, CHR 0x80, CHR 0x87], [CHR 0xE2, CHR 0x80, CHR 0x88],
      [CHR 0xE2, CHR 0x80, CHR 0x89], [CHR 0xE2, CHR 0x80, CHR 0x8A], [CHR 0xE2, CHR 0x80, CHR 0xA8],
      [CHR 0xE2, CHR 0x80, CHR 0xA9], [CHR 0xE2, CHR 0x80, CHR 0xAF], [CHR 0xE2, CHR 0x81, CHR 0x9F],
      [CHR 0xE3, CHR 0x80, CHR 0x80]]"

text \<open>Length of the white-space rune at the start (or end) of a string, 0 when there is none.\<close>

definition space_prefix :: "string \<Rightarrow> nat" where
  "space_prefix s = (case find (has_prefix s) space_encodings of None \<Rightarrow> 0 | Some w \<Rightarrow> length w)"

definition space_suffix :: "string \<Rightarrow> nat" where
  "space_suffix s = (case find (has_suffix s) space_encodings of None \<Rightarrow> 0 | Some w \<Rightarrow> length w)"

function trim_left_space :: "string \<Rightarrow> string" where
  "trim_left_space s =
     (if s \<noteq> [] \<and> space_prefix s \<noteq> 0 then trim_left_space (drop (space_prefix s) s) else s)"
  by pat_completeness auto
termination
  by (relation "measure length") auto

function trim_right_space :: "string \<Rightarrow> string" where
  "trim_right_space s =
     (if s \<noteq> [] \<and> space_suffix s \<noteq> 0 then trim_right_space (take (length s - space_suffix s) s)
      else s)"
  by pat_completeness auto
termination
  by (relation "measure length") auto

declare trim_left_space.simps [simp del] trim_right_space.simps [simp del]

definition trim_space :: "string \<Rightarrow> string" where
  "trim_space s = trim_right_space (trim_left_space s)"

text \<open>\<open>strings.Fields\<close>: the maximal runs of bytes between white-space runes.\<close>

function fields_from :: "string \<Rightarrow> string \<Rightarrow> string list" where
  "fields_from word s =
     (case s of
        [] \<Rightarrow> if word = [] then [] else [word]
      | x # xs \<Rightarrow>
          if space_prefix s \<noteq> 0
          then (if word = [] then fields_from [] (drop (space_prefix s) s)
                else word # fields_from [] (drop (space_prefix s) s))
          else fields_from (word @ [x]) xs)"
  by pat_completeness auto
termination
  by (relation "measure (\<lambda>(word, s). length s)") auto

declare fields_from.simps [simp del]

definition string_fields :: "string \<Rightarrow> string list" where
  "string_fields s = fields_from [] s"

lemma trim_left_space_suffix: "\<exists>p. s = p @ trim_left_space s"
proof (induction s rule: trim_left_space.induct)
  case (1 s)
  show ?case
  proof (cases "s \<noteq> [] \<and> space_prefix s \<noteq> 0")
    case True
    then obtain p where "drop (space_prefix s) s = p @ trim_left_space s"
      using "1.IH" by (metis trim_left_space.simps)
    then have "s = (take (space_prefix s) s @ p) @ trim_left_space s"
      by (metis append.assoc append_take_drop_id)
    then show ?thesis ..
  next
    case False
    then have "s = [] @ trim_left_space s" by (auto simp: trim_left_space.simps [of s])
    then show ?thesis ..
  qed
qed

lemma trim_right_space_prefix: "\<exists>q. s = trim_right_space s @ q"
proof (induction s rule: trim_right_space.induct)
  case (1 s)
  show ?case
  proof (cases "s \<noteq> [] \<and> space_suffix s \<noteq> 0")
    case True
    then obtain q where "take (length s - space_suffix s) s = trim_right_space s @ q"
      using "1.IH" by (metis trim_right_space.simps)
    then have "s = trim_right_space s @ q @ drop (length s - space_suffix s) s"
      by (metis append.assoc append_take_drop_id)
    then show ?thesis by blast
  next
    case False
    then have "s = trim_right_space s @ []" by (auto simp: trim_right_space.simps [of s])
    then show ?thesis ..
  qed
qed

text \<open>Trimming cuts at the two ends only.\<close>

lemma trim_space_infix: "\<exists>p q. s = p @ trim_space s @ q"
  unfolding trim_space_def by (metis append.assoc trim_left_space_suffix trim_right_space_prefix)

lemma set_trim_space: "set (trim_space s) \<subseteq> set s"
  using trim_space_infix [of s] by (metis set_append Un_iff subsetI)

lemma length_trim_space: "length (trim_space s) \<le> length s"
  using trim_space_infix [of s] by (metis length_append le_add1 le_add2 order_trans)

lemma trim_space_empty [simp]: "trim_space [] = []"
  by (simp add: trim_space_def trim_left_space.simps trim_right_space.simps)

section \<open>ASCII classes\<close>

definition char_in :: "char \<Rightarrow> char \<Rightarrow> char \<Rightarrow> bool" where
  "char_in lo hi c \<longleftrightarrow> (of_char lo :: nat) \<le> of_char c \<and> (of_char c :: nat) \<le> of_char hi"

definition is_digit :: "char \<Rightarrow> bool" where
  "is_digit c = char_in (CHR ''0'') (CHR ''9'') c"

definition is_lower :: "char \<Rightarrow> bool" where
  "is_lower c = char_in (CHR ''a'') (CHR ''z'') c"

definition is_upper :: "char \<Rightarrow> bool" where
  "is_upper c = char_in (CHR ''A'') (CHR ''Z'') c"

definition is_alnum :: "char \<Rightarrow> bool" where
  "is_alnum c \<longleftrightarrow> is_upper c \<or> is_lower c \<or> is_digit c"

definition is_ascii :: "char \<Rightarrow> bool" where
  "is_ascii c \<longleftrightarrow> (of_char c :: nat) < 128"

definition ascii_upper :: "char \<Rightarrow> char" where
  "ascii_upper c = (if is_lower c then char_of ((of_char c :: nat) - 32) else c)"

definition ascii_lower :: "char \<Rightarrow> char" where
  "ascii_lower c = (if is_upper c then char_of ((of_char c :: nat) + 32) else c)"

text \<open>The Go conversion \<open>string(b)\<close>.\<close>

definition body_string :: "bytes \<Rightarrow> string" where
  "body_string b = map (\<lambda>w. char_of (unat w)) b"

text \<open>The value of a string of decimal digits.\<close>

definition digits_value :: "string \<Rightarrow> nat" where
  "digits_value ds = foldl (\<lambda>v c. 10 * v + (of_char c - 48)) 0 ds"

lemmas char_class_defs = char_in_def is_digit_def is_lower_def is_upper_def is_alnum_def is_ascii_def
  ascii_upper_def ascii_lower_def

declare char_class_defs [go_simps]

section \<open>Decimal numbers\<close>

text \<open>\<open>strconv.FormatInt(n, 10)\<close>.\<close>

fun format_nat :: "nat \<Rightarrow> string" where
  "format_nat n =
     (if n < 10 then [char_of (48 + n)] else format_nat (n div 10) @ [char_of (48 + n mod 10)])"

declare format_nat.simps [simp del]

definition format_int :: "int \<Rightarrow> string" where
  "format_int n = (if n < 0 then CHR ''-'' # format_nat (nat (- n)) else format_nat (nat n))"

section \<open>UTF-8\<close>

text \<open>
  \<open>rune_len s\<close> is the size of the well-formed rune at the start of \<open>s\<close> (RFC 3629: no
  overlong forms, no surrogates, at most U+10FFFF), 0 when there is none; \<open>valid_utf8\<close> is
  \<open>utf8.ValidString\<close>.
\<close>

definition cont_byte :: "nat \<Rightarrow> bool" where
  "cont_byte b \<longleftrightarrow> 128 \<le> b \<and> b \<le> 191"

definition rune_len :: "string \<Rightarrow> nat" where
  "rune_len s =
     (case map (of_char :: char \<Rightarrow> nat) (take 4 s) of
        [] \<Rightarrow> 0
      | b0 # t \<Rightarrow>
          if b0 < 128 then 1
          else (case t of
              [] \<Rightarrow> 0
            | b1 # t2 \<Rightarrow>
                if 194 \<le> b0 \<and> b0 \<le> 223 then (if cont_byte b1 then 2 else 0)
                else (case t2 of
                    [] \<Rightarrow> 0
                  | b2 # t3 \<Rightarrow>
                      if 224 \<le> b0 \<and> b0 \<le> 239
                      then (if cont_byte b1 \<and> cont_byte b2 \<and> (b0 = 224 \<longrightarrow> 160 \<le> b1) \<and> (b0 = 237 \<longrightarrow> b1 \<le> 159)
                            then 3 else 0)
                      else (case t3 of
                          [] \<Rightarrow> 0
                        | b3 # _ \<Rightarrow>
                            if 240 \<le> b0 \<and> b0 \<le> 244 \<and> cont_byte b1 \<and> cont_byte b2 \<and> cont_byte b3
                              \<and> (b0 = 240 \<longrightarrow> 144 \<le> b1) \<and> (b0 = 244 \<longrightarrow> b1 \<le> 143)
                            then 4 else 0))))"

function valid_utf8 :: "string \<Rightarrow> bool" where
  "valid_utf8 s =
     (if s = [] then True else if rune_len s = 0 then False else valid_utf8 (drop (rune_len s) s))"
  by pat_completeness auto
termination
  by (relation "measure length") auto

declare valid_utf8.simps [simp del]

section \<open>Little-endian integers and byte buffers\<close>

definition put_u16 :: "u16 \<Rightarrow> bytes" where
  "put_u16 v = [ucast v, ucast (drop_bit 8 v)]"

definition put_u32 :: "u32 \<Rightarrow> bytes" where
  "put_u32 v = [ucast v, ucast (drop_bit 8 v), ucast (drop_bit 16 v), ucast (drop_bit 24 v)]"

definition get_u16 :: "bytes \<Rightarrow> u16" where
  "get_u16 bs = ucast (bs ! 0) + push_bit 8 (ucast (bs ! 1))"

definition get_u32 :: "bytes \<Rightarrow> u32" where
  "get_u32 bs = ucast (bs ! 0) + push_bit 8 (ucast (bs ! 1)) + push_bit 16 (ucast (bs ! 2))
     + push_bit 24 (ucast (bs ! 3))"

lemma length_put [simp]: "length (put_u16 v) = 2" "length (put_u32 w) = 4"
  by (simp_all add: put_u16_def put_u32_def)

lemma unat_ucast_byte: "unat (ucast (w :: 'a::len word) :: byte) = unat w mod 256"
  by (simp add: unsigned_ucast_eq take_bit_eq_mod)

lemma byte_bound: "unat (w :: byte) < 256"
  using unsigned_less [of w] by simp

lemma word_of_unat [simp]: "of_nat (unat w) = (w :: 'a::len word)"
  by (simp add: word_unat_eq_iff unsigned_of_nat take_bit_nat_eq_self)

lemma sint_int64_bound: "sint (w :: int64) \<le> max_int64"
  using sint_lt [of w] by simp

lemma get_put_u16 [simp]: "get_u16 (put_u16 v) = v"
proof -
  have "unat v < 2 ^ 16" using unsigned_less [of v] by simp
  then have "unat v mod 256 + 256 * (unat v div 256 mod 256) = unat v" by simp
  then show ?thesis
    by (simp add: get_u16_def put_u16_def word_unat_eq_iff unsigned_ucast_eq take_bit_eq_mod
        unat_word_ariths unat_drop_bit_eq drop_bit_eq_div push_bit_eq_mult mult.commute)
qed

lemma nat_four_bytes:
  "n < 2 ^ 32 \<Longrightarrow> n mod 256 + 256 * (n div 256 mod 256) + 65536 * (n div 65536 mod 256)
     + 16777216 * (n div 16777216 mod 256) = (n :: nat)"
proof -
  assume n: "n < 2 ^ 32"
  define a b c where "a = n div 256" and "b = a div 256" and "c = b div 256"
  have "n div 65536 = b" "n div 16777216 = c"
    using div_mult2_eq [of n 256 256] div_mult2_eq [of n 65536 256] by (simp_all add: a_def b_def c_def)
  moreover have "n = 256 * a + n mod 256" "a = 256 * b + a mod 256" "b = 256 * c + b mod 256"
    by (simp_all add: a_def b_def c_def)
  moreover have "c mod 256 = c" using n \<open>n div 16777216 = c\<close> by simp
  ultimately show ?thesis unfolding a_def [symmetric] by simp
qed

lemma get_put_u32 [simp]: "get_u32 (put_u32 v) = v"
proof -
  have "unat v < 2 ^ 32" using unsigned_less [of v] by simp
  note nat_four_bytes [OF this]
  moreover have "unat v < 4294967296" using \<open>unat v < 2 ^ 32\<close> by simp
  ultimately show ?thesis
    by (simp add: get_u32_def put_u32_def word_unat_eq_iff unsigned_ucast_eq take_bit_eq_mod
        unat_word_ariths unat_drop_bit_eq drop_bit_eq_div push_bit_eq_mult mult.commute)
qed

lemma unat_of_nat_byte: "n < 256 \<Longrightarrow> unat (of_nat n :: byte) = n"
  by (simp add: unsigned_of_nat take_bit_eq_mod)

text \<open>\<open>copy(output[at:], src)\<close> for a source that fits.\<close>

definition overwrite :: "'a list \<Rightarrow> nat \<Rightarrow> 'a list \<Rightarrow> 'a list" where
  "overwrite out at src = take at out @ src @ drop (at + length src) out"

lemma length_overwrite [simp]:
  "at + length src \<le> length out \<Longrightarrow> length (overwrite out at src) = length out"
  by (simp add: overwrite_def)

lemma overwrite_append:
  "length out = length pre + length old \<Longrightarrow> length old = length src \<Longrightarrow> take (length pre) out = pre \<Longrightarrow>
   overwrite (out @ rest) (length pre) src = pre @ src @ rest"
  by (simp add: overwrite_def)

section \<open>Functional options\<close>

text \<open>
  Every package configures itself with \<open>for _, option := range options\<close>: a nil option is
  skipped, an option that returns an error stops the loop, any other changes the configuration.
\<close>

fun resolve_options :: "('o \<Rightarrow> 'c \<Rightarrow> 'e + 'c) \<Rightarrow> 'o option list \<Rightarrow> 'c \<Rightarrow> 'e + 'c" where
  "resolve_options apply_opt [] c = Inr c"
| "resolve_options apply_opt (None # os) c = resolve_options apply_opt os c"
| "resolve_options apply_opt (Some o1 # os) c =
     rbind (apply_opt o1 c) (\<lambda>c'. resolve_options apply_opt os c')"

lemma resolve_options_append:
  "resolve_options f (xs @ ys) c = rbind (resolve_options f xs c) (resolve_options f ys)"
proof (induction f xs c rule: resolve_options.induct)
  case (3 f o1 os c)
  then show ?case by (cases "f o1 c") auto
qed auto

locale configurable =
  fixes apply_opt :: "'o \<Rightarrow> 'c \<Rightarrow> 'e + 'c"
    and valid_conf :: "'c \<Rightarrow> bool"
  assumes apply_valid: "valid_conf c \<Longrightarrow> apply_opt op c = Inr c' \<Longrightarrow> valid_conf c'"
begin

lemma resolve_valid:
  "valid_conf c \<Longrightarrow> resolve_options apply_opt ops c = Inr c' \<Longrightarrow> valid_conf c'"
proof (induction ops arbitrary: c)
  case (Cons a ops)
  then show ?case by (cases a) (auto simp: rbind_eq_Inr dest: apply_valid)
qed simp

lemma resolve_error_source:
  "resolve_options apply_opt ops c = Inl e \<Longrightarrow> \<exists>op c1. Some op \<in> set ops \<and> apply_opt op c1 = Inl e"
proof (induction ops arbitrary: c)
  case (Cons a ops)
  then show ?case by (cases a) (fastforce simp: rbind_eq_Inl)+
qed simp

end

text \<open>
  Most packages' options accept or refuse independently of the configuration and then set a field:
  the loop succeeds exactly when every option is acceptable, and later options win.
\<close>

definition non_nil :: "'o option list \<Rightarrow> 'o list" where
  "non_nil ops = concat (map (\<lambda>x. case x of None \<Rightarrow> [] | Some y \<Rightarrow> [y]) ops)"

lemma non_nil_simps [simp]:
  "non_nil [] = []" "non_nil (None # ops) = non_nil ops" "non_nil (Some x # ops) = x # non_nil ops"
  by (simp_all add: non_nil_def)

lemma set_non_nil: "x \<in> set (non_nil ops) \<longleftrightarrow> Some x \<in> set ops"
  by (auto simp: non_nil_def split: option.splits)

locale plain_options =
  fixes apply_opt :: "'o \<Rightarrow> 'c \<Rightarrow> 'e + 'c"
    and ok_opt :: "'o \<Rightarrow> bool"
    and upd :: "'o \<Rightarrow> 'c \<Rightarrow> 'c"
    and valid_conf :: "'c \<Rightarrow> bool"
  assumes plain: "apply_opt op c = Inr c' \<longleftrightarrow> ok_opt op \<and> c' = upd op c"
    and upd_valid: "valid_conf c \<Longrightarrow> ok_opt op \<Longrightarrow> valid_conf (upd op c)"
begin

lemma resolve_iff:
  "resolve_options apply_opt ops c = Inr c' \<longleftrightarrow>
     (\<forall>op \<in> set (non_nil ops). ok_opt op) \<and> c' = fold upd (non_nil ops) c"
proof (induction ops arbitrary: c)
  case (Cons a ops)
  then show ?case by (cases a) (auto simp: rbind_eq_Inr plain)
qed auto

end

sublocale plain_options \<subseteq> configurable apply_opt valid_conf
  by unfold_locales (auto simp: plain upd_valid)

section \<open>Readers and bounded reads\<close>

text \<open>
  An \<open>io.Reader\<close> as a consumer sees it: the bytes it yields and the error that ends it
  (None for EOF), reported by a read after the last byte. \<open>io.LimitReader(r, n)\<close> ends with EOF
  after \<open>n\<close> bytes without asking \<open>r\<close> again.
\<close>

record 'e reader =
  rd_data :: bytes
  rd_err :: "'e option"

definition limit_reader :: "nat \<Rightarrow> 'e reader \<Rightarrow> 'e reader" where
  "limit_reader n r =
     (if n \<le> length (rd_data r) then \<lparr>rd_data = take n (rd_data r), rd_err = None\<rparr> else r)"

definition io_read_all :: "'e reader \<Rightarrow> 'e + bytes" where
  "io_read_all r = (case rd_err r of None \<Rightarrow> Inr (rd_data r) | Some e \<Rightarrow> Inl e)"

text \<open>
  The shape shared by every buffered read of the sources: read through
  \<open>LimitReader(r, maximum + 1)\<close> unless the maximum is \<open>MaxInt64\<close>, then refuse more than
  \<open>maximum\<close> bytes.
\<close>

definition read_limited :: "int \<Rightarrow> 'e reader \<Rightarrow> 'e + bytes" where
  "read_limited m r = io_read_all (if m < max_int64 then limit_reader (nat (m + 1)) r else r)"

lemma read_limited_Inr:
  assumes "0 \<le> m" and "read_limited m r = Inr d" and "int (length d) \<le> m"
  shows "d = rd_data r \<and> rd_err r = None"
  using assms
  by (auto simp: read_limited_def io_read_all_def limit_reader_def split: if_splits option.splits)

lemma read_limited_fits:
  assumes "rd_err r = None" and "int (length (rd_data r)) \<le> m"
  shows "read_limited m r = Inr (rd_data r)"
  using assms by (auto simp: read_limited_def io_read_all_def limit_reader_def)

lemma read_limited_bounded:
  "0 \<le> m \<Longrightarrow> m < max_int64 \<Longrightarrow> read_limited m r = Inr d \<Longrightarrow> int (length d) \<le> m + 1"
  by (auto simp: read_limited_def io_read_all_def limit_reader_def split: if_splits option.splits)

locale bounded_read =
  fixes fetch :: "int \<Rightarrow> 'e reader \<Rightarrow> 'f + bytes"
  assumes fetch_data: "0 \<le> m \<Longrightarrow> fetch m r = Inr d \<Longrightarrow> d = rd_data r"
    and fetch_complete: "0 \<le> m \<Longrightarrow> fetch m r = Inr d \<Longrightarrow> rd_err r = None"
    and fetch_size: "0 \<le> m \<Longrightarrow> m < max_int64 \<Longrightarrow> fetch m r = Inr d \<Longrightarrow> int (length d) \<le> m"
begin

lemma fetch_oversized:
  assumes "0 \<le> m" and "m < max_int64" and "m < int (length (rd_data r))"
  shows "\<not> is_ok (fetch m r)"
  using assms fetch_data fetch_size by (fastforce simp: is_ok_iff)

lemma fetch_failing_reader:
  assumes "0 \<le> m" and "rd_err r = Some e"
  shows "\<not> is_ok (fetch m r)"
  using assms fetch_complete by (fastforce simp: is_ok_iff)

lemma fetch_agree:
  assumes "0 \<le> m" and "0 \<le> m'" and "fetch m r = Inr d" and "fetch m' r = Inr d'"
  shows "d = d'"
  using assms fetch_data by blast

end

end
