(* ===== verification/PahoTransport.thy ===== *)
theory PahoTransport
  imports Prelude "HOL-Library.Sublist"
begin

text \<open>
  \<open>pahotransport/transport.go\<close>: the reconnecting MQTT transport of the remote package. Subscriptions,
  the reconcile loop, the routing of incoming messages and \<open>Close\<close> interleave; every critical section
  of \<open>mu\<close> and every turn of the loop is one operation on the state. A channel operation that races with
  the end of its subscription is the operation in one of the two orders, so sending and receiving are
  atomic. Paho (\<open>Subscribe\<close>, \<open>Unsubscribe\<close>, \<open>Publish\<close>, \<open>Disconnect\<close>) is a parameter.
\<close>

section \<open>Data\<close>

datatype paho_error =
    PeClosed \<comment> \<open>\<open>remote.ErrClosed\<close>\<close>
  | PeTooLarge \<comment> \<open>\<open>remote.ErrMessageTooLarge\<close>\<close>
  | PeSlow \<comment> \<open>\<open>ErrSlowConsumer\<close>\<close>
  | PeDown \<comment> \<open>\<open>autopaho.ConnectionDownError\<close>\<close>
  | PeText string
  | PeContext string
  | PeBroker (pe_operation: string) (pe_topic: string) (pe_inner: paho_error) \<comment> \<open>\<open>brokerError\<close>\<close>
  | PeJoin "paho_error list"

fun is_down :: "paho_error \<Rightarrow> bool" where
  "is_down PeDown = True"
| "is_down (PeBroker op t e) = is_down e"
| "is_down (PeJoin es) = list_ex is_down es"
| "is_down _ = False"

type_synonym qos = byte

record paho_properties =
  pp_response :: string
  pp_correlation :: bytes
  pp_expiry :: "u32 option"

record paho_packet =
  pk_topic :: string
  pk_payload :: bytes
  pk_qos :: byte
  pk_properties :: "paho_properties option"

record transport_message =
  tm_topic :: string
  tm_payload :: bytes
  tm_qos :: qos
  tm_response :: string
  tm_correlation :: bytes
  tm_expiry :: "u32 option"

definition message_of :: "paho_packet \<Rightarrow> transport_message" where
  "message_of p =
     (let m = \<lparr>tm_topic = pk_topic p, tm_payload = pk_payload p, tm_qos = pk_qos p,
              tm_response = [], tm_correlation = [], tm_expiry = None\<rparr>
      in case pk_properties p of
           None \<Rightarrow> m
         | Some q \<Rightarrow> m\<lparr>tm_response := pp_response q, tm_correlation := pp_correlation q, tm_expiry := pp_expiry q\<rparr>)"

definition packet_of :: "transport_message \<Rightarrow> paho_packet" where
  "packet_of m = \<lparr>pk_topic = tm_topic m, pk_payload = tm_payload m, pk_qos = tm_qos m,
     pk_properties = Some \<lparr>pp_response = tm_response m, pp_correlation = tm_correlation m, pp_expiry = tm_expiry m\<rparr>\<rparr>"

definition validate_exact_topic :: "string \<Rightarrow> paho_error + unit" where
  "validate_exact_topic topic =
     guard (topic = [] \<or> list_ex (\<lambda>c. c \<in> {CHR ''+'', CHR ''#'', CHR 0x00}) topic)
       (PeText ''paho topic must be one exact MQTT topic'')"

section \<open>Subscriptions\<close>

definition subscriptionBuffer :: nat where
  "subscriptionBuffer = 16"

text \<open>
  A subscription; \<open>done\<close> is closed by \<open>fail\<close> only. The last three fields are the history: the messages
  routed to it, the messages that entered its channel and the messages received from it.
\<close>

record psub =
  ps_topic :: string
  ps_qos :: qos
  ps_max :: int
  ps_buffer :: "transport_message list"
  ps_done :: bool
  ps_err :: "paho_error option"
  ps_closing :: bool \<comment> \<open>\<open>closeOnce\<close> has run\<close>
  ps_close_err :: "paho_error option option"
  ps_routed :: "transport_message list"
  ps_delivered :: "transport_message list"
  ps_received :: "transport_message list"

definition new_psub :: "string \<Rightarrow> qos \<Rightarrow> int \<Rightarrow> psub" where
  "new_psub topic q maximum = \<lparr>ps_topic = topic, ps_qos = q, ps_max = maximum, ps_buffer = [], ps_done = False,
     ps_err = None, ps_closing = False, ps_close_err = None, ps_routed = [], ps_delivered = [], ps_received = []\<rparr>"

definition psub_fail :: "paho_error \<Rightarrow> psub \<Rightarrow> psub" where
  "psub_fail e u = (if ps_done u then u else u\<lparr>ps_done := True, ps_err := Some e\<rparr>)"

definition terminal_error :: "psub \<Rightarrow> paho_error" where
  "terminal_error u = (case ps_err u of None \<Rightarrow> PeClosed | Some e \<Rightarrow> e)"

definition psub_deliver :: "transport_message \<Rightarrow> psub \<Rightarrow> bool \<times> psub" where
  "psub_deliver m u =
     (if ps_done u then (True, u)
      else if length (ps_buffer u) < subscriptionBuffer
      then (True, u\<lparr>ps_buffer := ps_buffer u @ [m], ps_delivered := ps_delivered u @ [m]\<rparr>)
      else (False, u))"

text \<open>
  \<open>Receive\<close>: \<open>None\<close> while it blocks. \<open>ctx\<close> is the context's error once it has ended; when a message is
  ready too, \<open>pick\<close> is the choice of the \<open>select\<close>.
\<close>

definition psub_receive :: "string option \<Rightarrow> bool \<Rightarrow> psub \<Rightarrow> (paho_error + transport_message) option \<times> psub" where
  "psub_receive ctx pick u =
     (if ps_done u then (Some (Inl (terminal_error u)), u)
      else case (ps_buffer u, ctx) of
        ([], None) \<Rightarrow> (None, u)
      | ([], Some e) \<Rightarrow> (Some (Inl (PeContext e)), u)
      | (m # ms, None) \<Rightarrow> (Some (Inr m), u\<lparr>ps_buffer := ms, ps_received := ps_received u @ [m]\<rparr>)
      | (m # ms, Some e) \<Rightarrow>
          if pick then (Some (Inl (PeContext e)), u)
          else (Some (Inr m), u\<lparr>ps_buffer := ms, ps_received := ps_received u @ [m]\<rparr>))"

section \<open>One pass over the broker\<close>

text \<open>
  What the broker answers, and the order in which the runtime visits the two maps: an answer is an error of
  Paho or an acknowledgment, possibly \<open>nil\<close>, with its reason codes.
\<close>

type_synonym ack = "paho_error + bytes option"

record broker_env =
  be_subscribe_order :: "string list"
  be_unsubscribe_order :: "string list"
  be_subscribe :: "string \<Rightarrow> qos \<Rightarrow> ack"
  be_unsubscribe :: "string \<Rightarrow> ack"

datatype broker_command = BrSubscribe string qos | BrUnsubscribe string

definition validate_suback :: "string \<Rightarrow> bytes option \<Rightarrow> paho_error + unit" where
  "validate_suback topic a =
     (case a of
        Some [r] \<Rightarrow> guard (0x80 \<le> r) (PeText (''subscribe to '' @ topic @ '' was rejected''))
      | _ \<Rightarrow> Inl (PeText (''subscribe to '' @ topic @ '' returned an invalid acknowledgment'')))"

definition validate_unsuback :: "string \<Rightarrow> bytes option \<Rightarrow> paho_error + unit" where
  "validate_unsuback topic a =
     (case a of
        Some [r] \<Rightarrow> guard (0x80 \<le> r \<and> r \<noteq> 0x11) (PeText (''unsubscribe from '' @ topic @ '' was rejected''))
      | _ \<Rightarrow> Inl (PeText (''unsubscribe from '' @ topic @ '' returned an invalid acknowledgment'')))"

type_synonym topics = "string \<Rightarrow> qos option"

fun subscribe_pass :: "broker_env \<Rightarrow> topics \<Rightarrow> string list \<Rightarrow> topics \<Rightarrow> paho_error option \<times> topics \<times> broker_command list" where
  "subscribe_pass env desired [] broker = (None, broker, [])"
| "subscribe_pass env desired (t # ts) broker =
     (case desired t of
        None \<Rightarrow> subscribe_pass env desired ts broker
      | Some q \<Rightarrow>
          if broker t = Some q then subscribe_pass env desired ts broker
          else case be_subscribe env t q of
            Inl e \<Rightarrow> (Some (PeBroker ''subscribe'' t e), broker, [BrSubscribe t q])
          | Inr a \<Rightarrow>
              (case validate_suback t a of
                 Inl e \<Rightarrow> (Some (PeBroker ''subscribe'' t e), broker, [BrSubscribe t q])
               | Inr u \<Rightarrow>
                   let (err, broker', sent) = subscribe_pass env desired ts (broker(t \<mapsto> q))
                   in (err, broker', BrSubscribe t q # sent)))"

fun unsubscribe_pass :: "broker_env \<Rightarrow> topics \<Rightarrow> string list \<Rightarrow> topics \<Rightarrow> paho_error option \<times> topics \<times> broker_command list" where
  "unsubscribe_pass env desired [] broker = (None, broker, [])"
| "unsubscribe_pass env desired (t # ts) broker =
     (if desired t \<noteq> None then unsubscribe_pass env desired ts broker
      else case be_unsubscribe env t of
        Inl e \<Rightarrow> (Some (PeBroker ''unsubscribe'' t e), broker, [BrUnsubscribe t])
      | Inr a \<Rightarrow>
          (case validate_unsuback t a of
             Inl e \<Rightarrow> (Some (PeBroker ''unsubscribe'' t e), broker, [BrUnsubscribe t])
           | Inr u \<Rightarrow>
               let (err, broker', sent) = unsubscribe_pass env desired ts (broker(t := None))
               in (err, broker', BrUnsubscribe t # sent)))"

definition reconcile_broker :: "broker_env \<Rightarrow> topics \<Rightarrow> topics \<Rightarrow> paho_error option \<times> topics \<times> broker_command list" where
  "reconcile_broker env desired broker =
     (case subscribe_pass env desired (be_subscribe_order env) broker of
        (Some e, broker, sent) \<Rightarrow> (Some e, broker, sent)
      | (None, broker, sent) \<Rightarrow>
          (let (err, broker, sent') = unsubscribe_pass env desired (be_unsubscribe_order env) broker
           in (err, broker, sent @ sent')))"

text \<open>The orders visit every key of the maps once.\<close>

definition visits :: "broker_env \<Rightarrow> topics \<Rightarrow> topics \<Rightarrow> bool" where
  "visits env desired broker \<longleftrightarrow>
     distinct (be_subscribe_order env) \<and> set (be_subscribe_order env) = dom desired
     \<and> distinct (be_unsubscribe_order env)
     \<and> set (be_unsubscribe_order env) = dom (fst (snd (subscribe_pass env desired (be_subscribe_order env) broker)))"

text \<open>What a pass promises: which commands it sends, and the broker's topics after them.\<close>

fun command_topic :: "broker_command \<Rightarrow> string" where
  "command_topic (BrSubscribe t q) = t"
| "command_topic (BrUnsubscribe t) = t"

fun command_name :: "broker_command \<Rightarrow> string" where
  "command_name (BrSubscribe t q) = ''subscribe''"
| "command_name (BrUnsubscribe t) = ''unsubscribe''"

fun needed :: "topics \<Rightarrow> topics \<Rightarrow> broker_command \<Rightarrow> bool" where
  "needed desired broker (BrSubscribe t q) \<longleftrightarrow> desired t = Some q \<and> broker t \<noteq> Some q"
| "needed desired broker (BrUnsubscribe t) \<longleftrightarrow> desired t = None \<and> broker t \<noteq> None"

fun accepted :: "broker_env \<Rightarrow> broker_command \<Rightarrow> bool" where
  "accepted env (BrSubscribe t q) \<longleftrightarrow> is_ok (rbind (be_subscribe env t q) (validate_suback t))"
| "accepted env (BrUnsubscribe t) \<longleftrightarrow> is_ok (rbind (be_unsubscribe env t) (validate_unsuback t))"

definition acknowledged :: "paho_error option \<Rightarrow> broker_command list \<Rightarrow> string set" where
  "acknowledged err sent = command_topic ` set (if err = None then sent else butlast sent)"

fun names_last :: "paho_error option \<Rightarrow> broker_command list \<Rightarrow> bool" where
  "names_last None sent = True"
| "names_last (Some e) sent =
     (sent \<noteq> [] \<and> is_PeBroker e \<and> pe_operation e = command_name (last sent) \<and> pe_topic e = command_topic (last sent))"

definition pass_result ::
  "broker_env \<Rightarrow> topics \<Rightarrow> string list \<Rightarrow> topics \<Rightarrow> paho_error option \<times> topics \<times> broker_command list \<Rightarrow> bool" where
  "pass_result env desired ts broker r \<longleftrightarrow>
     (case r of (err, broker', sent) \<Rightarrow>
        distinct (map command_topic sent) \<and> command_topic ` set sent \<subseteq> set ts
        \<and> list_all (needed desired broker) sent \<and> (err = None \<longleftrightarrow> list_all (accepted env) sent) \<and> names_last err sent
        \<and> broker' = (\<lambda>t. if t \<in> acknowledged err sent then desired t else broker t))"

lemma needed_other: "t \<noteq> command_topic c \<Longrightarrow> needed desired (broker(t := x)) c = needed desired broker c"
  by (cases c) auto

lemma pass_result_send:
  assumes "pass_result env desired ts (broker(command_topic c := desired (command_topic c))) (err, broker', sent)"
    and "command_topic c \<notin> set ts" and "needed desired broker c" and "accepted env c"
  shows "pass_result env desired (command_topic c # ts) broker (err, broker', c # sent)"
proof -
  let ?t = "command_topic c"
  have out: "?t \<noteq> command_topic d" if "d \<in> set sent" for d using assms(1,2) that by (auto simp: pass_result_def)
  then have "list_all (needed desired broker) sent"
    using assms(1) needed_other [of ?t] by (auto simp: pass_result_def list_all_iff)
  moreover have "acknowledged err (c # sent) = insert ?t (acknowledged err sent)"
    using assms(1) by (cases err; cases sent) (auto simp: acknowledged_def pass_result_def)
  moreover have "names_last err (c # sent)"
    using assms(1) by (cases err; cases sent) (simp_all add: pass_result_def)
  ultimately show ?thesis using assms out by (auto simp: pass_result_def)
qed

lemma pass_result_skip:
  "pass_result env desired ts broker r \<Longrightarrow> pass_result env desired (t # ts) broker r"
  by (auto simp: pass_result_def split: prod.splits)

lemma pass_result_refused:
  assumes "needed desired broker c" and "\<not> accepted env c"
  shows "pass_result env desired (command_topic c # ts) broker (Some (PeBroker (command_name c) (command_topic c) e), broker, [c])"
  using assms by (simp add: pass_result_def acknowledged_def)

lemma subscribe_pass_result:
  "distinct ts \<Longrightarrow> pass_result env desired ts broker (subscribe_pass env desired ts broker)"
proof (induction env desired ts broker rule: subscribe_pass.induct)
  case (1 env desired broker)
  then show ?case by (simp add: pass_result_def acknowledged_def)
next
  case (2 env desired t ts broker)
  show ?case
  proof (cases "desired t = None \<or> broker t = desired t")
    case True
    then show ?thesis using 2 by (auto intro: pass_result_skip split: option.split)
  next
    case False
    then obtain q where q: "desired t = Some q" "broker t \<noteq> Some q" by auto
    let ?r = "rbind (be_subscribe env t q) (validate_suback t)"
    show ?thesis
    proof (cases ?r)
      case (Inl e)
      then have "pass_result env desired (t # ts) broker (Some (PeBroker ''subscribe'' t e'), broker, [BrSubscribe t q])" for e'
        using q pass_result_refused [of desired broker "BrSubscribe t q" env ts] by simp
      then show ?thesis using q Inl by (auto simp: rbind_def split: sum.splits)
    next
      case (Inr u)
      then obtain a where a: "be_subscribe env t q = Inr a" "validate_suback t a = Inr u" by (auto simp: rbind_eq_Inr)
      obtain err b sent where r: "subscribe_pass env desired ts (broker(t \<mapsto> q)) = (err, b, sent)" by (metis prod_cases3)
      have "distinct ts" using "2.prems" by simp
      from "2.IH"(3) [OF q a this] have "pass_result env desired ts (broker(t \<mapsto> q)) (err, b, sent)" unfolding r .
      then show ?thesis
        using q a r "2.prems" pass_result_send [of env desired ts broker "BrSubscribe t q" err b sent] by simp
    qed
  qed
qed

lemma unsubscribe_pass_result:
  "distinct ts \<Longrightarrow> set ts \<subseteq> dom broker \<Longrightarrow>
    pass_result env desired ts broker (unsubscribe_pass env desired ts broker)"
proof (induction env desired ts broker rule: unsubscribe_pass.induct)
  case (1 env desired broker)
  then show ?case by (simp add: pass_result_def acknowledged_def)
next
  case (2 env desired t ts broker)
  show ?case
  proof (cases "desired t = None")
    case False
    then show ?thesis using 2 by (auto intro: pass_result_skip)
  next
    case True
    have b: "broker t \<noteq> None" using "2.prems" by auto
    let ?r = "rbind (be_unsubscribe env t) (validate_unsuback t)"
    show ?thesis
    proof (cases ?r)
      case (Inl e)
      then have "pass_result env desired (t # ts) broker (Some (PeBroker ''unsubscribe'' t e'), broker, [BrUnsubscribe t])" for e'
        using True b pass_result_refused [of desired broker "BrUnsubscribe t" env ts] by simp
      then show ?thesis using True Inl by (auto simp: rbind_def split: sum.splits)
    next
      case (Inr u)
      then obtain a where a: "be_unsubscribe env t = Inr a" "validate_unsuback t a = Inr u" by (auto simp: rbind_eq_Inr)
      obtain err b' sent where r: "unsubscribe_pass env desired ts (broker(t := None)) = (err, b', sent)" by (metis prod_cases3)
      have n: "\<not> desired t \<noteq> None" using True by simp
      have "distinct ts" "set ts \<subseteq> dom (broker(t := None))" using "2.prems" by auto
      from "2.IH"(2) [OF n a this] have "pass_result env desired ts (broker(t := None)) (err, b', sent)" unfolding r .
      then show ?thesis
        using True b a r "2.prems" pass_result_send [of env desired ts broker "BrUnsubscribe t" err b' sent] by simp
    qed
  qed
qed

subsection \<open>What a pass achieves\<close>

lemma acknowledged_sent: "acknowledged err sent \<subseteq> command_topic ` set sent"
  by (auto simp: acknowledged_def dest: in_set_butlastD)

lemma pass_result_outside:
  "pass_result env desired ts broker r \<Longrightarrow> t \<notin> set ts \<Longrightarrow> fst (snd r) t = broker t"
  using acknowledged_sent [of "fst r" "snd (snd r)"] by (cases r) (auto simp: pass_result_def)

lemma subscribe_pass_complete:
  "subscribe_pass env desired ts broker = (None, b, sent) \<Longrightarrow> distinct ts \<Longrightarrow> t \<in> set ts \<Longrightarrow> desired t \<noteq> None \<Longrightarrow>
    b t = desired t"
proof (induction ts arbitrary: broker sent)
  case (Cons x ts)
  obtain broker' s where r: "subscribe_pass env desired ts broker' = (None, b, s)"
    and x: "desired x = None \<or> broker' x = desired x"
  proof (cases "desired x = None \<or> broker x = desired x")
    case True
    then show ?thesis using Cons.prems(1) that [of broker sent] by (auto split: option.splits)
  next
    case False
    then obtain q where "desired x = Some q" "broker x \<noteq> Some q" by auto
    then show ?thesis
      using Cons.prems(1) that [of "broker(x \<mapsto> q)"] by (auto simp: Let_def split: sum.splits prod.splits)
  qed
  have "b x = broker' x"
    using pass_result_outside [OF subscribe_pass_result [of ts env desired broker'], of x] Cons.prems(2) r by simp
  then show ?case using Cons.IH [OF r] Cons.prems x by auto
qed simp

lemma unsubscribe_pass_complete:
  "unsubscribe_pass env desired ts broker = (None, b, sent) \<Longrightarrow> distinct ts \<Longrightarrow> set ts \<subseteq> dom broker \<Longrightarrow> t \<in> set ts \<Longrightarrow>
    desired t = None \<Longrightarrow> b t = None"
proof (induction ts arbitrary: broker sent)
  case (Cons x ts)
  obtain broker' s where r: "unsubscribe_pass env desired ts broker' = (None, b, s)"
    and x: "desired x \<noteq> None \<or> broker' x = None" and o: "\<And>y. y \<noteq> x \<Longrightarrow> broker' y = broker y"
  proof (cases "desired x = None")
    case False
    then show ?thesis using Cons.prems(1) that [of broker sent] by auto
  next
    case True
    then show ?thesis
      using Cons.prems(1) that [of "broker(x := None)"] by (auto simp: Let_def split: sum.splits prod.splits)
  qed
  have sub: "set ts \<subseteq> dom broker'" using Cons.prems(2,3) o by fastforce
  have "b x = broker' x"
    using pass_result_outside [OF unsubscribe_pass_result [OF _ sub, of env desired], of x] Cons.prems(2) r by simp
  then show ?case using Cons.IH [OF r _ sub] Cons.prems x by auto
qed simp

lemma reconcile_broker_result:
  assumes "visits env desired broker"
  shows "pass_result env desired (be_subscribe_order env @ be_unsubscribe_order env) broker (reconcile_broker env desired broker)"
proof -
  obtain e1 b1 s1 where r1: "subscribe_pass env desired (be_subscribe_order env) broker = (e1, b1, s1)" by (metis prod_cases3)
  have p1: "pass_result env desired (be_subscribe_order env) broker (e1, b1, s1)"
    using subscribe_pass_result [of "be_subscribe_order env" env desired broker] assms r1 by (simp add: visits_def)
  show ?thesis
  proof (cases e1)
    case (Some e)
    then show ?thesis using r1 p1 by (auto simp: reconcile_broker_def pass_result_def)
  next
    case None
    obtain e2 b2 s2 where r2: "unsubscribe_pass env desired (be_unsubscribe_order env) b1 = (e2, b2, s2)" by (metis prod_cases3)
    have p2: "pass_result env desired (be_unsubscribe_order env) b1 (e2, b2, s2)"
      using unsubscribe_pass_result [of "be_unsubscribe_order env" b1 env desired] assms r1 r2 by (simp add: visits_def)
    have d1: "desired (command_topic c) \<noteq> None" if "c \<in> set s1" for c
      using p1 that assms by (auto simp: pass_result_def visits_def)
    have "desired (command_topic c) = None" if "c \<in> set s2" for c
    proof -
      have "needed desired b1 c" "command_topic c \<in> dom b1"
        using p2 that assms r1 by (auto simp: pass_result_def visits_def list_all_iff)
      moreover have "b1 t = Some q" if "desired t = Some q" for t q
        using subscribe_pass_complete [of env desired "be_subscribe_order env" broker b1 s1 t] r1 None assms that
        by (auto simp: visits_def)
      ultimately show ?thesis by (cases c) auto
    qed
    then have d2: "desired (command_topic c) = None" "b1 (command_topic c) = broker (command_topic c)" if "c \<in> set s2" for c
      using p1 d1 None that by (force simp: pass_result_def acknowledged_def)+
    have "needed desired broker c" if "c \<in> set s2" for c
      using p2 d2 [OF that] that by (cases c) (auto simp: pass_result_def list_all_iff)
    moreover have "distinct (map command_topic (s1 @ s2))"
      using p1 p2 d1 d2 by (fastforce simp: pass_result_def)
    moreover have "names_last e2 (s1 @ s2)" using p2 by (cases e2; cases s2) (auto simp: pass_result_def)
    moreover have "acknowledged e2 (s1 @ s2) = acknowledged None s1 \<union> acknowledged e2 s2"
      using p2 by (cases e2; cases s2) (auto simp: acknowledged_def pass_result_def butlast_append)
    ultimately show ?thesis
      using p1 p2 None r1 r2 by (auto simp: reconcile_broker_def pass_result_def list_all_iff fun_eq_iff)
  qed
qed

lemma reconcile_broker_complete:
  assumes v: "visits env desired broker" and "reconcile_broker env desired broker = (None, b, sent)"
  shows "b = desired"
proof
  fix t
  obtain b1 s1 s2 where r1: "subscribe_pass env desired (be_subscribe_order env) broker = (None, b1, s1)"
    and r2: "unsubscribe_pass env desired (be_unsubscribe_order env) b1 = (None, b, s2)"
    using assms(2) by (auto simp: reconcile_broker_def Let_def split: option.splits prod.splits)
  have u: "distinct (be_unsubscribe_order env)" "set (be_unsubscribe_order env) = dom b1" using v r1 by (simp_all add: visits_def)
  have p2: "pass_result env desired (be_unsubscribe_order env) b1 (None, b, s2)"
    using unsubscribe_pass_result [of "be_unsubscribe_order env" b1 env desired] u r2 by simp
  show "b t = desired t"
  proof (cases "desired t")
    case None
    show ?thesis
    proof (cases "b1 t")
      case None
      then show ?thesis using p2 \<open>desired t = None\<close> by (auto simp: pass_result_def)
    next
      case (Some q)
      then have "t \<in> set (be_unsubscribe_order env)" using u by auto
      then show ?thesis
        using unsubscribe_pass_complete [of env desired "be_unsubscribe_order env" b1 b s2 t] u r2 \<open>desired t = None\<close> by simp
    qed
  next
    case (Some q)
    then have "b1 t = desired t"
      using subscribe_pass_complete [of env desired "be_subscribe_order env" broker b1 s1 t] v r1 by (auto simp: visits_def)
    then show ?thesis using p2 by (auto simp: pass_result_def)
  qed
qed

section \<open>The transport\<close>

text \<open>
  An operation of \<open>reconcileSync\<close> is made by one \<open>Subscribe\<close> or one \<open>Close\<close> of a subscription. It waits
  to be taken by the loop, is running, or has its result in its channel.
\<close>

datatype broker_operation = OpSubscribe nat | OpClose nat

datatype op_stage = OpAbsent | OpWaiting | OpRunning | OpDone "paho_error option"

datatype pass_cause = PassOperation broker_operation | PassReconnect | PassReconcile | PassRetry

text \<open>The loop is at its \<open>select\<close>, in a pass for the topics it read under \<open>mu\<close>, or has returned.\<close>

datatype loop_state = LoopIdle | LoopPass pass_cause topics | LoopEnded

text \<open>
  \<open>tr_regs\<close> is the map \<open>subscriptions\<close>, a topic without entry has none; subscriptions are named by their
  index in \<open>tr_items\<close>. \<open>tr_routing\<close> is the message that \<open>route\<close> is handing out, with the subscriptions it
  still has to visit. \<open>tr_down\<close> records that Paho has reported a lost connection and not yet a new one.
\<close>

record transport =
  tr_items :: "psub list"
  tr_regs :: "string \<Rightarrow> nat list"
  tr_closing :: bool \<comment> \<open>\<open>closeOnce\<close> has run\<close>
  tr_done :: bool
  tr_ops :: "broker_operation \<Rightarrow> op_stage"
  tr_reconcile :: bool
  tr_reconnect :: bool
  tr_loop :: loop_state
  tr_broker :: topics
  tr_delay :: int \<comment> \<open>milliseconds\<close>
  tr_timer :: bool
  tr_routing :: "(paho_packet \<times> nat list) option"
  tr_down :: bool
  tr_close_err :: "paho_error option option"

definition reconcileRetryInitial :: int where
  "reconcileRetryInitial = 25"

definition reconcileRetryMaximum :: int where
  "reconcileRetryMaximum = 1000"

definition new_transport :: transport where
  "new_transport = \<lparr>tr_items = [], tr_regs = (\<lambda>_. []), tr_closing = False, tr_done = False, tr_ops = (\<lambda>_. OpAbsent),
     tr_reconcile = False, tr_reconnect = False, tr_loop = LoopIdle, tr_broker = (\<lambda>_. None),
     tr_delay = reconcileRetryInitial, tr_timer = False, tr_routing = None, tr_down = False, tr_close_err = None\<rparr>"

definition request_reconcile :: "transport \<Rightarrow> transport" where
  "request_reconcile s = (if tr_done s then s else s\<lparr>tr_reconcile := True\<rparr>)"

definition request_reconnect :: "transport \<Rightarrow> transport" where
  "request_reconnect s = (if tr_done s then s else s\<lparr>tr_reconnect := True\<rparr>)"

text \<open>The callback \<open>OnConnectionUp\<close>.\<close>

definition connection_up :: "transport \<Rightarrow> transport" where
  "connection_up s = request_reconnect (s\<lparr>tr_down := False\<rparr>)"

definition upd_item :: "nat \<Rightarrow> (psub \<Rightarrow> psub) \<Rightarrow> transport \<Rightarrow> transport" where
  "upd_item i f s = s\<lparr>tr_items := (tr_items s)[i := f (tr_items s ! i)]\<rparr>"

definition fail_item :: "paho_error \<Rightarrow> nat \<Rightarrow> transport \<Rightarrow> transport" where
  "fail_item e i s = upd_item i (psub_fail e) s"

definition fail_items :: "paho_error \<Rightarrow> nat list \<Rightarrow> transport \<Rightarrow> transport" where
  "fail_items e is s = fold (fail_item e) is s"

definition remove_item :: "nat \<Rightarrow> transport \<Rightarrow> transport" where
  "remove_item i s =
     (let t = ps_topic (tr_items s ! i)
      in request_reconcile (s\<lparr>tr_regs := (tr_regs s)(t := removeAll i (tr_regs s t))\<rparr>))"

definition fail_topic :: "string \<Rightarrow> paho_error \<Rightarrow> transport \<Rightarrow> transport" where
  "fail_topic t e s = request_reconcile (fail_items e (tr_regs s t) (s\<lparr>tr_regs := (tr_regs s)(t := [])\<rparr>))"

text \<open>\<open>failAll\<close>; the subscriptions registered under any topic, in the order of their creation.\<close>

definition fail_all :: "paho_error \<Rightarrow> transport \<Rightarrow> transport" where
  "fail_all e s =
     fail_items e (filter (\<lambda>i. i \<in> set (tr_regs s (ps_topic (tr_items s ! i)))) [0..<length (tr_items s)])
       (s\<lparr>tr_regs := (\<lambda>_. [])\<rparr>)"

text \<open>The topics \<open>reconcileBroker\<close> wants, each with the highest quality any subscription asks for.\<close>

definition desired_qos :: "qos list \<Rightarrow> qos option" where
  "desired_qos qs = foldl (\<lambda>acc q. case acc of None \<Rightarrow> Some q | Some c \<Rightarrow> if c < q then Some q else Some c) None qs"

definition desired :: "transport \<Rightarrow> topics" where
  "desired s = (\<lambda>t. desired_qos (map (\<lambda>i. ps_qos (tr_items s ! i)) (tr_regs s t)))"

subsection \<open>The reconcile loop\<close>

definition clear_retry :: "transport \<Rightarrow> transport" where
  "clear_retry s = s\<lparr>tr_timer := False, tr_delay := reconcileRetryInitial\<rparr>"

definition schedule_retry :: "transport \<Rightarrow> transport" where
  "schedule_retry s =
     (if tr_timer s then s else s\<lparr>tr_timer := True, tr_delay := min (tr_delay s * 2) reconcileRetryMaximum\<rparr>)"

definition handle_result :: "paho_error option \<Rightarrow> transport \<Rightarrow> transport" where
  "handle_result err s =
     (case err of
        None \<Rightarrow> clear_retry s
      | Some e \<Rightarrow>
          if is_down e then clear_retry (s\<lparr>tr_down := True\<rparr>)
          else (case e of
             PeBroker op t inner \<Rightarrow>
               if op = ''subscribe'' then fail_topic t inner (clear_retry s) else schedule_retry s
           | _ \<Rightarrow> schedule_retry s))"

text \<open>The branches of the \<open>select\<close>, up to the read of the subscriptions in \<open>reconcileBroker\<close>.\<close>

definition begin_pass :: "pass_cause \<Rightarrow> transport \<Rightarrow> transport" where
  "begin_pass c s =
     (let s = (case c of
                 PassOperation op \<Rightarrow> s\<lparr>tr_ops := (tr_ops s)(op := OpRunning)\<rparr>
               | PassReconnect \<Rightarrow> clear_retry (s\<lparr>tr_reconnect := False, tr_broker := (\<lambda>_. None)\<rparr>)
               | PassReconcile \<Rightarrow> s\<lparr>tr_reconcile := False\<rparr>
               | PassRetry \<Rightarrow> s\<lparr>tr_timer := False\<rparr>)
      in s\<lparr>tr_loop := LoopPass c (desired s)\<rparr>)"

definition pass_ready :: "pass_cause \<Rightarrow> transport \<Rightarrow> bool" where
  "pass_ready c s =
     (case c of
        PassOperation op \<Rightarrow> tr_ops s op = OpWaiting
      | PassReconnect \<Rightarrow> tr_reconnect s
      | PassReconcile \<Rightarrow> tr_reconcile s
      | PassRetry \<Rightarrow> tr_timer s)"

text \<open>The end of the pass: \<open>handleResult\<close>, then the result for the operation, if its maker has not left.\<close>

definition finish_pass :: "broker_env \<Rightarrow> transport \<Rightarrow> transport" where
  "finish_pass env s =
     (case tr_loop s of
        LoopPass c d \<Rightarrow>
          (let (err, broker, sent) = reconcile_broker env d (tr_broker s);
               s = handle_result err (s\<lparr>tr_broker := broker, tr_loop := LoopIdle\<rparr>)
           in case c of
                PassOperation op \<Rightarrow>
                  if tr_ops s op = OpRunning then s\<lparr>tr_ops := (tr_ops s)(op := OpDone err)\<rparr> else s
              | _ \<Rightarrow> s)
      | _ \<Rightarrow> s)"

subsection \<open>Subscribe, Close and the messages\<close>

text \<open>\<open>Subscribe\<close> up to the registration of the new subscription.\<close>

definition begin_subscribe :: "string \<Rightarrow> qos \<Rightarrow> int \<Rightarrow> transport \<Rightarrow> (paho_error + nat) \<times> transport" where
  "begin_subscribe topic q maximum s =
     (if tr_done s then (Inl PeClosed, s)
      else case validate_exact_topic topic of
        Inl e \<Rightarrow> (Inl e, s)
      | Inr u \<Rightarrow>
          if 2 < q then (Inl (PeText ''paho subscription QoS must be 0, 1, or 2''), s)
          else if maximum \<le> 0 then (Inl (PeText ''paho subscription maximum payload must be greater than zero''), s)
          else
            let i = length (tr_items s)
            in (Inr i, s\<lparr>tr_items := tr_items s @ [new_psub topic q maximum],
                        tr_regs := (tr_regs s)(topic := tr_regs s topic @ [i]),
                        tr_ops := (tr_ops s)(OpSubscribe i := OpWaiting)\<rparr>))"

text \<open>
  The end of \<open>reconcileSync\<close>: the result of the loop, or the end of the transport or of the caller's
  context, whichever its \<open>select\<close> sees first.
\<close>

fun sync_result :: "op_stage \<Rightarrow> bool \<Rightarrow> paho_error option \<Rightarrow> paho_error option set" where
  "sync_result stage closed ctx =
     (case stage of OpDone r \<Rightarrow> {r} | _ \<Rightarrow> {}) \<union> (if closed then {Some PeClosed} else {})
     \<union> (case ctx of None \<Rightarrow> {} | Some e \<Rightarrow> {Some e})"

definition finish_subscribe :: "nat \<Rightarrow> paho_error option \<Rightarrow> transport \<Rightarrow> transport" where
  "finish_subscribe i err s =
     (let s = s\<lparr>tr_ops := (tr_ops s)(OpSubscribe i := OpAbsent)\<rparr>
      in case err of None \<Rightarrow> s | Some e \<Rightarrow> fail_item e i (remove_item i s))"

definition begin_close_item :: "nat \<Rightarrow> transport \<Rightarrow> transport" where
  "begin_close_item i s =
     (if ps_closing (tr_items s ! i) then s
      else (let s = remove_item i (fail_item PeClosed i (upd_item i (\<lambda>u. u\<lparr>ps_closing := True\<rparr>) s))
            in s\<lparr>tr_ops := (tr_ops s)(OpClose i := OpWaiting)\<rparr>))"

definition finish_close_item :: "nat \<Rightarrow> paho_error option \<Rightarrow> transport \<Rightarrow> transport" where
  "finish_close_item i err s =
     upd_item i (\<lambda>u. u\<lparr>ps_close_err := Some err\<rparr>) (s\<lparr>tr_ops := (tr_ops s)(OpClose i := OpAbsent)\<rparr>)"

text \<open>\<open>route\<close>: the subscriptions of the topic are read under \<open>mu\<close>, then visited one by one.\<close>

definition begin_route :: "paho_packet \<Rightarrow> transport \<Rightarrow> bool \<times> transport" where
  "begin_route p s =
     (let is = tr_regs s (pk_topic p)
      in if is = [] then (False, s)
         else (True, fold (\<lambda>i. upd_item i (\<lambda>u. u\<lparr>ps_routed := ps_routed u @ [message_of p]\<rparr>)) is
                       (s\<lparr>tr_routing := Some (p, is)\<rparr>)))"

definition route_item :: "paho_packet \<Rightarrow> nat \<Rightarrow> transport \<Rightarrow> transport" where
  "route_item p i s =
     (if ps_max (tr_items s ! i) < int (length (pk_payload p)) then remove_item i (fail_item PeTooLarge i s)
      else case psub_deliver (message_of p) (tr_items s ! i) of
        (True, u) \<Rightarrow> upd_item i (\<lambda>_. u) s
      | (False, u) \<Rightarrow> remove_item i (fail_item PeSlow i s))"

definition next_route :: "transport \<Rightarrow> transport" where
  "next_route s =
     (case tr_routing s of
        None \<Rightarrow> s
      | Some (p, []) \<Rightarrow> s\<lparr>tr_routing := None\<rparr>
      | Some (p, i # is) \<Rightarrow> route_item p i (s\<lparr>tr_routing := Some (p, is)\<rparr>))"

definition receive_item :: "string option \<Rightarrow> bool \<Rightarrow> nat \<Rightarrow> transport \<Rightarrow> transport" where
  "receive_item ctx pick i s = upd_item i (\<lambda>u. snd (psub_receive ctx pick u)) s"

text \<open>\<open>Close\<close> of the transport: \<open>failAll\<close>, then the cancellation of the lifetime, then \<open>Disconnect\<close>.\<close>

definition begin_close :: "transport \<Rightarrow> transport" where
  "begin_close s = (if tr_closing s then s else fail_all PeClosed (s\<lparr>tr_closing := True\<rparr>))"

definition cancel_lifetime :: "transport \<Rightarrow> transport" where
  "cancel_lifetime s = s\<lparr>tr_done := True\<rparr>"

definition end_loop :: "transport \<Rightarrow> transport" where
  "end_loop s = clear_retry (s\<lparr>tr_loop := LoopEnded\<rparr>)"

definition finish_close :: "paho_error option \<Rightarrow> transport \<Rightarrow> transport" where
  "finish_close disconnect s = s\<lparr>tr_close_err := Some disconnect\<rparr>"

definition transport_publish :: "(paho_packet \<Rightarrow> paho_error option) \<Rightarrow> transport_message \<Rightarrow> transport \<Rightarrow> paho_error option" where
  "transport_publish send m s =
     (if tr_done s then Some PeClosed
      else case validate_exact_topic (tm_topic m) of
        Inl e \<Rightarrow> Some e
      | Inr u \<Rightarrow>
          if 2 < tm_qos m then Some (PeText ''paho publish QoS must be 0, 1, or 2'')
          else send (packet_of m))"

text \<open>\<open>Dial\<close>: a connection that does not come up is closed again, with nobody else holding the transport.\<close>

definition dial :: "paho_error option \<Rightarrow> paho_error option \<Rightarrow> paho_error option \<Rightarrow> paho_error + transport" where
  "dial connect await disconnect =
     (case connect of
        Some e \<Rightarrow> Inl e
      | None \<Rightarrow>
          (case await of
             None \<Rightarrow> Inr new_transport
           | Some e \<Rightarrow>
               let s = finish_close disconnect (end_loop (cancel_lifetime (begin_close new_transport)))
               in Inl (PeJoin (e # (case tr_close_err s of Some (Some d) \<Rightarrow> [d] | _ \<Rightarrow> [])))))"

section \<open>Interleavings\<close>

inductive transport_step :: "transport \<Rightarrow> transport \<Rightarrow> bool" where
  subscribe: "transport_step s (snd (begin_subscribe t q m s))"
| subscribed: "tr_ops s (OpSubscribe i) \<noteq> OpAbsent \<Longrightarrow> i < length (tr_items s) \<Longrightarrow>
    err \<in> sync_result (tr_ops s (OpSubscribe i)) (tr_done s) (map_option PeContext ctx) \<Longrightarrow>
    transport_step s (finish_subscribe i err s)"
| close_item: "i < length (tr_items s) \<Longrightarrow> transport_step s (begin_close_item i s)"
| closed_item: "tr_ops s (OpClose i) \<noteq> OpAbsent \<Longrightarrow> i < length (tr_items s) \<Longrightarrow>
    err \<in> sync_result (tr_ops s (OpClose i)) (tr_done s) (map_option PeContext ctx) \<Longrightarrow>
    transport_step s (finish_close_item i err s)"
| pass: "tr_loop s = LoopIdle \<Longrightarrow> pass_ready c s \<Longrightarrow> transport_step s (begin_pass c s)"
| passed: "tr_loop s = LoopPass c d \<Longrightarrow> visits env d (tr_broker s) \<Longrightarrow> transport_step s (finish_pass env s)"
| up: "transport_step s (connection_up s)"
| route: "tr_routing s = None \<Longrightarrow> transport_step s (snd (begin_route p s))"
| routed: "transport_step s (next_route s)"
| receive: "i < length (tr_items s) \<Longrightarrow> transport_step s (receive_item ctx pick i s)"
| close: "transport_step s (begin_close s)"
| cancel: "tr_closing s \<Longrightarrow> transport_step s (cancel_lifetime s)"
| ended: "tr_done s \<Longrightarrow> tr_loop s = LoopIdle \<Longrightarrow> transport_step s (end_loop s)"
| disconnect: "tr_loop s = LoopEnded \<Longrightarrow> transport_step s (finish_close err s)"

inductive transport_reach :: "transport \<Rightarrow> bool" where
  dialled: "transport_reach new_transport"
| step: "transport_reach s \<Longrightarrow> transport_step s t \<Longrightarrow> transport_reach t"

subsection \<open>Fields the operations keep\<close>

lemma upd_item_simps [simp]:
  "tr_regs (upd_item i f s) = tr_regs s" "tr_closing (upd_item i f s) = tr_closing s" "tr_done (upd_item i f s) = tr_done s"
  "tr_ops (upd_item i f s) = tr_ops s" "tr_reconcile (upd_item i f s) = tr_reconcile s" "tr_reconnect (upd_item i f s) = tr_reconnect s"
  "tr_loop (upd_item i f s) = tr_loop s" "tr_broker (upd_item i f s) = tr_broker s" "tr_delay (upd_item i f s) = tr_delay s"
  "tr_timer (upd_item i f s) = tr_timer s" "tr_routing (upd_item i f s) = tr_routing s" "tr_down (upd_item i f s) = tr_down s"
  "length (tr_items (upd_item i f s)) = length (tr_items s)"
  by (simp_all add: upd_item_def)

lemma nth_upd_item [simp]:
  "j < length (tr_items s) \<Longrightarrow> tr_items (upd_item i f s) ! j = (if j = i then f (tr_items s ! j) else tr_items s ! j)"
  by (simp add: upd_item_def)

lemma psub_fail_simps [simp]:
  "ps_topic (psub_fail e u) = ps_topic u" "ps_qos (psub_fail e u) = ps_qos u" "ps_done (psub_fail e u)"
  "psub_fail e (psub_fail e' u) = psub_fail e' u"
  by (simp_all add: psub_fail_def)

lemma fail_items_simps [simp]:
  "tr_regs (fail_items e is s) = tr_regs s" "tr_closing (fail_items e is s) = tr_closing s" "tr_done (fail_items e is s) = tr_done s"
  "tr_ops (fail_items e is s) = tr_ops s" "tr_reconcile (fail_items e is s) = tr_reconcile s"
  "tr_reconnect (fail_items e is s) = tr_reconnect s" "tr_loop (fail_items e is s) = tr_loop s"
  "tr_broker (fail_items e is s) = tr_broker s" "tr_delay (fail_items e is s) = tr_delay s"
  "tr_timer (fail_items e is s) = tr_timer s" "tr_routing (fail_items e is s) = tr_routing s" "tr_down (fail_items e is s) = tr_down s"
  "length (tr_items (fail_items e is s)) = length (tr_items s)"
  by (induction "is" arbitrary: s) (simp_all add: fail_items_def fail_item_def)

lemma nth_fail_items [simp]:
  "j < length (tr_items s) \<Longrightarrow>
    tr_items (fail_items e is s) ! j = (if j \<in> set is then psub_fail e (tr_items s ! j) else tr_items s ! j)"
  by (induction "is" arbitrary: s) (auto simp: fail_items_def fail_item_def)

lemma request_simps [simp]:
  "tr_items (request_reconcile s) = tr_items s" "tr_regs (request_reconcile s) = tr_regs s"
  "tr_closing (request_reconcile s) = tr_closing s" "tr_done (request_reconcile s) = tr_done s"
  "tr_ops (request_reconcile s) = tr_ops s" "tr_reconnect (request_reconcile s) = tr_reconnect s"
  "tr_loop (request_reconcile s) = tr_loop s" "tr_broker (request_reconcile s) = tr_broker s"
  "tr_delay (request_reconcile s) = tr_delay s" "tr_timer (request_reconcile s) = tr_timer s"
  "tr_routing (request_reconcile s) = tr_routing s" "tr_down (request_reconcile s) = tr_down s"
  "tr_reconcile (request_reconcile s) \<longleftrightarrow> tr_reconcile s \<or> \<not> tr_done s"
  by (simp_all add: request_reconcile_def)

subsection \<open>The subscriptions\<close>

definition in_flight :: "transport \<Rightarrow> nat \<Rightarrow> transport_message list" where
  "in_flight s i = (case tr_routing s of Some (p, is) \<Rightarrow> if i \<in> set is then [message_of p] else [] | None \<Rightarrow> [])"

definition fits_in :: "psub \<Rightarrow> transport_message \<Rightarrow> bool" where
  "fits_in u m \<longleftrightarrow> tm_topic m = ps_topic u \<and> int (length (tm_payload m)) \<le> ps_max u"

definition psub_ok :: "transport_message list \<Rightarrow> bool \<Rightarrow> psub \<Rightarrow> bool" where
  "psub_ok fl registered u \<longleftrightarrow>
     (ps_done u \<longleftrightarrow> ps_err u \<noteq> None) \<and> length (ps_buffer u) \<le> subscriptionBuffer
     \<and> ps_received u @ ps_buffer u = ps_delivered u \<and> list_all (fits_in u) (ps_delivered u)
     \<and> prefix (ps_delivered u) (ps_routed u)
     \<and> (if ps_done u then True else ps_routed u = ps_delivered u @ fl \<and> registered)"

definition registered :: "transport \<Rightarrow> nat \<Rightarrow> bool" where
  "registered s i \<longleftrightarrow> i \<in> set (tr_regs s (ps_topic (tr_items s ! i)))"

definition known :: "transport \<Rightarrow> string \<Rightarrow> nat list \<Rightarrow> bool" where
  "known s t is \<longleftrightarrow> distinct is \<and> (\<forall>i\<in>set is. i < length (tr_items s) \<and> ps_topic (tr_items s ! i) = t)"

definition items_inv :: "transport \<Rightarrow> bool" where
  "items_inv s \<longleftrightarrow>
     (\<forall>i < length (tr_items s). psub_ok (in_flight s i) (registered s i) (tr_items s ! i))
     \<and> (\<forall>t. known s t (tr_regs s t))
     \<and> (case tr_routing s of None \<Rightarrow> True | Some (p, is) \<Rightarrow> known s (pk_topic p) is)"

lemma items_invD:
  assumes "items_inv s"
  shows "i < length (tr_items s) \<Longrightarrow> psub_ok (in_flight s i) (registered s i) (tr_items s ! i)"
    and "known s t (tr_regs s t)" and "tr_routing s = Some (p, is) \<Longrightarrow> known s (pk_topic p) is"
  using assms by (auto simp: items_inv_def)

text \<open>An operation that ends some subscriptions, keeps the others and removes ended ones only.\<close>

lemma psub_ok_fail [simp]: "psub_ok fl r u \<Longrightarrow> psub_ok fl' r' (psub_fail e u)"
  by (auto simp: psub_ok_def psub_fail_def fits_in_def list_all_iff split: if_splits)

lemma psub_ok_done: "psub_ok fl r u \<Longrightarrow> ps_done u \<Longrightarrow> psub_ok fl' r' u"
  by (simp add: psub_ok_def)

lemma items_invI:
  assumes "items_inv s" and len: "length (tr_items t) = length (tr_items s)"
    and "\<And>i. i < length (tr_items s) \<Longrightarrow> ps_topic (tr_items t ! i) = ps_topic (tr_items s ! i)"
    and ok: "\<And>i. i < length (tr_items s) \<Longrightarrow> psub_ok (in_flight s i) (registered s i) (tr_items s ! i) \<Longrightarrow>
      psub_ok (in_flight t i) (registered t i) (tr_items t ! i)"
    and regs: "\<And>x. set (tr_regs t x) \<subseteq> set (tr_regs s x) \<and> (distinct (tr_regs s x) \<longrightarrow> distinct (tr_regs t x))"
    and rt: "case tr_routing t of None \<Rightarrow> True | Some (p, is) \<Rightarrow> known s (pk_topic p) is"
  shows "items_inv t"
proof -
  have k: "known t x is" if "known s x is" for x "is" using that assms(3) len by (auto simp: known_def)
  have "known s x (tr_regs t x)" for x
    using items_invD(2) [OF assms(1), of x] regs [of x] by (auto simp: known_def)
  then show ?thesis
    using assms(1) ok len rt k by (auto simp: items_inv_def split: option.splits prod.splits)
qed

lemma fits_in_simps [simp]:
  "fits_in (u\<lparr>ps_buffer := b\<rparr>) = fits_in u" "fits_in (u\<lparr>ps_delivered := d\<rparr>) = fits_in u"
  "fits_in (u\<lparr>ps_received := r\<rparr>) = fits_in u" "fits_in (u\<lparr>ps_routed := x\<rparr>) = fits_in u"
  "fits_in (u\<lparr>ps_closing := c\<rparr>) = fits_in u" "fits_in (u\<lparr>ps_close_err := y\<rparr>) = fits_in u"
  by (auto simp: fits_in_def)

lemma items_inv_cong:
  assumes "items_inv s" and "tr_items t = tr_items s" "tr_regs t = tr_regs s" "tr_routing t = tr_routing s"
  shows "items_inv t"
proof -
  have "known t = known s" using assms(2) by (simp add: known_def fun_eq_iff)
  then show ?thesis
    using assms by (simp add: items_inv_def in_flight_def registered_def split: option.splits prod.splits)
qed

lemma registered_cong [simp]: "registered (upd_item i f s) j = registered s j"
  if "j < length (tr_items s)" "\<And>u. ps_topic (f u) = ps_topic u"
  using that by (simp add: registered_def)

lemma in_flight_cong: "tr_routing t = tr_routing s \<Longrightarrow> in_flight t = in_flight s"
  by (simp add: in_flight_def fun_eq_iff)

lemma items_inv_upd:
  assumes "items_inv s" and "\<And>u. ps_topic (f u) = ps_topic u"
    and "\<And>fl r u. psub_ok fl r u \<Longrightarrow> psub_ok fl r (f u)"
  shows "items_inv (upd_item i f s)"
  using assms items_invD(3) [OF assms(1)]
  by (intro items_invI [OF assms(1)]) (auto simp: in_flight_def split: option.splits)

lemma items_inv_remove:
  assumes "items_inv s" and "i < length (tr_items s)" and "ps_done (tr_items s ! i)"
  shows "items_inv (remove_item i s)"
proof (rule items_invI [OF assms(1)])
  fix j assume j: "j < length (tr_items s)" and ok: "psub_ok (in_flight s j) (registered s j) (tr_items s ! j)"
  have f: "in_flight (remove_item i s) = in_flight s" by (rule in_flight_cong) (simp add: remove_item_def Let_def)
  show "psub_ok (in_flight (remove_item i s) j) (registered (remove_item i s) j) (tr_items (remove_item i s) ! j)"
  proof (cases "j = i")
    case True
    then show ?thesis using psub_ok_done [OF ok] assms(3) by (simp add: remove_item_def Let_def)
  next
    case False
    then have "registered (remove_item i s) j = registered s j" by (simp add: registered_def remove_item_def Let_def)
    then show ?thesis using ok f by (simp add: remove_item_def Let_def)
  qed
next
  show "case tr_routing (remove_item i s) of None \<Rightarrow> True | Some (p, is) \<Rightarrow> known s (pk_topic p) is"
    using items_invD(3) [OF assms(1)] by (auto simp: remove_item_def Let_def split: option.splits)
qed (auto simp: remove_item_def Let_def distinct_removeAll)

lemma items_inv_fail: "items_inv s \<Longrightarrow> items_inv (fail_item e i s)"
  unfolding fail_item_def by (rule items_inv_upd) simp_all

lemma items_inv_fail_remove:
  assumes "items_inv s" and "i < length (tr_items s)"
  shows "items_inv (remove_item i (fail_item e i s))"
  by (rule items_inv_remove) (use assms items_inv_fail in \<open>auto simp: fail_item_def\<close>)

lemma fail_remove_commute:
  "i < length (tr_items s) \<Longrightarrow> fail_item e i (remove_item i s) = remove_item i (fail_item e i s)"
  by (simp add: fail_item_def remove_item_def upd_item_def Let_def request_reconcile_def)

lemma items_inv_fail_topic:
  assumes "items_inv s"
  shows "items_inv (fail_topic t e s)"
proof (rule items_invI [OF assms])
  fix j assume j: "j < length (tr_items s)" and ok: "psub_ok (in_flight s j) (registered s j) (tr_items s ! j)"
  have f: "in_flight (fail_topic t e s) = in_flight s" by (rule in_flight_cong) (simp add: fail_topic_def)
  show "psub_ok (in_flight (fail_topic t e s) j) (registered (fail_topic t e s) j) (tr_items (fail_topic t e s) ! j)"
  proof (cases "j \<in> set (tr_regs s t)")
    case True
    then show ?thesis using psub_ok_fail [OF ok] j by (simp add: fail_topic_def)
  next
    case False
    then have "registered (fail_topic t e s) j = registered s j" using j by (simp add: registered_def fail_topic_def)
    then show ?thesis using ok f j False by (simp add: fail_topic_def)
  qed
next
  show "case tr_routing (fail_topic t e s) of None \<Rightarrow> True | Some (p, is) \<Rightarrow> known s (pk_topic p) is"
    using items_invD(3) [OF assms(1)] by (auto simp: fail_topic_def split: option.splits)
qed (auto simp: fail_topic_def)

lemma items_inv_fail_all:
  assumes "items_inv s"
  shows "items_inv (fail_all e s)"
proof (rule items_invI [OF assms])
  fix j assume j: "j < length (tr_items s)" and ok: "psub_ok (in_flight s j) (registered s j) (tr_items s ! j)"
  show "psub_ok (in_flight (fail_all e s) j) (registered (fail_all e s) j) (tr_items (fail_all e s) ! j)"
  proof (cases "registered s j")
    case True
    then show ?thesis using psub_ok_fail [OF ok] j by (simp add: fail_all_def registered_def)
  next
    case False
    then have "ps_done (tr_items s ! j)" using ok by (simp add: psub_ok_def split: if_splits)
    then show ?thesis using psub_ok_done [OF ok] j False by (simp add: fail_all_def registered_def)
  qed
next
  show "case tr_routing (fail_all e s) of None \<Rightarrow> True | Some (p, is) \<Rightarrow> known s (pk_topic p) is"
    using items_invD(3) [OF assms(1)] by (auto simp: fail_all_def split: option.splits)
qed (auto simp: fail_all_def)

lemma items_inv_handle_result:
  assumes "items_inv s"
  shows "items_inv (handle_result err s)"
proof -
  have "items_inv (clear_retry s)" "items_inv (clear_retry (s\<lparr>tr_down := True\<rparr>))" "items_inv (schedule_retry s)"
    using assms by (auto intro: items_inv_cong simp: clear_retry_def schedule_retry_def)
  then show ?thesis
    by (auto simp: handle_result_def items_inv_fail_topic split: option.split paho_error.split)
qed

lemma items_inv_subscribe:
  assumes "items_inv s"
  shows "items_inv (snd (begin_subscribe t q m s))"
proof (cases "fst (begin_subscribe t q m s)")
  case (Inl e)
  then show ?thesis using assms by (auto simp: begin_subscribe_def Let_def split: if_splits sum.splits)
next
  case (Inr n)
  let ?i = "length (tr_items s)"
  let ?s = "snd (begin_subscribe t q m s)"
  have s: "?s = s\<lparr>tr_items := tr_items s @ [new_psub t q m], tr_regs := (tr_regs s)(t := tr_regs s t @ [?i]),
      tr_ops := (tr_ops s)(OpSubscribe ?i := OpWaiting)\<rparr>"
    using Inr by (auto simp: begin_subscribe_def Let_def split: if_splits sum.splits)
  have k: "known ?s x is" if "known s x is" for x "is" using that by (auto simp: known_def s nth_append)
  have fl: "in_flight ?s i = in_flight s i" for i by (simp add: in_flight_def s)
  have "in_flight s ?i = []"
    using items_invD(3) [OF assms] by (auto simp: in_flight_def known_def split: option.splits)
  then have new: "psub_ok (in_flight ?s ?i) (registered ?s ?i) (tr_items ?s ! ?i)"
    by (simp add: fl) (simp add: s psub_ok_def new_psub_def registered_def)
  have "psub_ok (in_flight ?s i) (registered ?s i) (tr_items ?s ! i)" if "i < ?i" for i
  proof -
    have "registered ?s i = registered s i" using that by (simp add: s registered_def nth_append)
    then show ?thesis using items_invD(1) [OF assms that] that by (simp add: fl) (simp add: s nth_append)
  qed
  then have "psub_ok (in_flight ?s i) (registered ?s i) (tr_items ?s ! i)" if "i < length (tr_items ?s)" for i
    using new that by (cases "i = ?i") (simp_all add: s)
  moreover have "known ?s x (tr_regs ?s x)" for x
    using items_invD(2) [OF assms, of x] by (auto simp: s known_def nth_append new_psub_def)
  moreover have "case tr_routing ?s of None \<Rightarrow> True | Some (p, is) \<Rightarrow> known ?s (pk_topic p) is"
    using items_invD(3) [OF assms] k by (auto simp: s split: option.splits)
  ultimately show ?thesis by (simp add: items_inv_def)
qed

lemma fold_routed_simps [simp]:
  fixes m :: transport_message
  defines "f \<equiv> \<lambda>i. upd_item i (\<lambda>u. u\<lparr>ps_routed := ps_routed u @ [m]\<rparr>)"
  shows "tr_regs (fold f is s) = tr_regs s" "tr_routing (fold f is s) = tr_routing s"
    "length (tr_items (fold f is s)) = length (tr_items s)" "tr_closing (fold f is s) = tr_closing s"
    "tr_done (fold f is s) = tr_done s" "tr_ops (fold f is s) = tr_ops s" "tr_reconcile (fold f is s) = tr_reconcile s"
    "tr_reconnect (fold f is s) = tr_reconnect s" "tr_loop (fold f is s) = tr_loop s"
    "tr_broker (fold f is s) = tr_broker s" "tr_delay (fold f is s) = tr_delay s"
    "tr_timer (fold f is s) = tr_timer s" "tr_down (fold f is s) = tr_down s"
  unfolding f_def by (induction "is" arbitrary: s) simp_all

lemma nth_fold_routed:
  "distinct is \<Longrightarrow> j < length (tr_items s) \<Longrightarrow>
    tr_items (fold (\<lambda>i. upd_item i (\<lambda>u. u\<lparr>ps_routed := ps_routed u @ [m]\<rparr>)) is s) ! j =
      (if j \<in> set is then (tr_items s ! j)\<lparr>ps_routed := ps_routed (tr_items s ! j) @ [m]\<rparr> else tr_items s ! j)"
  by (induction "is" arbitrary: s) auto

lemma items_inv_begin_route:
  assumes "items_inv s" and "tr_routing s = None"
  shows "items_inv (snd (begin_route p s))"
proof (cases "tr_regs s (pk_topic p) = []")
  case True
  then show ?thesis using assms by (simp add: begin_route_def Let_def)
next
  case False
  let ?is = "tr_regs s (pk_topic p)"
  let ?m = "message_of p"
  let ?t = "snd (begin_route p s)"
  have k: "known s (pk_topic p) ?is" by (rule items_invD(2) [OF assms(1)])
  then have d: "distinct ?is" by (simp add: known_def)
  have nth: "tr_items ?t ! j = (if j \<in> set ?is then (tr_items s ! j)\<lparr>ps_routed := ps_routed (tr_items s ! j) @ [?m]\<rparr>
      else tr_items s ! j)" if "j < length (tr_items s)" for j
    using nth_fold_routed [OF d, of j "s\<lparr>tr_routing := Some (p, ?is)\<rparr>" ?m] that False by (simp add: begin_route_def Let_def)
  have fl: "in_flight ?t j = (if j \<in> set ?is then [?m] else [])" "in_flight s j = []" for j
    using False assms(2) by (simp_all add: in_flight_def begin_route_def Let_def)
  show ?thesis
  proof (rule items_invI [OF assms(1)])
    fix j assume j: "j < length (tr_items s)" and ok: "psub_ok (in_flight s j) (registered s j) (tr_items s ! j)"
    have "registered ?t j = registered s j" using False nth [OF j] by (simp add: registered_def begin_route_def Let_def)
    then show "psub_ok (in_flight ?t j) (registered ?t j) (tr_items ?t ! j)"
      using ok fl nth [OF j] by (auto simp: psub_ok_def)
  next
    show "case tr_routing ?t of None \<Rightarrow> True | Some (p, is) \<Rightarrow> known s (pk_topic p) is"
      using k False by (simp add: begin_route_def Let_def)
  qed (use nth False in \<open>simp_all add: begin_route_def Let_def\<close>)
qed

lemma items_inv_next_route:
  assumes "items_inv s"
  shows "items_inv (next_route s)"
proof (cases "tr_routing s")
  case None
  then show ?thesis using assms by (simp add: next_route_def)
next
  case (Some r)
  obtain p "is" where r: "r = (p, is)" by (cases r)
  have k: "known s (pk_topic p) is" using items_invD(3) [OF assms] Some r by simp
  show ?thesis
  proof (cases "is")
    case Nil
    have fl: "in_flight (next_route s) = in_flight s"
      using Some r Nil by (simp add: in_flight_def next_route_def fun_eq_iff)
    show ?thesis
      by (rule items_invI [OF assms]) (use Some r Nil fl in \<open>simp_all add: next_route_def registered_def\<close>)
  next
    case (Cons i js)
    let ?s = "s\<lparr>tr_routing := Some (p, js)\<rparr>"
    let ?u = "tr_items s ! i"
    have i: "i < length (tr_items s)" "ps_topic ?u = pk_topic p" "i \<notin> set js" "known s (pk_topic p) js"
      using k Cons by (auto simp: known_def)
    have ok: "psub_ok [message_of p] (registered s i) ?u"
      using items_invD(1) [OF assms i(1)] Some r Cons by (simp add: in_flight_def)
    have rest: "items_inv (upd_item i (\<lambda>_. u) ?s)" if u: "psub_ok [] (registered s i) u" "ps_topic u = pk_topic p" for u
    proof (rule items_invI [OF assms])
      fix j assume j: "j < length (tr_items s)" and okj: "psub_ok (in_flight s j) (registered s j) (tr_items s ! j)"
      have "registered (upd_item i (\<lambda>_. u) ?s) j = registered s j" using j u(2) i(2) by (simp add: registered_def)
      moreover have "in_flight (upd_item i (\<lambda>_. u) ?s) j = (if j = i then [] else in_flight s j)"
        using Some r Cons i(3) by (simp add: in_flight_def)
      ultimately show "psub_ok (in_flight (upd_item i (\<lambda>_. u) ?s) j) (registered (upd_item i (\<lambda>_. u) ?s) j)
          (tr_items (upd_item i (\<lambda>_. u) ?s) ! j)"
        using okj u(1) j by simp
    qed (use i u in simp_all)
    have fail: "items_inv (remove_item i (fail_item e i ?s))" for e
    proof (rule items_inv_remove)
      have "fail_item e i ?s = upd_item i (\<lambda>_. psub_fail e ?u) ?s" by (simp add: fail_item_def upd_item_def)
      then show "items_inv (fail_item e i ?s)" using rest [of "psub_fail e ?u"] psub_ok_fail [OF ok] i(2) by simp
    qed (use i in \<open>simp_all add: fail_item_def\<close>)
    obtain sent u where d: "psub_deliver (message_of p) ?u = (sent, u)" by (cases "psub_deliver (message_of p) ?u")
    have "psub_ok [] (registered s i) u \<and> ps_topic u = pk_topic p" if "sent" "\<not> ps_max ?u < int (length (pk_payload p))"
      using d ok that i(2)
      by (auto simp: psub_deliver_def psub_ok_def fits_in_def message_of_def Let_def split: if_splits option.splits)
    then show ?thesis
      using Some r Cons d rest fail by (auto simp: next_route_def route_item_def split: bool.split)
  qed
qed

lemma psub_ok_receive:
  "psub_ok fl r u \<Longrightarrow> psub_ok fl r (snd (psub_receive ctx pick u))"
  by (auto simp: psub_receive_def psub_ok_def split: list.split option.split)

lemma psub_receive_topic: "ps_topic (snd (psub_receive ctx pick u)) = ps_topic u"
  by (simp add: psub_receive_def split: list.split option.split)

lemma transport_step_items:
  assumes "transport_step s t" and inv: "items_inv s"
  shows "items_inv t"
  using assms(1)
proof cases
  case (subscribed i err ctx)
  let ?s = "s\<lparr>tr_ops := (tr_ops s)(OpSubscribe i := OpAbsent)\<rparr>"
  have "items_inv ?s" by (rule items_inv_cong [OF inv]) simp_all
  then show ?thesis
    using subscribed items_inv_fail_remove [of ?s i] fail_remove_commute [of i ?s]
    by (auto simp: finish_subscribe_def Let_def split: option.split)
next
  case (close_item i)
  let ?s = "upd_item i (\<lambda>u. u\<lparr>ps_closing := True\<rparr>) s"
  have "items_inv ?s" by (rule items_inv_upd [OF inv]) (auto simp: psub_ok_def)
  then have "items_inv (remove_item i (fail_item PeClosed i ?s))"
    using close_item by (intro items_inv_fail_remove) simp_all
  then show ?thesis using inv close_item by (auto simp: begin_close_item_def Let_def intro: items_inv_cong)
next
  case (closed_item i err ctx)
  have "items_inv (s\<lparr>tr_ops := (tr_ops s)(OpClose i := OpAbsent)\<rparr>)" by (rule items_inv_cong [OF inv]) simp_all
  then show ?thesis unfolding closed_item finish_close_item_def by (rule items_inv_upd) (auto simp: psub_ok_def)
next
  case (pass c)
  have "tr_items t = tr_items s \<and> tr_regs t = tr_regs s \<and> tr_routing t = tr_routing s"
    using pass by (auto simp: begin_pass_def clear_retry_def Let_def split: pass_cause.split)
  then show ?thesis using inv items_inv_cong by blast
next
  case (passed c d env)
  obtain err b sent where r: "reconcile_broker env d (tr_broker s) = (err, b, sent)" by (metis prod_cases3)
  have "items_inv (s\<lparr>tr_broker := b, tr_loop := LoopIdle\<rparr>)" by (rule items_inv_cong [OF inv]) simp_all
  then have "items_inv (handle_result err (s\<lparr>tr_broker := b, tr_loop := LoopIdle\<rparr>))" by (rule items_inv_handle_result)
  then show ?thesis
    using passed r by (auto simp: finish_pass_def Let_def intro: items_inv_cong split: pass_cause.split)
next
  case (receive i ctx pick)
  then show ?thesis unfolding receive receive_item_def
    by (intro items_inv_upd [OF inv]) (simp_all add: psub_ok_receive psub_receive_topic)
next
  case close
  have "items_inv (s\<lparr>tr_closing := True\<rparr>)" by (rule items_inv_cong [OF inv]) simp_all
  then show ?thesis using inv close by (simp add: begin_close_def items_inv_fail_all)
qed (use inv in \<open>auto intro: items_inv_subscribe items_inv_begin_route items_inv_next_route items_inv_cong
      simp: connection_up_def request_reconnect_def cancel_lifetime_def end_loop_def clear_retry_def finish_close_def\<close>)

section \<open>The broker is never forgotten\<close>

definition notified :: "transport \<Rightarrow> bool" where
  "notified s \<longleftrightarrow> tr_reconcile s \<or> tr_reconnect s \<or> (\<exists>i < length (tr_items s). tr_ops s (OpSubscribe i) = OpWaiting)"

definition loop_inv :: "transport \<Rightarrow> bool" where
  "loop_inv s \<longleftrightarrow>
     (tr_done s \<longrightarrow> tr_closing s) \<and> reconcileRetryInitial \<le> tr_delay s \<and> tr_delay s \<le> reconcileRetryMaximum
     \<and> (case tr_loop s of
          LoopIdle \<Rightarrow> tr_closing s \<or> notified s \<or> tr_timer s \<or> tr_down s \<or> tr_broker s = desired s
        | LoopPass c d \<Rightarrow> tr_closing s \<or> notified s \<or> d = desired s
        | LoopEnded \<Rightarrow> tr_done s)"

lemma desired_cong:
  "tr_regs t = tr_regs s \<Longrightarrow> (\<And>i. ps_qos (tr_items t ! i) = ps_qos (tr_items s ! i)) \<Longrightarrow> desired t = desired s"
  by (simp add: desired_def)

lemma ps_qos_upd_item [simp]:
  assumes "\<And>u. ps_qos (f u) = ps_qos u"
  shows "ps_qos (tr_items (upd_item i f s) ! j) = ps_qos (tr_items s ! j)"
  using assms by (cases "i < length (tr_items s)"; cases "j = i") (simp_all add: upd_item_def list_update_beyond)

lemma ps_qos_fold [simp]:
  assumes "\<And>i u. ps_qos (f i u) = ps_qos u"
  shows "ps_qos (tr_items (fold (\<lambda>i. upd_item i (f i)) is s) ! j) = ps_qos (tr_items s ! j)"
  using assms by (induction "is" arbitrary: s) simp_all

text \<open>A step that leaves the loop alone and either notifies it or keeps what the subscriptions want.\<close>

lemma loop_inv_keep:
  assumes "loop_inv s" and "tr_done t = tr_done s" "tr_closing s \<Longrightarrow> tr_closing t" "tr_delay t = tr_delay s" "tr_loop t = tr_loop s"
    and "tr_broker t = tr_broker s" "tr_timer t = tr_timer s" "tr_down s \<Longrightarrow> tr_down t \<or> notified t \<or> tr_closing t"
    and "tr_closing t \<or> notified t \<or> (desired t = desired s \<and> (notified s \<longrightarrow> notified t))"
  shows "loop_inv t"
  using assms by (auto simp: loop_inv_def split: loop_state.splits)

lemma loop_inv_remove:
  assumes "loop_inv s"
  shows "loop_inv (remove_item i s)"
  using assms by (intro loop_inv_keep [OF assms]) (auto simp: remove_item_def Let_def notified_def loop_inv_def)

lemma loop_inv_upd:
  assumes "loop_inv s" and "\<And>u. ps_qos (f u) = ps_qos u"
  shows "loop_inv (upd_item i f s)"
  using assms by (intro loop_inv_keep [OF assms(1)]) (auto simp: notified_def intro: desired_cong)

lemma loop_inv_fail: "loop_inv s \<Longrightarrow> loop_inv (fail_item e i s)"
  unfolding fail_item_def by (rule loop_inv_upd) simp_all

lemma loop_inv_subscribe:
  assumes "loop_inv s"
  shows "loop_inv (snd (begin_subscribe t q m s))"
proof (cases "snd (begin_subscribe t q m s) = s")
  case False
  then have s: "snd (begin_subscribe t q m s) = s\<lparr>tr_items := tr_items s @ [new_psub t q m],
      tr_regs := (tr_regs s)(t := tr_regs s t @ [length (tr_items s)]),
      tr_ops := (tr_ops s)(OpSubscribe (length (tr_items s)) := OpWaiting)\<rparr>"
    by (auto simp: begin_subscribe_def Let_def split: if_splits sum.splits)
  show ?thesis unfolding s by (rule loop_inv_keep [OF assms]) (auto simp: notified_def)
qed (use assms in simp)

text \<open>A caller that leaves its operation has removed its subscription.\<close>

lemma loop_inv_finish_subscribe:
  assumes "loop_inv s" and "tr_ops s (OpSubscribe i) \<noteq> OpWaiting \<or> err \<noteq> None"
  shows "loop_inv (finish_subscribe i err s)"
proof (cases err)
  case None
  let ?t = "s\<lparr>tr_ops := (tr_ops s)(OpSubscribe i := OpAbsent)\<rparr>"
  have "tr_ops ?t (OpSubscribe j) = OpWaiting \<longleftrightarrow> tr_ops s (OpSubscribe j) = OpWaiting" for j
    using assms(2) None by auto
  then have "notified ?t = notified s" by (simp add: notified_def)
  moreover have "desired ?t = desired s" by (rule desired_cong) simp_all
  ultimately have "loop_inv ?t" by (intro loop_inv_keep [OF assms(1)]) auto
  then show ?thesis using None by (simp add: finish_subscribe_def)
next
  case (Some e)
  let ?t = "remove_item i (s\<lparr>tr_ops := (tr_ops s)(OpSubscribe i := OpAbsent)\<rparr>)"
  have "loop_inv ?t"
    by (rule loop_inv_keep [OF assms(1)])
      (use assms(1) in \<open>auto simp: remove_item_def Let_def notified_def loop_inv_def\<close>)
  then show ?thesis using Some by (simp add: finish_subscribe_def loop_inv_fail)
qed

lemma loop_inv_begin_pass:
  assumes "loop_inv s" and "pass_ready c s"
  shows "loop_inv (begin_pass c s)"
proof -
  obtain t where t: "begin_pass c s = t\<lparr>tr_loop := LoopPass c (desired t)\<rparr>" "tr_done t = tr_done s" "tr_closing t = tr_closing s"
    "tr_delay t = tr_delay s \<or> tr_delay t = reconcileRetryInitial"
    by (cases c) (auto simp: begin_pass_def clear_retry_def Let_def)
  have "desired (t\<lparr>tr_loop := l\<rparr>) = desired t" for l by (rule desired_cong) simp_all
  then show ?thesis
    using assms(1) t by (auto simp: loop_inv_def reconcileRetryInitial_def reconcileRetryMaximum_def)
qed

lemma reconcile_error_names:
  "visits env d b \<Longrightarrow> reconcile_broker env d b = (Some e, b', sent) \<Longrightarrow>
    is_PeBroker e"
  using reconcile_broker_result [of env d b] by (simp add: pass_result_def)

lemma loop_inv_handle_result:
  assumes idle: "tr_loop s = LoopIdle"
    and base: "tr_done s \<longrightarrow> tr_closing s" "reconcileRetryInitial \<le> tr_delay s" "tr_delay s \<le> reconcileRetryMaximum"
    and ok: "err = None \<Longrightarrow> tr_closing s \<or> notified s \<or> tr_broker s = desired s"
  shows "loop_inv (handle_result err s)"
proof (cases err)
  case None
  have "desired (clear_retry s) = desired s" by (rule desired_cong) (simp_all add: clear_retry_def)
  then show ?thesis
    using None assms by (auto simp: handle_result_def loop_inv_def clear_retry_def notified_def
        reconcileRetryInitial_def reconcileRetryMaximum_def)
next
  case (Some e)
  have r: "loop_inv (schedule_retry s)"
    using assms(1-4)
    by (auto simp: loop_inv_def schedule_retry_def reconcileRetryInitial_def reconcileRetryMaximum_def)
  have t: "loop_inv (fail_topic t inner (clear_retry s))" for t inner
    using assms(1-4)
    by (auto simp: loop_inv_def fail_topic_def clear_retry_def notified_def reconcileRetryInitial_def reconcileRetryMaximum_def)
  have d: "loop_inv (clear_retry (s\<lparr>tr_down := True\<rparr>))"
    using assms(1-4) by (auto simp: loop_inv_def clear_retry_def reconcileRetryInitial_def reconcileRetryMaximum_def)
  show ?thesis using Some r t d by (auto simp: handle_result_def split: paho_error.split)
qed

lemma loop_inv_ops:
  assumes "loop_inv s" and "tr_ops s op = OpRunning"
  shows "loop_inv (s\<lparr>tr_ops := (tr_ops s)(op := OpDone err)\<rparr>)"
proof (rule loop_inv_keep [OF assms(1)])
  let ?t = "s\<lparr>tr_ops := (tr_ops s)(op := OpDone err)\<rparr>"
  have "tr_ops ?t (OpSubscribe j) = OpWaiting \<longleftrightarrow> tr_ops s (OpSubscribe j) = OpWaiting" for j using assms(2) by auto
  then have "notified ?t = notified s" by (simp add: notified_def)
  moreover have "desired ?t = desired s" by (rule desired_cong) simp_all
  ultimately show "tr_closing ?t \<or> notified ?t \<or> desired ?t = desired s \<and> (notified s \<longrightarrow> notified ?t)" by simp
qed simp_all

lemma loop_inv_finish_pass:
  assumes inv: "loop_inv s" and "tr_loop s = LoopPass c d" and v: "visits env d (tr_broker s)"
  shows "loop_inv (finish_pass env s)"
proof -
  obtain err b sent where r: "reconcile_broker env d (tr_broker s) = (err, b, sent)" by (metis prod_cases3)
  let ?s = "s\<lparr>tr_broker := b, tr_loop := LoopIdle\<rparr>"
  have "desired ?s = desired s" by (rule desired_cong) simp_all
  moreover have "err = None \<Longrightarrow> b = d" using reconcile_broker_complete [OF v] r by simp
  ultimately have "loop_inv (handle_result err ?s)"
    using inv assms(2) by (intro loop_inv_handle_result) (auto simp: loop_inv_def notified_def)
  then show ?thesis
    using assms(2) r by (auto simp: finish_pass_def Let_def loop_inv_ops split: pass_cause.split)
qed

lemma loop_inv_next_route:
  assumes "loop_inv s"
  shows "loop_inv (next_route s)"
proof -
  have same: "loop_inv (s\<lparr>tr_routing := r\<rparr>)" for r
    by (rule loop_inv_keep [OF assms]) (auto simp: notified_def intro: desired_cong)
  have "loop_inv (route_item p i t)" if "loop_inv t" for p i t
  proof -
    have "loop_inv (upd_item i (\<lambda>_. snd (psub_deliver m (tr_items t ! i))) t)" for m
    proof -
      have "upd_item i (\<lambda>_. snd (psub_deliver m (tr_items t ! i))) t = upd_item i (\<lambda>u. snd (psub_deliver m u)) t"
        by (simp add: upd_item_def)
      then show ?thesis using loop_inv_upd [OF that, of "\<lambda>u. snd (psub_deliver m u)" i] by (simp add: psub_deliver_def)
    qed
    then show ?thesis
      using that by (auto simp: route_item_def loop_inv_remove loop_inv_fail split: prod.split bool.split)
        (metis snd_conv)
  qed
  then show ?thesis using same by (auto simp: next_route_def assms split: option.split list.split)
qed

lemma psub_receive_qos [simp]: "ps_qos (snd (psub_receive ctx pick u)) = ps_qos u"
  by (simp add: psub_receive_def split: list.split option.split)

lemma transport_step_loop:
  assumes "transport_step s t" and inv: "loop_inv s"
  shows "loop_inv t"
  using assms(1)
proof cases
  case (subscribed i err ctx)
  then show ?thesis by (cases ctx) (auto intro!: loop_inv_finish_subscribe inv split: op_stage.splits if_splits)
next
  case (close_item i)
  let ?s = "remove_item i (fail_item PeClosed i (upd_item i (\<lambda>u. u\<lparr>ps_closing := True\<rparr>) s))"
  have l: "loop_inv ?s" by (intro loop_inv_remove loop_inv_fail loop_inv_upd inv) simp
  have "loop_inv (?s\<lparr>tr_ops := (tr_ops ?s)(OpClose i := OpWaiting)\<rparr>)"
    by (rule loop_inv_keep [OF l]) (auto simp: notified_def intro: desired_cong)
  then show ?thesis using inv close_item by (simp add: begin_close_item_def Let_def)
next
  case (closed_item i err ctx)
  let ?s = "s\<lparr>tr_ops := (tr_ops s)(OpClose i := OpAbsent)\<rparr>"
  have "loop_inv ?s" by (rule loop_inv_keep [OF inv]) (auto simp: notified_def intro: desired_cong)
  then show ?thesis unfolding closed_item finish_close_item_def by (rule loop_inv_upd) simp
next
  case (route p)
  have "loop_inv (s\<lparr>tr_routing := r\<rparr>)" for r
    by (rule loop_inv_keep [OF inv]) (auto simp: notified_def intro: desired_cong)
  then have "loop_inv (fold (\<lambda>i. upd_item i (\<lambda>u. u\<lparr>ps_routed := ps_routed u @ [m]\<rparr>)) is (s\<lparr>tr_routing := r\<rparr>))" for m "is" r
  proof (induction "is" arbitrary: s rule: rev_induct)
    case (snoc i "is")
    then show ?case using loop_inv_upd by simp
  qed simp
  then show ?thesis using route inv by (simp add: begin_route_def Let_def)
next
  case (receive i ctx pick)
  show ?thesis unfolding receive receive_item_def by (rule loop_inv_upd [OF inv]) simp
next
  case up
  have "tr_closing s \<or> notified t" using up inv by (auto simp: connection_up_def request_reconnect_def notified_def loop_inv_def)
  then show ?thesis
    using up by (intro loop_inv_keep [OF inv]) (auto simp: connection_up_def request_reconnect_def)
next
  case close
  show ?thesis
  proof (cases "tr_closing s")
    case False
    have "tr_closing t" "\<not> tr_done s" using False close inv by (auto simp: begin_close_def fail_all_def loop_inv_def)
    then show ?thesis using close False by (intro loop_inv_keep [OF inv]) (auto simp: begin_close_def fail_all_def)
  qed (use close inv in \<open>simp add: begin_close_def\<close>)
next
  case cancel
  then show ?thesis using inv by (auto simp: cancel_lifetime_def loop_inv_def notified_def split: loop_state.splits)
next
  case ended
  then show ?thesis
    using inv by (auto simp: end_loop_def clear_retry_def loop_inv_def reconcileRetryInitial_def reconcileRetryMaximum_def)
next
  case (disconnect err)
  then show ?thesis using inv by (auto simp: finish_close_def loop_inv_def)
qed (use inv in \<open>auto intro: loop_inv_subscribe loop_inv_begin_pass loop_inv_finish_pass loop_inv_next_route\<close>)

lemma transport_reach_inv: "transport_reach s \<Longrightarrow> items_inv s \<and> loop_inv s"
proof (induction rule: transport_reach.induct)
  case dialled
  show ?case
    by (simp add: items_inv_def loop_inv_def new_transport_def known_def desired_def desired_qos_def
        reconcileRetryInitial_def reconcileRetryMaximum_def)
next
  case (step s t)
  then show ?case using transport_step_items transport_step_loop by blast
qed

lemma desired_qos_max: "desired_qos qs = (if qs = [] then None else Some (Max (set qs)))"
proof (cases qs)
  case (Cons a as)
  have "foldl (\<lambda>acc q. case acc of None \<Rightarrow> Some q | Some c \<Rightarrow> if c < q then Some q else Some c) (Some a) as = Some (Max (insert a (set as)))"
  proof (induction as arbitrary: a)
    case (Cons b as)
    have "Max (insert a (insert b (set as))) = Max (insert (max a b) (set as))"
      by (cases "as = []") (simp_all add: max.assoc)
    then show ?case using Cons [of a] Cons [of b] by (auto simp: max_def)
  qed simp
  then show ?thesis using Cons by (simp add: desired_qos_def)
qed (simp add: desired_qos_def)

text \<open>What no step changes of a subscription that has ended.\<close>

definition same_end :: "psub \<Rightarrow> psub \<Rightarrow> bool" where
  "same_end u v \<longleftrightarrow> (if ps_done u then ps_done v \<and> ps_err v = ps_err u \<and> ps_buffer v = ps_buffer u \<and> ps_received v = ps_received u
     else True)"

lemma same_end_fail [simp]: "same_end u u" "same_end u (psub_fail e u)" "same_end u v \<Longrightarrow> same_end u (psub_fail e v)"
  by (auto simp: same_end_def psub_fail_def)

lemma same_end_receive: "same_end u (snd (psub_receive ctx pick u))"
  by (simp add: same_end_def psub_receive_def)

lemma same_end_remove [simp]: "tr_items (remove_item i s) = tr_items s"
  by (simp add: remove_item_def Let_def)

lemma same_end_route:
  assumes "i < length (tr_items s)"
  shows "same_end (tr_items s ! i) (tr_items (route_item p j s) ! i)"
proof (cases "psub_deliver (message_of p) (tr_items s ! j)")
  case (Pair sent u)
  have "same_end (tr_items s ! j) u" using Pair by (auto simp: psub_deliver_def same_end_def split: if_splits)
  then show ?thesis using Pair assms by (auto simp: route_item_def fail_item_def split: bool.split)
qed

lemma ended_stays:
  assumes "transport_step s t" and "i < length (tr_items s)" and inv: "items_inv s"
  shows "same_end (tr_items s ! i) (tr_items t ! i)"
  using assms(1)
proof cases
  case (subscribe x q m)
  then show ?thesis
    using assms(2) by (auto simp: begin_subscribe_def Let_def nth_append split: sum.splits)
next
  case (subscribed j err ctx)
  then show ?thesis using assms(2) by (auto simp: finish_subscribe_def fail_item_def Let_def split: option.splits)
next
  case (close_item j)
  then show ?thesis
    using assms(2) by (auto simp: begin_close_item_def fail_item_def Let_def same_end_def psub_fail_def)
next
  case (closed_item j err ctx)
  then show ?thesis using assms(2) by (auto simp: finish_close_item_def same_end_def)
next
  case (pass c)
  then show ?thesis by (auto simp: begin_pass_def clear_retry_def Let_def split: pass_cause.splits)
next
  case (passed c d env)
  then show ?thesis
    using assms(2)
    by (auto simp: finish_pass_def handle_result_def fail_topic_def clear_retry_def schedule_retry_def Let_def
        split: pass_cause.splits prod.splits option.splits paho_error.splits)
next
  case (route p)
  have "distinct (tr_regs s (pk_topic p))" using items_invD(2) [OF inv] by (simp add: known_def)
  then show ?thesis
    using route assms(2) nth_fold_routed [of "tr_regs s (pk_topic p)" i "s\<lparr>tr_routing := Some (p, tr_regs s (pk_topic p))\<rparr>" "message_of p"]
    by (auto simp: begin_route_def Let_def same_end_def)
next
  case routed
  then show ?thesis
    using assms(2) same_end_route [of i "s\<lparr>tr_routing := r\<rparr>" for r] by (auto simp: next_route_def split: option.split list.split)
next
  case (receive j ctx pick)
  then show ?thesis using assms(2) same_end_receive by (simp add: receive_item_def)
next
  case close
  then show ?thesis using assms(2) by (auto simp: begin_close_def fail_all_def)
qed (use assms(2) in \<open>simp_all add: connection_up_def request_reconnect_def cancel_lifetime_def end_loop_def clear_retry_def
      finish_close_def\<close>)

section \<open>A run\<close>

definition sample_broker :: broker_env where
  "sample_broker = \<lparr>be_subscribe_order = [''t''], be_unsubscribe_order = [''t''],
     be_subscribe = (\<lambda>t q. Inr (Some [q])), be_unsubscribe = (\<lambda>t. Inr (Some [0]))\<rparr>"

definition sample_packet :: paho_packet where
  "sample_packet = \<lparr>pk_topic = ''t'', pk_payload = [7], pk_qos = 1, pk_properties = None\<rparr>"

definition sample_transport :: transport where
  "sample_transport =
     finish_subscribe 0 None (finish_pass sample_broker (begin_pass (PassOperation (OpSubscribe 0))
       (snd (begin_subscribe ''t'' 1 10 new_transport))))"

definition sample_routed :: transport where
  "sample_routed = receive_item None False 0 (next_route (next_route (snd (begin_route sample_packet sample_transport))))"

lemma granted [simp]: "\<not> (0x80 :: 8 word) \<le> 1"
  by (simp add: word_le_nat_alt)

lemma sample_visits: "visits sample_broker (\<lambda>t. if t = ''t'' then Some 1 else None) (\<lambda>_. None)"
  by (auto simp: visits_def sample_broker_def validate_suback_def guard_def split: if_splits)

lemma begin_subscribe_sample:
  "snd (begin_subscribe ''t'' 1 10 new_transport) =
     new_transport\<lparr>tr_items := [new_psub ''t'' 1 10], tr_regs := (\<lambda>_. [])(''t'' := [0]), tr_ops := (\<lambda>_. OpAbsent)(OpSubscribe 0 := OpWaiting)\<rparr>"
  by (simp add: begin_subscribe_def new_transport_def validate_exact_topic_def Let_def)

lemma desired_sample:
  "tr_items s = [new_psub ''t'' 1 10] \<Longrightarrow> tr_regs s = (\<lambda>_. [])(''t'' := [0]) \<Longrightarrow>
    desired s = (\<lambda>t. if t = ''t'' then Some 1 else None)"
  by (auto simp: desired_def desired_qos_def new_psub_def fun_eq_iff)

lemma begin_pass_sample:
  "begin_pass (PassOperation (OpSubscribe 0)) (snd (begin_subscribe ''t'' 1 10 new_transport)) =
     new_transport\<lparr>tr_items := [new_psub ''t'' 1 10], tr_regs := (\<lambda>_. [])(''t'' := [0]), tr_ops := (\<lambda>_. OpAbsent)(OpSubscribe 0 := OpRunning),
       tr_loop := LoopPass (PassOperation (OpSubscribe 0)) (\<lambda>t. if t = ''t'' then Some 1 else None)\<rparr>"
  unfolding begin_subscribe_sample by (simp add: begin_pass_def new_transport_def desired_sample Let_def)

lemma reconcile_sample:
  "reconcile_broker sample_broker (\<lambda>t. if t = ''t'' then Some 1 else None) (\<lambda>_. None) =
     (None, [''t'' \<mapsto> 1], [BrSubscribe ''t'' 1])"
  by (simp add: reconcile_broker_def sample_broker_def validate_suback_def Let_def)

lemma sample_transport_eq:
  "sample_transport = new_transport\<lparr>tr_items := [new_psub ''t'' 1 10], tr_regs := (\<lambda>_. [])(''t'' := [0]), tr_broker := [''t'' \<mapsto> 1]\<rparr>"
  unfolding sample_transport_def begin_pass_sample
  by (simp add: finish_pass_def reconcile_sample finish_subscribe_def handle_result_def clear_retry_def new_transport_def
      fun_upd_idem Let_def)

lemma sample_reach: "transport_reach sample_transport"
proof -
  let ?s1 = "snd (begin_subscribe ''t'' 1 10 new_transport)"
  let ?s2 = "begin_pass (PassOperation (OpSubscribe 0)) ?s1"
  let ?s3 = "finish_pass sample_broker ?s2"
  have r1: "transport_reach ?s1" by (rule transport_reach.step [OF transport_reach.dialled transport_step.subscribe])
  have r2: "transport_reach ?s2"
    by (rule transport_reach.step [OF r1], rule transport_step.pass; unfold begin_subscribe_sample)
      (simp_all add: new_transport_def pass_ready_def)
  have r3: "transport_reach ?s3"
    by (rule transport_reach.step [OF r2], rule transport_step.passed; unfold begin_pass_sample)
      (simp add: new_transport_def, simp add: new_transport_def, rule sample_visits)
  have "tr_ops ?s3 (OpSubscribe 0) = OpDone None \<and> length (tr_items ?s3) = 1"
    unfolding begin_pass_sample by (simp add: finish_pass_def reconcile_sample handle_result_def clear_retry_def new_transport_def Let_def)
  then show ?thesis
    unfolding sample_transport_def by (intro transport_reach.step [OF r3] transport_step.subscribed [where ctx = None]) simp_all
qed

lemma sample_routed_reach: "transport_reach sample_routed"
proof -
  have n: "tr_routing sample_transport = None" by (simp add: sample_transport_eq new_transport_def)
  have "transport_reach (next_route (next_route (snd (begin_route sample_packet sample_transport))))"
    by (intro transport_reach.step [OF _ transport_step.routed] transport_reach.step [OF sample_reach transport_step.route] n)
  moreover have "length (tr_items (next_route (next_route (snd (begin_route sample_packet sample_transport))))) = 1"
    by (simp add: sample_transport_eq begin_route_def next_route_def route_item_def sample_packet_def Let_def new_psub_def
        psub_deliver_def subscriptionBuffer_def upd_item_def new_transport_def)
  ultimately show ?thesis
    unfolding sample_routed_def by (intro transport_reach.step [OF _ transport_step.receive]) simp_all
qed

section \<open>Properties\<close>

text \<open>
  C30: one pass of the loop over the broker sends one command for each topic it visits and none twice, and
  only the commands that are needed. The broker's map changes exactly at the topics whose command was
  acknowledged; the pass ends at the first command that fails or is refused, which its error names, and a
  pass without error leaves the broker with exactly the topics and qualities that were wanted. The order in
  which the maps are visited does not matter.
\<close>

theorem reconcile_broker_spec:
  assumes "visits env wanted broker"
  shows "case reconcile_broker env wanted broker of (err, broker', sent) \<Rightarrow>
    distinct (map command_topic sent) \<and> list_all (needed wanted broker) sent
    \<and> (err = None \<longleftrightarrow> list_all (accepted env) sent) \<and> names_last err sent
    \<and> broker' = (\<lambda>t. if t \<in> acknowledged err sent then wanted t else broker t)
    \<and> (if err = None then broker' = wanted else True)"
  using reconcile_broker_result [OF assms] reconcile_broker_complete [OF assms]
  by (auto simp: pass_result_def split: prod.splits)

theorem reconcile_broker_spec_witness:
  "case reconcile_broker sample_broker (\<lambda>t. if t = ''t'' then Some 1 else None) (\<lambda>_. None) of (err, broker', sent) \<Rightarrow>
     err = None \<and> sent = [BrSubscribe ''t'' 1] \<and> broker' = (\<lambda>t. if t = ''t'' then Some 1 else None)"
proof -
  have "[''t'' \<mapsto> 1] = (\<lambda>t. if t = ''t'' then Some (1 :: 8 word) else None)" by auto
  then show ?thesis using reconcile_broker_spec [OF sample_visits] unfolding reconcile_sample by simp
qed

text \<open>
  C31: whatever the interleaving, the messages received from a subscription and those waiting in its
  channel are, in order and without gaps, the first of the messages of its topic that arrived since it was
  registered; never more than sixteen wait, and none is larger than it allows. While the subscription has
  no terminal error none is missing but the one being handed out, and it is registered; once it has a
  terminal error, no later step changes the error or what was received.
\<close>

theorem transport_delivery:
  assumes "transport_reach s" and "i < length (tr_items s)"
  shows "let u = tr_items s ! i; got = ps_received u @ ps_buffer u in
    prefix got (ps_routed u) \<and> length (ps_buffer u) \<le> subscriptionBuffer
    \<and> list_all (\<lambda>m. tm_topic m = ps_topic u \<and> int (length (tm_payload m)) \<le> ps_max u) got
    \<and> (if ps_done u then ps_err u \<noteq> None
       else ps_err u = None \<and> ps_routed u = got @ in_flight s i \<and> i \<in> set (tr_regs s (ps_topic u)))
    \<and> (\<forall>t. transport_step s t \<longrightarrow> same_end u (tr_items t ! i))"
proof -
  have inv: "items_inv s" using transport_reach_inv [OF assms(1)] by simp
  have ok: "psub_ok (in_flight s i) (registered s i) (tr_items s ! i)" by (rule items_invD(1) [OF inv assms(2)])
  then have d: "ps_delivered (tr_items s ! i) = ps_received (tr_items s ! i) @ ps_buffer (tr_items s ! i)"
    by (simp add: psub_ok_def)
  show ?thesis
    using ok ended_stays [OF _ assms(2) inv] unfolding psub_ok_def d Let_def registered_def fits_in_def [abs_def]
    by (cases "ps_done (tr_items s ! i)") simp_all
qed

theorem transport_delivery_witness:
  "let u = tr_items sample_routed ! 0 in
     ps_received u = [message_of sample_packet] \<and> ps_routed u = ps_received u \<and> in_flight sample_routed 0 = []"
proof -
  have s: "length (tr_items sample_routed) = 1" "\<not> ps_done (tr_items sample_routed ! 0)"
    "ps_received (tr_items sample_routed ! 0) = [message_of sample_packet]" "ps_buffer (tr_items sample_routed ! 0) = []"
    "in_flight sample_routed 0 = []"
    by (simp_all add: sample_routed_def sample_transport_eq begin_route_def next_route_def route_item_def sample_packet_def Let_def
        new_psub_def psub_deliver_def subscriptionBuffer_def upd_item_def new_transport_def receive_item_def psub_receive_def
        in_flight_def)
  have "0 < length (tr_items sample_routed)" using s(1) by simp
  from transport_delivery [OF sample_routed_reach this] show ?thesis using s by (simp add: Let_def)
qed



lemma publish_route_roundtrip: "message_of (packet_of m) = m"
  by (simp add: message_of_def packet_of_def)

text \<open>
  A subscription registered between \<open>failAll\<close> and the cancellation in \<open>Close\<close>, whose operation the loop
  still handles, is returned without error and never ends: after \<open>Close\<close> has returned it has no terminal
  error, and \<open>Receive\<close> blocks on it.
\<close>

lemma close_leaves_subscription:
  "\<exists>s. transport_reach s \<and> tr_close_err s = Some None \<and> tr_ops s (OpSubscribe 0) = OpAbsent
     \<and> length (tr_items s) = 1 \<and> fst (psub_receive None False (tr_items s ! 0)) = None"
proof -
  let ?s0 = "begin_close new_transport"
  let ?s1 = "snd (begin_subscribe ''t'' 1 10 ?s0)"
  let ?s2 = "begin_pass (PassOperation (OpSubscribe 0)) ?s1"
  let ?s3 = "finish_pass sample_broker ?s2"
  let ?s4 = "finish_subscribe 0 None ?s3"
  let ?s5 = "finish_close None (end_loop (cancel_lifetime ?s4))"
  have e1: "?s1 = new_transport\<lparr>tr_closing := True, tr_items := [new_psub ''t'' 1 10], tr_regs := (\<lambda>_. [])(''t'' := [0]),
      tr_ops := (\<lambda>_. OpAbsent)(OpSubscribe 0 := OpWaiting)\<rparr>"
    by (simp add: begin_close_def fail_all_def fail_items_def begin_subscribe_def new_transport_def validate_exact_topic_def Let_def)
  have e2: "?s2 = new_transport\<lparr>tr_closing := True, tr_items := [new_psub ''t'' 1 10], tr_regs := (\<lambda>_. [])(''t'' := [0]),
      tr_ops := (\<lambda>_. OpAbsent)(OpSubscribe 0 := OpRunning),
      tr_loop := LoopPass (PassOperation (OpSubscribe 0)) (\<lambda>t. if t = ''t'' then Some 1 else None)\<rparr>"
    unfolding e1 by (simp add: begin_pass_def new_transport_def desired_sample Let_def)
  have e3: "?s3 = new_transport\<lparr>tr_closing := True, tr_items := [new_psub ''t'' 1 10], tr_regs := (\<lambda>_. [])(''t'' := [0]),
      tr_ops := (\<lambda>_. OpAbsent)(OpSubscribe 0 := OpDone None), tr_broker := [''t'' \<mapsto> 1]\<rparr>"
    unfolding e2 by (simp add: finish_pass_def reconcile_sample handle_result_def clear_retry_def new_transport_def Let_def)
  have e4: "?s4 = new_transport\<lparr>tr_closing := True, tr_items := [new_psub ''t'' 1 10], tr_regs := (\<lambda>_. [])(''t'' := [0]),
      tr_broker := [''t'' \<mapsto> 1]\<rparr>"
    unfolding e3 by (simp add: finish_subscribe_def new_transport_def fun_upd_idem Let_def)
  have "transport_reach ?s0" by (rule transport_reach.step [OF transport_reach.dialled transport_step.close])
  then have r1: "transport_reach ?s1" by (rule transport_reach.step [OF _ transport_step.subscribe])
  have r2: "transport_reach ?s2"
    by (rule transport_reach.step [OF r1], rule transport_step.pass; unfold e1) (simp_all add: new_transport_def pass_ready_def)
  have r3: "transport_reach ?s3"
    by (rule transport_reach.step [OF r2], rule transport_step.passed; unfold e2)
      (simp add: new_transport_def, simp add: new_transport_def, rule sample_visits)
  have r4: "transport_reach ?s4"
    by (rule transport_reach.step [OF r3], rule transport_step.subscribed [where ctx = None]; unfold e3) (simp_all add: new_transport_def)
  have r5: "transport_reach (cancel_lifetime ?s4)"
    by (rule transport_reach.step [OF r4], rule transport_step.cancel; unfold e4) (simp add: new_transport_def)
  have r6: "transport_reach (end_loop (cancel_lifetime ?s4))"
    by (rule transport_reach.step [OF r5], rule transport_step.ended; unfold e4) (simp_all add: new_transport_def cancel_lifetime_def)
  have r7: "transport_reach ?s5"
    by (rule transport_reach.step [OF r6], rule transport_step.disconnect) (simp add: end_loop_def clear_retry_def)
  have "tr_close_err ?s5 = Some None \<and> tr_ops ?s5 (OpSubscribe 0) = OpAbsent \<and> length (tr_items ?s5) = 1
      \<and> fst (psub_receive None False (tr_items ?s5 ! 0)) = None"
    unfolding e4
    by (simp add: finish_close_def end_loop_def clear_retry_def cancel_lifetime_def new_transport_def psub_receive_def new_psub_def)
  then show ?thesis using r7 by blast
qed

text \<open>
  A pass made for one caller stops at the first refusal of the broker, whatever its topic, and the caller gets
  that error: here the operation of the subscription of \<open>b\<close> ends with the refusal of \<open>a\<close>.
\<close>

definition refusing_broker :: broker_env where
  "refusing_broker = \<lparr>be_subscribe_order = [''a'', ''b''], be_unsubscribe_order = [],
     be_subscribe = (\<lambda>t q. if t = ''a'' then Inl (PeText ''refused'') else Inr (Some [q])), be_unsubscribe = (\<lambda>t. Inr (Some [0]))\<rparr>"

lemma subscribe_gets_other_error:
  "\<exists>s. transport_reach s \<and> ps_topic (tr_items s ! 1) = ''b''
     \<and> tr_ops s (OpSubscribe 1) = OpDone (Some (PeBroker ''subscribe'' ''a'' (PeText ''refused'')))"
proof -
  let ?s1 = "snd (begin_subscribe ''b'' 1 10 (snd (begin_subscribe ''a'' 1 10 new_transport)))"
  let ?s2 = "begin_pass (PassOperation (OpSubscribe 1)) ?s1"
  let ?s3 = "finish_pass refusing_broker ?s2"
  let ?d = "\<lambda>t. if t = ''a'' then Some 1 else if t = ''b'' then Some 1 else None"
  have e1: "?s1 = new_transport\<lparr>tr_items := [new_psub ''a'' 1 10, new_psub ''b'' 1 10], tr_regs := (\<lambda>_. [])(''a'' := [0], ''b'' := [1]),
      tr_ops := (\<lambda>_. OpAbsent)(OpSubscribe 0 := OpWaiting, OpSubscribe 1 := OpWaiting)\<rparr>"
    by (simp add: begin_subscribe_def new_transport_def validate_exact_topic_def Let_def)
  have "desired s = ?d" if "tr_items s = [new_psub ''a'' 1 10, new_psub ''b'' 1 10]" "tr_regs s = (\<lambda>_. [])(''a'' := [0], ''b'' := [1])" for s
    using that by (auto simp: desired_def desired_qos_def new_psub_def fun_eq_iff)
  then have e2: "?s2 = new_transport\<lparr>tr_items := [new_psub ''a'' 1 10, new_psub ''b'' 1 10], tr_regs := (\<lambda>_. [])(''a'' := [0], ''b'' := [1]),
      tr_ops := (\<lambda>_. OpAbsent)(OpSubscribe 0 := OpWaiting, OpSubscribe 1 := OpRunning),
      tr_loop := LoopPass (PassOperation (OpSubscribe 1)) ?d\<rparr>"
    unfolding e1 by (simp add: begin_pass_def new_transport_def Let_def)
  have p: "subscribe_pass refusing_broker ?d [''a'', ''b''] (\<lambda>_. None) =
      (Some (PeBroker ''subscribe'' ''a'' (PeText ''refused'')), \<lambda>_. None, [BrSubscribe ''a'' 1])"
    by (simp add: refusing_broker_def)
  then have v: "visits refusing_broker ?d (\<lambda>_. None)"
    by (auto simp: visits_def refusing_broker_def split: if_splits)
  have "transport_reach ?s1"
    by (intro transport_reach.step [OF _ transport_step.subscribe] transport_reach.dialled)
  then have r2: "transport_reach ?s2"
    by (rule transport_reach.step, intro transport_step.pass; unfold e1) (simp_all add: new_transport_def pass_ready_def)
  have r3: "transport_reach ?s3"
    by (rule transport_reach.step [OF r2], rule transport_step.passed; unfold e2)
      (simp add: new_transport_def, simp add: new_transport_def, rule v)
  have "reconcile_broker refusing_broker ?d (\<lambda>_. None) =
      (Some (PeBroker ''subscribe'' ''a'' (PeText ''refused'')), \<lambda>_. None, [BrSubscribe ''a'' 1])"
    using p by (simp add: reconcile_broker_def refusing_broker_def)
  then have "ps_topic (tr_items ?s3 ! 1) = ''b''
      \<and> tr_ops ?s3 (OpSubscribe 1) = OpDone (Some (PeBroker ''subscribe'' ''a'' (PeText ''refused'')))"
    unfolding e2
    by (simp add: finish_pass_def handle_result_def fail_topic_def clear_retry_def new_transport_def new_psub_def
        Let_def fail_items_def fail_item_def upd_item_def psub_fail_def request_reconcile_def)
  then show ?thesis using r3 by blast
qed

end
