(* ===== verification/GifScan.thy ===== *)
theory GifScan
  imports Prelude
begin

text \<open>
  \<open>gifFrameCount\<close> and \<open>skipGIFSubBlocks\<close> of \<open>convert/image.go\<close>: the walk over the blocks of a GIF that
  tells a static image from an animation, with the grammar it recognises. A read outside of the data would
  panic and is the value \<open>GifPanic\<close>.
\<close>

unbundle bit_operations_syntax

section \<open>The walk\<close>

datatype gif_fail = GifInvalid | GifUnexpectedEOF | GifPanic

function skip_gif_sub_blocks :: "bytes \<Rightarrow> nat \<Rightarrow> gif_fail + nat" where
  "skip_gif_sub_blocks data index =
     (if index < length data then
        let size = unat (data ! index); index = index + 1
        in if size = 0 then Inr index
           else if length data - index < size then Inl GifUnexpectedEOF
           else skip_gif_sub_blocks data (index + size)
      else Inl GifUnexpectedEOF)"
  by pat_completeness auto
termination
  by (relation "measure (\<lambda>(data, index). length data - index)") auto

declare skip_gif_sub_blocks.simps [simp del]

lemma skip_gif_forward: "skip_gif_sub_blocks data index = Inr n \<Longrightarrow> index < n \<and> n \<le> length data"
proof (induction data index rule: skip_gif_sub_blocks.induct)
  case (1 data index)
  show ?case
    using "1.prems" "1.IH" [OF _ refl refl]
    by (subst (asm) skip_gif_sub_blocks.simps) (auto simp: Let_def split: if_splits)
qed

definition color_table_bytes :: "byte \<Rightarrow> nat" where
  "color_table_bytes packed = (if packed AND 0x80 \<noteq> 0 then 3 * 2 ^ (unat (packed AND 0x07) + 1) else 0)"

function gif_blocks :: "bytes \<Rightarrow> nat \<Rightarrow> nat \<Rightarrow> gif_fail + nat" where
  "gif_blocks data index frames =
     (if index < length data then
        (if data ! index = 0x2c then
           (if frames + 1 > 1 then Inr (frames + 1)
            else if index + 10 > length data then Inl GifUnexpectedEOF
            else if \<not> index + 9 < length data then Inl GifPanic
            else
              let after = index + 10 + color_table_bytes (data ! (index + 9))
              in if after \<ge> length data then Inl GifUnexpectedEOF
                 else case skip_gif_sub_blocks data (after + 1) of
                   Inl e \<Rightarrow> Inl e
                 | Inr n \<Rightarrow> gif_blocks data n (frames + 1))
         else if data ! index = 0x21 then
           (if index + 2 > length data then Inl GifUnexpectedEOF
            else case skip_gif_sub_blocks data (index + 2) of
              Inl e \<Rightarrow> Inl e
            | Inr n \<Rightarrow> gif_blocks data n frames)
         else if data ! index = 0x3b then Inr frames
         else Inl GifInvalid)
      else Inl GifUnexpectedEOF)"
  by pat_completeness auto
termination
  by (relation "measure (\<lambda>(data, index, frames). length data - index)") (auto dest!: skip_gif_forward)

declare gif_blocks.simps [simp del]

definition gif_signatures :: "bytes list" where
  "gif_signatures = [[0x47, 0x49, 0x46, 0x38, 0x37, 0x61], [0x47, 0x49, 0x46, 0x38, 0x39, 0x61]]"

definition gif_frame_count :: "bytes \<Rightarrow> gif_fail + nat" where
  "gif_frame_count data =
     (if length data < 13 \<or> take 6 data \<notin> set gif_signatures then Inl GifInvalid
      else gif_blocks data (13 + color_table_bytes (data ! 10)) 0)"

section \<open>The grammar\<close>

text \<open>
  A block with the bytes it stands for: sub-blocks of one to 255 bytes and a terminator, an extension, an image
  with its descriptor, its color table and the code size of its data.
\<close>

datatype gif_block =
    GifExtension byte "bytes list"
  | GifImage bytes byte bytes byte "bytes list"

definition sub_block_ok :: "bytes \<Rightarrow> bool" where
  "sub_block_ok b \<longleftrightarrow> b \<noteq> [] \<and> length b < 256"

definition sub_blocks_wire :: "bytes list \<Rightarrow> bytes" where
  "sub_blocks_wire bs = concat (map (\<lambda>b. of_nat (length b) # b) bs) @ [0]"

fun block_ok :: "gif_block \<Rightarrow> bool" where
  "block_ok (GifExtension l bs) \<longleftrightarrow> list_all sub_block_ok bs"
| "block_ok (GifImage d packed table code bs) \<longleftrightarrow>
     length d = 8 \<and> length table = color_table_bytes packed \<and> list_all sub_block_ok bs"

fun block_wire :: "gif_block \<Rightarrow> bytes" where
  "block_wire (GifExtension l bs) = 0x21 # l # sub_blocks_wire bs"
| "block_wire (GifImage d packed table code bs) = 0x2c # d @ packed # table @ code # sub_blocks_wire bs"

fun is_gif_image :: "gif_block \<Rightarrow> bool" where
  "is_gif_image (GifExtension l bs) = False"
| "is_gif_image (GifImage d packed table code bs) = True"

definition image_count :: "gif_block list \<Rightarrow> nat" where
  "image_count blocks = length (filter is_gif_image blocks)"

text \<open>A whole file: header of thirteen bytes, global color table, blocks, the trailer and anything after it.\<close>

definition gif_file :: "bytes \<Rightarrow> bytes \<Rightarrow> gif_block list \<Rightarrow> bytes \<Rightarrow> bytes" where
  "gif_file header table blocks rest = header @ table @ concat (map block_wire blocks) @ 0x3b # rest"

definition gif_header_ok :: "bytes \<Rightarrow> bytes \<Rightarrow> bool" where
  "gif_header_ok header table \<longleftrightarrow>
     length header = 13 \<and> take 6 header \<in> set gif_signatures \<and> length table = color_table_bytes (header ! 10)"

section \<open>The walk over a well-formed file\<close>

lemma drop_nth: "drop i data = x # xs \<Longrightarrow> i < length data \<and> data ! i = x \<and> drop (Suc i) data = xs"
  by (metis Cons_nth_drop_Suc drop_eq_Nil list.discI list.inject not_le)

lemma drop_more: "drop i data = xs @ ys \<Longrightarrow> drop (i + length xs) data = ys \<and> i + length xs \<le> max i (length data)"
  by (metis add.commute append_eq_conv_conj drop_drop length_append length_drop max.coboundedI2 add_le_cancel_left le_add1
      le_add_diff_inverse max.cobounded1 nat_le_linear diff_is_0_eq add_is_0 add_0_right)

lemma skip_gif_wire:
  "list_all sub_block_ok bs \<Longrightarrow> drop index data = sub_blocks_wire bs @ rest \<Longrightarrow>
    \<exists>n. skip_gif_sub_blocks data index = Inr n \<and> drop n data = rest"
proof (induction bs arbitrary: index)
  case Nil
  then have "index < length data" "data ! index = 0" "drop (Suc index) data = rest"
    using drop_nth [of index data 0 rest] by (simp_all add: sub_blocks_wire_def)
  then show ?case by (subst skip_gif_sub_blocks.simps) simp
next
  case (Cons b bs)
  have b: "b \<noteq> []" "length b < 256" using Cons.prems(1) by (simp_all add: sub_block_ok_def)
  then have u: "unat (of_nat (length b) :: byte) = length b" by (simp add: unat_of_nat_byte)
  have d: "index < length data" "data ! index = of_nat (length b)" "drop (Suc index) data = b @ sub_blocks_wire bs @ rest"
    using drop_nth [of index data "of_nat (length b)"] Cons.prems(2) by (simp_all add: sub_blocks_wire_def)
  have l: "\<not> length data - Suc index < length b"
    using arg_cong [OF d(3), of length] by simp
  have "drop (Suc index + length b) data = sub_blocks_wire bs @ rest"
    using d(3) by (metis append_eq_conv_conj drop_drop add.commute)
  then obtain n where "skip_gif_sub_blocks data (Suc index + length b) = Inr n" "drop n data = rest"
    using Cons.IH Cons.prems(1) by auto
  then show ?case
    using d u l b(1) by (subst skip_gif_sub_blocks.simps) (simp add: Let_def)
qed

lemma skip_gif_parse:
  "skip_gif_sub_blocks data index = Inr n \<Longrightarrow>
    \<exists>bs. list_all sub_block_ok bs \<and> drop index data = sub_blocks_wire bs @ drop n data"
proof (induction data index rule: skip_gif_sub_blocks.induct)
  case (1 data index)
  have i: "index < length data" using "1.prems" by (subst (asm) skip_gif_sub_blocks.simps) (simp split: if_splits)
  then have c: "drop index data = data ! index # drop (Suc index) data" by (simp add: Cons_nth_drop_Suc)
  show ?case
  proof (cases "data ! index = 0")
    case True
    then have "n = Suc index" using "1.prems" i by (subst (asm) skip_gif_sub_blocks.simps) simp
    then have "drop index data = sub_blocks_wire [] @ drop n data" using c True by (simp add: sub_blocks_wire_def)
    then show ?thesis by (intro exI [of _ "[]"]) simp
  next
    case False
    let ?k = "unat (data ! index)"
    let ?b = "take ?k (drop (Suc index) data)"
    have k: "?k \<noteq> 0" using False by (simp add: unat_eq_0)
    have l: "?k \<le> length data - Suc index" and r: "skip_gif_sub_blocks data (Suc index + ?k) = Inr n"
      using "1.prems" i k by (subst (asm) skip_gif_sub_blocks.simps, simp add: Let_def split: if_splits)+
    obtain bs where bs: "list_all sub_block_ok bs" "drop (Suc index + ?k) data = sub_blocks_wire bs @ drop n data"
      using "1.IH" [OF i refl refl] k l r by auto
    have len: "length ?b = ?k" using l by simp
    have "sub_block_ok ?b" using len k byte_bound [of "data ! index"] by (auto simp: sub_block_ok_def)
    moreover have "drop (Suc index) data = ?b @ drop (Suc index + ?k) data"
      by (metis append_take_drop_id drop_drop add.commute)
    then have "drop index data = sub_blocks_wire (?b # bs) @ drop n data"
      using c bs(2) len by (simp add: sub_blocks_wire_def)
    ultimately show ?thesis using bs(1) by (intro exI [of _ "?b # bs"]) simp
  qed
qed

lemma gif_blocks_wire:
  "list_all block_ok blocks \<Longrightarrow> drop index data = concat (map block_wire blocks) @ 0x3b # rest \<Longrightarrow> f \<le> 1 \<Longrightarrow>
    gif_blocks data index f = Inr (min 2 (f + image_count blocks))"
proof (induction blocks arbitrary: index f)
  case Nil
  then have "index < length data" "data ! index = 0x3b" using drop_nth [of index data] by simp_all
  then show ?case using Nil.prems(3) by (subst gif_blocks.simps) (simp add: image_count_def)
next
  case (Cons b blocks)
  let ?tail = "concat (map block_wire blocks) @ 0x3b # rest"
  show ?case
  proof (cases b)
    case (GifExtension l bs)
    have "drop index data = 0x21 # l # sub_blocks_wire bs @ ?tail" using Cons.prems(2) GifExtension by simp
    from drop_nth [OF this] have d: "index < length data" "data ! index = 0x21"
      "drop (Suc index) data = l # sub_blocks_wire bs @ ?tail" by simp_all
    have e: "Suc index < length data" "drop (Suc (Suc index)) data = sub_blocks_wire bs @ ?tail"
      using drop_nth [OF d(3)] by simp_all
    obtain n where n: "skip_gif_sub_blocks data (Suc (Suc index)) = Inr n" "drop n data = ?tail"
      using skip_gif_wire [OF _ e(2)] Cons.prems(1) GifExtension by auto
    have "gif_blocks data n f = Inr (min 2 (f + image_count blocks))" using Cons n(2) by simp
    then show ?thesis using d e(1) n(1) GifExtension by (subst gif_blocks.simps) (simp add: image_count_def)
  next
    case (GifImage d8 packed table code bs)
    have ok: "length d8 = 8" "length table = color_table_bytes packed" "list_all sub_block_ok bs"
      using Cons.prems(1) GifImage by simp_all
    have "drop index data = 0x2c # d8 @ packed # table @ code # sub_blocks_wire bs @ ?tail"
      using Cons.prems(2) GifImage by simp
    from drop_nth [OF this] have d: "index < length data" "data ! index = 0x2c"
      "drop (Suc index) data = d8 @ packed # table @ code # sub_blocks_wire bs @ ?tail" by simp_all
    have "drop (index + 9) data = packed # table @ code # sub_blocks_wire bs @ ?tail"
      using arg_cong [OF d(3), of "drop 8"] ok(1) by (simp add: add.commute)
    then have p: "index + 9 < length data" "data ! (index + 9) = packed"
      "drop (index + 10) data = table @ code # sub_blocks_wire bs @ ?tail"
      using drop_nth [of "index + 9" data packed] by (simp_all add: add.commute)
    have "drop (index + 10 + color_table_bytes packed) data = code # sub_blocks_wire bs @ ?tail"
      using arg_cong [OF p(3), of "drop (length table)"] ok(2) by (simp add: ac_simps)
    then have c: "index + 10 + color_table_bytes packed < length data"
      "drop (Suc (index + 10 + color_table_bytes packed)) data = sub_blocks_wire bs @ ?tail"
      using drop_nth [of "index + 10 + color_table_bytes packed" data code] by simp_all
    obtain n where n: "skip_gif_sub_blocks data (Suc (index + 10 + color_table_bytes packed)) = Inr n" "drop n data = ?tail"
      using skip_gif_wire [OF ok(3) c(2)] by auto
    show ?thesis
    proof (cases "f = 0")
      case True
      have "gif_blocks data n 1 = Inr (min 2 (1 + image_count blocks))" using Cons n(2) by simp
      then show ?thesis
        using d p c n(1) GifImage True by (subst gif_blocks.simps) (simp add: image_count_def Let_def)
    next
      case False
      then show ?thesis using d GifImage Cons.prems(3) by (subst gif_blocks.simps) (simp add: image_count_def)
    qed
  qed
qed

lemma gif_blocks_parse:
  "gif_blocks data index f = Inr n \<Longrightarrow> n \<le> 1 \<Longrightarrow>
    \<exists>blocks rest. list_all block_ok blocks \<and> drop index data = concat (map block_wire blocks) @ 0x3b # rest
      \<and> n = f + image_count blocks"
proof (induction data index f rule: gif_blocks.induct)
  case (1 data index f)
  have i: "index < length data" using "1.prems" by (subst (asm) gif_blocks.simps) (simp split: if_splits)
  then have c: "drop index data = data ! index # drop (Suc index) data" by (simp add: Cons_nth_drop_Suc)
  consider "data ! index = 0x2c" | "data ! index = 0x21" | "data ! index = 0x3b"
    using "1.prems" i by (subst (asm) gif_blocks.simps) (auto split: if_splits)
  then show ?case
  proof cases
    case 1
    let ?packed = "data ! (index + 9)"
    let ?after = "index + 10 + color_table_bytes ?packed"
    have f: "\<not> 1 < f + 1" "index + 10 \<le> length data" "?after < length data"
      using "1.prems" i 1 by (subst (asm) gif_blocks.simps, auto simp: Let_def split: if_splits)+
    obtain m where m: "skip_gif_sub_blocks data (?after + 1) = Inr m" "gif_blocks data m (f + 1) = Inr n"
      using "1.prems" i 1 f by (subst (asm) gif_blocks.simps) (auto simp: Let_def split: if_splits sum.splits)
    obtain blocks rest where b: "list_all block_ok blocks" "drop m data = concat (map block_wire blocks) @ 0x3b # rest"
      "n = f + 1 + image_count blocks"
      using "1.IH"(1) [OF i 1 f(1) _ _ refl _ m(1,2) "1.prems"(2)] f by auto
    obtain bs where bs: "list_all sub_block_ok bs" "drop (?after + 1) data = sub_blocks_wire bs @ drop m data"
      using skip_gif_parse [OF m(1)] by auto
    have "drop (Suc index) data = take 8 (drop (Suc index) data) @ drop (index + 9) data"
    proof -
      have "8 + Suc index = index + 9" by simp
      then show ?thesis by (metis append_take_drop_id drop_drop)
    qed
    moreover have "drop (index + 9) data = ?packed # drop (index + 10) data"
      using f(2) Cons_nth_drop_Suc [of "index + 9" data] by (simp add: add.commute)
    moreover have "drop (index + 10) data = take (color_table_bytes ?packed) (drop (index + 10) data) @ drop ?after data"
      by (metis add.commute append_take_drop_id drop_drop)
    moreover have "drop ?after data = data ! ?after # drop (?after + 1) data"
      using f(3) Cons_nth_drop_Suc [of ?after data] by simp
    moreover define d8 table where "d8 = take 8 (drop (Suc index) data)" and "table = take (color_table_bytes ?packed) (drop (index + 10) data)"
    ultimately have w: "drop index data = block_wire (GifImage d8 ?packed table (data ! ?after) bs) @ drop m data"
      using c 1 bs(2) by simp
    have "block_ok (GifImage d8 ?packed table (data ! ?after) bs)" using f bs(1) by (simp add: d8_def table_def)
    then show ?thesis
      using w b by (intro exI [of _ "GifImage d8 ?packed table (data ! ?after) bs # blocks"] exI [of _ rest]) (simp add: image_count_def)
  next
    case 2
    have f: "index + 2 \<le> length data" using "1.prems" i 2 by (subst (asm) gif_blocks.simps) (auto split: if_splits)
    obtain m where m: "skip_gif_sub_blocks data (index + 2) = Inr m" "gif_blocks data m f = Inr n"
      using "1.prems" i 2 f by (subst (asm) gif_blocks.simps) (auto split: if_splits sum.splits)
    obtain blocks rest where b: "list_all block_ok blocks" "drop m data = concat (map block_wire blocks) @ 0x3b # rest"
      "n = f + image_count blocks"
      using "1.IH"(2) [OF i _ 2 _ m(1,2) "1.prems"(2)] 2 f by auto
    obtain bs where bs: "list_all sub_block_ok bs" "drop (index + 2) data = sub_blocks_wire bs @ drop m data"
      using skip_gif_parse [OF m(1)] by auto
    have "drop (Suc index) data = data ! Suc index # drop (index + 2) data"
      using f Cons_nth_drop_Suc [of "Suc index" data] by simp
    then have "drop index data = block_wire (GifExtension (data ! Suc index) bs) @ drop m data"
      using c 2 bs(2) by simp
    then show ?thesis
      using b bs(1) by (intro exI [of _ "GifExtension (data ! Suc index) bs # blocks"] exI [of _ rest]) (simp add: image_count_def)
  next
    case 3
    then have "n = f" using "1.prems" i by (subst (asm) gif_blocks.simps) simp
    then show ?thesis using c 3 by (intro exI [of _ "[]"] exI [of _ "drop (Suc index) data"]) (simp add: image_count_def)
  qed
qed

lemma gif_blocks_no_panic: "gif_blocks data index f \<noteq> Inl GifPanic"
proof (induction data index f rule: gif_blocks.induct)
  case (1 data index f)
  have "skip_gif_sub_blocks d i \<noteq> Inl GifPanic" for d i
  proof (induction d i rule: skip_gif_sub_blocks.induct)
    case (1 d i)
    then show ?case by (subst skip_gif_sub_blocks.simps) (simp add: Let_def)
  qed
  then show ?case
    using "1.IH" by (subst gif_blocks.simps) (auto simp: Let_def split: sum.splits)
qed

text \<open>
  C35: a GIF is taken for a static image exactly when it is a header with its color table and a sequence of
  well-formed blocks, one of them an image, up to the trailer; the walk ends on every input, and it never
  reads outside of the data.
\<close>

theorem gif_static_spec:
  "(gif_frame_count data = Inr 1 \<longleftrightarrow>
      (\<exists>header table blocks rest. gif_header_ok header table \<and> list_all block_ok blocks \<and> image_count blocks = 1
         \<and> data = gif_file header table blocks rest))
    \<and> gif_frame_count data \<noteq> Inl GifPanic"
proof (intro conjI iffI)
  assume r: "gif_frame_count data = Inr 1"
  let ?t = "color_table_bytes (data ! 10)"
  have h: "13 \<le> length data" "take 6 data \<in> set gif_signatures" "gif_blocks data (13 + ?t) 0 = Inr 1"
    using r by (auto simp: gif_frame_count_def split: if_splits)
  have i: "13 + ?t < length data" using h(3) by (subst (asm) gif_blocks.simps) (simp split: if_splits)
  obtain blocks rest where b: "list_all block_ok blocks" "drop (13 + ?t) data = concat (map block_wire blocks) @ 0x3b # rest"
    "1 = 0 + image_count blocks"
    using gif_blocks_parse [OF h(3)] by auto
  let ?h = "take 13 data" and ?ct = "take ?t (drop 13 data)"
  have "data = ?h @ ?ct @ drop (13 + ?t) data" by (metis add.commute append_take_drop_id drop_drop)
  then have "data = gif_file ?h ?ct blocks rest" using b(2) by (simp add: gif_file_def)
  moreover have "?t \<le> length data - 13" using i by simp
  then have "gif_header_ok ?h ?ct" using h(1,2) by (simp add: gif_header_ok_def min_absorb1 min_absorb2)
  ultimately show "\<exists>header table blocks rest. gif_header_ok header table \<and> list_all block_ok blocks \<and> image_count blocks = 1
      \<and> data = gif_file header table blocks rest"
    using b by (intro exI conjI) auto
next
  assume "\<exists>header table blocks rest. gif_header_ok header table \<and> list_all block_ok blocks \<and> image_count blocks = 1
      \<and> data = gif_file header table blocks rest"
  then obtain h t bs rest where g: "gif_header_ok h t" "list_all block_ok bs" "image_count bs = 1" "data = gif_file h t bs rest"
    by blast
  then have h: "length h = 13" "take 6 h \<in> set gif_signatures" "length t = color_table_bytes (h ! 10)"
    by (simp_all add: gif_header_ok_def)
  then have d: "take 6 data = take 6 h" "13 \<le> length data" "data ! 10 = h ! 10"
    "drop (13 + length t) data = concat (map block_wire bs) @ 0x3b # rest"
    using g(4) by (simp_all add: gif_file_def nth_append)
  then have "gif_blocks data (13 + length t) 0 = Inr (min 2 (0 + image_count bs))"
    by (intro gif_blocks_wire g) simp_all
  then show "gif_frame_count data = Inr 1" using d h g(3) by (simp add: gif_frame_count_def)
next
  show "gif_frame_count data \<noteq> Inl GifPanic" using gif_blocks_no_panic by (simp add: gif_frame_count_def)
qed

end
