(* ===== verification/GoFloat.thy ===== *)
theory GoFloat
  imports Prelude Complex_Main "HOL-Library.Log_Nat"
begin

text \<open>
  \<open>float64\<close> arithmetic as the image conversion uses it: every operation is the exact operation on rationals
  followed by \<open>fl\<close>, the rounding to the nearest number with a significand of 53 bits, ties to even. The
  range of exponents is not bounded; the values here are far inside it. Operations are not fused.
\<close>

section \<open>Rounding\<close>

definition log2_floor :: "rat \<Rightarrow> int" where
  "log2_floor x =
     (let (n, d) = quotient_of x; k = bitlen n - bitlen d
      in if x < 2 powi k then k - 1 else k)"

definition round_even :: "rat \<Rightarrow> int" where
  "round_even x =
     (let n = \<lfloor>x\<rfloor>; r = x - of_int n
      in if r < 1 / 2 then n else if 1 / 2 < r then n + 1 else if even n then n else n + 1)"

definition fl :: "rat \<Rightarrow> rat" where
  "fl x =
     (if x = 0 then 0
      else let e = log2_floor \<bar>x\<bar> - 52
           in sgn x * (of_int (round_even (\<bar>x\<bar> / 2 powi e)) * 2 powi e))"

text \<open>\<open>math.Round\<close>, \<open>math.Floor\<close> and the conversion of an integral float.\<close>

definition math_round :: "rat \<Rightarrow> int" where
  "math_round x = (if x < 0 then - \<lfloor>- x + 1 / 2\<rfloor> else \<lfloor>x + 1 / 2\<rfloor>)"

section \<open>Facts\<close>

lemma two_powi_add: "(2 :: rat) powi (a + b) = 2 powi a * 2 powi b"
  by (rule power_int_add) simp

lemma two_powi_nat: "0 \<le> a \<Longrightarrow> (2 :: rat) powi a = of_int (2 ^ nat a)"
  by (simp add: power_int_def)

lemma two_powi_shift: "a \<le> b \<Longrightarrow> (2 :: rat) powi b = of_int (2 ^ nat (b - a)) * 2 powi a"
  using two_powi_add [of "b - a" a] by (simp add: two_powi_nat)

lemma of_int_bound: "\<bar>m\<bar> < 2 ^ 53 \<Longrightarrow> (of_int m :: rat) < 2 ^ 53"
  by (metis abs_less_iff of_int_less_iff of_int_numeral of_int_power)

lemma bitlen_positive: "0 < n \<Longrightarrow> 0 < bitlen n"
  using bitlen_bounds [of n] by (cases "bitlen n = 0") (auto simp: bitlen_def)

lemma log2_floor_bounds:
  assumes "0 < x"
  shows "2 powi (log2_floor x) \<le> x" and "x < 2 powi (log2_floor x + 1)"
proof -
  obtain n d where nd: "quotient_of x = (n, d)" by (cases "quotient_of x")
  have d: "0 < d" using quotient_of_denom_pos [OF nd] .
  have x: "x = of_int n / of_int d" using quotient_of_div [OF nd] .
  then have n: "0 < n" using assms d by (simp add: zero_less_divide_iff)
  define k where "k = bitlen n - bitlen d"
  have bn: "2 ^ nat (bitlen n - 1) \<le> n" "n < 2 ^ nat (bitlen n)" "0 < bitlen n"
    using bitlen_bounds [OF n] bitlen_positive [OF n] by auto
  have bd: "2 ^ nat (bitlen d - 1) \<le> d" "d < 2 ^ nat (bitlen d)" "0 < bitlen d"
    using bitlen_bounds [OF d] bitlen_positive [OF d] by auto
  have "2 powi (bitlen n - 1) \<le> (of_int n :: rat)"
    using bn(1,3) two_powi_nat [of "bitlen n - 1"] by (simp del: of_int_power)
  moreover have "(of_int n :: rat) < 2 powi (bitlen n)"
    using bn(2,3) two_powi_nat [of "bitlen n"] by (simp del: of_int_power)
  moreover have "2 powi (bitlen d - 1) \<le> (of_int d :: rat)"
    using bd(1,3) two_powi_nat [of "bitlen d - 1"] by (simp del: of_int_power)
  moreover have "(of_int d :: rat) < 2 powi (bitlen d)"
    using bd(2,3) two_powi_nat [of "bitlen d"] by (simp del: of_int_power)
  ultimately have lo: "2 powi (k - 1) \<le> x" and hi: "x < 2 powi (k + 1)"
  proof -
    assume a: "2 powi (bitlen n - 1) \<le> (of_int n :: rat)" "(of_int n :: rat) < 2 powi (bitlen n)"
      "2 powi (bitlen d - 1) \<le> (of_int d :: rat)" "(of_int d :: rat) < 2 powi (bitlen d)"
    have "2 powi (k - 1) * 2 powi (bitlen d) = (2 powi (bitlen n - 1) :: rat)"
      by (simp add: two_powi_add [symmetric] k_def)
    moreover have "2 powi (k - 1) * (of_int d :: rat) \<le> 2 powi (k - 1) * 2 powi (bitlen d)"
      using a(4) by (intro mult_left_mono) simp_all
    ultimately have "2 powi (k - 1) * (of_int d :: rat) \<le> of_int n" using a(1) by linarith
    then show "2 powi (k - 1) \<le> x" using d x by (simp add: pos_le_divide_eq)
    have "2 powi (k + 1) * 2 powi (bitlen d - 1) = (2 powi (bitlen n) :: rat)"
      by (simp add: two_powi_add [symmetric] k_def)
    moreover have "2 powi (k + 1) * 2 powi (bitlen d - 1) \<le> 2 powi (k + 1) * (of_int d :: rat)"
      using a(3) by (intro mult_left_mono) simp_all
    ultimately have "of_int n < 2 powi (k + 1) * (of_int d :: rat)" using a(2) by linarith
    then show "x < 2 powi (k + 1)" using d x by (simp add: pos_divide_less_eq)
  qed
  have l: "log2_floor x = (if x < 2 powi k then k - 1 else k)" by (simp add: log2_floor_def nd k_def Let_def)
  show "2 powi (log2_floor x) \<le> x" "x < 2 powi (log2_floor x + 1)"
    unfolding l using lo hi by (auto simp: not_less)
qed

lemma round_even_near: "\<bar>of_int (round_even x) - x\<bar> \<le> 1 / 2"
proof -
  have "0 \<le> x - of_int \<lfloor>x\<rfloor>" "x - of_int \<lfloor>x\<rfloor> < 1" by linarith+
  then show ?thesis by (auto simp: round_even_def Let_def)
qed

lemma round_even_int [simp]: "round_even (of_int n) = n"
  by (simp add: round_even_def)

lemma round_even_ge: "of_int n \<le> x \<Longrightarrow> n \<le> round_even x"
  by (auto simp: round_even_def Let_def le_floor_iff) (simp_all add: le_floor_iff [symmetric])

lemma round_even_le: "x \<le> of_int n \<Longrightarrow> round_even x \<le> n"
proof -
  assume "x \<le> of_int n"
  then have "\<lfloor>x\<rfloor> < n \<or> x = of_int n" by linarith
  then show ?thesis by (auto simp: round_even_def Let_def)
qed

text \<open>The numbers a \<open>float64\<close> holds exactly.\<close>

definition exact :: "rat \<Rightarrow> bool" where
  "exact x \<longleftrightarrow> (\<exists>m e. \<bar>m\<bar> < 2 ^ 53 \<and> x = of_int m * 2 powi e)"

lemma exactI: "\<bar>m\<bar> < 2 ^ 53 \<Longrightarrow> x = of_int m * 2 powi e \<Longrightarrow> exact x"
  by (auto simp: exact_def)

lemma fl_0 [simp]: "fl 0 = 0"
  by (simp add: fl_def)

lemma fl_minus: "fl (- x) = - fl x"
  by (simp add: fl_def Let_def)

lemma fl_pos: "0 < x \<Longrightarrow> fl x = of_int (round_even (x / 2 powi (log2_floor x - 52))) * 2 powi (log2_floor x - 52)"
  by (simp add: fl_def Let_def)

lemma fl_scale:
  assumes "0 < x"
  shows "2 ^ 52 \<le> x / 2 powi (log2_floor x - 52)" and "x / 2 powi (log2_floor x - 52) < 2 ^ 53"
proof -
  let ?e = "log2_floor x - 52"
  have "2 powi (log2_floor x) = (2 ^ 52 * 2 powi ?e :: rat)" "2 powi (log2_floor x + 1) = (2 ^ 53 * 2 powi ?e :: rat)"
    using two_powi_add [of 52 ?e] two_powi_add [of 53 ?e] by (simp_all add: add.commute)
  then show "2 ^ 52 \<le> x / 2 powi ?e" "x / 2 powi ?e < 2 ^ 53"
    using log2_floor_bounds [OF assms] by (simp_all add: pos_le_divide_eq pos_divide_less_eq)
qed

text \<open>A representable number is above the exponent of every number it bounds from above.\<close>

lemma exact_multiple:
  assumes "0 < x" and "\<bar>m\<bar> < 2 ^ 53" and "x \<le> of_int m * 2 powi e"
  shows "\<exists>n. of_int m * 2 powi e = (of_int n * 2 powi (log2_floor x - 52) :: rat)"
proof -
  let ?E = "log2_floor x - 52"
  have "of_int m * 2 powi e < (2 ^ 53 * 2 powi e :: rat)"
    using of_int_bound [OF assms(2)] by (intro mult_strict_right_mono) simp_all
  also have "\<dots> = 2 powi (53 + e)" using two_powi_add [of 53 e] by simp
  finally have "2 powi (log2_floor x) < (2 powi (53 + e) :: rat)" using log2_floor_bounds(1) [OF assms(1)] assms(3) by linarith
  then have "log2_floor x < 53 + e"
    using power_int_increasing [of "53 + e" "log2_floor x" "2 :: rat"] by (simp add: not_le [symmetric]) force
  then have "2 powi e = (of_int (2 ^ nat (e - ?E)) * 2 powi ?E :: rat)" by (intro two_powi_shift) simp
  then have "of_int m * 2 powi e = (of_int (m * 2 ^ nat (e - ?E)) * 2 powi ?E :: rat)" by simp
  then show ?thesis by blast
qed

lemma fl_le:
  assumes "0 \<le> x" and "x \<le> y" and "exact y"
  shows "fl x \<le> y"
proof (cases "x = 0")
  case False
  then have x: "0 < x" using assms(1) by simp
  let ?E = "log2_floor x - 52"
  obtain n where n: "y = of_int n * 2 powi ?E"
    using assms(2,3) exact_multiple [OF x] by (auto simp: exact_def)
  then have "x / 2 powi ?E \<le> of_int n" using assms(2) by (simp add: pos_divide_le_eq)
  then have "round_even (x / 2 powi ?E) \<le> n" by (rule round_even_le)
  then show ?thesis unfolding n fl_pos [OF x] by (intro mult_right_mono) simp_all
qed (use assms in simp)

lemma fl_ge:
  assumes "0 < y" and "y \<le> x" and "exact y"
  shows "y \<le> fl x"
proof -
  have x: "0 < x" using assms by simp
  let ?E = "log2_floor x - 52"
  obtain m e where m: "\<bar>m\<bar> < 2 ^ 53" "y = of_int m * 2 powi e" using assms(3) by (auto simp: exact_def)
  have lo: "2 ^ 52 * 2 powi ?E \<le> fl x"
  proof -
    have "of_int (2 ^ 52) \<le> x / 2 powi ?E" using fl_scale(1) [OF x] by simp
    then have "2 ^ 52 \<le> round_even (x / 2 powi ?E)" by (rule round_even_ge)
    then have "(2 ^ 52 :: rat) \<le> of_int (round_even (x / 2 powi ?E))"
      by (metis of_int_le_iff of_int_numeral of_int_power)
    then show ?thesis unfolding fl_pos [OF x] by (intro mult_right_mono) simp_all
  qed
  show ?thesis
  proof (cases "?E \<le> e")
    case True
    then have "2 powi e = (of_int (2 ^ nat (e - ?E)) * 2 powi ?E :: rat)" by (rule two_powi_shift)
    then have y: "y = of_int (m * 2 ^ nat (e - ?E)) * 2 powi ?E" using m by simp
    then have "of_int (m * 2 ^ nat (e - ?E)) \<le> x / 2 powi ?E" using assms(2) by (simp add: pos_le_divide_eq)
    then have "m * 2 ^ nat (e - ?E) \<le> round_even (x / 2 powi ?E)" by (rule round_even_ge)
    then have "(of_int (m * 2 ^ nat (e - ?E)) :: rat) \<le> of_int (round_even (x / 2 powi ?E))" by (simp only: of_int_le_iff)
    then show ?thesis unfolding y fl_pos [OF x] by (intro mult_right_mono) simp_all
  next
    case False
    have "y \<le> 2 ^ 53 * 2 powi e"
      unfolding m(2) using of_int_bound [OF m(1)] by (intro mult_right_mono) simp_all
    also have "\<dots> = 2 powi (53 + e)" using two_powi_add [of 53 e] by simp
    also have "\<dots> \<le> 2 powi (52 + ?E)" using False by (intro power_int_increasing) simp_all
    also have "\<dots> = 2 ^ 52 * 2 powi ?E" using two_powi_add [of 52 ?E] by simp
    finally show ?thesis using lo by linarith
  qed
qed

lemma fl_exact:
  assumes "exact x"
  shows "fl x = x"
proof -
  have pos: "fl y = y" if "0 < y" "exact y" for y
    using fl_le [of y y] fl_ge [of y y] that by simp
  show ?thesis
  proof (cases "x < 0")
    case True
    obtain m e where "\<bar>m\<bar> < 2 ^ 53" "x = of_int m * 2 powi e" using assms by (auto simp: exact_def)
    then have "exact (- x)" by (intro exactI [of "- m" "- x" e]) simp_all
    then have "fl (- x) = - x" using True pos by simp
    then show ?thesis by (simp add: fl_minus)
  next
    case False
    then show ?thesis using pos assms by (cases "x = 0") simp_all
  qed
qed

lemma fl_error:
  assumes "0 \<le> x"
  shows "\<bar>fl x - x\<bar> \<le> x / 2 ^ 53"
proof (cases "x = 0")
  case False
  then have x: "0 < x" using assms by simp
  let ?E = "log2_floor x - 52"
  have "fl x - x = (of_int (round_even (x / 2 powi ?E)) - x / 2 powi ?E) * 2 powi ?E"
    unfolding fl_pos [OF x] by (simp add: left_diff_distrib)
  then have "\<bar>fl x - x\<bar> = \<bar>of_int (round_even (x / 2 powi ?E)) - x / 2 powi ?E\<bar> * 2 powi ?E"
    by (simp add: abs_mult)
  also have "\<dots> \<le> 1 / 2 * 2 powi ?E" using round_even_near by (intro mult_right_mono) simp_all
  also have "\<dots> \<le> x / 2 ^ 53"
    using fl_scale(1) [OF x] by (simp add: pos_le_divide_eq)
  finally show ?thesis .
qed simp

lemma fl_nonneg: "0 \<le> x \<Longrightarrow> 0 \<le> fl x"
proof -
  assume x: "0 \<le> x"
  have "x / 2 ^ 53 \<le> x" using x by (simp add: pos_divide_le_eq)
  then show ?thesis using fl_error [OF x] x by linarith
qed

lemma exact_int: "\<bar>n\<bar> < 2 ^ 53 \<Longrightarrow> exact (of_int n)"
  by (rule exactI [of n _ 0]) simp_all

lemma exact_half: "\<bar>n\<bar> < 2 ^ 53 \<Longrightarrow> exact (of_int n / 2)"
  by (rule exactI [of n _ "- 1"]) (simp_all add: power_int_minus)

lemma fl_lower: "0 \<le> x \<Longrightarrow> x * (1 - 1 / 2 ^ 53) \<le> fl x"
  and fl_upper: "0 \<le> x \<Longrightarrow> fl x \<le> x * (1 + 1 / 2 ^ 53)"
  using fl_error [of x] unfolding abs_le_iff by (simp_all add: algebra_simps)

end
