(* ===== verification/Frame.thy ===== *)
theory Frame
  imports Prelude
begin

text \<open>
  Package \<open>frame\<close> (\<open>frame/frame.go\<close>, \<open>frame/errors.go\<close>): status frames, their metadata
  checks, the run-length decoder and the conversion to RGBA. The first group of lemmas
  relates the decoder to a grammar of run-length tokens, the second shows that the sizes
  computed from the metadata are exact, the third that no pixel read is out of range.
\<close>

unbundle bit_operations_syntax

section \<open>Data\<close>

text \<open>The protobuf enums are open 32-bit enums; unknown values are kept.\<close>

abbreviation Screen_FRONT :: int where "Screen_FRONT \<equiv> 0"
abbreviation Screen_BACK :: int where "Screen_BACK \<equiv> 1"
abbreviation Encoding_PLAIN :: int where "Encoding_PLAIN \<equiv> 0"
abbreviation Encoding_RUN_LENGTH :: int where "Encoding_RUN_LENGTH \<equiv> 1"
abbreviation PixelFormat_RGB888 :: int where "PixelFormat_RGB888 \<equiv> 0"
abbreviation PixelFormat_L8 :: int where "PixelFormat_L8 \<equiv> 1"
abbreviation PixelFormat_L4 :: int where "PixelFormat_L4 \<equiv> 2"

definition FrontWidth :: nat where "FrontWidth = 72"
definition FrontHeight :: nat where "FrontHeight = 16"
definition BackWidth :: nat where "BackWidth = 160"
definition BackHeight :: nat where "BackHeight = 80"
definition MaxPayloadSize :: nat where "MaxPayloadSize = 16384"

lemmas frame_consts = FrontWidth_def FrontHeight_def BackWidth_def BackHeight_def MaxPayloadSize_def

text \<open>
  The details a wrapped \<open>ErrInvalidFrame\<close> carries, and the sentinel errors of the package.
\<close>

datatype invalid_detail =
    NilFrame
  | PayloadLength nat nat
  | DecodedLength nat nat
  | FrontDimensions u32 u32
  | BackDimensions u32 u32
  | ZeroBlockCount
  | OutputExceeds nat
  | TruncatedLiteral
  | TruncatedRepeat

datatype frame_cause =
    ErrInvalidFrame invalid_detail
  | ErrPayloadTooLarge
  | ErrUnsupportedScreen
  | ErrUnsupportedEncoding
  | ErrUnsupportedPixelFormat

record frame =
  fr_screen :: int
  fr_width :: u32
  fr_height :: u32
  fr_encoding :: int
  fr_format :: int
  fr_raw :: bytes

record frame_error =
  fe_operation :: string
  fe_screen :: int
  fe_encoding :: int
  fe_format :: int
  fe_err :: frame_cause

definition mk_frame_error :: "string \<Rightarrow> frame \<Rightarrow> frame_cause \<Rightarrow> frame_error" where
  "mk_frame_error operation f err =
     \<lparr>fe_operation = operation, fe_screen = fr_screen f, fe_encoding = fr_encoding f,
      fe_format = fr_format f, fe_err = err\<rparr>"

definition zero_frame :: frame where
  "zero_frame = \<lparr>fr_screen = 0, fr_width = 0, fr_height = 0, fr_encoding = 0, fr_format = 0, fr_raw = []\<rparr>"

section \<open>Metadata\<close>

definition validate_metadata :: "frame \<Rightarrow> frame_cause + unit" where
  "validate_metadata f =
     (if length (fr_raw f) > MaxPayloadSize then Inl ErrPayloadTooLarge
      else if fr_screen f = Screen_FRONT then
        (if fr_width f \<noteq> of_nat FrontWidth \<or> fr_height f \<noteq> of_nat FrontHeight
         then Inl (ErrInvalidFrame (FrontDimensions (fr_width f) (fr_height f))) else Inr ())
      else if fr_screen f = Screen_BACK then
        (if fr_width f \<noteq> of_nat BackWidth \<or> fr_height f \<noteq> of_nat BackHeight
         then Inl (ErrInvalidFrame (BackDimensions (fr_width f) (fr_height f))) else Inr ())
      else Inl ErrUnsupportedScreen)"

text \<open>\<open>pixelDataSize\<close> computes in \<open>uint64\<close>, where the multiplication by 3 can wrap.\<close>

definition pixel_data_size :: "frame \<Rightarrow> frame_cause + nat" where
  "pixel_data_size f =
     (let pixelCount = (ucast (fr_width f) * ucast (fr_height f) :: u64)
      in rbind
           (if fr_format f = PixelFormat_RGB888 then Inr (pixelCount * 3)
            else if fr_format f = PixelFormat_L8 then Inr pixelCount
            else if fr_format f = PixelFormat_L4 then Inr ((pixelCount + 1) div 2)
            else Inl ErrUnsupportedPixelFormat)
           (\<lambda>size. if size > of_nat MaxPayloadSize then Inl ErrPayloadTooLarge else Inr (unat size)))"

definition rle_block_size :: "frame \<Rightarrow> frame_cause + nat" where
  "rle_block_size f =
     (if fr_screen f = Screen_FRONT then Inr 3
      else if fr_screen f = Screen_BACK then Inr 2
      else Inl ErrUnsupportedScreen)"

section \<open>Run-length decoding\<close>

text \<open>
  The loop of \<open>decodeRLE\<close>; \<open>rest\<close> is \<open>source[sourceIndex:]\<close>. Each round consumes at least
  the opcode, which is the termination argument.
\<close>

function rle_loop :: "nat \<Rightarrow> nat \<Rightarrow> bytes \<Rightarrow> bytes \<Rightarrow> frame_cause + bytes" where
  "rle_loop expectedSize blockSize rest result =
     (case rest of
        [] \<Rightarrow> if length result \<noteq> expectedSize
              then Inl (ErrInvalidFrame (DecodedLength (length result) expectedSize))
              else Inr result
      | opcode # tail \<Rightarrow>
          let blockCount = unat (opcode AND 0x7f); byteCount = blockCount * blockSize
          in if blockCount = 0 then Inl (ErrInvalidFrame ZeroBlockCount)
             else if int byteCount > int expectedSize - int (length result)
               then Inl (ErrInvalidFrame (OutputExceeds expectedSize))
             else if opcode AND 0x80 \<noteq> 0 then
               (if byteCount > length tail then Inl (ErrInvalidFrame TruncatedLiteral)
                else rle_loop expectedSize blockSize (drop byteCount tail) (result @ take byteCount tail))
             else if blockSize > length tail then Inl (ErrInvalidFrame TruncatedRepeat)
             else rle_loop expectedSize blockSize (drop blockSize tail)
                    (result @ concat (replicate blockCount (take blockSize tail))))"
  by pat_completeness auto
termination
  by (relation "measure (\<lambda>(e, b, rest, r). length rest)") auto

declare rle_loop.simps [simp del]

definition decode_rle :: "bytes \<Rightarrow> nat \<Rightarrow> nat \<Rightarrow> frame_cause + bytes" where
  "decode_rle source expectedSize blockSize = rle_loop expectedSize blockSize source []"

section \<open>Construction and pixels\<close>

text \<open>A display target is an open string type with the two known values.\<close>

definition from_http :: "string \<Rightarrow> bytes \<Rightarrow> frame_error + frame" where
  "from_http target raw =
     rbind
       (if target = ''front'' then
          Inr \<lparr>fr_screen = Screen_FRONT, fr_width = of_nat FrontWidth, fr_height = of_nat FrontHeight,
               fr_encoding = Encoding_PLAIN, fr_format = PixelFormat_RGB888, fr_raw = []\<rparr>
        else if target = ''back'' then
          Inr \<lparr>fr_screen = Screen_BACK, fr_width = of_nat BackWidth, fr_height = of_nat BackHeight,
               fr_encoding = Encoding_PLAIN, fr_format = PixelFormat_L4, fr_raw = []\<rparr>
        else Inl (mk_frame_error ''from_http'' zero_frame ErrUnsupportedScreen))
       (\<lambda>value. case pixel_data_size value of
            Inl err \<Rightarrow> Inl (mk_frame_error ''from_http'' value err)
          | Inr want \<Rightarrow>
              if length raw \<noteq> want
              then Inl (mk_frame_error ''from_http'' value
                          (ErrInvalidFrame (PayloadLength (length raw) want)))
              else Inr (value\<lparr>fr_raw := raw\<rparr>))"

text \<open>\<open>None\<close> is the nil pointer; the argument record is the protobuf message.\<close>

definition from_proto :: "frame option \<Rightarrow> frame_error + frame" where
  "from_proto value =
     (case value of
        None \<Rightarrow> Inl (mk_frame_error ''from_proto'' zero_frame (ErrInvalidFrame NilFrame))
      | Some v \<Rightarrow>
          if length (fr_raw v) > MaxPayloadSize
          then Inl (mk_frame_error ''from_proto'' (v\<lparr>fr_raw := []\<rparr>) ErrPayloadTooLarge)
          else Inr v)"

definition frame_pixels :: "string \<Rightarrow> frame \<Rightarrow> frame_error + bytes" where
  "frame_pixels operation f =
     (case rbind (validate_metadata f) (\<lambda>_. rbind (pixel_data_size f) (\<lambda>want.
          if fr_encoding f = Encoding_PLAIN then
            (if length (fr_raw f) \<noteq> want
             then Inl (ErrInvalidFrame (DecodedLength (length (fr_raw f)) want))
             else Inr (fr_raw f))
          else if fr_encoding f = Encoding_RUN_LENGTH then
            rbind (rle_block_size f) (\<lambda>blockSize. decode_rle (fr_raw f) want blockSize)
          else Inl ErrUnsupportedEncoding)) of
        Inl err \<Rightarrow> Inl (mk_frame_error operation f err)
      | Inr px \<Rightarrow> Inr px)"

definition Pixels :: "frame \<Rightarrow> frame_error + bytes" where
  "Pixels f = frame_pixels ''pixels'' f"

section \<open>RGBA\<close>

text \<open>A slice read; None is the out-of-range panic.\<close>

definition go_nth :: "'a list \<Rightarrow> nat \<Rightarrow> 'a option" where
  "go_nth xs i = (if i < length xs then Some (xs ! i) else None)"

definition rgb888_pixel :: "bytes \<Rightarrow> nat \<Rightarrow> bytes option" where
  "rgb888_pixel pixels pixel =
     (let source = pixel * 3
      in case (go_nth pixels (source + 2), go_nth pixels (source + 1), go_nth pixels source) of
           (Some r, Some g, Some b) \<Rightarrow> Some [r, g, b, 0xff]
         | _ \<Rightarrow> None)"

definition l8_pixel :: "byte \<Rightarrow> bytes" where
  "l8_pixel grayscale = [grayscale, grayscale, grayscale, 0xff]"

definition l4_grayscale :: "byte \<Rightarrow> nat \<Rightarrow> byte" where
  "l4_grayscale packed pixel =
     (let g = packed AND 0x0f; g' = (if pixel mod 2 = 1 then drop_bit 4 packed else g) in g' * 17)"

definition l4_pixel :: "bytes \<Rightarrow> nat \<Rightarrow> bytes option" where
  "l4_pixel pixels pixel =
     map_option (\<lambda>packed. l8_pixel (l4_grayscale packed pixel)) (go_nth pixels (pixel div 2))"

text \<open>
  The result of \<open>RGBA\<close>: the error of the package, an index panic, or the \<open>Pix\<close> bytes of the
  \<open>Width\<close> x \<open>Height\<close> image. Writing pixel \<open>i\<close> fills \<open>Pix[4*i .. 4*i+3]\<close>, in order.
\<close>

datatype rgba_fail = FrameFail frame_error | IndexPanic

definition write_pixels :: "nat \<Rightarrow> bytes option list \<Rightarrow> rgba_fail + bytes" where
  "write_pixels area pxs =
     (case those pxs of
        None \<Rightarrow> Inl IndexPanic
      | Some groups \<Rightarrow> if length groups > area then Inl IndexPanic
                        else Inr (concat groups @ replicate (4 * (area - length groups)) 0))"

definition RGBA :: "frame \<Rightarrow> rgba_fail + bytes" where
  "RGBA f =
     (case frame_pixels ''rgba'' f of
        Inl err \<Rightarrow> Inl (FrameFail err)
      | Inr pixels \<Rightarrow>
          let area = unat (fr_width f) * unat (fr_height f)
          in if fr_format f = PixelFormat_RGB888 then
               write_pixels area (map (rgb888_pixel pixels) [0..<area])
             else if fr_format f = PixelFormat_L8 then
               write_pixels area (map (\<lambda>g. Some (l8_pixel g)) pixels)
             else if fr_format f = PixelFormat_L4 then
               write_pixels area (map (l4_pixel pixels) [0..<area])
             else Inl (FrameFail (mk_frame_error ''rgba'' f ErrUnsupportedPixelFormat)))"

section \<open>The run-length grammar\<close>

text \<open>
  The reference description of an encoded payload: a sequence of tokens, each a literal run of
  1 to 127 blocks or one block repeated 1 to 127 times. \<open>token_bytes\<close> is its wire form,
  \<open>token_expand\<close> the pixel bytes it stands for.
\<close>

datatype rle_token = Literal nat bytes | Repeat nat bytes

fun token_ok :: "nat \<Rightarrow> rle_token \<Rightarrow> bool" where
  "token_ok bs (Literal n d) = (1 \<le> n \<and> n \<le> 127 \<and> length d = n * bs)"
| "token_ok bs (Repeat n b) = (1 \<le> n \<and> n \<le> 127 \<and> length b = bs)"

fun token_bytes :: "rle_token \<Rightarrow> bytes" where
  "token_bytes (Literal n d) = of_nat (128 + n) # d"
| "token_bytes (Repeat n b) = of_nat n # b"

fun token_expand :: "rle_token \<Rightarrow> bytes" where
  "token_expand (Literal n d) = d"
| "token_expand (Repeat n b) = concat (replicate n b)"

definition rle_wire :: "rle_token list \<Rightarrow> bytes" where
  "rle_wire ts = concat (map token_bytes ts)"

definition rle_plain :: "rle_token list \<Rightarrow> bytes" where
  "rle_plain ts = concat (map token_expand ts)"

lemma rle_wire_simps [simp]:
  "rle_wire [] = []" "rle_wire (t # ts) = token_bytes t @ rle_wire ts"
  by (simp_all add: rle_wire_def)

lemma rle_plain_simps [simp]:
  "rle_plain [] = []" "rle_plain (t # ts) = token_expand t @ rle_plain ts"
  by (simp_all add: rle_plain_def)

lemma opcode_count: "unat ((w :: byte) AND 0x7f) = unat w mod 128"
proof -
  have "(0x7f :: byte) = mask 7" by (simp add: mask_eq_exp_minus_1)
  then have "w AND 0x7f = take_bit 7 w" by (simp add: take_bit_eq_mask)
  then have "unat (w AND 0x7f) = take_bit 7 (unat w)" by (simp only: unsigned_take_bit_eq)
  then show ?thesis by (simp add: take_bit_eq_mod)
qed

lemma opcode_literal: "(w :: byte) AND 0x80 \<noteq> 0 \<longleftrightarrow> 128 \<le> unat w"
proof -
  have b: "w AND 0x80 \<noteq> 0 \<longleftrightarrow> bit w 7"
    using and_exp_eq_0_iff_not_bit [of w 7] by simp
  have "bit w 7 \<longleftrightarrow> bit (unat w) 7" by (simp add: bit_unsigned_iff)
  also have "\<dots> \<longleftrightarrow> odd (unat w div 128)" by (simp add: bit_iff_odd)
  also have "\<dots> \<longleftrightarrow> 128 \<le> unat w"
    using byte_bound [of w] by (cases "unat w < 128") (auto simp: div_if)
  finally show ?thesis using b by blast
qed

lemma opcode_of_nat:
  assumes "n \<le> 127"
  shows "unat (of_nat n AND (0x7f :: byte)) = n" "(of_nat n :: byte) AND 0x80 = 0"
    "unat (of_nat (128 + n) AND (0x7f :: byte)) = n" "(of_nat (128 + n) :: byte) AND 0x80 \<noteq> 0"
proof -
  have u: "unat (of_nat n :: byte) = n" "unat (of_nat (128 + n) :: byte) = 128 + n"
    using assms unat_of_nat_byte by (simp, intro unat_of_nat_byte) simp
  show "unat (of_nat n AND (0x7f :: byte)) = n" using assms u by (simp add: opcode_count)
  show "unat (of_nat (128 + n) AND (0x7f :: byte)) = n"
    using assms u by (simp only: opcode_count) simp
  show "(of_nat n :: byte) AND 0x80 = 0" using assms u opcode_literal [of "of_nat n"] by auto
  show "(of_nat (128 + n) :: byte) AND 0x80 \<noteq> 0" using u(2) opcode_literal by force
qed

text \<open>Decoding the wire form of a token sequence.\<close>

lemma rle_loop_token:
  assumes "token_ok bs t" and "length result + length (token_expand t) \<le> n"
  shows "rle_loop n bs (token_bytes t @ rest) result = rle_loop n bs rest (result @ token_expand t)"
proof (cases t)
  case (Literal k d)
  with assms have k: "1 \<le> k" "k \<le> 127" "length d = k * bs" by auto
  with Literal assms(2) have le: "int k * int bs \<le> int n - int (length result)"
    by (simp flip: of_nat_mult)
  with Literal k show ?thesis
    using opcode_of_nat(3,4) [OF k(2)] by (subst rle_loop.simps) (simp add: Let_def)
next
  case (Repeat k b)
  with assms have k: "1 \<le> k" "k \<le> 127" "length b = bs" by auto
  have "length (concat (replicate k b)) = k * bs"
    using k(3) by (simp add: length_concat sum_list_replicate)
  with Repeat assms(2) have le: "int k * int bs \<le> int n - int (length result)"
    by (simp flip: of_nat_mult)
  with Repeat k show ?thesis
    using opcode_of_nat(1,2) [OF k(2)] by (subst rle_loop.simps) (simp add: Let_def)
qed

lemma rle_loop_wire:
  assumes "list_all (token_ok bs) ts" and "length result + length (rle_plain ts) = n"
  shows "rle_loop n bs (rle_wire ts) result = Inr (result @ rle_plain ts)"
  using assms
proof (induction ts arbitrary: result)
  case Nil
  then show ?case by (subst rle_loop.simps) simp
next
  case (Cons t ts)
  then show ?case by (simp add: rle_loop_token)
qed

text \<open>A successful run has read a token sequence.\<close>

lemma rle_loop_inv:
  assumes "rle_loop n bs rest result = Inr out"
  shows "\<exists>ts. list_all (token_ok bs) ts \<and> rest = rle_wire ts \<and> out = result @ rle_plain ts \<and> length out = n"
  using assms
proof (induction n bs rest result rule: rle_loop.induct)
  case (1 n bs rest result)
  show ?case
  proof (cases rest)
    case Nil
    with "1.prems" show ?thesis
      by (intro exI [of _ "[]"]) (simp add: rle_loop.simps [of n bs] split: if_splits)
  next
    case (Cons opcode tail)
    define k where "k = unat (opcode AND 0x7f)"
    have k: "k \<le> 127" by (simp add: k_def opcode_count less_Suc_eq_le [symmetric])
    have op: "opcode = of_nat (if opcode AND 0x80 \<noteq> 0 then 128 + k else k)"
      using byte_bound [of opcode]
      by (subst word_unat_eq_iff) (auto simp: k_def opcode_count opcode_literal unsigned_of_nat take_bit_eq_mod le_mod_geq)
    note step = "1.prems" [unfolded Cons rle_loop.simps [of n bs "opcode # tail"] list.case Let_def,
        folded k_def]
    from step have k1: "k \<noteq> 0" and over: "\<not> int (k * bs) > int n - int (length result)"
      by (auto simp del: of_nat_mult split: if_splits)
    show ?thesis
    proof (cases "opcode AND 0x80 \<noteq> 0")
      case True
      with step k1 over have le: "k * bs \<le> length tail"
        and run: "rle_loop n bs (drop (k * bs) tail) (result @ take (k * bs) tail) = Inr out"
        by (auto simp del: of_nat_mult split: if_splits)
      from "1.IH"(1) [OF Cons k_def refl k1] over True le run k_def obtain ts where
        "list_all (token_ok bs) ts" "drop (k * bs) tail = rle_wire ts"
        "out = (result @ take (k * bs) tail) @ rle_plain ts" "length out = n" by auto
      moreover from this have "tail = take (k * bs) tail @ rle_wire ts"
        by (metis append_take_drop_id)
      ultimately show ?thesis using k k1 le op Cons True
        by (intro exI [of _ "Literal k (take (k * bs) tail) # ts"]) (auto simp: Suc_le_eq)
    next
      case False
      with step k1 over have le: "bs \<le> length tail"
        and run: "rle_loop n bs (drop bs tail) (result @ concat (replicate k (take bs tail))) = Inr out"
        by (auto simp del: of_nat_mult split: if_splits)
      from "1.IH"(2) [OF Cons k_def refl k1] over False le run k_def obtain ts where
        "list_all (token_ok bs) ts" "drop bs tail = rle_wire ts"
        "out = (result @ concat (replicate k (take bs tail))) @ rle_plain ts" "length out = n" by auto
      moreover from this have "tail = take bs tail @ rle_wire ts"
        by (metis append_take_drop_id)
      ultimately show ?thesis using k k1 le op Cons False
        by (intro exI [of _ "Repeat k (take bs tail) # ts"]) (auto simp: Suc_le_eq)
    qed
  qed
qed

lemma decode_rle_iff:
  "decode_rle source n bs = Inr out \<longleftrightarrow>
     (\<exists>ts. list_all (token_ok bs) ts \<and> source = rle_wire ts \<and> out = rle_plain ts \<and> length out = n)"
  unfolding decode_rle_def using rle_loop_inv [of n bs source "[]" out] rle_loop_wire [of bs _ "[]" n]
  by auto

lemma decode_rle_length: "decode_rle source n bs = Inr out \<Longrightarrow> length out = n"
  by (auto simp: decode_rle_iff)

section \<open>Sizes\<close>

text \<open>The sizes without machine arithmetic, and the metadata the firmware can send.\<close>

definition frame_area :: "frame \<Rightarrow> nat" where
  "frame_area f = unat (fr_width f) * unat (fr_height f)"

definition plain_size :: "int \<Rightarrow> nat \<Rightarrow> nat" where
  "plain_size format area =
     (if format = PixelFormat_RGB888 then area * 3
      else if format = PixelFormat_L8 then area else (area + 1) div 2)"

definition known_format :: "int \<Rightarrow> bool" where
  "known_format format \<longleftrightarrow> format \<in> {PixelFormat_RGB888, PixelFormat_L8, PixelFormat_L4}"

definition known_dims :: "frame \<Rightarrow> bool" where
  "known_dims f \<longleftrightarrow>
     fr_screen f = Screen_FRONT \<and> unat (fr_width f) = FrontWidth \<and> unat (fr_height f) = FrontHeight \<or>
     fr_screen f = Screen_BACK \<and> unat (fr_width f) = BackWidth \<and> unat (fr_height f) = BackHeight"

lemma validate_metadata_ok:
  "validate_metadata f = Inr u \<longleftrightarrow> length (fr_raw f) \<le> MaxPayloadSize \<and> known_dims f"
  by (auto simp: validate_metadata_def known_dims_def frame_consts word_unat_eq_iff split: if_splits)

lemma pixel_count_word:
  assumes "unat w * unat h \<le> 12800"
  shows "unat (ucast (w :: u32) * ucast (h :: u32) :: u64) = unat w * unat h"
proof -
  have u: "unat (ucast x :: u64) = unat x" for x :: u32
  proof -
    have "unat x < 2 ^ 32" using unsigned_less [of x, where ?'a = nat] by simp
    then show ?thesis by (simp add: unsigned_ucast_eq take_bit_eq_mod)
  qed
  show ?thesis using assms by (simp add: unat_word_ariths(2) u)
qed

text \<open>For dimensions that passed the metadata check the 64-bit computation never wraps.\<close>

lemma pixel_data_size_exact:
  assumes "known_dims f"
  shows "pixel_data_size f =
    (if \<not> known_format (fr_format f) then Inl ErrUnsupportedPixelFormat
     else if plain_size (fr_format f) (frame_area f) > MaxPayloadSize then Inl ErrPayloadTooLarge
     else Inr (plain_size (fr_format f) (frame_area f)))"
proof -
  define p where "p = (ucast (fr_width f) * ucast (fr_height f) :: u64)"
  have area: "frame_area f = 1152 \<or> frame_area f = 12800"
    using assms by (auto simp: known_dims_def frame_area_def frame_consts)
  have p: "unat p = frame_area f"
    unfolding p_def frame_area_def using area by (intro pixel_count_word) (auto simp: frame_area_def)
  have w: "p = of_nat (frame_area f)" using p by (metis word_of_unat)
  show ?thesis
    using area unfolding pixel_data_size_def Let_def p_def [symmetric] w
    by (auto simp: plain_size_def known_format_def frame_consts)
qed

lemma frame_pixels_ok:
  assumes "frame_pixels operation f = Inr px"
  shows "known_dims f \<and> known_format (fr_format f) \<and> length px = plain_size (fr_format f) (frame_area f)
    \<and> length px \<le> MaxPayloadSize \<and> fr_encoding f \<in> {Encoding_PLAIN, Encoding_RUN_LENGTH}"
proof -
  from assms obtain want where v: "validate_metadata f = Inr ()" and want: "pixel_data_size f = Inr want"
    and len: "length px = want" and enc: "fr_encoding f \<in> {Encoding_PLAIN, Encoding_RUN_LENGTH}"
    by (auto simp: frame_pixels_def rbind_eq_Inr dest: decode_rle_length split: sum.splits if_splits)
  from v have d: "known_dims f" by (simp add: validate_metadata_ok)
  from want have "known_format (fr_format f) \<and> want = plain_size (fr_format f) (frame_area f)
      \<and> want \<le> MaxPayloadSize"
    by (auto simp: pixel_data_size_exact [OF d] split: if_splits)
  with d len enc show ?thesis by blast
qed

lemma frame_pixels_operation:
  "frame_pixels o1 f = Inr px \<Longrightarrow> frame_pixels o2 f = Inr px"
  by (auto simp: frame_pixels_def split: sum.splits)

section \<open>Lemmas on the RGBA image\<close>

text \<open>What pixel \<open>i\<close> of the image must be, by plain arithmetic on the decoded bytes.\<close>

definition reference_pixel :: "int \<Rightarrow> bytes \<Rightarrow> nat \<Rightarrow> bytes" where
  "reference_pixel format px i =
     (if format = PixelFormat_RGB888 then [px ! (3 * i + 2), px ! (3 * i + 1), px ! (3 * i), 255]
      else if format = PixelFormat_L8 then [px ! i, px ! i, px ! i, 255]
      else let v = unat (px ! (i div 2)); g = of_nat (17 * (if even i then v mod 16 else v div 16))
           in [g, g, g, 255])"

lemma those_map_Some: "(\<And>x. x \<in> set xs \<Longrightarrow> f x = Some (g x)) \<Longrightarrow> those (map f xs) = Some (map g xs)"
  by (induction xs) auto

lemma l4_grayscale_value:
  "l4_grayscale v i = of_nat (17 * (if even i then unat v mod 16 else unat v div 16))"
proof -
  have "(0x0f :: byte) = mask 4" by (simp add: mask_eq_exp_minus_1)
  then have "v AND 0x0f = take_bit 4 v" by (simp add: take_bit_eq_mask)
  then have "unat (v AND 0x0f) = take_bit 4 (unat v)" by (simp only: unsigned_take_bit_eq)
  then have low: "unat (v AND 0x0f) = unat v mod 16" by (simp add: take_bit_eq_mod)
  have high: "unat (drop_bit 4 v) = unat v div 16"
    by (simp add: drop_bit_eq_div unat_div)
  have "unat v div 16 < 16" using byte_bound [of v] by simp
  then show ?thesis
    using low high
    by (auto simp: l4_grayscale_def Let_def word_unat_eq_iff unat_word_ariths(2) unat_of_nat_byte odd_iff_mod_2_eq_one)
qed

lemma rgb888_pixel_in_range:
  "length px = area * 3 \<Longrightarrow> i < area \<Longrightarrow>
   rgb888_pixel px i = Some (reference_pixel PixelFormat_RGB888 px i)"
  by (simp add: rgb888_pixel_def go_nth_def reference_pixel_def mult.commute Let_def)

lemma l4_pixel_in_range:
  "length px = (area + 1) div 2 \<Longrightarrow> i < area \<Longrightarrow>
   l4_pixel px i = Some (reference_pixel PixelFormat_L4 px i)"
  by (auto simp: l4_pixel_def go_nth_def reference_pixel_def l8_pixel_def Let_def l4_grayscale_value)

lemma length_reference_pixel [simp]: "length (reference_pixel format px i) = 4"
  by (simp add: reference_pixel_def Let_def)

lemma length_concat_map_reference [simp]:
  "length (concat (map (reference_pixel format px) is)) = 4 * length is"
  by (induction "is") simp_all

lemma group_of_concat:
  "i < n \<Longrightarrow> (\<And>j. length (g j) = (4 :: nat)) \<Longrightarrow> take 4 (drop (4 * i) (concat (map g [0..<n]))) = g i"
proof -
  assume i: "i < n" and g: "\<And>j. length (g j) = (4 :: nat)"
  have "[0..<n] = [0..<i] @ i # [Suc i..<n]"
    using i by (metis less_imp_le_nat upt_add_eq_append upt_conv_Cons zero_le le_add_diff_inverse)
  moreover have "length (concat (map g xs)) = 4 * length xs" for xs
    by (induction xs) (simp_all add: g)
  ultimately show ?thesis using g by simp
qed

lemma RGBA_image:
  assumes "frame_pixels ''rgba'' f = Inr px"
  shows "RGBA f = Inr (concat (map (reference_pixel (fr_format f) px) [0..<frame_area f]))"
proof -
  from frame_pixels_ok [OF assms] have fmt: "known_format (fr_format f)"
    and len: "length px = plain_size (fr_format f) (frame_area f)" by auto
  consider (rgb) "fr_format f = PixelFormat_RGB888" | (l8) "fr_format f = PixelFormat_L8"
    | (l4) "fr_format f = PixelFormat_L4" using fmt by (auto simp: known_format_def)
  then show ?thesis
  proof cases
    case rgb
    then have "those (map (rgb888_pixel px) [0..<frame_area f])
        = Some (map (reference_pixel PixelFormat_RGB888 px) [0..<frame_area f])"
      using len by (intro those_map_Some rgb888_pixel_in_range) (auto simp: plain_size_def)
    with rgb assms show ?thesis by (simp add: RGBA_def write_pixels_def frame_area_def)
  next
    case l8
    have "map l8_pixel px = map (reference_pixel PixelFormat_L8 px) [0..<frame_area f]"
      using l8 len by (intro nth_equalityI) (simp_all add: plain_size_def l8_pixel_def reference_pixel_def)
    moreover have "those (map (\<lambda>g. Some (l8_pixel g)) px) = Some (map l8_pixel px)"
      by (rule those_map_Some) simp
    ultimately show ?thesis using l8 assms by (simp add: RGBA_def write_pixels_def frame_area_def)
  next
    case l4
    then have "those (map (l4_pixel px) [0..<frame_area f])
        = Some (map (reference_pixel PixelFormat_L4 px) [0..<frame_area f])"
      using len by (intro those_map_Some l4_pixel_in_range) (auto simp: plain_size_def)
    with l4 assms show ?thesis by (simp add: RGBA_def write_pixels_def frame_area_def)
  qed
qed

lemma RGBA_error: "frame_pixels ''rgba'' f = Inl err \<Longrightarrow> RGBA f = Inl (FrameFail err)"
  by (simp add: RGBA_def)

section \<open>Properties\<close>

text \<open>C3: the run-length decoder accepts exactly the wire forms of token sequences (literal runs and
  repeats of 1 to 127 blocks) that expand to the expected number of bytes, and returns their
  expansion; every other input is an error.\<close>

theorem decode_rle_spec:
  "decode_rle source expectedSize blockSize = Inr out \<longleftrightarrow>
     (\<exists>ts. list_all (token_ok blockSize) ts \<and> source = rle_wire ts \<and> out = rle_plain ts
        \<and> length out = expectedSize)"
  by (rule decode_rle_iff)

text \<open>
  \<open>Pixels\<close> succeeds exactly on frames with the dimensions of a known screen, a known
  pixel format, a payload and a decoded size within the limit, and an encoding it supports; a
  plain frame yields its bytes and must have the exact size, a run-length frame yields the
  expansion of the token sequence it encodes, in blocks of 3 (front) or 2 (back) bytes.\<close>

theorem pixels_spec:
  "Pixels f = Inr px \<longleftrightarrow>
     length (fr_raw f) \<le> MaxPayloadSize \<and> known_dims f \<and> known_format (fr_format f)
     \<and> length px = plain_size (fr_format f) (frame_area f) \<and> length px \<le> MaxPayloadSize
     \<and> (fr_encoding f = Encoding_PLAIN \<and> px = fr_raw f \<or>
        fr_encoding f = Encoding_RUN_LENGTH \<and>
        (\<exists>ts. list_all (token_ok (if fr_screen f = Screen_FRONT then 3 else 2)) ts
            \<and> fr_raw f = rle_wire ts \<and> px = rle_plain ts))"
    (is "_ \<longleftrightarrow> ?R")
proof -
  have blk: "rle_block_size f = Inr (if fr_screen f = Screen_FRONT then 3 else 2)" if "known_dims f"
    using that by (auto simp: rle_block_size_def known_dims_def)
  show ?thesis
  proof
    assume L: "Pixels f = Inr px"
    then have raw: "length (fr_raw f) \<le> MaxPayloadSize"
      by (auto simp: Pixels_def frame_pixels_def rbind_eq_Inr validate_metadata_ok split: sum.splits)
    from L have ok: "frame_pixels ''pixels'' f = Inr px" by (simp add: Pixels_def)
    from frame_pixels_ok [OF ok] raw L show ?R
      by (auto simp: Pixels_def frame_pixels_def rbind_eq_Inr blk decode_rle_iff
            split: sum.splits if_splits)
  next
    assume R: ?R
    then have "validate_metadata f = Inr ()" by (simp add: validate_metadata_ok)
    moreover have "pixel_data_size f = Inr (length px)"
      using R by (simp add: pixel_data_size_exact)
    moreover have "decode_rle (fr_raw f) (length px) (if fr_screen f = Screen_FRONT then 3 else 2) = Inr px"
      if "fr_encoding f = Encoding_RUN_LENGTH"
      unfolding decode_rle_iff using R that by auto
    ultimately show "Pixels f = Inr px"
      using R by (cases "fr_encoding f = Encoding_PLAIN") (auto simp: Pixels_def frame_pixels_def blk)
  qed
qed

text \<open>C5: \<open>RGBA\<close> fails only with the error of the pixel decoder and never by an index out of
  range; otherwise the image has one group of four bytes for each pixel, in order, and the group
  is the specified one: BGR triples swapped to RGB, gray replicated, nibbles (low nibble first)
  scaled by 17, alpha 255.\<close>

theorem rgba_spec:
  "RGBA f =
     (case frame_pixels ''rgba'' f of
        Inl err \<Rightarrow> Inl (FrameFail err)
      | Inr px \<Rightarrow> Inr (concat (map (reference_pixel (fr_format f) px) [0..<frame_area f])))"
  by (cases "frame_pixels ''rgba'' f") (simp_all add: RGBA_error RGBA_image)

text \<open>\<open>FromHTTP\<close> accepts exactly the front and back payloads of the right length, and
  \<open>Pixels\<close> of the frame it builds gives the payload back.\<close>

theorem from_http_spec:
  "(\<exists>f. from_http target raw = Inr f \<and> Pixels f = Inr raw) \<longleftrightarrow>
     target = ''front'' \<and> length raw = FrontWidth * FrontHeight * 3 \<or>
     target = ''back'' \<and> length raw = BackWidth * BackHeight div 2"
  by (auto simp: from_http_def Pixels_def frame_pixels_def pixel_data_size_def validate_metadata_def
        frame_consts Let_def split: if_splits)

end
