(* ===== verification/Animation.thy ===== *)
theory Animation
  imports Prelude
begin

text \<open>
  Package \<open>convert/animation\<close>, the encoder (\<open>animation.go\<close>, \<open>errors.go\<close>): options, the two
  passes over the frames (layout analysis, then writing into the allocated buffer) and the
  header. The frames come from a loader that both passes call; the model takes one loader for
  each pass, so that sources which change between the passes are covered. A slice access out of
  range is the value \<open>AnimPanic\<close>.

  The reference description is \<open>pack\<close>: run-length encoding of the sequence of displayed images
  with runs capped at 255. The lemmas show that both passes follow it.
\<close>

section \<open>Errors and configuration\<close>

datatype anim_cause =
    AInvalidConfig string
  | ANoFrames
  | AInvalidFrame string
  | AInvalidMetadata string
  | AUnsupportedColorMode string
  | AUnsupportedSections
  | AInputTooLarge
  | AOutputTooLarge string
  | AOther string

record anim_error =
  ae_operation :: string
  ae_index :: int
  ae_entry :: string
  ae_err :: anim_cause

datatype anim_fail = Conversion anim_error | AnimPanic

definition conv_err :: "string \<Rightarrow> int \<Rightarrow> string \<Rightarrow> anim_cause \<Rightarrow> anim_fail" where
  "conv_err operation index entry err =
     Conversion \<lparr>ae_operation = operation, ae_index = index, ae_entry = entry, ae_err = err\<rparr>"

lemma conv_err_not_panic [simp]: "conv_err a b c d \<noteq> AnimPanic" "AnimPanic \<noteq> conv_err a b c d"
  by (simp_all add: conv_err_def)

record anim_config =
  max_input_bytes :: int
  max_output_bytes :: int

datatype anim_option = WithMaxInputBytes int64 | WithMaxOutputBytes int64

fun apply_anim_option :: "anim_option \<Rightarrow> anim_config \<Rightarrow> anim_cause + anim_config" where
  "apply_anim_option (WithMaxInputBytes m) c =
     (if sint m \<le> 0 then Inl (AInvalidConfig ''maximum input size must be greater than zero'')
      else Inr (c\<lparr>max_input_bytes := sint m\<rparr>))"
| "apply_anim_option (WithMaxOutputBytes m) c =
     (if sint m \<le> 0 then Inl (AInvalidConfig ''maximum output size must be greater than zero'')
      else Inr (c\<lparr>max_output_bytes := sint m\<rparr>))"

definition default_anim_config :: anim_config where
  "default_anim_config = \<lparr>max_input_bytes = 32 * 2 ^ 20, max_output_bytes = 64 * 2 ^ 20\<rparr>"

definition new_anim_config :: "anim_option option list \<Rightarrow> anim_fail + anim_config" where
  "new_anim_config options =
     (case resolve_options apply_anim_option options default_anim_config of
        Inl err \<Rightarrow> Inl (conv_err ''configure'' (-1) [] err)
      | Inr c \<Rightarrow> Inr c)"

definition valid_anim_config :: "anim_config \<Rightarrow> bool" where
  "valid_anim_config c \<longleftrightarrow> 0 < max_input_bytes c \<and> max_input_bytes c \<le> max_int64
     \<and> 0 < max_output_bytes c \<and> max_output_bytes c \<le> max_int64"

interpretation anim_options: configurable apply_anim_option valid_anim_config
proof
  fix c op c'
  assume "valid_anim_config c" "apply_anim_option op c = Inr c'"
  then show "valid_anim_config c'"
    by (cases op) (auto simp: valid_anim_config_def sint_int64_bound split: if_splits)
qed

section \<open>Layout\<close>

abbreviation max_byte_value :: nat where "max_byte_value \<equiv> 255"

definition headerLength :: nat where "headerLength = 36"

definition sectionName :: bytes where
  "sectionName = map of_char ''default''"

definition signature :: bytes where
  "signature = map of_char ''bicycle0''"

record layout =
  sections_length :: nat
  frames_length :: nat
  output_length :: nat

definition calculate_layout :: "u64 \<Rightarrow> u64 \<Rightarrow> u64 \<Rightarrow> int \<Rightarrow> anim_cause + layout" where
  "calculate_layout frameLength frameCount displayFrameCount maximum =
     (let sectionsLength = of_nat (13 + length sectionName + 1) :: u64;
          maxInt = 2 ^ 63 - 1 :: u64;
          recordLength = 4 + frameLength;
          framesLength = recordLength * frameCount;
          outputLength = of_nat headerLength + sectionsLength + framesLength
      in if frameCount > 2 ^ 32 - 1 then Inl (AOutputTooLarge ''encoded frame count exceeds uint32'')
         else if displayFrameCount > 2 ^ 32 - 1 \<or> displayFrameCount > maxInt
           then Inl (AOutputTooLarge ''display frame count cannot be represented'')
         else if frameCount \<noteq> 0 \<and> recordLength > (2 ^ 64 - 1) div frameCount
           then Inl (AOutputTooLarge ''frame chunk length overflow'')
         else if framesLength > 2 ^ 32 - 1
           then Inl (AOutputTooLarge ''frame chunk length exceeds uint32'')
         else if outputLength > maxInt \<or> outputLength > of_int maximum
           then Inl (AOutputTooLarge ''output exceeds the limit'')
         else Inr \<lparr>sections_length = unat sectionsLength, frames_length = unat framesLength,
                   output_length = unat outputLength\<rparr>)"

definition effective_duration :: "byte \<Rightarrow> byte" where
  "effective_duration d = (if d = 0 then 1 else d)"

section \<open>First pass\<close>

text \<open>
  A loader fills the pixel buffer and returns the duration and the archive entry of a frame.
  The two loop variables \<open>havePrevious\<close> and \<open>previous\<close> are one option.
\<close>

type_synonym frame_loader = "nat \<Rightarrow> anim_fail + (bytes \<times> byte \<times> string)"

record analysis =
  an_previous :: "bytes option"
  an_last :: nat
  an_encoded :: u64
  an_display :: u64

function analyze_emit :: "nat \<Rightarrow> nat \<Rightarrow> u64 \<Rightarrow> nat \<times> u64" where
  "analyze_emit remaining lastDuration encoded =
     (if remaining > 0
      then let d = min remaining max_byte_value in analyze_emit (remaining - d) d (encoded + 1)
      else (lastDuration, encoded))"
  by pat_completeness auto
termination
  by (relation "measure (\<lambda>(r, l, e). r)") (auto simp: min_def)

declare analyze_emit.simps [simp del]

definition analyze_frame :: "bytes \<Rightarrow> byte \<Rightarrow> analysis \<Rightarrow> analysis" where
  "analyze_frame pixels duration st =
     (let remaining = unat (effective_duration duration);
          display = an_display st + of_nat remaining;
          same = (an_previous st = Some pixels);
          added = (if same then min remaining (max_byte_value - an_last st) else 0);
          (lastD, encoded) = analyze_emit (remaining - added) (an_last st + added) (an_encoded st)
      in \<lparr>an_previous = Some pixels, an_last = lastD, an_encoded = encoded, an_display = display\<rparr>)"

fun analyze_loop ::
  "nat \<Rightarrow> int \<Rightarrow> frame_loader \<Rightarrow> nat list \<Rightarrow> analysis \<Rightarrow> layout \<Rightarrow> anim_fail + (layout \<times> analysis)" where
  "analyze_loop frameLength maximum load [] st lay = Inr (lay, st)"
| "analyze_loop frameLength maximum load (index # rest) st lay =
     rbind (load index) (\<lambda>(pixels, duration, entry).
       let st' = analyze_frame pixels duration st
       in case calculate_layout (of_nat frameLength) (an_encoded st') (an_display st') maximum of
            Inl err \<Rightarrow> Inl (conv_err ''encode'' (int index) entry err)
          | Inr lay' \<Rightarrow> analyze_loop frameLength maximum load rest st' lay')"

definition analyze_frames ::
  "nat \<Rightarrow> nat \<Rightarrow> int \<Rightarrow> frame_loader \<Rightarrow> anim_fail + (layout \<times> u64 \<times> u64)" where
  "analyze_frames frameCount frameLength maximum load =
     rbind
       (analyze_loop frameLength maximum load [0..<frameCount]
          \<lparr>an_previous = None, an_last = 0, an_encoded = 0, an_display = 0\<rparr>
          \<lparr>sections_length = 0, frames_length = 0, output_length = 0\<rparr>)
       (\<lambda>(lay, st). Inr (lay, an_encoded st, an_display st))"

section \<open>Second pass\<close>

text \<open>A write into \<open>output[at : at + len(src)]\<close>; out of range it panics.\<close>

definition buf_write :: "bytes \<Rightarrow> nat \<Rightarrow> bytes \<Rightarrow> anim_fail + bytes" where
  "buf_write out at src =
     (if at + length src \<le> length out then Inr (overwrite out at src) else Inl AnimPanic)"

definition buf_get :: "bytes \<Rightarrow> nat \<Rightarrow> anim_fail + byte" where
  "buf_get out at = (if at < length out then Inr (out ! at) else Inl AnimPanic)"

record writer =
  wr_out :: bytes
  wr_cursor :: nat
  wr_previous :: "bytes option"
  wr_last :: "nat option" \<comment> \<open>\<open>lastFrameOffset\<close>, None for -1\<close>

function write_emit ::
  "nat \<Rightarrow> bytes \<Rightarrow> nat \<Rightarrow> string \<Rightarrow> nat \<Rightarrow> writer \<Rightarrow> anim_fail + writer" where
  "write_emit frameLength pixels index entry remaining w =
     (if remaining > 0 then
        (if wr_cursor w + 4 + frameLength > length (wr_out w)
         then Inl (conv_err ''encode'' (int index) entry
                     (AInvalidFrame ''frames changed during encoding''))
         else let d = min remaining max_byte_value
              in rbind (buf_write (wr_out w) (wr_cursor w) [0, of_nat d]) (\<lambda>o1.
                 rbind (buf_write o1 (wr_cursor w + 2) (put_u16 (of_nat frameLength))) (\<lambda>o2.
                 rbind (buf_write o2 (wr_cursor w + 4) (take frameLength pixels)) (\<lambda>o3.
                   write_emit frameLength pixels index entry (remaining - d)
                     (w\<lparr>wr_out := o3, wr_cursor := wr_cursor w + 4 + frameLength,
                        wr_last := Some (wr_cursor w)\<rparr>)))))
      else Inr w)"
  by pat_completeness auto
termination
  by (relation "measure (\<lambda>(f, p, i, e, r, w). r)") (auto simp: min_def)

declare write_emit.simps [simp del]

text \<open>Topping up the duration byte of the last record.\<close>

definition extend_last :: "nat \<Rightarrow> writer \<Rightarrow> anim_fail + (nat \<times> writer)" where
  "extend_last remaining w =
     (case wr_last w of
        None \<Rightarrow> Inl AnimPanic
      | Some off \<Rightarrow>
          rbind (buf_get (wr_out w) (off + 1)) (\<lambda>b.
            let added = min remaining (max_byte_value - unat b)
            in rbind (buf_write (wr_out w) (off + 1) [b + of_nat added]) (\<lambda>out.
                 Inr (remaining - added, w\<lparr>wr_out := out\<rparr>))))"

definition write_frame ::
  "nat \<Rightarrow> bytes \<Rightarrow> byte \<Rightarrow> nat \<Rightarrow> string \<Rightarrow> writer \<Rightarrow> anim_fail + writer" where
  "write_frame frameLength pixels duration index entry w =
     rbind
       (if wr_previous w = Some pixels then extend_last (unat (effective_duration duration)) w
        else Inr (unat (effective_duration duration), w))
       (\<lambda>(remaining, w1).
          rbind (write_emit frameLength pixels index entry remaining w1) (\<lambda>w2.
            Inr (w2\<lparr>wr_previous := Some pixels\<rparr>)))"

fun write_loop :: "nat \<Rightarrow> frame_loader \<Rightarrow> nat list \<Rightarrow> writer \<Rightarrow> anim_fail + writer" where
  "write_loop frameLength load [] w = Inr w"
| "write_loop frameLength load (index # rest) w =
     rbind (load index) (\<lambda>(pixels, duration, entry).
       rbind (write_frame frameLength pixels duration index entry w)
         (write_loop frameLength load rest))"

definition write_frames :: "bytes \<Rightarrow> nat \<Rightarrow> nat \<Rightarrow> nat \<Rightarrow> frame_loader \<Rightarrow> anim_fail + bytes" where
  "write_frames out cursor frameCount frameLength load =
     rbind
       (write_loop frameLength load [0..<frameCount]
          \<lparr>wr_out = out, wr_cursor = cursor, wr_previous = None, wr_last = None\<rparr>)
       (\<lambda>w. if wr_cursor w \<noteq> length (wr_out w)
            then Inl (conv_err ''encode'' (-1) [] (AInvalidFrame ''frames changed during encoding''))
            else Inr (wr_out w))"

section \<open>Encoding\<close>

record rgb_config =
  cfg_width :: int
  cfg_height :: int
  cfg_fps :: int

record anim_result =
  res_data :: bytes
  res_width :: int
  res_height :: int
  res_fps :: int
  res_encoded :: nat
  res_display :: nat

definition DefaultFPS :: int where "DefaultFPS = 30"
definition maxFrameBytes :: int where "maxFrameBytes = 65535"

fun apply_writes :: "(nat \<times> bytes) list \<Rightarrow> bytes \<Rightarrow> anim_fail + bytes" where
  "apply_writes [] out = Inr out"
| "apply_writes ((at, src) # ws) out = rbind (buf_write out at src) (apply_writes ws)"

text \<open>The writes of the header and of the section record, in the order of the code.\<close>

definition header_writes :: "rgb_config \<Rightarrow> nat \<Rightarrow> layout \<Rightarrow> u64 \<Rightarrow> u64 \<Rightarrow> (nat \<times> bytes) list" where
  "header_writes fmt frameLength lay encodedFrameCount displayFrameCount =
     [(0, signature),
      (9, [of_int (cfg_width fmt)]),
      (10, [of_int (cfg_height fmt)]),
      (11, [0]),
      (12, [of_int (cfg_fps fmt)]),
      (13, put_u16 (of_nat frameLength)),
      (16, put_u32 (of_nat (sections_length lay))),
      (20, put_u32 (of_nat (frames_length lay))),
      (24, put_u32 1),
      (28, put_u32 (ucast encodedFrameCount)),
      (32, put_u32 (ucast displayFrameCount)),
      (headerLength, put_u32 0),
      (headerLength + 4, put_u32 (ucast (displayFrameCount - 1))),
      (headerLength + 8, put_u32 (of_nat (headerLength + sections_length lay))),
      (headerLength + 13, sectionName)]"

definition encode_frames ::
  "nat \<Rightarrow> rgb_config \<Rightarrow> anim_config \<Rightarrow> frame_loader \<Rightarrow> frame_loader \<Rightarrow> anim_fail + anim_result" where
  "encode_frames frameCount format0 conf load1 load2 =
     (let format = (if cfg_fps format0 = 0 then format0\<lparr>cfg_fps := DefaultFPS\<rparr> else format0);
          frameLength = cfg_width format * cfg_height format * 3
      in if cfg_width format \<le> 0 \<or> cfg_width format > 255 \<or> cfg_height format \<le> 0 \<or> cfg_height format > 255
         then Inl (conv_err ''configure'' (-1) [] (AInvalidConfig ''dimensions must be between 1 and 255''))
         else if cfg_fps format \<le> 0 \<or> cfg_fps format > 255
         then Inl (conv_err ''configure'' (-1) [] (AInvalidConfig ''fps must be between 1 and 255''))
         else if frameCount = 0 then Inl (conv_err ''validate'' (-1) [] ANoFrames)
         else if frameLength > maxFrameBytes
         then Inl (conv_err ''configure'' (-1) [] (AInvalidConfig ''frame length exceeds 65535''))
         else
           rbind (analyze_frames frameCount (nat frameLength) (max_output_bytes conf) load1)
             (\<lambda>(lay, encodedFrameCount, displayFrameCount).
               let firstFrameOffset = headerLength + sections_length lay
               in rbind (apply_writes (header_writes format (nat frameLength) lay encodedFrameCount displayFrameCount)
                           (replicate (output_length lay) 0)) (\<lambda>o1.
                  rbind (write_frames o1 (headerLength + 13 + length sectionName + 1) frameCount
                           (nat frameLength) load2) (\<lambda>o2.
                  rbind (buf_get o2 (firstFrameOffset + 1)) (\<lambda>b.
                  rbind (buf_write o2 (headerLength + 12) [b]) (\<lambda>o3.
                    Inr \<lparr>res_data = o3, res_width = cfg_width format, res_height = cfg_height format,
                         res_fps = cfg_fps format, res_encoded = unat encodedFrameCount,
                         res_display = unat displayFrameCount\<rparr>))))))"

text \<open>\<open>EncodeRGB888\<close>: the loader checks the length of each frame and copies it.\<close>

record rgb_frame =
  pixels_bgr :: bytes
  duration :: byte

definition rgb_loader :: "rgb_frame list \<Rightarrow> nat \<Rightarrow> frame_loader" where
  "rgb_loader frames frameLength index =
     (if index < length frames then
        (let f = frames ! index
         in if length (pixels_bgr f) \<noteq> frameLength
            then Inl (conv_err ''validate'' (int index) [] (AInvalidFrame ''wrong frame size''))
            else Inr (pixels_bgr f, duration f, []))
      else Inl AnimPanic)"

definition encode_rgb888 ::
  "rgb_frame list \<Rightarrow> rgb_config \<Rightarrow> anim_option option list \<Rightarrow> anim_fail + anim_result" where
  "encode_rgb888 frames format options =
     rbind (new_anim_config options) (\<lambda>conf.
       let load = rgb_loader frames (nat (cfg_width format * cfg_height format * 3))
       in encode_frames (length frames) format conf load load)"

section \<open>The reference: capped run-length packing\<close>

definition add_shown :: "(nat \<times> bytes) list \<Rightarrow> bytes \<Rightarrow> (nat \<times> bytes) list" where
  "add_shown rs px =
     (if rs \<noteq> [] \<and> snd (last rs) = px \<and> fst (last rs) < max_byte_value
      then butlast rs @ [(fst (last rs) + 1, px)] else rs @ [(1, px)])"

definition pack :: "bytes list \<Rightarrow> (nat \<times> bytes) list" where
  "pack xs = foldl add_shown [] xs"

definition unpack :: "(nat \<times> bytes) list \<Rightarrow> bytes list" where
  "unpack rs = concat (map (\<lambda>(d, px). replicate d px) rs)"

definition total_shown :: "(nat \<times> bytes) list \<Rightarrow> nat" where
  "total_shown rs = sum_list (map fst rs)"

definition runs_ok :: "nat \<Rightarrow> (nat \<times> bytes) list \<Rightarrow> bool" where
  "runs_ok fl rs \<longleftrightarrow> (\<forall>(d, px) \<in> set rs. 1 \<le> d \<and> d \<le> max_byte_value \<and> length px = fl)"

definition add_frame :: "(nat \<times> bytes) list \<Rightarrow> nat \<Rightarrow> bytes \<Rightarrow> (nat \<times> bytes) list" where
  "add_frame rs d px = foldl add_shown rs (replicate d px)"

lemma unpack_append [simp]: "unpack (rs @ ss) = unpack rs @ unpack ss"
  by (simp add: unpack_def)

lemma unpack_single [simp]: "unpack [(d, px)] = replicate d px"
  by (simp add: unpack_def)

lemma unpack_add_shown: "unpack (add_shown rs px) = unpack rs @ [px]"
proof (cases "rs \<noteq> [] \<and> snd (last rs) = px \<and> fst (last rs) < max_byte_value")
  case True
  then obtain ss d where rs: "rs = ss @ [(d, px)]"
    by (metis append_butlast_last_id prod.collapse)
  with True show ?thesis by (simp add: add_shown_def replicate_append_same)
next
  case False
  then have "add_shown rs px = rs @ [(1, px)]" unfolding add_shown_def by (rule if_not_P)
  then show ?thesis by simp
qed

lemma unpack_foldl: "unpack (foldl add_shown rs xs) = unpack rs @ xs"
  by (induction xs arbitrary: rs) (simp_all add: unpack_add_shown)

lemma unpack_pack: "unpack (pack xs) = xs"
  by (simp add: pack_def unpack_foldl) (simp add: unpack_def)

lemma total_shown_unpack: "total_shown rs = length (unpack rs)"
  by (induction rs) (auto simp: total_shown_def unpack_def)

lemma runs_ok_append [simp]: "runs_ok fl (rs @ ss) \<longleftrightarrow> runs_ok fl rs \<and> runs_ok fl ss"
  by (auto simp: runs_ok_def)

lemma runs_ok_Nil [simp]: "runs_ok fl []"
  by (simp add: runs_ok_def)

lemma runs_ok_single [simp]: "runs_ok fl [(d, px)] \<longleftrightarrow> 1 \<le> d \<and> d \<le> max_byte_value \<and> length px = fl"
  by (simp add: runs_ok_def)

lemma last_runs: "rs \<noteq> [] \<Longrightarrow> \<exists>ss l p. rs = ss @ [(l, p)]"
  by (metis append_butlast_last_id prod.collapse)

text \<open>Adding a whole frame, in the three cases of the code.\<close>

lemma shown_extend:
  "l + k \<le> max_byte_value \<Longrightarrow> foldl add_shown (ss @ [(l, px)]) (replicate k px) = ss @ [(l + k, px)]"
  by (induction k arbitrary: l) (auto simp: add_shown_def)

lemma shown_new:
  assumes "1 \<le> k" and "k \<le> max_byte_value"
    and "rs = [] \<or> snd (last rs) \<noteq> px \<or> fst (last rs) = max_byte_value"
  shows "foldl add_shown rs (replicate k px) = rs @ [(k, px)]"
proof -
  obtain j where k: "k = Suc j" using assms(1) by (cases k) auto
  have "add_shown rs px = rs @ [(1, px)]" using assms(3) by (auto simp: add_shown_def)
  then show ?thesis using assms(2) k shown_extend [of 1 j rs px] by simp
qed

lemma add_frame_new:
  "1 \<le> d \<Longrightarrow> d \<le> max_byte_value \<Longrightarrow> rs = [] \<or> snd (last rs) \<noteq> px \<Longrightarrow> add_frame rs d px = rs @ [(d, px)]"
  unfolding add_frame_def using shown_new by blast

lemma add_frame_same:
  assumes "1 \<le> d" and "d \<le> max_byte_value" and "l \<le> max_byte_value"
  shows "add_frame (ss @ [(l, px)]) d px =
    (let added = min d (max_byte_value - l)
     in (ss @ [(l + added, px)]) @ (if d - added = 0 then [] else [(d - added, px)]))"
proof -
  define added where "added = min d (max_byte_value - l)"
  have split: "replicate d px = replicate added px @ replicate (d - added) px"
    by (simp add: added_def flip: replicate_add)
  have first: "foldl add_shown (ss @ [(l, px)]) (replicate added px) = ss @ [(l + added, px)]"
    using assms by (intro shown_extend) (auto simp: added_def)
  show ?thesis
  proof (cases "d - added = 0")
    case True
    then show ?thesis using first split
      unfolding add_frame_def Let_def added_def [symmetric] by simp
  next
    case False
    then have "l + added = max_byte_value" using assms by (auto simp: added_def)
    then have "foldl add_shown (ss @ [(l + added, px)]) (replicate (d - added) px)
        = (ss @ [(l + added, px)]) @ [(d - added, px)]"
      using False assms by (intro shown_new) auto
    then show ?thesis using first split False
      unfolding add_frame_def Let_def added_def [symmetric] by simp
  qed
qed

lemma runs_ok_add_frame:
  assumes "runs_ok fl rs" and "length px = fl"
  shows "runs_ok fl (add_frame rs d px)"
proof -
  have step: "runs_ok fl (add_shown ss px)" if "runs_ok fl ss" for ss
    using that assms(2) last_runs [of ss] by (cases "ss = []") (auto simp: add_shown_def)
  have "runs_ok fl (foldl add_shown ss (replicate d px))" if "runs_ok fl ss" for ss
    using that by (induction d arbitrary: ss) (auto intro: step)
  with assms(1) show ?thesis by (simp add: add_frame_def)
qed

section \<open>The layout without machine arithmetic\<close>

definition prologue :: nat where "prologue = headerLength + 21"

definition exact_layout :: "nat \<Rightarrow> nat \<Rightarrow> layout" where
  "exact_layout fl k =
     \<lparr>sections_length = 21, frames_length = (4 + fl) * k, output_length = prologue + (4 + fl) * k\<rparr>"

definition fits :: "nat \<Rightarrow> int \<Rightarrow> nat \<Rightarrow> nat \<Rightarrow> bool" where
  "fits fl m k s \<longleftrightarrow> k < 2 ^ 32 \<and> s < 2 ^ 32 \<and> (4 + fl) * k < 2 ^ 32 \<and> int (prologue + (4 + fl) * k) \<le> m"

lemma length_sectionName [simp]: "length sectionName = 7"
  by (simp add: sectionName_def)

lemma length_signature [simp]: "length signature = 8"
  by (simp add: signature_def)

lemma unat_of_nat_u64: "n < 2 ^ 64 \<Longrightarrow> unat (of_nat n :: u64) = n"
  by (simp add: unsigned_of_nat take_bit_eq_mod)

lemma word_le_of_nat_u64: "a < 2 ^ 64 \<Longrightarrow> b < 2 ^ 64 \<Longrightarrow> (of_nat a :: u64) < of_nat b \<longleftrightarrow> a < b"
  by (simp add: word_less_nat_alt unat_of_nat_u64)

lemma calculate_layout_exact:
  assumes fl: "fl \<le> 65535" and k: "k < 2 ^ 33" and s: "s < 2 ^ 33" and m: "0 < m" "m \<le> max_int64"
  shows "calculate_layout (of_nat fl) (of_nat k) (of_nat s) m = Inr lay \<longleftrightarrow>
    fits fl m k s \<and> lay = exact_layout fl k"
proof -
  have cmp: "of_nat a > (2 ^ 32 - 1 :: u64) \<longleftrightarrow> \<not> a < 2 ^ 32" if "a < 2 ^ 64" for a
    using word_le_of_nat_u64 [of "2 ^ 32 - 1" a] that by auto
  have maxi: "of_nat a > (2 ^ 63 - 1 :: u64) \<longleftrightarrow> \<not> a < 2 ^ 63" if "a < 2 ^ 64" for a
    using word_le_of_nat_u64 [of "2 ^ 63 - 1" a] that by auto
  define r where "r = 4 + fl"
  have r: "r \<le> 65539" "(4 + of_nat fl :: u64) = of_nat r" using fl by (simp_all add: r_def)
  have rk: "r * k < 2 ^ 50"
  proof -
    have "r * k \<le> 65539 * 2 ^ 33" using r k by (intro mult_le_mono) auto
    then show ?thesis by simp
  qed
  have prod: "(of_nat r * of_nat k :: u64) = of_nat (r * k)" by simp
  have nowrap: "\<not> (of_nat k \<noteq> (0 :: u64) \<and> of_nat r > (2 ^ 64 - 1 :: u64) div of_nat k)"
  proof (cases "k = 0")
    case False
    have "unat (2 ^ 64 - 1 :: u64) = 2 ^ 64 - 1" by simp
    then have "unat ((2 ^ 64 - 1 :: u64) div of_nat k) = (2 ^ 64 - 1) div k"
      using k by (simp add: unat_div unat_of_nat_u64)
    moreover have "r \<le> (2 ^ 64 - 1) div k"
      using rk False by (simp add: less_eq_div_iff_mult_less_eq)
    ultimately show ?thesis
      using r(1) by (simp add: word_less_nat_alt unat_of_nat_u64)
  qed simp
  have out: "(of_nat headerLength + of_nat (13 + length sectionName + 1) + of_nat (r * k) :: u64)
      = of_nat (prologue + r * k)"
    by (simp add: prologue_def headerLength_def)
  have lim: "of_nat a > (of_int m :: u64) \<longleftrightarrow> \<not> int a \<le> m" if "a < 2 ^ 64" for a
  proof -
    have "(of_int m :: u64) = of_nat (nat m)" using m by simp
    then show ?thesis using word_le_of_nat_u64 [of "nat m" a] that m by auto
  qed
  have u21: "unat (of_nat (13 + length sectionName + 1) :: u64) = 21" by simp
  have lay0: "\<lparr>sections_length = unat (of_nat (13 + length sectionName + 1) :: u64),
      frames_length = unat (of_nat (r * k) :: u64),
      output_length = unat (of_nat (prologue + r * k) :: u64)\<rparr> = exact_layout fl k"
    using rk u21 by (simp only: exact_layout_def r_def [symmetric])
      (simp add: unat_of_nat_u64 prologue_def headerLength_def del: of_nat_mult of_nat_add)
  show ?thesis
    unfolding calculate_layout_def Let_def r(2) prod out lay0
    using nowrap rk k s m cmp [of k] cmp [of s] maxi [of s] cmp [of "r * k"] maxi [of "prologue + r * k"]
      lim [of "prologue + r * k"]
    by (auto simp: fits_def r_def [symmetric] prologue_def headerLength_def simp del: of_nat_mult of_nat_add)
qed

section \<open>The first pass follows the reference\<close>

definition last_shown :: "(nat \<times> bytes) list \<Rightarrow> bytes option" where
  "last_shown rs = (if rs = [] then None else Some (snd (last rs)))"

definition analysis_of :: "(nat \<times> bytes) list \<Rightarrow> analysis \<Rightarrow> bool" where
  "analysis_of rs st \<longleftrightarrow>
     an_previous st = last_shown rs \<and> (rs \<noteq> [] \<longrightarrow> an_last st = fst (last rs))
     \<and> an_encoded st = of_nat (length rs) \<and> an_display st = of_nat (total_shown rs)"

lemma total_shown_append [simp]: "total_shown (rs @ ss) = total_shown rs + total_shown ss"
  by (simp add: total_shown_def)

lemma total_shown_single [simp]: "total_shown [(d, px)] = d"
  by (simp add: total_shown_def)

lemma total_add_frame: "total_shown (add_frame rs d px) = total_shown rs + d"
  by (simp add: total_shown_unpack add_frame_def unpack_foldl)

lemma analyze_emit_small:
  "r \<le> max_byte_value \<Longrightarrow> analyze_emit r l e = (if r = 0 then (l, e) else (r, e + 1))"
  by (subst analyze_emit.simps, simp add: Let_def min_def) (subst analyze_emit.simps, simp)

lemma effective_bounds: "1 \<le> unat (effective_duration d)" "unat (effective_duration d) \<le> max_byte_value"
  using byte_bound [of d] byte_bound [of "effective_duration d"]
  by (auto simp: effective_duration_def Suc_le_eq unat_gt_0)

lemma runs_ok_last: "runs_ok fl (ss @ [(l, p)]) \<Longrightarrow> l \<le> max_byte_value"
  by simp

lemma analyze_frame_step:
  assumes inv: "analysis_of rs st" and ok: "runs_ok fl rs"
  shows "analysis_of (add_frame rs (unat (effective_duration d)) px) (analyze_frame px d st)"
proof -
  define e where "e = unat (effective_duration d)"
  have e: "1 \<le> e" "e \<le> max_byte_value" using effective_bounds [of d] by (simp_all add: e_def)
  have tot: "total_shown (add_frame rs e px) = total_shown rs + e" by (rule total_add_frame)
  show ?thesis
  proof (cases "rs \<noteq> [] \<and> snd (last rs) = px")
    case True
    then obtain ss l where rs: "rs = ss @ [(l, px)]" using last_runs [of rs] by auto
    with ok have l: "l \<le> max_byte_value" by simp
    define added where "added = min e (max_byte_value - l)"
    have same: "add_frame rs e px = (ss @ [(l + added, px)]) @ (if e - added = 0 then [] else [(e - added, px)])"
      unfolding rs using add_frame_same [OF e l] by (simp add: added_def Let_def)
    have st: "an_previous st = Some px" "an_last st = l" "an_encoded st = of_nat (Suc (length ss))"
      using inv rs by (auto simp: analysis_of_def last_shown_def)
    have "analyze_frame px d st = \<lparr>an_previous = Some px,
        an_last = (if e - added = 0 then l + added else e - added),
        an_encoded = (if e - added = 0 then an_encoded st else an_encoded st + 1),
        an_display = an_display st + of_nat e\<rparr>"
      using e st unfolding analyze_frame_def e_def [symmetric] Let_def
      by (simp add: added_def [symmetric] analyze_emit_small)
    moreover have "add_frame rs e px \<noteq> []" "snd (last (add_frame rs e px)) = px"
      "fst (last (add_frame rs e px)) = (if e - added = 0 then l + added else e - added)"
      "length (add_frame rs e px) = (if e - added = 0 then Suc (length ss) else Suc (Suc (length ss)))"
      unfolding same by auto
    moreover have "an_display st = of_nat (total_shown rs)" using inv by (simp add: analysis_of_def)
    ultimately show ?thesis
      using tot st(3) unfolding e_def [symmetric] analysis_of_def last_shown_def by simp
  next
    case False
    then have new: "add_frame rs e px = rs @ [(e, px)]" using e by (intro add_frame_new) auto
    have "an_previous st \<noteq> Some px" using inv False by (auto simp: analysis_of_def last_shown_def)
    then have "analyze_frame px d st = \<lparr>an_previous = Some px, an_last = e,
        an_encoded = an_encoded st + 1, an_display = an_display st + of_nat e\<rparr>"
      using e unfolding analyze_frame_def e_def [symmetric] Let_def by (simp add: analyze_emit_small)
    then show ?thesis
      using inv unfolding e_def [symmetric] by (simp add: analysis_of_def new last_shown_def)
  qed
qed

text \<open>The frames a loader yields for the given positions.\<close>

fun loaded :: "frame_loader \<Rightarrow> nat list \<Rightarrow> (bytes \<times> nat) list option" where
  "loaded load [] = Some []"
| "loaded load (i # is) =
     (case load i of Inl _ \<Rightarrow> None
      | Inr (px, d, _) \<Rightarrow> map_option ((#) (px, unat (effective_duration d))) (loaded load is))"

definition add_frames :: "(nat \<times> bytes) list \<Rightarrow> (bytes \<times> nat) list \<Rightarrow> (nat \<times> bytes) list" where
  "add_frames rs fs = foldl (\<lambda>rs (px, d). add_frame rs d px) rs fs"

definition shown_of :: "(bytes \<times> nat) list \<Rightarrow> bytes list" where
  "shown_of fs = concat (map (\<lambda>(px, d). replicate d px) fs)"

lemma add_frames_simps [simp]:
  "add_frames rs [] = rs" "add_frames rs ((px, d) # fs) = add_frames (add_frame rs d px) fs"
  by (simp_all add: add_frames_def)

lemma add_frames_foldl: "add_frames rs fs = foldl add_shown rs (shown_of fs)"
  by (induction fs arbitrary: rs) (auto simp: shown_of_def add_frame_def)

lemma add_frames_pack: "add_frames [] fs = pack (shown_of fs)"
  by (simp add: add_frames_foldl pack_def)

lemma length_add_shown: "length rs \<le> length (add_shown rs px)"
  by (auto simp: add_shown_def)

lemma length_foldl_shown: "length rs \<le> length (foldl add_shown rs xs)"
  by (induction xs arbitrary: rs) (auto intro: order_trans [OF length_add_shown])

lemma length_add_frames: "length rs \<le> length (add_frames rs fs)"
  by (simp add: add_frames_foldl length_foldl_shown)

lemma total_add_frames: "total_shown rs \<le> total_shown (add_frames rs fs)"
  by (simp add: add_frames_foldl total_shown_unpack unpack_foldl)

lemma length_add_frame: "d \<le> max_byte_value \<Longrightarrow> length (add_frame rs d px) \<le> length rs + d"
proof -
  have "length (foldl add_shown ss (replicate k px)) \<le> length ss + k" for ss k
  proof (induction k arbitrary: ss)
    case (Suc k)
    have "length (add_shown ss px) \<le> Suc (length ss)" by (auto simp: add_shown_def)
    with Suc [of "add_shown ss px"] show ?case by simp
  qed simp
  then show "length (add_frame rs d px) \<le> length rs + d" by (simp add: add_frame_def)
qed

lemma fits_mono:
  "fits fl m k s \<Longrightarrow> k' \<le> k \<Longrightarrow> s' \<le> s \<Longrightarrow> fits fl m k' s'"
proof -
  assume "fits fl m k s" "k' \<le> k" "s' \<le> s"
  moreover from this have "(4 + fl) * k' \<le> (4 + fl) * k" by (intro mult_le_mono) auto
  ultimately show "fits fl m k' s'" unfolding fits_def by linarith
qed

text \<open>What a loader must respect: it fills the whole pixel buffer, and fails with a conversion error.\<close>

definition loader_ok :: "nat \<Rightarrow> frame_loader \<Rightarrow> bool" where
  "loader_ok fl load \<longleftrightarrow>
     (\<forall>i. case load i of Inl e \<Rightarrow> e \<noteq> AnimPanic | Inr (px, d, entry) \<Rightarrow> length px = fl)"

lemma loader_okD: "loader_ok fl load \<Longrightarrow> load i = Inr (px, d, entry) \<Longrightarrow> length px = fl"
  by (auto simp: loader_ok_def dest: spec [of _ i])

lemma loader_ok_fail: "loader_ok fl load \<Longrightarrow> load i \<noteq> Inl AnimPanic"
  by (auto simp: loader_ok_def dest: spec [of _ i])

text \<open>
  \<open>pass_ok rs\<close>: the reference runs built so far are within the bounds that the layout check
  of the previous frame has established.
\<close>

definition pass_ok :: "nat \<Rightarrow> (nat \<times> bytes) list \<Rightarrow> bool" where
  "pass_ok fl rs \<longleftrightarrow> runs_ok fl rs \<and> length rs < 2 ^ 32 \<and> total_shown rs < 2 ^ 32"

lemma analyze_step_layout:
  fixes d :: byte and px :: bytes and rs :: "(nat \<times> bytes) list" and st :: analysis
  assumes "fl \<le> 65535" and "0 < m" "m \<le> max_int64" and "pass_ok fl rs" and "analysis_of rs st"
    and "length px = fl"
  defines "A \<equiv> add_frame rs (unat (effective_duration d)) px"
    and "st' \<equiv> analyze_frame px d st"
  shows "analysis_of A st'" "runs_ok fl A"
    "calculate_layout (of_nat fl) (an_encoded st') (an_display st') m = Inr lay \<longleftrightarrow>
       fits fl m (length A) (total_shown A) \<and> lay = exact_layout fl (length A)"
proof -
  show a: "analysis_of A st'"
    unfolding A_def st'_def using assms(4,5) by (intro analyze_frame_step) (auto simp: pass_ok_def)
  show "runs_ok fl A" unfolding A_def using assms(4,6) by (intro runs_ok_add_frame) (auto simp: pass_ok_def)
  have "length rs < 2 ^ 32" "total_shown rs < 2 ^ 32" using assms(4) by (simp_all add: pass_ok_def)
  moreover have "length A \<le> length rs + unat (effective_duration d)"
    "total_shown A = total_shown rs + unat (effective_duration d)"
    unfolding A_def by (rule length_add_frame [OF effective_bounds(2)]) (rule total_add_frame)
  ultimately have "length A < 2 ^ 33" "total_shown A < 2 ^ 33"
    using effective_bounds(2) [of d] by simp_all
  with a show "calculate_layout (of_nat fl) (an_encoded st') (an_display st') m = Inr lay \<longleftrightarrow>
       fits fl m (length A) (total_shown A) \<and> lay = exact_layout fl (length A)"
    using assms(1-3) by (simp add: analysis_of_def calculate_layout_exact)
qed

lemma analyze_loop_forward:
  assumes "fl \<le> 65535" and "0 < m" "m \<le> max_int64" and load: "loader_ok fl load"
  shows "analyze_loop fl m load is st lay = Inr (lay', st') \<Longrightarrow> pass_ok fl rs \<Longrightarrow> analysis_of rs st \<Longrightarrow>
    \<exists>fs. loaded load is = Some fs \<and> analysis_of (add_frames rs fs) st' \<and>
      (if is = [] then lay' = lay
       else fits fl m (length (add_frames rs fs)) (total_shown (add_frames rs fs))
            \<and> lay' = exact_layout fl (length (add_frames rs fs)))"
proof (induction "is" arbitrary: st lay rs)
  case Nil
  then show ?case by simp
next
  case (Cons i "is")
  then obtain px d entry where l: "load i = Inr (px, d, entry)" by (auto simp: rbind_eq_Inr)
  define A where "A = add_frame rs (unat (effective_duration d)) px"
  note step = analyze_step_layout [OF assms(1-3) Cons.prems(2,3) loader_okD [OF load l], of d]
  from Cons.prems(1) l obtain lay1 where
    lay1: "calculate_layout (of_nat fl) (an_encoded (analyze_frame px d st)) (an_display (analyze_frame px d st)) m = Inr lay1"
    and rest: "analyze_loop fl m load is (analyze_frame px d st) lay1 = Inr (lay', st')"
    by (auto simp: Let_def split: sum.splits)
  from lay1 have f: "fits fl m (length A) (total_shown A)" and "lay1 = exact_layout fl (length A)"
    using step(3) by (simp_all add: A_def)
  moreover have "pass_ok fl A" using f step(2) by (simp add: pass_ok_def fits_def A_def)
  ultimately obtain fs where "loaded load is = Some fs" "analysis_of (add_frames A fs) st'"
    "if is = [] then lay' = lay1
     else fits fl m (length (add_frames A fs)) (total_shown (add_frames A fs))
          \<and> lay' = exact_layout fl (length (add_frames A fs))"
    using Cons.IH [OF rest _ step(1) [folded A_def]] by (auto simp: A_def)
  with f \<open>lay1 = _\<close> l show ?case
    by (intro exI [of _ "(px, unat (effective_duration d)) # fs"])
      (auto simp: A_def split: if_splits)
qed

lemma analyze_loop_backward:
  assumes "fl \<le> 65535" and "0 < m" "m \<le> max_int64" and load: "loader_ok fl load"
  shows "loaded load is = Some fs \<Longrightarrow> pass_ok fl rs \<Longrightarrow> analysis_of rs st \<Longrightarrow>
    fits fl m (length (add_frames rs fs)) (total_shown (add_frames rs fs)) \<Longrightarrow>
    is_ok (analyze_loop fl m load is st lay)"
proof (induction "is" arbitrary: st lay rs fs)
  case Nil
  then show ?case by simp
next
  case (Cons i "is")
  then obtain px d entry gs where l: "load i = Inr (px, d, entry)" and gs: "loaded load is = Some gs"
    and fs: "fs = (px, unat (effective_duration d)) # gs"
    by (auto split: sum.splits)
  define A where "A = add_frame rs (unat (effective_duration d)) px"
  note step = analyze_step_layout [OF assms(1-3) Cons.prems(2,3) loader_okD [OF load l], of d]
  have F: "fits fl m (length (add_frames A gs)) (total_shown (add_frames A gs))"
    using Cons.prems(4) fs by (simp add: A_def)
  then have f: "fits fl m (length A) (total_shown A)"
    by (rule fits_mono) (simp_all add: length_add_frames total_add_frames)
  then have lay: "calculate_layout (of_nat fl) (an_encoded (analyze_frame px d st)) (an_display (analyze_frame px d st)) m
      = Inr (exact_layout fl (length A))"
    using step(3) by (simp add: A_def)
  have "pass_ok fl A" using f step(2) by (simp add: pass_ok_def fits_def A_def)
  from Cons.IH [OF gs this _ F] step(1) l lay show ?case by (simp add: A_def Let_def)
qed

lemma analyze_loop_no_panic:
  "loader_ok fl load \<Longrightarrow> analyze_loop fl m load is st lay \<noteq> Inl AnimPanic"
  by (induction "is" arbitrary: st lay)
    (auto simp: Let_def rbind_eq_Inl loader_ok_fail split: sum.splits)

section \<open>The second pass follows the reference\<close>

definition record_bytes :: "nat \<Rightarrow> nat \<times> bytes \<Rightarrow> bytes" where
  "record_bytes fl r = [0, of_nat (fst r)] @ put_u16 (of_nat fl) @ snd r"

definition records :: "nat \<Rightarrow> (nat \<times> bytes) list \<Rightarrow> bytes" where
  "records fl rs = concat (map (record_bytes fl) rs)"

lemma records_simps [simp]:
  "records fl [] = []" "records fl (rs @ ss) = records fl rs @ records fl ss"
  "records fl [r] = record_bytes fl r"
  by (simp_all add: records_def)

lemma length_records: "runs_ok fl rs \<Longrightarrow> length (records fl rs) = (4 + fl) * length rs"
  by (induction rs) (auto simp: records_def runs_ok_def record_bytes_def)

lemma overwrite_middle: "length old = length src \<Longrightarrow> overwrite (a @ old @ rest) (length a) src = a @ src @ rest"
  by (simp add: overwrite_def)

lemma buf_write_middle:
  "length old = length src \<Longrightarrow> at = length a \<Longrightarrow> buf_write (a @ old @ rest) at src = Inr (a @ src @ rest)"
  by (simp add: buf_write_def overwrite_middle)

definition writer_core :: "nat \<Rightarrow> bytes \<Rightarrow> (nat \<times> bytes) list \<Rightarrow> writer \<Rightarrow> bool" where
  "writer_core fl pre rs w \<longleftrightarrow>
     runs_ok fl rs \<and> wr_cursor w = length pre + (4 + fl) * length rs
     \<and> wr_last w = (if rs = [] then None else Some (length pre + (4 + fl) * (length rs - 1)))
     \<and> (\<exists>rest. wr_out w = pre @ records fl rs @ rest)"

definition writer_of :: "nat \<Rightarrow> bytes \<Rightarrow> (nat \<times> bytes) list \<Rightarrow> writer \<Rightarrow> bool" where
  "writer_of fl pre rs w \<longleftrightarrow> writer_core fl pre rs w \<and> wr_previous w = last_shown rs"

abbreviation changed_err :: "nat \<Rightarrow> string \<Rightarrow> anim_fail" where
  "changed_err i entry \<equiv> conv_err ''encode'' (int i) entry (AInvalidFrame ''frames changed during encoding'')"

lemma write_emit_0 [simp]: "write_emit fl px i entry 0 w = Inr w"
  by (subst write_emit.simps) simp

lemma write_emit_step:
  assumes "writer_core fl pre rs w" and r: "1 \<le> r" "r \<le> max_byte_value" and px: "length px = fl"
  shows "length (wr_out w) < wr_cursor w + 4 + fl \<Longrightarrow>
      write_emit fl px i entry r w = Inl (changed_err i entry)" (is "_ \<Longrightarrow> ?A")
    and "wr_cursor w + 4 + fl \<le> length (wr_out w) \<Longrightarrow>
      \<exists>w'. write_emit fl px i entry r w = Inr w' \<and> writer_core fl pre (rs @ [(r, px)]) w'
        \<and> length (wr_out w') = length (wr_out w)" (is "_ \<Longrightarrow> ?B")
proof -
  assume "length (wr_out w) < wr_cursor w + 4 + fl"
  then show ?A using r by (subst write_emit.simps) simp
next
  assume room: "wr_cursor w + 4 + fl \<le> length (wr_out w)"
  from assms(1) obtain rest where ok: "runs_ok fl rs" and out: "wr_out w = pre @ records fl rs @ rest"
    and cur: "wr_cursor w = length pre + (4 + fl) * length rs"
    unfolding writer_core_def by blast
  define a where "a = pre @ records fl rs"
  have a: "length a = wr_cursor w" by (simp add: a_def cur length_records [OF ok])
  with room out have "4 + fl \<le> length rest" by (simp add: a_def)
  define b0 b1 b2 tl where "b0 = take 2 rest" and "b1 = take 2 (drop 2 rest)"
    and "b2 = take fl (drop 4 rest)" and "tl = drop (4 + fl) rest"
  have len: "length b0 = 2" "length b1 = 2" "length b2 = fl"
    using \<open>4 + fl \<le> length rest\<close> by (simp_all add: b0_def b1_def b2_def)
  have "rest = b0 @ b1 @ b2 @ tl"
  proof -
    have "rest = take 2 rest @ drop 2 rest" by simp
    also have "drop 2 rest = take 2 (drop 2 rest) @ drop 2 (drop 2 rest)" by (rule append_take_drop_id [symmetric])
    also have "drop 2 (drop 2 rest) = drop 4 rest" by simp
    also have "drop 4 rest = take fl (drop 4 rest) @ drop fl (drop 4 rest)"
      by (rule append_take_drop_id [symmetric])
    finally show ?thesis by (simp add: b0_def b1_def b2_def tl_def add.commute)
  qed
  then have out': "wr_out w = a @ b0 @ b1 @ b2 @ tl" by (simp add: out a_def)
  define c0 c1 where "c0 = ([0, of_nat r] :: bytes)" and "c1 = put_u16 (of_nat fl)"
  have c: "length c0 = 2" "length c1 = 2" by (simp_all add: c0_def c1_def)
  have w1: "buf_write (wr_out w) (wr_cursor w) c0 = Inr (a @ c0 @ b1 @ b2 @ tl)"
    unfolding out' by (rule buf_write_middle) (simp_all add: len a c)
  have w2: "buf_write (a @ c0 @ b1 @ b2 @ tl) (wr_cursor w + 2) c1 = Inr (a @ c0 @ c1 @ b2 @ tl)"
    using buf_write_middle [of b1 c1 "wr_cursor w + 2" "a @ c0" "b2 @ tl"] by (simp add: len a c)
  have w3: "buf_write (a @ c0 @ c1 @ b2 @ tl) (wr_cursor w + 4) px = Inr (a @ c0 @ c1 @ px @ tl)"
    using buf_write_middle [of b2 px "wr_cursor w + 4" "a @ c0 @ c1" tl] by (simp add: len a c px)
  define w' where "w' = w\<lparr>wr_out := a @ c0 @ c1 @ px @ tl, wr_cursor := wr_cursor w + 4 + fl,
    wr_last := Some (wr_cursor w)\<rparr>"
  have "min r max_byte_value = r" "\<not> length (wr_out w) < wr_cursor w + 4 + fl" "0 < r"
    using r room by simp_all
  then have "write_emit fl px i entry r w = Inr w'"
    by (subst write_emit.simps)
      (simp add: Let_def w1 [unfolded c0_def, simplified] w2 [unfolded c0_def c1_def, simplified]
        w3 [unfolded c0_def c1_def, simplified] px w'_def c0_def c1_def)
  moreover have "writer_core fl pre (rs @ [(r, px)]) w'"
    using ok r px by (simp add: writer_core_def w'_def a_def cur record_bytes_def c0_def c1_def)
  moreover have "length (wr_out w') = length (wr_out w)" by (simp add: w'_def out' len c px)
  ultimately show ?B by blast
qed

lemma extend_last_step:
  fixes r :: nat
  assumes "writer_core fl pre (ss @ [(l, px)]) w"
  defines "added \<equiv> min r (max_byte_value - l)"
  shows "\<exists>w'. extend_last r w = Inr (r - added, w') \<and> writer_core fl pre (ss @ [(l + added, px)]) w'
    \<and> length (wr_out w') = length (wr_out w)"
proof -
  from assms(1) obtain rest where ok: "runs_ok fl ss" "1 \<le> l" "l \<le> max_byte_value" "length px = fl"
    and out: "wr_out w = pre @ records fl ss @ record_bytes fl (l, px) @ rest"
    and cur: "wr_cursor w = length pre + (4 + fl) * Suc (length ss)"
    and lst: "wr_last w = Some (length pre + (4 + fl) * length ss)"
    unfolding writer_core_def by auto
  define a where "a = pre @ records fl ss @ [0]"
  define tl where "tl = put_u16 (of_nat fl) @ px @ rest"
  have out': "wr_out w = a @ [of_nat l] @ tl" by (simp add: out a_def tl_def record_bytes_def)
  define at where "at = length pre + (4 + fl) * length ss + 1"
  have at: "at = length a" by (simp add: at_def a_def length_records [OF ok(1)])
  have get: "buf_get (wr_out w) at = Inr (of_nat l)" by (simp add: buf_get_def out' at nth_append)
  have l: "unat (of_nat l :: byte) = l" using ok by (intro unat_of_nat_byte) simp
  have put: "buf_write (wr_out w) at [of_nat l + of_nat added] = Inr (a @ [of_nat (l + added)] @ tl)"
    unfolding out' by (subst buf_write_middle) (simp_all add: at)
  have "l + added \<le> max_byte_value" using ok by (simp add: added_def)
  define w' where "w' = w\<lparr>wr_out := a @ [of_nat (l + added)] @ tl\<rparr>"
  have "extend_last r w = Inr (r - added, w')"
    using get put l unfolding extend_last_def lst
    by (simp add: Let_def at_def added_def [symmetric] w'_def)
  moreover have "writer_core fl pre (ss @ [(l + added, px)]) w'"
    using ok cur lst \<open>l + added \<le> max_byte_value\<close>
    by (simp add: writer_core_def w'_def a_def tl_def record_bytes_def)
  moreover have "length (wr_out w') = length (wr_out w)" by (simp add: w'_def out')
  ultimately show ?thesis by blast
qed

lemma writer_room: "writer_core fl pre rs w \<Longrightarrow> wr_cursor w \<le> length (wr_out w)"
  by (auto simp: writer_core_def length_records)

lemma write_frame_step:
  fixes d :: byte
  assumes inv: "writer_of fl pre rs w" and px: "length px = fl"
  defines "A \<equiv> add_frame rs (unat (effective_duration d)) px"
  shows "length (wr_out w) < length pre + (4 + fl) * length A \<Longrightarrow>
      write_frame fl px d i entry w = Inl (changed_err i entry)"
    and "length pre + (4 + fl) * length A \<le> length (wr_out w) \<Longrightarrow>
      \<exists>w'. write_frame fl px d i entry w = Inr w' \<and> writer_of fl pre A w'
        \<and> length (wr_out w') = length (wr_out w)"
proof -
  define e where "e = unat (effective_duration d)"
  have e: "1 \<le> e" "e \<le> max_byte_value" using effective_bounds [of d] by (simp_all add: e_def)
  have core: "writer_core fl pre rs w" and prev: "wr_previous w = last_shown rs"
    using inv by (simp_all add: writer_of_def)
  have goal: "if length (wr_out w) < length pre + (4 + fl) * length A
    then write_frame fl px d i entry w = Inl (changed_err i entry)
    else \<exists>w'. write_frame fl px d i entry w = Inr w' \<and> writer_of fl pre A w'
        \<and> length (wr_out w') = length (wr_out w)"
  proof (cases "rs \<noteq> [] \<and> snd (last rs) = px")
    case True
    then obtain ss l where rs: "rs = ss @ [(l, px)]" using last_runs [of rs] by auto
    from core have l: "l \<le> max_byte_value" by (simp add: writer_core_def rs)
    define added where "added = min e (max_byte_value - l)"
    have A: "A = (ss @ [(l + added, px)]) @ (if e - added = 0 then [] else [(e - added, px)])"
      using add_frame_same [OF e l, of ss px] by (simp add: A_def e_def [symmetric] rs added_def Let_def)
    obtain w1 where w1: "extend_last e w = Inr (e - added, w1)"
      "writer_core fl pre (ss @ [(l + added, px)]) w1" "length (wr_out w1) = length (wr_out w)"
      using extend_last_step [of fl pre ss l px w e] core rs unfolding added_def by blast
    have wf: "write_frame fl px d i entry w = rbind (write_emit fl px i entry (e - added) w1)
        (\<lambda>w2. Inr (w2\<lparr>wr_previous := Some px\<rparr>))"
      using prev w1(1) by (simp add: write_frame_def e_def [symmetric] rs last_shown_def)
    have cur: "wr_cursor w1 = length pre + (4 + fl) * Suc (length ss)" using w1(2) by (simp add: writer_core_def)
    show ?thesis
    proof (cases "e - added = 0")
      case True
      then show ?thesis using wf w1(2,3) writer_room [OF w1(2)] cur unfolding A
        by (simp add: writer_of_def last_shown_def writer_core_def)
    next
      case False
      then have r: "1 \<le> e - added" "e - added \<le> max_byte_value" using e by auto
      have len: "length pre + (4 + fl) * length A = wr_cursor w1 + 4 + fl"
        using False cur by (simp add: A)
      have lastA: "last_shown A = Some px" "A \<noteq> []" using False by (simp_all add: A last_shown_def)
      show ?thesis
        using write_emit_step [OF w1(2) r px, of i entry] wf w1(3) len lastA(1) False unfolding A
        by (auto simp: writer_of_def writer_core_def)
    qed
  next
    case False
    then have A: "A = rs @ [(e, px)]" unfolding A_def e_def [symmetric] using e by (intro add_frame_new) auto
    have "wr_previous w \<noteq> Some px" using prev False by (auto simp: last_shown_def)
    then have wf: "write_frame fl px d i entry w = rbind (write_emit fl px i entry e w)
        (\<lambda>w2. Inr (w2\<lparr>wr_previous := Some px\<rparr>))"
      by (simp add: write_frame_def e_def [symmetric])
    have "length pre + (4 + fl) * length A = wr_cursor w + 4 + fl"
      using core by (simp add: A writer_core_def)
    then show ?thesis
      using write_emit_step [OF core e px, of i entry] wf unfolding A
      by (auto simp: writer_of_def writer_core_def last_shown_def)
  qed
  then show "length (wr_out w) < length pre + (4 + fl) * length A \<Longrightarrow>
      write_frame fl px d i entry w = Inl (changed_err i entry)"
    and "length pre + (4 + fl) * length A \<le> length (wr_out w) \<Longrightarrow>
      \<exists>w'. write_frame fl px d i entry w = Inr w' \<and> writer_of fl pre A w'
        \<and> length (wr_out w') = length (wr_out w)"
    by (auto split: if_splits)
qed

lemma loaded_None: "loader_ok fl load \<Longrightarrow> loaded load is = None \<Longrightarrow> \<exists>i \<in> set is. \<exists>e. load i = Inl e \<and> e \<noteq> AnimPanic"
proof (induction "is")
  case (Cons i "is")
  then show ?case by (cases "load i") (auto dest: loader_ok_fail)
qed simp

text \<open>The second pass succeeds exactly when the frames it loads need no more records than there is room for.\<close>

lemma write_loop_spec:
  assumes load: "loader_ok fl load"
  shows "writer_of fl pre rs w \<Longrightarrow>
    (case write_loop fl load is w of
       Inr w' \<Rightarrow> (\<exists>fs. loaded load is = Some fs \<and> writer_of fl pre (add_frames rs fs) w'
         \<and> length (wr_out w') = length (wr_out w))
     | Inl e \<Rightarrow> e \<noteq> AnimPanic \<and> (\<forall>fs. loaded load is = Some fs \<longrightarrow>
         length (wr_out w) < length pre + (4 + fl) * length (add_frames rs fs)
         \<and> (\<exists>i entry. e = changed_err i entry)))"
proof (induction "is" arbitrary: w rs)
  case Nil
  then show ?case by simp
next
  case (Cons i "is")
  show ?case
  proof (cases "load i")
    case (Inl e)
    then show ?thesis using loader_ok_fail [OF load, of i] by simp
  next
    case (Inr v)
    then obtain px d entry where l: "load i = Inr (px, d, entry)" by (cases v) auto
    define A where "A = add_frame rs (unat (effective_duration d)) px"
    note step = write_frame_step [OF Cons.prems loader_okD [OF load l], of d i entry, folded A_def]
    show ?thesis
    proof (cases "length pre + (4 + fl) * length A \<le> length (wr_out w)")
      case True
      then obtain w1 where w1: "write_frame fl px d i entry w = Inr w1" "writer_of fl pre A w1"
        "length (wr_out w1) = length (wr_out w)"
        using step(2) by blast
      show ?thesis using Cons.IH [OF w1(2)] l w1
        by (auto simp: A_def split: sum.splits)
    next
      case False
      have "length (wr_out w) < length pre + (4 + fl) * length (add_frames A fs)" for fs
      proof -
        have "(4 + fl) * length A \<le> (4 + fl) * length (add_frames A fs)"
          by (intro mult_le_mono le_refl length_add_frames)
        then show ?thesis using False by linarith
      qed
      then show ?thesis using step(1) False l by (auto simp: A_def)
    qed
  qed
qed

definition frames_of :: "frame_loader \<Rightarrow> nat \<Rightarrow> (bytes \<times> nat) list option" where
  "frames_of load n = loaded load [0..<n]"

lemma write_frames_spec:
  assumes load: "loader_ok fl load"
  shows "case write_frames (pre @ rest) (length pre) n fl load of
       Inr out \<Rightarrow> (\<exists>fs. frames_of load n = Some fs \<and> out = pre @ records fl (pack (shown_of fs))
         \<and> length rest = (4 + fl) * length (pack (shown_of fs)))
     | Inl e \<Rightarrow> e \<noteq> AnimPanic \<and> (\<forall>fs. frames_of load n = Some fs \<longrightarrow>
         length rest \<noteq> (4 + fl) * length (pack (shown_of fs))
         \<and> (\<exists>i entry. e = conv_err ''encode'' i entry (AInvalidFrame ''frames changed during encoding'')))"
proof -
  define w0 where "w0 = \<lparr>wr_out = pre @ rest, wr_cursor = length pre, wr_previous = None, wr_last = None\<rparr>"
  have "writer_of fl pre [] w0" by (simp add: writer_of_def writer_core_def w0_def last_shown_def)
  note loop = write_loop_spec [OF load this, of "[0..<n]"]
  show ?thesis
  proof (cases "write_loop fl load [0..<n] w0")
    case (Inl e)
    then show ?thesis using loop
      by (auto simp: write_frames_def w0_def [symmetric] frames_of_def add_frames_pack)
        (auto simp: w0_def)
  next
    case (Inr w)
    then obtain fs where fs: "loaded load [0..<n] = Some fs"
      and w: "writer_core fl pre (pack (shown_of fs)) w" "length (wr_out w) = length pre + length rest"
      using loop by (auto simp: add_frames_pack writer_of_def w0_def)
    obtain tl where out: "wr_out w = pre @ records fl (pack (shown_of fs)) @ tl"
      and cur: "wr_cursor w = length pre + (4 + fl) * length (pack (shown_of fs))"
      and ok: "runs_ok fl (pack (shown_of fs))"
      using w(1) unfolding writer_core_def by blast
    have "length (wr_out w) = wr_cursor w + length tl" by (simp add: out cur length_records [OF ok])
    then show ?thesis using Inr fs out cur w(2)
      by (auto simp: write_frames_def w0_def [symmetric] frames_of_def)
  qed
qed

section \<open>The whole file\<close>

text \<open>The file as the format describes it: the header, the one section record, the frame records.\<close>

definition header_bytes :: "rgb_config \<Rightarrow> nat \<Rightarrow> nat \<Rightarrow> nat \<Rightarrow> byte \<Rightarrow> bytes" where
  "header_bytes fmt fl k s first =
     signature @ [0, of_int (cfg_width fmt), of_int (cfg_height fmt), 0, of_int (cfg_fps fmt)]
     @ put_u16 (of_nat fl) @ [0] @ put_u32 21 @ put_u32 (of_nat ((4 + fl) * k)) @ put_u32 1
     @ put_u32 (of_nat k) @ put_u32 (of_nat s)
     @ put_u32 0 @ put_u32 (of_nat (s - 1)) @ put_u32 57 @ [first] @ sectionName @ [0]"

definition reference_file :: "rgb_config \<Rightarrow> nat \<Rightarrow> bytes list \<Rightarrow> bytes" where
  "reference_file fmt fl xs =
     header_bytes fmt fl (length (pack xs)) (length xs) (of_nat (fst (hd (pack xs))))
     @ records fl (pack xs)"

lemma length_header [simp]: "length (header_bytes fmt fl k s b) = prologue"
  by (simp add: header_bytes_def prologue_def headerLength_def)

lemma buf_write_extend:
  "at + length src \<le> length xs \<Longrightarrow> buf_write (xs @ ys) at src = rbind (buf_write xs at src) (\<lambda>o1. Inr (o1 @ ys))"
  by (simp add: buf_write_def overwrite_def)

lemma apply_writes_extend:
  "(\<And>at src. (at, src) \<in> set ws \<Longrightarrow> at + length src \<le> length xs) \<Longrightarrow>
   apply_writes ws (xs @ ys) = rbind (apply_writes ws xs) (\<lambda>o1. Inr (o1 @ ys))"
proof (induction ws arbitrary: xs)
  case Nil
  then show ?case by simp
next
  case (Cons aw ws)
  obtain at src where aw: "aw = (at, src)" by (cases aw)
  with Cons.prems have fit: "at + length src \<le> length xs" by auto
  then obtain o1 where o1: "buf_write xs at src = Inr o1" "length o1 = length xs"
    by (simp add: buf_write_def)
  have "apply_writes ws (o1 @ ys) = rbind (apply_writes ws o1) (\<lambda>o1. Inr (o1 @ ys))"
    by (rule Cons.IH) (use Cons.prems o1(2) in auto)
  then show ?case using o1 fit by (simp add: aw buf_write_extend)
qed

lemma replicate_57: "replicate prologue (0 :: byte) = [0,0,0,0,0,0,0,0,0,0, 0,0,0,0,0,0,0,0,0,0,
  0,0,0,0,0,0,0,0,0,0, 0,0,0,0,0,0,0,0,0,0, 0,0,0,0,0,0,0,0,0,0, 0,0,0,0,0,0,0]"
  by (simp add: prologue_def headerLength_def numeral_eq_Suc)

lemma header_writes_prologue:
  assumes "k < 2 ^ 32" "s < 2 ^ 32" "0 < s" "(4 + fl) * k < 2 ^ 32"
  shows "apply_writes (header_writes fmt fl (exact_layout fl k) (of_nat k) (of_nat s)) (replicate prologue 0)
    = Inr (header_bytes fmt fl k s 0)"
proof -
  have u: "ucast (of_nat n :: u64) = (of_nat n :: u32)" for n
    by (simp add: word_unat_eq_iff unsigned_ucast_eq unsigned_of_nat take_bit_eq_mod mod_mod_cancel)
  have s1: "(of_nat s - 1 :: u64) = of_nat (s - 1)" using assms(3) by simp
  show ?thesis
    unfolding header_writes_def replicate_57 header_bytes_def s1 u
    by (simp add: exact_layout_def headerLength_def buf_write_def overwrite_def signature_def
        sectionName_def put_u16_def put_u32_def del: of_nat_mult of_nat_add)
qed

lemma analysis_start [simp]:
  "analysis_of [] \<lparr>an_previous = None, an_last = 0, an_encoded = 0, an_display = 0\<rparr>"
  by (simp add: analysis_of_def last_shown_def total_shown_def)

lemma analyze_frames_spec:
  assumes fl: "fl \<le> 65535" and m: "0 < m" "m \<le> max_int64" and load: "loader_ok fl load" and n: "0 < n"
  shows "case analyze_frames n fl m load of
      Inr (lay, k, s) \<Rightarrow> (\<exists>fs. frames_of load n = Some fs
        \<and> fits fl m (length (pack (shown_of fs))) (length (shown_of fs))
        \<and> lay = exact_layout fl (length (pack (shown_of fs)))
        \<and> k = of_nat (length (pack (shown_of fs))) \<and> s = of_nat (length (shown_of fs)))
    | Inl e \<Rightarrow> e \<noteq> AnimPanic \<and> (\<forall>fs. frames_of load n = Some fs \<longrightarrow>
        \<not> fits fl m (length (pack (shown_of fs))) (length (shown_of fs)))"
proof -
  define st0 where "st0 = \<lparr>an_previous = None, an_last = 0, an_encoded = 0, an_display = (0 :: u64)\<rparr>"
  define lay0 where "lay0 = \<lparr>sections_length = 0, frames_length = 0, output_length = 0\<rparr>"
  have tot: "total_shown (add_frames [] fs) = length (shown_of fs)" for fs
    by (simp add: add_frames_pack total_shown_unpack unpack_pack)
  have start: "pass_ok fl []" "analysis_of [] st0" by (simp_all add: pass_ok_def st0_def total_shown_def)
  show ?thesis
  proof (cases "analyze_loop fl m load [0..<n] st0 lay0")
    case (Inl e)
    have "\<not> is_ok (analyze_loop fl m load [0..<n] st0 lay0)" using Inl by simp
    moreover note analyze_loop_backward [OF fl m load _ start, of "[0..<n]" _ lay0]
    ultimately show ?thesis
      using Inl analyze_loop_no_panic [OF load, of m "[0..<n]" st0 lay0]
      by (auto simp: analyze_frames_def st0_def [symmetric] lay0_def [symmetric] frames_of_def
          add_frames_pack tot [unfolded add_frames_pack])
  next
    case (Inr v)
    then obtain lay st where v: "analyze_loop fl m load [0..<n] st0 lay0 = Inr (lay, st)" by (cases v) auto
    from analyze_loop_forward [OF fl m load v start] n obtain fs where
      "loaded load [0..<n] = Some fs" "analysis_of (add_frames [] fs) st"
      "fits fl m (length (add_frames [] fs)) (total_shown (add_frames [] fs))"
      "lay = exact_layout fl (length (add_frames [] fs))" by auto
    then show ?thesis using v
      by (auto simp: analyze_frames_def st0_def [symmetric] lay0_def [symmetric] frames_of_def
          analysis_of_def tot) (auto simp: add_frames_pack tot [unfolded add_frames_pack])
  qed
qed

definition default_fps :: "rgb_config \<Rightarrow> rgb_config" where
  "default_fps fmt = (if cfg_fps fmt = 0 then fmt\<lparr>cfg_fps := DefaultFPS\<rparr> else fmt)"

definition frame_bytes :: "rgb_config \<Rightarrow> nat" where
  "frame_bytes fmt = nat (cfg_width fmt * cfg_height fmt * 3)"

definition format_ok :: "rgb_config \<Rightarrow> bool" where
  "format_ok fmt \<longleftrightarrow> 0 < cfg_width fmt \<and> cfg_width fmt \<le> 255 \<and> 0 < cfg_height fmt \<and> cfg_height fmt \<le> 255
     \<and> 0 \<le> cfg_fps fmt \<and> cfg_fps fmt \<le> 255 \<and> frame_bytes fmt \<le> 65535"

definition encoded_result :: "rgb_config \<Rightarrow> bytes list \<Rightarrow> bytes list \<Rightarrow> anim_result" where
  "encoded_result fmt xs ys =
     \<lparr>res_data = header_bytes (default_fps fmt) (frame_bytes fmt) (length (pack xs)) (length xs)
          (of_nat (fst (hd (pack ys)))) @ records (frame_bytes fmt) (pack ys),
      res_width = cfg_width fmt, res_height = cfg_height fmt, res_fps = cfg_fps (default_fps fmt),
      res_encoded = length (pack xs), res_display = length xs\<rparr>"

lemma shown_of_nonempty:
  assumes "frames_of load n = Some fs" and "0 < n"
  shows "shown_of fs \<noteq> []"
proof -
  have "[0..<n] = 0 # [1..<n]" using assms(2) by (simp add: upt_rec)
  with assms(1) obtain px d entry gs where "fs = (px, unat (effective_duration d)) # gs"
    by (auto simp: frames_of_def split: sum.splits)
  then show ?thesis using effective_bounds(1) [of d] by (simp add: shown_of_def)
qed

lemma pack_nonempty: "xs \<noteq> [] \<Longrightarrow> pack xs \<noteq> []"
  using unpack_pack [of xs] by (auto simp: unpack_def)

lemma format_ok_frame_bytes: "format_ok fmt \<Longrightarrow> 0 < frame_bytes fmt"
  by (simp add: format_ok_def frame_bytes_def)

definition encodable ::
  "nat \<Rightarrow> rgb_config \<Rightarrow> anim_config \<Rightarrow> frame_loader \<Rightarrow> frame_loader \<Rightarrow> bytes list \<Rightarrow> bytes list \<Rightarrow> bool" where
  "encodable n fmt conf load1 load2 xs ys \<longleftrightarrow>
     format_ok fmt \<and> 0 < n \<and> map_option shown_of (frames_of load1 n) = Some xs
     \<and> map_option shown_of (frames_of load2 n) = Some ys
     \<and> fits (frame_bytes fmt) (max_output_bytes conf) (length (pack xs)) (length xs)
     \<and> length (pack ys) = length (pack xs)"

lemma encode_frames_invalid:
  assumes "\<not> (format_ok fmt \<and> 0 < n)"
  shows "\<exists>op err. encode_frames n fmt conf load1 load2 = Inl (conv_err op (-1) [] err)"
proof -
  define f where "f = default_fps fmt"
  have f: "cfg_width f = cfg_width fmt" "cfg_height f = cfg_height fmt"
    "cfg_fps f = (if cfg_fps fmt = 0 then 30 else cfg_fps fmt)"
    by (simp_all add: f_def default_fps_def DefaultFPS_def)
  have "cfg_width f \<le> 0 \<or> cfg_width f > 255 \<or> cfg_height f \<le> 0 \<or> cfg_height f > 255
    \<or> (cfg_fps f \<le> 0 \<or> cfg_fps f > 255 \<or> n = 0 \<or> cfg_width f * cfg_height f * 3 > maxFrameBytes)"
    using assms by (auto simp: f format_ok_def frame_bytes_def maxFrameBytes_def nat_le_iff split: if_splits)
  then consider "cfg_width f \<le> 0 \<or> cfg_width f > 255 \<or> cfg_height f \<le> 0 \<or> cfg_height f > 255"
    | "\<not> (cfg_width f \<le> 0 \<or> cfg_width f > 255 \<or> cfg_height f \<le> 0 \<or> cfg_height f > 255)"
      "cfg_fps f \<le> 0 \<or> cfg_fps f > 255 \<or> n = 0 \<or> cfg_width f * cfg_height f * 3 > maxFrameBytes"
    by blast
  then show ?thesis
    unfolding encode_frames_def Let_def default_fps_def [symmetric] f_def [symmetric]
    by cases auto
qed

lemma header_patch:
  "buf_write (header_bytes fmt fl k s 0 @ rest) (headerLength + 12) [b] = Inr (header_bytes fmt fl k s b @ rest)"
proof -
  define a where "a = signature @ [0, of_int (cfg_width fmt), of_int (cfg_height fmt), 0, of_int (cfg_fps fmt)]
     @ put_u16 (of_nat fl) @ [0] @ put_u32 21 @ put_u32 (of_nat ((4 + fl) * k)) @ put_u32 1
     @ put_u32 (of_nat k) @ put_u32 (of_nat s) @ put_u32 0 @ put_u32 (of_nat (s - 1)) @ put_u32 57"
  have hb: "header_bytes fmt fl k s c = a @ [c] @ (sectionName @ [0])" for c
    by (simp add: header_bytes_def a_def)
  have "headerLength + 12 = length a" by (simp add: a_def headerLength_def)
  then show ?thesis
    unfolding hb using buf_write_middle [of "[0]" "[b]" "headerLength + 12" a "(sectionName @ [0]) @ rest"]
    by simp
qed

lemma encode_frames_spec:
  assumes m: "0 < max_output_bytes conf" "max_output_bytes conf \<le> max_int64"
    and load1: "loader_ok (frame_bytes fmt) load1" and load2: "loader_ok (frame_bytes fmt) load2"
  shows "case encode_frames n fmt conf load1 load2 of
      Inr res \<Rightarrow> (\<exists>xs ys. encodable n fmt conf load1 load2 xs ys \<and> res = encoded_result fmt xs ys)
    | Inl e \<Rightarrow> e \<noteq> AnimPanic \<and> (\<forall>xs ys. \<not> encodable n fmt conf load1 load2 xs ys)"
proof (cases "format_ok fmt \<and> 0 < n")
  case False
  then show ?thesis
    using encode_frames_invalid [OF False, of conf load1 load2] by (auto simp: encodable_def)
next
  case True
  define fl where "fl = frame_bytes fmt"
  have ok: "format_ok fmt" and n: "0 < n" and fl: "fl \<le> 65535"
    using True by (auto simp: format_ok_def fl_def)
  have len: "cfg_width (default_fps fmt) * cfg_height (default_fps fmt) * 3 = int fl"
    "cfg_width (default_fps fmt) = cfg_width fmt" "cfg_height (default_fps fmt) = cfg_height fmt"
    using ok by (auto simp: default_fps_def fl_def frame_bytes_def format_ok_def)
  have fps: "0 < cfg_fps (default_fps fmt)" "cfg_fps (default_fps fmt) \<le> 255"
    using ok by (auto simp: default_fps_def format_ok_def DefaultFPS_def)
  define tail where "tail = (\<lambda>(lay, k, s). rbind (apply_writes (header_writes (default_fps fmt) fl lay k s)
      (replicate (output_length lay) 0)) (\<lambda>o1. rbind (write_frames o1 57 n fl load2) (\<lambda>o2.
      rbind (buf_get o2 (headerLength + sections_length lay + 1)) (\<lambda>b.
      rbind (buf_write o2 (headerLength + 12) [b]) (\<lambda>o3.
        Inr \<lparr>res_data = o3, res_width = cfg_width fmt, res_height = cfg_height fmt,
             res_fps = cfg_fps (default_fps fmt), res_encoded = unat k, res_display = unat s\<rparr>)))))"
  have enc: "encode_frames n fmt conf load1 load2
      = rbind (analyze_frames n fl (max_output_bytes conf) load1) tail"
  proof -
    show ?thesis
      using ok n fl fps len unfolding encode_frames_def default_fps_def [symmetric] tail_def
      by (simp add: Let_def format_ok_def maxFrameBytes_def headerLength_def)
  qed
  note an = analyze_frames_spec [OF fl m load1 [folded fl_def] n]
  show ?thesis
  proof (cases "analyze_frames n fl (max_output_bytes conf) load1")
    case (Inl e)
    then show ?thesis using an by (auto simp: enc encodable_def fl_def)
  next
    case (Inr v)
    then obtain fs where v: "v = (exact_layout fl (length (pack (shown_of fs))),
        of_nat (length (pack (shown_of fs))), of_nat (length (shown_of fs)))"
      and fs: "frames_of load1 n = Some fs"
      and fit: "fits fl (max_output_bytes conf) (length (pack (shown_of fs))) (length (shown_of fs))"
      using an by (cases v) auto
    define xs where "xs = shown_of fs"
    have xs: "xs \<noteq> []" "pack xs \<noteq> []"
      using shown_of_nonempty [OF fs n] pack_nonempty by (simp_all add: xs_def)
    define h where "h = header_bytes (default_fps fmt) fl (length (pack xs)) (length xs)"
    define zs where "zs = replicate ((4 + fl) * length (pack xs)) (0 :: byte)"
    have hd: "apply_writes (header_writes (default_fps fmt) fl (exact_layout fl (length (pack xs)))
        (of_nat (length (pack xs))) (of_nat (length xs))) (replicate (output_length (exact_layout fl (length (pack xs)))) 0)
      = Inr (h 0 @ zs)"
    proof -
      have "replicate (output_length (exact_layout fl (length (pack xs)))) 0 = replicate prologue 0 @ zs"
        by (simp add: exact_layout_def zs_def replicate_add)
      moreover have "at + length src \<le> length (replicate prologue (0 :: byte))"
        if "(at, src) \<in> set (header_writes (default_fps fmt) fl (exact_layout fl (length (pack xs)))
          (of_nat (length (pack xs))) (of_nat (length xs)))" for at src
        using that by (auto simp: header_writes_def prologue_def headerLength_def)
      ultimately show ?thesis
        using header_writes_prologue [of "length (pack xs)" "length xs" fl "default_fps fmt"] fit xs
        by (simp add: apply_writes_extend h_def fits_def xs_def [symmetric])
    qed
    have h57: "length (h c) = 57" for c by (simp add: h_def prologue_def headerLength_def)
    note wr = write_frames_spec [OF load2 [folded fl_def], where pre = "h 0" and rest = zs and n = n, unfolded h57]
    have tl: "tail v = rbind (write_frames (h 0 @ zs) 57 n fl load2) (\<lambda>o2.
      rbind (buf_get o2 58) (\<lambda>b. rbind (buf_write o2 (headerLength + 12) [b]) (\<lambda>o3.
        Inr \<lparr>res_data = o3, res_width = cfg_width fmt, res_height = cfg_height fmt,
             res_fps = cfg_fps (default_fps fmt), res_encoded = length (pack xs), res_display = length xs\<rparr>)))"
      using fit hd unfolding v xs_def [symmetric] tail_def
      by (simp add: unat_of_nat_u64 fits_def xs_def [symmetric])
        (simp add: exact_layout_def headerLength_def)
    show ?thesis
    proof (cases "write_frames (h 0 @ zs) 57 n fl load2")
      case (Inl e)
      then show ?thesis using wr Inr tl fs
        by (auto simp: enc encodable_def fl_def [symmetric] xs_def zs_def)
    next
      case w: (Inr o2)
      then obtain gs where gs: "frames_of load2 n = Some gs"
        and o2: "o2 = h 0 @ records fl (pack (shown_of gs))"
        and same: "length (pack (shown_of gs)) = length (pack xs)"
        using wr by (auto simp: zs_def)
      define ys where "ys = shown_of gs"
      have "pack ys \<noteq> []" using same xs by (auto simp: ys_def)
      then obtain r rs where r: "pack ys = r # rs" by (cases "pack ys") auto
      have "buf_get o2 58 = Inr (of_nat (fst r))"
        by (simp add: buf_get_def o2 ys_def [symmetric] r records_def record_bytes_def nth_append h57)
      moreover have "buf_write o2 (headerLength + 12) [of_nat (fst r)]
          = Inr (h (of_nat (fst r)) @ records fl (pack ys))"
        unfolding o2 h_def ys_def by (rule header_patch)
      ultimately have "encode_frames n fmt conf load1 load2 = Inr (encoded_result fmt xs ys)"
        using Inr tl w by (simp add: enc encoded_result_def r h_def fl_def [symmetric])
      moreover have "encodable n fmt conf load1 load2 xs ys"
        using ok n fs gs fit same by (simp add: encodable_def xs_def ys_def fl_def)
      ultimately show ?thesis by auto
    qed
  qed
qed

section \<open>EncodeRGB888\<close>

lemma loader_cong:
  assumes "\<And>i. i \<in> set is \<Longrightarrow> load i = load' i"
  shows "analyze_loop fl m load is st lay = analyze_loop fl m load' is st lay"
    and "write_loop fl load is w = write_loop fl load' is w"
    and "loaded load is = loaded load' is"
  using assms
proof (induction "is" arbitrary: st lay w)
  case (Cons i "is")
  { case 1 with Cons.IH(1) show ?case by (auto simp: rbind_def Let_def split: sum.splits) }
  { case 2 with Cons.IH(2) show ?case by (auto simp: rbind_def split: sum.splits) }
  { case 3 with Cons.IH(3) show ?case by (auto split: sum.splits) }
qed simp_all

lemma encode_frames_cong:
  "(\<And>i. i < n \<Longrightarrow> load1 i = load1' i) \<Longrightarrow> (\<And>i. i < n \<Longrightarrow> load2 i = load2' i) \<Longrightarrow>
    encode_frames n fmt conf load1 load2 = encode_frames n fmt conf load1' load2'"
proof -
  assume eq: "\<And>i. i < n \<Longrightarrow> load1 i = load1' i" "\<And>i. i < n \<Longrightarrow> load2 i = load2' i"
  have "analyze_frames n fl m load1 = analyze_frames n fl m load1'" for fl m
    using loader_cong(1) [of "[0..<n]" load1 load1'] eq(1) by (simp add: analyze_frames_def)
  moreover have "write_frames out c n fl load2 = write_frames out c n fl load2'" for out c fl
    using loader_cong(2) [of "[0..<n]" load2 load2'] eq(2) by (simp add: write_frames_def)
  ultimately show ?thesis by (simp only: encode_frames_def)
qed

definition rgb_sizes_ok :: "rgb_frame list \<Rightarrow> nat \<Rightarrow> bool" where
  "rgb_sizes_ok frames fl = list_all (\<lambda>f. length (pixels_bgr f) = fl) frames"

definition rgb_shown :: "rgb_frame list \<Rightarrow> bytes list" where
  "rgb_shown frames = shown_of (map (\<lambda>f. (pixels_bgr f, unat (effective_duration (duration f)))) frames)"

definition total_loader :: "nat \<Rightarrow> frame_loader \<Rightarrow> frame_loader" where
  "total_loader n load i = (if i < n then load i else Inl (conv_err ''validate'' (int i) [] ANoFrames))"

lemma total_rgb_loader_ok: "loader_ok fl (total_loader (length frames) (rgb_loader frames fl))"
  by (auto simp: loader_ok_def total_loader_def rgb_loader_def Let_def)

lemma loaded_map:
  "loaded load is = (if list_all (\<lambda>i. is_ok (load i)) is
     then Some (map (\<lambda>i. case load i of Inr (px, d, _) \<Rightarrow> (px, unat (effective_duration d))) is) else None)"
  by (induction "is") (auto split: sum.splits)

lemma rgb_frames_of:
  "frames_of (rgb_loader frames fl) (length frames) =
    (if rgb_sizes_ok frames fl
     then Some (map (\<lambda>f. (pixels_bgr f, unat (effective_duration (duration f)))) frames) else None)"
proof -
  have sizes: "list_all (\<lambda>i. is_ok (rgb_loader frames fl i)) [0..<length frames] = rgb_sizes_ok frames fl"
    by (auto simp: rgb_sizes_ok_def rgb_loader_def Let_def list_all_iff all_set_conv_all_nth is_ok_iff)
  have "map (\<lambda>i. case rgb_loader frames fl i of Inr (px, d, _) \<Rightarrow> (px, unat (effective_duration d)))
      [0..<length frames] = map (\<lambda>f. (pixels_bgr f, unat (effective_duration (duration f)))) frames"
    if "rgb_sizes_ok frames fl"
    using that by (intro nth_equalityI) (auto simp: rgb_loader_def rgb_sizes_ok_def list_all_length Let_def)
  then show ?thesis by (simp add: frames_of_def loaded_map sizes)
qed

text \<open>When \<open>EncodeRGB888\<close> accepts its input.\<close>

definition rgb_accepted :: "rgb_frame list \<Rightarrow> rgb_config \<Rightarrow> anim_config \<Rightarrow> bool" where
  "rgb_accepted frames fmt conf \<longleftrightarrow>
     format_ok fmt \<and> frames \<noteq> [] \<and> rgb_sizes_ok frames (frame_bytes fmt)
     \<and> fits (frame_bytes fmt) (max_output_bytes conf) (length (pack (rgb_shown frames))) (length (rgb_shown frames))"

lemma encodable_rgb:
  "encodable (length frames) fmt conf (rgb_loader frames (frame_bytes fmt)) (rgb_loader frames (frame_bytes fmt)) xs ys
    \<longleftrightarrow> rgb_accepted frames fmt conf \<and> xs = rgb_shown frames \<and> ys = rgb_shown frames"
  by (auto simp: encodable_def rgb_frames_of rgb_accepted_def rgb_shown_def split: if_splits)

lemma new_anim_config_valid: "new_anim_config options = Inr conf \<Longrightarrow> valid_anim_config conf"
  using anim_options.resolve_valid [of default_anim_config options conf]
  by (auto simp: new_anim_config_def default_anim_config_def valid_anim_config_def split: sum.splits)

lemma encode_rgb888_cases:
  "case encode_rgb888 frames fmt options of
     Inr res \<Rightarrow> (\<exists>conf. new_anim_config options = Inr conf \<and> rgb_accepted frames fmt conf
       \<and> res = encoded_result fmt (rgb_shown frames) (rgb_shown frames))
   | Inl e \<Rightarrow> e \<noteq> AnimPanic \<and> (\<forall>conf. new_anim_config options = Inr conf \<longrightarrow> \<not> rgb_accepted frames fmt conf)"
proof (cases "new_anim_config options")
  case (Inl e)
  then have "e \<noteq> AnimPanic" by (auto simp: new_anim_config_def split: sum.splits)
  then show ?thesis by (simp add: encode_rgb888_def Inl)
next
  case (Inr conf)
  define load where "load = rgb_loader frames (frame_bytes fmt)"
  define load' where "load' = total_loader (length frames) load"
  have eq: "encode_rgb888 frames fmt options = encode_frames (length frames) fmt conf load' load'"
    unfolding encode_rgb888_def Inr load'_def load_def frame_bytes_def
    by (simp only: rbind_Inr Let_def, intro encode_frames_cong) (simp_all add: total_loader_def)
  have m: "0 < max_output_bytes conf" "max_output_bytes conf \<le> max_int64"
    using new_anim_config_valid [OF Inr] by (simp_all add: valid_anim_config_def)
  have ok: "loader_ok (frame_bytes fmt) load'" unfolding load'_def load_def by (rule total_rgb_loader_ok)
  have same: "frames_of load' (length frames) = frames_of load (length frames)"
    unfolding frames_of_def load'_def by (rule loader_cong(3)) (simp add: total_loader_def)
  have enc: "encodable (length frames) fmt conf load' load' xs ys
      \<longleftrightarrow> rgb_accepted frames fmt conf \<and> xs = rgb_shown frames \<and> ys = rgb_shown frames" for xs ys
    using encodable_rgb [of frames fmt conf xs ys] unfolding encodable_def same load_def .
  show ?thesis
    using encode_frames_spec [OF m ok ok, of "length frames"] unfolding eq enc
    by (auto simp: Inr split: sum.splits)
qed

text \<open>
  C1: \<open>EncodeRGB888\<close> succeeds exactly for a valid configuration and format, at least one frame,
  frames of the right size, and a layout within the limits computed without overflow; then the
  data are the header and the capped run-length packing of the images shown, the counts are the
  numbers of packed records and of images shown. It never panics.
\<close>

theorem encode_rgb888_spec:
  "case encode_rgb888 frames fmt options of
     Inr res \<Rightarrow> (\<exists>conf. new_anim_config options = Inr conf \<and> rgb_accepted frames fmt conf
       \<and> res = encoded_result fmt (rgb_shown frames) (rgb_shown frames))
   | Inl e \<Rightarrow> e \<noteq> AnimPanic
       \<and> \<not> (\<exists>conf. new_anim_config options = Inr conf \<and> rgb_accepted frames fmt conf)"
  using encode_rgb888_cases [where frames = frames and fmt = fmt and options = options]
  by (auto split: sum.splits)

section \<open>Reading an animation back\<close>

text \<open>
  A player for the files, following the format only: it reads the frame length and the record
  count from the header and repeats the image of each record for its duration. It is part of
  the specification, the repository has no decoder.
\<close>

fun play_records :: "nat \<Rightarrow> nat \<Rightarrow> bytes \<Rightarrow> bytes list option" where
  "play_records fl 0 data = (if data = [] then Some [] else None)"
| "play_records fl (Suc k) (kind # d # l0 # l1 # data) =
     (if kind = 0 \<and> unat (get_u16 [l0, l1]) = fl \<and> fl \<le> length data
      then map_option (\<lambda>xs. replicate (unat d) (take fl data) @ xs) (play_records fl k (drop fl data))
      else None)"
| "play_records fl (Suc k) data = None"

definition play :: "bytes \<Rightarrow> (nat \<times> nat \<times> nat \<times> bytes list) option" where
  "play data =
     (if length data < prologue \<or> take 8 data \<noteq> signature then None
      else case play_records (unat (get_u16 (drop 13 data))) (unat (get_u32 (drop 28 data))) (drop prologue data) of
          None \<Rightarrow> None
        | Some xs \<Rightarrow>
            if length xs = unat (get_u32 (drop 32 data))
            then Some (unat (data ! 9), unat (data ! 10), unat (data ! 12), xs) else None)"

lemma runs_ok_pack: "\<forall>px \<in> set xs. length px = fl \<Longrightarrow> runs_ok fl (pack xs)"
proof (induction xs rule: rev_induct)
  case (snoc px xs)
  then show ?case using runs_ok_add_frame [of fl "pack xs" px 1]
    by (simp add: pack_def add_frame_def)
qed (simp add: pack_def)

lemma play_records_records:
  "runs_ok fl rs \<Longrightarrow> fl < 2 ^ 16 \<Longrightarrow> play_records fl (length rs) (records fl rs) = Some (unpack rs)"
proof (induction rs)
  case Nil
  then show ?case by (simp add: unpack_def)
next
  case (Cons r rs)
  obtain d px where r: "r = (d, px)" by (cases r)
  have d: "d \<le> max_byte_value" "length px = fl" and ok: "runs_ok fl rs"
    using Cons.prems(1) by (auto simp: r runs_ok_def)
  have rec: "records fl (r # rs) = 0 # of_nat d # put_u16 (of_nat fl) @ px @ records fl rs"
    by (simp add: r records_def record_bytes_def)
  obtain a b where ab: "put_u16 (of_nat fl) = [a, b]" by (simp add: put_u16_def)
  have g: "unat (get_u16 [a, b]) = fl"
    using get_put_u16 [of "of_nat fl"] Cons.prems(2) by (simp add: ab unsigned_of_nat take_bit_eq_mod)
  have "unat (of_nat d :: byte) = d" using d by (intro unat_of_nat_byte) simp
  then show ?case
    using Cons.IH [OF ok Cons.prems(2)] g d by (simp add: rec [unfolded r] ab r unpack_def)
qed

lemma get_append:
  "2 \<le> length xs \<Longrightarrow> get_u16 (xs @ ys) = get_u16 xs" "4 \<le> length xs \<Longrightarrow> get_u32 (xs @ ys) = get_u32 xs"
proof -
  have "(xs @ ys) ! 0 = xs ! 0" if "xs \<noteq> []" using that by (cases xs) auto
  moreover have "2 \<le> length xs \<Longrightarrow> xs \<noteq> []" "4 \<le> length xs \<Longrightarrow> xs \<noteq> []" by auto
  ultimately show "2 \<le> length xs \<Longrightarrow> get_u16 (xs @ ys) = get_u16 xs"
    and "4 \<le> length xs \<Longrightarrow> get_u32 (xs @ ys) = get_u32 xs"
    by (simp_all add: get_u16_def get_u32_def nth_append_left)
qed

lemma play_header:
  assumes "k < 2 ^ 32" "s < 2 ^ 32" "fl < 2 ^ 16"
  shows "take 8 (header_bytes fmt fl k s b @ rest) = signature"
    "unat (get_u16 (drop 13 (header_bytes fmt fl k s b @ rest))) = fl"
    "unat (get_u32 (drop 28 (header_bytes fmt fl k s b @ rest))) = k"
    "unat (get_u32 (drop 32 (header_bytes fmt fl k s b @ rest))) = s"
    "(header_bytes fmt fl k s b @ rest) ! 9 = of_int (cfg_width fmt)"
    "(header_bytes fmt fl k s b @ rest) ! 10 = of_int (cfg_height fmt)"
    "(header_bytes fmt fl k s b @ rest) ! 12 = of_int (cfg_fps fmt)"
proof -
  have u: "unat (of_nat k :: u32) = k" "unat (of_nat s :: u32) = s" "unat (of_nat fl :: u16) = fl"
    using assms by (simp_all add: unsigned_of_nat take_bit_eq_mod)
  show "take 8 (header_bytes fmt fl k s b @ rest) = signature" by (simp add: header_bytes_def)
  show "unat (get_u16 (drop 13 (header_bytes fmt fl k s b @ rest))) = fl"
    unfolding header_bytes_def append_assoc by (simp add: get_append u del: of_nat_mult)
  show "unat (get_u32 (drop 28 (header_bytes fmt fl k s b @ rest))) = k"
    unfolding header_bytes_def append_assoc by (simp add: get_append u del: of_nat_mult)
  show "unat (get_u32 (drop 32 (header_bytes fmt fl k s b @ rest))) = s"
    unfolding header_bytes_def append_assoc by (simp add: get_append u del: of_nat_mult)
  show "(header_bytes fmt fl k s b @ rest) ! 9 = of_int (cfg_width fmt)"
    "(header_bytes fmt fl k s b @ rest) ! 10 = of_int (cfg_height fmt)"
    "(header_bytes fmt fl k s b @ rest) ! 12 = of_int (cfg_fps fmt)"
    by (simp_all add: header_bytes_def nth_append)
qed

lemma unat_of_int_byte: "0 \<le> w \<Longrightarrow> w \<le> 255 \<Longrightarrow> unat (of_int w :: byte) = nat w"
proof -
  assume "0 \<le> w" "w \<le> 255"
  then have "(of_int w :: byte) = of_nat (nat w)" "nat w < 256" by simp_all
  then show ?thesis using unat_of_nat_byte [of "nat w"] by simp
qed

lemma rgb_shown_sizes: "rgb_sizes_ok frames fl \<Longrightarrow> \<forall>px \<in> set (rgb_shown frames). length px = fl"
  by (auto simp: rgb_sizes_ok_def rgb_shown_def shown_of_def list_all_iff)

lemma play_encoded:
  assumes acc: "rgb_accepted frames fmt conf"
  shows "play (res_data (encoded_result fmt (rgb_shown frames) (rgb_shown frames))) =
    Some (nat (cfg_width fmt), nat (cfg_height fmt), nat (cfg_fps (default_fps fmt)), rgb_shown frames)"
proof -
  define xs fl where "xs = rgb_shown frames" and "fl = frame_bytes fmt"
  have fmt: "format_ok fmt" and sizes: "\<forall>px \<in> set xs. length px = fl"
    and fit: "fits fl (max_output_bytes conf) (length (pack xs)) (length xs)"
    using acc rgb_shown_sizes by (auto simp: rgb_accepted_def xs_def fl_def)
  have fl: "fl < 2 ^ 16" using fmt by (simp add: format_ok_def fl_def)
  define h where "h = header_bytes (default_fps fmt) fl (length (pack xs)) (length xs) (of_nat (fst (hd (pack xs))))"
  define rest where "rest = records fl (pack xs)"
  have data: "res_data (encoded_result fmt xs xs) = h @ rest"
    by (simp add: encoded_result_def h_def rest_def fl_def)
  have k: "length (pack xs) < 2 ^ 32" "length xs < 2 ^ 32" using fit by (simp_all add: fits_def)
  note hd = play_header [OF k fl, of "default_fps fmt" "of_nat (fst (hd (pack xs)))" rest, folded h_def]
  have len: "length h = prologue" by (simp add: h_def)
  have "play_records fl (length (pack xs)) rest = Some xs"
    using play_records_records [OF runs_ok_pack [OF sizes] fl] by (simp add: rest_def unpack_pack)
  moreover have "nat (cfg_width (default_fps fmt)) = nat (cfg_width fmt)"
    "nat (cfg_height (default_fps fmt)) = nat (cfg_height fmt)" by (simp_all add: default_fps_def)
  moreover have "unat (of_int (cfg_width (default_fps fmt)) :: byte) = nat (cfg_width (default_fps fmt))"
    "unat (of_int (cfg_height (default_fps fmt)) :: byte) = nat (cfg_height (default_fps fmt))"
    "unat (of_int (cfg_fps (default_fps fmt)) :: byte) = nat (cfg_fps (default_fps fmt))"
    using fmt by (intro unat_of_int_byte; simp add: format_ok_def default_fps_def DefaultFPS_def)+
  ultimately show ?thesis
    using hd len unfolding xs_def [symmetric] data by (simp add: play_def)
qed

lemma play_rgb888:
  assumes "encode_rgb888 frames fmt options = Inr res"
  shows "play (res_data res) =
    Some (nat (cfg_width fmt), nat (cfg_height fmt), nat (cfg_fps (default_fps fmt)),
      concat (map (\<lambda>f. replicate (unat (effective_duration (duration f))) (pixels_bgr f)) frames))"
proof -
  from encode_rgb888_cases [where frames = frames and fmt = fmt and options = options] assms obtain conf where
    acc: "rgb_accepted frames fmt conf" and res: "res = encoded_result fmt (rgb_shown frames) (rgb_shown frames)" by auto
  have shown: "rgb_shown frames =
      concat (map (\<lambda>f. replicate (unat (effective_duration (duration f))) (pixels_bgr f)) frames)"
    by (simp add: rgb_shown_def shown_of_def comp_def)
  show ?thesis unfolding res shown [symmetric] by (rule play_encoded [OF acc])
qed

text \<open>
  C2: round trip: a player that follows the format reads from the data of every successful
  \<open>EncodeRGB888\<close> the width, height and rate asked for, and exactly the images of the frames, each
  repeated for its effective duration (0 counts as 1).
\<close>

theorem encode_rgb888_roundtrip:
  assumes "encode_rgb888 frames fmt options = Inr res"
  shows "play (res_data res) =
    Some (nat (cfg_width fmt), nat (cfg_height fmt), nat (cfg_fps (default_fps fmt)),
      concat (map (\<lambda>f. replicate (unat (effective_duration (duration f))) (pixels_bgr f)) frames))"
  using assms by (rule play_rgb888)

lemma replicate_two: "replicate 2 x = [x, x]"
  by (simp add: numeral_2_eq_2)

lemma encode_rgb888_sample:
  "\<exists>res. encode_rgb888 [\<lparr>pixels_bgr = [1, 2, 3], duration = 2\<rparr>, \<lparr>pixels_bgr = [1, 2, 3], duration = 0\<rparr>]
     \<lparr>cfg_width = 1, cfg_height = 1, cfg_fps = 0\<rparr> [] = Inr res"
proof -
  let ?fs = "[\<lparr>pixels_bgr = [1, 2, 3], duration = 2\<rparr>, \<lparr>pixels_bgr = [1, 2, 3], duration = 0\<rparr>]"
  let ?fmt = "\<lparr>cfg_width = 1, cfg_height = 1, cfg_fps = 0\<rparr>"
  have shown: "rgb_shown ?fs = [[1, 2, 3], [1, 2, 3], [1, 2, 3]]"
    by (simp add: rgb_shown_def shown_of_def effective_duration_def replicate_two)
  have "pack (rgb_shown ?fs) = [(3, [1, 2, 3])]"
    unfolding shown by (simp add: pack_def add_shown_def)
  moreover have "new_anim_config [] = Inr default_anim_config" by (simp add: new_anim_config_def)
  ultimately have "rgb_accepted ?fs ?fmt default_anim_config"
    by (simp add: rgb_accepted_def shown format_ok_def frame_bytes_def rgb_sizes_ok_def fits_def
        prologue_def headerLength_def default_anim_config_def)
  with encode_rgb888_cases [where frames = ?fs and fmt = ?fmt and options = "[]"] show ?thesis
    by (cases "encode_rgb888 ?fs ?fmt []") (auto simp: new_anim_config_def)
qed

theorem encode_rgb888_roundtrip_witness:
  "\<exists>res. encode_rgb888 [\<lparr>pixels_bgr = [1, 2, 3], duration = 2\<rparr>, \<lparr>pixels_bgr = [1, 2, 3], duration = 0\<rparr>]
     \<lparr>cfg_width = 1, cfg_height = 1, cfg_fps = 0\<rparr> [] = Inr res
   \<and> play (res_data res) = Some (1, 1, 30, [[1, 2, 3], [1, 2, 3], [1, 2, 3]])"
proof -
  obtain res where "encode_rgb888 [\<lparr>pixels_bgr = [1, 2, 3], duration = 2\<rparr>, \<lparr>pixels_bgr = [1, 2, 3], duration = 0\<rparr>]
     \<lparr>cfg_width = 1, cfg_height = 1, cfg_fps = 0\<rparr> [] = Inr res"
    using encode_rgb888_sample by blast
  from this encode_rgb888_roundtrip [OF this] show ?thesis
    by (simp add: effective_duration_def default_fps_def DefaultFPS_def replicate_two)
qed

text \<open>The packing is optimal: no other cutting into records shows the same images with fewer records.\<close>

lemma length_add_frame_one: "1 \<le> d \<Longrightarrow> d \<le> max_byte_value \<Longrightarrow> runs_ok fl rs \<Longrightarrow> length (add_frame rs d px) \<le> Suc (length rs)"
proof (cases "rs \<noteq> [] \<and> snd (last rs) = px")
  case True
  assume d: "1 \<le> d" "d \<le> max_byte_value" and ok: "runs_ok fl rs"
  from True obtain ss l where rs: "rs = ss @ [(l, px)]" using last_runs [of rs] by auto
  with ok have "l \<le> max_byte_value" by simp
  then show ?thesis by (simp add: rs add_frame_same [OF d] Let_def)
next
  case False
  assume "1 \<le> d" "d \<le> max_byte_value"
  with False show ?thesis by (subst add_frame_new) auto
qed

lemma pack_least:
  "runs_ok fl rs \<Longrightarrow> length (pack (unpack rs)) \<le> length rs"
proof (induction rs rule: rev_induct)
  case Nil
  then show ?case by (simp add: pack_def unpack_def)
next
  case (snoc r rs)
  obtain d px where r: "r = (d, px)" by (cases r)
  from snoc.prems r have ok: "runs_ok fl rs" "1 \<le> d" "d \<le> max_byte_value" "length px = fl" by auto
  have "\<forall>p \<in> set (unpack rs). length p = fl" using ok(1) by (auto simp: unpack_def runs_ok_def)
  then have "runs_ok fl (pack (unpack rs))" by (rule runs_ok_pack)
  from length_add_frame_one [OF ok(2,3) this, of px] snoc.IH [OF ok(1)]
  show ?case by (simp add: r pack_def add_frame_def)
qed

text \<open>
  C4: the encoding is the shortest one: every sequence of frame records with durations between 1
  and 255 that shows the same images has at least as many records as the file
  (\<open>EncodedFrameCount\<close>).
\<close>

theorem encode_rgb888_minimal:
  assumes "encode_rgb888 frames fmt options = Inr res"
    and "runs_ok (frame_bytes fmt) rs" and "unpack rs = rgb_shown frames"
  shows "res_encoded res \<le> length rs"
  using encode_rgb888_cases [where frames = frames and fmt = fmt and options = options]
    pack_least [OF assms(2)] assms(1,3)
  by (auto simp: encoded_result_def)

theorem encode_rgb888_minimal_witness:
  "\<exists>res. encode_rgb888 [\<lparr>pixels_bgr = [1, 2, 3], duration = 2\<rparr>, \<lparr>pixels_bgr = [1, 2, 3], duration = 0\<rparr>]
     \<lparr>cfg_width = 1, cfg_height = 1, cfg_fps = 0\<rparr> [] = Inr res
   \<and> res_encoded res \<le> length [(1 :: nat, [1, 2, 3] :: bytes), (2, [1, 2, 3])]"
proof -
  obtain res where res: "encode_rgb888 [\<lparr>pixels_bgr = [1, 2, 3], duration = 2\<rparr>, \<lparr>pixels_bgr = [1, 2, 3], duration = 0\<rparr>]
     \<lparr>cfg_width = 1, cfg_height = 1, cfg_fps = 0\<rparr> [] = Inr res"
    using encode_rgb888_sample by blast
  have "runs_ok (frame_bytes \<lparr>cfg_width = 1, cfg_height = 1, cfg_fps = 0\<rparr>) [(1, [1, 2, 3]), (2, [1, 2, 3])]"
    by (simp add: runs_ok_def frame_bytes_def)
  moreover have "unpack [(1, [1, 2, 3]), (2, [1, 2, 3])] = rgb_shown
      [\<lparr>pixels_bgr = [1, 2, 3], duration = 2\<rparr>, \<lparr>pixels_bgr = [1, 2, 3], duration = 0\<rparr>]"
    by (simp add: unpack_def rgb_shown_def shown_of_def effective_duration_def replicate_two)
  ultimately show ?thesis using res encode_rgb888_minimal [OF res] by blast
qed

text \<open>
  sources that change between the two passes cannot make the writer panic or leave a file
  whose size disagrees with its header: either an error is returned, or the frames of the second
  pass need as many records as the header announces, and the data is the header, with the counts
  of the first pass, and the packed frames of the second.
\<close>

theorem encode_frames_changed_sources:
  assumes "valid_anim_config conf"
    and "loader_ok (frame_bytes fmt) load1" and "loader_ok (frame_bytes fmt) load2"
  shows "case encode_frames n fmt conf load1 load2 of
      Inr res \<Rightarrow> (\<exists>xs ys. encodable n fmt conf load1 load2 xs ys \<and> res = encoded_result fmt xs ys)
    | Inl e \<Rightarrow> e \<noteq> AnimPanic \<and> (\<forall>xs ys. \<not> encodable n fmt conf load1 load2 xs ys)"
  using assms by (intro encode_frames_spec) (simp_all add: valid_anim_config_def)

theorem encode_frames_changed_sources_witness:
  "\<exists>e. encode_frames 1 \<lparr>cfg_width = 1, cfg_height = 1, cfg_fps = 0\<rparr> default_anim_config
     (\<lambda>i. Inr ([1, 2, 3], 5, [])) (\<lambda>i. Inl (conv_err ''decode'' 0 [] ANoFrames)) = Inl e \<and> e \<noteq> AnimPanic"
proof -
  let ?fmt = "\<lparr>cfg_width = 1, cfg_height = 1, cfg_fps = 0\<rparr>"
  let ?l1 = "\<lambda>i :: nat. Inr ([1, 2, 3], 5, []) :: anim_fail + (bytes \<times> byte \<times> string)"
  let ?l2 = "\<lambda>i :: nat. Inl (conv_err ''decode'' 0 [] ANoFrames) :: anim_fail + (bytes \<times> byte \<times> string)"
  have "valid_anim_config default_anim_config" by (simp add: valid_anim_config_def default_anim_config_def)
  moreover have "loader_ok (frame_bytes ?fmt) ?l1" "loader_ok (frame_bytes ?fmt) ?l2"
    by (simp_all add: loader_ok_def frame_bytes_def)
  ultimately have "case encode_frames 1 ?fmt default_anim_config ?l1 ?l2 of
      Inr res \<Rightarrow> (\<exists>xs ys. encodable 1 ?fmt default_anim_config ?l1 ?l2 xs ys \<and> res = encoded_result ?fmt xs ys)
    | Inl e \<Rightarrow> e \<noteq> AnimPanic \<and> (\<forall>xs ys. \<not> encodable 1 ?fmt default_anim_config ?l1 ?l2 xs ys)"
    by (rule encode_frames_changed_sources)
  moreover have "\<not> encodable 1 ?fmt default_anim_config ?l1 ?l2 xs ys" for xs ys
    by (simp add: encodable_def frames_of_def)
  ultimately show ?thesis by (auto split: sum.splits)
qed

end
