(* ===== verification/Json.thy ===== *)
theory Json
  imports Prelude
begin

text \<open>
  JSON documents as \<open>encoding/json\<close> presents them to the sources: a value tree whose numbers
  are integer literals or other literals, and the decoding of a value into the Go types the
  sources ask for. A JSON null leaves the zero value of the target and is no error.
\<close>

datatype json =
    JNull
  | JBool bool
  | JInt int
  | JFloat string \<comment> \<open>a literal with a fraction or an exponent\<close>
  | JStr string
  | JArr "json list"
  | JObj "(string \<times> json) list"

text \<open>Into \<open>map[string]json.RawMessage\<close>: of several members with one name the last counts.\<close>

definition raw_fields :: "json \<Rightarrow> (string \<rightharpoonup> json) option" where
  "raw_fields v =
     (case v of JNull \<Rightarrow> Some Map.empty | JObj kvs \<Rightarrow> Some (map_of (rev kvs)) | _ \<Rightarrow> None)"

definition unmarshal_int :: "json \<Rightarrow> int option" where
  "unmarshal_int v =
     (case v of
        JNull \<Rightarrow> Some 0
      | JInt n \<Rightarrow> if - max_int64 - 1 \<le> n \<and> n \<le> max_int64 then Some n else None
      | _ \<Rightarrow> None)"

definition unmarshal_string :: "json \<Rightarrow> string option" where
  "unmarshal_string v = (case v of JNull \<Rightarrow> Some [] | JStr s \<Rightarrow> Some s | _ \<Rightarrow> None)"

definition unmarshal_array :: "json \<Rightarrow> json list option" where
  "unmarshal_array v = (case v of JNull \<Rightarrow> Some [] | JArr xs \<Rightarrow> Some xs | _ \<Rightarrow> None)"

lemma unmarshal_int_simps [simp]:
  "unmarshal_int JNull = Some 0" "unmarshal_int (JStr s) = None" "unmarshal_int (JArr xs) = None"
  "unmarshal_int (JBool b) = None" "unmarshal_int (JFloat f) = None" "unmarshal_int (JObj kvs) = None"
  by (simp_all add: unmarshal_int_def)

lemma unmarshal_string_simps [simp]:
  "unmarshal_string (JStr s) = Some s" "unmarshal_string JNull = Some []"
  by (simp_all add: unmarshal_string_def)

lemma raw_fields_Some: "raw_fields v = Some m \<longleftrightarrow> v = JNull \<and> m = Map.empty \<or> (\<exists>kvs. v = JObj kvs \<and> m = map_of (rev kvs))"
  by (auto simp: raw_fields_def split: json.splits)

section \<open>Decoding into structs\<close>

text \<open>
  A target takes the value a Go variable holds and a JSON value and gives what it then holds; null
  leaves a plain variable alone and sets a pointer to nil. A struct field is assigned by every
  member whose name folds to its own (\<open>fold_name\<close> is \<open>foldName\<close> of \<open>encoding/json\<close>), in order.
\<close>

type_synonym 'a json_target = "'a \<Rightarrow> json \<Rightarrow> 'a option"

definition to_int :: "int json_target" where
  "to_int x v = (if v = JNull then Some x else unmarshal_int v)"

definition to_string :: "string json_target" where
  "to_string x v = (if v = JNull then Some x else unmarshal_string v)"

definition to_pointer :: "'a \<Rightarrow> 'a json_target \<Rightarrow> 'a option json_target" where
  "to_pointer z t x v = (if v = JNull then Some None else map_option Some (t (case x of None \<Rightarrow> z | Some y \<Rightarrow> y) v))"

definition json_members :: "json \<Rightarrow> (string \<times> json) list option" where
  "json_members v = (case v of JNull \<Rightarrow> Some [] | JObj kvs \<Rightarrow> Some kvs | _ \<Rightarrow> None)"

definition struct_member :: "(string \<Rightarrow> string) \<Rightarrow> string \<Rightarrow> 'a json_target \<Rightarrow> 'a \<Rightarrow> (string \<times> json) list \<Rightarrow> 'a option" where
  "struct_member fold_name name t x kvs =
     foldl (\<lambda>acc kv. Option.bind acc (\<lambda>y. t y (snd kv))) (Some x) (filter (\<lambda>kv. fold_name (fst kv) = fold_name name) kvs)"

end
