(* ===== verification/AnimationSources.thy ===== *)
theory AnimationSources
  imports Animation Json "HOL-Library.Multiset"
begin

text \<open>
  The sources of an animation: archives (\<open>convert/animation/zip.go\<close>) and images
  (\<open>convert/animation/image.go\<close>). The ZIP, JSON and PNG parsers are parameters (\<open>codec\<close>); what is
  modelled is what the package does with their results: the scan of the archive with its size
  budget, the metadata, the contiguous frame numbers, the dimension checks, the pixel loop and
  the hand-over to the encoder.
\<close>

section \<open>File names\<close>

text \<open>\<open>filepath.Base\<close> and \<open>filepath.Ext\<close> on a Unix path.\<close>

definition strip_slashes :: "string \<Rightarrow> string" where
  "strip_slashes s = rev (dropWhile (\<lambda>c. c = CHR ''/'') (rev s))"

definition filepath_base :: "string \<Rightarrow> string" where
  "filepath_base path =
     (if path = [] then ''.''
      else let s = last (split_on (CHR ''/'') (strip_slashes path)) in if s = [] then ''/'' else s)"

definition filepath_ext :: "string \<Rightarrow> string" where
  "filepath_ext path =
     (let name = last (split_on (CHR ''/'') path)
      in if CHR ''.'' \<in> set name then CHR ''.'' # last (split_on (CHR ''.'') name) else [])"

section \<open>Bounded reads\<close>

definition anim_read_bounded :: "int \<Rightarrow> anim_cause reader \<Rightarrow> anim_cause + bytes" where
  "anim_read_bounded maximum r =
     (if maximum = max_int64 then io_read_all r
      else rbind (io_read_all (limit_reader (nat (maximum + 1)) r)) (\<lambda>data.
        if int (length data) > maximum then Inl AInputTooLarge else Inr data))"

lemma anim_read_bounded_limited:
  "maximum \<le> max_int64 \<Longrightarrow> anim_read_bounded maximum r =
    rbind (read_limited maximum r) (\<lambda>d. if maximum < max_int64 \<and> int (length d) > maximum then Inl AInputTooLarge else Inr d)"
  by (auto simp: anim_read_bounded_def read_limited_def rbind_def split: sum.splits)

interpretation anim_read: bounded_read "\<lambda>m r. if m \<le> max_int64 then anim_read_bounded m r else Inl AInputTooLarge"
proof
  fix m :: int and r :: "anim_cause reader" and d
  assume "0 \<le> m" and ok: "(if m \<le> max_int64 then anim_read_bounded m r else Inl AInputTooLarge) = Inr d"
  then show "d = rd_data r" "rd_err r = None" "m < max_int64 \<Longrightarrow> int (length d) \<le> m"
    by (auto simp: anim_read_bounded_def io_read_all_def limit_reader_def rbind_def
        split: if_splits option.splits)
qed

definition add_expanded_size :: "u64 \<Rightarrow> u64 \<Rightarrow> int \<Rightarrow> anim_cause + u64" where
  "add_expanded_size used size0 maximum =
     (let limit = of_int maximum :: u64
      in if size0 > limit - used then Inl AInputTooLarge else Inr (used + size0))"

text \<open>The budget never wraps: under a positive limit the sum of the sizes accepted so far stays within it.\<close>

lemma add_expanded_size_exact:
  assumes "0 < m" "m \<le> max_int64" and "int (unat used) \<le> m"
  shows "add_expanded_size used s m =
    (if int (unat used + unat s) \<le> m then Inr (used + s) else Inl AInputTooLarge)"
    and "int (unat used + unat s) \<le> m \<Longrightarrow> unat (used + s) = unat used + unat s"
proof -
  define k where "k = nat m"
  have k12: "(of_int m :: u64) = of_nat k" "k < 2 ^ 64" and mk: "m = int k"
    using assms(1,2) by (simp_all add: k_def)
  have "unat used \<le> k" using assms(3) unfolding mk by linarith
  note k = k12 this
  have lim: "unat (of_nat k :: u64) = k" using k(2) by (simp add: unat_of_nat_u64)
  then have "unat (of_nat k - used) = k - unat used"
    using k(3) by (simp add: unat_sub word_le_nat_alt)
  then have "s > of_nat k - used \<longleftrightarrow> k < unat used + unat s"
    using k(3) by (auto simp: word_less_nat_alt)
  then show "add_expanded_size used s m =
    (if int (unat used + unat s) \<le> m then Inr (used + s) else Inl AInputTooLarge)"
    unfolding add_expanded_size_def Let_def k(1) mk of_nat_le_iff by (auto simp: not_less)
  show "int (unat used + unat s) \<le> m \<Longrightarrow> unat (used + s) = unat used + unat s"
    using k(2) unfolding mk of_nat_le_iff by (simp add: unat_word_ariths)
qed

section \<open>Archives\<close>

record zip_entry =
  ze_name :: string
  ze_size :: u64
  ze_open :: "anim_cause + anim_cause reader"

datatype pixel_color =
    NRGBA byte byte byte byte
  | OtherColor u32 u32 u32 u32 \<comment> \<open>the alpha-premultiplied result of \<open>RGBA()\<close>\<close>

record image =
  im_min_x :: int
  im_min_y :: int
  im_max_x :: int
  im_max_y :: int
  im_at :: "int \<Rightarrow> int \<Rightarrow> pixel_color"

record codec =
  zip_reader :: "bytes \<Rightarrow> (anim_cause + zip_entry list)"
  json_parse :: "bytes \<Rightarrow> json option"
  png_config :: "bytes \<Rightarrow> (int \<times> int) option"
  png_decode :: "bytes \<Rightarrow> image option"

definition read_zip_entry :: "zip_entry \<Rightarrow> int \<Rightarrow> anim_cause + bytes" where
  "read_zip_entry file maximum = rbind (ze_open file) (anim_read_bounded maximum)"

definition parse_zip_metadata :: "codec \<Rightarrow> bytes \<Rightarrow> anim_cause + int" where
  "parse_zip_metadata lib data =
     (case Option.bind (json_parse lib data) raw_fields of
        None \<Rightarrow> Inl (AInvalidMetadata ''not a JSON object'')
      | Some members \<Rightarrow>
          (case Option.bind (members ''fps'') unmarshal_int of
             None \<Rightarrow> Inl (AInvalidMetadata ''fps must be an integer between 1 and 255'')
           | Some fps \<Rightarrow>
               if fps \<le> 0 \<or> fps > 255
               then Inl (AInvalidMetadata ''fps must be an integer between 1 and 255'')
               else (case Option.bind (members ''color_mode'') unmarshal_string of
                       None \<Rightarrow> Inl (AInvalidMetadata ''color_mode must be present'')
                     | Some colorMode \<Rightarrow>
                         if colorMode \<noteq> ''rgb888'' then Inl (AUnsupportedColorMode colorMode)
                         else (case members ''sections'' of
                                 None \<Rightarrow> Inl (AInvalidMetadata ''sections must be an array'')
                               | Some value \<Rightarrow>
                                   if value = JNull then Inl (AInvalidMetadata ''sections must be an array'')
                                   else (case unmarshal_array value of
                                           None \<Rightarrow> Inl (AInvalidMetadata ''sections must be an array'')
                                         | Some sections \<Rightarrow>
                                             if length sections \<noteq> 0 then Inl AUnsupportedSections
                                             else Inr fps)))))"

text \<open>
  The pattern \<open>^root/frame_(\d+)\.png$\<close>: the digits of a frame entry. (A root that holds U+FFFD
  would also match ill-formed bytes of a name; such names are left out here.)
\<close>

definition frame_digits :: "string \<Rightarrow> string \<Rightarrow> string option" where
  "frame_digits root name =
     (let p = root @ ''/frame_''; r = drop (length p) name; d = take (length r - 4) r
      in if has_prefix name p \<and> has_suffix r ''.png'' \<and> d \<noteq> [] \<and> list_all is_digit d then Some d else None)"

record zip_scan =
  sc_meta :: "zip_entry option"
  sc_frames :: "(nat \<times> zip_entry) list"
  sc_bytes :: u64

definition scan_entry :: "string \<Rightarrow> int \<Rightarrow> zip_entry \<Rightarrow> zip_scan \<Rightarrow> anim_fail + zip_scan" where
  "scan_entry root maximum file st =
     (if ze_name file = root @ ''/meta.json'' then
        (if sc_meta st \<noteq> None
         then Inl (conv_err ''validate'' (-1) (ze_name file) (AInvalidMetadata ''duplicate metadata entry''))
         else case add_expanded_size (sc_bytes st) (ze_size file) maximum of
                Inl err \<Rightarrow> Inl (conv_err ''read'' (-1) (ze_name file) err)
              | Inr b \<Rightarrow> Inr (st\<lparr>sc_meta := Some file, sc_bytes := b\<rparr>))
      else case frame_digits root (ze_name file) of
             None \<Rightarrow> Inr st
           | Some ds \<Rightarrow>
               let index = digits_value ds
               in if index \<ge> 2 ^ 31
                  then Inl (conv_err ''validate'' (-1) (ze_name file) (AInvalidFrame ''invalid frame index''))
                  else if map_of (sc_frames st) index \<noteq> None
                  then Inl (conv_err ''validate'' (int index) (ze_name file) (AInvalidFrame ''duplicate frame index''))
                  else case add_expanded_size (sc_bytes st) (ze_size file) maximum of
                         Inl err \<Rightarrow> Inl (conv_err ''read'' (int index) (ze_name file) err)
                       | Inr b \<Rightarrow> Inr (st\<lparr>sc_frames := (index, file) # sc_frames st, sc_bytes := b\<rparr>))"

fun scan_entries :: "string \<Rightarrow> int \<Rightarrow> zip_entry list \<Rightarrow> zip_scan \<Rightarrow> anim_fail + zip_scan" where
  "scan_entries root maximum [] st = Inr st"
| "scan_entries root maximum (file # files) st =
     rbind (scan_entry root maximum file st) (scan_entries root maximum files)"

fun check_indexes :: "(nat \<times> zip_entry) list \<Rightarrow> nat \<Rightarrow> nat list \<Rightarrow> anim_fail + unit" where
  "check_indexes frames expected [] = Inr ()"
| "check_indexes frames expected (index # rest) =
     (if index \<noteq> expected
      then Inl (conv_err ''validate'' (int index)
             (case map_of frames index of None \<Rightarrow> [] | Some file \<Rightarrow> ze_name file)
             (AInvalidFrame ''missing frame''))
      else check_indexes frames (Suc expected) rest)"

text \<open>The entry of an index: the code's map lookup followed by a field access.\<close>

definition frame_entry :: "(nat \<times> zip_entry) list \<Rightarrow> nat \<Rightarrow> anim_fail + zip_entry" where
  "frame_entry frames index = (case map_of frames index of None \<Rightarrow> Inl AnimPanic | Some file \<Rightarrow> Inr file)"

fun check_dims ::
  "codec \<Rightarrow> int \<Rightarrow> (nat \<times> zip_entry) list \<Rightarrow> nat list \<Rightarrow> int \<times> int \<Rightarrow> anim_fail + (int \<times> int)" where
  "check_dims lib maximum frames [] wh = Inr wh"
| "check_dims lib maximum frames (index # rest) wh =
     rbind (frame_entry frames index) (\<lambda>file.
       case read_zip_entry file maximum of
         Inl err \<Rightarrow> Inl (conv_err ''read'' (int index) (ze_name file) err)
       | Inr frameData \<Rightarrow>
           (case png_config lib frameData of
              None \<Rightarrow> Inl (conv_err ''decode'' (int index) (ze_name file) (AInvalidFrame ''not a PNG image''))
            | Some (w, h) \<Rightarrow>
                if w \<le> 0 \<or> h \<le> 0 \<or> w > 255 \<or> h > 255 \<or> w * h * 3 > maxFrameBytes
                then Inl (conv_err ''validate'' (int index) (ze_name file)
                       (AInvalidFrame ''dimensions cannot be represented as RGB888''))
                else if index = 0 then check_dims lib maximum frames rest (w, h)
                else if (w, h) \<noteq> wh
                then Inl (conv_err ''validate'' (int index) (ze_name file) (AInvalidFrame ''dimensions differ''))
                else check_dims lib maximum frames rest wh))"

section \<open>Images\<close>

definition nrgba_convert :: "pixel_color \<Rightarrow> byte \<times> byte \<times> byte \<times> byte" where
  "nrgba_convert c =
     (case c of
        NRGBA r g b a \<Rightarrow> (r, g, b, a)
      | OtherColor r g b a \<Rightarrow>
          if a = 0xffff then (ucast (drop_bit 8 r), ucast (drop_bit 8 g), ucast (drop_bit 8 b), 0xff)
          else if a = 0 then (0, 0, 0, 0)
          else (ucast (drop_bit 8 (r * 0xffff div a)), ucast (drop_bit 8 (g * 0xffff div a)),
                ucast (drop_bit 8 (b * 0xffff div a)), ucast (drop_bit 8 a)))"

definition bgr_of :: "pixel_color \<Rightarrow> bytes" where
  "bgr_of c = (case nrgba_convert c of (r, g, b, a) \<Rightarrow> [b, g, r])"

definition im_dx :: "image \<Rightarrow> int" where "im_dx img = im_max_x img - im_min_x img"
definition im_dy :: "image \<Rightarrow> int" where "im_dy img = im_max_y img - im_min_y img"

definition image_points :: "image \<Rightarrow> (int \<times> int) list" where
  "image_points img =
     concat (map (\<lambda>y. map (\<lambda>x. (x, y)) [im_min_x img..im_max_x img - 1]) [im_min_y img..im_max_y img - 1])"

fun fill_loop :: "image \<Rightarrow> (int \<times> int) list \<Rightarrow> nat \<Rightarrow> bytes \<Rightarrow> anim_fail + bytes" where
  "fill_loop img [] index pixels = Inr pixels"
| "fill_loop img ((x, y) # ps) index pixels =
     rbind (buf_write pixels index (bgr_of (im_at img x y))) (fill_loop img ps (index + 3))"

definition fill_image_pixels :: "bytes \<Rightarrow> image \<Rightarrow> anim_fail + bytes" where
  "fill_image_pixels pixels source = fill_loop source (image_points source) 0 pixels"

section \<open>ConvertZIP and EncodeImages\<close>

definition zip_loader :: "codec \<Rightarrow> int \<Rightarrow> (nat \<times> zip_entry) list \<Rightarrow> nat list \<Rightarrow> nat \<Rightarrow> frame_loader" where
  "zip_loader lib maximum frames indexes frameLength position =
     (if position < length indexes then
        (let index = indexes ! position
         in rbind (frame_entry frames index) (\<lambda>file.
              case read_zip_entry file maximum of
                Inl err \<Rightarrow> Inl (conv_err ''read'' (int index) (ze_name file) err)
              | Inr frameData \<Rightarrow>
                  (case png_decode lib frameData of
                     None \<Rightarrow> Inl (conv_err ''decode'' (int index) (ze_name file) (AInvalidFrame ''not a PNG image''))
                   | Some decoded \<Rightarrow>
                       rbind (fill_image_pixels (replicate frameLength 0) decoded) (\<lambda>pixels.
                         Inr (pixels, 0, ze_name file)))))
      else Inl AnimPanic)"

definition convert_entries ::
  "codec \<Rightarrow> string \<Rightarrow> anim_config \<Rightarrow> zip_entry list \<Rightarrow> anim_fail + anim_result" where
  "convert_entries lib root conf archive =
     (let maximum = max_input_bytes conf
      in rbind (scan_entries root maximum archive \<lparr>sc_meta = None, sc_frames = [], sc_bytes = 0\<rparr>) (\<lambda>st.
         case sc_meta st of
           None \<Rightarrow> Inl (conv_err ''validate'' (-1) (root @ ''/meta.json'') (AInvalidMetadata ''metadata entry is missing''))
         | Some metaFile \<Rightarrow>
             if length (sc_frames st) = 0 then Inl (conv_err ''validate'' (-1) [] ANoFrames)
             else case read_zip_entry metaFile maximum of
               Inl err \<Rightarrow> Inl (conv_err ''read'' (-1) (ze_name metaFile) err)
             | Inr metaData \<Rightarrow>
                 (case parse_zip_metadata lib metaData of
                    Inl err \<Rightarrow> Inl (conv_err ''validate'' (-1) (ze_name metaFile) err)
                  | Inr fps \<Rightarrow>
                      let frames = sc_frames st; indexes = sort (map fst frames)
                      in rbind (check_indexes frames 0 indexes) (\<lambda>_.
                         rbind (check_dims lib maximum frames indexes (0, 0)) (\<lambda>(width, height).
                           let format = \<lparr>cfg_width = width, cfg_height = height, cfg_fps = fps\<rparr>;
                               load = zip_loader lib maximum frames indexes (nat (width * height * 3))
                           in encode_frames (length indexes) format conf load load)))))"

text \<open>\<open>source\<close> is None for a nil reader; \<open>regexp.MustCompile\<close> panics on a root that is not UTF-8.\<close>

definition convert_zip ::
  "codec \<Rightarrow> anim_cause reader option \<Rightarrow> string \<Rightarrow> anim_option option list \<Rightarrow> anim_fail + anim_result" where
  "convert_zip lib source filename options =
     rbind (new_anim_config options) (\<lambda>conf.
       case source of
         None \<Rightarrow> Inl (conv_err ''read'' (-1) [] (AInvalidMetadata ''source is nil''))
       | Some reader \<Rightarrow>
           let base = filepath_base filename; extension = filepath_ext base;
               root = trim_suffix base extension
           in if map ascii_lower extension \<noteq> ''.zip''
              then Inl (conv_err ''validate'' (-1) [] (AInvalidMetadata ''filename does not have a .zip extension''))
              else if root = [] \<or> root = ''.''
              then Inl (conv_err ''validate'' (-1) [] (AInvalidMetadata ''empty root''))
              else case anim_read_bounded (max_input_bytes conf) reader of
                Inl err \<Rightarrow> Inl (conv_err ''read'' (-1) [] err)
              | Inr archiveData \<Rightarrow>
                  (case zip_reader lib archiveData of
                     Inl err \<Rightarrow> Inl (conv_err ''decode'' (-1) [] err)
                   | Inr archive \<Rightarrow>
                       if \<not> valid_utf8 root then Inl AnimPanic
                       else convert_entries lib root conf archive))"

record image_frame =
  if_image :: "image option"
  if_duration :: byte

fun check_images :: "int \<times> int \<Rightarrow> nat \<Rightarrow> image_frame list \<Rightarrow> anim_fail + unit" where
  "check_images wh index [] = Inr ()"
| "check_images wh index (f # fs) =
     (case if_image f of
        None \<Rightarrow> Inl (conv_err ''validate'' (int index) [] (AInvalidFrame ''nil image''))
      | Some img \<Rightarrow>
          if (im_dx img, im_dy img) \<noteq> wh
          then Inl (conv_err ''validate'' (int index) [] (AInvalidFrame ''dimensions differ''))
          else check_images wh (Suc index) fs)"

definition image_loader :: "image_frame list \<Rightarrow> nat \<Rightarrow> frame_loader" where
  "image_loader frames frameLength index =
     (if index < length frames then
        (case if_image (frames ! index) of
           None \<Rightarrow> Inl AnimPanic
         | Some img \<Rightarrow> rbind (fill_image_pixels (replicate frameLength 0) img) (\<lambda>pixels.
             Inr (pixels, if_duration (frames ! index), [])))
      else Inl AnimPanic)"

definition encode_images :: "image_frame list \<Rightarrow> int \<Rightarrow> anim_option option list \<Rightarrow> anim_fail + anim_result" where
  "encode_images frames fps options =
     (case frames of
        [] \<Rightarrow> Inl (conv_err ''validate'' (-1) [] ANoFrames)
      | f # _ \<Rightarrow>
          (case if_image f of
             None \<Rightarrow> Inl (conv_err ''validate'' 0 [] (AInvalidFrame ''nil image''))
           | Some img \<Rightarrow>
               let width = im_dx img; height = im_dy img
               in if width \<le> 0 \<or> height \<le> 0
                  then Inl (conv_err ''validate'' 0 [] (AInvalidFrame ''empty image''))
                  else if width > 255 \<or> height > 255 \<or> width * height * 3 > maxFrameBytes
                  then Inl (conv_err ''validate'' 0 [] (AInvalidFrame ''dimensions cannot be represented as RGB888''))
                  else rbind (check_images (width, height) 0 frames) (\<lambda>_.
                       rbind (new_anim_config options) (\<lambda>conf.
                         let format = \<lparr>cfg_width = width, cfg_height = height, cfg_fps = fps\<rparr>;
                             load = image_loader frames (nat (width * height * 3))
                         in encode_frames (length frames) format conf load load))))"

section \<open>The pixel loop\<close>

lemma length_bgr_of [simp]: "length (bgr_of c) = 3"
  by (simp add: bgr_of_def split: prod.splits)

definition image_bgr :: "image \<Rightarrow> bytes" where
  "image_bgr img = concat (map (\<lambda>(x, y). bgr_of (im_at img x y)) (image_points img))"

lemma length_image_points: "0 \<le> im_dx img \<Longrightarrow> 0 \<le> im_dy img \<Longrightarrow> length (image_points img) = nat (im_dx img * im_dy img)"
proof -
  assume "0 \<le> im_dx img" "0 \<le> im_dy img"
  have "length (image_points img) = nat (im_dy img) * nat (im_dx img)"
    by (simp add: image_points_def length_concat comp_def sum_list_triv im_dx_def im_dy_def)
  with \<open>0 \<le> im_dx img\<close> \<open>0 \<le> im_dy img\<close> show ?thesis
    by (simp add: nat_mult_distrib mult.commute)
qed

lemma fill_loop_image:
  "fill_loop img ps (length pre) (pre @ replicate (3 * length ps) 0)
    = Inr (pre @ concat (map (\<lambda>(x, y). bgr_of (im_at img x y)) ps))"
proof (induction ps arbitrary: pre)
  case Nil
  then show ?case by simp
next
  case (Cons p ps)
  obtain x y where p: "p = (x, y)" by (cases p)
  have "replicate (3 * length (p # ps)) (0 :: byte) = replicate 3 0 @ replicate (3 * length ps) 0"
    by (simp flip: replicate_add)
  then have "buf_write (pre @ replicate (3 * length (p # ps)) 0) (length pre) (bgr_of (im_at img x y))
      = Inr ((pre @ bgr_of (im_at img x y)) @ replicate (3 * length ps) 0)"
    using buf_write_middle [of "replicate 3 0" "bgr_of (im_at img x y)" "length pre" pre "replicate (3 * length ps) 0"]
    by simp
  with Cons.IH [of "pre @ bgr_of (im_at img x y)"] show ?case by (simp add: p)
qed

lemma fill_image_exact:
  assumes "0 \<le> im_dx img" "0 \<le> im_dy img" "n = nat (im_dx img * im_dy img * 3)"
  shows "fill_image_pixels (replicate n 0) img = Inr (image_bgr img)" "length (image_bgr img) = n"
proof -
  have n: "n = 3 * length (image_points img)"
    using assms by (simp add: length_image_points nat_mult_distrib)
  show "fill_image_pixels (replicate n 0) img = Inr (image_bgr img)"
    using fill_loop_image [where img = img and pre = "[]" and ps = "image_points img"] by (simp add: fill_image_pixels_def image_bgr_def n)
  have "length (image_bgr img) = sum_list (map (\<lambda>_. 3) (image_points img))"
    unfolding image_bgr_def length_concat map_map by (rule arg_cong [of _ _ sum_list]) auto
  then show "length (image_bgr img) = n" by (simp add: n sum_list_triv)
qed

section \<open>The encoder on a loader of these sources\<close>

definition loads :: "nat \<Rightarrow> nat \<Rightarrow> frame_loader \<Rightarrow> (bytes \<times> nat) list \<Rightarrow> bool" where
  "loads n fl load fs \<longleftrightarrow> length fs = n \<and>
     (\<forall>i < n. \<exists>px d entry. load i = Inr (px, d, entry) \<and> length px = fl
        \<and> fs ! i = (px, unat (effective_duration d)))"

lemma loads_frames_of: "loads n fl load fs \<Longrightarrow> frames_of load n = Some fs"
proof -
  assume l: "loads n fl load fs"
  then have ok: "list_all (\<lambda>i. is_ok (load i)) [0..<n]"
    by (fastforce simp: loads_def list_all_iff is_ok_iff)
  have "map (\<lambda>i. case load i of Inr (px, d, _) \<Rightarrow> (px, unat (effective_duration d))) [0..<n] = fs"
    using l by (intro nth_equalityI) (auto simp: loads_def split: sum.splits)
  with ok show ?thesis by (simp add: frames_of_def loaded_map)
qed

text \<open>A run of the encoder whose loader succeeds everywhere and passes the size check.\<close>

lemma encode_frames_loads:
  assumes "valid_anim_config conf" and l: "loads n (frame_bytes fmt) load fs"
  shows "case encode_frames n fmt conf load load of
      Inr res \<Rightarrow> encodable n fmt conf load load (shown_of fs) (shown_of fs)
        \<and> res = encoded_result fmt (shown_of fs) (shown_of fs)
    | Inl e \<Rightarrow> e \<noteq> AnimPanic \<and> \<not> encodable n fmt conf load load (shown_of fs) (shown_of fs)"
proof -
  define load' where "load' = total_loader n load"
  have same: "encode_frames n fmt conf load load = encode_frames n fmt conf load' load'"
    by (rule encode_frames_cong) (simp_all add: load'_def total_loader_def)
  have "loader_ok (frame_bytes fmt) load'"
    unfolding loader_ok_def
  proof
    fix i show "case load' i of Inl e \<Rightarrow> e \<noteq> AnimPanic | Inr (px, d, entry) \<Rightarrow> length px = frame_bytes fmt"
    proof (cases "i < n")
      case True
      then obtain px d entry where "load i = Inr (px, d, entry)" "length px = frame_bytes fmt"
        using l unfolding loads_def by blast
      then show ?thesis using True by (simp add: load'_def total_loader_def)
    qed (simp add: load'_def total_loader_def)
  qed
  moreover have "frames_of load' n = frames_of load n"
    unfolding frames_of_def by (rule loader_cong(3)) (simp add: load'_def total_loader_def)
  then have "encodable n fmt conf load' load' xs ys = encodable n fmt conf load load xs ys" for xs ys
    by (simp add: encodable_def)
  moreover have "encodable n fmt conf load load xs ys \<Longrightarrow> xs = shown_of fs \<and> ys = shown_of fs" for xs ys
    using loads_frames_of [OF l] by (auto simp: encodable_def)
  ultimately show ?thesis
    using encode_frames_spec [of conf fmt load' load' n] assms(1)
    by (auto simp: same valid_anim_config_def split: sum.splits)
qed

text \<open>Two loaders that yield the same frames are encoded alike.\<close>

lemma encode_frames_loads_eq:
  assumes "valid_anim_config conf" and "loads n (frame_bytes fmt) load fs" and "loads n (frame_bytes fmt) load' fs"
  shows "encode_frames n fmt conf load load = Inr res \<longleftrightarrow> encode_frames n fmt conf load' load' = Inr res"
    and "encode_frames n fmt conf load load \<noteq> Inl AnimPanic"
proof -
  have "encodable n fmt conf load load xs ys = encodable n fmt conf load' load' xs ys" for xs ys
    using loads_frames_of [OF assms(2)] loads_frames_of [OF assms(3)] by (simp add: encodable_def)
  then show "encode_frames n fmt conf load load = Inr res \<longleftrightarrow> encode_frames n fmt conf load' load' = Inr res"
    using encode_frames_loads [OF assms(1,2)] encode_frames_loads [OF assms(1,3)]
    by (auto split: sum.splits)
  show "encode_frames n fmt conf load load \<noteq> Inl AnimPanic"
    using encode_frames_loads [OF assms(1,2)] by (auto split: sum.splits)
qed

lemma loads_rgb:
  assumes "rgb_sizes_ok frames fl"
  shows "loads (length frames) fl (rgb_loader frames fl)
    (map (\<lambda>f. (pixels_bgr f, unat (effective_duration (duration f)))) frames)"
  using assms by (auto simp: loads_def rgb_loader_def rgb_sizes_ok_def list_all_length Let_def)

section \<open>EncodeImages is EncodeRGB888 of the converted pixels\<close>

definition image_frames :: "image list \<Rightarrow> byte list \<Rightarrow> rgb_frame list" where
  "image_frames imgs ds = map2 (\<lambda>img d. \<lparr>pixels_bgr = image_bgr img, duration = d\<rparr>) imgs ds"

definition same_dims :: "image list \<Rightarrow> int \<Rightarrow> int \<Rightarrow> bool" where
  "same_dims imgs w h = list_all (\<lambda>img. im_dx img = w \<and> im_dy img = h) imgs"

lemma check_images_ok:
  "check_images (w, h) k fs = Inr u \<longleftrightarrow> (\<exists>imgs. map if_image fs = map Some imgs \<and> same_dims imgs w h)"
proof (induction fs arbitrary: k)
  case (Cons f fs)
  show ?case
  proof (cases "if_image f")
    case None
    then show ?thesis by (auto simp: Cons_eq_map_conv)
  next
    case (Some img)
    then have "(\<exists>imgs. map if_image (f # fs) = map Some imgs \<and> same_dims imgs w h) \<longleftrightarrow>
        (\<exists>zs. map if_image fs = map Some zs \<and> same_dims (img # zs) w h)"
      by (auto simp: Cons_eq_map_conv)
    then show ?thesis
      using Some Cons.IH [of "Suc k"] by (cases "im_dx img = w \<and> im_dy img = h") (auto simp: same_dims_def)
  qed
qed (simp add: same_dims_def)

lemma check_images_no_panic: "check_images wh k fs \<noteq> Inl AnimPanic"
  by (induction fs arbitrary: k) (auto split: option.splits)

lemma rgb_sizes_image_frames:
  "same_dims imgs w h \<Longrightarrow> 0 \<le> w \<Longrightarrow> 0 \<le> h \<Longrightarrow> rgb_sizes_ok (image_frames imgs ds) (nat (w * h * 3))"
  unfolding rgb_sizes_ok_def image_frames_def same_dims_def list_all_iff
  by (auto simp: fill_image_exact(2) dest!: set_zip_leftD)

lemma loads_images:
  assumes "map if_image fs = map Some imgs" and "same_dims imgs w h" and "0 \<le> w" "0 \<le> h"
  shows "loads (length fs) (nat (w * h * 3)) (image_loader fs (nat (w * h * 3)))
    (map (\<lambda>f. (pixels_bgr f, unat (effective_duration (duration f)))) (image_frames imgs (map if_duration fs)))"
proof -
  have len: "length imgs = length fs" using assms(1) by (metis length_map)
  have img: "if_image (fs ! i) = Some (imgs ! i)" if "i < length fs" for i
    using assms(1) len that by (metis nth_map)
  have dim: "im_dx (imgs ! i) = w" "im_dy (imgs ! i) = h" if "i < length fs" for i
    using assms(2) len that by (simp_all add: same_dims_def list_all_length)
  have "image_loader fs (nat (w * h * 3)) i = Inr (image_bgr (imgs ! i), if_duration (fs ! i), [])"
    "length (image_bgr (imgs ! i)) = nat (w * h * 3)" if "i < length fs" for i
    using fill_image_exact [of "imgs ! i" "nat (w * h * 3)"] dim [OF that] img [OF that] that assms(3,4)
    by (simp_all add: image_loader_def)
  then show ?thesis using len by (simp add: loads_def image_frames_def)
qed

text \<open>Frames that pass the checks.\<close>

lemma encode_images_valid:
  assumes imgs: "map if_image frames = map Some imgs" "same_dims imgs w h"
    and d: "0 < w" "0 < h" "w \<le> 255" "h \<le> 255" "w * h * 3 \<le> maxFrameBytes" and ne: "frames \<noteq> []"
  shows "encode_images frames fps options = Inr res \<longleftrightarrow>
      encode_rgb888 (image_frames imgs (map if_duration frames))
        \<lparr>cfg_width = w, cfg_height = h, cfg_fps = fps\<rparr> options = Inr res" (is ?A)
    and "encode_images frames fps options \<noteq> Inl AnimPanic" (is ?B)
proof -
  define fmt where "fmt = \<lparr>cfg_width = w, cfg_height = h, cfg_fps = fps\<rparr>"
  define rgb where "rgb = image_frames imgs (map if_duration frames)"
  define load where "load = image_loader frames (nat (w * h * 3))"
  have len: "length imgs = length frames" using imgs(1) by (metis length_map)
  then have len': "length rgb = length frames" by (simp add: rgb_def image_frames_def)
  from ne imgs obtain img f fs where hd: "frames = f # fs" "if_image f = Some img" "im_dx img = w" "im_dy img = h"
    by (cases frames; cases imgs) (auto simp: same_dims_def)
  have unfold: "encode_images frames fps options = rbind (new_anim_config options) (\<lambda>conf.
      encode_frames (length frames) fmt conf load load)"
    using hd d check_images_ok [of w h 0 frames] imgs
    by (auto simp: encode_images_def Let_def fmt_def load_def)
  have fb: "frame_bytes fmt = nat (w * h * 3)" by (simp add: frame_bytes_def fmt_def)
  have l1: "loads (length frames) (frame_bytes fmt) load (map (\<lambda>f. (pixels_bgr f, unat (effective_duration (duration f)))) rgb)"
    unfolding fb load_def rgb_def using loads_images [OF imgs] d by simp
  have l2: "loads (length frames) (frame_bytes fmt) (rgb_loader rgb (frame_bytes fmt))
      (map (\<lambda>f. (pixels_bgr f, unat (effective_duration (duration f)))) rgb)"
    using loads_rgb [OF rgb_sizes_image_frames [OF imgs(2), of "map if_duration frames"]] d len'
    by (simp add: fb rgb_def)
  have rgb_unfold: "encode_rgb888 rgb fmt options = rbind (new_anim_config options) (\<lambda>conf.
      encode_frames (length frames) fmt conf (rgb_loader rgb (frame_bytes fmt)) (rgb_loader rgb (frame_bytes fmt)))"
    by (simp add: encode_rgb888_def frame_bytes_def len' Let_def)
  have "(encode_images frames fps options = Inr res \<longleftrightarrow> encode_rgb888 rgb fmt options = Inr res) \<and> ?B"
  proof (cases "new_anim_config options")
    case (Inl e)
    then have "e \<noteq> AnimPanic" by (auto simp: new_anim_config_def split: sum.splits)
    then show ?thesis by (simp add: unfold rgb_unfold Inl)
  next
    case (Inr conf)
    show ?thesis
      using encode_frames_loads_eq [OF new_anim_config_valid [OF Inr] l1 l2] by (simp add: unfold rgb_unfold Inr)
  qed
  then show ?A ?B by (simp_all add: rgb_def fmt_def)
qed

text \<open>Frames that do not are refused with an error.\<close>

lemma encode_images_invalid:
  assumes bad: "\<not> (\<exists>imgs w h. map if_image frames = map Some imgs \<and> same_dims imgs w h \<and> 0 < w \<and> 0 < h
      \<and> w \<le> 255 \<and> h \<le> 255 \<and> w * h * 3 \<le> maxFrameBytes \<and> frames \<noteq> [])"
  shows "\<exists>e. encode_images frames fps options = Inl e \<and> e \<noteq> AnimPanic"
proof (cases "frames = [] \<or> if_image (hd frames) = None")
  case True
  then show ?thesis by (cases frames) (auto simp: encode_images_def)
next
  case False
  then obtain f fs img where frames: "frames = f # fs" and Some: "if_image f = Some img" by (cases frames) auto
  define w h where "w = im_dx img" and "h = im_dy img"
  show ?thesis
  proof (cases "0 < w \<and> 0 < h \<and> w \<le> 255 \<and> h \<le> 255 \<and> w * h * 3 \<le> maxFrameBytes")
    case dims: True
    have "check_images (w, h) 0 frames \<noteq> Inr ()"
    proof
      assume "check_images (w, h) 0 frames = Inr ()"
      then obtain imgs where "map if_image frames = map Some imgs" "same_dims imgs w h"
        using check_images_ok by blast
      with dims bad frames show False by blast
    qed
    then obtain e where "check_images (w, h) 0 frames = Inl e" by (cases "check_images (w, h) 0 frames") auto
    moreover from this have "e \<noteq> AnimPanic" using check_images_no_panic [of "(w, h)" 0 frames] by auto
    ultimately show ?thesis using Some dims frames
      by (auto simp: encode_images_def Let_def w_def h_def)
  next
    case False
    then have "w \<le> 0 \<or> h \<le> 0 \<or> w > 255 \<or> h > 255 \<or> w * h * 3 > maxFrameBytes" by auto
    then show ?thesis
      unfolding encode_images_def frames list.case Some option.case Let_def w_def [symmetric] h_def [symmetric]
      by (cases "w \<le> 0 \<or> h \<le> 0") auto
  qed
qed

lemma encode_images_cases:
  "encode_images frames fps options = Inr res \<longleftrightarrow>
     (\<exists>imgs w h. map if_image frames = map Some imgs \<and> same_dims imgs w h \<and> 0 < w \<and> 0 < h
        \<and> encode_rgb888 (image_frames imgs (map if_duration frames))
            \<lparr>cfg_width = w, cfg_height = h, cfg_fps = fps\<rparr> options = Inr res)" (is "?L \<longleftrightarrow> ?R")
  and encode_images_no_panic: "encode_images frames fps options \<noteq> Inl AnimPanic" (is ?B)
proof -
  have bounds: "w \<le> 255 \<and> h \<le> 255 \<and> w * h * 3 \<le> maxFrameBytes \<and> frames \<noteq> []"
    if e: "encode_rgb888 (image_frames imgs (map if_duration frames))
      \<lparr>cfg_width = w, cfg_height = h, cfg_fps = fps\<rparr> options = Inr res" for imgs w h
  proof -
    from e encode_rgb888_cases [where frames = "image_frames imgs (map if_duration frames)" and options = options
        and fmt = "\<lparr>cfg_width = w, cfg_height = h, cfg_fps = fps\<rparr>"] obtain conf where
      "rgb_accepted (image_frames imgs (map if_duration frames)) \<lparr>cfg_width = w, cfg_height = h, cfg_fps = fps\<rparr> conf"
      by auto
    then show ?thesis
      by (auto simp: rgb_accepted_def format_ok_def frame_bytes_def maxFrameBytes_def image_frames_def nat_le_iff)
  qed
  have bwd: "?R \<Longrightarrow> ?L" using encode_images_valid(1) bounds by metis
  have "(?L \<longrightarrow> ?R) \<and> ?B"
  proof (cases "\<exists>imgs w h. map if_image frames = map Some imgs \<and> same_dims imgs w h \<and> 0 < w \<and> 0 < h
      \<and> w \<le> 255 \<and> h \<le> 255 \<and> w * h * 3 \<le> maxFrameBytes \<and> frames \<noteq> []")
    case True
    then obtain imgs w h where i: "map if_image frames = map Some imgs" "same_dims imgs w h"
      and d: "0 < w" "0 < h" "w \<le> 255" "h \<le> 255" "w * h * 3 \<le> maxFrameBytes" "frames \<noteq> []" by blast
    from encode_images_valid [OF i d] i d(1,2) show ?thesis by blast
  next
    case False
    from encode_images_invalid [OF this, of fps options] show ?thesis by auto
  qed
  with bwd show "?L \<longleftrightarrow> ?R" ?B by auto
qed

section \<open>The scan of an archive\<close>

definition frame_number :: "string \<Rightarrow> zip_entry \<Rightarrow> nat option" where
  "frame_number root f = map_option digits_value (frame_digits root (ze_name f))"

definition is_meta :: "string \<Rightarrow> zip_entry \<Rightarrow> bool" where
  "is_meta root f \<longleftrightarrow> ze_name f = root @ ''/meta.json''"

definition expanded_size :: "string \<Rightarrow> zip_entry list \<Rightarrow> nat" where
  "expanded_size root files =
     sum_list (map (\<lambda>f. if is_meta root f \<or> frame_number root f \<noteq> None then unat (ze_size f) else 0) files)"

lemma meta_no_frame: "is_meta root f \<Longrightarrow> frame_number root f = None"
  by (auto simp: is_meta_def frame_number_def frame_digits_def Let_def has_prefix_def)

definition scan_inv :: "string \<Rightarrow> int \<Rightarrow> zip_entry list \<Rightarrow> zip_scan \<Rightarrow> bool" where
  "scan_inv root m seen st \<longleftrightarrow>
     filter (is_meta root) seen = (case sc_meta st of None \<Rightarrow> [] | Some f \<Rightarrow> [f])
     \<and> rev (map snd (sc_frames st)) = filter (\<lambda>f. frame_number root f \<noteq> None) seen
     \<and> list_all (\<lambda>(i, f). frame_number root f = Some i) (sc_frames st)
     \<and> distinct (map fst (sc_frames st))
     \<and> unat (sc_bytes st) = expanded_size root seen \<and> int (expanded_size root seen) \<le> m"

lemma scan_entry_inv:
  assumes m: "0 < m" "m \<le> max_int64" and inv: "scan_inv root m seen st"
    and step: "scan_entry root m f st = Inr st'"
  shows "scan_inv root m (seen @ [f]) st'"
proof -
  have bytes: "unat (sc_bytes st) = expanded_size root seen" "int (unat (sc_bytes st)) \<le> m"
    using inv by (simp_all add: scan_inv_def)
  note add = add_expanded_size_exact [OF m bytes(2), of "ze_size f"]
  show ?thesis
  proof (cases "is_meta root f")
    case True
    with step have "sc_meta st = None" and fit: "int (unat (sc_bytes st) + unat (ze_size f)) \<le> m"
      and st': "st' = st\<lparr>sc_meta := Some f, sc_bytes := sc_bytes st + ze_size f\<rparr>"
      by (auto simp: scan_entry_def is_meta_def add(1) simp del: of_nat_add split: if_splits sum.splits)
    moreover have "expanded_size root (seen @ [f]) = expanded_size root seen + unat (ze_size f)"
      using True by (simp add: expanded_size_def)
    ultimately show ?thesis
      using inv True add(2) [OF fit] bytes meta_no_frame [OF True]
      by (simp add: scan_inv_def del: of_nat_add)
  next
    case False
    show ?thesis
    proof (cases "frame_digits root (ze_name f)")
      case None
      with False step have "st' = st" by (simp add: scan_entry_def is_meta_def)
      then show ?thesis using inv False None by (simp add: scan_inv_def expanded_size_def frame_number_def)
    next
      case (Some ds)
      define i where "i = digits_value ds"
      with False Some step have "map_of (sc_frames st) i = None"
        and fit: "int (unat (sc_bytes st) + unat (ze_size f)) \<le> m"
        and st': "st' = st\<lparr>sc_frames := (i, f) # sc_frames st, sc_bytes := sc_bytes st + ze_size f\<rparr>"
        by (auto simp: scan_entry_def is_meta_def Let_def add(1) simp del: of_nat_add split: if_splits sum.splits)
      moreover have "frame_number root f = Some i" by (simp add: frame_number_def Some i_def)
      moreover from this have "expanded_size root (seen @ [f]) = expanded_size root seen + unat (ze_size f)"
        by (simp add: expanded_size_def)
      moreover have "i \<notin> fst ` set (sc_frames st)" using \<open>map_of (sc_frames st) i = None\<close>
        by (simp add: map_of_eq_None_iff)
      ultimately show ?thesis
        using inv False add(2) [OF fit] bytes by (simp add: scan_inv_def del: of_nat_add)
    qed
  qed
qed

lemma scan_entries_inv:
  assumes m: "0 < m" "m \<le> max_int64"
  shows "scan_inv root m seen st \<Longrightarrow> scan_entries root m files st = Inr st' \<Longrightarrow> scan_inv root m (seen @ files) st'"
proof (induction files arbitrary: seen st)
  case (Cons f files)
  then obtain st1 where "scan_entry root m f st = Inr st1" "scan_entries root m files st1 = Inr st'"
    by (auto simp: rbind_eq_Inr)
  with Cons.IH [OF scan_entry_inv [OF m Cons.prems(1)]] show ?case by simp
qed simp

lemma check_indexes_ok: "check_indexes frames k idx = Inr u \<longleftrightarrow> idx = [k..<k + length idx]"
proof (induction idx arbitrary: k)
  case (Cons i idx)
  have "[k..<k + length (i # idx)] = k # [Suc k..<Suc k + length idx]" by (subst upt_rec) simp
  then show ?case using Cons [of "Suc k"] by (simp only: check_indexes.simps list.inject) auto
qed simp

definition dims_ok :: "int \<times> int \<Rightarrow> bool" where
  "dims_ok wh \<longleftrightarrow> 0 < fst wh \<and> 0 < snd wh \<and> fst wh \<le> 255 \<and> snd wh \<le> 255 \<and> fst wh * snd wh * 3 \<le> maxFrameBytes"

definition entry_config :: "codec \<Rightarrow> int \<Rightarrow> zip_entry \<Rightarrow> (int \<times> int) option" where
  "entry_config lib m file = (case read_zip_entry file m of Inl _ \<Rightarrow> None | Inr d \<Rightarrow> png_config lib d)"

definition entry_image :: "codec \<Rightarrow> int \<Rightarrow> zip_entry \<Rightarrow> image option" where
  "entry_image lib m file = (case read_zip_entry file m of Inl _ \<Rightarrow> None | Inr d \<Rightarrow> png_decode lib d)"

lemma check_dims_later:
  "check_dims lib m frames idx wh = Inr wh' \<Longrightarrow> 0 \<notin> set idx \<Longrightarrow>
    wh' = wh \<and> (\<forall>i \<in> set idx. \<exists>file. map_of frames i = Some file \<and> entry_config lib m file = Some wh)"
proof (induction idx)
  case (Cons i idx)
  then show ?case
    by (auto simp: rbind_eq_Inr frame_entry_def entry_config_def split: option.splits sum.splits if_splits)
qed simp

lemma check_dims_ok:
  assumes "check_dims lib m frames [0..<n] wh0 = Inr wh" and "0 < n"
  shows "dims_ok wh" "\<forall>i < n. \<exists>file. map_of frames i = Some file \<and> entry_config lib m file = Some wh"
proof -
  have n: "[0..<n] = 0 # [1..<n]" using assms(2) by (simp add: upt_rec)
  from assms(1) obtain zf w h where first: "map_of frames 0 = Some zf" "entry_config lib m zf = Some (w, h)"
      "dims_ok (w, h)" and rest: "check_dims lib m frames [1..<n] (w, h) = Inr wh"
    unfolding n
    by (auto simp: rbind_eq_Inr frame_entry_def entry_config_def dims_ok_def split: option.splits sum.splits if_splits)
  from check_dims_later [OF rest] have r: "wh = (w, h)"
    "\<forall>i \<in> set [1..<n]. \<exists>file. map_of frames i = Some file \<and> entry_config lib m file = Some (w, h)" by auto
  show "dims_ok wh" using first r by simp
  show "\<forall>i < n. \<exists>file. map_of frames i = Some file \<and> entry_config lib m file = Some wh"
  proof (intro allI impI)
    fix i assume "i < n"
    then have "i = 0 \<or> i \<in> set [1..<n]" by auto
    then show "\<exists>file. map_of frames i = Some file \<and> entry_config lib m file = Some wh" using first r by auto
  qed
qed

section \<open>ConvertZIP\<close>

text \<open>
  What a successful conversion has established about an archive: one metadata entry, the entries
  of the frames in the order of their numbers 0, 1, ... (\<open>files\<close>, the frame entries of the archive,
  each once), their decoded images of one size, and the expanded size within the limit.
\<close>

definition archive_frames ::
  "codec \<Rightarrow> string \<Rightarrow> int \<Rightarrow> zip_entry list \<Rightarrow> zip_entry \<Rightarrow> int \<Rightarrow> image list \<Rightarrow> int \<Rightarrow> int \<Rightarrow> bool" where
  "archive_frames lib root m archive meta fps imgs w h \<longleftrightarrow>
     filter (is_meta root) archive = [meta]
     \<and> (\<exists>data. read_zip_entry meta m = Inr data \<and> parse_zip_metadata lib data = Inr fps)
     \<and> int (expanded_size root archive) \<le> m
     \<and> (\<exists>files. mset files = mset (filter (\<lambda>f. frame_number root f \<noteq> None) archive)
          \<and> map (frame_number root) files = map Some [0..<length files]
          \<and> map (entry_image lib m) files = map Some imgs)
     \<and> imgs \<noteq> [] \<and> same_dims imgs w h \<and> dims_ok (w, h)"

text \<open>\<open>png.DecodeConfig\<close> reports the dimensions of the image that \<open>png.Decode\<close> returns.\<close>

definition png_coherent :: "codec \<Rightarrow> bool" where
  "png_coherent lib \<longleftrightarrow>
     (\<forall>data w h img. png_config lib data = Some (w, h) \<longrightarrow> png_decode lib data = Some img \<longrightarrow>
        im_dx img = w \<and> im_dy img = h)"

text \<open>The frames of a complete scan, listed by number, are the frame entries of the archive.\<close>

lemma scan_inv_files:
  assumes inv: "scan_inv root m archive st" and sorted: "sort (map fst (sc_frames st)) = [0..<length (sc_frames st)]"
  defines "files \<equiv> map (\<lambda>i. the (map_of (sc_frames st) i)) [0..<length (sc_frames st)]"
  shows "mset files = mset (filter (\<lambda>f. frame_number root f \<noteq> None) archive)"
    and "map (frame_number root) files = map Some [0..<length files]"
proof -
  define frames where "frames = sc_frames st"
  have dist: "distinct (map fst frames)" and all: "list_all (\<lambda>(i, f). frame_number root f = Some i) frames"
    and snds: "rev (map snd frames) = filter (\<lambda>f. frame_number root f \<noteq> None) archive"
    using inv by (simp_all add: scan_inv_def frames_def)
  have "mset files = image_mset (\<lambda>i. the (map_of frames i)) (mset (sort (map fst frames)))"
    unfolding files_def using sorted by (simp add: frames_def)
  also have "\<dots> = mset (map (\<lambda>i. the (map_of frames i)) (map fst frames))"
    by (simp only: mset_sort mset_map)
  also have "map (\<lambda>i. the (map_of frames i)) (map fst frames) = map snd frames"
    using dist by (auto simp: map_of_is_SomeI)
  also have "mset (map snd frames) = mset (rev (map snd frames))" by simp
  finally show "mset files = mset (filter (\<lambda>f. frame_number root f \<noteq> None) archive)" unfolding snds .
  have "frame_number root (the (map_of frames i)) = Some i" if "i < length frames" for i
  proof -
    have "i \<in> set (sort (map fst frames))" using sorted that by (simp add: frames_def)
    then obtain f where "map_of frames i = Some f" using weak_map_of_SomeI by fastforce
    then show ?thesis using all by (auto simp: list_all_iff dest: map_of_SomeD)
  qed
  then show "map (frame_number root) files = map Some [0..<length files]"
    by (simp add: files_def frames_def)
qed

lemma analyze_loop_loads:
  "analyze_loop fl m load is st lay = Inr r \<Longrightarrow> \<forall>i \<in> set is. is_ok (load i)"
proof (induction "is" arbitrary: st lay)
  case (Cons i "is")
  then obtain px d entry where l: "load i = Inr (px, d, entry)" by (auto simp: rbind_eq_Inr)
  with Cons.prems obtain lay1 where "analyze_loop fl m load is (analyze_frame px d st) lay1 = Inr r"
    by (auto simp: Let_def split: sum.splits)
  with Cons.IH l show ?case by auto
qed simp

lemma encode_frames_load_ok:
  "encode_frames n fmt conf load1 load2 = Inr res \<Longrightarrow> i < n \<Longrightarrow> is_ok (load1 i)"
  using analyze_loop_loads [of _ _ load1 "[0..<n]"]
  by (fastforce simp: encode_frames_def analyze_frames_def Let_def rbind_eq_Inr split: if_splits)

lemma zip_loader_ok:
  assumes coh: "png_coherent lib" and i: "i < n"
    and entry: "map_of frames i = Some zf" "entry_config lib m zf = Some (w, h)" and wh: "0 \<le> w" "0 \<le> h"
    and load: "is_ok (zip_loader lib m frames [0..<n] (nat (w * h * 3)) i)"
  shows "\<exists>img. entry_image lib m zf = Some img \<and> im_dx img = w \<and> im_dy img = h
    \<and> zip_loader lib m frames [0..<n] (nat (w * h * 3)) i = Inr (image_bgr img, 0, ze_name zf)
    \<and> length (image_bgr img) = nat (w * h * 3)"
proof -
  obtain d where d: "read_zip_entry zf m = Inr d" "png_config lib d = Some (w, h)"
    using entry(2) by (auto simp: entry_config_def split: sum.splits)
  have "png_decode lib d \<noteq> None"
    using load i entry(1) d by (cases "png_decode lib d") (simp_all add: zip_loader_def frame_entry_def)
  then obtain img where img: "png_decode lib d = Some img" by blast
  with coh d(2) have dims: "im_dx img = w" "im_dy img = h" unfolding png_coherent_def by blast+
  then show ?thesis
    using fill_image_exact [of img "nat (w * h * 3)"] i entry(1) d(1) img wh
    by (simp add: zip_loader_def frame_entry_def entry_image_def)
qed

lemma convert_entries_steps:
  assumes conv: "convert_entries lib root conf archive = Inr res"
  defines "m \<equiv> max_input_bytes conf"
  obtains st meta data fps w h where
    "scan_entries root m archive \<lparr>sc_meta = None, sc_frames = [], sc_bytes = 0\<rparr> = Inr st"
    "sc_meta st = Some meta" "sc_frames st \<noteq> []"
    "read_zip_entry meta m = Inr data" "parse_zip_metadata lib data = Inr fps"
    "check_indexes (sc_frames st) 0 (sort (map fst (sc_frames st))) = Inr ()"
    "check_dims lib m (sc_frames st) (sort (map fst (sc_frames st))) (0, 0) = Inr (w, h)"
    "encode_frames (length (sort (map fst (sc_frames st))))
      \<lparr>cfg_width = w, cfg_height = h, cfg_fps = fps\<rparr> conf
      (zip_loader lib m (sc_frames st) (sort (map fst (sc_frames st))) (nat (w * h * 3)))
      (zip_loader lib m (sc_frames st) (sort (map fst (sc_frames st))) (nat (w * h * 3))) = Inr res"
proof -
  note unf = convert_entries_def Let_def m_def [symmetric]
  obtain st where scan: "scan_entries root m archive \<lparr>sc_meta = None, sc_frames = [], sc_bytes = 0\<rparr> = Inr st"
    using conv unfolding unf by (auto simp: rbind_eq_Inr)
  obtain meta where meta: "sc_meta st = Some meta"
    using conv scan unfolding unf by (cases "sc_meta st") simp_all
  have ne: "sc_frames st \<noteq> []" using conv scan meta unfolding unf by auto
  obtain data where d1: "read_zip_entry meta m = Inr data"
    using conv scan meta ne unfolding unf by (cases "read_zip_entry meta m") simp_all
  obtain fps where d2: "parse_zip_metadata lib data = Inr fps"
    using conv scan meta ne d1 unfolding unf by (cases "parse_zip_metadata lib data") simp_all
  have idx: "check_indexes (sc_frames st) 0 (sort (map fst (sc_frames st))) = Inr ()"
    using conv scan meta ne d1 d2 unfolding unf by (auto simp: rbind_eq_Inr)
  from conv scan meta ne d1 d2 idx that show ?thesis unfolding unf by (auto simp: rbind_eq_Inr)
qed

lemma convert_entries_success:
  assumes coh: "png_coherent lib" and conf: "valid_anim_config conf"
    and ok: "convert_entries lib root conf archive = Inr res"
  shows "\<exists>meta fps imgs w h. archive_frames lib root (max_input_bytes conf) archive meta fps imgs w h
    \<and> (\<forall>options. new_anim_config options = Inr conf \<longrightarrow>
         encode_rgb888 (image_frames imgs (replicate (length imgs) 0))
           \<lparr>cfg_width = w, cfg_height = h, cfg_fps = fps\<rparr> options = Inr res)"
proof -
  define m where "m = max_input_bytes conf"
  have m: "0 < m" "m \<le> max_int64" using conf by (simp_all add: m_def valid_anim_config_def)
  obtain st meta data fps w h where
    scan: "scan_entries root m archive \<lparr>sc_meta = None, sc_frames = [], sc_bytes = 0\<rparr> = Inr st"
    and meta: "sc_meta st = Some meta" and ne: "sc_frames st \<noteq> []"
    and data: "read_zip_entry meta m = Inr data" "parse_zip_metadata lib data = Inr fps"
    and idx: "check_indexes (sc_frames st) 0 (sort (map fst (sc_frames st))) = Inr ()"
    and dims: "check_dims lib m (sc_frames st) (sort (map fst (sc_frames st))) (0, 0) = Inr (w, h)"
    and enc: "encode_frames (length (sort (map fst (sc_frames st))))
      \<lparr>cfg_width = w, cfg_height = h, cfg_fps = fps\<rparr> conf
      (zip_loader lib m (sc_frames st) (sort (map fst (sc_frames st))) (nat (w * h * 3)))
      (zip_loader lib m (sc_frames st) (sort (map fst (sc_frames st))) (nat (w * h * 3))) = Inr res"
    using convert_entries_steps [OF ok] unfolding m_def by blast
  define frames n where "frames = sc_frames st" and "n = length frames"
  have n: "0 < n" using ne by (simp add: n_def frames_def)
  have sorted: "sort (map fst frames) = [0..<n]"
    using idx check_indexes_ok [of frames 0 "sort (map fst frames)"] by (simp add: n_def frames_def)
  define load where "load = zip_loader lib m frames [0..<n] (nat (w * h * 3))"
  define fmt where "fmt = \<lparr>cfg_width = w, cfg_height = h, cfg_fps = fps\<rparr>"
  have enc': "encode_frames n fmt conf load load = Inr res"
    using enc unfolding frames_def [symmetric] sorted load_def fmt_def by simp
  have "scan_inv root m [] \<lparr>sc_meta = None, sc_frames = [], sc_bytes = 0\<rparr>"
    using m by (simp add: scan_inv_def expanded_size_def)
  from scan_entries_inv [OF m this scan] have inv: "scan_inv root m archive st" by simp
  from check_dims_ok [OF dims [folded frames_def, unfolded sorted] n]
  have dok: "dims_ok (w, h)"
    and ent: "\<forall>i < n. \<exists>file. map_of frames i = Some file \<and> entry_config lib m file = Some (w, h)" by simp_all
  define files where "files = map (\<lambda>i. the (map_of frames i)) [0..<n]"
  have perm: "mset files = mset (filter (\<lambda>f. frame_number root f \<noteq> None) archive)"
    and nums: "map (frame_number root) files = map Some [0..<length files]"
    using inv sorted unfolding files_def frames_def n_def by (intro scan_inv_files; simp)+
  have "\<forall>i < n. \<exists>img. entry_image lib m (files ! i) = Some img \<and> im_dx img = w \<and> im_dy img = h
    \<and> load i = Inr (image_bgr img, 0, ze_name (files ! i)) \<and> length (image_bgr img) = nat (w * h * 3)"
    using zip_loader_ok [OF coh] ent encode_frames_load_ok [OF enc'] dok
    unfolding load_def files_def dims_ok_def by fastforce
  then obtain img where img: "\<forall>i < n. entry_image lib m (files ! i) = Some (img i) \<and> im_dx (img i) = w \<and> im_dy (img i) = h
    \<and> load i = Inr (image_bgr (img i), 0, ze_name (files ! i)) \<and> length (image_bgr (img i)) = nat (w * h * 3)"
    by metis
  define imgs where "imgs = map img [0..<n]"
  have "map (entry_image lib m) files = map Some imgs"
    using img by (intro nth_equalityI) (simp_all add: files_def imgs_def)
  moreover have same: "same_dims imgs w h" using img by (auto simp: same_dims_def imgs_def list_all_iff)
  ultimately have arch: "archive_frames lib root m archive meta fps imgs w h"
    using inv meta data perm nums n dok unfolding archive_frames_def scan_inv_def
    by (auto simp: imgs_def)
  define rgb where "rgb = image_frames imgs (replicate (length imgs) 0)"
  have fb: "frame_bytes fmt = nat (w * h * 3)" by (simp add: frame_bytes_def fmt_def)
  define fs where "fs = map (\<lambda>f. (pixels_bgr f, unat (effective_duration (duration f)))) rgb"
  have len: "length rgb = n" by (simp add: rgb_def image_frames_def imgs_def)
  have "loads n (frame_bytes fmt) load fs"
    using img by (auto simp: loads_def fs_def rgb_def image_frames_def imgs_def fb)
  moreover have "loads n (frame_bytes fmt) (rgb_loader rgb (frame_bytes fmt)) fs"
    using loads_rgb [OF rgb_sizes_image_frames [OF same, of "replicate (length imgs) 0"]] dok len
    by (simp add: fb rgb_def fs_def dims_ok_def)
  ultimately have "encode_frames n fmt conf (rgb_loader rgb (frame_bytes fmt)) (rgb_loader rgb (frame_bytes fmt)) = Inr res"
    using encode_frames_loads_eq(1) [OF conf] enc' by blast
  then have "encode_rgb888 rgb fmt options = Inr res" if "new_anim_config options = Inr conf" for options
    using that by (simp add: encode_rgb888_def frame_bytes_def len)
  then show ?thesis using arch unfolding m_def rgb_def fmt_def by blast
qed

definition zip_root :: "string \<Rightarrow> string" where
  "zip_root filename = trim_suffix (filepath_base filename) (filepath_ext (filepath_base filename))"

lemma parse_zip_fps: "parse_zip_metadata lib data = Inr fps \<Longrightarrow> 0 < fps \<and> fps \<le> 255"
  by (auto simp: parse_zip_metadata_def split: option.splits if_splits)

lemma rgb_frames_replicate:
  "concat (map (\<lambda>f. replicate (unat (effective_duration (duration f))) (pixels_bgr f))
     (image_frames imgs (replicate (length imgs) 0))) = map image_bgr imgs"
  by (induction imgs) (auto simp: image_frames_def effective_duration_def)

lemma convert_zip_success:
  assumes coh: "png_coherent lib" and ok: "convert_zip lib (Some r) filename options = Inr res"
  shows "\<exists>conf archive meta fps imgs w h.
      new_anim_config options = Inr conf \<and> rd_err r = None
      \<and> zip_reader lib (rd_data r) = Inr archive
      \<and> archive_frames lib (zip_root filename) (max_input_bytes conf) archive meta fps imgs w h
      \<and> encode_rgb888 (image_frames imgs (replicate (length imgs) 0))
          \<lparr>cfg_width = w, cfg_height = h, cfg_fps = fps\<rparr> options = Inr res"
proof -
  from ok obtain conf where conf: "new_anim_config options = Inr conf"
    by (auto simp: convert_zip_def rbind_eq_Inr)
  define m where "m = max_input_bytes conf"
  have m: "0 < m" "m \<le> max_int64" using new_anim_config_valid [OF conf] by (simp_all add: m_def valid_anim_config_def)
  obtain data where read: "anim_read_bounded m r = Inr data"
    using ok conf unfolding convert_zip_def Let_def
    by (cases "anim_read_bounded m r") (auto simp: m_def split: if_splits)
  obtain archive where archive: "zip_reader lib data = Inr archive"
    using ok conf read unfolding convert_zip_def Let_def
    by (cases "zip_reader lib data") (auto simp: m_def split: if_splits)
  have conv: "convert_entries lib (zip_root filename) conf archive = Inr res"
    using ok conf read archive by (auto simp: convert_zip_def Let_def m_def zip_root_def split: if_splits)
  have "data = rd_data r" "rd_err r = None"
    using anim_read.fetch_data [of m r data] anim_read.fetch_complete [of m r data] m read by simp_all
  with convert_entries_success [OF coh new_anim_config_valid [OF conf] conv] conf archive show ?thesis
    by blast
qed

section \<open>Properties\<close>

text \<open>
  \<open>EncodeImages\<close> succeeds exactly when all images are present and have one size, and
  \<open>EncodeRGB888\<close> succeeds on their pixels in B, G, R order (converted to non-premultiplied colour,
  row by row from the minimum point of the bounds), with the same result; it never panics.
\<close>

theorem encode_images_spec:
  "encode_images frames fps options \<noteq> Inl AnimPanic \<and>
   (encode_images frames fps options = Inr res \<longleftrightarrow>
     (\<exists>imgs w h. map if_image frames = map Some imgs \<and> same_dims imgs w h \<and> 0 < w \<and> 0 < h
        \<and> encode_rgb888 (image_frames imgs (map if_duration frames))
            \<lparr>cfg_width = w, cfg_height = h, cfg_fps = fps\<rparr> options = Inr res))"
  using encode_images_cases encode_images_no_panic by blast

text \<open>
  C8: when \<open>ConvertZIP\<close> succeeds, the source was read completely, the archive has one metadata
  entry, its frame entries are numbered 0, 1, ... without gap or duplicate, all PNG images have one
  size, the declared sizes of the entries used sum up within the input limit, and the result plays
  the decoded images in the order of the frame numbers at the rate of the metadata.
\<close>

theorem convert_zip_spec:
  assumes "png_coherent lib" and "convert_zip lib (Some r) filename options = Inr res"
  shows "\<exists>conf archive meta fps imgs w h.
      new_anim_config options = Inr conf \<and> rd_err r = None
      \<and> zip_reader lib (rd_data r) = Inr archive
      \<and> archive_frames lib (zip_root filename) (max_input_bytes conf) archive meta fps imgs w h
      \<and> play (res_data res) = Some (nat w, nat h, nat fps, map image_bgr imgs)"
proof -
  from convert_zip_success [OF assms] obtain conf archive meta fps imgs w h where
    a: "new_anim_config options = Inr conf" "rd_err r = None" "zip_reader lib (rd_data r) = Inr archive"
      "archive_frames lib (zip_root filename) (max_input_bytes conf) archive meta fps imgs w h"
    and e: "encode_rgb888 (image_frames imgs (replicate (length imgs) 0))
          \<lparr>cfg_width = w, cfg_height = h, cfg_fps = fps\<rparr> options = Inr res" by blast
  have "0 < fps" using a(4) parse_zip_fps by (auto simp: archive_frames_def)
  then have "play (res_data res) = Some (nat w, nat h, nat fps, map image_bgr imgs)"
    using play_rgb888 [OF e] by (simp add: rgb_frames_replicate default_fps_def)
  with a show ?thesis by blast
qed

definition sample_image :: image where
  "sample_image = \<lparr>im_min_x = 0, im_min_y = 0, im_max_x = 1, im_max_y = 1, im_at = (\<lambda>x y. NRGBA 1 2 3 255)\<rparr>"

definition sample_entry :: "string \<Rightarrow> zip_entry" where
  "sample_entry name = \<lparr>ze_name = name, ze_size = 10, ze_open = Inr \<lparr>rd_data = [], rd_err = None\<rparr>\<rparr>"

definition sample_codec :: codec where
  "sample_codec =
     \<lparr>zip_reader = (\<lambda>_. Inr [sample_entry ''a/frame_0.png'', sample_entry ''a/meta.json'']),
      json_parse = (\<lambda>_. Some (JObj [(''fps'', JInt 10), (''color_mode'', JStr ''rgb888''), (''sections'', JArr [])])),
      png_config = (\<lambda>_. Some (1, 1)), png_decode = (\<lambda>_. Some sample_image)\<rparr>"

lemma sample_zip_entries:
  "convert_entries sample_codec ''a'' default_anim_config [sample_entry ''a/frame_0.png'', sample_entry ''a/meta.json'']
   = encode_frames 1 \<lparr>cfg_width = 1, cfg_height = 1, cfg_fps = 10\<rparr> default_anim_config
       (zip_loader sample_codec (32 * 2 ^ 20) [(0, sample_entry ''a/frame_0.png'')] [0] 3)
       (zip_loader sample_codec (32 * 2 ^ 20) [(0, sample_entry ''a/frame_0.png'')] [0] 3)"
proof -
  have "frame_digits ''a'' ''a/frame_0.png'' = Some ''0''"
    by (simp add: frame_digits_def Let_def has_prefix_def has_suffix_def char_class_defs)
  moreover have "digits_value ''0'' = 0" by (simp add: digits_value_def)
  moreover have "parse_zip_metadata sample_codec d = Inr 10" for d
    by (simp add: parse_zip_metadata_def sample_codec_def raw_fields_def unmarshal_int_def unmarshal_array_def)
  moreover have "read_zip_entry (sample_entry name) (32 * 2 ^ 20) = Inr []" for name
    by (simp add: read_zip_entry_def sample_entry_def anim_read_bounded_def limit_reader_def io_read_all_def)
  ultimately show ?thesis
    by (simp add: convert_entries_def Let_def scan_entry_def add_expanded_size_def sample_entry_def
        default_anim_config_def frame_entry_def maxFrameBytes_def sample_codec_def)
qed

lemma sample_zip_ok:
  "\<exists>res. convert_zip sample_codec (Some \<lparr>rd_data = [], rd_err = None\<rparr>) ''a.zip'' [] = Inr res"
proof -
  let ?fmt = "\<lparr>cfg_width = 1, cfg_height = 1, cfg_fps = 10\<rparr>"
  let ?load = "zip_loader sample_codec (32 * 2 ^ 20) [(0, sample_entry ''a/frame_0.png'')] [0] 3"
  have names: "filepath_base ''a.zip'' = ''a.zip''" "filepath_ext ''a.zip'' = ''.zip''"
    "trim_suffix ''a.zip'' ''.zip'' = ''a''" "valid_utf8 ''a''"
    by (simp_all add: filepath_base_def filepath_ext_def strip_slashes_def Let_def trim_suffix_def has_suffix_def
        valid_utf8.simps rune_len_def)
  have bgr: "image_bgr sample_image = [3, 2, 1]" "im_dx sample_image = 1" "im_dy sample_image = 1"
    by (simp_all add: image_bgr_def image_points_def sample_image_def bgr_of_def nrgba_convert_def im_dx_def im_dy_def)
  have fill: "fill_image_pixels (replicate 3 0) sample_image = Inr [3, 2, 1]"
    using fill_image_exact(1) [of sample_image 3] bgr by simp
  have load: "?load 0 = Inr ([3, 2, 1], 0, ''a/frame_0.png'')"
    by (simp add: zip_loader_def frame_entry_def read_zip_entry_def sample_entry_def anim_read_bounded_def
        limit_reader_def io_read_all_def sample_codec_def fill)
  have l: "loads 1 (frame_bytes ?fmt) ?load [([3, 2, 1], 1)]"
    using load by (simp add: loads_def frame_bytes_def effective_duration_def)
  have "pack [[3, 2, 1]] = [(1, [3, 2, 1])]" by (simp add: pack_def add_shown_def)
  then have "encodable 1 ?fmt default_anim_config ?load ?load (shown_of [([3, 2, 1], 1)]) (shown_of [([3, 2, 1], 1)])"
    using loads_frames_of [OF l]
    by (simp add: encodable_def shown_of_def format_ok_def frame_bytes_def fits_def prologue_def headerLength_def
        default_anim_config_def)
  moreover have "valid_anim_config default_anim_config" by (simp add: valid_anim_config_def default_anim_config_def)
  ultimately have "\<exists>res. encode_frames 1 ?fmt default_anim_config ?load ?load = Inr res"
    using encode_frames_loads [OF _ l, of default_anim_config] by (auto split: sum.splits)
  then have enc: "\<exists>res. convert_entries sample_codec ''a'' default_anim_config
      [sample_entry ''a/frame_0.png'', sample_entry ''a/meta.json''] = Inr res"
    unfolding sample_zip_entries .
  have "new_anim_config [] = Inr default_anim_config" by (simp add: new_anim_config_def)
  moreover have "anim_read_bounded (max_input_bytes default_anim_config) \<lparr>rd_data = [], rd_err = None\<rparr> = Inr []"
    by (simp add: anim_read_bounded_def default_anim_config_def limit_reader_def io_read_all_def)
  moreover have "zip_reader sample_codec [] = Inr [sample_entry ''a/frame_0.png'', sample_entry ''a/meta.json'']"
    by (simp add: sample_codec_def)
  moreover have "map ascii_lower ''.zip'' = ''.zip''" by (simp add: char_class_defs)
  ultimately show ?thesis using enc by (simp add: convert_zip_def Let_def names)
qed

theorem convert_zip_spec_witness:
  "\<exists>res conf archive meta fps imgs w h.
      convert_zip sample_codec (Some \<lparr>rd_data = [], rd_err = None\<rparr>) ''a.zip'' [] = Inr res
      \<and> new_anim_config [] = Inr conf \<and> zip_reader sample_codec [] = Inr archive
      \<and> archive_frames sample_codec (zip_root ''a.zip'') (max_input_bytes conf) archive meta fps imgs w h
      \<and> play (res_data res) = Some (nat w, nat h, nat fps, map image_bgr imgs)"
proof -
  obtain res where res: "convert_zip sample_codec (Some \<lparr>rd_data = [], rd_err = None\<rparr>) ''a.zip'' [] = Inr res"
    using sample_zip_ok by blast
  have "png_coherent sample_codec"
    by (simp add: png_coherent_def sample_codec_def sample_image_def im_dx_def im_dy_def)
  from convert_zip_spec [OF this res] res show ?thesis by auto
qed

end
