(* ===== verification/ConvertImage.thy ===== *)
theory ConvertImage
  imports GifScan GoFloat Frame AnimationSources
begin

text \<open>
  \<open>convert/image.go\<close>: images for the displays. Options, the bounded read, the decoding with its checks, the
  bilinear downsizing in \<open>float64\<close> and the crop. The decoders and the PNG encoder of the Go library are
  parameters.
\<close>

section \<open>Errors and options\<close>

datatype convert_cause =
    CvUnsupportedFormat | CvAnimatedImage | CvInvalidTarget | CvInvalidImage | CvInputTooLarge | CvSourceTooLarge
  | CvUnexpectedEOF
  | CvText string
  | CvBoth convert_cause convert_cause \<comment> \<open>\<open>%w: %w\<close>\<close>

record convert_error =
  ce_operation :: string
  ce_format :: string
  ce_cause :: convert_cause

definition cv_error :: "string \<Rightarrow> string \<Rightarrow> convert_cause \<Rightarrow> convert_error" where
  "cv_error operation format cause = \<lparr>ce_operation = operation, ce_format = format, ce_cause = cause\<rparr>"

fun convert_cause_text :: "convert_cause \<Rightarrow> string" where
  "convert_cause_text CvUnsupportedFormat = ''unsupported image format''"
| "convert_cause_text CvAnimatedImage = ''animated GIF input is not supported''"
| "convert_cause_text CvInvalidTarget = ''invalid BUSY Bar display target''"
| "convert_cause_text CvInvalidImage = ''invalid image''"
| "convert_cause_text CvInputTooLarge = ''image input exceeds the configured limit''"
| "convert_cause_text CvSourceTooLarge = ''source image exceeds the configured pixel limit''"
| "convert_cause_text CvUnexpectedEOF = ''unexpected EOF''"
| "convert_cause_text (CvText t) = t"
| "convert_cause_text (CvBoth a b) = convert_cause_text a @ '': '' @ convert_cause_text b"

definition convert_error_text :: "convert_error \<Rightarrow> string" where
  "convert_error_text e =
     (if ce_format e \<noteq> []
      then ''image '' @ ce_operation e @ '' failed for '' @ ce_format e @ '' input: '' @ convert_cause_text (ce_cause e)
      else ''image '' @ ce_operation e @ '' failed: '' @ convert_cause_text (ce_cause e))"

record image_config =
  ic_max_input :: int
  ic_max_pixels :: int

definition default_image_config :: image_config where
  "default_image_config = \<lparr>ic_max_input = 32 * 2 ^ 20, ic_max_pixels = 4096 * 4096\<rparr>"

datatype image_option = ImageMaxInputBytes int | ImageMaxSourcePixels int

fun apply_image_option :: "image_option \<Rightarrow> image_config \<Rightarrow> convert_cause + image_config" where
  "apply_image_option (ImageMaxInputBytes m) c =
     (if m \<le> 0 then Inl (CvText ''maximum image input size must be greater than zero'') else Inr (c\<lparr>ic_max_input := m\<rparr>))"
| "apply_image_option (ImageMaxSourcePixels m) c =
     (if m \<le> 0 then Inl (CvText ''maximum source pixel count must be greater than zero'') else Inr (c\<lparr>ic_max_pixels := m\<rparr>))"

definition valid_image_config :: "image_config \<Rightarrow> bool" where
  "valid_image_config c \<longleftrightarrow> 0 < ic_max_input c \<and> 0 < ic_max_pixels c"

fun image_option_ok :: "image_option \<Rightarrow> bool" where
  "image_option_ok (ImageMaxInputBytes m) \<longleftrightarrow> 0 < m"
| "image_option_ok (ImageMaxSourcePixels m) \<longleftrightarrow> 0 < m"

fun set_image_option :: "image_option \<Rightarrow> image_config \<Rightarrow> image_config" where
  "set_image_option (ImageMaxInputBytes m) c = c\<lparr>ic_max_input := m\<rparr>"
| "set_image_option (ImageMaxSourcePixels m) c = c\<lparr>ic_max_pixels := m\<rparr>"

interpretation image_opts: plain_options apply_image_option image_option_ok set_image_option valid_image_config
proof
  show "apply_image_option op c = Inr c' \<longleftrightarrow> image_option_ok op \<and> c' = set_image_option op c" for op c c'
    by (cases op) auto
  show "valid_image_config c \<Longrightarrow> image_option_ok op \<Longrightarrow> valid_image_config (set_image_option op c)" for op c
    by (cases op) (simp_all add: valid_image_config_def)
qed

lemma default_image_valid [simp]: "valid_image_config default_image_config"
  by (simp add: valid_image_config_def default_image_config_def)

definition target_dimensions :: "string \<Rightarrow> convert_cause + int \<times> int" where
  "target_dimensions target =
     (if target = ''front'' then Inr (int FrontWidth, int FrontHeight)
      else if target = ''back'' then Inr (int BackWidth, int BackHeight)
      else Inl CvInvalidTarget)"

section \<open>Reading and decoding\<close>

definition read_picture :: "int \<Rightarrow> convert_cause reader \<Rightarrow> convert_error + bytes" where
  "read_picture maximum source =
     (case read_limited maximum source of
        Inl e \<Rightarrow> Inl (cv_error ''read'' [] (CvBoth CvInvalidImage e))
      | Inr data \<Rightarrow> if int (length data) > maximum then Inl (cv_error ''read'' [] CvInputTooLarge) else Inr data)"

interpretation picture_read: bounded_read read_picture
proof
  fix m :: int and r :: "convert_cause reader" and d
  assume "0 \<le> m" and ok: "read_picture m r = Inr d"
  then show "d = rd_data r" "rd_err r = None" "m < max_int64 \<Longrightarrow> int (length d) \<le> m"
    using read_limited_Inr [of m r d] by (auto simp: read_picture_def split: sum.splits if_splits)
qed

record picture_codec =
  pd_config :: "bytes \<Rightarrow> convert_cause + int \<times> int \<times> string" \<comment> \<open>\<open>image.DecodeConfig\<close>\<close>
  pd_decode :: "bytes \<Rightarrow> convert_cause + image" \<comment> \<open>\<open>image.Decode\<close>\<close>
  pd_gif :: "bytes \<Rightarrow> convert_cause + image" \<comment> \<open>\<open>gif.Decode\<close>\<close>

fun gif_cause :: "gif_fail \<Rightarrow> convert_cause" where
  "gif_cause GifInvalid = CvInvalidImage"
| "gif_cause GifUnexpectedEOF = CvUnexpectedEOF"
| "gif_cause GifPanic = CvText ''panic''"

definition decode_image :: "picture_codec \<Rightarrow> bytes \<Rightarrow> int \<Rightarrow> convert_error + image \<times> string" where
  "decode_image lib data maxSourcePixels =
     (case pd_config lib data of
        Inl e \<Rightarrow> Inl (cv_error ''decode'' [] (CvBoth CvUnsupportedFormat e))
      | Inr (width, height, format) \<Rightarrow>
          if width \<le> 0 \<or> height \<le> 0 then Inl (cv_error ''decode'' format CvInvalidImage)
          else if width > maxSourcePixels div height then Inl (cv_error ''decode'' format CvSourceTooLarge)
          else if format = ''png'' \<or> format = ''jpeg'' then
            (case pd_decode lib data of
               Inl e \<Rightarrow> Inl (cv_error ''decode'' format (CvBoth CvInvalidImage e))
             | Inr img \<Rightarrow> Inr (img, format))
          else if format = ''gif'' then
            (case gif_frame_count data of
               Inl e \<Rightarrow> Inl (cv_error ''decode'' format (CvBoth CvInvalidImage (gif_cause e)))
             | Inr frames \<Rightarrow>
                 if frames \<noteq> 1 then Inl (cv_error ''decode'' format CvAnimatedImage)
                 else (case pd_gif lib data of
                   Inl e \<Rightarrow> Inl (cv_error ''decode'' format (CvBoth CvInvalidImage e))
                 | Inr img \<Rightarrow> Inr (img, format)))
          else Inl (cv_error ''decode'' format CvUnsupportedFormat))"

section \<open>Scaling and cropping\<close>

type_synonym nrgba = "byte \<times> byte \<times> byte \<times> byte"

text \<open>An \<open>image.NRGBA\<close> at the origin, by rows; \<open>NRGBAAt\<close> outside of it is the zero color.\<close>

record raster =
  ra_width :: int
  ra_height :: int
  ra_pixels :: "nrgba list list"

definition raster_of :: "int \<Rightarrow> int \<Rightarrow> (int \<Rightarrow> int \<Rightarrow> nrgba) \<Rightarrow> raster" where
  "raster_of width height f =
     \<lparr>ra_width = width, ra_height = height,
      ra_pixels = map (\<lambda>y. map (\<lambda>x. f (int x) (int y)) [0..<nat width]) [0..<nat height]\<rparr>"

definition nrgba_at :: "raster \<Rightarrow> int \<Rightarrow> int \<Rightarrow> nrgba" where
  "nrgba_at r x y =
     (if 0 \<le> x \<and> x < ra_width r \<and> 0 \<le> y \<and> y < ra_height r then ra_pixels r ! nat y ! nat x else (0, 0, 0, 0))"

definition clamp_int :: "int \<Rightarrow> int \<Rightarrow> int \<Rightarrow> int" where
  "clamp_int value minimum maximum = min (max value minimum) maximum"

text \<open>\<open>(float64(y)+0.5)*float64(sourceHeight)/float64(height) - 0.5\<close>.\<close>

definition source_position :: "int \<Rightarrow> int \<Rightarrow> int \<Rightarrow> rat" where
  "source_position y sourceHeight height =
     fl (fl (fl (fl (fl (of_int y) + 1 / 2) * fl (of_int sourceHeight)) / fl (of_int height)) - 1 / 2)"

definition channel :: "rat \<Rightarrow> rat \<Rightarrow> byte \<Rightarrow> byte \<Rightarrow> byte \<Rightarrow> byte \<Rightarrow> byte" where
  "channel xWeight yWeight v00 v10 v01 v11 =
     (let mix = \<lambda>a b w. fl (fl (a * fl (1 - w)) + fl (b * w));
          top = mix (of_nat (unat v00)) (of_nat (unat v10)) xWeight;
          bottom = mix (of_nat (unat v01)) (of_nat (unat v11)) xWeight
      in of_int (math_round (mix top bottom yWeight)))"

fun interpolate :: "nrgba \<Rightarrow> nrgba \<Rightarrow> nrgba \<Rightarrow> nrgba \<Rightarrow> rat \<Rightarrow> rat \<Rightarrow> nrgba" where
  "interpolate (r00, g00, b00, a00) (r10, g10, b10, a10) (r01, g01, b01, a01) (r11, g11, b11, a11) xWeight yWeight =
     (channel xWeight yWeight r00 r10 r01 r11, channel xWeight yWeight g00 g10 g01 g11,
      channel xWeight yWeight b00 b10 b01 b11, channel xWeight yWeight a00 a10 a01 a11)"

definition bilinear_pixel :: "image \<Rightarrow> int \<Rightarrow> int \<Rightarrow> int \<Rightarrow> int \<Rightarrow> nrgba" where
  "bilinear_pixel source width height x y =
     (let sourceWidth = im_dx source; sourceHeight = im_dy source;
          sourceY = source_position y sourceHeight height;
          y0 = clamp_int \<lfloor>sourceY\<rfloor> 0 (sourceHeight - 1); y1 = clamp_int (y0 + 1) 0 (sourceHeight - 1);
          yWeight = fl (sourceY - of_int \<lfloor>sourceY\<rfloor>);
          sourceX = source_position x sourceWidth width;
          x0 = clamp_int \<lfloor>sourceX\<rfloor> 0 (sourceWidth - 1); x1 = clamp_int (x0 + 1) 0 (sourceWidth - 1);
          xWeight = fl (sourceX - of_int \<lfloor>sourceX\<rfloor>);
          pick = \<lambda>x y. nrgba_convert (im_at source (im_min_x source + x) (im_min_y source + y))
      in interpolate (pick x0 y0) (pick x1 y0) (pick x0 y1) (pick x1 y1) xWeight yWeight)"

definition bilinear_scale :: "image \<Rightarrow> int \<Rightarrow> int \<Rightarrow> raster" where
  "bilinear_scale source width height = raster_of width height (bilinear_pixel source width height)"

definition picture_scale :: "int \<Rightarrow> int \<Rightarrow> int \<Rightarrow> int \<Rightarrow> rat" where
  "picture_scale maximumWidth maximumHeight width height =
     (let scale = max (fl (fl (of_int maximumWidth) / fl (of_int width))) (fl (fl (of_int maximumHeight) / fl (of_int height)))
      in if 1 < scale then 1 else scale)"

definition scaled_length :: "int \<Rightarrow> rat \<Rightarrow> int" where
  "scaled_length n scale = max 1 (math_round (fl (fl (of_int n) * scale)))"

definition resize_and_crop :: "image \<Rightarrow> int \<Rightarrow> int \<Rightarrow> convert_cause + raster" where
  "resize_and_crop source maximumWidth maximumHeight =
     (let width = im_dx source; height = im_dy source
      in if width \<le> 0 \<or> height \<le> 0 then Inl CvInvalidImage
         else
           let scale = picture_scale maximumWidth maximumHeight width height;
               scaledWidth = scaled_length width scale; scaledHeight = scaled_length height scale;
               scaled = bilinear_scale source scaledWidth scaledHeight;
               cropWidth = min scaledWidth maximumWidth; cropHeight = min scaledHeight maximumHeight;
               startX = (scaledWidth - cropWidth) div 2; startY = (scaledHeight - cropHeight) div 2
           in Inr (raster_of cropWidth cropHeight (\<lambda>x y. nrgba_at scaled (startX + x) (startY + y))))"

section \<open>Image\<close>

record image_result =
  ir_data :: bytes
  ir_width :: int
  ir_height :: int
  ir_format :: string
  ir_source_format :: string

definition convert_image ::
  "picture_codec \<Rightarrow> (raster \<Rightarrow> convert_cause + bytes) \<Rightarrow> convert_cause reader option \<Rightarrow> string \<Rightarrow> image_option option list
    \<Rightarrow> convert_error + image_result"
where
  "convert_image lib png source target options =
     (case resolve_options apply_image_option options default_image_config of
        Inl e \<Rightarrow> Inl (cv_error ''configure'' [] e)
      | Inr config \<Rightarrow>
          (case target_dimensions target of
             Inl e \<Rightarrow> Inl (cv_error ''prepare'' [] e)
           | Inr (maximumWidth, maximumHeight) \<Rightarrow>
               (case source of
                  None \<Rightarrow> Inl (cv_error ''read'' [] CvInvalidImage)
                | Some r \<Rightarrow>
                    rbind (read_picture (ic_max_input config) r) (\<lambda>data.
                    rbind (decode_image lib data (ic_max_pixels config)) (\<lambda>(decoded, sourceFormat).
                      case resize_and_crop decoded maximumWidth maximumHeight of
                        Inl e \<Rightarrow> Inl (cv_error ''prepare'' sourceFormat e)
                      | Inr prepared \<Rightarrow>
                          (case png prepared of
                             Inl e \<Rightarrow> Inl (cv_error ''encode'' sourceFormat e)
                           | Inr output \<Rightarrow>
                               Inr \<lparr>ir_data = output, ir_width = ra_width prepared, ir_height = ra_height prepared,
                                    ir_format = ''png'', ir_source_format = sourceFormat\<rparr>))))))"

text \<open>\<open>ImageFile\<close>; closing the file is deferred and its error ignored.\<close>

definition convert_image_file ::
  "(string \<Rightarrow> convert_cause + convert_cause reader) \<Rightarrow> picture_codec \<Rightarrow> (raster \<Rightarrow> convert_cause + bytes) \<Rightarrow> string \<Rightarrow> string
    \<Rightarrow> image_option option list \<Rightarrow> convert_error + image_result"
where
  "convert_image_file os_open lib png path target options =
     (case os_open path of
        Inl e \<Rightarrow> Inl (cv_error ''open'' [] e)
      | Inr r \<Rightarrow> convert_image lib png (Some r) target options)"

section \<open>The scale\<close>

lemma math_round_ge: "of_int n - 1 / 2 \<le> x \<Longrightarrow> 0 \<le> x \<Longrightarrow> n \<le> math_round x"
  by (simp add: math_round_def le_floor_iff)

lemma math_round_le: "x < of_int n + 1 / 2 \<Longrightarrow> 0 \<le> x \<Longrightarrow> math_round x \<le> n"
  by (simp add: math_round_def floor_le_iff)

lemma math_round_int: "0 \<le> n \<Longrightarrow> math_round (of_int n) = n"
  by (rule antisym) (simp_all add: math_round_ge math_round_le)

lemma fl_of_int [simp]: "0 \<le> n \<Longrightarrow> n < 2 ^ 53 \<Longrightarrow> fl (of_int n) = of_int n"
  by (simp add: fl_exact exact_int)

lemma fl_1 [simp]: "fl 1 = 1"
  using fl_of_int [of 1] by simp

lemma exact_1 [simp]: "exact 1"
  using exact_int [of 1] by simp

lemma ratio_ge_1: "0 < n \<Longrightarrow> n \<le> m \<Longrightarrow> 1 \<le> fl (of_int m / of_int n)"
  by (rule fl_ge) simp_all

lemma picture_scale_1:
  assumes "0 < w" "w < 2 ^ 53" "0 < h" "h < 2 ^ 53" "0 < mw" "mw < 2 ^ 53" "0 < mh" "mh < 2 ^ 53"
    and "w \<le> mw \<or> h \<le> mh"
  shows "picture_scale mw mh w h = 1"
proof -
  have "1 \<le> max (fl (of_int mw / of_int w)) (fl (of_int mh / of_int h))"
    using assms ratio_ge_1 by (auto simp: le_max_iff_disj)
  then show ?thesis using assms by (simp add: picture_scale_def Let_def)
qed

lemma picture_scale_bounds:
  assumes "0 < w" "w < 2 ^ 53" "0 < h" "h < 2 ^ 53" "0 < mw" "mw \<le> w" "0 < mh" "mh \<le> h"
  shows "fl (of_int mw / of_int w) \<le> picture_scale mw mh w h" "fl (of_int mh / of_int h) \<le> picture_scale mw mh w h"
    "0 \<le> picture_scale mw mh w h" "picture_scale mw mh w h \<le> 1"
proof -
  have "fl (of_int mw / of_int w) \<le> 1" "fl (of_int mh / of_int h) \<le> 1"
    using assms by (auto intro!: fl_le)
  moreover have "0 \<le> fl (of_int mw / of_int w)" using assms by (simp add: fl_nonneg)
  ultimately show "fl (of_int mw / of_int w) \<le> picture_scale mw mh w h" "fl (of_int mh / of_int h) \<le> picture_scale mw mh w h"
    "0 \<le> picture_scale mw mh w h" "picture_scale mw mh w h \<le> 1"
    using assms by (auto simp: picture_scale_def Let_def)
qed

lemma scaled_length_1: "0 < n \<Longrightarrow> n < 2 ^ 53 \<Longrightarrow> scaled_length n 1 = n"
  by (simp add: scaled_length_def math_round_int)

lemma scaled_length_le:
  assumes "0 < n" "n < 2 ^ 53" "0 \<le> s" "s \<le> 1"
  shows "scaled_length n s \<le> n"
proof -
  have "fl (of_int n * s) \<le> of_int n"
    using assms by (intro fl_le exact_int) (simp_all add: mult_left_le)
  moreover have "0 \<le> fl (of_int n * s)" using assms by (simp add: fl_nonneg)
  ultimately show ?thesis using assms by (simp add: scaled_length_def math_round_le)
qed

lemma scaled_length_ge:
  assumes "0 < n" "n < 2 ^ 53" "0 < m" "m \<le> n" "m \<le> 2 ^ 50" and s: "fl (of_int m / of_int n) \<le> s"
  shows "m \<le> scaled_length n s"
proof -
  let ?e = "1 / 2 ^ 53 :: rat"
  have "of_int m / of_int n * (1 - ?e) \<le> s"
    using fl_lower [of "of_int m / of_int n"] assms by simp
  then have "of_int n * (of_int m / of_int n * (1 - ?e)) \<le> of_int n * s"
    using assms by (intro mult_left_mono) simp_all
  then have a: "of_int m * (1 - ?e) \<le> of_int n * s" using assms(1) by simp
  have "0 \<le> fl (of_int m / of_int n)" using assms by (intro fl_nonneg) simp
  then have b: "0 \<le> of_int n * s" using s assms(1) by (intro mult_nonneg_nonneg) simp_all
  have "of_int m - of_int m * ?e * 2 \<le> of_int m * (1 - ?e) * (1 - ?e)"
    using assms(3) by (simp add: algebra_simps)
  also have "\<dots> \<le> of_int n * s * (1 - ?e)" using a by (intro mult_right_mono) simp_all
  also have "\<dots> \<le> fl (of_int n * s)" using fl_lower [OF b] .
  finally have "of_int m - of_int m * ?e * 2 \<le> fl (of_int n * s)" .
  moreover have "(of_int m :: rat) \<le> 2 ^ 50" using assms(5) by (metis of_int_le_iff of_int_numeral of_int_power)
  then have "of_int m * ?e * 2 \<le> 1 / 2" by simp
  ultimately have "of_int m - 1 / 2 \<le> fl (of_int n * s)" by linarith
  then show ?thesis using assms b by (simp add: scaled_length_def math_round_ge fl_nonneg le_max_iff_disj)
qed

lemma scaled_min:
  assumes "0 < w" "w < 2 ^ 53" "0 < h" "h < 2 ^ 53" "0 < mw" "mw \<le> 2 ^ 50" "0 < mh" "mh \<le> 2 ^ 50"
  defines "s \<equiv> picture_scale mw mh w h"
  shows "min (scaled_length w s) mw = min w mw" "min (scaled_length h s) mh = min h mh"
    "0 < scaled_length w s" "0 < scaled_length h s" "scaled_length w s \<le> w" "scaled_length h s \<le> h"
proof -
  have *: "min (scaled_length w s) mw = min w mw \<and> min (scaled_length h s) mh = min h mh
      \<and> scaled_length w s \<le> w \<and> scaled_length h s \<le> h"
  proof (cases "w \<le> mw \<or> h \<le> mh")
    case True
    then have "s = 1" unfolding s_def using assms by (intro picture_scale_1) simp_all
    then show ?thesis using assms by (simp add: scaled_length_1)
  next
    case False
    then have b: "fl (of_int mw / of_int w) \<le> s" "fl (of_int mh / of_int h) \<le> s" "0 \<le> s" "s \<le> 1"
      unfolding s_def using picture_scale_bounds [of w h mw mh] assms by simp_all
    have "mw \<le> scaled_length w s" "mh \<le> scaled_length h s"
      using b False assms by (auto intro: scaled_length_ge)
    then show ?thesis using b False assms by (auto simp: scaled_length_le min_def)
  qed
  then show "min (scaled_length w s) mw = min w mw" "min (scaled_length h s) mh = min h mh"
    "scaled_length w s \<le> w" "scaled_length h s \<le> h" by simp_all
  show "0 < scaled_length w s" "0 < scaled_length h s" by (simp_all add: scaled_length_def)
qed

section \<open>Pixels\<close>

lemma raster_of_simps [simp]: "ra_width (raster_of w h f) = w" "ra_height (raster_of w h f) = h"
  by (simp_all add: raster_of_def)

lemma nrgba_at_raster:
  "0 \<le> x \<Longrightarrow> x < w \<Longrightarrow> 0 \<le> y \<Longrightarrow> y < h \<Longrightarrow> nrgba_at (raster_of w h f) x y = f x y"
  by (simp add: nrgba_at_def raster_of_def)

lemma source_position_same:
  assumes "0 \<le> y" "y < n" "n \<le> 2 ^ 26"
  shows "source_position y n n = of_int y"
proof -
  let ?q = "of_int (2 * y + 1) / 2 :: rat"
  have q: "of_int y + 1 / 2 = ?q" by simp
  have e: "exact ?q" using assms by (intro exact_half) simp
  have "(2 * y + 1) * n < 2 * n * n" using assms by (intro mult_strict_right_mono) simp_all
  also have "\<dots> \<le> 2 * 2 ^ 26 * 2 ^ 26" using assms by (intro mult_mono) simp_all
  finally have m: "\<bar>(2 * y + 1) * n\<bar> < 2 ^ 53" using assms by simp
  have "?q * of_int n = (of_int ((2 * y + 1) * n) / 2 :: rat)" by simp
  then have b: "fl (?q * of_int n) = ?q * of_int n" using exact_half [OF m] by (simp only: fl_exact)
  have c: "?q * of_int n / of_int n = ?q" using assms by simp
  have d: "?q - 1 / 2 = of_int y" by (simp add: add_divide_distrib)
  have f: "fl (of_int y) = of_int y" "fl (of_int n) = of_int n" using assms by simp_all
  show ?thesis unfolding source_position_def f q fl_exact [OF e] b c d by (rule refl)
qed

lemma fl_byte [simp]: "fl (unsigned (v :: byte)) = unsigned v"
proof -
  have "uint v < 2 ^ 53" using uint_lt2p [of v] by simp
  then have "fl (of_int (uint v)) = of_int (uint v)" by (intro fl_of_int) simp_all
  then show ?thesis by simp
qed

lemma math_round_byte [simp]: "math_round (unsigned (v :: byte)) = uint v"
  using math_round_int [of "uint v"] by simp

lemma channel_corner: "channel 0 0 v00 v10 v01 v11 = v00"
  by (simp add: channel_def Let_def)

lemma interpolate_corner: "interpolate c00 c10 c01 c11 0 0 = c00"
  by (cases c00; cases c10; cases c01; cases c11) (simp add: channel_corner)

lemma bilinear_same:
  assumes "0 \<le> x" "x < im_dx img" "im_dx img \<le> 2 ^ 26" "0 \<le> y" "y < im_dy img" "im_dy img \<le> 2 ^ 26"
  shows "bilinear_pixel img (im_dx img) (im_dy img) x y = nrgba_convert (im_at img (im_min_x img + x) (im_min_y img + y))"
  using assms by (simp add: bilinear_pixel_def source_position_same interpolate_corner clamp_int_def Let_def)

section \<open>The range of the colors\<close>

definition mix :: "rat \<Rightarrow> rat \<Rightarrow> rat \<Rightarrow> rat" where
  "mix a b w = fl (fl (a * fl (1 - w)) + fl (b * w))"

lemma weighted_bounds:
  fixes a b w :: rat
  assumes "L \<le> a" "a \<le> H" "L \<le> b" "b \<le> H" "0 \<le> w" "w \<le> 1"
  shows "L \<le> a * (1 - w) + b * w" "a * (1 - w) + b * w \<le> H"
proof -
  have "L * (1 - w) + L * w \<le> a * (1 - w) + b * w" "a * (1 - w) + b * w \<le> H * (1 - w) + H * w"
    using assms by (intro add_mono mult_right_mono; simp)+
  then show "L \<le> a * (1 - w) + b * w" "a * (1 - w) + b * w \<le> H" by (simp_all add: right_diff_distrib)
qed

lemma mix_bounds:
  assumes "L \<le> a" "a \<le> H" "L \<le> b" "b \<le> H" "0 \<le> w" "w \<le> 1" "0 \<le> a" "0 \<le> b" "H \<le> 257"
  shows "L - 1 / 8 \<le> mix a b w" "mix a b w \<le> H + 1 / 8" "0 \<le> mix a b w"
proof -
  let ?e = "1 / 2 ^ 53 :: rat"
  define u where "u = fl (1 - w)"
  have u: "\<bar>u - (1 - w)\<bar> \<le> ?e" "0 \<le> u" "u \<le> 1"
    using fl_error [of "1 - w"] assms fl_nonneg [of "1 - w"] fl_le [of "1 - w" 1] by (simp_all add: u_def)
  have a: "a \<le> 257" "b \<le> 257" using assms by simp_all
  have au: "0 \<le> a * u" "a * u \<le> 257" "0 \<le> b * w" "b * w \<le> 257"
    using a u assms mult_mono [of a 257 u 1] mult_mono [of b 257 w 1] by simp_all
  have "\<bar>a * u - a * (1 - w)\<bar> \<le> 257 * ?e"
  proof -
    have "\<bar>a * u - a * (1 - w)\<bar> = a * \<bar>u - (1 - w)\<bar>" using assms(7) by (simp add: right_diff_distrib [symmetric] abs_mult)
    also have "\<dots> \<le> 257 * ?e" using a u(1) assms(7) by (intro mult_mono) simp_all
    finally show ?thesis .
  qed
  moreover have "\<bar>fl (a * u) - a * u\<bar> \<le> 257 * ?e" "\<bar>fl (b * w) - b * w\<bar> \<le> 257 * ?e"
    using fl_error [OF au(1)] fl_error [OF au(3)] au by simp_all
  ultimately have q: "\<bar>fl (a * u) + fl (b * w) - (a * (1 - w) + b * w)\<bar> \<le> 771 * ?e" by linarith
  have n: "0 \<le> fl (a * u) + fl (b * w)" using au by (simp add: fl_nonneg)
  have s: "L \<le> a * (1 - w) + b * w" "a * (1 - w) + b * w \<le> H" using weighted_bounds assms by simp_all
  have "771 * ?e \<le> 1" by simp
  then have h: "fl (a * u) + fl (b * w) \<le> 258" using q s assms(9) by linarith
  have "\<bar>fl (fl (a * u) + fl (b * w)) - (fl (a * u) + fl (b * w))\<bar> \<le> 258 * ?e"
    using fl_error [OF n] h by simp
  moreover have "771 * ?e + 258 * ?e \<le> 1 / 8" by simp
  ultimately have "\<bar>mix a b w - (a * (1 - w) + b * w)\<bar> \<le> 1 / 8" using q unfolding mix_def u_def [symmetric] by linarith
  then show "L - 1 / 8 \<le> mix a b w" "mix a b w \<le> H + 1 / 8" using s by linarith+
  show "0 \<le> mix a b w" using n by (simp add: mix_def u_def [symmetric] fl_nonneg)
qed

definition byte_within :: "int \<Rightarrow> int \<Rightarrow> byte \<Rightarrow> bool" where
  "byte_within lo hi v \<longleftrightarrow> lo \<le> uint v \<and> uint v \<le> hi"

lemma channel_within:
  assumes "byte_within lo hi v00" "byte_within lo hi v10" "byte_within lo hi v01" "byte_within lo hi v11"
    and w: "0 \<le> xw" "xw \<le> 1" "0 \<le> yw" "yw \<le> 1"
  shows "byte_within lo hi (channel xw yw v00 v10 v01 v11)"
proof -
  define h where "h = min hi 255"
  have v: "of_int lo \<le> (of_int (uint v) :: rat) \<and> of_int (uint v) \<le> (of_int h :: rat) \<and> 0 \<le> (of_int (uint v) :: rat)"
    if "byte_within lo hi v" for v
    using that uint_lt2p [of v] by (simp add: byte_within_def h_def del: of_int_uint)
  have h: "(of_int h :: rat) \<le> 255" by (simp add: h_def)
  let ?t = "mix (of_int (uint v00)) (of_int (uint v10)) xw" and ?b = "mix (of_int (uint v01)) (of_int (uint v11)) xw"
  have t: "of_int lo - 1 / 8 \<le> ?t" "?t \<le> of_int h + 1 / 8" "0 \<le> ?t"
    using mix_bounds [of "of_int lo" "of_int (uint v00)" "of_int h" "of_int (uint v10)" xw] v [OF assms(1)] v [OF assms(2)] h w
    by (simp_all del: of_int_uint)
  have b: "of_int lo - 1 / 8 \<le> ?b" "?b \<le> of_int h + 1 / 8" "0 \<le> ?b"
    using mix_bounds [of "of_int lo" "of_int (uint v01)" "of_int h" "of_int (uint v11)" xw] v [OF assms(3)] v [OF assms(4)] h w
    by (simp_all del: of_int_uint)
  have "of_int lo - 1 / 8 - 1 / 8 \<le> mix ?t ?b yw" "mix ?t ?b yw \<le> of_int h + 1 / 8 + 1 / 8" "0 \<le> mix ?t ?b yw"
    using mix_bounds [of "of_int lo - 1 / 8" ?t "of_int h + 1 / 8" ?b yw] t b h w by simp_all
  then have m: "lo \<le> math_round (mix ?t ?b yw)" "math_round (mix ?t ?b yw) \<le> h" "0 \<le> math_round (mix ?t ?b yw)"
    by (auto intro: math_round_ge math_round_le)
  have "channel xw yw v00 v10 v01 v11 = of_int (math_round (mix ?t ?b yw))"
    by (simp add: channel_def mix_def Let_def)
  moreover have "uint (of_int (math_round (mix ?t ?b yw)) :: byte) = math_round (mix ?t ?b yw)"
    using m by (simp add: h_def unsigned_of_int take_bit_eq_mod)
  ultimately show ?thesis using m by (simp add: byte_within_def h_def)
qed

fun color_within :: "int \<Rightarrow> int \<Rightarrow> nrgba \<Rightarrow> bool" where
  "color_within lo hi (r, g, b, a) \<longleftrightarrow> byte_within lo hi r \<and> byte_within lo hi g \<and> byte_within lo hi b \<and> byte_within lo hi a"

lemma interpolate_within:
  "color_within lo hi c00 \<Longrightarrow> color_within lo hi c10 \<Longrightarrow> color_within lo hi c01 \<Longrightarrow> color_within lo hi c11 \<Longrightarrow>
    0 \<le> xw \<Longrightarrow> xw \<le> 1 \<Longrightarrow> 0 \<le> yw \<Longrightarrow> yw \<le> 1 \<Longrightarrow> color_within lo hi (interpolate c00 c10 c01 c11 xw yw)"
  by (cases c00; cases c10; cases c01; cases c11) (simp add: channel_within)

text \<open>The colors of an image, as the conversion reads them.\<close>

definition image_color :: "image \<Rightarrow> int \<Rightarrow> int \<Rightarrow> nrgba" where
  "image_color img x y = nrgba_convert (im_at img (im_min_x img + x) (im_min_y img + y))"

lemma fraction_weight: "0 \<le> fl (s - of_int \<lfloor>s\<rfloor>)" "fl (s - of_int \<lfloor>s\<rfloor>) \<le> 1"
proof -
  have "0 \<le> s - of_int \<lfloor>s\<rfloor>" "s - of_int \<lfloor>s\<rfloor> \<le> 1" by linarith+
  then show "0 \<le> fl (s - of_int \<lfloor>s\<rfloor>)" "fl (s - of_int \<lfloor>s\<rfloor>) \<le> 1" by (simp_all add: fl_nonneg fl_le)
qed

lemma bilinear_within:
  assumes "0 < im_dx img" "0 < im_dy img"
    and "\<And>x y. 0 \<le> x \<Longrightarrow> x < im_dx img \<Longrightarrow> 0 \<le> y \<Longrightarrow> y < im_dy img \<Longrightarrow> color_within lo hi (image_color img x y)"
  shows "color_within lo hi (bilinear_pixel img width height x y)"
proof -
  have c: "0 \<le> clamp_int v 0 (n - 1) \<and> clamp_int v 0 (n - 1) < n" if "0 < n" for v n using that by (auto simp: clamp_int_def)
  show ?thesis
    unfolding bilinear_pixel_def Let_def image_color_def [symmetric]
    by (intro interpolate_within fraction_weight assms(3)) (use c assms(1,2) in auto)
qed

section \<open>Properties\<close>

text \<open>
  C33: an image is never enlarged, and it always gets exactly the size of the display where it is at least as
  large: whatever the roundings of the floating-point scale, the result has the smaller of the two widths and
  of the two heights. An image that is no larger than the display in one direction is not scaled at all: its
  pixels are copied unchanged, from the centre.
\<close>

theorem resize_and_crop_spec:
  assumes "0 < im_dx img" "im_dx img \<le> 2 ^ 26" "0 < im_dy img" "im_dy img \<le> 2 ^ 26"
    and "0 < mw" "mw \<le> 2 ^ 26" "0 < mh" "mh \<le> 2 ^ 26"
  shows "case resize_and_crop img mw mh of Inl _ \<Rightarrow> False
    | Inr r \<Rightarrow> ra_width r = min (im_dx img) mw \<and> ra_height r = min (im_dy img) mh
        \<and> (if im_dx img \<le> mw \<or> im_dy img \<le> mh
           then \<forall>x y. 0 \<le> x \<and> x < ra_width r \<and> 0 \<le> y \<and> y < ra_height r \<longrightarrow>
             nrgba_at r x y = image_color img ((im_dx img - ra_width r) div 2 + x) ((im_dy img - ra_height r) div 2 + y)
           else True)"
proof -
  let ?w = "im_dx img" and ?h = "im_dy img"
  let ?s = "picture_scale mw mh ?w ?h"
  have m: "min (scaled_length ?w ?s) mw = min ?w mw" "min (scaled_length ?h ?s) mh = min ?h mh"
    using scaled_min [of ?w ?h mw mh] assms by simp_all
  have id: "nrgba_at (bilinear_scale img ?w ?h) x y = image_color img x y"
    if "0 \<le> x" "x < ?w" "0 \<le> y" "y < ?h" for x y
    using that assms by (simp add: bilinear_scale_def nrgba_at_raster bilinear_same image_color_def)
  have one: "scaled_length ?w ?s = ?w" "scaled_length ?h ?s = ?h" if "?w \<le> mw \<or> ?h \<le> mh"
    using that assms picture_scale_1 [of ?w ?h mw mh] by (simp_all add: scaled_length_1)
  show ?thesis
    using assms m id one by (auto simp: resize_and_crop_def Let_def nrgba_at_raster)
qed

definition sample_picture :: image where
  "sample_picture = \<lparr>im_min_x = 0, im_min_y = 0, im_max_x = 3, im_max_y = 2, im_at = (\<lambda>x y. NRGBA (of_int (x + 10 * y)) 0 0 255)\<rparr>"

theorem resize_and_crop_spec_witness:
  "case resize_and_crop sample_picture 1 1 of Inl _ \<Rightarrow> False | Inr r \<Rightarrow> ra_width r = 1 \<and> ra_height r = 1"
  using resize_and_crop_spec [of sample_picture 1 1]
  by (simp add: sample_picture_def im_dx_def im_dy_def split: sum.splits)

text \<open>
  C34: scaling invents no colors: if every channel of every pixel of the source lies between two bounds, so
  does every channel of the result, in spite of the roundings; in particular the conversion of the rounded
  value to a byte never wraps, and the crop never reads outside of the scaled image.
\<close>

theorem resize_and_crop_within:
  assumes "0 < im_dx img" "im_dx img \<le> 2 ^ 26" "0 < im_dy img" "im_dy img \<le> 2 ^ 26"
    and "0 < mw" "mw \<le> 2 ^ 26" "0 < mh" "mh \<le> 2 ^ 26"
    and "\<forall>x y. 0 \<le> x \<and> x < im_dx img \<and> 0 \<le> y \<and> y < im_dy img \<longrightarrow> color_within lo hi (image_color img x y)"
  shows "case resize_and_crop img mw mh of Inl _ \<Rightarrow> False
    | Inr r \<Rightarrow> \<forall>x y. 0 \<le> x \<and> x < ra_width r \<and> 0 \<le> y \<and> y < ra_height r \<longrightarrow> color_within lo hi (nrgba_at r x y)"
proof -
  let ?s = "picture_scale mw mh (im_dx img) (im_dy img)"
  let ?sw = "scaled_length (im_dx img) ?s" and ?sh = "scaled_length (im_dy img) ?s"
  have "color_within lo hi (nrgba_at (bilinear_scale img ?sw ?sh) x y)" if "0 \<le> x" "x < ?sw" "0 \<le> y" "y < ?sh" for x y
    using that bilinear_within [OF assms(1,3)] assms(9) by (simp add: bilinear_scale_def nrgba_at_raster)
  moreover have "0 \<le> (n - min n m) div 2 + x \<and> (n - min n m) div 2 + x < n" if "0 \<le> x" "x < min n m" for n m x :: int
    using that by (auto simp: min_def split: if_splits)
  ultimately show ?thesis
    using assms(1,3) by (simp add: resize_and_crop_def Let_def nrgba_at_raster)
qed

theorem resize_and_crop_within_witness:
  "case resize_and_crop sample_picture 2 1 of Inl _ \<Rightarrow> False
   | Inr r \<Rightarrow> \<forall>x y. 0 \<le> x \<and> x < ra_width r \<and> 0 \<le> y \<and> y < ra_height r \<longrightarrow> color_within 0 255 (nrgba_at r x y)"
proof (rule resize_and_crop_within)
  have "byte_within 0 255 v" for v using uint_lt2p [of v] by (simp add: byte_within_def)
  then have "color_within 0 255 c" for c by (cases c) simp
  then show "\<forall>x y. 0 \<le> x \<and> x < im_dx sample_picture \<and> 0 \<le> y \<and> y < im_dy sample_picture \<longrightarrow>
      color_within 0 255 (image_color sample_picture x y)" by simp
qed (simp_all add: sample_picture_def im_dx_def im_dy_def)

end
