(* ===== verification/ClientConfig.thy ===== *)
theory ClientConfig
  imports Prelude
begin

text \<open>
  \<open>options.go\<close> and \<open>client.go\<close>: the options of \<open>NewClient\<close>, the base URL and the rules of the two
  endpoint modes. \<open>url.Parse\<close> is a parameter that gives scheme and host. HTTP clients and
  request-ID generators are known by a number.
\<close>

section \<open>Options\<close>

datatype endpoint_mode = EndpointLocal | EndpointRemote | EndpointOther string

datatype version_negotiation = NegotiationEnabled | NegotiationDisabled | NegotiationOther string

record retry_policy =
  rp_attempts :: int
  rp_backoff :: duration

record client_config =
  c_base_url :: string
  c_base_url_configured :: bool
  c_http_client :: nat
  c_http_client_configured :: bool
  c_timeout :: duration
  c_mode :: endpoint_mode
  c_token :: string
  c_session :: string
  c_generator :: nat
  c_retry :: retry_policy
  c_negotiation :: version_negotiation
  c_max_response :: int

definition second :: duration where "second = 1000000000"

definition DefaultLocalBaseURL :: string where "DefaultLocalBaseURL = ''http://10.0.4.20''"
definition defaultTimeout :: duration where "defaultTimeout = 10 * second"
definition DefaultMaxResponseBytes :: int where "DefaultMaxResponseBytes = 1048576"

text \<open>Number 0 stands for \<open>http.DefaultClient\<close> and for \<open>randomRequestID\<close>.\<close>

definition default_client_config :: client_config where
  "default_client_config =
     \<lparr>c_base_url = DefaultLocalBaseURL, c_base_url_configured = False,
      c_http_client = 0, c_http_client_configured = False,
      c_timeout = defaultTimeout, c_mode = EndpointLocal, c_token = [], c_session = [], c_generator = 0,
      c_retry = \<lparr>rp_attempts = 1, rp_backoff = 0\<rparr>,
      c_negotiation = NegotiationEnabled, c_max_response = DefaultMaxResponseBytes\<rparr>"

datatype client_option =
    WithMaxResponseBytes int
  | WithBaseURL string
  | WithHTTPClient "nat option" \<comment> \<open>None is a nil client\<close>
  | WithTimeout duration
  | WithEndpointMode endpoint_mode
  | WithLocalAccessToken string
  | WithLocalAccessKey string
  | WithSessionID string
  | WithRequestIDGenerator "nat option"
  | WithRetryPolicy retry_policy
  | WithVersionNegotiation version_negotiation

fun apply_client_option :: "client_option \<Rightarrow> client_config \<Rightarrow> string + client_config" where
  "apply_client_option (WithMaxResponseBytes n) c =
     (if n \<le> 0 then Inl ''maximum response size must be greater than zero'' else Inr (c\<lparr>c_max_response := n\<rparr>))"
| "apply_client_option (WithBaseURL u) c =
     (if u = [] then Inl ''base URL must not be empty'' else Inr (c\<lparr>c_base_url := u, c_base_url_configured := True\<rparr>))"
| "apply_client_option (WithHTTPClient h) c =
     (case h of None \<Rightarrow> Inl ''HTTP client must not be nil''
      | Some n \<Rightarrow> Inr (c\<lparr>c_http_client := n, c_http_client_configured := True\<rparr>))"
| "apply_client_option (WithTimeout t) c =
     (if t < 0 then Inl ''timeout must not be negative'' else Inr (c\<lparr>c_timeout := t\<rparr>))"
| "apply_client_option (WithEndpointMode m) c =
     (case m of EndpointOther _ \<Rightarrow> Inl ''endpoint mode must be local or remote'' | _ \<Rightarrow> Inr (c\<lparr>c_mode := m\<rparr>))"
| "apply_client_option (WithLocalAccessToken t) c = Inr (c\<lparr>c_token := t\<rparr>)"
| "apply_client_option (WithLocalAccessKey t) c = Inr (c\<lparr>c_token := t\<rparr>)"
| "apply_client_option (WithSessionID s) c = Inr (c\<lparr>c_session := s\<rparr>)"
| "apply_client_option (WithRequestIDGenerator g) c =
     (case g of None \<Rightarrow> Inl ''request ID generator must not be nil'' | Some n \<Rightarrow> Inr (c\<lparr>c_generator := n\<rparr>))"
| "apply_client_option (WithRetryPolicy p) c =
     (if rp_attempts p \<le> 0 then Inl ''retry policy MaxAttempts must be greater than zero''
      else if rp_backoff p < 0 then Inl ''retry policy Backoff must not be negative''
      else Inr (c\<lparr>c_retry := p\<rparr>))"
| "apply_client_option (WithVersionNegotiation m) c =
     (case m of NegotiationOther _ \<Rightarrow> Inl ''version negotiation must be enabled or disabled''
      | _ \<Rightarrow> Inr (c\<lparr>c_negotiation := m\<rparr>))"

fun_cases apply_client_option_okE: "apply_client_option op c = Inr c'"

section \<open>The client\<close>

record base_url =
  bu_scheme :: string
  bu_host :: string

definition normalize_base_url :: "(string \<Rightarrow> string + base_url) \<Rightarrow> string \<Rightarrow> string + base_url" where
  "normalize_base_url parse raw0 =
     (let raw1 = trim_space raw0
      in if raw1 = [] then Inl ''base URL must not be empty''
         else let raw = (if contains raw1 ''://'' then raw1 else ''http://'' @ raw1)
              in rbind (parse raw) (\<lambda>u.
                   if bu_scheme u \<noteq> ''http'' \<and> bu_scheme u \<noteq> ''https'' then Inl ''base URL scheme must be http or https''
                   else if bu_host u = [] then Inl ''base URL host must not be empty''
                   else Inr u))"

record client =
  cl_base :: base_url
  cl_http :: nat
  cl_timeout :: duration
  cl_mode :: endpoint_mode
  cl_token :: string
  cl_session :: string
  cl_generator :: nat
  cl_retry :: retry_policy
  cl_negotiation :: version_negotiation
  cl_max_response :: int

definition new_client :: "(string \<Rightarrow> string + base_url) \<Rightarrow> client_option option list \<Rightarrow> string + client" where
  "new_client parse ops =
     rbind (resolve_options apply_client_option ops default_client_config) (\<lambda>c.
     rbind (normalize_base_url parse (c_base_url c)) (\<lambda>base.
     if c_mode c = EndpointRemote \<and> \<not> c_base_url_configured c then Inl ''remote mode requires an explicit base URL''
     else if c_mode c = EndpointRemote \<and> \<not> c_http_client_configured c then Inl ''remote mode requires an explicit HTTP client''
     else if c_mode c = EndpointRemote \<and> c_token c \<noteq> [] then Inl ''remote mode does not support WithLocalAccessToken''
     else Inr \<lparr>cl_base = base, cl_http = c_http_client c, cl_timeout = c_timeout c, cl_mode = c_mode c,
               cl_token = c_token c, cl_session = c_session c, cl_generator = c_generator c, cl_retry = c_retry c,
               cl_negotiation = c_negotiation c, cl_max_response = c_max_response c\<rparr>))"

section \<open>What the options leave\<close>

definition option_ok :: "client_option \<Rightarrow> bool" where
  "option_ok op =
     (case op of
        WithMaxResponseBytes n \<Rightarrow> 0 < n
      | WithBaseURL u \<Rightarrow> u \<noteq> []
      | WithHTTPClient h \<Rightarrow> h \<noteq> None
      | WithTimeout t \<Rightarrow> 0 \<le> t
      | WithEndpointMode m \<Rightarrow> m \<in> {EndpointLocal, EndpointRemote}
      | WithRequestIDGenerator g \<Rightarrow> g \<noteq> None
      | WithRetryPolicy p \<Rightarrow> 0 < rp_attempts p \<and> 0 \<le> rp_backoff p
      | WithVersionNegotiation m \<Rightarrow> m \<in> {NegotiationEnabled, NegotiationDisabled}
      | _ \<Rightarrow> True)"

text \<open>What an accepted option sets; \<open>the\<close> is only reached with a client or generator present.\<close>

definition option_upd :: "client_option \<Rightarrow> client_config \<Rightarrow> client_config" where
  "option_upd op c = (case apply_client_option op c of Inl _ \<Rightarrow> c | Inr c' \<Rightarrow> c')"

definition config_valid :: "client_config \<Rightarrow> bool" where
  "config_valid c \<longleftrightarrow> 0 < c_max_response c \<and> 0 \<le> c_timeout c \<and> c_base_url c \<noteq> []
     \<and> c_mode c \<in> {EndpointLocal, EndpointRemote}
     \<and> c_negotiation c \<in> {NegotiationEnabled, NegotiationDisabled}
     \<and> 0 < rp_attempts (c_retry c) \<and> 0 \<le> rp_backoff (c_retry c)
     \<and> (c_base_url_configured c \<or> c_base_url c = DefaultLocalBaseURL)"

lemma apply_client_option_ok: "is_ok (apply_client_option op c) \<longleftrightarrow> option_ok op"
  by (cases op)
    (auto simp: option_ok_def is_ok_def split: option.splits endpoint_mode.splits version_negotiation.splits)

lemma apply_client_option_valid:
  assumes "apply_client_option op c = Inr c'" and "config_valid c"
  shows "config_valid c'"
  using assms
  by (elim apply_client_option_okE)
    (auto simp: config_valid_def split: if_splits option.splits endpoint_mode.splits version_negotiation.splits)

interpretation client_opts: plain_options apply_client_option option_ok option_upd config_valid
proof
  fix op c c'
  show "(apply_client_option op c = Inr c') = (option_ok op \<and> c' = option_upd op c)"
    using apply_client_option_ok [of op c]
    by (cases "apply_client_option op c") (auto simp: option_upd_def)
  show "config_valid c \<Longrightarrow> option_ok op \<Longrightarrow> config_valid (option_upd op c)"
    using apply_client_option_ok [of op c] apply_client_option_valid [of op c]
    by (cases "apply_client_option op c") (auto simp: option_upd_def)
qed

lemma default_client_config_valid: "config_valid default_client_config"
  by (simp add: config_valid_def default_client_config_def defaultTimeout_def second_def
      DefaultMaxResponseBytes_def DefaultLocalBaseURL_def)

lemma default_fields:
  "c_mode default_client_config = EndpointLocal" "c_token default_client_config = []"
  "c_base_url default_client_config = DefaultLocalBaseURL" "c_http_client default_client_config = 0"
  "\<not> c_base_url_configured default_client_config" "\<not> c_http_client_configured default_client_config"
  by (simp_all add: default_client_config_def)

text \<open>The last value set by an option, or the default.\<close>

definition last_set :: "('o \<Rightarrow> 'v option) \<Rightarrow> 'o list \<Rightarrow> 'v \<Rightarrow> 'v" where
  "last_set sel ops d = (case rev (non_nil (map sel ops)) of [] \<Rightarrow> d | v # _ \<Rightarrow> v)"

lemma last_set_simps [simp]:
  "last_set sel [] d = d"
  "last_set sel (op # ops) d = last_set sel ops (case sel op of None \<Rightarrow> d | Some v \<Rightarrow> v)"
  by (auto simp: last_set_def split: option.splits list.splits)

lemma fold_last_set:
  assumes "\<And>op c. op \<in> set ops \<Longrightarrow> field (upd op c) = (case sel op of None \<Rightarrow> field c | Some v \<Rightarrow> v)"
  shows "field (fold upd ops c) = last_set sel ops (field c)"
  using assms by (induction ops arbitrary: c) (auto split: option.splits)

definition sets_mode :: "client_option \<Rightarrow> endpoint_mode option" where
  "sets_mode op = (case op of WithEndpointMode m \<Rightarrow> Some m | _ \<Rightarrow> None)"

definition sets_token :: "client_option \<Rightarrow> string option" where
  "sets_token op = (case op of WithLocalAccessToken t \<Rightarrow> Some t | WithLocalAccessKey t \<Rightarrow> Some t | _ \<Rightarrow> None)"

definition sets_base :: "client_option \<Rightarrow> string option" where
  "sets_base op = (case op of WithBaseURL u \<Rightarrow> Some u | _ \<Rightarrow> None)"

definition sets_http :: "client_option \<Rightarrow> nat option" where
  "sets_http op = (case op of WithHTTPClient h \<Rightarrow> h | _ \<Rightarrow> None)"

lemmas sets_defs = sets_mode_def sets_token_def sets_base_def sets_http_def

lemma option_upd_fields:
  assumes "option_ok op"
  shows "c_mode (option_upd op c) = (case sets_mode op of None \<Rightarrow> c_mode c | Some v \<Rightarrow> v)"
    "c_token (option_upd op c) = (case sets_token op of None \<Rightarrow> c_token c | Some v \<Rightarrow> v)"
    "c_base_url (option_upd op c) = (case sets_base op of None \<Rightarrow> c_base_url c | Some v \<Rightarrow> v)"
    "c_http_client (option_upd op c) = (case sets_http op of None \<Rightarrow> c_http_client c | Some v \<Rightarrow> v)"
    "c_base_url_configured (option_upd op c) = (c_base_url_configured c \<or> sets_base op \<noteq> None)"
    "c_http_client_configured (option_upd op c) = (c_http_client_configured c \<or> sets_http op \<noteq> None)"
  using assms
  by (cases op; auto simp: option_upd_def option_ok_def sets_defs
      split: option.splits endpoint_mode.splits version_negotiation.splits)+

lemma fold_configured:
  assumes "\<forall>op \<in> set ops. option_ok op"
  shows "c_base_url_configured (fold option_upd ops c) = (c_base_url_configured c \<or> (\<exists>op \<in> set ops. sets_base op \<noteq> None))"
    "c_http_client_configured (fold option_upd ops c) = (c_http_client_configured c \<or> (\<exists>op \<in> set ops. sets_http op \<noteq> None))"
  using assms by (induction ops arbitrary: c) (auto simp: option_upd_fields)

lemma fold_fields:
  assumes "\<forall>op \<in> set ops. option_ok op"
  shows "c_mode (fold option_upd ops c) = last_set sets_mode ops (c_mode c)"
    "c_token (fold option_upd ops c) = last_set sets_token ops (c_token c)"
    "c_base_url (fold option_upd ops c) = last_set sets_base ops (c_base_url c)"
    "c_http_client (fold option_upd ops c) = last_set sets_http ops (c_http_client c)"
  using assms by (auto intro!: fold_last_set option_upd_fields)

text \<open>What every client satisfies, and what the request code relies on.\<close>

definition client_ok :: "client \<Rightarrow> bool" where
  "client_ok cl \<longleftrightarrow> 0 < cl_max_response cl \<and> 0 \<le> cl_timeout cl \<and> 0 < rp_attempts (cl_retry cl)
     \<and> 0 \<le> rp_backoff (cl_retry cl)
     \<and> cl_mode cl \<in> {EndpointLocal, EndpointRemote}
     \<and> cl_negotiation cl \<in> {NegotiationEnabled, NegotiationDisabled}
     \<and> (cl_mode cl = EndpointRemote \<longrightarrow> cl_token cl = [])
     \<and> bu_scheme (cl_base cl) \<in> {''http'', ''https''} \<and> bu_host (cl_base cl) \<noteq> []"

lemma normalize_base_url_ok:
  "normalize_base_url parse raw = Inr u \<Longrightarrow> bu_scheme u \<in> {''http'', ''https''} \<and> bu_host u \<noteq> []"
  by (auto simp: normalize_base_url_def Let_def rbind_eq_Inr split: if_splits)

lemma new_client_ok: "new_client parse ops = Inr cl \<Longrightarrow> client_ok cl"
  using client_opts.resolve_valid [OF default_client_config_valid] normalize_base_url_ok
  by (fastforce simp: new_client_def client_ok_def config_valid_def rbind_eq_Inr split: if_splits)

text \<open>
  \<open>NewClient\<close> succeeds exactly when every option is acceptable, the base URL that was set last
  (or the default) is an http or https origin, and remote mode - when the mode set last is remote -
  comes with an explicit base URL, an explicit HTTP client and no local access token; the client
  then has positive limits and the values set last.
\<close>

theorem new_client_spec:
  "is_ok (new_client parse ops) \<longleftrightarrow>
     (let os = non_nil ops; remote = (last_set sets_mode os EndpointLocal = EndpointRemote)
      in list_all option_ok os
       \<and> is_ok (normalize_base_url parse (last_set sets_base os DefaultLocalBaseURL))
       \<and> (if remote then (\<exists>op \<in> set os. sets_base op \<noteq> None) \<and> (\<exists>op \<in> set os. sets_http op \<noteq> None)
                        \<and> last_set sets_token os [] = [] else True))
   \<and> (case new_client parse ops of Inl _ \<Rightarrow> True
      | Inr cl \<Rightarrow> client_ok cl \<and> cl_mode cl = last_set sets_mode (non_nil ops) EndpointLocal
          \<and> cl_token cl = last_set sets_token (non_nil ops) []
          \<and> Inr (cl_base cl) = normalize_base_url parse (last_set sets_base (non_nil ops) DefaultLocalBaseURL)
          \<and> cl_http cl = last_set sets_http (non_nil ops) 0)"
proof (cases "\<forall>op \<in> set (non_nil ops). option_ok op")
  case True
  let ?c = "fold option_upd (non_nil ops) default_client_config"
  have r: "resolve_options apply_client_option ops default_client_config = Inr ?c"
    using True by (simp add: client_opts.resolve_iff)
  note f = fold_fields [OF True, of default_client_config] fold_configured [OF True, of default_client_config]
  let ?base = "normalize_base_url parse (last_set sets_base (non_nil ops) DefaultLocalBaseURL)"
  show ?thesis
  proof (cases "new_client parse ops")
    case (Inl e)
    then show ?thesis using True
      by (cases ?base) (auto simp: new_client_def r f default_fields Let_def list_all_iff split: if_splits)
  next
    case (Inr cl)
    then show ?thesis using True new_client_ok [OF Inr]
      by (cases ?base) (auto simp: new_client_def r f default_fields Let_def list_all_iff split: if_splits)
  qed
next
  case False
  then have "\<not> is_ok (resolve_options apply_client_option ops default_client_config)"
    by (auto simp: is_ok_iff client_opts.resolve_iff)
  then have "\<not> is_ok (new_client parse ops)"
    by (cases "resolve_options apply_client_option ops default_client_config") (auto simp: new_client_def)
  then show ?thesis using False by (cases "new_client parse ops") (auto simp: Let_def list_all_iff)
qed

end
