(* ===== verification/Request.thy ===== *)
theory Request
  imports ClientConfig "HOL-Library.Char_ord" "HOL-Library.List_Lexorder" "HOL-Library.Multiset"
begin

text \<open>
  \<open>request.go\<close> up to and including \<open>Prepare\<close>, \<open>body.go\<close>, the header and path rules, and the list
  of operations the firmware refuses over MQTT (\<open>internal/api/metadata.go\<close>).
\<close>

section \<open>Case mapping\<close>

text \<open>
  \<open>strings.ToUpper\<close> and \<open>strings.ToLower\<close> map ASCII strings byte by byte; on other strings they
  use the Unicode tables, which are the parameters \<open>um\<close> and \<open>lm\<close>.
\<close>

definition to_upper :: "(string \<Rightarrow> string) \<Rightarrow> string \<Rightarrow> string" where
  "to_upper um s = (if list_all is_ascii s then map ascii_upper s else um s)"

definition to_lower :: "(string \<Rightarrow> string) \<Rightarrow> string \<Rightarrow> string" where
  "to_lower lm s = (if list_all is_ascii s then map ascii_lower s else lm s)"

section \<open>Headers\<close>

text \<open>
  \<open>http.Header\<close> is a map from keys to lists of values; the list gives its entries in the order in
  which a range loop happens to visit them. \<open>Get\<close> and \<open>Set\<close> use the canonical form of the name,
  which a caller's own keys need not have.
\<close>

type_synonym header = "(string \<times> string list) list"

definition token_char :: "char \<Rightarrow> bool" where
  "token_char c \<longleftrightarrow> is_alnum c \<or> c \<in> set ''!#$%&*+-.^_|~'' \<or> c = CHR 0x27 \<or> c = CHR 0x60"

fun canon_from :: "bool \<Rightarrow> string \<Rightarrow> string" where
  "canon_from start [] = []"
| "canon_from start (c # s) = (if start then ascii_upper c else ascii_lower c) # canon_from (c = CHR ''-'') s"

definition canonical_key :: "string \<Rightarrow> string" where
  "canonical_key s = (if list_all token_char s then canon_from True s else s)"

definition h_values :: "header \<Rightarrow> string \<Rightarrow> string list" where
  "h_values h key = (case map_of h key of None \<Rightarrow> [] | Some vs \<Rightarrow> vs)"

definition h_get :: "header \<Rightarrow> string \<Rightarrow> string" where
  "h_get h name = (case h_values h (canonical_key name) of [] \<Rightarrow> [] | v # _ \<Rightarrow> v)"

definition h_set :: "string \<Rightarrow> string \<Rightarrow> header \<Rightarrow> header" where
  "h_set name v h = (canonical_key name, [v]) # filter (\<lambda>(k, _). k \<noteq> canonical_key name) h"

definition header_value :: "(string \<Rightarrow> string) \<Rightarrow> header \<Rightarrow> string \<Rightarrow> string" where
  "header_value lm h name =
     (if h_get h name \<noteq> [] then h_get h name
      else case filter (\<lambda>(k, vs). to_lower lm k = to_lower lm name \<and> vs \<noteq> []) h of
        [] \<Rightarrow> []
      | (k, vs) # _ \<Rightarrow> hd vs)"

definition headerAPIToken :: string where "headerAPIToken = ''X-API-Token''"
definition headerRequestID :: string where "headerRequestID = ''X-Request-ID''"
definition headerSessionID :: string where "headerSessionID = ''x-session-id''"
definition headerAPISemVer :: string where "headerAPISemVer = ''X-API-Sem-Ver''"

definition validate_caller_auth_headers :: "(string \<Rightarrow> string) \<Rightarrow> header \<Rightarrow> string + unit" where
  "validate_caller_auth_headers lm h =
     (if header_value lm h ''Authorization'' \<noteq> [] then
        Inl ''authorization is not supported; transport authentication must be configured outside busylib.Client''
      else if header_value lm h headerAPIToken \<noteq> [] then
        Inl ''X-API-Token must be configured with WithLocalAccessToken''
      else Inr ())"

section \<open>Paths and blocked operations\<close>

definition canonical_api_path :: "string \<Rightarrow> string + string" where
  "canonical_api_path raw =
     (let path = trim_space raw
      in if path = [] then Inl ''request path must not be empty''
         else if contains path ''://'' then Inl ''request path must be relative''
         else if has_prefix path ''/busybar'' then Inl ''request path must use the /api contract path''
         else let path = (if \<not> has_prefix path ''/'' then ''/'' @ path else path)
              in if path = ''/api'' \<or> has_prefix path ''/api/'' then Inr path else Inr (''/api'' @ path))"

definition remoteBlockedOperations :: "string list" where
  "remoteBlockedOperations =
     [''POST /api/update'', ''DELETE /api/account'', ''PUT /api/account/backend'', ''POST /api/account/link'',
      ''POST /api/wifi/connect'', ''POST /api/wifi/disconnect'', ''GET /api/wifi/networks'']"

definition operation_id :: "(string \<Rightarrow> string) \<Rightarrow> string \<Rightarrow> string \<Rightarrow> string" where
  "operation_id um method path = to_upper um method @ '' '' @ path"

definition is_remote_blocked_operation :: "(string \<Rightarrow> string) \<Rightarrow> string \<Rightarrow> string \<Rightarrow> bool" where
  "is_remote_blocked_operation um method path =
     (let path = (if path \<noteq> ''/api/'' then trim_suffix path ''/'' else path)
      in operation_id um method path \<in> set remoteBlockedOperations)"

fun cut_space :: "string \<Rightarrow> (string \<times> string) option" where
  "cut_space [] = None"
| "cut_space (c # s) = (if c = CHR '' '' then Some ([], s) else map_option (\<lambda>(a, b). (c # a, b)) (cut_space s))"

definition split_operation_id :: "string \<Rightarrow> string \<times> string" where
  "split_operation_id op = (case cut_space op of None \<Rightarrow> (op, []) | Some mp \<Rightarrow> mp)"

definition method_rank :: "string \<Rightarrow> nat" where
  "method_rank m =
     (if m = ''DELETE'' then 0 else if m = ''GET'' then 1 else if m = ''PATCH'' then 2
      else if m = ''POST'' then 3 else if m = ''PUT'' then 4 else 100)"

text \<open>The order of \<open>RemoteBlockedOperations\<close>: by path, then by method rank.\<close>

datatype operation_key = OperationKey (key_path: string) (key_rank: nat)

definition operation_before :: "operation_key \<Rightarrow> operation_key \<Rightarrow> bool" where
  "operation_before a b \<longleftrightarrow> (if key_path a \<noteq> key_path b then key_path a < key_path b else key_rank a < key_rank b)"

instantiation operation_key :: linorder
begin

definition less_operation_key :: "operation_key \<Rightarrow> operation_key \<Rightarrow> bool" where
  "less_operation_key a b \<longleftrightarrow> operation_before a b"

definition less_eq_operation_key :: "operation_key \<Rightarrow> operation_key \<Rightarrow> bool" where
  "less_eq_operation_key a b \<longleftrightarrow> a = b \<or> operation_before a b"

instance
  by standard
    (auto simp: less_eq_operation_key_def less_operation_key_def operation_before_def
      intro: operation_key.expand dest: less_trans split: if_splits)

end

definition operation_key :: "string \<Rightarrow> operation_key" where
  "operation_key op = (let (m, p) = split_operation_id op in OperationKey p (method_rank m))"

text \<open>\<open>sort.Slice\<close> on the keys of the map, visited in some order.\<close>

definition remote_blocked_operations :: "string list \<Rightarrow> string list" where
  "remote_blocked_operations visited = sort_key operation_key visited"

section \<open>Query strings\<close>

text \<open>\<open>url.Values.Encode\<close>: sorted keys, every byte but the unreserved ones escaped.\<close>

definition hex_upper :: "nat \<Rightarrow> char" where
  "hex_upper n = (if n < 10 then char_of (48 + n) else char_of (55 + n))"

definition query_escape_char :: "char \<Rightarrow> string" where
  "query_escape_char c =
     (if is_alnum c \<or> c \<in> set ''-_.~'' then [c]
      else if c = CHR '' '' then ''+''
      else [CHR ''%'', hex_upper (of_char c div 16), hex_upper (of_char c mod 16)])"

definition query_escape :: "string \<Rightarrow> string" where
  "query_escape s = concat (map query_escape_char s)"

type_synonym query = "(string \<times> string list) list"

definition encode_query :: "query \<Rightarrow> string" where
  "encode_query q =
     join_with ''&'' (concat (map (\<lambda>(k, vs). map (\<lambda>v. query_escape k @ ''='' @ query_escape v) vs) (sort_key fst q)))"

section \<open>Bodies\<close>

text \<open>
  The body constructors. Marshalling, files and the caller's openers are the environment; a
  \<open>ReaderBody\<close> is one object with an identity, because its \<open>used\<close> flag is shared by all requests
  prepared from it. The opener of a \<open>RepeatableBody\<close> may behave differently on every call.
\<close>

type_synonym stream_reader = "string reader"

datatype body =
    JsonBody "string + bytes"
  | BytesBody bytes string
  | ReaderBody "(nat \<times> stream_reader) option" string
  | RepeatableBody string int "(nat \<Rightarrow> string + stream_reader option) option"
  | FileBody string string
  | ProgressBody "body option" bool

datatype body_source =
    NoSource
  | FixedSource bytes
  | OnceSource nat stream_reader
  | CallSource "nat \<Rightarrow> string + stream_reader option"
  | FileSource string
  | ProgressSource body_source int

record prepared_body =
  pb_type :: string
  pb_length :: int
  pb_repeatable :: bool
  pb_source :: body_source

definition empty_prepared_body :: prepared_body where
  "empty_prepared_body = \<lparr>pb_type = [], pb_length = 0, pb_repeatable = True, pb_source = NoSource\<rparr>"

text \<open>\<open>stat\<close> gives whether a path is a directory, and its size.\<close>

fun prepare_body :: "(string \<Rightarrow> string + bool \<times> int) \<Rightarrow> body \<Rightarrow> string + prepared_body" where
  "prepare_body stat (JsonBody r) =
     rbind r (\<lambda>data. Inr \<lparr>pb_type = ''application/json; charset=utf-8'', pb_length = int (length data),
                           pb_repeatable = True, pb_source = FixedSource data\<rparr>)"
| "prepare_body stat (BytesBody data ct) =
     Inr \<lparr>pb_type = ct, pb_length = int (length data), pb_repeatable = True, pb_source = FixedSource data\<rparr>"
| "prepare_body stat (ReaderBody r ct) =
     (case r of None \<Rightarrow> Inl ''reader body must not be nil''
      | Some (i, rd) \<Rightarrow> Inr \<lparr>pb_type = ct, pb_length = -1, pb_repeatable = False, pb_source = OnceSource i rd\<rparr>)"
| "prepare_body stat (RepeatableBody ct len op) =
     (case op of None \<Rightarrow> Inl ''repeatable body opener must not be nil''
      | Some f \<Rightarrow> Inr \<lparr>pb_type = ct, pb_length = len, pb_repeatable = True, pb_source = CallSource f\<rparr>)"
| "prepare_body stat (FileBody path ct) =
     (if path = [] then Inl ''file body path must not be empty''
      else rbind (stat path) (\<lambda>(dir, len).
        if dir then Inl ''file body path must be a file''
        else Inr \<lparr>pb_type = ct, pb_length = len, pb_repeatable = True, pb_source = FileSource path\<rparr>))"
| "prepare_body stat (ProgressBody None callback) = Inl ''progress body must wrap a body''"
| "prepare_body stat (ProgressBody (Some b) callback) =
     rbind (prepare_body stat b) (\<lambda>p.
       if \<not> callback then Inr p
       else Inr \<lparr>pb_type = pb_type p, pb_length = pb_length p, pb_repeatable = pb_repeatable p,
                 pb_source = ProgressSource (pb_source p) (pb_length p)\<rparr>)"

text \<open>
  Opening at call number \<open>t\<close>, with the set of one-shot bodies already used; an opened body carries
  the totals its progress wrappers report, the outermost first.
\<close>

record opened_body =
  ob_reader :: stream_reader
  ob_totals :: "int list"

fun open_source ::
  "(nat \<Rightarrow> string \<Rightarrow> string + stream_reader) \<Rightarrow> nat \<Rightarrow> body_source \<Rightarrow> nat set \<Rightarrow> (string + opened_body option) \<times> nat set"
where
  "open_source files t NoSource used = (Inr None, used)"
| "open_source files t (FixedSource data) used = (Inr (Some \<lparr>ob_reader = \<lparr>rd_data = data, rd_err = None\<rparr>, ob_totals = []\<rparr>), used)"
| "open_source files t (OnceSource i rd) used =
     (if i \<in> used then (Inl ''reader body has already been consumed'', used)
      else (Inr (Some \<lparr>ob_reader = rd, ob_totals = []\<rparr>), insert i used))"
| "open_source files t (CallSource f) used =
     (map_sum id (map_option (\<lambda>rd. \<lparr>ob_reader = rd, ob_totals = []\<rparr>)) (f t), used)"
| "open_source files t (FileSource path) used =
     (map_sum id (\<lambda>rd. Some \<lparr>ob_reader = rd, ob_totals = []\<rparr>) (files t path), used)"
| "open_source files t (ProgressSource s size0) used =
     (case open_source files t s used of
        (Inl e, used') \<Rightarrow> (Inl e, used')
      | (Inr None, used') \<Rightarrow> (Inr None, used')
      | (Inr (Some ob), used') \<Rightarrow> (Inr (Some (ob\<lparr>ob_totals := size0 # ob_totals ob\<rparr>)), used'))"

text \<open>The reports of one wrapper for reads of the given sizes.\<close>

fun progress_reads :: "int \<Rightarrow> int \<Rightarrow> nat list \<Rightarrow> (int \<times> int) list" where
  "progress_reads written total0 [] = []"
| "progress_reads written total0 (n # ns) =
     (if 0 < n then (written + int n, total0) # progress_reads (written + int n) total0 ns
      else progress_reads written total0 ns)"

section \<open>Prepare\<close>

record request =
  rq_method :: string
  rq_path :: string
  rq_query :: query
  rq_header :: header
  rq_body :: "body option"
  rq_mode :: string
  rq_request_id :: string
  rq_session_id :: string

record target_url =
  tu_scheme :: string
  tu_host :: string
  tu_path :: string
  tu_query :: string

record prepared_request =
  pr_method :: string
  pr_path :: string
  pr_url :: target_url
  pr_header :: header
  pr_mode :: string
  pr_request_id :: string
  pr_body :: prepared_body

record validation_error =
  ve_method :: string
  ve_path :: string
  ve_message :: string

definition mk_validation_error :: "string \<Rightarrow> string \<Rightarrow> string \<Rightarrow> string option \<Rightarrow> validation_error" where
  "mk_validation_error method path message err =
     (let message = (case err of Some e \<Rightarrow> if message = [] then e else message | None \<Rightarrow> message);
          message = (if message = [] then ''invalid BUSY Bar request'' else message)
      in \<lparr>ve_method = method, ve_path = path, ve_message = message\<rparr>)"

definition ResponseModeJSON :: string where "ResponseModeJSON = ''json''"
definition ResponseModeBytes :: string where "ResponseModeBytes = ''bytes''"
definition ResponseModeText :: string where "ResponseModeText = ''text''"

definition normalize_response_mode :: "string \<Rightarrow> string" where
  "normalize_response_mode mode = (if mode = [] then ResponseModeJSON else mode)"

definition validate_response_mode :: "string \<Rightarrow> string + string" where
  "validate_response_mode mode =
     (let mode = normalize_response_mode mode
      in if mode \<in> {ResponseModeJSON, ResponseModeBytes, ResponseModeText} then Inr mode
         else Inl ''response mode must be json, bytes, or text'')"

text \<open>What \<open>Prepare\<close> takes from outside: the Unicode tables, the file system and the generated identifier.\<close>

record prepare_env =
  ev_upper :: "string \<Rightarrow> string"
  ev_lower :: "string \<Rightarrow> string"
  ev_stat :: "string \<Rightarrow> string + bool \<times> int"
  ev_generated :: string

definition choose_request_id :: "prepare_env \<Rightarrow> header \<Rightarrow> request \<Rightarrow> string" where
  "choose_request_id ev h rq =
     (let id1 = header_value (ev_lower ev) h headerRequestID
      in if id1 \<noteq> [] then id1 else if rq_request_id rq \<noteq> [] then rq_request_id rq else ev_generated ev)"

definition request_header :: "prepare_env \<Rightarrow> client \<Rightarrow> header \<Rightarrow> request \<Rightarrow> prepared_body \<Rightarrow> header" where
  "request_header ev cl h rq b =
     (let h = h_set headerRequestID (choose_request_id ev h rq) h;
          session = (if rq_session_id rq = [] then cl_session cl else rq_session_id rq);
          h = (if session \<noteq> [] then h_set headerSessionID session h else h);
          h = (if cl_mode cl = EndpointLocal \<and> cl_token cl \<noteq> [] then h_set headerAPIToken (cl_token cl) h else h)
      in if pb_type b \<noteq> [] \<and> header_value (ev_lower ev) h ''Content-Type'' = []
         then h_set ''Content-Type'' (pb_type b) h else h)"

definition prepare_request_body :: "prepare_env \<Rightarrow> request \<Rightarrow> string + prepared_body" where
  "prepare_request_body ev rq =
     (case rq_body rq of None \<Rightarrow> Inr empty_prepared_body | Some b \<Rightarrow> prepare_body (ev_stat ev) b)"

definition prepare :: "prepare_env \<Rightarrow> client \<Rightarrow> request \<Rightarrow> validation_error + prepared_request" where
  "prepare ev cl rq =
     (let method = to_upper (ev_upper ev) (trim_space (rq_method rq))
      in if method = [] then Inl (mk_validation_error [] (rq_path rq) ''request method must not be empty'' None)
      else case canonical_api_path (rq_path rq) of
        Inl e \<Rightarrow> Inl (mk_validation_error method (rq_path rq) [] (Some e))
      | Inr path \<Rightarrow>
        if cl_mode cl = EndpointRemote \<and> is_remote_blocked_operation (ev_upper ev) method path then
          Inl (mk_validation_error method path (method @ '' '' @ path @ '' is blocked by the firmware MQTT remote transport'') None)
        else case prepare_request_body ev rq of
          Inl e \<Rightarrow> Inl (mk_validation_error method path (''prepare request body: '' @ e) (Some e))
        | Inr b \<Rightarrow>
          (case validate_caller_auth_headers (ev_lower ev) (rq_header rq) of
            Inl e \<Rightarrow> Inl (mk_validation_error method path [] (Some e))
          | Inr u \<Rightarrow>
            (case validate_response_mode (rq_mode rq) of
              Inl e \<Rightarrow> Inl (mk_validation_error method path [] (Some e))
            | Inr mode \<Rightarrow>
              Inr \<lparr>pr_method = method, pr_path = path,
                   pr_url = \<lparr>tu_scheme = bu_scheme (cl_base cl), tu_host = bu_host (cl_base cl), tu_path = path,
                             tu_query = (if rq_query rq = [] then [] else encode_query (rq_query rq))\<rparr>,
                   pr_header = request_header ev cl (rq_header rq) rq b,
                   pr_mode = mode, pr_request_id = choose_request_id ev (rq_header rq) rq, pr_body = b\<rparr>)))"

section \<open>Facts about headers\<close>

lemma canonical_names [simp]:
  "canonical_key headerRequestID = ''X-Request-Id''" "canonical_key headerSessionID = ''X-Session-Id''"
  "canonical_key headerAPIToken = ''X-Api-Token''" "canonical_key headerAPISemVer = ''X-Api-Sem-Ver''"
  "canonical_key ''Content-Type'' = ''Content-Type''"
  by code_simp+

lemma h_values_set [simp]:
  "h_values (h_set name v h) k = (if k = canonical_key name then [v] else h_values h k)"
proof (cases "k = canonical_key name")
  case False
  have "map_of (filter (\<lambda>(k', _). k' \<noteq> canonical_key name) h) k = map_of h k"
    using False by (induction h) auto
  then show ?thesis using False by (simp add: h_values_def h_set_def)
qed (simp add: h_values_def h_set_def)

lemma h_get_set [simp]: "h_get (h_set name v h) name' = (if canonical_key name' = canonical_key name then v else h_get h name')"
  by (simp add: h_get_def)

text \<open>The keys \<open>Prepare\<close> may write.\<close>

definition managed_keys :: "string set" where
  "managed_keys = {''X-Request-Id'', ''X-Session-Id'', ''X-Api-Token'', ''Content-Type''}"

lemma request_header_other:
  "k \<notin> managed_keys \<Longrightarrow> h_values (request_header ev cl h rq b) k = h_values h k"
  by (simp add: request_header_def managed_keys_def Let_def)

lemma request_header_id [simp]:
  "h_values (request_header ev cl h rq b) ''X-Request-Id'' = [choose_request_id ev h rq]"
  by (simp add: request_header_def Let_def)

lemma request_header_token:
  "h_values (request_header ev cl h rq b) ''X-Api-Token'' =
     (if cl_mode cl = EndpointLocal \<and> cl_token cl \<noteq> [] then [cl_token cl] else h_values h ''X-Api-Token'')"
  by (auto simp: request_header_def Let_def)

lemma request_header_session:
  "h_values (request_header ev cl h rq b) ''X-Session-Id'' =
     (let s = (if rq_session_id rq = [] then cl_session cl else rq_session_id rq)
      in if s = [] then h_values h ''X-Session-Id'' else [s])"
  by (auto simp: request_header_def Let_def)

section \<open>Facts about paths\<close>

lemma has_suffix_extend:
  assumes "has_suffix (p @ s) e" and "p \<noteq> []" and "last p \<notin> set e"
  shows "has_suffix s e"
proof -
  from assms(1) obtain t where t: "p @ s = t @ e" by (auto simp: has_suffix_iff)
  then consider us where "p = t @ us" "us @ s = e" | us where "s = us @ e" "t = p @ us"
    by (auto simp: append_eq_append_conv2)
  then show ?thesis
  proof cases
    case 1
    then have "us = []" using assms(2,3) by (cases us rule: rev_cases) auto
    then show ?thesis using 1 by (simp add: has_suffix_iff)
  qed (auto simp: has_suffix_iff)
qed

lemma space_suffix_zero: "space_suffix s = 0 \<longleftrightarrow> (\<forall>e \<in> set space_encodings. \<not> has_suffix s e)"
proof -
  have "\<forall>e \<in> set space_encodings. e \<noteq> []" by (simp add: space_encodings_def)
  then show ?thesis
    by (auto simp: space_suffix_def find_None_iff find_Some_iff split: option.splits)
qed

lemma trim_right_fixed: "trim_right_space s = s \<longleftrightarrow> s = [] \<or> space_suffix s = 0"
proof
  assume eq: "trim_right_space s = s"
  show "s = [] \<or> space_suffix s = 0"
  proof (rule ccontr)
    assume "\<not> (s = [] \<or> space_suffix s = 0)"
    then have ne: "s \<noteq> []" "space_suffix s \<noteq> 0" by auto
    then have t: "trim_right_space s = trim_right_space (take (length s - space_suffix s) s)"
      by (simp add: trim_right_space.simps [of s])
    obtain q where "take (length s - space_suffix s) s = trim_right_space (take (length s - space_suffix s) s) @ q"
      using trim_right_space_prefix by blast
    then have "length (trim_right_space s) \<le> length s - space_suffix s"
      by (metis t length_append length_take le_add1 min.cobounded2 order_trans)
    then show False using ne eq by (cases s) auto
  qed
next
  assume "s = [] \<or> space_suffix s = 0"
  then show "trim_right_space s = s" by (auto simp: trim_right_space.simps [of s])
qed

lemma trim_right_idem: "trim_right_space (trim_right_space s) = trim_right_space s"
proof (induction s rule: trim_right_space.induct)
  case (1 s)
  show ?case
  proof (cases "s \<noteq> [] \<and> space_suffix s \<noteq> 0")
    case True
    then show ?thesis using 1 by (simp add: trim_right_space.simps [of s])
  next
    case False
    then have "trim_right_space s = s" by (auto simp: trim_right_space.simps [of s])
    then show ?thesis by simp
  qed
qed

lemma trim_right_extend:
  assumes "trim_right_space s = s" and "s \<noteq> []" and "p = [] \<or> last p \<in> set ''/i''"
  shows "trim_right_space (p @ s) = p @ s"
proof (cases "p = []")
  case False
  then have "last p \<in> set ''/i''" using assms(3) by simp
  then have "\<forall>e \<in> set space_encodings. last p \<notin> set e" by (auto simp: space_encodings_def)
  then have "space_suffix (p @ s) = 0"
    using assms(1,2) has_suffix_extend [OF _ False] by (auto simp: trim_right_fixed space_suffix_zero)
  then show ?thesis by (simp add: trim_right_fixed)
qed (simp add: assms(1))

lemma trim_left_slash: "has_prefix s ''/'' \<Longrightarrow> trim_left_space s = s"
proof -
  assume "has_prefix s ''/''"
  then obtain t where "s = CHR ''/'' # t" by (auto simp: has_prefix_iff)
  then have "space_prefix s = 0" by (simp add: space_prefix_def space_encodings_def has_prefix_def)
  then show ?thesis by (simp add: trim_left_space.simps [of s])
qed

lemma contains_cons_slash: "c \<noteq> CHR '':'' \<Longrightarrow> contains (c # s) ''://'' = contains s ''://''"
  by (simp add: has_prefix_def)

lemma contains_api: "contains (''/api'' @ s) ''://'' = contains s ''://''"
  by (simp add: contains_cons_slash del: contains.simps)

definition api_path :: "string \<Rightarrow> bool" where
  "api_path p \<longleftrightarrow> p = ''/api'' \<or> has_prefix p ''/api/''"

lemma canonical_api_path_result:
  assumes "canonical_api_path raw = Inr p"
  obtains q where "p = q @ trim_space raw" "q \<in> {[], ''/'', ''/api'', ''/api/''}" "api_path p"
    "trim_space raw \<noteq> []" "\<not> contains (trim_space raw) ''://''" "has_prefix p ''/''"
proof -
  have slash: "has_prefix (''/'' @ t) ''/''" "api_path (''/api'' @ ''/'' @ t)" for t :: string
    by (simp_all add: has_prefix_def api_path_def)
  from assms show thesis
    using that [of "[]"] that [of "''/''"] that [of "''/api''"] that [of "''/api/''"]
    by (auto simp: canonical_api_path_def Let_def api_path_def has_prefix_iff split: if_splits)
qed

lemma canonical_api_path_idem:
  assumes "canonical_api_path raw = Inr p"
  shows "canonical_api_path p = Inr p"
proof -
  obtain q where q: "p = q @ trim_space raw" "q \<in> {[], ''/'', ''/api'', ''/api/''}" "api_path p"
    "trim_space raw \<noteq> []" "\<not> contains (trim_space raw) ''://''" "has_prefix p ''/''"
    using assms by (rule canonical_api_path_result)
  have "trim_right_space p = p"
    unfolding q(1) using q(2,4) by (intro trim_right_extend) (auto simp: trim_space_def trim_right_idem)
  then have t: "trim_space p = p" using trim_left_slash [OF q(6)] by (simp add: trim_space_def)
  have "\<not> contains p ''://''"
    using q(2,5) contains_api [of "''/'' @ trim_space raw"] contains_api [of "trim_space raw"]
      contains_cons_slash [of "CHR ''/''" "trim_space raw"]
    by (auto simp: q(1) simp del: contains.simps)
  moreover have "\<not> has_prefix p ''/busybar''" "p \<noteq> []"
    using q(3) by (auto simp: api_path_def has_prefix_iff)
  ultimately show ?thesis using q(3,6) by (simp add: canonical_api_path_def t Let_def api_path_def)
qed

section \<open>Properties\<close>

lemma mk_validation_error_message: "ve_message (mk_validation_error m p msg err) \<noteq> []"
  by (simp add: mk_validation_error_def Let_def)

lemma caller_auth_ok:
  "validate_caller_auth_headers lm h = Inr u \<longleftrightarrow>
     header_value lm h ''Authorization'' = [] \<and> header_value lm h headerAPIToken = []"
  by (auto simp: validate_caller_auth_headers_def)

lemma header_value_empty: "header_value lm h name = [] \<Longrightarrow> h_get h name = []"
  by (auto simp: header_value_def split: if_splits)

lemma api_path_canonical: "canonical_api_path raw = Inr p \<Longrightarrow> api_path p"
  by (erule canonical_api_path_result)

lemma validate_mode_ok: "is_ok (validate_response_mode m) \<longleftrightarrow> m \<in> {[], ''json'', ''bytes'', ''text''}"
  by (auto simp: validate_response_mode_def normalize_response_mode_def ResponseModeJSON_def
      ResponseModeBytes_def ResponseModeText_def Let_def)

lemma auth_is_ok:
  "is_ok (validate_caller_auth_headers lm h) \<longleftrightarrow>
     header_value lm h ''Authorization'' = [] \<and> header_value lm h headerAPIToken = []"
  by (simp add: is_ok_iff caller_auth_ok)

lemma request_header_auth:
  "h_get (request_header ev cl h rq b) ''Authorization'' = h_get h ''Authorization''"
proof -
  have "canonical_key ''Authorization'' = ''Authorization''" by code_simp
  then show ?thesis by (simp add: h_get_def request_header_other managed_keys_def)
qed

lemma prepare_message: "prepare ev cl rq = Inl e \<Longrightarrow> ve_message e \<noteq> []"
  by (simp add: prepare_def Let_def split: if_splits sum.splits) (auto simp: mk_validation_error_message)

lemma prepare_is_ok:
  "is_ok (prepare ev cl rq) \<longleftrightarrow>
     (let m = to_upper (ev_upper ev) (trim_space (rq_method rq))
      in m \<noteq> [] \<and> is_ok (canonical_api_path (rq_path rq))
      \<and> \<not> (cl_mode cl = EndpointRemote \<and>
            is_remote_blocked_operation (ev_upper ev) m (case canonical_api_path (rq_path rq) of Inl _ \<Rightarrow> [] | Inr p \<Rightarrow> p))
      \<and> is_ok (prepare_request_body ev rq)
      \<and> is_ok (validate_caller_auth_headers (ev_lower ev) (rq_header rq))
      \<and> is_ok (validate_response_mode (rq_mode rq)))"
  by (simp add: prepare_def Let_def split: sum.split)

lemma prepare_result:
  assumes "prepare ev cl rq = Inr p"
  shows "\<exists>b mode u. canonical_api_path (rq_path rq) = Inr (pr_path p)
    \<and> pr_method p = to_upper (ev_upper ev) (trim_space (rq_method rq))
    \<and> validate_caller_auth_headers (ev_lower ev) (rq_header rq) = Inr u
    \<and> pr_header p = request_header ev cl (rq_header rq) rq b
    \<and> pr_request_id p = choose_request_id ev (rq_header rq) rq \<and> tu_path (pr_url p) = pr_path p
    \<and> tu_scheme (pr_url p) = bu_scheme (cl_base cl) \<and> tu_host (pr_url p) = bu_host (cl_base cl)
    \<and> prepare_request_body ev rq = Inr b \<and> pr_body p = b
    \<and> validate_response_mode (rq_mode rq) = Inr mode \<and> pr_mode p = mode"
  using assms by (simp add: prepare_def Let_def split: if_splits sum.splits) auto

text \<open>
  C14: \<open>Prepare\<close> succeeds exactly when the method is not blank, the path is a relative API path, the
  operation is not one the firmware refuses in remote mode, the body can be prepared, the caller
  brought no authentication header and the response mode is known. The result is a canonical path
  under \<open>/api\<close> on the origin of the client; its header keeps every value of the caller but for the
  four names \<open>Prepare\<close> manages, has exactly one request identifier, the one reported, has the local
  token exactly in local mode, and never an \<open>Authorization\<close> value the caller put first.
\<close>

theorem prepare_spec:
  fixes ev cl rq
  defines "m \<equiv> to_upper (ev_upper ev) (trim_space (rq_method rq))"
  shows "(is_ok (prepare ev cl rq) \<longleftrightarrow>
      m \<noteq> [] \<and> is_ok (canonical_api_path (rq_path rq))
      \<and> \<not> (cl_mode cl = EndpointRemote \<and>
            is_remote_blocked_operation (ev_upper ev) m (case canonical_api_path (rq_path rq) of Inl _ \<Rightarrow> [] | Inr p \<Rightarrow> p))
      \<and> is_ok (prepare_request_body ev rq)
      \<and> header_value (ev_lower ev) (rq_header rq) ''Authorization'' = []
      \<and> header_value (ev_lower ev) (rq_header rq) headerAPIToken = []
      \<and> rq_mode rq \<in> {[], ''json'', ''bytes'', ''text''})
    \<and> (case prepare ev cl rq of
         Inl e \<Rightarrow> ve_message e \<noteq> []
       | Inr p \<Rightarrow>
           api_path (pr_path p) \<and> canonical_api_path (pr_path p) = Inr (pr_path p)
         \<and> pr_method p = m \<and> tu_path (pr_url p) = pr_path p
         \<and> tu_scheme (pr_url p) = bu_scheme (cl_base cl) \<and> tu_host (pr_url p) = bu_host (cl_base cl)
         \<and> (\<forall>k. k \<in> managed_keys \<or> h_values (pr_header p) k = h_values (rq_header rq) k)
         \<and> h_values (pr_header p) ''X-Request-Id'' = [pr_request_id p]
         \<and> h_get (pr_header p) headerAPIToken = (if cl_mode cl = EndpointLocal then cl_token cl else [])
         \<and> h_get (pr_header p) ''Authorization'' = [])"
proof -
  have iff: "is_ok (prepare ev cl rq) \<longleftrightarrow>
      m \<noteq> [] \<and> is_ok (canonical_api_path (rq_path rq))
      \<and> \<not> (cl_mode cl = EndpointRemote \<and>
            is_remote_blocked_operation (ev_upper ev) m (case canonical_api_path (rq_path rq) of Inl _ \<Rightarrow> [] | Inr p \<Rightarrow> p))
      \<and> is_ok (prepare_request_body ev rq)
      \<and> is_ok (validate_caller_auth_headers (ev_lower ev) (rq_header rq))
      \<and> is_ok (validate_response_mode (rq_mode rq))"
    unfolding m_def using prepare_is_ok [of ev cl rq] by (simp add: Let_def)
  show ?thesis
  proof (cases "prepare ev cl rq")
    case (Inl e)
    then show ?thesis
      using iff prepare_message [OF Inl] by (simp add: auth_is_ok validate_mode_ok)
  next
    case (Inr p)
    from prepare_result [OF Inr] obtain b mode u where
      p: "canonical_api_path (rq_path rq) = Inr (pr_path p)" "pr_method p = m"
      "validate_caller_auth_headers (ev_lower ev) (rq_header rq) = Inr u"
      "pr_header p = request_header ev cl (rq_header rq) rq b"
      "pr_request_id p = choose_request_id ev (rq_header rq) rq" "tu_path (pr_url p) = pr_path p"
      "tu_scheme (pr_url p) = bu_scheme (cl_base cl)" "tu_host (pr_url p) = bu_host (cl_base cl)"
      unfolding m_def by blast
    have auth: "header_value (ev_lower ev) (rq_header rq) ''Authorization'' = []"
      "header_value (ev_lower ev) (rq_header rq) headerAPIToken = []"
      using p(3) by (simp_all add: caller_auth_ok)
    have "h_get (pr_header p) ''Authorization'' = []"
      using header_value_empty [OF auth(1)] by (simp add: p(4) request_header_auth)
    moreover have "h_get (pr_header p) headerAPIToken = (if cl_mode cl = EndpointLocal then cl_token cl else [])"
      using header_value_empty [OF auth(2)] by (auto simp: p(4) h_get_def request_header_token)
    moreover have "\<forall>k. k \<in> managed_keys \<or> h_values (pr_header p) k = h_values (rq_header rq) k"
      using request_header_other by (simp add: p(4)) blast
    ultimately show ?thesis
      using iff Inr auth p api_path_canonical [OF p(1)] canonical_api_path_idem [OF p(1)]
      by (simp add: auth_is_ok validate_mode_ok)
  qed
qed

definition blocked_in_order :: "string list" where
  "blocked_in_order =
     [''DELETE /api/account'', ''PUT /api/account/backend'', ''POST /api/account/link'', ''POST /api/update'',
      ''POST /api/wifi/connect'', ''POST /api/wifi/disconnect'', ''GET /api/wifi/networks'']"

lemma blocked_keys_inj: "inj_on operation_key (set remoteBlockedOperations)"
  unfolding inj_on_def remoteBlockedOperations_def by code_simp

lemma blocked_sorted: "sorted (map operation_key blocked_in_order)"
  unfolding blocked_in_order_def by code_simp

lemma blocked_mset: "mset blocked_in_order = mset remoteBlockedOperations"
  by (simp add: blocked_in_order_def remoteBlockedOperations_def)

text \<open>
  \<open>RemoteBlockedOperations\<close> always returns the seven operations in the one order by path and
  method, in whatever order the map is visited, and whatever correct sort is used; each of them is
  refused by \<open>IsRemoteBlockedOperation\<close>, with and without a trailing slash.
\<close>

theorem remote_blocked_order:
  assumes "mset visited = mset remoteBlockedOperations"
  shows "remote_blocked_operations visited = blocked_in_order
    \<and> (mset out = mset visited \<and> sorted (map operation_key out) \<longrightarrow> out = blocked_in_order)
    \<and> list_all (\<lambda>op. let (m, p) = split_operation_id op
         in is_remote_blocked_operation um m p \<and> is_remote_blocked_operation um m (p @ ''/'')) blocked_in_order"
proof -
  have uniq: "out = blocked_in_order"
    if "mset out = mset visited" "sorted (map operation_key out)" for out
  proof (rule map_sorted_distinct_set_unique)
    have m: "mset out = mset remoteBlockedOperations" using that(1) assms by simp
    then have s: "set out = set remoteBlockedOperations" by (rule mset_eq_setD)
    have "distinct remoteBlockedOperations" unfolding remoteBlockedOperations_def by code_simp
    then have "distinct out" using m by (metis mset_eq_imp_distinct_iff)
    then show "distinct (map operation_key out)"
      using blocked_keys_inj s by (simp add: distinct_map)
    show "sorted (map operation_key out)" by (rule that(2))
    have b: "set blocked_in_order = set remoteBlockedOperations" using blocked_mset by (rule mset_eq_setD)
    then show "set out = set blocked_in_order" using s by simp
    show "sorted (map operation_key blocked_in_order)" by (rule blocked_sorted)
    show "inj_on operation_key (set out \<union> set blocked_in_order)" using blocked_keys_inj s b by simp
    have "distinct blocked_in_order" unfolding blocked_in_order_def by code_simp
    then show "distinct (map operation_key blocked_in_order)"
      using blocked_keys_inj b by (simp add: distinct_map)
  qed
  have "list_all (\<lambda>op. let (m, p) = split_operation_id op
         in is_remote_blocked_operation um m p \<and> is_remote_blocked_operation um m (p @ ''/'')) blocked_in_order"
    unfolding blocked_in_order_def by code_simp
  then show ?thesis using uniq by (simp add: remote_blocked_operations_def)
qed

theorem remote_blocked_order_witness:
  "remote_blocked_operations (rev remoteBlockedOperations) = blocked_in_order"
  using remote_blocked_order [of "rev remoteBlockedOperations" blocked_in_order id] by simp

section \<open>Progress bodies\<close>

lemma progress_reads_facts:
  "sorted_wrt (<) (w # map fst (progress_reads w n ns))
   \<and> last (w # map fst (progress_reads w n ns)) = w + int (sum_list ns)
   \<and> set (map snd (progress_reads w n ns)) \<subseteq> {n}
   \<and> length (progress_reads w n ns) = length (filter (\<lambda>k. 0 < k) ns)"
proof (induction w n ns rule: progress_reads.induct)
  case (2 w n k ns)
  show ?case
  proof (cases "0 < k")
    case True
    then have IH: "sorted_wrt (<) ((w + int k) # map fst (progress_reads (w + int k) n ns))" using 2 by simp
    then have "\<forall>y \<in> set (map fst (progress_reads (w + int k) n ns)). w < y" using True by fastforce
    then show ?thesis using 2 True by (cases "progress_reads (w + int k) n ns") (auto split: if_splits)
  next
    case False
    then show ?thesis using 2 by simp
  qed
qed simp

lemma open_progress:
  "open_source files t (ProgressSource s n) used =
     (map_sum id (map_option (\<lambda>ob. ob\<lparr>ob_totals := n # ob_totals ob\<rparr>)) (fst (open_source files t s used)),
      snd (open_source files t s used))"
  by (cases "open_source files t s used") (auto split: sum.splits option.splits)

text \<open>
  \<open>ProgressBody\<close> is transparent: it fails exactly when the wrapped body does and keeps the content
  type, the length and the repeatability; opening it fails, or gives no reader, or gives the same
  reader as opening the wrapped body and consumes the same one-shot bodies; and the callback sees the
  running byte count of the attempt: from zero again on every open, strictly increasing, up to all
  bytes read, with the declared length.
\<close>

theorem progress_body_spec:
  "(case prepare_body stat b of
      Inl e \<Rightarrow> prepare_body stat (ProgressBody (Some b) callback) = Inl e
    | Inr p \<Rightarrow> (case prepare_body stat (ProgressBody (Some b) callback) of Inl _ \<Rightarrow> False
        | Inr p' \<Rightarrow> p' = p\<lparr>pb_source := pb_source p'\<rparr>
          \<and> open_source files t (pb_source p') used =
             (map_sum id (map_option (\<lambda>ob. ob\<lparr>ob_totals := (if callback then [pb_length p] else []) @ ob_totals ob\<rparr>))
                (fst (open_source files t (pb_source p) used)),
              snd (open_source files t (pb_source p) used))))
   \<and> (let reports = progress_reads 0 n ns
      in sorted_wrt (<) (0 # map fst reports) \<and> last (0 # map fst reports) = int (sum_list ns)
         \<and> set (map snd reports) \<subseteq> {n} \<and> length reports = length (filter (\<lambda>k. 0 < k) ns))"
proof -
  have id: "map_sum id (map_option (\<lambda>ob. ob)) r = r" for r :: "string + opened_body option"
    by (cases r) (auto simp: option.map_ident)
  show ?thesis
    using progress_reads_facts [of 0 n ns]
    by (cases "prepare_body stat b"; cases callback) (auto simp: open_progress id Let_def simp del: open_source.simps(6))
qed

text \<open>Only the first value of a key is looked at: a second one passes and is kept.\<close>

lemma caller_auth_second_value:
  "validate_caller_auth_headers lm [(''Authorization'', ['''', ''Bearer x''])] = Inr ()"
proof -
  have "canonical_key ''Authorization'' = ''Authorization''" by code_simp
  then show ?thesis by (simp add: caller_auth_ok header_value_def h_get_def h_values_def)
qed

end
