(* ===== verification/ConvertAudio.thy ===== *)
theory ConvertAudio
  imports AnimationSources Request
begin

text \<open>
  \<open>convert/audio\<close>: PCM for the device, passed through when the file is ready or made by ffmpeg. The process
  is a parameter: what it writes to its two pipes, chunk by chunk, and how it ends.
\<close>

section \<open>Errors and options\<close>

datatype audio_cause =
    AuUnsupportedFormat | AuInvalidAudio | AuToolFailed | AuOutputTooLarge
  | AuText string
  | AuJoin "audio_cause list"

record audio_error =
  ae_operation :: string
  ae_input_format :: string
  ae_tool :: string
  ae_stderr :: string
  ae_cause :: audio_cause

text \<open>\<open>Convert\<close> returns the errors of its options as they are, all others as a \<open>ConversionError\<close>.\<close>

datatype audio_fail = AudioOptionError audio_cause | AudioConversionError audio_error

fun audio_cause_text :: "audio_cause \<Rightarrow> string" where
  "audio_cause_text AuUnsupportedFormat = ''unsupported audio conversion input''"
| "audio_cause_text AuInvalidAudio = ''invalid BUSY Bar PCM audio''"
| "audio_cause_text AuToolFailed = ''audio conversion tool failed''"
| "audio_cause_text AuOutputTooLarge = ''audio output exceeds the configured limit''"
| "audio_cause_text (AuText t) = t"
| "audio_cause_text (AuJoin cs) = join_with [CHR 0x0A] (map audio_cause_text cs)"

definition audio_error_text :: "audio_error \<Rightarrow> string" where
  "audio_error_text e =
     (let message = ''audio '' @ ae_operation e @ '' failed'';
          message = (if ae_input_format e \<noteq> [] then message @ '' for '' @ ae_input_format e @ '' input'' else message);
          message = (if ae_tool e \<noteq> [] then message @ '' using '' @ ae_tool e else message)
      in if ae_stderr e \<noteq> [] then message @ '': '' @ audio_cause_text (ae_cause e) @ '': '' @ ae_stderr e
         else message @ '': '' @ audio_cause_text (ae_cause e))"

definition audio_error_of :: "string \<Rightarrow> string \<Rightarrow> audio_cause \<Rightarrow> audio_error" where
  "audio_error_of operation format cause =
     \<lparr>ae_operation = operation, ae_input_format = format, ae_tool = [], ae_stderr = [], ae_cause = cause\<rparr>"

text \<open>A run of the tool: the chunks of its output and of its error output, and how \<open>Run\<close> ends otherwise.\<close>

record tool_run =
  tr_stdout :: "bytes list"
  tr_stderr :: "string list"
  tr_run_error :: "audio_cause option"
  tr_ctx_error :: "audio_cause option"

type_synonym command_factory = "string \<Rightarrow> string list \<Rightarrow> audio_cause reader \<Rightarrow> tool_run"

record audio_config =
  ac_ffmpeg :: string
  ac_factory :: "command_factory option"
  ac_max_output :: int

datatype audio_option =
    AudioMaxOutputBytes int
  | AudioFFmpegPath string
  | AudioCommandFactory "command_factory option"

fun apply_audio_option :: "audio_option \<Rightarrow> audio_config \<Rightarrow> audio_cause + audio_config" where
  "apply_audio_option (AudioMaxOutputBytes m) c =
     (if m \<le> 0 then Inl (AuText ''maximum audio output size must be greater than zero'') else Inr (c\<lparr>ac_max_output := m\<rparr>))"
| "apply_audio_option (AudioFFmpegPath p) c =
     (if trim_space p = [] then Inl (AuText ''ffmpeg path must not be empty'') else Inr (c\<lparr>ac_ffmpeg := p\<rparr>))"
| "apply_audio_option (AudioCommandFactory f) c =
     (if f = None then Inl (AuText ''audio command factory must not be nil'') else Inr (c\<lparr>ac_factory := f\<rparr>))"

fun audio_option_ok :: "audio_option \<Rightarrow> bool" where
  "audio_option_ok (AudioMaxOutputBytes m) \<longleftrightarrow> 0 < m"
| "audio_option_ok (AudioFFmpegPath p) \<longleftrightarrow> trim_space p \<noteq> []"
| "audio_option_ok (AudioCommandFactory f) \<longleftrightarrow> f \<noteq> None"

fun set_audio_option :: "audio_option \<Rightarrow> audio_config \<Rightarrow> audio_config" where
  "set_audio_option (AudioMaxOutputBytes m) c = c\<lparr>ac_max_output := m\<rparr>"
| "set_audio_option (AudioFFmpegPath p) c = c\<lparr>ac_ffmpeg := p\<rparr>"
| "set_audio_option (AudioCommandFactory f) c = c\<lparr>ac_factory := f\<rparr>"

definition valid_audio_config :: "audio_config \<Rightarrow> bool" where
  "valid_audio_config c \<longleftrightarrow> 0 < ac_max_output c \<and> ac_factory c \<noteq> None"

interpretation audio_opts: plain_options apply_audio_option audio_option_ok set_audio_option valid_audio_config
proof
  show "apply_audio_option op c = Inr c' \<longleftrightarrow> audio_option_ok op \<and> c' = set_audio_option op c" for op c c'
    by (cases op) auto
  show "valid_audio_config c \<Longrightarrow> audio_option_ok op \<Longrightarrow> valid_audio_config (set_audio_option op c)" for op c
    by (cases op) (simp_all add: valid_audio_config_def)
qed

definition OutputExtension :: string where "OutputExtension = ''.snd''"
definition maxToolStderr :: nat where "maxToolStderr = 4096"

definition default_audio_config :: "command_factory \<Rightarrow> audio_config" where
  "default_audio_config exec = \<lparr>ac_ffmpeg = ''ffmpeg'', ac_factory = Some exec, ac_max_output = 64 * 2 ^ 20\<rparr>"

definition ready_extensions :: "string list" where
  "ready_extensions = [OutputExtension, ''.raw'', ''.pcm'']"

definition input_extensions :: "string list" where
  "input_extensions = [''.mp3'', ''.ogg'', ''.aac'', ''.m4a'', ''.flac'', ''.wav'']"

record audio_result =
  ar_data :: bytes
  ar_extension :: string

section \<open>The limited buffers\<close>

text \<open>\<open>limitedOutputBuffer.Write\<close>: the count it returns, whether it fails, and the buffer.\<close>

record output_buffer =
  ob_data :: bytes
  ob_maximum :: int
  ob_exceeded :: bool

definition output_write :: "bytes \<Rightarrow> output_buffer \<Rightarrow> (int \<times> bool) \<times> output_buffer" where
  "output_write data b =
     (let remaining = ob_maximum b - int (length (ob_data b))
      in if int (length data) \<le> remaining then ((int (length data), False), b\<lparr>ob_data := ob_data b @ data\<rparr>)
         else ((max remaining 0, True),
               b\<lparr>ob_exceeded := True, ob_data := (if 0 < remaining then ob_data b @ take (nat remaining) data else ob_data b)\<rparr>))"

text \<open>The copy from the pipe stops at the first write that fails.\<close>

fun copy_output :: "bytes list \<Rightarrow> output_buffer \<Rightarrow> output_buffer" where
  "copy_output [] b = b"
| "copy_output (d # ds) b = (case output_write d b of ((n, failed), b') \<Rightarrow> if failed then b' else copy_output ds b')"

definition stderr_write :: "nat \<Rightarrow> string \<Rightarrow> string \<Rightarrow> string" where
  "stderr_write maximum buffer data =
     (let remaining = int maximum - int (length buffer)
      in if 0 < remaining then buffer @ take (min (length data) (nat remaining)) data else buffer)"

section \<open>Convert\<close>

definition read_ready_pcm :: "audio_cause reader \<Rightarrow> string \<Rightarrow> int \<Rightarrow> audio_error + audio_result" where
  "read_ready_pcm source extension maximum =
     (case read_limited maximum source of
        Inl e \<Rightarrow> Inl (audio_error_of ''read'' extension e)
      | Inr data \<Rightarrow>
          if int (length data) > maximum then Inl (audio_error_of ''read'' extension AuOutputTooLarge)
          else if length data = 0 \<or> length data mod 2 \<noteq> 0 then Inl (audio_error_of ''validate'' extension AuInvalidAudio)
          else Inr \<lparr>ar_data = data, ar_extension = OutputExtension\<rparr>)"

definition ffmpeg_arguments :: "string list" where
  "ffmpeg_arguments =
     [''-hide_banner'', ''-loglevel'', ''error'', ''-nostdin'', ''-i'', ''pipe:0'', ''-f'', ''s16le'', ''-acodec'', ''pcm_s16le'',
      ''-ac'', ''1'', ''-ar'', ''44100'', ''pipe:1'']"

text \<open>\<open>Run\<close> fails with the error of the copy when the process itself has none.\<close>

definition run_ffmpeg :: "audio_cause reader \<Rightarrow> string \<Rightarrow> audio_config \<Rightarrow> audio_error + audio_result" where
  "run_ffmpeg source extension config =
     (case ac_factory config of
        None \<Rightarrow> Inl (audio_error_of ''transcode'' extension (AuText ''panic''))
      | Some factory \<Rightarrow>
          let run = factory (ac_ffmpeg config) ffmpeg_arguments source;
              output = copy_output (tr_stdout run) \<lparr>ob_data = [], ob_maximum = ac_max_output config, ob_exceeded = False\<rparr>;
              stderr = fold (\<lambda>d b. stderr_write maxToolStderr b d) (tr_stderr run) [];
              fail = (\<lambda>operation err cause. Inl \<lparr>ae_operation = operation, ae_input_format = extension,
                        ae_tool = ac_ffmpeg config, ae_stderr = err, ae_cause = cause\<rparr>)
          in if ob_exceeded output then fail ''transcode'' [] AuOutputTooLarge
             else (case tr_run_error run of
               Some e \<Rightarrow>
                 fail ''transcode'' (trim_space stderr)
                   (AuJoin [AuToolFailed, case tr_ctx_error run of Some c \<Rightarrow> c | None \<Rightarrow> e])
             | None \<Rightarrow>
                 if length (ob_data output) = 0 \<or> length (ob_data output) mod 2 \<noteq> 0 then fail ''validate'' [] AuInvalidAudio
                 else Inr \<lparr>ar_data = ob_data output, ar_extension = OutputExtension\<rparr>))"

definition convert_audio ::
  "(string \<Rightarrow> string) \<Rightarrow> command_factory \<Rightarrow> audio_cause reader option \<Rightarrow> string \<Rightarrow> audio_option option list
    \<Rightarrow> audio_fail + audio_result"
where
  "convert_audio lm exec source filename options =
     (case resolve_options apply_audio_option options (default_audio_config exec) of
        Inl e \<Rightarrow> Inl (AudioOptionError e)
      | Inr config \<Rightarrow>
          let extension = to_lower lm (filepath_ext filename)
          in case source of
               None \<Rightarrow> Inl (AudioConversionError (audio_error_of ''validate'' extension AuInvalidAudio))
             | Some r \<Rightarrow>
                 if extension \<in> set ready_extensions
                 then map_sum AudioConversionError id (read_ready_pcm r extension (ac_max_output config))
                 else if extension \<notin> set input_extensions
                 then Inl (AudioConversionError (audio_error_of ''validate'' extension AuUnsupportedFormat))
                 else map_sum AudioConversionError id (run_ffmpeg r extension config))"

definition convert_audio_file ::
  "(string \<Rightarrow> audio_cause + audio_cause reader) \<Rightarrow> (string \<Rightarrow> string) \<Rightarrow> command_factory \<Rightarrow> string \<Rightarrow> audio_option option list
    \<Rightarrow> audio_fail + audio_result"
where
  "convert_audio_file os_open lm exec path options =
     (case os_open path of
        Inl e \<Rightarrow> Inl (AudioConversionError (audio_error_of ''open'' (to_lower lm (filepath_ext path)) e))
      | Inr r \<Rightarrow> convert_audio lm exec (Some r) path options)"

section \<open>Facts\<close>

lemma copy_output_from:
  assumes "int (length (ob_data b)) \<le> ob_maximum b"
  shows "copy_output ds b =
    b\<lparr>ob_data := take (nat (ob_maximum b)) (ob_data b @ concat ds),
      ob_exceeded := ob_exceeded b \<or> ob_maximum b < int (length (ob_data b @ concat ds))\<rparr>"
  using assms
proof (induction ds arbitrary: b)
  case (Cons d ds)
  show ?case
  proof (cases "int (length d) \<le> ob_maximum b - int (length (ob_data b))")
    case True
    then show ?thesis using Cons.IH [of "b\<lparr>ob_data := ob_data b @ d\<rparr>"] by (simp add: output_write_def Let_def)
  next
    case False
    then have "nat (ob_maximum b - int (length (ob_data b))) = nat (ob_maximum b) - length (ob_data b)"
      and "nat (ob_maximum b) - length (ob_data b) \<le> length d" by simp_all
    then show ?thesis using False Cons.prems by (cases b) (auto simp: output_write_def Let_def)
  qed
qed simp

text \<open>The error output kept is the beginning of all the tool wrote.\<close>

lemma stderr_kept: "fold (\<lambda>d b. stderr_write m b d) ds (take m s) = take m (s @ concat ds)"
proof (induction ds arbitrary: s)
  case (Cons d ds)
  have "stderr_write m (take m s) d = take m (s @ d)"
    by (auto simp: stderr_write_def Let_def min_def nat_diff_distrib)
  then show ?case using Cons.IH [of "s @ d"] by simp
qed simp

definition pcm_ok :: "int \<Rightarrow> bytes \<Rightarrow> bool" where
  "pcm_ok maximum data \<longleftrightarrow> data \<noteq> [] \<and> even (length data) \<and> int (length data) \<le> maximum"

lemma read_ready_pcm_ok:
  assumes "0 < m"
  shows "read_ready_pcm r ext m = Inr res \<longleftrightarrow>
    rd_err r = None \<and> pcm_ok m (rd_data r) \<and> res = \<lparr>ar_data = rd_data r, ar_extension = OutputExtension\<rparr>"
proof
  assume "read_ready_pcm r ext m = Inr res"
  then obtain d where d: "read_limited m r = Inr d" "\<not> int (length d) > m" "length d \<noteq> 0" "length d mod 2 = 0"
    "res = \<lparr>ar_data = d, ar_extension = OutputExtension\<rparr>"
    by (auto simp: read_ready_pcm_def split: sum.splits if_splits)
  then show "rd_err r = None \<and> pcm_ok m (rd_data r) \<and> res = \<lparr>ar_data = rd_data r, ar_extension = OutputExtension\<rparr>"
    using read_limited_Inr [of m r d] assms by (auto simp: pcm_ok_def)
next
  assume "rd_err r = None \<and> pcm_ok m (rd_data r) \<and> res = \<lparr>ar_data = rd_data r, ar_extension = OutputExtension\<rparr>"
  then show "read_ready_pcm r ext m = Inr res"
    using read_limited_fits [of r m] by (auto simp: read_ready_pcm_def pcm_ok_def)
qed

lemma run_ffmpeg_ok:
  fixes r :: "audio_cause reader"
  assumes "0 < ac_max_output c" and "ac_factory c = Some f"
  defines "run \<equiv> f (ac_ffmpeg c) ffmpeg_arguments r"
  shows "run_ffmpeg r ext c = Inr res \<longleftrightarrow>
    tr_run_error run = None \<and> pcm_ok (ac_max_output c) (concat (tr_stdout run))
    \<and> res = \<lparr>ar_data = concat (tr_stdout run), ar_extension = OutputExtension\<rparr>"
  using assms
  by (auto simp: run_ffmpeg_def Let_def copy_output_from pcm_ok_def run_def [symmetric] split: option.splits)

section \<open>Property\<close>

text \<open>What the conversion of a file with this extension yields before it is checked.\<close>

definition audio_source :: "audio_config \<Rightarrow> string \<Rightarrow> audio_cause reader \<Rightarrow> bytes option" where
  "audio_source c extension r =
     (if extension \<in> set ready_extensions then if rd_err r = None then Some (rd_data r) else None
      else if extension \<in> set input_extensions then
        (let run = the (ac_factory c) (ac_ffmpeg c) ffmpeg_arguments r
         in if tr_run_error run = None then Some (concat (tr_stdout run)) else None)
      else None)"

text \<open>
  C36: \<open>Convert\<close> succeeds exactly when all options are acceptable, there is a source, its extension is known,
  reading it or the tool ends without error, and the complete data is a non-empty sequence of 16-bit samples
  within the limit; the result is then that data unchanged. In particular no output is ever cut off
  silently, in however many pieces the tool writes it.
\<close>

theorem convert_audio_spec:
  "convert_audio lm exec source filename options = Inr res \<longleftrightarrow>
     (let c = fold set_audio_option (non_nil options) (default_audio_config exec)
      in list_all audio_option_ok (non_nil options) \<and> ar_extension res = OutputExtension
         \<and> (case source of None \<Rightarrow> False
            | Some r \<Rightarrow> audio_source c (to_lower lm (filepath_ext filename)) r = Some (ar_data res)
                \<and> pcm_ok (ac_max_output c) (ar_data res)))"
proof (cases "resolve_options apply_audio_option options (default_audio_config exec)")
  case (Inl e)
  then have "\<not> list_all audio_option_ok (non_nil options)"
    using audio_opts.resolve_iff [of options "default_audio_config exec"] by (auto simp: list_all_iff)
  then show ?thesis using Inl by (simp add: convert_audio_def Let_def)
next
  case (Inr c)
  then have ok: "list_all audio_option_ok (non_nil options)" and c: "c = fold set_audio_option (non_nil options) (default_audio_config exec)"
    using audio_opts.resolve_iff [of options "default_audio_config exec"] by (auto simp: list_all_iff)
  have "valid_audio_config (default_audio_config exec)" by (simp add: valid_audio_config_def default_audio_config_def)
  then have "valid_audio_config c" using Inr by (rule audio_opts.resolve_valid)
  then obtain f where v: "0 < ac_max_output c" "ac_factory c = Some f" by (auto simp: valid_audio_config_def)
  have m: "map_sum AudioConversionError id y = Inr res \<longleftrightarrow> y = Inr res" for y by (cases y) auto
  have e: "res = \<lparr>ar_data = d, ar_extension = x\<rparr> \<longleftrightarrow> ar_data res = d \<and> ar_extension res = x" for d x by (cases res) auto
  show ?thesis
    unfolding convert_audio_def Inr Let_def c [symmetric] audio_source_def
    by (auto simp: ok m e v read_ready_pcm_ok run_ffmpeg_ok split: option.split)
qed

end
