(* ===== verification/UsbProtocol.thy ===== *)
theory UsbProtocol
  imports Prelude
begin

text \<open>
  Package \<open>usb\<close>, the wire side (\<open>protocol.go\<close>): building a command line, framing a response by
  the firmware prompt, removing Telnet negotiation and terminal sequences, cleaning the output.
  Byte slices are \<open>string\<close>s here, a \<open>char\<close> being a byte, because the code converts between the two.
  A connection is the list of results its \<open>Read\<close> calls return.
\<close>

section \<open>Command lines\<close>

datatype usb_cause =
    UClosed
  | UInvalidCommand
  | UResponseTooLarge
  | UPromptNotFound usb_cause
  | UNil string
  | UIO string \<comment> \<open>a network error\<close>
  | UContext string \<comment> \<open>the context's error\<close>
  | UShortWrite
  | UJoin usb_cause usb_cause
  | UNote string usb_cause

definition prompt :: string where "prompt = ''>: ''"
definition iac :: char where "iac = CHR 0xFF"

definition build_command :: "string \<Rightarrow> string list \<Rightarrow> (usb_cause \<times> string) + string" where
  "build_command command0 args =
     (let command = trim_space command0
      in if command = [] \<or> contains_any command [CHR 0x20, CHR 0x09, CHR 0x0D, CHR 0x0A, CHR 0x00]
         then Inl (UInvalidCommand, command)
         else case find (\<lambda>a. contains_any a [CHR 0x0D, CHR 0x0A, CHR 0x00]) args of
                Some bad \<Rightarrow>
                  Inl (UInvalidCommand,
                       join_with '' '' (command #
                         takeWhile (\<lambda>a. \<not> contains_any a [CHR 0x0D, CHR 0x0A, CHR 0x00]) args @ [bad]))
              | None \<Rightarrow> Inr (join_with '' '' (command # args)))"

section \<open>Telnet\<close>

text \<open>Inside a subnegotiation: the bytes after the next IAC SE, or the last byte when there is none.\<close>

fun skip_sub :: "string \<Rightarrow> string" where
  "skip_sub (a # b # r) = (if a = iac \<and> b = CHR 0xF0 then r else skip_sub (b # r))"
| "skip_sub r = r"

lemma length_skip_sub: "length (skip_sub s) \<le> length s"
  by (induction s rule: skip_sub.induct) auto

function strip_iac :: "string \<Rightarrow> string" where
  "strip_iac data =
     (case data of
        [] \<Rightarrow> []
      | c # rest \<Rightarrow>
          if c \<noteq> iac then c # strip_iac rest
          else (case rest of
              [] \<Rightarrow> []
            | command # rest2 \<Rightarrow>
                if command = iac then iac # strip_iac rest2
                else if command \<in> set [CHR 0xFB, CHR 0xFC, CHR 0xFD, CHR 0xFE]
                then (case rest2 of [] \<Rightarrow> [] | _ # rest3 \<Rightarrow> strip_iac rest3)
                else if command = CHR 0xFA then strip_iac (skip_sub rest2)
                else strip_iac rest2))"
  by pat_completeness auto
termination
  by (relation "measure length") (auto simp: le_imp_less_Suc length_skip_sub less_Suc_eq_le le_SucI)

declare strip_iac.simps [simp del]

definition contains_prompt :: "string \<Rightarrow> bool" where
  "contains_prompt data = has_suffix (strip_iac data) prompt"

section \<open>Reading a response\<close>

text \<open>
  One \<open>Read\<close>: the bytes delivered and the error. Every read of the package runs under a
  deadline or a cancellable context, so a script that is used up ends with an error.
\<close>

type_synonym read_script = "(string \<times> usb_cause option) list"

fun read_until_prompt :: "nat \<Rightarrow> string \<Rightarrow> read_script \<Rightarrow> (string \<times> usb_cause option) \<times> read_script" where
  "read_until_prompt maximum result [] = ((result, Some (UPromptNotFound (UIO ''i/o timeout''))), [])"
| "read_until_prompt maximum result ((chunk, err) # script) =
     (if chunk \<noteq> [] \<and> length (result @ chunk) > maximum
      then ((result @ chunk, Some UResponseTooLarge), script)
      else if chunk \<noteq> [] \<and> contains_prompt (result @ chunk) then ((result @ chunk, None), script)
      else case err of
             Some e \<Rightarrow> ((result @ chunk, Some (UPromptNotFound e)), script)
           | None \<Rightarrow> read_until_prompt maximum (result @ chunk) script)"

definition trailing_bytes :: "string \<Rightarrow> nat \<Rightarrow> string" where
  "trailing_bytes data count =
     (if count = 0 then [] else if length data \<le> count then data else drop (length data - count) data)"

section \<open>Cleaning\<close>

text \<open>The regular expression \<open>\x1b\[[0-?]*[ -/]*[@-~]\<close>: its three byte classes are disjoint.\<close>

definition match_ansi :: "string \<Rightarrow> string option" where
  "match_ansi s =
     (if has_prefix s [CHR 0x1B, CHR ''['']
      then (case dropWhile (char_in (CHR '' '') (CHR ''/'')) (dropWhile (char_in (CHR ''0'') (CHR ''?'')) (drop 2 s)) of
              [] \<Rightarrow> None
            | c # t \<Rightarrow> if char_in (CHR ''@'') (CHR ''~'') c then Some t else None)
      else None)"

lemma length_dropWhile_le: "length (dropWhile P xs) \<le> length xs"
  by (induction xs) auto

lemma match_ansi_shorter: "match_ansi s = Some t \<Longrightarrow> length t < length s"
proof -
  assume m: "match_ansi s = Some t"
  define u where "u = dropWhile (char_in (CHR '' '') (CHR ''/'')) (dropWhile (char_in (CHR ''0'') (CHR ''?'')) (drop 2 s))"
  have "length u \<le> length (drop 2 s)"
    unfolding u_def by (rule order_trans [OF length_dropWhile_le length_dropWhile_le])
  moreover have "length t < length u"
    using m unfolding match_ansi_def u_def [symmetric] by (auto split: if_splits list.splits)
  ultimately show ?thesis by simp
qed

function remove_ansi :: "string \<Rightarrow> string" where
  "remove_ansi s =
     (case s of [] \<Rightarrow> []
      | c # cs \<Rightarrow> (case match_ansi s of Some t \<Rightarrow> remove_ansi t | None \<Rightarrow> c # remove_ansi cs))"
  by pat_completeness auto
termination
  by (relation "measure length") (auto dest: match_ansi_shorter)

declare remove_ansi.simps [simp del]

definition clean_output :: "string \<Rightarrow> string \<Rightarrow> string" where
  "clean_output raw command =
     (let clean = remove_ansi (strip_iac raw);
          clean = (case last_index clean prompt of None \<Rightarrow> clean | Some i \<Rightarrow> take i clean);
          lf = [CHR 0x0A];
          txt = replace_all [CHR 0x0D] lf (replace_all [CHR 0x0D, CHR 0x0A] lf clean);
          ls = split_on (CHR 0x0A) (trim_space txt);
          ls = (if ls \<noteq> [] \<and> trim_space (hd ls) = command then tl ls else ls)
      in trim_space (join_with lf ls))"

section \<open>Command lines: one line, no control characters\<close>

lemma contains_any_append [simp]: "contains_any (a @ b) cs \<longleftrightarrow> contains_any a cs \<or> contains_any b cs"
  by (simp add: contains_any_def)

lemma contains_any_join:
  "contains_any sep cs = False \<Longrightarrow> contains_any (join_with sep xs) cs \<longleftrightarrow> (\<exists>x \<in> set xs. contains_any x cs)"
  by (induction sep xs rule: join_with.induct) (auto simp: contains_any_def)

abbreviation line_breaks :: string where "line_breaks \<equiv> [CHR 0x0D, CHR 0x0A, CHR 0x00]"

definition command_ok :: "string \<Rightarrow> bool" where
  "command_ok c \<longleftrightarrow> c \<noteq> [] \<and> \<not> contains_any c [CHR 0x20, CHR 0x09, CHR 0x0D, CHR 0x0A, CHR 0x00]"

lemma build_command_ok:
  "build_command command args = Inr line \<longleftrightarrow>
     command_ok (trim_space command) \<and> list_all (\<lambda>a. \<not> contains_any a line_breaks) args
     \<and> line = join_with '' '' (trim_space command # args)"
proof (cases "command_ok (trim_space command)")
  case ok: True
  show ?thesis
  proof (cases "find (\<lambda>a. contains_any a line_breaks) args")
    case None
    then have "list_all (\<lambda>a. \<not> contains_any a line_breaks) args" by (auto simp: find_None_iff list_all_iff)
    then show ?thesis using ok None by (auto simp: build_command_def Let_def command_ok_def)
  next
    case (Some bad)
    then have "\<not> list_all (\<lambda>a. \<not> contains_any a line_breaks) args" by (auto simp: find_Some_iff list_all_iff)
    then show ?thesis using ok Some by (auto simp: build_command_def Let_def command_ok_def)
  qed
qed (auto simp: build_command_def Let_def command_ok_def)

lemma build_command_error: "build_command command args = Inl (e, l) \<Longrightarrow> e = UInvalidCommand"
  by (auto simp: build_command_def Let_def split: if_splits option.splits)

lemma built_line_clean:
  "build_command command args = Inr line \<Longrightarrow> \<not> contains_any line line_breaks \<and> line \<noteq> []"
proof -
  assume b: "build_command command args = Inr line"
  then have ok: "command_ok (trim_space command)" "list_all (\<lambda>a. \<not> contains_any a line_breaks) args"
    and line: "line = join_with '' '' (trim_space command # args)"
    by (simp_all add: build_command_ok)
  have "\<not> contains_any (trim_space command) line_breaks" using ok(1) by (auto simp: command_ok_def contains_any_def list_ex_iff)
  moreover have "contains_any '' '' line_breaks = False" by (simp add: contains_any_def)
  moreover have "line \<noteq> []" using ok(1) by (cases args) (auto simp: line command_ok_def)
  ultimately show ?thesis using ok(2) by (auto simp: line contains_any_join list_all_iff)
qed

section \<open>Telnet sequences\<close>

datatype telnet_token =
    Data char
  | EscapedIac
  | Negotiation char char
  | Subnegotiation string
  | Command char

fun telnet_ok :: "telnet_token \<Rightarrow> bool" where
  "telnet_ok (Data c) = (c \<noteq> iac)"
| "telnet_ok EscapedIac = True"
| "telnet_ok (Negotiation v opt) = (v \<in> set [CHR 0xFB, CHR 0xFC, CHR 0xFD, CHR 0xFE])"
| "telnet_ok (Subnegotiation body) = (iac \<notin> set body)"
| "telnet_ok (Command c) = (c \<notin> set [iac, CHR 0xFA, CHR 0xFB, CHR 0xFC, CHR 0xFD, CHR 0xFE])"

fun telnet_wire :: "telnet_token \<Rightarrow> string" where
  "telnet_wire (Data c) = [c]"
| "telnet_wire EscapedIac = [iac, iac]"
| "telnet_wire (Negotiation v opt) = [iac, v, opt]"
| "telnet_wire (Subnegotiation body) = [iac, CHR 0xFA] @ body @ [iac, CHR 0xF0]"
| "telnet_wire (Command c) = [iac, c]"

fun telnet_data :: "telnet_token \<Rightarrow> string" where
  "telnet_data (Data c) = [c]"
| "telnet_data EscapedIac = [iac]"
| "telnet_data _ = []"

lemma skip_sub_body: "iac \<notin> set body \<Longrightarrow> skip_sub (body @ iac # CHR 0xF0 # rest) = rest"
proof (induction body)
  case (Cons a body)
  then show ?case by (cases body) auto
qed simp

lemma strip_iac_token: "telnet_ok t \<Longrightarrow> strip_iac (telnet_wire t @ rest) = telnet_data t @ strip_iac rest"
proof (cases t)
  case (Subnegotiation body)
  assume "telnet_ok t"
  then show ?thesis using Subnegotiation skip_sub_body [of body rest]
    by (subst strip_iac.simps) (simp add: iac_def)
qed (subst strip_iac.simps, auto simp: iac_def)+

lemma strip_iac_tokens:
  "list_all telnet_ok ts \<Longrightarrow>
    strip_iac (concat (map telnet_wire ts) @ rest) = concat (map telnet_data ts) @ strip_iac rest"
  by (induction ts) (simp_all add: strip_iac_token)

lemma strip_iac_Nil [simp]: "strip_iac [] = []"
  by (simp add: strip_iac.simps)

lemma strip_iac_data: "c \<noteq> iac \<Longrightarrow> strip_iac (c # rest) = c # strip_iac rest"
  by (subst strip_iac.simps) simp

lemma strip_iac_plain: "iac \<notin> set data \<Longrightarrow> strip_iac data = data"
  by (induction data) (auto simp: strip_iac_data)

section \<open>The response reader\<close>

text \<open>
  \<open>prompt_at used chunk\<close>: the reads \<open>used\<close> bring neither an error, nor too much data, nor the
  prompt, and the next chunk completes the response.
\<close>

definition quiet :: "nat \<Rightarrow> string \<Rightarrow> read_script \<Rightarrow> bool" where
  "quiet maximum pre used \<longleftrightarrow>
     (\<forall>k < length used. snd (used ! k) = None
        \<and> (fst (used ! k) \<noteq> [] \<longrightarrow>
             length (pre @ concat (map fst (take (Suc k) used))) \<le> maximum
             \<and> \<not> contains_prompt (pre @ concat (map fst (take (Suc k) used)))))"

lemma quiet_Nil [simp]: "quiet maximum pre []"
  by (simp add: quiet_def)

lemma quiet_Cons:
  "quiet maximum pre ((c, e) # used) \<longleftrightarrow>
     e = None \<and> (c \<noteq> [] \<longrightarrow> length (pre @ c) \<le> maximum \<and> \<not> contains_prompt (pre @ c)) \<and> quiet maximum (pre @ c) used"
  unfolding quiet_def by (auto simp: nth_Cons All_less_Suc2 split: nat.splits)

lemma read_until_prompt_success:
  "read_until_prompt maximum pre script = ((r, None), rest) \<longleftrightarrow>
     (\<exists>used chunk err. script = used @ (chunk, err) # rest \<and> quiet maximum pre used \<and> chunk \<noteq> []
        \<and> r = pre @ concat (map fst used) @ chunk \<and> length r \<le> maximum \<and> contains_prompt r)"
    (is "_ \<longleftrightarrow> ?R maximum pre script")
proof (induction maximum pre script rule: read_until_prompt.induct)
  case (1 maximum pre)
  then show ?case by simp
next
  case (2 maximum pre c e script)
  define full where "full = (c \<noteq> [] \<and> length (pre @ c) > maximum)"
  define found where "found = (c \<noteq> [] \<and> contains_prompt (pre @ c))"
  have split: "?R maximum pre ((c, e) # script) \<longleftrightarrow>
      (c \<noteq> [] \<and> rest = script \<and> r = pre @ c \<and> length r \<le> maximum \<and> contains_prompt r)
      \<or> (\<not> full \<and> \<not> found \<and> e = None \<and> ?R maximum (pre @ c) script)"
    (is "?L \<longleftrightarrow> ?A \<or> ?B")
  proof
    assume ?L
    then obtain used chunk err where u: "(c, e) # script = used @ (chunk, err) # rest" "quiet maximum pre used"
      "chunk \<noteq> []" "r = pre @ concat (map fst used) @ chunk" "length r \<le> maximum" "contains_prompt r"
      by (elim exE conjE)
    show "?A \<or> ?B"
    proof (cases used)
      case Nil
      with u show ?thesis by auto
    next
      case (Cons x xs)
      with u have "x = (c, e)" "script = xs @ (chunk, err) # rest" by auto
      with u Cons show ?thesis by (auto simp: quiet_Cons full_def found_def)
    qed
  next
    assume "?A \<or> ?B"
    then show ?L
    proof
      assume ?A
      then show ?L by - (rule exI [of _ "[]"], rule exI [of _ c], rule exI [of _ e], auto)
    next
      assume ?B
      then obtain used chunk err where u: "script = used @ (chunk, err) # rest" "quiet maximum (pre @ c) used"
        "chunk \<noteq> []" "r = (pre @ c) @ concat (map fst used) @ chunk" "length r \<le> maximum" "contains_prompt r"
        and n: "\<not> full" "\<not> found" "e = None" by blast
      then show ?L
        by - (rule exI [of _ "(c, e) # used"], rule exI [of _ chunk], rule exI [of _ err],
            auto simp: quiet_Cons full_def found_def)
    qed
  qed
  consider "full" | "\<not> full" "found" | "\<not> full" "\<not> found" "e \<noteq> None" | "\<not> full" "\<not> found" "e = None"
    by blast
  then show ?case
  proof cases
    case 1
    then show ?thesis unfolding split by (auto simp: full_def)
  next
    case 2
    then show ?thesis unfolding split by (auto simp: full_def found_def)
  next
    case 3
    then show ?thesis unfolding split by (auto simp: full_def found_def)
  next
    case 4
    then have eq: "read_until_prompt maximum pre ((c, e) # script) = read_until_prompt maximum (pre @ c) script"
      by (auto simp: full_def found_def)
    have IH: "read_until_prompt maximum (pre @ c) script = ((r, None), rest) \<longleftrightarrow> ?R maximum (pre @ c) script"
      using 4 by (intro "2.IH") (auto simp: full_def found_def)
    have "\<not> (c \<noteq> [] \<and> rest = script \<and> r = pre @ c \<and> length r \<le> maximum \<and> contains_prompt r)"
      using 4 by (auto simp: found_def)
    with 4 show ?thesis unfolding split eq IH by blast
  qed
qed

section \<open>Properties\<close>

text \<open>
  \<open>buildCommand\<close> accepts exactly a command that is one word after trimming and arguments
  without CR, LF or NUL; the line it returns is the command and the arguments joined by spaces and
  has no CR, LF or NUL in it, so that it is one command on the wire. Everything else is
  \<open>ErrInvalidCommand\<close>.
\<close>

theorem build_command_spec:
  "case build_command command args of
     Inr line \<Rightarrow> command_ok (trim_space command) \<and> list_all (\<lambda>a. \<not> contains_any a line_breaks) args
       \<and> line = join_with '' '' (trim_space command # args) \<and> \<not> contains_any line line_breaks
   | Inl (e, _) \<Rightarrow> e = UInvalidCommand
       \<and> \<not> (command_ok (trim_space command) \<and> list_all (\<lambda>a. \<not> contains_any a line_breaks) args)"
proof (cases "build_command command args")
  case (Inr line)
  then show ?thesis using built_line_clean [OF Inr] build_command_ok [of command args line] by simp
next
  case (Inl v)
  then show ?thesis
    using build_command_error [of command args "fst v" "snd v"]
      build_command_ok [of command args "join_with '' '' (trim_space command # args)"]
    by (auto split: prod.splits)
qed

text \<open>
  \<open>stripIAC\<close> removes exactly the Telnet protocol: from the wire form of data bytes, doubled
  IAC bytes, option negotiations, subnegotiations and two-byte commands it leaves the data bytes
  and one IAC for each doubled one, whatever follows.
\<close>

theorem strip_iac_spec:
  assumes "list_all telnet_ok ts"
  shows "strip_iac (concat (map telnet_wire ts) @ rest) = concat (map telnet_data ts) @ strip_iac rest"
  using assms by (rule strip_iac_tokens)

theorem strip_iac_spec_witness:
  "strip_iac (concat (map telnet_wire [Data CHR ''>'', Negotiation CHR 0xFB CHR 0x01, Subnegotiation ''ab'',
      Data CHR '':'', EscapedIac, Command CHR 0xF1, Data CHR '' '']) @ []) = ''>:'' @ [iac] @ '' ''"
  using strip_iac_spec [of "[Data CHR ''>'', Negotiation CHR 0xFB CHR 0x01, Subnegotiation ''ab'',
      Data CHR '':'', EscapedIac, Command CHR 0xF1, Data CHR '' '']" "[]"]
  by (simp add: iac_def)

text \<open>
  \<open>readUntilPrompt\<close> succeeds exactly when a read completes the prompt within the size limit
  and no earlier read brought an error, too much data or the prompt; it returns all bytes read up
  to there and leaves the later reads to the next command.
\<close>

theorem read_until_prompt_spec:
  "read_until_prompt maximum [] script = ((r, None), rest) \<longleftrightarrow>
     (\<exists>used chunk err. script = used @ (chunk, err) # rest \<and> quiet maximum [] used \<and> chunk \<noteq> []
        \<and> r = concat (map fst used) @ chunk \<and> length r \<le> maximum \<and> contains_prompt r)"
  using read_until_prompt_success [of maximum "[]" script r rest] by simp

end
