(* ===== verification/UsbSession.thy ===== *)
theory UsbSession
  imports UsbProtocol
begin

text \<open>
  Package \<open>usb\<close>, sessions and clients (\<open>session.go\<close>, \<open>client.go\<close>, \<open>commands.go\<close>, \<open>options.go\<close>): the
  operations of one persistent connection as state transformers, the client operations that open
  a connection for one command, and the curated commands. What the outside world contributes to an
  operation (write errors, the reads, the writer's answers, the state of the context whenever the
  code asks for it) is an argument. The mutex \<open>opMu\<close> makes the operations atomic; \<open>Close\<close> from
  another goroutine appears as a failing read or write.

  The connection keeps a log of what was written and of the points where the code recognised the
  prompt. The protocol discipline of the session is stated on that log.
\<close>

section \<open>Configuration\<close>

record usb_config =
  usb_address :: string
  dial_timeout :: duration
  command_timeout :: duration
  max_response_bytes :: int

datatype usb_option =
    WithAddress string
  | WithDialTimeout duration
  | WithCommandTimeout duration
  | WithMaxResponseBytes int

fun apply_usb_option :: "usb_option \<Rightarrow> usb_config \<Rightarrow> string + usb_config" where
  "apply_usb_option (WithAddress address) c =
     (if trim_space address = [] then Inl ''USB CLI address must not be empty''
      else Inr (c\<lparr>usb_address := address\<rparr>))"
| "apply_usb_option (WithDialTimeout t) c =
     (if t \<le> 0 then Inl ''USB CLI dial timeout must be greater than zero'' else Inr (c\<lparr>dial_timeout := t\<rparr>))"
| "apply_usb_option (WithCommandTimeout t) c =
     (if t \<le> 0 then Inl ''USB CLI command timeout must be greater than zero''
      else Inr (c\<lparr>command_timeout := t\<rparr>))"
| "apply_usb_option (WithMaxResponseBytes m) c =
     (if m \<le> 0 then Inl ''USB CLI maximum response size must be greater than zero''
      else Inr (c\<lparr>max_response_bytes := m\<rparr>))"

definition default_usb_config :: usb_config where
  "default_usb_config =
     \<lparr>usb_address = ''10.0.4.20:23'', dial_timeout = 2000000000, command_timeout = 5000000000,
      max_response_bytes = 2 ^ 20\<rparr>"

definition new_usb_client :: "usb_option option list \<Rightarrow> string + usb_config" where
  "new_usb_client options = resolve_options apply_usb_option options default_usb_config"

definition valid_usb_config :: "usb_config \<Rightarrow> bool" where
  "valid_usb_config c \<longleftrightarrow>
     trim_space (usb_address c) \<noteq> [] \<and> 0 < dial_timeout c \<and> 0 < command_timeout c \<and> 0 < max_response_bytes c"

interpretation usb_options: configurable apply_usb_option valid_usb_config
proof
  fix c op c'
  assume "valid_usb_config c" "apply_usb_option op c = Inr c'"
  then show "valid_usb_config c'" by (cases op) (auto simp: valid_usb_config_def split: if_splits)
qed

section \<open>Errors\<close>

record usb_error =
  ue_operation :: string
  ue_address :: string
  ue_command :: string
  ue_err :: usb_cause

text \<open>\<open>wrapError\<close> leaves an error that already is a \<open>*Error\<close> alone.\<close>

definition wrap_usb :: "string \<Rightarrow> usb_config \<Rightarrow> string \<Rightarrow> usb_cause option \<Rightarrow> usb_error option" where
  "wrap_usb operation c command err =
     map_option (\<lambda>e. \<lparr>ue_operation = operation, ue_address = usb_address c, ue_command = command, ue_err = e\<rparr>) err"

section \<open>Sessions\<close>

datatype wire_event = Sent string | Prompt

record session =
  ss_closed :: bool
  ss_log :: "wire_event list"

record response =
  rs_command :: string
  rs_raw :: string
  rs_output :: string

definition close_session :: "session \<Rightarrow> session" where
  "close_session s = s\<lparr>ss_closed := True\<rparr>"

definition ensure_open :: "session \<Rightarrow> usb_cause option" where
  "ensure_open s = (if ss_closed s then Some UClosed else None)"

definition log_event :: "wire_event \<Rightarrow> session \<Rightarrow> session" where
  "log_event e s = s\<lparr>ss_log := ss_log s @ [e]\<rparr>"

text \<open>\<open>contextOr\<close>: the context's error replaces the error of the connection.\<close>

definition context_or :: "usb_cause option \<Rightarrow> usb_cause \<Rightarrow> usb_cause" where
  "context_or ctx err = (case ctx of Some e \<Rightarrow> e | None \<Rightarrow> err)"

definition crlf :: string where "crlf = [CHR 0x0D, CHR 0x0A]"
definition etx :: string where "etx = [CHR 0x03]"

text \<open>
  The environment of a bounded command: the result of the write, the reads, the context's error
  after a failure.
\<close>

record send_env =
  se_write :: "usb_cause option"
  se_reads :: read_script
  se_ctx :: "usb_cause option"

definition send_line ::
  "usb_config \<Rightarrow> string \<Rightarrow> send_env \<Rightarrow> session \<Rightarrow> (response \<times> usb_error option) \<times> session" where
  "send_line c line env s =
     (let response = \<lparr>rs_command = line, rs_raw = [], rs_output = []\<rparr>
      in case ensure_open s of
           Some err \<Rightarrow> ((response, wrap_usb ''send'' c line (Some err)), s)
         | None \<Rightarrow>
             let s1 = log_event (Sent (line @ crlf)) s
             in case se_write env of
                  Some err \<Rightarrow>
                    ((response, wrap_usb ''send'' c line (Some (context_or (se_ctx env) err))), close_session s1)
                | None \<Rightarrow>
                    let ((raw, err), _) = read_until_prompt (nat (max_response_bytes c)) [] (se_reads env);
                        response = response\<lparr>rs_raw := raw, rs_output := clean_output raw line\<rparr>
                    in case err of
                         Some e \<Rightarrow>
                           ((response, wrap_usb ''send'' c line (Some (context_or (se_ctx env) e))), close_session s1)
                       | None \<Rightarrow> ((response, None), log_event Prompt s1))"

definition send_command ::
  "usb_config \<Rightarrow> string \<Rightarrow> string list \<Rightarrow> send_env \<Rightarrow> session \<Rightarrow> (response \<times> usb_error option) \<times> session" where
  "send_command c command args env s =
     (case build_command command args of
        Inl (err, line) \<Rightarrow>
          ((\<lparr>rs_command = line, rs_raw = [], rs_output = []\<rparr>, wrap_usb ''send'' c line (Some err)), s)
      | Inr line \<Rightarrow> send_line c line env s)"

text \<open>Recovery of the prompt after an interrupt: the result of writing ETX and the reads after it.\<close>

record recover_env =
  re_write :: "usb_cause option"
  re_reads :: read_script

definition interrupt_and_recover ::
  "usb_config \<Rightarrow> string \<Rightarrow> usb_cause \<Rightarrow> recover_env \<Rightarrow> session \<Rightarrow> usb_error option \<times> session" where
  "interrupt_and_recover c line cause env s =
     (let s1 = log_event (Sent etx) s
      in case re_write env of
           Some err \<Rightarrow>
             (wrap_usb ''interrupt'' c line (Some (UJoin cause (UNote ''send ETX'' err))), close_session s1)
         | None \<Rightarrow>
             (case read_until_prompt (nat (max_response_bytes c)) [] (re_reads env) of
                ((_, Some err), _) \<Rightarrow>
                  (wrap_usb ''interrupt'' c line (Some (UJoin cause (UNote ''recover prompt'' err))), close_session s1)
              | ((_, None), _) \<Rightarrow> (wrap_usb ''stream'' c line (Some cause), log_event Prompt s1)))"

text \<open>
  One round of the streaming loop: the context's error before the read, the read, the answer of
  the writer (bytes written and error), the context's error after the read.
\<close>

record stream_round =
  sr_ctx :: "usb_cause option"
  sr_chunk :: string
  sr_err :: "usb_cause option"
  sr_written :: nat
  sr_write_err :: "usb_cause option"
  sr_ctx_after :: "usb_cause option"

definition write_failure :: "stream_round \<Rightarrow> usb_cause option" where
  "write_failure r =
     (case sr_write_err r of
        Some e \<Rightarrow> Some e
      | None \<Rightarrow> if sr_written r \<noteq> length (sr_chunk r) then Some UShortWrite else None)"

text \<open>
  The loop of \<open>streamLine\<close>, with the chunks handed to the writer as an output. None: the rounds
  are used up and the loop is still running.
\<close>

fun stream_loop ::
  "usb_config \<Rightarrow> string \<Rightarrow> recover_env \<Rightarrow> string \<Rightarrow> stream_round list \<Rightarrow> string list \<Rightarrow> session
    \<Rightarrow> (usb_error option \<times> string list \<times> session) option" where
  "stream_loop c line renv tail [] out s = None"
| "stream_loop c line renv tail (r # rs) out s =
     (case sr_ctx r of
        Some err \<Rightarrow> (case interrupt_and_recover c line err renv s of (e, s') \<Rightarrow> Some (e, out, s'))
      | None \<Rightarrow>
          let combined = tail @ sr_chunk r;
              out' = (if sr_chunk r \<noteq> [] then out @ [sr_chunk r] else out)
          in if sr_chunk r \<noteq> [] \<and> write_failure r \<noteq> None
             then (case interrupt_and_recover c line (the (write_failure r)) renv s of (e, s') \<Rightarrow> Some (e, out', s'))
             else if sr_chunk r \<noteq> [] \<and> contains_prompt combined
             then Some (None, out', log_event Prompt s)
             else case sr_err r of
                    None \<Rightarrow>
                      stream_loop c line renv
                        (if sr_chunk r \<noteq> [] then trailing_bytes combined (length prompt - 1) else tail) rs out' s
                  | Some err \<Rightarrow>
                      (case sr_ctx_after r of
                         Some cerr \<Rightarrow>
                           (case interrupt_and_recover c line cerr renv s of (e, s') \<Rightarrow> Some (e, out', s'))
                       | None \<Rightarrow> Some (wrap_usb ''stream'' c line (Some err), out', close_session s)))"

record stream_env =
  st_write :: "usb_cause option"
  st_ctx :: "usb_cause option"
  st_rounds :: "stream_round list"
  st_recover :: recover_env

definition stream_line ::
  "usb_config \<Rightarrow> bool \<Rightarrow> string \<Rightarrow> stream_env \<Rightarrow> session \<Rightarrow> (usb_error option \<times> string list \<times> session) option" where
  "stream_line c dst_nil line env s =
     (if dst_nil then Some (wrap_usb ''stream'' c line (Some (UNil ''USB CLI stream writer must not be nil'')), [], s)
      else case ensure_open s of
        Some err \<Rightarrow> Some (wrap_usb ''stream'' c line (Some err), [], s)
      | None \<Rightarrow>
          let s1 = log_event (Sent (line @ crlf)) s
          in case st_write env of
               Some err \<Rightarrow>
                 Some (wrap_usb ''stream'' c line (Some (context_or (st_ctx env) err)), [], close_session s1)
             | None \<Rightarrow> stream_loop c line (st_recover env) [] (st_rounds env) [] s1)"

definition stream_command ::
  "usb_config \<Rightarrow> bool \<Rightarrow> string \<Rightarrow> string list \<Rightarrow> stream_env \<Rightarrow> session
    \<Rightarrow> (usb_error option \<times> string list \<times> session) option" where
  "stream_command c dst_nil command args env s =
     (case build_command command args of
        Inl (err, line) \<Rightarrow> Some (wrap_usb ''stream'' c line (Some err), [], s)
      | Inr line \<Rightarrow> stream_line c dst_nil line env s)"

definition reboot_line :: string where "reboot_line = ''power reboot sw''"

definition session_reboot ::
  "usb_config \<Rightarrow> usb_cause option \<Rightarrow> usb_cause option \<Rightarrow> session \<Rightarrow> usb_error option \<times> session" where
  "session_reboot c write_err ctx s =
     (case ensure_open s of
        Some err \<Rightarrow> (wrap_usb ''reboot'' c reboot_line (Some err), s)
      | None \<Rightarrow>
          (wrap_usb ''reboot'' c reboot_line (case ctx of Some e \<Rightarrow> Some e | None \<Rightarrow> write_err),
           close_session (log_event (Sent (reboot_line @ crlf)) s)))"

section \<open>Clients\<close>

text \<open>
  \<open>Client.Open\<close>: the result of dialling, the reads of the initial prompt, the context's error
  after a failed read.
\<close>

record open_env =
  oe_dial :: "usb_cause option"
  oe_reads :: read_script
  oe_ctx :: "usb_cause option"

definition client_open :: "usb_config \<Rightarrow> open_env \<Rightarrow> usb_error option + session" where
  "client_open c env =
     (case oe_dial env of
        Some err \<Rightarrow> Inl (wrap_usb ''dial'' c [] (Some err))
      | None \<Rightarrow>
          (case read_until_prompt (nat (max_response_bytes c)) [] (oe_reads env) of
             ((_, Some err), _) \<Rightarrow> Inl (wrap_usb ''open'' c [] (Some (context_or (oe_ctx env) err)))
           | ((_, None), _) \<Rightarrow> Inr \<lparr>ss_closed = False, ss_log = []\<rparr>))"

text \<open>The direct operations; the session is the one they open, closed when they return.\<close>

definition client_probe :: "usb_config \<Rightarrow> open_env \<Rightarrow> usb_error option + session" where
  "client_probe c oenv = rbind (client_open c oenv) (\<lambda>s. Inr (close_session s))"

definition client_send ::
  "usb_config \<Rightarrow> string \<Rightarrow> string list \<Rightarrow> open_env \<Rightarrow> send_env \<Rightarrow> (response \<times> usb_error option) \<times> session option" where
  "client_send c command args oenv env =
     (case build_command command args of
        Inl (err, line) \<Rightarrow>
          ((\<lparr>rs_command = line, rs_raw = [], rs_output = []\<rparr>, wrap_usb ''send'' c line (Some err)), None)
      | Inr line \<Rightarrow>
          (case client_open c oenv of
             Inl err \<Rightarrow> ((\<lparr>rs_command = line, rs_raw = [], rs_output = []\<rparr>, err), None)
           | Inr s \<Rightarrow> (case send_line c line env s of (r, s') \<Rightarrow> (r, Some (close_session s')))))"

definition client_stream ::
  "usb_config \<Rightarrow> bool \<Rightarrow> string \<Rightarrow> string list \<Rightarrow> open_env \<Rightarrow> stream_env
    \<Rightarrow> (usb_error option \<times> string list \<times> session option) option" where
  "client_stream c dst_nil command args oenv env =
     (case build_command command args of
        Inl (err, line) \<Rightarrow> Some (wrap_usb ''stream'' c line (Some err), [], None)
      | Inr line \<Rightarrow>
          (case client_open c oenv of
             Inl err \<Rightarrow> Some (err, [], None)
           | Inr s \<Rightarrow> map_option (\<lambda>(e, out, s'). (e, out, Some (close_session s'))) (stream_line c dst_nil line env s)))"

definition client_reboot ::
  "usb_config \<Rightarrow> open_env \<Rightarrow> usb_cause option \<Rightarrow> usb_cause option \<Rightarrow> usb_error option \<times> session option" where
  "client_reboot c oenv write_err ctx =
     (case client_open c oenv of
        Inl err \<Rightarrow> (err, None)
      | Inr s \<Rightarrow> (case session_reboot c write_err ctx s of (e, s') \<Rightarrow> (e, Some s')))"

section \<open>Curated commands\<close>

datatype usb_command =
    Uptime | Power "string list" | Storage "string list" | Update "string list" | Input "string list"
  | Loader "string list" | Top duration | Free | FreeBlocks | Log "string list" | Echo string
  | DeviceInfo | Date "string list" | Timezone "string list" | Matter "string list" | Audio "string list"
  | Display "string list" | Sysctl "string list" | LogDump "string list" | Reboot

datatype usb_call = CallSend string "string list" | CallStream string "string list" | CallReboot

fun command_call :: "usb_command \<Rightarrow> string + usb_call" where
  "command_call Uptime = Inr (CallSend ''uptime'' [])"
| "command_call (Power args) = Inr (CallSend ''power'' args)"
| "command_call (Storage args) = Inr (CallSend ''storage'' args)"
| "command_call (Update args) = Inr (CallSend ''update'' args)"
| "command_call (Input args) = Inr (CallSend ''input'' args)"
| "command_call (Loader args) = Inr (CallSend ''loader'' args)"
| "command_call (Top interval) =
     (if interval < 0 then Inl ''top interval must not be negative''
      else Inr (CallStream ''top'' [format_int (interval div 1000000)]))"
| "command_call Free = Inr (CallSend ''free'' [])"
| "command_call FreeBlocks = Inr (CallSend ''free_blocks'' [])"
| "command_call (Log args) = Inr (CallStream ''log'' args)"
| "command_call (Echo message) = Inr (CallSend ''echo'' [message])"
| "command_call DeviceInfo = Inr (CallSend ''device_info'' [])"
| "command_call (Date args) = Inr (CallSend ''date'' args)"
| "command_call (Timezone args) = Inr (CallSend ''timezone'' args)"
| "command_call (Matter args) = Inr (CallSend ''matter'' args)"
| "command_call (Audio args) = Inr (CallSend ''audio'' args)"
| "command_call (Display args) = Inr (CallSend ''display'' args)"
| "command_call (Sysctl args) = Inr (CallSend ''sysctl'' args)"
| "command_call (LogDump args) = Inr (CallSend ''log_dump'' args)"
| "command_call Reboot = Inr CallReboot"

section \<open>The life of a session\<close>

datatype session_op =
    OpSend string "string list" send_env
  | OpStream bool string "string list" stream_env
  | OpReboot "usb_cause option" "usb_cause option"
  | OpClose

text \<open>None: a streaming command that is still running.\<close>

fun run_op :: "usb_config \<Rightarrow> session_op \<Rightarrow> session \<Rightarrow> session option" where
  "run_op c (OpSend command args env) s = Some (snd (send_command c command args env s))"
| "run_op c (OpStream dst_nil command args env) s =
     map_option (\<lambda>(e, out, s'). s') (stream_command c dst_nil command args env s)"
| "run_op c (OpReboot write_err ctx) s = Some (snd (session_reboot c write_err ctx s))"
| "run_op c OpClose s = Some (close_session s)"

inductive session_reach :: "usb_config \<Rightarrow> session \<Rightarrow> bool" for c where
  opened: "client_open c env = Inr s \<Longrightarrow> session_reach c s"
| operated: "session_reach c s \<Longrightarrow> run_op c op s = Some s' \<Longrightarrow> session_reach c s'"

inductive_cases run_opE: "session_reach c s"

text \<open>
  The discipline of the wire: a command line is sent only when the device waits at its prompt, an
  interrupt only while a command runs, and the prompt ends the command.
\<close>

datatype wire_state = Idle | Busy | Interrupted

definition line_ok :: "string \<Rightarrow> bool" where
  "line_ok l \<longleftrightarrow> l \<noteq> [] \<and> \<not> contains_any l line_breaks"

fun wire_step :: "wire_event \<Rightarrow> wire_state option \<Rightarrow> wire_state option" where
  "wire_step (Sent l) (Some Idle) =
     (if has_suffix l crlf \<and> line_ok (take (length l - 2) l) then Some Busy else None)"
| "wire_step (Sent l) (Some Busy) = (if l = etx then Some Interrupted else None)"
| "wire_step Prompt (Some Busy) = Some Idle"
| "wire_step Prompt (Some Interrupted) = Some Idle"
| "wire_step _ _ = None"

definition wire_run :: "wire_event list \<Rightarrow> wire_state option" where
  "wire_run es = fold wire_step es (Some Idle)"

lemma wire_run_Nil [simp]: "wire_run [] = Some Idle"
  by (simp add: wire_run_def)

lemma wire_run_append [simp]: "wire_run (es @ fs) = fold wire_step fs (wire_run es)"
  by (simp add: wire_run_def)

lemma sent_line: "line_ok line \<Longrightarrow> wire_step (Sent (line @ crlf)) (Some Idle) = Some Busy"
  by (simp add: has_suffix_iff crlf_def)

lemma built_line_ok: "build_command command args = Inr line \<Longrightarrow> line_ok line"
  using built_line_clean by (simp add: line_ok_def)

definition disciplined :: "session \<Rightarrow> bool" where
  "disciplined s \<longleftrightarrow> wire_run (ss_log s) \<noteq> None \<and> (ss_closed s \<or> wire_run (ss_log s) = Some Idle)"

definition running :: "session \<Rightarrow> bool" where
  "running s \<longleftrightarrow> \<not> ss_closed s \<and> wire_run (ss_log s) = Some Busy"

lemma session_fields [simp]:
  "ss_closed (close_session s)" "ss_log (close_session s) = ss_log s"
  "ss_closed (log_event e s) = ss_closed s" "ss_log (log_event e s) = ss_log s @ [e]"
  by (simp_all add: close_session_def log_event_def)

lemma disciplined_close [keeps]: "disciplined s \<Longrightarrow> disciplined (close_session s)"
  by (simp add: disciplined_def)

lemma running_sent: "disciplined s \<Longrightarrow> \<not> ss_closed s \<Longrightarrow> line_ok line \<Longrightarrow> running (log_event (Sent (line @ crlf)) s)"
  by (auto simp: disciplined_def running_def sent_line simp del: wire_step.simps)

lemma running_prompt: "running s \<Longrightarrow> disciplined (log_event Prompt s)"
  by (simp add: running_def disciplined_def)

lemma running_closed: "running s \<Longrightarrow> disciplined (close_session s)"
  by (simp add: running_def disciplined_def)

lemma recover_disciplined: "running s \<Longrightarrow> disciplined (snd (interrupt_and_recover c line cause env s))"
  by (auto simp: interrupt_and_recover_def running_def disciplined_def Let_def split: option.splits prod.splits)

lemma ensure_open_simps [simp]: "ensure_open s = None \<longleftrightarrow> \<not> ss_closed s" "ensure_open s = Some e \<longleftrightarrow> ss_closed s \<and> e = UClosed"
  by (auto simp: ensure_open_def)

lemma send_line_disciplined [keeps]:
  "disciplined s \<Longrightarrow> line_ok line \<Longrightarrow> disciplined (snd (send_line c line env s))"
  using running_sent [of s line] running_prompt [of "log_event (Sent (line @ crlf)) s"]
    running_closed [of "log_event (Sent (line @ crlf)) s"]
  by (auto simp: send_line_def Let_def split: option.splits prod.splits)

lemma stream_loop_disciplined:
  "running s \<Longrightarrow> stream_loop c line renv tail rs out s = Some (e, out', s') \<Longrightarrow> disciplined s'"
proof (induction rs arbitrary: tail out)
  case (Cons r rs)
  then show ?case
    using recover_disciplined [OF Cons.prems(1), of c line _ renv] running_prompt [OF Cons.prems(1)]
      running_closed [OF Cons.prems(1)]
    by (auto simp: Let_def split: option.splits prod.splits if_splits)
      (metis snd_conv)+
qed simp

lemma stream_line_disciplined [keeps]:
  "disciplined s \<Longrightarrow> line_ok line \<Longrightarrow> stream_line c dst_nil line env s = Some (e, out, s') \<Longrightarrow> disciplined s'"
  using running_sent [of s line] running_closed [of "log_event (Sent (line @ crlf)) s"] stream_loop_disciplined
  by (auto simp: stream_line_def Let_def split: option.splits if_splits)

lemma reboot_disciplined [keeps]: "disciplined s \<Longrightarrow> disciplined (snd (session_reboot c w ctx s))"
proof -
  have "line_ok reboot_line" by (simp add: line_ok_def reboot_line_def contains_any_def)
  then show "disciplined s \<Longrightarrow> disciplined (snd (session_reboot c w ctx s))"
    using running_sent [of s reboot_line] running_closed [of "log_event (Sent (reboot_line @ crlf)) s"]
    by (auto simp: session_reboot_def split: option.splits)
qed

lemma run_op_disciplined: "disciplined s \<Longrightarrow> run_op c op s = Some s' \<Longrightarrow> disciplined s'"
  by (cases op)
    (auto simp: send_command_def stream_command_def intro: keeps built_line_ok split: sum.splits)

lemma client_open_disciplined: "client_open c env = Inr s \<Longrightarrow> disciplined s \<and> \<not> ss_closed s"
  by (auto simp: client_open_def disciplined_def split: option.splits prod.splits)

lemma session_reach_disciplined: "session_reach c s \<Longrightarrow> disciplined s"
  by (induction rule: session_reach.induct) (auto dest: client_open_disciplined run_op_disciplined)

text \<open>A closed session does nothing any more.\<close>

lemma run_op_closed: "ss_closed s \<Longrightarrow> run_op c op s = Some s' \<Longrightarrow> s' = s"
  by (cases op)
    (auto simp: send_command_def send_line_def stream_command_def stream_line_def session_reboot_def
        close_session_def ensure_open_def Let_def split: sum.splits if_splits)

section \<open>The prompt in a stream of chunks\<close>

lemma trailing_bytes_suffix: "trailing_bytes data n = drop (length data - n) data"
  by (auto simp: trailing_bytes_def)

lemma suffix_of_tail:
  assumes "length p \<le> length b + n"
  shows "has_suffix (drop (length a - n) a @ b) p \<longleftrightarrow> has_suffix (a @ b) p"
proof -
  let ?k = "length a - n"
  have a: "a = take ?k a @ drop ?k a" by simp
  show ?thesis
  proof
    assume "has_suffix (drop ?k a @ b) p"
    then obtain t where "drop ?k a @ b = t @ p" by (auto simp: has_suffix_iff)
    then have "a @ b = (take ?k a @ t) @ p" by (metis a append.assoc)
    then show "has_suffix (a @ b) p" unfolding has_suffix_iff by blast
  next
    assume h: "has_suffix (a @ b) p"
    then have "length p \<le> length (drop ?k a @ b)"
      using assms by (auto simp: has_suffix_def)
    with h show "has_suffix (drop ?k a @ b) p" unfolding has_suffix_def
      by (auto simp: drop_append)
  qed
qed

lemma tail_prompt:
  assumes "iac \<notin> set a" "iac \<notin> set b" "b \<noteq> []"
  shows "contains_prompt (trailing_bytes a (length prompt - 1) @ b) \<longleftrightarrow> contains_prompt (a @ b)"
proof -
  have "strip_iac (drop k a @ b) = drop k a @ b" "strip_iac (a @ b) = a @ b" for k
    using assms by (auto intro!: strip_iac_plain dest: in_set_dropD)
  moreover have "length prompt \<le> length b + (length prompt - 1)" using assms(3) by (cases b) auto
  ultimately show ?thesis
    using suffix_of_tail [of prompt b "length prompt - 1" a]
    by (simp add: contains_prompt_def trailing_bytes_suffix)
qed

text \<open>The streaming loop without the windowing: the prompt is sought in all data received so far.\<close>

fun first_prompt :: "string \<Rightarrow> stream_round list \<Rightarrow> string list \<Rightarrow> string list option" where
  "first_prompt seen [] out = None"
| "first_prompt seen (r # rs) out =
     (if sr_chunk r = [] then first_prompt seen rs out
      else if contains_prompt (seen @ sr_chunk r) then Some (out @ [sr_chunk r])
      else first_prompt (seen @ sr_chunk r) rs (out @ [sr_chunk r]))"

definition benign :: "stream_round \<Rightarrow> bool" where
  "benign r \<longleftrightarrow> sr_ctx r = None \<and> write_failure r = None \<and> sr_err r = None \<and> iac \<notin> set (sr_chunk r)"

lemma trailing_bytes_append:
  "trailing_bytes (trailing_bytes a n @ b) n = trailing_bytes (a @ b) n"
proof (cases "length a \<le> n")
  case False
  then have "length b + length a - n = length a + length b - n" by simp
  then show ?thesis using False by (simp add: trailing_bytes_suffix drop_append add.commute)
qed (simp add: trailing_bytes_suffix)

lemma stream_loop_first_prompt:
  "list_all benign rs \<Longrightarrow> iac \<notin> set seen \<Longrightarrow>
   stream_loop c line renv (trailing_bytes seen (length prompt - 1)) rs out s =
     map_option (\<lambda>out'. (None, out', log_event Prompt s)) (first_prompt seen rs out)"
proof (induction rs arbitrary: seen out)
  case (Cons r rs)
  then have b: "benign r" "list_all benign rs" by simp_all
  show ?case
  proof (cases "sr_chunk r = []")
    case True
    then show ?thesis using Cons.IH [OF b(2) Cons.prems(2)] b(1) by (simp add: benign_def Let_def)
  next
    case False
    have seen: "iac \<notin> set (seen @ sr_chunk r)" using Cons.prems(2) b(1) by (simp add: benign_def)
    show ?thesis
      using Cons.IH [OF b(2) seen, of "out @ [sr_chunk r]"] b(1) False
        tail_prompt [OF Cons.prems(2) _ False]
      by (simp add: benign_def Let_def trailing_bytes_append)
  qed
qed simp


definition sample_reply :: string where "sample_reply = ''1s'' @ crlf @ prompt"

lemma sample_reads:
  "read_until_prompt (nat (max_response_bytes default_usb_config)) [] [(prompt, None)] = ((prompt, None), [])"
  "read_until_prompt (nat (max_response_bytes default_usb_config)) [] [(sample_reply, None)] = ((sample_reply, None), [])"
proof -
  have "iac \<notin> set prompt" "iac \<notin> set sample_reply"
    by (simp_all add: prompt_def sample_reply_def crlf_def iac_def)
  then have p: "contains_prompt prompt" "contains_prompt sample_reply"
    by (simp_all add: contains_prompt_def strip_iac_plain has_suffix_iff sample_reply_def)
  have n: "prompt \<noteq> []" "sample_reply \<noteq> []" "length prompt \<le> nat (max_response_bytes default_usb_config)"
    "length sample_reply \<le> nat (max_response_bytes default_usb_config)"
    by (simp_all add: prompt_def sample_reply_def crlf_def default_usb_config_def)
  show "read_until_prompt (nat (max_response_bytes default_usb_config)) [] [(prompt, None)] = ((prompt, None), [])"
    using p(1) n by simp
  show "read_until_prompt (nat (max_response_bytes default_usb_config)) [] [(sample_reply, None)] = ((sample_reply, None), [])"
    using p(2) n by simp
qed

lemma sample_session:
  "session_reach default_usb_config \<lparr>ss_closed = False, ss_log = [Sent (''uptime'' @ crlf), Prompt]\<rparr>"
proof -
  let ?oe = "\<lparr>oe_dial = None, oe_reads = [(prompt, None)], oe_ctx = None\<rparr>"
  let ?se = "\<lparr>se_write = None, se_reads = [(sample_reply, None)], se_ctx = None\<rparr>"
  have "client_open default_usb_config ?oe = Inr \<lparr>ss_closed = False, ss_log = []\<rparr>"
    unfolding client_open_def by (simp add: sample_reads del: read_until_prompt.simps)
  then have r: "session_reach default_usb_config \<lparr>ss_closed = False, ss_log = []\<rparr>" by (rule session_reach.opened)
  have "trim_space ''uptime'' = ''uptime''"
    by (simp add: trim_space_def trim_left_space.simps trim_right_space.simps space_prefix_def space_suffix_def
        space_encodings_def has_prefix_def has_suffix_def)
  then have b: "build_command ''uptime'' [] = Inr ''uptime''"
    by (simp add: build_command_ok command_ok_def contains_any_def)
  have "run_op default_usb_config (OpSend ''uptime'' [] ?se) \<lparr>ss_closed = False, ss_log = []\<rparr>
      = Some \<lparr>ss_closed = False, ss_log = [Sent (''uptime'' @ crlf), Prompt]\<rparr>"
    unfolding run_op.simps send_command_def b sum.case send_line_def ensure_open_def
    by (simp add: Let_def sample_reads log_event_def del: read_until_prompt.simps)
  from session_reach.operated [OF r this] show ?thesis .
qed


text \<open>
  C7: streaming recognises the prompt wherever the chunk boundaries fall: for data without IAC
  bytes, keeping the last two bytes between reads makes \<open>streamLine\<close> return at exactly the chunk
  at whose end the prompt stands in all the data received; every chunk up to there, and no other,
  was handed to the writer.
\<close>

theorem stream_prompt_spec:
  assumes "list_all benign rounds"
  shows "stream_loop c line renv [] rounds [] s =
    map_option (\<lambda>out. (None, out, log_event Prompt s)) (first_prompt [] rounds [])"
  using stream_loop_first_prompt [OF assms, of "[]"] by (simp add: trailing_bytes_def prompt_def)

definition plain_round :: "string \<Rightarrow> stream_round" where
  "plain_round chunk = \<lparr>sr_ctx = None, sr_chunk = chunk, sr_err = None, sr_written = length chunk,
     sr_write_err = None, sr_ctx_after = None\<rparr>"

theorem stream_prompt_spec_witness:
  "stream_loop default_usb_config ''top'' \<lparr>re_write = None, re_reads = []\<rparr> []
      (map plain_round [''a>'', '':'', '' '', ''b'']) [] \<lparr>ss_closed = False, ss_log = []\<rparr> =
    Some (None, [''a>'', '':'', '' ''], log_event Prompt \<lparr>ss_closed = False, ss_log = []\<rparr>)"
proof -
  have "list_all benign (map plain_round [''a>'', '':'', '' '', ''b''])"
    by (simp add: benign_def plain_round_def write_failure_def iac_def)
  moreover have "strip_iac ''a>'' = ''a>''" "strip_iac ''a>:'' = ''a>:''" "strip_iac ''a>: '' = ''a>: ''"
    by (rule strip_iac_plain; simp add: iac_def)+
  then have "first_prompt [] (map plain_round [''a>'', '':'', '' '', ''b'']) [] = Some [''a>'', '':'', '' '']"
    by (simp add: plain_round_def contains_prompt_def prompt_def has_suffix_def)
  ultimately show ?thesis
    using stream_prompt_spec [of "map plain_round [''a>'', '':'', '' '', ''b'']"] by simp
qed

text \<open>
  With Telnet commands between the bytes of the prompt the two readers differ: the window of raw
  bytes loses the prompt that \<open>readUntilPrompt\<close> finds.
\<close>

lemma stream_prompt_lost:
  "stream_loop default_usb_config ''top'' renv [] (map plain_round [''>'', [iac, CHR 0xF1], '': '']) [] s = None"
  "contains_prompt (''>'' @ [iac, CHR 0xF1] @ '': '')"
proof -
  have "strip_iac ''>'' = ''>''" "strip_iac (CHR ''>'' # [iac, CHR 0xF1]) = ''>''"
    "strip_iac ([iac, CHR 0xF1] @ '': '') = '': ''" "strip_iac (''>'' @ [iac, CHR 0xF1] @ '': '') = ''>: ''"
    by (simp_all add: strip_iac.simps iac_def)
  then show "stream_loop default_usb_config ''top'' renv [] (map plain_round [''>'', [iac, CHR 0xF1], '': '']) [] s = None"
    "contains_prompt (''>'' @ [iac, CHR 0xF1] @ '': '')"
    by (simp_all add: plain_round_def contains_prompt_def prompt_def has_suffix_def write_failure_def
        trailing_bytes_def Let_def)
qed

end
