(* ===== verification/StreamState.thy ===== *)
theory StreamState
  imports Prelude "HOL-Library.Sublist"
begin

text \<open>
  Package \<open>internal/streamstate\<close> (\<open>state.go\<close>): the lifecycle state that the local and the remote
  status stream share, with the status types of \<open>stream/types.go\<close>.

  First the operations as functions on the state, each one critical section of \<open>mu\<close>. Then
  \<open>publishStatusLocked\<close> at the level of its three channel operations, as a step relation in which
  the reader of the channel moves at any time. Then the contract of a one-shot lifecycle as a
  locale, with the operations as its interpretation.
\<close>

section \<open>Status\<close>

datatype lifecycle =
    LifecycleIdle | LifecycleConnecting | LifecycleConnected | LifecycleReconnecting
  | LifecycleStopped | LifecycleFailed

datatype access_status = AccessUnknown | AccessAccepted | AccessRejected

datatype data_status = DataWaiting | DataFresh | DataStale

text \<open>Times are instants in nanoseconds; None is the zero \<open>time.Time\<close>.\<close>

record 'e status =
  lifecycle :: lifecycle
  access :: access_status
  data_state :: data_status
  attempt :: nat
  connected_at :: "int option"
  last_state_at :: "int option"
  last_error :: "'e option"

definition initial_status :: "'e status" where
  "initial_status =
     \<lparr>lifecycle = LifecycleIdle, access = AccessUnknown, data_state = DataWaiting, attempt = 0,
      connected_at = None, last_state_at = None, last_error = None\<rparr>"

section \<open>State\<close>

text \<open>
  \<open>messages\<close> is the content of the bounded channel and \<open>delivered\<close> everything ever sent on it;
  \<open>slot\<close> is the one-place status channel; \<open>done\<close> stands for the three closed channels.
\<close>

record ('e, 'm) stream_state =
  capacity :: nat
  messages :: "'m list"
  delivered :: "'m list"
  slot :: "'e status option"
  current :: "'e status"
  started :: bool
  finished :: bool
  final_err :: "'e option"
  done_closed :: bool

datatype stream_api_error = ErrAlreadyStarted | ErrNotStarted

definition new_state :: "nat \<Rightarrow> ('e, 'm) stream_state" where
  "new_state messageBuffer =
     \<lparr>capacity = messageBuffer, messages = [], delivered = [], slot = Some initial_status,
      current = initial_status, started = False, finished = False, final_err = None,
      done_closed = False\<rparr>"

definition begin_stream :: "('e, 'm) stream_state \<Rightarrow> (stream_api_error + unit) \<times> ('e, 'm) stream_state" where
  "begin_stream s = (if started s then (Inl ErrAlreadyStarted, s) else (Inr (), s\<lparr>started := True\<rparr>))"

definition stop_before_start :: "('e, 'm) stream_state \<Rightarrow> bool \<times> ('e, 'm) stream_state" where
  "stop_before_start s = (if started s then (False, s) else (True, s\<lparr>started := True\<rparr>))"

text \<open>
  \<open>publishStatusLocked\<close> when nobody reads in between: send, or drop the old value and send. The
  concurrent version is below.
\<close>

definition publish_status :: "('e, 'm) stream_state \<Rightarrow> ('e, 'm) stream_state" where
  "publish_status s = s\<lparr>slot := Some (current s)\<rparr>"

definition set_status :: "('e status \<Rightarrow> 'e status) \<Rightarrow> ('e, 'm) stream_state \<Rightarrow> ('e, 'm) stream_state" where
  "set_status change s = (if finished s then s else publish_status (s\<lparr>current := change (current s)\<rparr>))"

text \<open>
  \<open>Deliver\<close>. When the context is done and there is room as well, the select takes either branch:
  \<open>prefer_ctx\<close> is that choice. A send on the closed channel panics: None.
\<close>

datatype 'e deliver_result = Delivered | DeliverCtx | DeliverSlow

definition deliver ::
  "bool \<Rightarrow> bool \<Rightarrow> 'm \<Rightarrow> ('e, 'm) stream_state \<Rightarrow> ('e deliver_result \<times> ('e, 'm) stream_state) option" where
  "deliver ctx_done prefer_ctx message s =
     (let room = length (messages s) < capacity s
      in if ctx_done \<and> (prefer_ctx \<or> \<not> room \<and> \<not> done_closed s) then Some (DeliverCtx, s)
         else if done_closed s then None
         else if room
         then Some (Delivered, s\<lparr>messages := messages s @ [message], delivered := delivered s @ [message]\<rparr>)
         else Some (DeliverSlow, s))"

text \<open>\<open>errors.Join\<close> of the terminal error and the result of the cleanup.\<close>

definition join_errors :: "('e \<Rightarrow> 'e \<Rightarrow> 'e) \<Rightarrow> ('e \<Rightarrow> 'e) \<Rightarrow> 'e option \<Rightarrow> 'e option \<Rightarrow> 'e option" where
  "join_errors join1 wrap a b =
     (case (a, b) of
        (None, None) \<Rightarrow> None
      | (Some x, None) \<Rightarrow> Some (wrap x)
      | (None, Some y) \<Rightarrow> Some (wrap y)
      | (Some x, Some y) \<Rightarrow> Some (join1 x y))"

text \<open>\<open>Finish\<close> after the cleanup, once.\<close>

definition finish_stream :: "'e option \<Rightarrow> ('e, 'm) stream_state \<Rightarrow> ('e, 'm) stream_state" where
  "finish_stream terminal s =
     (if done_closed s then s
      else let st = (case terminal of
                       None \<Rightarrow> (current s)\<lparr>lifecycle := LifecycleStopped\<rparr>
                     | Some e \<Rightarrow> (current s)\<lparr>lifecycle := LifecycleFailed, last_error := Some e\<rparr>)
           in (publish_status (s\<lparr>current := st, final_err := terminal, finished := True\<rparr>))\<lparr>done_closed := True\<rparr>)"

text \<open>\<open>Wait\<close>: None while it blocks.\<close>

definition wait_stream :: "('e, 'm) stream_state \<Rightarrow> (stream_api_error + 'e option) option" where
  "wait_stream s =
     (if \<not> started s then Some (Inl ErrNotStarted)
      else if done_closed s then Some (Inr (final_err s)) else None)"

section \<open>Publication with a concurrent reader\<close>

text \<open>
  \<open>pc\<close> is where \<open>publishStatusLocked\<close> stands; the lock is held while it is not \<open>PubIdle\<close>. The
  reader takes a value whenever there is one; \<open>received\<close> is what it has taken.
\<close>

datatype publish_pc = PubIdle | PubSend | PubDrain | PubRetry

record 'e channel =
  ch_slot :: "'e status option"
  ch_latest :: "'e status"
  ch_received :: "'e status list"
  ch_pc :: publish_pc
  ch_published :: "'e status list"

inductive channel_step :: "'e channel \<Rightarrow> 'e channel \<Rightarrow> bool" where
  change: "ch_pc c = PubIdle \<Longrightarrow>
    channel_step c (c\<lparr>ch_latest := st, ch_pc := PubSend, ch_published := ch_published c @ [st]\<rparr>)"
| send_ok: "ch_pc c = PubSend \<Longrightarrow> ch_slot c = None \<Longrightarrow>
    channel_step c (c\<lparr>ch_slot := Some (ch_latest c), ch_pc := PubIdle\<rparr>)"
| send_full: "ch_pc c = PubSend \<Longrightarrow> ch_slot c = Some v \<Longrightarrow> channel_step c (c\<lparr>ch_pc := PubDrain\<rparr>)"
| drain: "ch_pc c = PubDrain \<Longrightarrow> channel_step c (c\<lparr>ch_slot := None, ch_pc := PubRetry\<rparr>)"
| retry_ok: "ch_pc c = PubRetry \<Longrightarrow> ch_slot c = None \<Longrightarrow>
    channel_step c (c\<lparr>ch_slot := Some (ch_latest c), ch_pc := PubIdle\<rparr>)"
| retry_full: "ch_pc c = PubRetry \<Longrightarrow> ch_slot c = Some v \<Longrightarrow> channel_step c (c\<lparr>ch_pc := PubIdle\<rparr>)"
| receive: "ch_slot c = Some v \<Longrightarrow> channel_step c (c\<lparr>ch_slot := None, ch_received := ch_received c @ [v]\<rparr>)"

inductive_cases channel_stepE: "channel_step c c'"

definition channel_init :: "'e channel" where
  "channel_init = \<lparr>ch_slot = Some initial_status, ch_latest = initial_status, ch_received = [], ch_pc = PubIdle,
     ch_published = [initial_status]\<rparr>"

definition channel_reach :: "'e channel \<Rightarrow> bool" where
  "channel_reach c = channel_step\<^sup>*\<^sup>* channel_init c"

text \<open>
  The reader sees a subsequence of the published values, in order, and between publications the
  latest value is in the slot or was the last one read.
\<close>

definition channel_inv :: "'e channel \<Rightarrow> bool" where
  "channel_inv c \<longleftrightarrow>
     ch_published c \<noteq> [] \<and> last (ch_published c) = ch_latest c
     \<and> (ch_pc c = PubRetry \<longrightarrow> ch_slot c = None)
     \<and> (ch_pc c = PubIdle \<longrightarrow> ch_slot c = Some (ch_latest c)
          \<or> ch_slot c = None \<and> ch_received c \<noteq> [] \<and> last (ch_received c) = ch_latest c)
     \<and> subseq (ch_received c @ (case ch_slot c of None \<Rightarrow> [] | Some v \<Rightarrow> [v]))
         (if ch_pc c = PubIdle then ch_published c else butlast (ch_published c))"

lemma subseq_front: "subseq (xs @ ys) zs \<Longrightarrow> subseq xs zs"
  by (meson prefixI prefix_imp_subseq subseq_order.order_trans)

lemma channel_step_inv: "channel_step c c' \<Longrightarrow> channel_inv c \<Longrightarrow> channel_inv c'"
proof (induction rule: channel_step.induct)
  case (send_ok c)
  then have "subseq (ch_received c) (butlast (ch_published c))" "ch_published c \<noteq> []"
    "last (ch_published c) = ch_latest c" by (auto simp: channel_inv_def)
  then have "subseq (ch_received c @ [ch_latest c]) (butlast (ch_published c) @ [ch_latest c])"
    by (simp add: subseq_append)
  then have "subseq (ch_received c @ [ch_latest c]) (ch_published c)"
    using \<open>last _ = _\<close> \<open>ch_published c \<noteq> []\<close> by (metis append_butlast_last_id)
  with send_ok show ?case by (auto simp: channel_inv_def)
next
  case (retry_ok c)
  then have "subseq (ch_received c) (butlast (ch_published c))" "ch_published c \<noteq> []"
    "last (ch_published c) = ch_latest c" by (auto simp: channel_inv_def)
  then have "subseq (ch_received c @ [ch_latest c]) (butlast (ch_published c) @ [ch_latest c])"
    by (simp add: subseq_append)
  then have "subseq (ch_received c @ [ch_latest c]) (ch_published c)"
    using \<open>last _ = _\<close> \<open>ch_published c \<noteq> []\<close> by (metis append_butlast_last_id)
  with retry_ok show ?case by (auto simp: channel_inv_def)
next
  case (drain c)
  then show ?case by (auto simp: channel_inv_def split: option.splits dest: subseq_front)
qed (auto simp: channel_inv_def split: option.splits if_splits)

lemma channel_reach_inv: "channel_reach c \<Longrightarrow> channel_inv c"
proof -
  assume "channel_reach c"
  then have "channel_step\<^sup>*\<^sup>* channel_init c" by (simp add: channel_reach_def)
  then show "channel_inv c"
  proof (induction rule: rtranclp_induct)
    case base
    show ?case by (simp add: channel_inv_def channel_init_def)
  next
    case (step c c')
    then show ?case by (blast intro: channel_step_inv)
  qed
qed

lemma channel_reach_step: "channel_reach c \<Longrightarrow> channel_step c c' \<Longrightarrow> channel_reach c'"
  unfolding channel_reach_def by (rule rtranclp.rtrancl_into_rtrancl)

section \<open>The one-shot contract\<close>

text \<open>
  What the streams rely on: a start and a stop-before-start compete for one claim, finishing sets
  the outcome once, every other operation leaves claim and outcome alone.
\<close>

datatype ('e, 'u) one_shot_op = OpStart | OpStopBefore | OpFinish "'e option" | OpUpdate 'u

fun exec_one ::
  "('s \<Rightarrow> bool \<times> 's) \<Rightarrow> ('s \<Rightarrow> bool \<times> 's) \<Rightarrow> ('e option \<Rightarrow> 's \<Rightarrow> 's) \<Rightarrow> ('u \<Rightarrow> 's \<Rightarrow> 's)
    \<Rightarrow> ('e, 'u) one_shot_op \<Rightarrow> nat \<times> 's \<Rightarrow> nat \<times> 's" where
  "exec_one start stop fin upd OpStart (n, s) = (case start s of (won, s') \<Rightarrow> (if won then Suc n else n, s'))"
| "exec_one start stop fin upd OpStopBefore (n, s) = (case stop s of (won, s') \<Rightarrow> (if won then Suc n else n, s'))"
| "exec_one start stop fin upd (OpFinish e) (n, s) = (n, fin e s)"
| "exec_one start stop fin upd (OpUpdate u) (n, s) = (n, upd u s)"

fun first_finish :: "('e, 'u) one_shot_op list \<Rightarrow> 'e option option" where
  "first_finish [] = None"
| "first_finish (OpFinish e # ops) = Some e"
| "first_finish (_ # ops) = first_finish ops"

lemma first_finish_append:
  "first_finish (xs @ ys) = (case first_finish xs of None \<Rightarrow> first_finish ys | Some e \<Rightarrow> Some e)"
  by (induction xs rule: first_finish.induct) auto

locale one_shot =
  fixes start :: "'s \<Rightarrow> bool \<times> 's"
    and stop :: "'s \<Rightarrow> bool \<times> 's"
    and fin :: "'e option \<Rightarrow> 's \<Rightarrow> 's"
    and upd :: "'u \<Rightarrow> 's \<Rightarrow> 's"
    and claimed :: "'s \<Rightarrow> bool"
    and outcome :: "'s \<Rightarrow> 'e option option"
  assumes start_claims: "fst (start s) = (\<not> claimed s) \<and> claimed (snd (start s)) \<and> outcome (snd (start s)) = outcome s"
    and stop_claims: "fst (stop s) = (\<not> claimed s) \<and> claimed (snd (stop s)) \<and> outcome (snd (stop s)) = outcome s"
    and fin_outcome: "claimed (fin e s) = claimed s \<and> outcome (fin e s) = (case outcome s of None \<Rightarrow> Some e | Some r \<Rightarrow> Some r)"
    and upd_keeps: "claimed (upd u s) = claimed s \<and> outcome (upd u s) = outcome s"
begin

lemma exec_claims:
  "fold (exec_one start stop fin upd) ops (n, s) = (n', s') \<Longrightarrow>
    (claimed s \<longrightarrow> n' = n \<and> claimed s') \<and> (\<not> claimed s \<longrightarrow> n' = n + (if claimed s' then 1 else 0))"
proof (induction ops arbitrary: n s)
  case (Cons op ops)
  obtain n1 s1 where one: "exec_one start stop fin upd op (n, s) = (n1, s1)" by (meson surj_pair)
  from Cons.prems one have rest: "fold (exec_one start stop fin upd) ops (n1, s1) = (n', s')" by simp
  have "(claimed s \<longrightarrow> n1 = n \<and> claimed s1) \<and> (\<not> claimed s \<longrightarrow> n1 = n + (if claimed s1 then 1 else 0))"
    using one start_claims [of s] stop_claims [of s] fin_outcome [of _ s] upd_keeps [of _ s]
    by (cases op) (auto split: prod.splits)
  with Cons.IH [OF rest] show ?case by auto
qed simp

lemma exec_outcome:
  "fold (exec_one start stop fin upd) ops (n, s) = (n', s') \<Longrightarrow>
    outcome s' = (case outcome s of None \<Rightarrow> first_finish ops | Some r \<Rightarrow> Some r)"
proof (induction ops arbitrary: n s)
  case Nil
  then show ?case by (auto split: option.splits)
next
  case (Cons op ops)
  obtain n1 s1 where one: "exec_one start stop fin upd op (n, s) = (n1, s1)" by (meson surj_pair)
  from Cons.prems one have rest: "fold (exec_one start stop fin upd) ops (n1, s1) = (n', s')" by simp
  show ?case
    using Cons.IH [OF rest] one start_claims [of s] stop_claims [of s] fin_outcome [of _ s] upd_keeps [of _ s]
    by (cases op) (auto split: prod.splits option.splits)
qed

end

text \<open>The stream state provides the contract.\<close>

datatype ('e, 'm) stream_update = SetStatus "'e status \<Rightarrow> 'e status" | DeliverMsg bool bool 'm

definition start_op :: "('e, 'm) stream_state \<Rightarrow> bool \<times> ('e, 'm) stream_state" where
  "start_op s = (case begin_stream s of (r, s') \<Rightarrow> (is_ok r, s'))"

definition update_op :: "('e, 'm) stream_update \<Rightarrow> ('e, 'm) stream_state \<Rightarrow> ('e, 'm) stream_state" where
  "update_op u s =
     (case u of
        SetStatus change \<Rightarrow> set_status change s
      | DeliverMsg ctx prefer m \<Rightarrow> (case deliver ctx prefer m s of None \<Rightarrow> s | Some (_, s') \<Rightarrow> s'))"

definition stream_outcome :: "('e, 'm) stream_state \<Rightarrow> 'e option option" where
  "stream_outcome s = (if done_closed s then Some (final_err s) else None)"

lemmas state_defs = begin_stream_def stop_before_start_def publish_status_def set_status_def finish_stream_def
  start_op_def update_op_def stream_outcome_def deliver_def

interpretation stream_life: one_shot start_op stop_before_start finish_stream update_op started stream_outcome
  by unfold_locales (auto simp: state_defs Let_def split: stream_update.splits option.splits prod.splits)

text \<open>A finished state is final: its status says how it ended and is in the channel until it is read.\<close>

definition final_ok :: "('e, 'm) stream_state \<Rightarrow> bool" where
  "final_ok s \<longleftrightarrow> done_closed s = finished s
     \<and> (finished s \<longrightarrow> lifecycle (current s) = (if final_err s = None then LifecycleStopped else LifecycleFailed)
          \<and> slot s = Some (current s) \<and> (final_err s \<noteq> None \<longrightarrow> last_error (current s) = final_err s))"

lemma exec_one_final_ok:
  "final_ok s \<Longrightarrow> exec_one start_op stop_before_start finish_stream update_op op (n, s) = (n', s') \<Longrightarrow> final_ok s'"
  by (cases op)
    (auto simp: state_defs final_ok_def Let_def split: stream_update.splits option.splits prod.splits if_splits)

lemma exec_final_ok:
  "fold (exec_one start_op stop_before_start finish_stream update_op) ops (n, s) = (n', s') \<Longrightarrow> final_ok s \<Longrightarrow> final_ok s'"
proof (induction ops arbitrary: n s)
  case (Cons op ops)
  obtain n1 s1 where one: "exec_one start_op stop_before_start finish_stream update_op op (n, s) = (n1, s1)"
    by (meson surj_pair)
  with Cons.prems have "fold (exec_one start_op stop_before_start finish_stream update_op) ops (n1, s1) = (n', s')" by simp
  from Cons.IH [OF this exec_one_final_ok [OF Cons.prems(2) one]] show ?case .
qed simp

text \<open>
  C9: a status stream is one-shot: in any order of starts, stops, finishes, status changes and
  deliveries at most one start or stop-before-start wins; \<open>Wait\<close> reports \<open>ErrNotStarted\<close> before
  that, blocks until the first \<open>Finish\<close> and then always returns the error of that first one; the
  status is then stopped or failed accordingly and stays in the status channel.
\<close>

theorem stream_one_shot:
  fixes ops :: "('e, ('e, 'm) stream_update) one_shot_op list"
  shows "case fold (exec_one start_op stop_before_start finish_stream update_op) ops (0, new_state k) of
     (n, s) \<Rightarrow> n = (if started s then 1 else 0)
       \<and> wait_stream s = (if started s then map_option Inr (first_finish ops) else Some (Inl ErrNotStarted))
       \<and> final_ok s"
proof -
  obtain n s where e: "fold (exec_one start_op stop_before_start finish_stream update_op) ops (0, new_state k) = (n, s)"
    by (meson surj_pair)
  have new: "\<not> started (new_state k :: ('e, 'm) stream_state)"
    "stream_outcome (new_state k :: ('e, 'm) stream_state) = None" "final_ok (new_state k :: ('e, 'm) stream_state)"
    by (simp_all add: new_state_def stream_outcome_def final_ok_def)
  from stream_life.exec_claims [OF e] new(1) have "n = (if started s then 1 else 0)" by auto
  moreover from stream_life.exec_outcome [OF e] new(2) have "first_finish ops = stream_outcome s" by simp
  then have "wait_stream s = (if started s then map_option Inr (first_finish ops) else Some (Inl ErrNotStarted))"
    by (simp add: wait_stream_def stream_outcome_def)
  moreover have "final_ok s" using exec_final_ok [OF e new(3)] .
  ultimately show ?thesis by (simp add: e)
qed

text \<open>
  C10: however the reader of the status channel interleaves with publications, it receives published
  statuses in their order (some may be skipped), and whenever no publication is under way the latest
  status is in the channel or was the last one received: the latest status is never lost.
\<close>

theorem status_coalescing:
  assumes "channel_reach c"
  shows "subseq (ch_received c) (ch_published c) \<and>
    (ch_pc c = PubIdle \<longrightarrow>
      last (ch_received c @ (case ch_slot c of None \<Rightarrow> [] | Some v \<Rightarrow> [v])) = last (ch_published c))"
proof -
  have inv: "channel_inv c" using assms by (rule channel_reach_inv)
  have "subseq (butlast (ch_published c)) (ch_published c)"
    by (cases "ch_published c" rule: rev_cases) auto
  moreover have "subseq (ch_received c) (if ch_pc c = PubIdle then ch_published c else butlast (ch_published c))"
    using inv unfolding channel_inv_def by (blast intro: subseq_front)
  ultimately have "subseq (ch_received c) (ch_published c)"
    by (cases "ch_pc c = PubIdle") (auto intro: subseq_order.order_trans)
  then show ?thesis using inv by (auto simp: channel_inv_def)
qed

lemma sample_channel:
  "channel_reach \<lparr>ch_slot = Some (initial_status\<lparr>attempt := 1\<rparr>), ch_latest = initial_status\<lparr>attempt := 1\<rparr>,
     ch_received = [initial_status], ch_pc = PubIdle, ch_published = [initial_status, initial_status\<lparr>attempt := 1\<rparr>]\<rparr>"
proof -
  let ?st = "initial_status\<lparr>attempt := 1\<rparr>"
  let ?c = "\<lparr>ch_slot = Some initial_status, ch_latest = ?st, ch_received = [], ch_pc = PubSend,
     ch_published = [initial_status, ?st]\<rparr>"
  have "channel_reach channel_init" by (simp add: channel_reach_def)
  from channel_reach_step [OF this channel_step.change [of channel_init ?st]]
  have "channel_reach ?c" by (simp add: channel_init_def)
  from channel_reach_step [OF this channel_step.send_full [of ?c initial_status]]
  have "channel_reach (?c\<lparr>ch_pc := PubDrain\<rparr>)" by simp
  from channel_reach_step [OF this channel_step.receive [of "?c\<lparr>ch_pc := PubDrain\<rparr>" initial_status]]
  have r: "channel_reach (?c\<lparr>ch_pc := PubDrain, ch_slot := None, ch_received := [initial_status]\<rparr>)" by simp
  from channel_reach_step [OF r channel_step.drain]
  have r: "channel_reach (?c\<lparr>ch_pc := PubRetry, ch_slot := None, ch_received := [initial_status]\<rparr>)" by simp
  from channel_reach_step [OF r channel_step.retry_ok] show ?thesis by simp
qed

theorem status_coalescing_witness:
  "subseq [initial_status :: string status] [initial_status, initial_status\<lparr>attempt := 1\<rparr>]"
  using status_coalescing [OF sample_channel] by simp

end
