(* ===== verification/StatusStream.thy ===== *)
theory StatusStream
  imports StreamState
begin

text \<open>
  The local status stream: options (\<open>stream/options.go\<close>), message decoding
  (\<open>internal/statusdecode/decode.go\<close>, the update types of \<open>stream/types.go\<close>) and the connection
  life (\<open>internal/statusstream/stream.go\<close>): dialling with one compatibility retry, bounded
  reconnection, reading, staleness, completion.

  The network, the clock and the context are arguments: for every connection attempt what the
  calls return, for every connection the events in the order the code meets them. Protobuf
  decoding is a parameter.
\<close>

section \<open>Options\<close>

record stream_options =
  stale_after :: duration
  max_attempts :: int
  reconnect_delay :: duration

datatype stream_option = WithStaleAfter duration | WithReconnectPolicy int duration

fun apply_stream_option :: "stream_option \<Rightarrow> stream_options \<Rightarrow> string + stream_options" where
  "apply_stream_option (WithStaleAfter d) c =
     (if d \<le> 0 then Inl ''stream stale duration must be greater than zero'' else Inr (c\<lparr>stale_after := d\<rparr>))"
| "apply_stream_option (WithReconnectPolicy attempts delay) c =
     (if attempts \<le> 0 then Inl ''stream reconnect MaxAttempts must be greater than zero''
      else if delay < 0 then Inl ''stream reconnect Delay must not be negative''
      else Inr (c\<lparr>max_attempts := attempts, reconnect_delay := delay\<rparr>))"

definition default_stream_options :: stream_options where
  "default_stream_options = \<lparr>stale_after = 5000000000, max_attempts = 5, reconnect_delay = 1000000000\<rparr>"

definition resolve_stream_options :: "stream_option option list \<Rightarrow> string + stream_options" where
  "resolve_stream_options configurers = resolve_options apply_stream_option configurers default_stream_options"

definition valid_stream_options :: "stream_options \<Rightarrow> bool" where
  "valid_stream_options c \<longleftrightarrow> 0 < stale_after c \<and> 0 < max_attempts c \<and> 0 \<le> reconnect_delay c"

interpretation stream_opts: configurable apply_stream_option valid_stream_options
proof
  fix c op c'
  assume "valid_stream_options c" "apply_stream_option op c = Inr c'"
  then show "valid_stream_options c'" by (cases op) (auto simp: valid_stream_options_def split: if_splits)
qed

section \<open>Messages\<close>

text \<open>
  The generated state message: each update is a oneof (\<open>'p\<close> is the payload type; None stands for
  a nil update and \<open>SUnset\<close> for an unknown or absent member).
\<close>

datatype 'p state_update =
    SDeviceName 'p | SPower 'p | SBrightness 'p | SAudioVolume 'p | SWifi 'p | SUpdateState 'p
  | SUpdateCheck 'p | STimezone 'p | SMatter 'p | SFrame 'p | SInput 'p | STimer 'p | SBle 'p
  | SAutoUpdateState 'p | STimerProfiles 'p | SUnset 'p

record device_error =
  de_cause :: int
  de_severity :: int

record 'p proto_state =
  ps_updates :: "'p state_update option list"
  ps_error :: "device_error option"

datatype 'p update =
    DeviceNameUpdate 'p | PowerUpdate 'p | BrightnessUpdate 'p | AudioVolumeUpdate 'p | WiFiUpdate 'p
  | FirmwareUpdate 'p | UpdateCheckUpdate 'p | TimezoneUpdate 'p | MatterUpdate 'p | FrameUpdate 'p
  | InputUpdate 'p | TimerUpdate 'p | BLEUpdate 'p | AutoUpdateUpdate 'p | TimerProfilesUpdate 'p
  | UnknownUpdate "'p option"

fun update_kind :: "'p update \<Rightarrow> string" where
  "update_kind (DeviceNameUpdate v) = ''device_name''"
| "update_kind (PowerUpdate v) = ''power''"
| "update_kind (BrightnessUpdate v) = ''brightness''"
| "update_kind (AudioVolumeUpdate v) = ''audio_volume''"
| "update_kind (WiFiUpdate v) = ''wifi''"
| "update_kind (FirmwareUpdate v) = ''update_state''"
| "update_kind (UpdateCheckUpdate v) = ''update_check''"
| "update_kind (TimezoneUpdate v) = ''timezone''"
| "update_kind (MatterUpdate v) = ''matter''"
| "update_kind (FrameUpdate v) = ''frame''"
| "update_kind (InputUpdate v) = ''input''"
| "update_kind (TimerUpdate v) = ''timer''"
| "update_kind (BLEUpdate v) = ''ble''"
| "update_kind (AutoUpdateUpdate v) = ''auto_update_state''"
| "update_kind (TimerProfilesUpdate v) = ''timer_profiles''"
| "update_kind (UnknownUpdate v) = ''unknown''"

fun update_proto :: "'p update \<Rightarrow> 'p option" where
  "update_proto (DeviceNameUpdate v) = Some v"
| "update_proto (PowerUpdate v) = Some v"
| "update_proto (BrightnessUpdate v) = Some v"
| "update_proto (AudioVolumeUpdate v) = Some v"
| "update_proto (WiFiUpdate v) = Some v"
| "update_proto (FirmwareUpdate v) = Some v"
| "update_proto (UpdateCheckUpdate v) = Some v"
| "update_proto (TimezoneUpdate v) = Some v"
| "update_proto (MatterUpdate v) = Some v"
| "update_proto (FrameUpdate v) = Some v"
| "update_proto (InputUpdate v) = Some v"
| "update_proto (TimerUpdate v) = Some v"
| "update_proto (BLEUpdate v) = Some v"
| "update_proto (AutoUpdateUpdate v) = Some v"
| "update_proto (TimerProfilesUpdate v) = Some v"
| "update_proto (UnknownUpdate v) = v"

fun map_update :: "'p state_update option \<Rightarrow> 'p update" where
  "map_update None = UnknownUpdate None"
| "map_update (Some (SDeviceName v)) = DeviceNameUpdate v"
| "map_update (Some (SPower v)) = PowerUpdate v"
| "map_update (Some (SBrightness v)) = BrightnessUpdate v"
| "map_update (Some (SAudioVolume v)) = AudioVolumeUpdate v"
| "map_update (Some (SWifi v)) = WiFiUpdate v"
| "map_update (Some (SUpdateState v)) = FirmwareUpdate v"
| "map_update (Some (SUpdateCheck v)) = UpdateCheckUpdate v"
| "map_update (Some (STimezone v)) = TimezoneUpdate v"
| "map_update (Some (SMatter v)) = MatterUpdate v"
| "map_update (Some (SFrame v)) = FrameUpdate v"
| "map_update (Some (SInput v)) = InputUpdate v"
| "map_update (Some (STimer v)) = TimerUpdate v"
| "map_update (Some (SBle v)) = BLEUpdate v"
| "map_update (Some (SAutoUpdateState v)) = AutoUpdateUpdate v"
| "map_update (Some (STimerProfiles v)) = TimerProfilesUpdate v"
| "map_update (Some (SUnset v)) = UnknownUpdate (Some v)"

datatype stream_cause =
    CauseText string
  | CauseCtx
  | CauseSlow
  | CauseDevice device_error

record stream_error =
  sx_operation :: string
  sx_path :: string
  sx_attempt :: nat
  sx_status :: nat
  sx_close :: nat
  sx_terminal :: bool
  sx_err :: stream_cause

datatype message_kind = MessageBinary | MessageText

record 'p message =
  sm_kind :: message_kind
  sm_received :: int
  sm_raw :: bytes
  sm_text :: bytes
  sm_state :: "'p proto_state option"
  sm_updates :: "'p update list"
  sm_device_error :: "device_error option"
  sm_decode_error :: "stream_error option"

definition Severity_FATAL :: int where "Severity_FATAL = 0"

definition mk_stream_error :: "string \<Rightarrow> string \<Rightarrow> nat \<Rightarrow> nat \<Rightarrow> nat \<Rightarrow> bool \<Rightarrow> stream_cause \<Rightarrow> stream_error" where
  "mk_stream_error operation path attempts code closing terminal err =
     \<lparr>sx_operation = operation, sx_path = path, sx_attempt = attempts, sx_status = code, sx_close = closing,
      sx_terminal = terminal, sx_err = err\<rparr>"

definition decode_binary ::
  "(bytes \<Rightarrow> string + 'p proto_state) \<Rightarrow> bytes \<Rightarrow> string \<Rightarrow> int \<Rightarrow> 'p message \<times> bool" where
  "decode_binary unmarshal payload path now =
     (let m = \<lparr>sm_kind = MessageBinary, sm_received = now, sm_raw = payload, sm_text = [], sm_state = None,
               sm_updates = [], sm_device_error = None, sm_decode_error = None\<rparr>
      in case unmarshal payload of
           Inl err \<Rightarrow> (m\<lparr>sm_decode_error := Some (mk_stream_error ''decode'' path 0 0 0 False (CauseText err))\<rparr>, False)
         | Inr st \<Rightarrow>
             (m\<lparr>sm_state := Some st, sm_updates := map map_update (ps_updates st), sm_device_error := ps_error st\<rparr>,
              case ps_error st of None \<Rightarrow> False | Some e \<Rightarrow> de_severity e = Severity_FATAL))"

definition statusStreamPath :: string where "statusStreamPath = ''/api/status/ws''"
definition messageBuffer :: nat where "messageBuffer = 64"

definition decode_message ::
  "(bytes \<Rightarrow> string + 'p proto_state) \<Rightarrow> bool \<Rightarrow> bytes \<Rightarrow> int \<Rightarrow> 'p message \<times> bool" where
  "decode_message unmarshal is_text payload now =
     (if is_text
      then (\<lparr>sm_kind = MessageText, sm_received = now, sm_raw = payload, sm_text = payload, sm_state = None,
             sm_updates = [], sm_device_error = None, sm_decode_error = None\<rparr>, False)
      else decode_binary unmarshal payload statusStreamPath now)"

section \<open>Connecting\<close>

text \<open>
  One pass of the loop in \<open>connectOnce\<close>: the version lookup, the dial (status code and error, code
  0 when there was no response), the refresh of the version, the write of the enable message.
\<close>

record dial_try =
  dt_version :: "string + string"
  dt_dial :: "(nat \<times> string) option"
  dt_refresh :: "string option"
  dt_enable :: "string option"

record connect_result =
  cr_failure :: "stream_error option"
  cr_retry :: bool
  cr_rejected :: bool
  cr_dials :: nat

definition connect_failure :: "string \<Rightarrow> nat \<Rightarrow> nat \<Rightarrow> string \<Rightarrow> bool \<Rightarrow> bool \<Rightarrow> nat \<Rightarrow> connect_result" where
  "connect_failure operation att code err retry rejected dials =
     \<lparr>cr_failure = Some (mk_stream_error operation statusStreamPath att code 0 False (CauseText err)),
      cr_retry = retry, cr_rejected = rejected, cr_dials = dials\<rparr>"

function connect_once :: "bool \<Rightarrow> nat \<Rightarrow> (nat \<Rightarrow> dial_try) \<Rightarrow> bool \<Rightarrow> nat \<Rightarrow> connect_result" where
  "connect_once negotiation att tries compatibilityRetried k =
     (case (if negotiation then dt_version (tries k) else Inr []) of
        Inl err \<Rightarrow> connect_failure ''version'' att 0 err True False k
      | Inr _ \<Rightarrow>
          (case dt_dial (tries k) of
             Some (code, err) \<Rightarrow>
               if code = 405 \<and> negotiation \<and> \<not> compatibilityRetried
               then (case dt_refresh (tries k) of
                       Some e \<Rightarrow> connect_failure ''version refresh'' att code e True False (Suc k)
                     | None \<Rightarrow> connect_once negotiation att tries True (Suc k))
               else connect_failure ''connect'' att code err (code = 0 \<or> code \<ge> 500) (code = 403) (Suc k)
           | None \<Rightarrow>
               (case dt_enable (tries k) of
                  Some e \<Rightarrow> connect_failure ''enable'' att 0 e True False (Suc k)
                | None \<Rightarrow> \<lparr>cr_failure = None, cr_retry = False, cr_rejected = False, cr_dials = Suc k\<rparr>)))"
  by pat_completeness auto
termination
  by (relation "measure (\<lambda>(n, a, t, c, k). if c then 0 else 1)") auto

declare connect_once.simps [simp del]

datatype run_error = RunStream stream_error | RunCtx

type_synonym 'p stream = "(run_error, 'p message) stream_state"

text \<open>
  One attempt of \<open>connectWithRetry\<close>: its dials, whether the context is done after a failure, whether
  the wait for the next attempt is interrupted, the time of a success.
\<close>

record attempt_env =
  ae_tries :: "nat \<Rightarrow> dial_try"
  ae_ctx_done :: bool
  ae_wait_cancelled :: bool
  ae_now :: int

definition connected_status :: "int \<Rightarrow> run_error status \<Rightarrow> run_error status" where
  "connected_status now st =
     st\<lparr>lifecycle := LifecycleConnected, access := AccessAccepted,
        data_state := (if last_state_at st = None then DataWaiting else DataStale),
        connected_at := Some now, last_error := None\<rparr>"

function connect_with_retry ::
  "stream_options \<Rightarrow> bool \<Rightarrow> lifecycle \<Rightarrow> (nat \<Rightarrow> attempt_env) \<Rightarrow> nat \<Rightarrow> stream_error option
    \<Rightarrow> 'p stream \<Rightarrow> (stream_error option + unit) \<times> 'p stream" where
  "connect_with_retry opts negotiation lc envs att lastErr st =
     (if int att > max_attempts opts then (Inl lastErr, st)
      else
        let env = envs att;
            st1 = set_status (\<lambda>s. s\<lparr>lifecycle := lc, attempt := att, access := AccessUnknown\<rparr>) st;
            r = connect_once negotiation att (ae_tries env) False 0
        in case cr_failure r of
             None \<Rightarrow> (Inr (), set_status (connected_status (ae_now env)) st1)
           | Some f \<Rightarrow>
               let terminal = (\<not> cr_retry r \<or> int att = max_attempts opts);
                   failure = (if terminal then f\<lparr>sx_terminal := True\<rparr> else f);
                   st2 = set_status (\<lambda>s. let s = s\<lparr>last_error := Some (RunStream failure)\<rparr>
                                       in if cr_rejected r then s\<lparr>access := AccessRejected\<rparr> else s) st1
               in if ae_ctx_done env \<or> terminal then (Inl (Some failure), st2)
                  else if reconnect_delay opts \<noteq> 0 \<and> ae_wait_cancelled env
                  then (Inl (Some (mk_stream_error ''reconnect'' statusStreamPath att 0 0 True CauseCtx)), st2)
                  else connect_with_retry opts negotiation lc envs (Suc att) (Some failure) st2)"
  by pat_completeness auto
termination
  by (relation "measure (\<lambda>(opts, n, lc, envs, att, l, st). nat (max_attempts opts + 1 - int att))") auto

declare connect_with_retry.simps [simp del]

section \<open>Reading\<close>

text \<open>
  What \<open>readConnection\<close> meets: ticks of the staleness watcher, messages taken by the consumer,
  messages from the device (with the state of the context and the choice of the select when the
  message is delivered), and the error that ends the connection.
\<close>

datatype ws_event =
    EvTick int
  | EvTake
  | EvMessage bool bytes int bool bool
  | EvError nat string

datatype 'a outcome = Running | Panic | Done 'a

record read_result =
  rr_err :: run_error
  rr_terminal :: bool

definition stale_check :: "duration \<Rightarrow> int \<Rightarrow> run_error status \<Rightarrow> run_error status" where
  "stale_check limit now st =
     (if lifecycle st \<noteq> LifecycleConnected \<or> data_state st = DataStale then st
      else case (case last_state_at st of None \<Rightarrow> connected_at st | Some t \<Rightarrow> Some t) of
             None \<Rightarrow> st
           | Some reference \<Rightarrow> if now - reference \<ge> limit then st\<lparr>data_state := DataStale\<rparr> else st)"

definition take_message :: "('e, 'm) stream_state \<Rightarrow> ('e, 'm) stream_state" where
  "take_message s = s\<lparr>messages := tl (messages s)\<rparr>"

text \<open>The status change for a decoded state, and the delivery of the message.\<close>

definition receive_message ::
  "'p message \<Rightarrow> bool \<Rightarrow> bool \<Rightarrow> 'p stream \<Rightarrow> (run_error deliver_result \<times> 'p stream) option" where
  "receive_message m ctx_done prefer st =
     deliver ctx_done prefer m
       (if sm_state m \<noteq> None \<and> sm_decode_error m = None
        then set_status (\<lambda>s. s\<lparr>data_state := DataFresh, last_state_at := Some (sm_received m)\<rparr>) st
        else st)"

fun read_connection ::
  "stream_options \<Rightarrow> (bytes \<Rightarrow> string + 'p proto_state) \<Rightarrow> ws_event list \<Rightarrow> 'p stream
    \<Rightarrow> (read_result \<times> 'p stream) outcome" where
  "read_connection opts dec [] st = Running"
| "read_connection opts dec (EvTick now # evs) st =
     read_connection opts dec evs (set_status (stale_check (stale_after opts) now) st)"
| "read_connection opts dec (EvTake # evs) st = read_connection opts dec evs (take_message st)"
| "read_connection opts dec (EvError code err # evs) st =
     Done (\<lparr>rr_err = RunStream (mk_stream_error ''read'' statusStreamPath 0 0 code False (CauseText err)),
            rr_terminal = False\<rparr>, st)"
| "read_connection opts dec (EvMessage is_text payload now ctx_done prefer # evs) st =
     (case decode_message dec is_text payload now of
        (m, fatal) \<Rightarrow>
          (case receive_message m ctx_done prefer st of
             None \<Rightarrow> Panic
           | Some (DeliverCtx, st2) \<Rightarrow> Done (\<lparr>rr_err = RunCtx, rr_terminal = False\<rparr>, st2)
           | Some (DeliverSlow, st2) \<Rightarrow>
               if ctx_done then Done (\<lparr>rr_err = RunCtx, rr_terminal = False\<rparr>, st2)
               else Done (\<lparr>rr_err = RunStream (mk_stream_error ''deliver'' statusStreamPath 0 0 0 True CauseSlow),
                           rr_terminal = True\<rparr>, st2)
           | Some (Delivered, st2) \<Rightarrow>
               if fatal
               then Done (\<lparr>rr_err = RunStream (mk_stream_error ''device error'' statusStreamPath 0 0 0 True
                              (case sm_device_error m of None \<Rightarrow> CauseCtx | Some e \<Rightarrow> CauseDevice e)),
                           rr_terminal = True\<rparr>, st2)
               else read_connection opts dec evs st2))"

section \<open>Running\<close>

record conn_env =
  ce_events :: "ws_event list"
  ce_ctx_after_read :: bool
  ce_attempts :: "nat \<Rightarrow> attempt_env"
  ce_ctx_after_retry :: bool

definition reconnecting_status :: "run_error \<Rightarrow> run_error status \<Rightarrow> run_error status" where
  "reconnecting_status err s =
     s\<lparr>lifecycle := LifecycleReconnecting, access := AccessUnknown,
       data_state := (if last_state_at s = None then DataWaiting else DataStale), last_error := Some err\<rparr>"

fun run_stream ::
  "stream_options \<Rightarrow> bool \<Rightarrow> (bytes \<Rightarrow> string + 'p proto_state) \<Rightarrow> conn_env list \<Rightarrow> 'p stream
    \<Rightarrow> 'p stream outcome" where
  "run_stream opts negotiation dec [] st = Running"
| "run_stream opts negotiation dec (env # envs) st =
     (case read_connection opts dec (ce_events env) st of
        Running \<Rightarrow> Running
      | Panic \<Rightarrow> Panic
      | Done (result, st1) \<Rightarrow>
          if ce_ctx_after_read env then Done (finish_stream None st1)
          else if rr_terminal result then Done (finish_stream (Some (rr_err result)) st1)
          else
            (case connect_with_retry opts negotiation LifecycleReconnecting (ce_attempts env) 1 None
                    (set_status (reconnecting_status (rr_err result)) st1) of
               (Inl err, st3) \<Rightarrow>
                 Done (finish_stream (if ce_ctx_after_retry env then None else map_option RunStream err) st3)
             | (Inr _, st3) \<Rightarrow> run_stream opts negotiation dec envs st3))"

record start_env =
  sv_attempts :: "nat \<Rightarrow> attempt_env"
  sv_ctx_after :: bool
  sv_conns :: "conn_env list"

datatype start_error = StartApi stream_api_error | StartRun run_error

text \<open>\<open>Start\<close> with the goroutine it starts: its result, and how the stream goes on.\<close>

definition start_stream ::
  "stream_options \<Rightarrow> bool \<Rightarrow> (bytes \<Rightarrow> string + 'p proto_state) \<Rightarrow> start_env \<Rightarrow> 'p stream
    \<Rightarrow> (start_error option) \<times> 'p stream outcome" where
  "start_stream opts negotiation dec env st =
     (case begin_stream st of
        (Inl e, st') \<Rightarrow> (Some (StartApi e), Done st')
      | (Inr _, st1) \<Rightarrow>
          let st2 = set_status (\<lambda>s. s\<lparr>lifecycle := LifecycleConnecting, access := AccessUnknown,
                                      data_state := DataWaiting, last_error := None\<rparr>) st1
          in case connect_with_retry opts negotiation LifecycleConnecting (sv_attempts env) 1 None st2 of
               (Inl err, st3) \<Rightarrow>
                 let e = (if sv_ctx_after env then Some RunCtx else map_option RunStream err)
                 in (map_option StartRun e, Done (finish_stream e st3))
             | (Inr _, st3) \<Rightarrow> (None, run_stream opts negotiation dec (sv_conns env) st3))"

text \<open>\<open>Stop\<close> on a stream that was not started completes it.\<close>

definition stop_idle :: "'p stream \<Rightarrow> bool \<times> 'p stream" where
  "stop_idle st = (case stop_before_start st of (True, st') \<Rightarrow> (True, finish_stream None st') | r \<Rightarrow> r)"

definition request_snapshot :: "bool \<Rightarrow> string option \<Rightarrow> 'p stream \<Rightarrow> stream_error + unit" where
  "request_snapshot has_conn write_err st =
     (if lifecycle (current st) = LifecycleConnected \<and> has_conn
      then (case write_err of
              None \<Rightarrow> Inr ()
            | Some e \<Rightarrow> Inl (mk_stream_error ''request snapshot'' statusStreamPath 0 0 0 False (CauseText e)))
      else Inl (mk_stream_error [] [] 0 0 0 False (CauseText ''status stream is not connected'')))"

section \<open>One connection attempt\<close>

text \<open>The result of an attempt whose dial \<open>k\<close> is the last one.\<close>

definition dial_result :: "bool \<Rightarrow> nat \<Rightarrow> dial_try \<Rightarrow> nat \<Rightarrow> connect_result" where
  "dial_result negotiation att t k =
     (case (if negotiation then dt_version t else Inr []) of
        Inl err \<Rightarrow> connect_failure ''version'' att 0 err True False k
      | Inr _ \<Rightarrow>
          (case dt_dial t of
             Some (code, err) \<Rightarrow> connect_failure ''connect'' att code err (code = 0 \<or> code \<ge> 500) (code = 403) (Suc k)
           | None \<Rightarrow>
               (case dt_enable t of
                  Some e \<Rightarrow> connect_failure ''enable'' att 0 e True False (Suc k)
                | None \<Rightarrow> \<lparr>cr_failure = None, cr_retry = False, cr_rejected = False, cr_dials = Suc k\<rparr>)))"

definition wants_compatibility :: "bool \<Rightarrow> dial_try \<Rightarrow> bool" where
  "wants_compatibility negotiation t \<longleftrightarrow>
     negotiation \<and> is_ok (dt_version t) \<and> map_option fst (dt_dial t) = Some 405"

lemma connect_once_last: "connect_once negotiation att tries True k = dial_result negotiation att (tries k) k"
  by (subst connect_once.simps) (auto simp: dial_result_def split: sum.splits option.splits)

lemma connect_once_cases:
  "connect_once negotiation att tries False 0 =
     (if wants_compatibility negotiation (tries 0)
      then (case dt_refresh (tries 0) of
              Some e \<Rightarrow> connect_failure ''version refresh'' att 405 e True False 1
            | None \<Rightarrow> dial_result negotiation att (tries 1) 1)
      else dial_result negotiation att (tries 0) 0)"
  by (subst connect_once.simps)
    (auto simp: dial_result_def wants_compatibility_def connect_once_last is_ok_iff split: sum.splits option.splits)

lemma dial_result_dials: "cr_dials (dial_result negotiation att t k) \<le> Suc k"
  by (auto simp: dial_result_def connect_failure_def split: sum.splits option.splits)

section \<open>Reconnection\<close>

definition attempt_of :: "stream_options \<Rightarrow> bool \<Rightarrow> (nat \<Rightarrow> attempt_env) \<Rightarrow> nat \<Rightarrow> connect_result" where
  "attempt_of opts negotiation envs k = connect_once negotiation k (ae_tries (envs k)) False 0"

text \<open>After attempt \<open>k\<close> another one is made.\<close>

definition goes_on :: "stream_options \<Rightarrow> bool \<Rightarrow> (nat \<Rightarrow> attempt_env) \<Rightarrow> nat \<Rightarrow> bool" where
  "goes_on opts negotiation envs k \<longleftrightarrow>
     cr_failure (attempt_of opts negotiation envs k) \<noteq> None \<and> cr_retry (attempt_of opts negotiation envs k)
     \<and> int k < max_attempts opts \<and> \<not> ae_ctx_done (envs k)
     \<and> \<not> (reconnect_delay opts \<noteq> 0 \<and> ae_wait_cancelled (envs k))"

definition attempt_result :: "stream_options \<Rightarrow> bool \<Rightarrow> (nat \<Rightarrow> attempt_env) \<Rightarrow> nat \<Rightarrow> stream_error option + unit" where
  "attempt_result opts negotiation envs k =
     (let r = attempt_of opts negotiation envs k
      in case cr_failure r of
           None \<Rightarrow> Inr ()
         | Some f \<Rightarrow>
             if \<not> cr_retry r \<or> int k = max_attempts opts then Inl (Some (f\<lparr>sx_terminal := True\<rparr>))
             else if ae_ctx_done (envs k) then Inl (Some f)
             else Inl (Some (mk_stream_error ''reconnect'' statusStreamPath k 0 0 True CauseCtx)))"

lemma set_status_simps [simp]:
  "finished (set_status f s) = finished s" "done_closed (set_status f s) = done_closed s"
  "delivered (set_status f s) = delivered s" "messages (set_status f s) = messages s"
  "capacity (set_status f s) = capacity s" "final_err (set_status f s) = final_err s"
  "current (set_status f s) = (if finished s then current s else f (current s))"
  by (simp_all add: set_status_def publish_status_def)

lemma connect_with_retry_from:
  "int att \<le> max_attempts opts \<Longrightarrow> \<not> finished st \<Longrightarrow>
    connect_with_retry opts negotiation lc envs att lastErr st = (res, st') \<Longrightarrow>
    \<exists>k. att \<le> k \<and> int k \<le> max_attempts opts \<and> (\<forall>j. att \<le> j \<longrightarrow> j < k \<longrightarrow> goes_on opts negotiation envs j)
      \<and> \<not> goes_on opts negotiation envs k \<and> res = attempt_result opts negotiation envs k
      \<and> attempt (current st') = k
      \<and> lifecycle (current st') = (if is_ok res then LifecycleConnected else lc)"
proof (induction "nat (max_attempts opts + 1 - int att)" arbitrary: att lastErr st rule: less_induct)
  case less
  define st1 where "st1 = set_status (\<lambda>s. s\<lparr>lifecycle := lc, attempt := att, access := AccessUnknown\<rparr>) st"
  define r where "r = connect_once negotiation att (ae_tries (envs att)) False 0"
  have r': "attempt_of opts negotiation envs att = r" by (simp add: attempt_of_def r_def)
  have st1: "\<not> finished st1" "attempt (current st1) = att" "lifecycle (current st1) = lc"
    using less.prems(2) by (simp_all add: st1_def)
  show ?case
  proof (cases "goes_on opts negotiation envs att")
    case True
    then obtain f where f: "cr_failure r = Some f" by (auto simp: goes_on_def r')
    define st2 where "st2 = set_status (\<lambda>s. let s = s\<lparr>last_error := Some (RunStream f)\<rparr>
        in if cr_rejected r then s\<lparr>access := AccessRejected\<rparr> else s) st1"
    have eq: "connect_with_retry opts negotiation lc envs att lastErr st
        = connect_with_retry opts negotiation lc envs (Suc att) (Some f) st2"
      using True less.prems(1) f
      by (subst connect_with_retry.simps)
        (auto simp: goes_on_def r' r_def [symmetric] st1_def [symmetric] st2_def Let_def)
    have lim: "int (Suc att) \<le> max_attempts opts" using True by (simp add: goes_on_def)
    have IH: "\<exists>k. Suc att \<le> k \<and> int k \<le> max_attempts opts
      \<and> (\<forall>j. Suc att \<le> j \<longrightarrow> j < k \<longrightarrow> goes_on opts negotiation envs j)
      \<and> \<not> goes_on opts negotiation envs k \<and> res = attempt_result opts negotiation envs k
      \<and> attempt (current st') = k \<and> lifecycle (current st') = (if is_ok res then LifecycleConnected else lc)"
      using less.prems(3) lim st1(1) unfolding eq by (intro less.hyps) (auto simp: st2_def)
    then show ?thesis using True by (metis Suc_leD Suc_leI le_neq_implies_less)
  next
    case False
    have "res = attempt_result opts negotiation envs att \<and> attempt (current st') = att
        \<and> lifecycle (current st') = (if is_ok res then LifecycleConnected else lc)"
      using False less.prems(1,3) st1
      by (subst (asm) connect_with_retry.simps)
        (auto simp: goes_on_def attempt_result_def r' r_def [symmetric] st1_def [symmetric] Let_def
          connected_status_def split: option.splits if_splits)
    then show ?thesis using False less.prems(1) by (intro exI [of _ att]) auto
  qed
qed

section \<open>The life of a stream\<close>

text \<open>The messages of the events up to the error, decoded, in order.\<close>

fun event_messages :: "(bytes \<Rightarrow> string + 'p proto_state) \<Rightarrow> ws_event list \<Rightarrow> 'p message list" where
  "event_messages dec [] = []"
| "event_messages dec (EvMessage is_text payload now c p # evs) =
     fst (decode_message dec is_text payload now) # event_messages dec evs"
| "event_messages dec (EvError code err # evs) = []"
| "event_messages dec (EvTick now # evs) = event_messages dec evs"
| "event_messages dec (EvTake # evs) = event_messages dec evs"

definition ctx_quiet :: "ws_event list \<Rightarrow> bool" where
  "ctx_quiet evs = list_all (\<lambda>e. case e of EvMessage _ _ _ c _ \<Rightarrow> \<not> c | _ \<Rightarrow> True) evs"

definition stream_messages :: "(bytes \<Rightarrow> string + 'p proto_state) \<Rightarrow> conn_env list \<Rightarrow> 'p message list" where
  "stream_messages dec envs = concat (map (\<lambda>e. event_messages dec (ce_events e)) envs)"

definition live :: "('e, 'm) stream_state \<Rightarrow> bool" where
  "live st \<longleftrightarrow> \<not> finished st \<and> \<not> done_closed st"

lemma live_set_status [simp]: "live (set_status f st) = live st"
  by (simp add: live_def)

lemma live_take [simp]: "live (take_message st) = live st" "delivered (take_message st) = delivered st"
  by (simp_all add: live_def take_message_def)

lemma receive_live:
  assumes "live st"
  shows "\<exists>r st2. receive_message m c p st = Some (r, st2) \<and> live st2
    \<and> delivered st2 = delivered st @ (if r = Delivered then [m] else [])"
  using assms by (auto simp: receive_message_def deliver_def live_def Let_def)

text \<open>Reading: no panic, and what is delivered is an initial part of the messages, in order.\<close>

lemma read_connection_live:
  "live st \<Longrightarrow>
    read_connection opts dec evs st \<noteq> Panic \<and>
    (\<forall>res st1. read_connection opts dec evs st = Done (res, st1) \<longrightarrow>
       live st1 \<and> (\<exists>ms. prefix ms (event_messages dec evs) \<and> delivered st1 = delivered st @ ms)
       \<and> (rr_terminal res \<longrightarrow> (\<exists>e. rr_err res = RunStream e \<and> sx_terminal e))
       \<and> (\<not> rr_terminal res \<and> ctx_quiet evs \<longrightarrow> delivered st1 = delivered st @ event_messages dec evs))"
proof (induction opts dec evs st rule: read_connection.induct)
  case (5 opts dec is_text payload now c p evs st)
  obtain m fatal where m: "decode_message dec is_text payload now = (m, fatal)" by (meson surj_pair)
  obtain r st2 where r: "receive_message m c p st = Some (r, st2)" "live st2"
    "delivered st2 = delivered st @ (if r = Delivered then [m] else [])"
    using receive_live [OF "5.prems"] by blast
  show ?case
  proof (cases "r = Delivered \<and> \<not> fatal")
    case True
    have "read_connection opts dec (EvMessage is_text payload now c p # evs) st = read_connection opts dec evs st2"
      using True m r by simp
    moreover have "read_connection opts dec evs st2 \<noteq> Panic \<and>
      (\<forall>res st1. read_connection opts dec evs st2 = Done (res, st1) \<longrightarrow>
         live st1 \<and> (\<exists>ms. prefix ms (event_messages dec evs) \<and> delivered st1 = delivered st2 @ ms)
         \<and> (rr_terminal res \<longrightarrow> (\<exists>e. rr_err res = RunStream e \<and> sx_terminal e))
         \<and> (\<not> rr_terminal res \<and> ctx_quiet evs \<longrightarrow> delivered st1 = delivered st2 @ event_messages dec evs))"
      using True m r by (intro "5.IH") auto
    ultimately show ?thesis using True m r(3) by (fastforce simp: prefix_def ctx_quiet_def)
  next
    case False
    then show ?thesis using m r
      by (cases r) (auto simp: mk_stream_error_def prefix_def ctx_quiet_def receive_message_def deliver_def Let_def
          split: if_splits)
  qed
qed (auto simp: mk_stream_error_def ctx_quiet_def)

lemma connect_with_retry_live:
  "live st \<Longrightarrow> connect_with_retry opts negotiation lc envs att lastErr st = (res, st') \<Longrightarrow>
    live st' \<and> delivered st' = delivered st"
proof (induction "nat (max_attempts opts + 1 - int att)" arbitrary: att lastErr st rule: less_induct)
  case less
  define st1 where "st1 = set_status (\<lambda>s. s\<lparr>lifecycle := lc, attempt := att, access := AccessUnknown\<rparr>) st"
  have st1: "live st1" "delivered st1 = delivered st" using less.prems(1) by (simp_all add: st1_def)
  show ?case
  proof (cases "int att \<le> max_attempts opts")
    case False
    then show ?thesis using less.prems by (subst (asm) connect_with_retry.simps) simp
  next
    case True
    then have "nat (max_attempts opts + 1 - int (Suc att)) < nat (max_attempts opts + 1 - int att)" by simp
    note IH = less.hyps [OF this]
    show ?thesis
      using less.prems(2) True st1
      by (subst (asm) connect_with_retry.simps)
        (auto simp: st1_def [symmetric] Let_def dest!: IH [rotated] split: option.splits if_splits)
  qed
qed

lemma finish_live:
  "live st \<Longrightarrow> finished (finish_stream e st) \<and> done_closed (finish_stream e st) \<and> final_ok (finish_stream e st)
     \<and> final_err (finish_stream e st) = e \<and> delivered (finish_stream e st) = delivered st"
  by (auto simp: finish_stream_def live_def final_ok_def publish_status_def Let_def split: option.splits)

text \<open>
  A context stays done: when a delivery saw it done, the check after the reading sees it too, and
  when an attempt saw it done, the check after the retries does.
\<close>

definition ctx_stays_done :: "conn_env \<Rightarrow> bool" where
  "ctx_stays_done env \<longleftrightarrow>
     (ctx_quiet (ce_events env) \<or> ce_ctx_after_read env)
     \<and> (\<forall>k. ae_ctx_done (ce_attempts env k) \<longrightarrow> ce_ctx_after_retry env)"

lemma attempt_result_terminal:
  assumes "attempt_result opts negotiation envs k = Inl err" and "\<not> ae_ctx_done (envs k)"
  shows "\<exists>f. err = Some f \<and> sx_terminal f"
  using assms by (auto simp: attempt_result_def Let_def mk_stream_error_def split: option.splits if_splits)

lemma run_stream_live:
  "live st \<Longrightarrow> valid_stream_options opts \<Longrightarrow> \<forall>env \<in> set envs. ctx_stays_done env \<Longrightarrow>
    run_stream opts negotiation dec envs st \<noteq> Panic \<and>
    (\<forall>st'. run_stream opts negotiation dec envs st = Done st' \<longrightarrow>
       finished st' \<and> done_closed st' \<and> final_ok st'
       \<and> (\<exists>ms. prefix ms (stream_messages dec envs) \<and> delivered st' = delivered st @ ms)
       \<and> (case final_err st' of
            None \<Rightarrow> \<exists>env \<in> set envs. ce_ctx_after_read env \<or> ce_ctx_after_retry env
          | Some e \<Rightarrow> \<exists>f. e = RunStream f \<and> sx_terminal f))"
proof (induction envs arbitrary: st)
  case (Cons env envs)
  have msgs: "stream_messages dec (env # envs) = event_messages dec (ce_events env) @ stream_messages dec envs"
    by (simp add: stream_messages_def)
  note read = read_connection_live [OF Cons.prems(1), of opts dec "ce_events env"]
  show ?case
  proof (cases "read_connection opts dec (ce_events env) st")
    case Running
    then show ?thesis by simp
  next
    case Panic
    then show ?thesis using read by simp
  next
    case (Done v)
    then obtain result st1 where d: "read_connection opts dec (ce_events env) st = Done (result, st1)" by (cases v) auto
    with read obtain ms where st1: "live st1" and ms: "prefix ms (event_messages dec (ce_events env))"
      "delivered st1 = delivered st @ ms"
      and trm: "rr_terminal result \<longrightarrow> (\<exists>e. rr_err result = RunStream e \<and> sx_terminal e)"
      and all: "\<not> rr_terminal result \<and> ctx_quiet (ce_events env) \<longrightarrow>
        delivered st1 = delivered st @ event_messages dec (ce_events env)" by blast
    have pre: "prefix ms (stream_messages dec (env # envs))" using ms(1) unfolding msgs by (rule prefix_prefix)
    consider "ce_ctx_after_read env \<or> rr_terminal result" | "\<not> ce_ctx_after_read env" "\<not> rr_terminal result" by blast
    then show ?thesis
    proof cases
      case 1
      then show ?thesis using d finish_live [OF st1] trm ms(2) pre by auto
    next
      case 2
      define st2 where "st2 = set_status (reconnecting_status (rr_err result)) st1"
      have st2: "live st2" "delivered st2 = delivered st @ ms" using st1 ms(2) by (simp_all add: st2_def)
      obtain res st3 where c: "connect_with_retry opts negotiation LifecycleReconnecting (ce_attempts env) 1 None st2 = (res, st3)"
        by (meson surj_pair)
      have st3: "live st3" "delivered st3 = delivered st @ ms"
        using connect_with_retry_live [OF st2(1) c] st2(2) by auto
      have "int 1 \<le> max_attempts opts" using Cons.prems(2) by (simp add: valid_stream_options_def)
      from connect_with_retry_from [OF this _ c] st2(1) obtain k where
        k: "res = attempt_result opts negotiation (ce_attempts env) k" by (auto simp: live_def)
      show ?thesis
      proof (cases res)
        case (Inl err)
        have run: "run_stream opts negotiation dec (env # envs) st =
            Done (finish_stream (if ce_ctx_after_retry env then None else map_option RunStream err) st3)"
          using d 2 c Inl by (simp add: st2_def)
        have "\<not> ce_ctx_after_retry env \<Longrightarrow> \<exists>f. err = Some f \<and> sx_terminal f"
          using attempt_result_terminal [of opts negotiation "ce_attempts env" k err] k Inl Cons.prems(3)
          by (auto simp: ctx_stays_done_def)
        then show ?thesis
          using finish_live [OF st3(1)] st3(2) pre unfolding run by (cases "ce_ctx_after_retry env") auto
      next
        case (Inr u)
        have dl: "delivered st3 = delivered st @ event_messages dec (ce_events env)"
          using all 2 Cons.prems(3) st3(2) ms(2) by (auto simp: ctx_stays_done_def)
        have run: "run_stream opts negotiation dec (env # envs) st = run_stream opts negotiation dec envs st3"
          using d 2 c Inr by (simp add: st2_def)
        from Cons.IH [OF st3(1) Cons.prems(2)] Cons.prems(3)
        have "run_stream opts negotiation dec envs st3 \<noteq> Panic \<and>
          (\<forall>st'. run_stream opts negotiation dec envs st3 = Done st' \<longrightarrow>
             finished st' \<and> done_closed st' \<and> final_ok st'
             \<and> (\<exists>ms. prefix ms (stream_messages dec envs) \<and> delivered st' = delivered st3 @ ms)
             \<and> (case final_err st' of
                  None \<Rightarrow> \<exists>env \<in> set envs. ce_ctx_after_read env \<or> ce_ctx_after_retry env
                | Some e \<Rightarrow> \<exists>f. e = RunStream f \<and> sx_terminal f))" by simp
        with dl show ?thesis
          unfolding run msgs by (fastforce split: option.splits)
      qed
    qed
  qed
qed simp

lemma begin_live: "\<not> started st \<Longrightarrow> live st \<Longrightarrow> begin_stream st = (Inr (), st\<lparr>started := True\<rparr>) \<and> live (st\<lparr>started := True\<rparr>)"
  by (simp add: begin_stream_def live_def)

text \<open>
  one connection attempt dials at most twice, the second time only after HTTP 405 with version
  negotiation on and a successful refresh; it asks for a retry exactly after a failed version lookup
  or refresh, a failed enable message, a dial without response or a 5xx answer, and reports
  rejection exactly for 403.
\<close>

theorem connect_once_spec:
  "connect_once negotiation att tries False 0 =
     (if wants_compatibility negotiation (tries 0)
      then (case dt_refresh (tries 0) of
              Some e \<Rightarrow> connect_failure ''version refresh'' att 405 e True False 1
            | None \<Rightarrow> dial_result negotiation att (tries 1) 1)
      else dial_result negotiation att (tries 0) 0)
   \<and> cr_dials (connect_once negotiation att tries False 0) \<le> 2"
proof -
  have "cr_dials (dial_result negotiation att (tries 0) 0) \<le> 2" "cr_dials (dial_result negotiation att (tries 1) 1) \<le> 2"
    using dial_result_dials [of negotiation att "tries 0" 0] dial_result_dials [of negotiation att "tries 1" 1] by simp_all
  then show ?thesis
    unfolding connect_once_cases by (auto simp: connect_failure_def split: option.splits)
qed

text \<open>
  C11: reconnection is bounded: \<open>connectWithRetry\<close> makes between one and \<open>MaxAttempts\<close> attempts, goes
  on after an attempt only for a retryable failure with the context alive, and returns the result
  of the last attempt, its error marked terminal unless the context is done; the status names the
  last attempt and the phase, or connected.
\<close>

theorem connect_with_retry_spec:
  assumes "valid_stream_options opts" and "\<not> finished st"
    and "connect_with_retry opts negotiation lc envs 1 None st = (res, st')"
  shows "\<exists>k. 1 \<le> k \<and> int k \<le> max_attempts opts
      \<and> (\<forall>j. 1 \<le> j \<longrightarrow> j < k \<longrightarrow> goes_on opts negotiation envs j)
      \<and> \<not> goes_on opts negotiation envs k \<and> res = attempt_result opts negotiation envs k
      \<and> attempt (current st') = k
      \<and> lifecycle (current st') = (if is_ok res then LifecycleConnected else lc)"
  using connect_with_retry_from [OF _ assms(2,3)] assms(1) by (simp add: valid_stream_options_def)

definition sample_try :: dial_try where
  "sample_try = \<lparr>dt_version = Inr ''1.2.3'', dt_dial = Some (503, ''unavailable''), dt_refresh = None, dt_enable = None\<rparr>"

definition sample_attempts :: "nat \<Rightarrow> attempt_env" where
  "sample_attempts k = \<lparr>ae_tries = (\<lambda>_. if k = 1 then sample_try else sample_try\<lparr>dt_dial := None\<rparr>),
     ae_ctx_done = False, ae_wait_cancelled = False, ae_now = 7\<rparr>"

theorem connect_with_retry_spec_witness:
  "\<exists>k. 1 \<le> k \<and> int k \<le> max_attempts default_stream_options
      \<and> \<not> goes_on default_stream_options True sample_attempts k
      \<and> lifecycle (current (snd (connect_with_retry default_stream_options True LifecycleConnecting sample_attempts 1 None
            (new_state 64 :: nat stream))))
          = (if is_ok (attempt_result default_stream_options True sample_attempts k) then LifecycleConnected
             else LifecycleConnecting)"
proof -
  obtain res st' where "connect_with_retry default_stream_options True LifecycleConnecting sample_attempts 1 None
      (new_state 64 :: nat stream) = (res, st')" by (meson surj_pair)
  moreover have "valid_stream_options default_stream_options"
    by (simp add: valid_stream_options_def default_stream_options_def)
  moreover have "\<not> finished (new_state 64 :: nat stream)" by (simp add: new_state_def)
  ultimately show ?thesis using connect_with_retry_spec by (metis snd_conv)
qed

text \<open>
  C12: a running stream never sends on its closed channels, delivers an initial part of the messages
  received, in order and without gaps across reconnections, and when it ends it is finished: cleanly
  if the context was done, else with an error marked terminal.
\<close>

theorem run_stream_spec:
  assumes "live st" and "valid_stream_options opts" and "list_all ctx_stays_done envs"
  shows "case run_stream opts negotiation dec envs st of
      Running \<Rightarrow> True
    | Panic \<Rightarrow> False
    | Done st' \<Rightarrow> final_ok st' \<and> done_closed st'
        \<and> (\<exists>ms. prefix ms (stream_messages dec envs) \<and> delivered st' = delivered st @ ms)
        \<and> (case final_err st' of
             None \<Rightarrow> \<exists>env \<in> set envs. ce_ctx_after_read env \<or> ce_ctx_after_retry env
           | Some e \<Rightarrow> \<exists>f. e = RunStream f \<and> sx_terminal f)"
  using run_stream_live [OF assms(1,2), of envs negotiation dec] assms(3)
  by (auto simp: list_all_iff split: outcome.splits)

definition sample_conns :: "conn_env list" where
  "sample_conns =
     [\<lparr>ce_events = [EvMessage True [104, 105] 1 False False, EvError 1006 ''gone''], ce_ctx_after_read = False,
       ce_attempts = sample_attempts, ce_ctx_after_retry = False\<rparr>,
      \<lparr>ce_events = [EvMessage True [111] 2 False False, EvError 1000 ''bye''], ce_ctx_after_read = True,
       ce_attempts = sample_attempts, ce_ctx_after_retry = False\<rparr>]"

theorem run_stream_spec_witness:
  "case run_stream default_stream_options True (\<lambda>b. Inl ''none'') sample_conns (new_state 64 :: nat stream) of
      Running \<Rightarrow> True | Panic \<Rightarrow> False | Done st' \<Rightarrow> final_ok st' \<and> done_closed st'"
proof -
  have "live (new_state 64 :: nat stream)" by (simp add: live_def new_state_def)
  moreover have "valid_stream_options default_stream_options"
    by (simp add: valid_stream_options_def default_stream_options_def)
  moreover have "list_all ctx_stays_done sample_conns"
    by (simp add: sample_conns_def ctx_stays_done_def ctx_quiet_def sample_attempts_def)
  ultimately show ?thesis
    using run_stream_spec [where st = "new_state 64 :: nat stream" and opts = default_stream_options
        and envs = sample_conns and negotiation = True and dec = "\<lambda>b. Inl ''none''"]
    by (auto split: outcome.splits)
qed

end
