(* ===== verification/Execution.thy ===== *)
theory Execution
  imports Request Json
begin

text \<open>
  \<open>request.go\<close> from \<open>DoPrepared\<close> on, \<open>response.go\<close> and \<open>errors.go\<close>: the attempts of one request with
  transport retries and the compatibility retry, the bounded read of responses, the streaming of
  a response to a writer, and the typed errors. The network is a sequence of tries.
\<close>

section \<open>Errors and responses\<close>

datatype ctx_error = Canceled | DeadlineExceeded

datatype request_cause =
    CauseContext ctx_error
  | CauseTransport string
  | CauseTooLarge

record api_error =
  ae_method :: string
  ae_path :: string
  ae_status :: int
  ae_request_id :: string
  ae_code :: string
  ae_message :: string
  ae_excerpt :: string
  ae_payload :: "(string \<rightharpoonup> json) option"

record request_error =
  re_method :: string
  re_path :: string
  re_request_id :: string
  re_attempts :: nat
  re_cause :: request_cause

record protocol_error =
  pe_method :: string
  pe_path :: string
  pe_request_id :: string
  pe_excerpt :: string
  pe_cause :: string

record version_error =
  vr_request_id :: string
  vr_message :: string

datatype exec_error =
    ErrRequest request_error
  | ErrAPI api_error
  | ErrProtocol protocol_error
  | ErrVersion version_error
  | ErrRefresh string \<comment> \<open>what \<open>RefreshAPISemVer\<close> returned\<close>

definition maxErrorExcerpt :: nat where "maxErrorExcerpt = 256"

definition excerpt :: "bytes \<Rightarrow> string" where
  "excerpt body =
     (let s = trim_space (body_string body)
      in if s = [] then []
         else let normalized = join_with '' '' (string_fields s)
              in if length normalized \<le> maxErrorExcerpt then normalized
                 else take maxErrorExcerpt normalized @ ''...'')"

record http_response =
  hr_status :: int
  hr_header :: header
  hr_body :: stream_reader
  hr_close :: "string option" \<comment> \<open>the error of closing the body\<close>

record api_response =
  rs_method :: string
  rs_path :: string
  rs_status :: int
  rs_header :: header
  rs_request_id :: string
  rs_body :: bytes

record execution =
  ex_method :: string
  ex_path :: string
  ex_url :: target_url
  ex_header :: header
  ex_mode :: string
  ex_request_id :: string
  ex_body :: prepared_body
  ex_max :: int

definition execution_copy :: "prepared_request \<Rightarrow> int \<Rightarrow> execution" where
  "execution_copy p maximum =
     \<lparr>ex_method = pr_method p, ex_path = pr_path p, ex_url = pr_url p, ex_header = pr_header p, ex_mode = pr_mode p,
      ex_request_id = pr_request_id p, ex_body = pr_body p, ex_max = maximum\<rparr>"

definition response_request_id :: "(string \<Rightarrow> string) \<Rightarrow> http_response \<Rightarrow> string \<Rightarrow> string" where
  "response_request_id lm resp fallback =
     (let i = header_value lm (hr_header resp) headerRequestID in if i \<noteq> [] then i else fallback)"

definition mk_request_error :: "execution \<Rightarrow> string \<Rightarrow> nat \<Rightarrow> request_cause \<Rightarrow> exec_error" where
  "mk_request_error ex i attempts cause =
     ErrRequest \<lparr>re_method = ex_method ex, re_path = ex_path ex, re_request_id = i, re_attempts = attempts, re_cause = cause\<rparr>"

text \<open>\<open>json.Unmarshal\<close> and \<open>fmt.Sprint\<close> are given by \<open>parse\<close> and \<open>sprint\<close>.\<close>

definition string_member :: "(string \<rightharpoonup> json) \<Rightarrow> string \<Rightarrow> string option" where
  "string_member m k = (case m k of Some (JStr s) \<Rightarrow> Some s | _ \<Rightarrow> None)"

definition new_api_error ::
  "(bytes \<Rightarrow> json option) \<Rightarrow> (json \<Rightarrow> string) \<Rightarrow> string \<Rightarrow> string \<Rightarrow> string \<Rightarrow> int \<Rightarrow> string \<Rightarrow> bytes \<Rightarrow> api_error"
where
  "new_api_error parse sprint method path request_id status header_id body =
     (let base = \<lparr>ae_method = method, ae_path = path, ae_status = status,
                  ae_request_id = (if header_id \<noteq> [] then header_id else request_id),
                  ae_code = [], ae_message = [], ae_excerpt = excerpt body, ae_payload = None\<rparr>
      in case Option.bind (parse body) raw_fields of
           None \<Rightarrow> base
         | Some m \<Rightarrow> base\<lparr>ae_payload := Some m,
             ae_message := (case string_member m ''error'' of Some s \<Rightarrow> s
               | None \<Rightarrow> (case string_member m ''message'' of Some s \<Rightarrow> s | None \<Rightarrow> [])),
             ae_code := (case m ''error_code'' of Some c \<Rightarrow> sprint c
               | None \<Rightarrow> (case m ''code'' of Some c \<Rightarrow> sprint c | None \<Rightarrow> []))\<rparr>)"

section \<open>Reading responses\<close>

definition read_response_body :: "int \<Rightarrow> stream_reader \<Rightarrow> string option \<Rightarrow> request_cause + bytes" where
  "read_response_body maximum r close =
     (case read_limited maximum r of
        Inl e \<Rightarrow> Inl (CauseTransport e)
      | Inr body \<Rightarrow>
          if maximum < int (length body) then Inl CauseTooLarge
          else case close of Some e \<Rightarrow> Inl (CauseTransport e) | None \<Rightarrow> Inr body)"

definition read_and_close :: "(string \<Rightarrow> string) \<Rightarrow> execution \<Rightarrow> http_response \<Rightarrow> nat \<Rightarrow> exec_error + bytes" where
  "read_and_close lm ex resp attempts =
     (case read_response_body (ex_max ex) (hr_body resp) (hr_close resp) of
        Inl c \<Rightarrow> Inl (mk_request_error ex (response_request_id lm resp (ex_request_id ex)) attempts c)
      | Inr body \<Rightarrow> Inr body)"

text \<open>A body read that is closed without error is a bounded read.\<close>

interpretation response_read: bounded_read "\<lambda>m r. read_response_body m r None"
proof
  fix m :: int and r :: stream_reader and d
  assume m: "0 \<le> m" and "read_response_body m r None = Inr d"
  then have d: "read_limited m r = Inr d" "int (length d) \<le> m"
    by (auto simp: read_response_body_def split: sum.splits if_splits)
  then show "d = rd_data r" "rd_err r = None" "int (length d) \<le> m"
    using read_limited_Inr [OF m d] by auto
qed

definition response_summary :: "(string \<Rightarrow> string) \<Rightarrow> http_response \<Rightarrow> execution \<Rightarrow> bytes \<Rightarrow> api_response" where
  "response_summary lm resp ex body =
     \<lparr>rs_method = ex_method ex, rs_path = ex_path ex, rs_status = hr_status resp, rs_header = hr_header resp,
      rs_request_id = response_request_id lm resp (ex_request_id ex), rs_body = body\<rparr>"

text \<open>What is left of a successful exchange: the response, or a failure with the bytes already written.\<close>

record exec_result =
  er_response :: "exec_error + api_response"
  er_written :: int

definition read_buffered ::
  "(string \<Rightarrow> string) \<Rightarrow> (bytes \<Rightarrow> bool) \<Rightarrow> http_response \<Rightarrow> execution \<Rightarrow> nat \<Rightarrow> exec_result"
where
  "read_buffered lm json_valid resp ex attempts =
     (case read_and_close lm ex resp attempts of
        Inl e \<Rightarrow> \<lparr>er_response = Inl e, er_written = 0\<rparr>
      | Inr body \<Rightarrow>
          if ex_mode ex = ResponseModeJSON \<and> \<not> json_valid body then
            \<lparr>er_response = Inl (ErrProtocol \<lparr>pe_method = ex_method ex, pe_path = ex_path ex,
                 pe_request_id = response_request_id lm resp (ex_request_id ex), pe_excerpt = excerpt body,
                 pe_cause = ''expected JSON response body''\<rparr>), er_written = 0\<rparr>
          else \<lparr>er_response = Inr (response_summary lm resp ex body), er_written = 0\<rparr>)"

text \<open>
  \<open>io.Copy\<close> to a writer that takes \<open>room\<close> bytes and then fails with an error (None: it takes all);
  the bytes written come with the outcome.
\<close>

definition copy_to :: "(nat \<times> string) option \<Rightarrow> stream_reader \<Rightarrow> bytes \<times> string option" where
  "copy_to room r =
     (case room of
        None \<Rightarrow> (rd_data r, rd_err r)
      | Some (n, e) \<Rightarrow> if n < length (rd_data r) then (take n (rd_data r), Some e) else (rd_data r, rd_err r))"

definition stream_response_to ::
  "(string \<Rightarrow> string) \<Rightarrow> (nat \<times> string) option \<Rightarrow> http_response \<Rightarrow> execution \<Rightarrow> nat \<Rightarrow> exec_result"
where
  "stream_response_to lm room resp ex attempts =
     (let i = response_request_id lm resp (ex_request_id ex);
          (out, copy_err) = copy_to room (hr_body resp);
          fail = (\<lambda>e. \<lparr>er_response = Inl (mk_request_error ex i attempts (CauseTransport e)), er_written = int (length out)\<rparr>)
      in case copy_err of Some e \<Rightarrow> fail e
         | None \<Rightarrow> (case hr_close resp of Some e \<Rightarrow> fail e
             | None \<Rightarrow> \<lparr>er_response = Inr (response_summary lm resp ex []), er_written = int (length out)\<rparr>))"

section \<open>Attempts\<close>

text \<open>
  One try of the network: what becomes of building and sending the request once its body is open
  (the header sent is an argument: the device sees it), the context error seen afterwards, the ones
  seen at the start of a back-off and while its timer runs, and the result of a version refresh.
\<close>

record net_try =
  nt_send :: "header \<Rightarrow> string + http_response"
  nt_ctx :: "ctx_error option"
  nt_before_sleep :: "ctx_error option"
  nt_timer :: "ctx_error option"
  nt_refresh :: "string + string"

record exec_env =
  xe_lower :: "string \<Rightarrow> string"
  xe_files :: "nat \<Rightarrow> string \<Rightarrow> string + stream_reader"
  xe_parse :: "bytes \<Rightarrow> json option"
  xe_sprint :: "json \<Rightarrow> string"
  xe_tries :: "nat \<Rightarrow> net_try"

definition is_safe_retry_method :: "string \<Rightarrow> bool" where
  "is_safe_retry_method m \<longleftrightarrow> m \<in> {''GET'', ''HEAD'', ''OPTIONS''}"

definition max_attempts :: "client \<Rightarrow> execution \<Rightarrow> int" where
  "max_attempts cl ex =
     (let n = rp_attempts (cl_retry cl); n = (if n \<le> 0 then 1 else n)
      in if \<not> pb_repeatable (ex_body ex) \<or> \<not> is_safe_retry_method (ex_method ex) then 1 else n)"

definition can_retry_compatibility :: "client \<Rightarrow> execution \<Rightarrow> int \<Rightarrow> bool \<Rightarrow> bool" where
  "can_retry_compatibility cl ex status already \<longleftrightarrow>
     cl_negotiation cl \<noteq> NegotiationDisabled \<and> ex_path ex \<noteq> ''/api/version'' \<and> status = 405 \<and> \<not> already"

text \<open>
  What went over the network: each request sent, in order, with the number of the try, its header
  and where its body came from; and the one-shot bodies consumed. \<open>sendOnce\<close> opens the body first
  and sends nothing when that fails.
\<close>

record sent_request =
  sq_try :: nat
  sq_header :: header
  sq_source :: body_source

record exec_state =
  es_used :: "nat set"
  es_sent :: "sent_request list"

definition send_once :: "exec_env \<Rightarrow> execution \<Rightarrow> nat \<Rightarrow> exec_state \<Rightarrow> (string + http_response) \<times> exec_state" where
  "send_once xe ex k st =
     (case open_source (xe_files xe) k (pb_source (ex_body ex)) (es_used st) of
        (Inl e, used) \<Rightarrow> (Inl e, st\<lparr>es_used := used\<rparr>)
      | (Inr ob, used) \<Rightarrow>
          (nt_send (xe_tries xe k) (ex_header ex),
           st\<lparr>es_used := used, es_sent := es_sent st @
             [\<lparr>sq_try = k, sq_header = ex_header ex, sq_source = pb_source (ex_body ex)\<rparr>]\<rparr>))"

text \<open>\<open>sleep\<close>: a context that is already done wins; without a duration there is nothing to wait for.\<close>

definition backoff_sleep :: "client \<Rightarrow> net_try \<Rightarrow> ctx_error option" where
  "backoff_sleep cl nt =
     (case nt_before_sleep nt of Some e \<Rightarrow> Some e
      | None \<Rightarrow> if rp_backoff (cl_retry cl) \<le> 0 then None else nt_timer nt)"

definition outcome :: "exec_error \<Rightarrow> exec_result" where
  "outcome e = \<lparr>er_response = Inl e, er_written = 0\<rparr>"

text \<open>
  What the loop does with the result of try \<open>k\<close>: return, \<open>continue\<close> after a transport failure, or
  \<open>continue\<close> with the refreshed version; \<open>retried\<close> is \<open>compatibilityRetried\<close>.
\<close>

datatype verdict = Return exec_result | Continue | ContinueWith string

definition judge ::
  "exec_env \<Rightarrow> client \<Rightarrow> (http_response \<Rightarrow> execution \<Rightarrow> nat \<Rightarrow> exec_result) \<Rightarrow> nat \<Rightarrow> bool \<Rightarrow> execution
    \<Rightarrow> string + http_response \<Rightarrow> verdict"
where
  "judge xe cl handle k retried ex sent =
     (let attempts = Suc k; nt = xe_tries xe k
      in case sent of
        Inl e \<Rightarrow>
          (case nt_ctx nt of
             Some c \<Rightarrow> Return (outcome (mk_request_error ex (ex_request_id ex) attempts (CauseContext c)))
           | None \<Rightarrow>
               if int attempts < max_attempts cl ex then
                 (case backoff_sleep cl nt of
                    Some c \<Rightarrow> Return (outcome (mk_request_error ex (ex_request_id ex) attempts (CauseContext c)))
                  | None \<Rightarrow> Continue)
               else Return (outcome (mk_request_error ex (ex_request_id ex) attempts (CauseTransport e))))
      | Inr resp \<Rightarrow>
          if can_retry_compatibility cl ex (hr_status resp) retried then
            (case read_and_close (xe_lower xe) ex resp attempts of
               Inl e \<Rightarrow> Return (outcome e)
             | Inr b \<Rightarrow>
                 if \<not> pb_repeatable (ex_body ex) then
                   Return (outcome (ErrVersion \<lparr>vr_request_id = response_request_id (xe_lower xe) resp (ex_request_id ex),
                       vr_message = ''cannot retry API version negotiation with a non-repeatable request body''\<rparr>))
                 else (case nt_refresh nt of
                    Inl e \<Rightarrow> Return (outcome (ErrRefresh e))
                  | Inr v \<Rightarrow> ContinueWith v))
          else if 400 \<le> hr_status resp then
            (case read_and_close (xe_lower xe) ex resp attempts of
               Inl e \<Rightarrow> Return (outcome e)
             | Inr body \<Rightarrow>
                 Return (outcome (ErrAPI (new_api_error (xe_parse xe) (xe_sprint xe) (ex_method ex) (ex_path ex)
                    (ex_request_id ex) (hr_status resp) (h_get (hr_header resp) headerRequestID) body))))
          else Return (handle resp ex attempts))"

definition with_version :: "string \<Rightarrow> execution \<Rightarrow> execution" where
  "with_version v ex = ex\<lparr>ex_header := h_set headerAPISemVer v (ex_header ex)\<rparr>"

lemma max_attempts_version [simp]: "max_attempts cl (with_version v ex) = max_attempts cl ex"
  by (simp add: max_attempts_def with_version_def)

lemma judge_continue:
  "judge xe cl handle k retried ex sent = Continue \<Longrightarrow> int (Suc k) < max_attempts cl ex \<and> \<not> is_ok sent"
  by (auto simp: judge_def Let_def split: sum.splits option.splits if_splits)

lemma judge_continue_with:
  "judge xe cl handle k retried ex sent = ContinueWith v \<Longrightarrow>
     \<not> retried \<and> pb_repeatable (ex_body ex) \<and> (\<exists>resp. sent = Inr resp \<and> hr_status resp = 405)"
  by (auto simp: judge_def Let_def can_retry_compatibility_def split: sum.splits option.splits if_splits)

function execute ::
  "exec_env \<Rightarrow> client \<Rightarrow> (http_response \<Rightarrow> execution \<Rightarrow> nat \<Rightarrow> exec_result) \<Rightarrow> nat \<Rightarrow> bool \<Rightarrow> execution
    \<Rightarrow> exec_state \<Rightarrow> exec_result \<times> exec_state"
where
  "execute xe cl handle k retried ex st =
     (let (sent, st) = send_once xe ex k st
      in case judge xe cl handle k retried ex sent of
           Return r \<Rightarrow> (r, st)
         | Continue \<Rightarrow> execute xe cl handle (Suc k) retried ex st
         | ContinueWith v \<Rightarrow> execute xe cl handle (Suc k) True (with_version v ex) st)"
  by pat_completeness auto
termination
  by (relation "measure (\<lambda>(xe, cl, handle, k, retried, ex, st).
        nat (max_attempts cl ex - int k) + (if retried then 0 else 1))")
    (auto dest: judge_continue judge_continue_with)

declare execute.simps [simp del]

section \<open>DoPrepared\<close>

datatype do_error = DoValidation validation_error | DoVersion string | DoExec exec_error

definition should_negotiate_version :: "client \<Rightarrow> execution \<Rightarrow> bool" where
  "should_negotiate_version cl ex \<longleftrightarrow> cl_negotiation cl \<noteq> NegotiationDisabled \<and> ex_path ex \<noteq> ''/api/version''"

text \<open>\<open>version\<close> is the result of \<open>APISemVer\<close>, asked for only when the client negotiates.\<close>

definition prepared_execution ::
  "client \<Rightarrow> bool \<Rightarrow> string + string \<Rightarrow> prepared_request option \<Rightarrow> do_error + execution"
where
  "prepared_execution cl ctx_nil version p =
     (if ctx_nil then Inl (DoValidation (mk_validation_error [] [] ''context must not be nil'' None))
      else case p of
        None \<Rightarrow> Inl (DoValidation (mk_validation_error [] [] ''prepared request must not be nil'' None))
      | Some pr \<Rightarrow>
          if tu_scheme (pr_url pr) = [] \<or> tu_host (pr_url pr) = [] then
            Inl (DoValidation (mk_validation_error (pr_method pr) (pr_path pr) ''prepared request is incomplete'' None))
          else case validate_response_mode (pr_mode pr) of
            Inl e \<Rightarrow> Inl (DoValidation (mk_validation_error (pr_method pr) (pr_path pr) [] (Some e)))
          | Inr mode \<Rightarrow>
              (let ex = execution_copy pr (cl_max_response cl)
               in if should_negotiate_version cl ex then
                    (case version of
                       Inl e \<Rightarrow> Inl (DoVersion e)
                     | Inr v \<Rightarrow> Inr (ex\<lparr>ex_header := h_set headerAPISemVer v (ex_header ex)\<rparr>))
                  else Inr ex))"

definition do_prepared ::
  "exec_env \<Rightarrow> (bytes \<Rightarrow> bool) \<Rightarrow> client \<Rightarrow> bool \<Rightarrow> string + string \<Rightarrow> prepared_request option \<Rightarrow> exec_state
    \<Rightarrow> (do_error + api_response) \<times> exec_state"
where
  "do_prepared xe json_valid cl ctx_nil version p st =
     (case prepared_execution cl ctx_nil version p of
        Inl e \<Rightarrow> (Inl e, st)
      | Inr ex \<Rightarrow>
          (let (r, st) = execute xe cl (read_buffered (xe_lower xe) json_valid) 0 False ex st
           in (map_sum DoExec id (er_response r), st)))"

definition do_prepared_to ::
  "exec_env \<Rightarrow> (nat \<times> string) option \<Rightarrow> client \<Rightarrow> bool \<Rightarrow> string + string \<Rightarrow> prepared_request option \<Rightarrow> exec_state
    \<Rightarrow> ((do_error + api_response) \<times> int) \<times> exec_state"
where
  "do_prepared_to xe room cl ctx_nil version p st =
     (case prepared_execution cl ctx_nil version p of
        Inl e \<Rightarrow> ((Inl e, 0), st)
      | Inr ex \<Rightarrow>
          (let (r, st) = execute xe cl (stream_response_to (xe_lower xe) room) 0 False ex st
           in ((map_sum DoExec id (er_response r), er_written r), st)))"

section \<open>The requests sent\<close>

lemma send_once_cases:
  assumes "send_once xe ex k st = (r, st')"
  obtains e where "r = Inl e" "es_sent st' = es_sent st"
    | "es_sent st' = es_sent st @ [\<lparr>sq_try = k, sq_header = ex_header ex, sq_source = pb_source (ex_body ex)\<rparr>]"
      "r = nt_send (xe_tries xe k) (ex_header ex)"
  using assms by (auto simp: send_once_def split: sum.splits prod.splits)

text \<open>Why a request may be sent again after try \<open>j\<close>.\<close>

definition answered_405 :: "exec_env \<Rightarrow> sent_request \<Rightarrow> bool" where
  "answered_405 xe q \<longleftrightarrow> (case nt_send (xe_tries xe (sq_try q)) (sq_header q) of Inl _ \<Rightarrow> False | Inr r \<Rightarrow> hr_status r = 405)"

definition same_but_version :: "header \<Rightarrow> header \<Rightarrow> bool" where
  "same_but_version h h' \<longleftrightarrow> (\<forall>k. k = ''X-Api-Sem-Ver'' \<or> h_values h k = h_values h' k)"

lemma same_but_version_set: "same_but_version (h_set headerAPISemVer v h) h' = same_but_version h h'"
  by (auto simp: same_but_version_def)

lemma max_attempts_pos: "1 \<le> max_attempts cl ex"
  by (simp add: max_attempts_def Let_def)

lemma max_attempts_more: "1 < max_attempts cl ex \<Longrightarrow> is_safe_retry_method (ex_method ex) \<and> pb_repeatable (ex_body ex)"
  by (auto simp: max_attempts_def Let_def split: if_splits)

text \<open>
  The requests one execution sends: increasing tries, at most the allowed attempts and one more, all
  with the same header but for the version, each after a reason to send again.
\<close>

definition sends_ok :: "exec_env \<Rightarrow> client \<Rightarrow> execution \<Rightarrow> nat \<Rightarrow> bool \<Rightarrow> sent_request list \<Rightarrow> bool" where
  "sends_ok xe cl ex k retried qs \<longleftrightarrow>
     sorted_wrt (<) (map sq_try qs)
   \<and> int (length qs) \<le> max 1 (max_attempts cl ex - int k) + (if retried then 0 else 1)
   \<and> (\<forall>q \<in> set qs. k \<le> sq_try q \<and> sq_source q = pb_source (ex_body ex) \<and> same_but_version (sq_header q) (ex_header ex)
        \<and> (sq_try q = k
           \<or> is_safe_retry_method (ex_method ex) \<and> pb_repeatable (ex_body ex)
           \<or> pb_repeatable (ex_body ex) \<and> (\<exists>q' \<in> set qs. Suc (sq_try q') = sq_try q \<and> answered_405 xe q')))"

lemma same_but_version_refl [simp]: "same_but_version h h"
  by (simp add: same_but_version_def)

lemma sends_ok_Nil [simp]: "sends_ok xe cl ex k retried []"
  by (simp add: sends_ok_def)

lemma sends_ok_one:
  "sends_ok xe cl ex k retried [\<lparr>sq_try = k, sq_header = ex_header ex, sq_source = pb_source (ex_body ex)\<rparr>]"
  by (simp add: sends_ok_def max_def)

lemma sends_ok_skip:
  assumes "sends_ok xe cl ex (Suc k) retried qs" and "is_safe_retry_method (ex_method ex)"
    "pb_repeatable (ex_body ex)" "int (Suc k) < max_attempts cl ex"
  shows "sends_ok xe cl ex k retried qs"
  using assms by (fastforce simp: sends_ok_def)

lemma sends_ok_cons:
  assumes "sends_ok xe cl ex (Suc k) retried qs" and "is_safe_retry_method (ex_method ex)"
    "pb_repeatable (ex_body ex)" "int (Suc k) < max_attempts cl ex"
  shows "sends_ok xe cl ex k retried (\<lparr>sq_try = k, sq_header = ex_header ex, sq_source = pb_source (ex_body ex)\<rparr> # qs)"
  using assms by (fastforce simp: sends_ok_def)

lemma with_version_simps [simp]:
  "ex_body (with_version v ex) = ex_body ex" "ex_method (with_version v ex) = ex_method ex"
  "same_but_version h (ex_header (with_version v ex)) = same_but_version h (ex_header ex)"
  by (auto simp: with_version_def same_but_version_def)

lemma sends_ok_cons_405:
  fixes ex k
  defines "q0 \<equiv> \<lparr>sq_try = k, sq_header = ex_header ex, sq_source = pb_source (ex_body ex)\<rparr>"
  assumes ok: "sends_ok xe cl (with_version v ex) (Suc k) True qs" and rep: "pb_repeatable (ex_body ex)"
    and ans: "answered_405 xe q0"
  shows "sends_ok xe cl ex k False (q0 # qs)"
proof -
  have "sq_try q0 = k" by (simp add: q0_def)
  then have "\<exists>q' \<in> set (q0 # qs). Suc (sq_try q') = sq_try q \<and> answered_405 xe q'" if "sq_try q = Suc k" for q
    using that ans by auto
  then show ?thesis using ok rep by (fastforce simp: sends_ok_def q0_def)
qed

lemma execute_sends:
  "\<exists>qs. es_sent (snd (execute xe cl handle k retried ex st)) = es_sent st @ qs \<and> sends_ok xe cl ex k retried qs"
proof (induction xe cl handle k retried ex st rule: execute.induct)
  case (1 xe cl handle k retried ex st)
  let ?q = "\<lparr>sq_try = k, sq_header = ex_header ex, sq_source = pb_source (ex_body ex)\<rparr>"
  obtain sent st1 where s: "send_once xe ex k st = (sent, st1)" by (meson surj_pair)
  have st1: "es_sent st1 = es_sent st @ [?q] \<and> sent = nt_send (xe_tries xe k) (ex_header ex)
      \<or> es_sent st1 = es_sent st \<and> \<not> is_ok sent"
    using s by (rule send_once_cases) auto
  show ?case
  proof (cases "judge xe cl handle k retried ex sent")
    case (Return r)
    then have "snd (execute xe cl handle k retried ex st) = st1" by (simp add: execute.simps [of xe] s)
    then show ?thesis using st1 sends_ok_one [of xe cl ex k retried] by (metis append_Nil2 sends_ok_Nil)
  next
    case Continue
    from judge_continue [OF this] have more: "int (Suc k) < max_attempts cl ex" by blast
    then have safe: "is_safe_retry_method (ex_method ex)" "pb_repeatable (ex_body ex)"
      using max_attempts_more [of cl ex] by auto
    obtain qs where qs: "es_sent (snd (execute xe cl handle (Suc k) retried ex st1)) = es_sent st1 @ qs"
      "sends_ok xe cl ex (Suc k) retried qs"
      using "1.IH"(1) [OF s [symmetric] refl Continue] by blast
    have e: "execute xe cl handle k retried ex st = execute xe cl handle (Suc k) retried ex st1"
      using Continue by (simp add: execute.simps [of xe cl handle k] s)
    show ?thesis
      using st1 qs(1) sends_ok_skip [OF qs(2) safe more] sends_ok_cons [OF qs(2) safe more] unfolding e
      by (metis append_Cons append_Nil append_assoc)
  next
    case (ContinueWith v)
    from judge_continue_with [OF this] obtain resp where
      c: "\<not> retried" "pb_repeatable (ex_body ex)" "sent = Inr resp" "hr_status resp = 405" by blast
    then have st1': "es_sent st1 = es_sent st @ [?q]" "answered_405 xe ?q"
      using st1 by (auto simp: answered_405_def split: sum.splits)
    obtain qs where qs: "es_sent (snd (execute xe cl handle (Suc k) True (with_version v ex) st1)) = es_sent st1 @ qs"
      "sends_ok xe cl (with_version v ex) (Suc k) True qs"
      using "1.IH"(2) [OF s [symmetric] refl ContinueWith] by blast
    have e: "execute xe cl handle k retried ex st = execute xe cl handle (Suc k) True (with_version v ex) st1"
      using ContinueWith by (simp add: execute.simps [of xe cl handle k] s)
    have "sends_ok xe cl ex k retried (?q # qs)"
      using sends_ok_cons_405 [OF qs(2) c(2) st1'(2)] c(1) by simp
    moreover have "es_sent (snd (execute xe cl handle k retried ex st)) = es_sent st @ ?q # qs"
      using qs(1) st1'(1) unfolding e by simp
    ultimately show ?thesis by blast
  qed
qed

text \<open>The result is the one of the last try.\<close>

definition same_execution :: "execution \<Rightarrow> execution \<Rightarrow> bool" where
  "same_execution ex ex' \<longleftrightarrow> ex' = ex\<lparr>ex_header := ex_header ex'\<rparr> \<and> same_but_version (ex_header ex') (ex_header ex)"

lemma same_execution_refl [simp]: "same_execution ex ex"
  by (simp add: same_execution_def)

lemma same_execution_version: "same_execution (with_version v ex) ex' \<Longrightarrow> same_execution ex ex'"
proof -
  have "(with_version v ex)\<lparr>ex_header := h\<rparr> = ex\<lparr>ex_header := h\<rparr>" for h by (simp add: with_version_def)
  then show "same_execution (with_version v ex) ex' \<Longrightarrow> same_execution ex ex'"
    by (simp only: same_execution_def with_version_simps)
qed

definition last_try ::
  "exec_env \<Rightarrow> client \<Rightarrow> (http_response \<Rightarrow> execution \<Rightarrow> nat \<Rightarrow> exec_result) \<Rightarrow> execution \<Rightarrow> int
    \<Rightarrow> exec_result \<times> exec_state \<Rightarrow> bool"
where
  "last_try xe cl handle ex bound res \<longleftrightarrow>
     (\<exists>j retried ex' st sent. send_once xe ex' j st = (sent, snd res)
        \<and> judge xe cl handle j retried ex' sent = Return (fst res)
        \<and> same_execution ex ex' \<and> int (Suc j) \<le> bound)"

lemma last_try_weaken:
  "last_try xe cl handle ex b res \<Longrightarrow> b \<le> b' \<Longrightarrow> last_try xe cl handle ex b' res"
  unfolding last_try_def by (meson order_trans)

lemma last_try_version:
  "last_try xe cl handle (with_version v ex) b res \<Longrightarrow> last_try xe cl handle ex b res"
  unfolding last_try_def using same_execution_version by blast

lemma execute_last:
  "last_try xe cl handle ex (max (int (Suc k)) (max_attempts cl ex) + (if retried then 0 else 1))
     (execute xe cl handle k retried ex st)"
proof (induction xe cl handle k retried ex st rule: execute.induct)
  case (1 xe cl handle k retried ex st)
  obtain sent st1 where s: "send_once xe ex k st = (sent, st1)" by (meson surj_pair)
  show ?case
  proof (cases "judge xe cl handle k retried ex sent")
    case (Return r)
    then have "execute xe cl handle k retried ex st = (r, st1)" by (simp add: execute.simps [of xe cl handle k] s)
    then have "last_try xe cl handle ex (int (Suc k)) (execute xe cl handle k retried ex st)"
      unfolding last_try_def
      by (intro exI [of _ k] exI [of _ retried] exI [of _ ex] exI [of _ st] exI [of _ sent]) (simp add: s Return)
    then show ?thesis by (rule last_try_weaken) (simp add: max_def)
  next
    case Continue
    then have e: "execute xe cl handle k retried ex st = execute xe cl handle (Suc k) retried ex st1"
      by (simp add: execute.simps [of xe cl handle k] s)
    show ?thesis unfolding e
      using "1.IH"(1) [OF s [symmetric] refl Continue] judge_continue [OF Continue]
      by (elim last_try_weaken) auto
  next
    case (ContinueWith v)
    then have e: "execute xe cl handle k retried ex st = execute xe cl handle (Suc k) True (with_version v ex) st1"
      by (simp add: execute.simps [of xe cl handle k] s)
    show ?thesis unfolding e
      using last_try_version [OF "1.IH"(2) [OF s [symmetric] refl ContinueWith]] judge_continue_with [OF ContinueWith]
      by (elim last_try_weaken) auto
  qed
qed

lemma length_excerpt: "length (excerpt b) \<le> 259"
  by (simp add: excerpt_def Let_def maxErrorExcerpt_def)

section \<open>Properties\<close>

lemma sends_ok_once:
  assumes "sends_ok xe cl ex 0 False qs" and "\<not> pb_repeatable (ex_body ex)"
  shows "length qs \<le> 1"
proof -
  have "\<forall>q \<in> set qs. sq_try q = 0" using assms by (auto simp: sends_ok_def)
  moreover have "sorted_wrt (<) (map sq_try qs)" using assms(1) by (simp add: sends_ok_def)
  ultimately show ?thesis by (cases qs; cases "tl qs") auto
qed

lemma max_attempts_one: "\<not> is_safe_retry_method (ex_method ex) \<Longrightarrow> max_attempts cl ex = 1"
  by (simp add: max_attempts_def Let_def)

lemma max_attempts_le: "max_attempts cl ex \<le> max 1 (rp_attempts (cl_retry cl))"
  by (simp add: max_attempts_def Let_def max_def)

text \<open>
  C13: one execution of a prepared request sends a body that cannot be repeated at most once, a request
  with any method but GET, HEAD and OPTIONS at most twice, any other at most \<open>MaxAttempts + 1\<close> times; a
  request of the former methods is sent again only directly after the device answered 405 and so
  refused it; and all requests sent differ in the \<open>X-API-Sem-Ver\<close> header only.
\<close>

theorem request_resend_spec:
  "\<exists>qs. es_sent (snd (execute xe cl handle 0 False ex st)) = es_sent st @ qs
   \<and> int (length qs) \<le> (if \<not> pb_repeatable (ex_body ex) then 1
        else if \<not> is_safe_retry_method (ex_method ex) then 2 else max 1 (rp_attempts (cl_retry cl)) + 1)
   \<and> sorted_wrt (<) (map sq_try qs)
   \<and> list_all (\<lambda>q. sq_source q = pb_source (ex_body ex) \<and> same_but_version (sq_header q) (ex_header ex)
        \<and> (sq_try q = 0 \<or> is_safe_retry_method (ex_method ex)
           \<or> (\<exists>q' \<in> set qs. Suc (sq_try q') = sq_try q \<and> answered_405 xe q'))) qs"
proof -
  obtain qs where qs: "es_sent (snd (execute xe cl handle 0 False ex st)) = es_sent st @ qs" "sends_ok xe cl ex 0 False qs"
    using execute_sends by blast
  have len: "int (length qs) \<le> max_attempts cl ex + 1"
    using qs(2) max_attempts_pos [of cl ex] by (simp add: sends_ok_def)
  have "int (length qs) \<le> (if \<not> pb_repeatable (ex_body ex) then 1
        else if \<not> is_safe_retry_method (ex_method ex) then 2 else max 1 (rp_attempts (cl_retry cl)) + 1)"
    using len sends_ok_once [OF qs(2)] max_attempts_one [of ex cl] max_attempts_le [of cl ex] by auto
  then show ?thesis using qs by (intro exI [of _ qs]) (auto simp: sends_ok_def list_all_iff)
qed

lemma read_and_close_ok:
  assumes "read_and_close lm ex resp n = Inr body" and "0 \<le> ex_max ex"
  shows "body = rd_data (hr_body resp) \<and> rd_err (hr_body resp) = None \<and> hr_close resp = None
    \<and> int (length body) \<le> ex_max ex"
proof -
  have "read_response_body (ex_max ex) (hr_body resp) (hr_close resp) = Inr body"
    using assms(1) by (simp add: read_and_close_def split: sum.splits)
  then have "read_response_body (ex_max ex) (hr_body resp) None = Inr body" "hr_close resp = None"
    "int (length body) \<le> ex_max ex"
    by (auto simp: read_response_body_def split: sum.splits if_splits option.splits)
  then show ?thesis
    using response_read.fetch_data [OF assms(2)] response_read.fetch_complete [OF assms(2)] by blast
qed

lemma read_and_close_error:
  "read_and_close lm ex resp n = Inl e \<Longrightarrow>
     \<exists>c. e = mk_request_error ex (response_request_id lm resp (ex_request_id ex)) n c"
  by (auto simp: read_and_close_def split: sum.splits)

text \<open>What a result of the buffered execution says about the exchange behind it.\<close>

definition explains :: "exec_env \<Rightarrow> (bytes \<Rightarrow> bool) \<Rightarrow> client \<Rightarrow> execution \<Rightarrow> string + http_response \<Rightarrow> exec_error + api_response \<Rightarrow> bool" where
  "explains xe json_valid cl ex sent r \<longleftrightarrow>
     (case r of
        Inr rs \<Rightarrow> (case sent of Inl _ \<Rightarrow> False
          | Inr resp \<Rightarrow> rs_status rs = hr_status resp \<and> hr_status resp < 400
              \<and> rs_body rs = rd_data (hr_body resp) \<and> rd_err (hr_body resp) = None \<and> hr_close resp = None
              \<and> int (length (rs_body rs)) \<le> cl_max_response cl
              \<and> rs_method rs = ex_method ex \<and> rs_path rs = ex_path ex
              \<and> (ex_mode ex = ResponseModeJSON \<longrightarrow> json_valid (rs_body rs)))
      | Inl (ErrAPI e) \<Rightarrow> (case sent of Inl _ \<Rightarrow> False
          | Inr resp \<Rightarrow> ae_status e = hr_status resp \<and> 400 \<le> hr_status resp \<and> ae_path e = ex_path ex
              \<and> length (ae_excerpt e) \<le> 259)
      | Inl (ErrProtocol e) \<Rightarrow> (case sent of Inl _ \<Rightarrow> False
          | Inr resp \<Rightarrow> hr_status resp < 400 \<and> ex_mode ex = ResponseModeJSON \<and> \<not> json_valid (rd_data (hr_body resp)))
      | Inl (ErrVersion e) \<Rightarrow> \<not> pb_repeatable (ex_body ex) \<and> (case sent of Inl _ \<Rightarrow> False | Inr resp \<Rightarrow> hr_status resp = 405)
      | Inl (ErrRefresh e) \<Rightarrow> (case sent of Inl _ \<Rightarrow> False | Inr resp \<Rightarrow> hr_status resp = 405)
      | Inl (ErrRequest e) \<Rightarrow> 1 \<le> re_attempts e
              \<and> int (re_attempts e) \<le> max 1 (rp_attempts (cl_retry cl)) + 1
              \<and> (case re_cause e of CauseTransport t \<Rightarrow> sent = Inl t \<or> is_ok sent | CauseTooLarge \<Rightarrow> is_ok sent | CauseContext c \<Rightarrow> \<not> is_ok sent))"

lemma read_buffered_explains:
  assumes ex: "ex_max ex = cl_max_response cl" "0 \<le> ex_max ex" and low: "hr_status resp < 400"
    and n: "1 \<le> n" "int n \<le> max 1 (rp_attempts (cl_retry cl)) + 1"
  shows "explains xe jv cl ex (Inr resp) (er_response (read_buffered lm jv resp ex n))"
proof (cases "read_and_close lm ex resp n")
  case (Inl e)
  with read_and_close_error obtain c where
    "e = mk_request_error ex (response_request_id lm resp (ex_request_id ex)) n c" by blast
  moreover have "\<forall>x. c \<noteq> CauseContext x"
    using Inl calculation by (auto simp: read_and_close_def read_response_body_def mk_request_error_def
        split: sum.splits if_splits option.splits)
  ultimately show ?thesis
    using Inl n by (auto simp: read_buffered_def explains_def mk_request_error_def split: request_cause.splits)
next
  case (Inr body)
  then show ?thesis
    using read_and_close_ok [OF Inr ex(2)] ex low
    by (auto simp: read_buffered_def explains_def response_summary_def)
qed

lemma api_error_fields [simp]:
  "ae_status (new_api_error ps sp m p i s h b) = s" "ae_path (new_api_error ps sp m p i s h b) = p"
  "ae_excerpt (new_api_error ps sp m p i s h b) = excerpt b"
  by (simp_all add: new_api_error_def Let_def split: option.split)

lemma judge_explains:
  assumes "judge xe cl (read_buffered (xe_lower xe) jv) j retried ex sent = Return r"
    and ex: "ex_max ex = cl_max_response cl" "0 \<le> ex_max ex"
    and n: "int (Suc j) \<le> max 1 (rp_attempts (cl_retry cl)) + 1"
  shows "explains xe jv cl ex sent (er_response r)"
proof (cases sent)
  case (Inl e)
  then show ?thesis
    using assms(1) n by (auto simp: judge_def Let_def explains_def outcome_def mk_request_error_def
        split: if_splits option.splits)
next
  case (Inr resp)
  have causes: "read_and_close (xe_lower xe) ex resp (Suc j) = Inl e \<Longrightarrow>
      explains xe jv cl ex (Inr resp) (Inl e)" for e
    using n by (auto simp: read_and_close_def read_response_body_def mk_request_error_def explains_def
        split: sum.splits if_splits option.splits)
  show ?thesis
    using assms(1) causes read_buffered_explains [OF ex, of resp "Suc j" xe jv "xe_lower xe"] n length_excerpt
    by (auto simp: judge_def Let_def Inr outcome_def can_retry_compatibility_def
        explains_def [of _ _ _ _ _ "Inl (ErrVersion _)"] explains_def [of _ _ _ _ _ "Inl (ErrRefresh _)"]
        explains_def [of _ _ _ _ _ "Inl (ErrAPI _)"] split: if_splits option.splits sum.splits)
qed

lemma prepared_execution_max:
  "prepared_execution cl nil ver p = Inr ex \<Longrightarrow> ex_max ex = cl_max_response cl"
  by (auto simp: prepared_execution_def execution_copy_def Let_def split: if_splits option.splits sum.splits)

lemma do_prepared_explained:
  assumes "client_ok cl"
  shows "case prepared_execution cl ctx_nil version p of
      Inl e \<Rightarrow> do_prepared xe jv cl ctx_nil version p st = (Inl e, st)
    | Inr ex \<Rightarrow> \<exists>j ex' st1 sent r. send_once xe ex' j st1 = (sent, snd (do_prepared xe jv cl ctx_nil version p st))
        \<and> same_execution ex ex' \<and> fst (do_prepared xe jv cl ctx_nil version p st) = map_sum DoExec id r
        \<and> explains xe jv cl ex' sent r"
proof (cases "prepared_execution cl ctx_nil version p")
  case (Inr ex)
  let ?res = "execute xe cl (read_buffered (xe_lower xe) jv) 0 False ex st"
  have d: "do_prepared xe jv cl ctx_nil version p st = (map_sum DoExec id (er_response (fst ?res)), snd ?res)"
    by (simp add: do_prepared_def Inr Let_def split: prod.split)
  have "last_try xe cl (read_buffered (xe_lower xe) jv) ex (max 1 (max_attempts cl ex) + 1) ?res"
    using execute_last [of xe cl _ ex 0 False] by simp
  then obtain j retried ex' st1 sent where l: "send_once xe ex' j st1 = (sent, snd ?res)"
    "judge xe cl (read_buffered (xe_lower xe) jv) j retried ex' sent = Return (fst ?res)"
    "same_execution ex ex'" "int (Suc j) \<le> max 1 (max_attempts cl ex) + 1"
    unfolding last_try_def by blast
  have m: "ex_max ex' = cl_max_response cl"
    using l(3) prepared_execution_max [OF Inr] by (metis execution.select_convs(8) execution.surjective execution.update_convs(4) same_execution_def)
  then have "0 \<le> ex_max ex'" using assms by (simp add: client_ok_def)
  moreover have "int (Suc j) \<le> max 1 (rp_attempts (cl_retry cl)) + 1"
    using l(4) max_attempts_le [of cl ex] max_attempts_pos [of cl ex] by simp
  ultimately have "explains xe jv cl ex' sent (er_response (fst ?res))" using judge_explains [OF l(2) m] by blast
  then show ?thesis using l(1,3) unfolding Inr d sum.case fst_conv snd_conv by blast
qed (simp add: do_prepared_def)

text \<open>
  C16: \<open>DoPrepared\<close> either refuses the request without sending anything, or its result is explained by
  the last try: a response is the complete body of a reply below 400 that was closed cleanly, within
  the size limit of the client and valid JSON when JSON was asked for; an \<open>APIError\<close> comes from a
  status of 400 or above and has a bounded excerpt; a \<open>RequestError\<close> counts at least one and at most
  \<open>MaxAttempts + 1\<close> attempts; the version errors come from a 405.
\<close>

theorem do_prepared_outcome:
  assumes "client_ok cl"
  shows "case prepared_execution cl ctx_nil version p of
      Inl e \<Rightarrow> do_prepared xe jv cl ctx_nil version p st = (Inl e, st)
    | Inr ex \<Rightarrow> \<exists>j ex' st1 sent r. send_once xe ex' j st1 = (sent, snd (do_prepared xe jv cl ctx_nil version p st))
        \<and> same_execution ex ex' \<and> fst (do_prepared xe jv cl ctx_nil version p st) = map_sum DoExec id r
        \<and> explains xe jv cl ex' sent r"
  using assms by (rule do_prepared_explained)

definition sample_client :: client where
  "sample_client =
     \<lparr>cl_base = \<lparr>bu_scheme = ''http'', bu_host = ''10.0.4.20''\<rparr>, cl_http = 0, cl_timeout = 0, cl_mode = EndpointLocal,
      cl_token = [], cl_session = [], cl_generator = 0, cl_retry = \<lparr>rp_attempts = 3, rp_backoff = 0\<rparr>,
      cl_negotiation = NegotiationDisabled, cl_max_response = 10\<rparr>"

definition sample_prepared :: prepared_request where
  "sample_prepared =
     \<lparr>pr_method = ''GET'', pr_path = ''/api/name'',
      pr_url = \<lparr>tu_scheme = ''http'', tu_host = ''10.0.4.20'', tu_path = ''/api/name'', tu_query = []\<rparr>,
      pr_header = [], pr_mode = ''bytes'', pr_request_id = ''r'', pr_body = empty_prepared_body\<rparr>"

text \<open>The first try fails in transport, the second is answered.\<close>

definition sample_env :: exec_env where
  "sample_env =
     \<lparr>xe_lower = id, xe_files = (\<lambda>t p. Inl ''no file''), xe_parse = (\<lambda>b. None), xe_sprint = (\<lambda>j. []),
      xe_tries = (\<lambda>k. \<lparr>nt_send = (\<lambda>h. if k = 0 then Inl ''reset''
            else Inr \<lparr>hr_status = 200, hr_header = [], hr_body = \<lparr>rd_data = [1, 2], rd_err = None\<rparr>, hr_close = None\<rparr>),
         nt_ctx = None, nt_before_sleep = None, nt_timer = None, nt_refresh = Inl ''unused''\<rparr>)\<rparr>"

theorem do_prepared_outcome_witness:
  "\<exists>ex' resp. ex_path ex' = ''/api/name'' \<and> hr_status resp = 200 \<and> rd_data (hr_body resp) = [1, 2]
     \<and> explains sample_env (\<lambda>b. False) sample_client ex' (Inr resp)
         (Inr \<lparr>rs_method = ''GET'', rs_path = ''/api/name'', rs_status = 200, rs_header = [], rs_request_id = ''r'', rs_body = [1, 2]\<rparr>)"
proof -
  let ?st = "\<lparr>es_used = {}, es_sent = []\<rparr>"
  let ?rs = "\<lparr>rs_method = ''GET'', rs_path = ''/api/name'', rs_status = 200, rs_header = [], rs_request_id = ''r'', rs_body = [1, 2]\<rparr>"
  have ok: "client_ok sample_client" by (simp add: client_ok_def sample_client_def)
  have p: "prepared_execution sample_client False (Inl []) (Some sample_prepared) = Inr (execution_copy sample_prepared 10)"
    by (simp add: prepared_execution_def sample_prepared_def sample_client_def execution_copy_def Let_def
        should_negotiate_version_def validate_response_mode_def normalize_response_mode_def
        ResponseModeJSON_def ResponseModeBytes_def ResponseModeText_def)
  have "case fst (do_prepared sample_env (\<lambda>b. False) sample_client False (Inl []) (Some sample_prepared) ?st) of
      Inl e \<Rightarrow> False | Inr rs \<Rightarrow> rs = ?rs" by code_simp
  then have d: "fst (do_prepared sample_env (\<lambda>b. False) sample_client False (Inl []) (Some sample_prepared) ?st) = Inr ?rs"
    by (simp split: sum.splits)
  from do_prepared_outcome [OF ok, where ctx_nil = False and version = "Inl []" and p = "Some sample_prepared"
    and xe = sample_env and jv = "\<lambda>b. False" and st = ?st]
  obtain j ex' st1 sent r where x: "same_execution (execution_copy sample_prepared 10) ex'" "Inr ?rs = map_sum DoExec id r"
    "send_once sample_env ex' j st1 = (sent, snd (do_prepared sample_env (\<lambda>b. False) sample_client False (Inl []) (Some sample_prepared) ?st))"
    "explains sample_env (\<lambda>b. False) sample_client ex' sent r"
    unfolding p sum.case d by blast
  from x(2) have r: "r = Inr ?rs" by (cases r) auto
  from x(4) obtain resp where resp: "sent = Inr resp" unfolding r explains_def by (cases sent) auto
  have "ex_path ex' = ''/api/name'' \<and> hr_status resp = 200 \<and> rd_data (hr_body resp) = [1, 2]"
    using x(4) unfolding r resp explains_def by simp
  then show ?thesis using x(4) unfolding r resp by blast
qed

section \<open>One-shot bodies\<close>

fun once_id :: "body_source \<Rightarrow> nat option" where
  "once_id (OnceSource i rd) = Some i"
| "once_id (ProgressSource s n) = once_id s"
| "once_id s = None"

definition opens :: "nat \<Rightarrow> exec_state \<Rightarrow> nat" where
  "opens i st = length (filter (\<lambda>q. once_id (sq_source q) = Some i) (es_sent st))"

definition once_inv :: "exec_state \<Rightarrow> bool" where
  "once_inv st \<longleftrightarrow> (\<forall>i. opens i st \<le> 1 \<and> (i \<notin> es_used st \<longrightarrow> opens i st = 0))"

lemma open_source_once:
  assumes "open_source files t s used = (Inr ob, used')"
  shows "case once_id s of None \<Rightarrow> used' = used | Some i \<Rightarrow> i \<notin> used \<and> used' = insert i used"
  using assms
  by (induction files t s used arbitrary: ob used' rule: open_source.induct)
    (auto split: if_splits sum.splits option.splits prod.splits)

lemma open_source_used: "used \<subseteq> snd (open_source files t s used)"
  by (induction files t s used rule: open_source.induct) (auto split: sum.splits option.splits prod.splits)

lemma send_once_inv [keeps]:
  assumes "once_inv st"
  shows "once_inv (snd (send_once xe ex k st))"
proof (cases "open_source (xe_files xe) k (pb_source (ex_body ex)) (es_used st)")
  case (Pair r used)
  have sub: "es_used st \<subseteq> used" using open_source_used [of "es_used st" "xe_files xe" k "pb_source (ex_body ex)"] Pair by simp
  show ?thesis
  proof (cases r)
    case (Inl e)
    have "opens i (st\<lparr>es_used := used\<rparr>) = opens i st" for i by (simp add: opens_def)
    then show ?thesis using assms sub by (auto simp: send_once_def Pair Inl once_inv_def)
  next
    case (Inr ob)
    have o: "case once_id (pb_source (ex_body ex)) of None \<Rightarrow> used = es_used st
        | Some i \<Rightarrow> i \<notin> es_used st \<and> used = insert i (es_used st)"
      using open_source_once Pair Inr by blast
    show ?thesis
      using assms o by (auto simp: send_once_def Pair Inr once_inv_def opens_def split: option.splits if_splits)
  qed
qed

text \<open>
  however the openings of bodies by concurrent and repeated executions interleave, of all requests
  prepared from one \<open>ReaderBody\<close> at most one is ever sent with its reader, wrapped in progress bodies or not.
\<close>

theorem one_shot_sent_once:
  "opens i (fold (\<lambda>(xe, ex, k) st. snd (send_once xe ex k st)) steps \<lparr>es_used = {}, es_sent = []\<rparr>) \<le> 1"
proof -
  have "once_inv st \<Longrightarrow> once_inv (fold (\<lambda>(xe, ex, k) st. snd (send_once xe ex k st)) steps st)" for st
    by (induction steps arbitrary: st) (auto intro: keeps)
  moreover have "once_inv \<lparr>es_used = {}, es_sent = []\<rparr>" by (simp add: once_inv_def opens_def)
  ultimately show ?thesis by (simp add: once_inv_def)
qed

section \<open>Streaming\<close>

text \<open>
  \<open>streamResponseTo\<close> writes an initial part of the response body and reports its length; it
  succeeds exactly when the whole body was read and written and closed without error, and then
  nothing is left out; a failure is a \<open>RequestError\<close> with the attempts made.
\<close>

theorem stream_response_spec:
  "\<exists>rest. rd_data (hr_body resp) = fst (copy_to room (hr_body resp)) @ rest
    \<and> er_written (stream_response_to lm room resp ex n) = int (length (fst (copy_to room (hr_body resp))))
    \<and> (case er_response (stream_response_to lm room resp ex n) of
         Inr rs \<Rightarrow> rest = [] \<and> rd_err (hr_body resp) = None \<and> hr_close resp = None \<and> rs_body rs = [] \<and> rs_status rs = hr_status resp
       | Inl e \<Rightarrow> \<not> (rest = [] \<and> rd_err (hr_body resp) = None \<and> hr_close resp = None)
           \<and> (\<exists>t. e = mk_request_error ex (response_request_id lm resp (ex_request_id ex)) n (CauseTransport t)))"
proof -
  obtain out err where c: "copy_to room (hr_body resp) = (out, err)" by fastforce
  have out: "rd_data (hr_body resp) = out @ drop (length out) (rd_data (hr_body resp))"
    "err = None \<longleftrightarrow> drop (length out) (rd_data (hr_body resp)) = [] \<and> rd_err (hr_body resp) = None"
    using c by (auto simp: copy_to_def split: option.splits if_splits prod.splits)
  show ?thesis
    using out by (intro exI [of _ "drop (length out) (rd_data (hr_body resp))"])
      (auto simp: stream_response_to_def c Let_def response_summary_def split: option.splits)
qed

end
