(* ===== verification/VersionCache.thy ===== *)
theory VersionCache
  imports Execution
begin

text \<open>
  \<open>version.go\<close>: the cached API version and the shared first request. Every critical section of
  \<open>versionMu\<close> is one step; callers, background fetches and \<open>RefreshAPISemVer\<close> interleave freely.
\<close>

section \<open>Fetching the version\<close>

text \<open>
  \<open>fetchAPISemVer\<close> over the result of \<open>Do\<close>; \<open>decode\<close> is \<open>json.Unmarshal\<close> into \<open>versionInfo\<close>.
\<close>

definition fetch_api_semver :: "(bytes \<Rightarrow> string + string) \<Rightarrow> string + api_response \<Rightarrow> version_error + string" where
  "fetch_api_semver decode done =
     (case done of
        Inl e \<Rightarrow> Inl \<lparr>vr_request_id = [], vr_message = ''API version negotiation failed: '' @ e\<rparr>
      | Inr rs \<Rightarrow>
          (case decode (rs_body rs) of
             Inl e \<Rightarrow> Inl \<lparr>vr_request_id = rs_request_id rs, vr_message = ''API version negotiation failed: '' @ e\<rparr>
           | Inr v \<Rightarrow>
               if v = [] then Inl \<lparr>vr_request_id = rs_request_id rs,
                   vr_message = ''device API version response did not include api_semver''\<rparr>
               else Inr v))"

lemma fetch_api_semver_nonempty: "fetch_api_semver decode d = Inr v \<Longrightarrow> v \<noteq> []"
  by (auto simp: fetch_api_semver_def split: sum.splits if_splits)

section \<open>The shared request\<close>

record refresh =
  rf_waiters :: int
  rf_cancelled :: bool
  rf_result :: "(version_error + string) option" \<comment> \<open>Some once \<open>done\<close> is closed\<close>

text \<open>
  Refreshes are numbered by creation. \<open>vs_waiting r\<close> is the number of callers inside
  \<open>waitForVersionRefresh\<close> with refresh \<open>r\<close>; \<open>vs_returned\<close> what callers got (None: their context ended);
  \<open>vs_fetched\<close> the versions devices reported.
\<close>

record version_state =
  vs_cache :: string
  vs_in_flight :: "nat option"
  vs_refreshes :: "refresh list"
  vs_waiting :: "nat \<Rightarrow> nat"
  vs_returned :: "(version_error + string) option list"
  vs_fetched :: "string list"

definition version_init :: version_state where
  "version_init = \<lparr>vs_cache = [], vs_in_flight = None, vs_refreshes = [], vs_waiting = (\<lambda>r. 0), vs_returned = [], vs_fetched = []\<rparr>"

definition upd_refresh :: "nat \<Rightarrow> (refresh \<Rightarrow> refresh) \<Rightarrow> version_state \<Rightarrow> version_state" where
  "upd_refresh r f s = s\<lparr>vs_refreshes := (vs_refreshes s)[r := f (vs_refreshes s ! r)]\<rparr>"

text \<open>\<open>APISemVer\<close> up to the wait.\<close>

definition ask_version :: "version_state \<Rightarrow> version_state" where
  "ask_version s =
     (if vs_cache s \<noteq> [] then s\<lparr>vs_returned := vs_returned s @ [Some (Inr (vs_cache s))]\<rparr>
      else case vs_in_flight s of
        Some r \<Rightarrow> (upd_refresh r (\<lambda>f. f\<lparr>rf_waiters := rf_waiters f + 1\<rparr>) s)\<lparr>vs_waiting := (vs_waiting s)(r := Suc (vs_waiting s r))\<rparr>
      | None \<Rightarrow> s\<lparr>vs_refreshes := vs_refreshes s @ [\<lparr>rf_waiters = 1, rf_cancelled = False, rf_result = None\<rparr>],
                  vs_in_flight := Some (length (vs_refreshes s)),
                  vs_waiting := (vs_waiting s)(length (vs_refreshes s) := Suc (vs_waiting s (length (vs_refreshes s))))\<rparr>)"

text \<open>\<open>runVersionRefresh\<close> after its fetch gave \<open>res\<close>.\<close>

definition run_version_refresh :: "nat \<Rightarrow> version_error + string \<Rightarrow> version_state \<Rightarrow> version_state" where
  "run_version_refresh r res s =
     (let s = (case res of Inl _ \<Rightarrow> s | Inr v \<Rightarrow> s\<lparr>vs_fetched := vs_fetched s @ [v]\<rparr>);
          s = (if vs_in_flight s = Some r
               then s\<lparr>vs_cache := (case res of Inl _ \<Rightarrow> vs_cache s | Inr v \<Rightarrow> v), vs_in_flight := None\<rparr> else s)
      in upd_refresh r (\<lambda>f. f\<lparr>rf_result := Some res\<rparr>) s)"

definition release_version_waiter :: "nat \<Rightarrow> version_state \<Rightarrow> version_state" where
  "release_version_waiter r s =
     (if vs_in_flight s \<noteq> Some r then s
      else let s = upd_refresh r (\<lambda>f. f\<lparr>rf_waiters := rf_waiters f - 1\<rparr>) s
           in if rf_waiters (vs_refreshes s ! r) = 0
              then upd_refresh r (\<lambda>f. f\<lparr>rf_cancelled := True\<rparr>) (s\<lparr>vs_in_flight := None\<rparr>)
              else s)"

text \<open>The two ways out of \<open>waitForVersionRefresh\<close>.\<close>

definition return_result :: "nat \<Rightarrow> version_state \<Rightarrow> version_state" where
  "return_result r s = s\<lparr>vs_waiting := (vs_waiting s)(r := vs_waiting s r - 1), vs_returned := vs_returned s @ [rf_result (vs_refreshes s ! r)]\<rparr>"

definition give_up :: "nat \<Rightarrow> version_state \<Rightarrow> version_state" where
  "give_up r s = (release_version_waiter r s)\<lparr>vs_waiting := (vs_waiting s)(r := vs_waiting s r - 1), vs_returned := vs_returned s @ [None]\<rparr>"

text \<open>\<open>RefreshAPISemVer\<close>, whose fetch gave \<open>v\<close>.\<close>

definition refresh_api_semver :: "string \<Rightarrow> version_state \<Rightarrow> version_state" where
  "refresh_api_semver v s = s\<lparr>vs_cache := v, vs_fetched := vs_fetched s @ [v]\<rparr>"

inductive version_step :: "version_state \<Rightarrow> version_state \<Rightarrow> bool" where
  ask: "version_step s (ask_version s)"
| fetched: "r < length (vs_refreshes s) \<Longrightarrow> rf_result (vs_refreshes s ! r) = None \<Longrightarrow>
    res = fetch_api_semver decode d \<Longrightarrow> version_step s (run_version_refresh r res s)"
| result: "0 < vs_waiting s r \<Longrightarrow> rf_result (vs_refreshes s ! r) \<noteq> None \<Longrightarrow> version_step s (return_result r s)"
| ended: "0 < vs_waiting s r \<Longrightarrow> version_step s (give_up r s)"
| refreshed: "fetch_api_semver decode d = Inr v \<Longrightarrow> version_step s (refresh_api_semver v s)"

inductive_cases version_stepE: "version_step s s'"
inductive_simps version_step_iff: "version_step s s'"

inductive version_reach :: "version_state \<Rightarrow> bool" where
  init: "version_reach version_init"
| step: "version_reach s \<Longrightarrow> version_step s s' \<Longrightarrow> version_reach s'"

section \<open>Invariant\<close>

text \<open>What holds of every refresh \<open>r\<close>.\<close>

definition refresh_ok :: "version_state \<Rightarrow> nat \<Rightarrow> bool" where
  "refresh_ok s r \<longleftrightarrow>
     (vs_in_flight s = Some r \<longrightarrow> r < length (vs_refreshes s) \<and> rf_result (vs_refreshes s ! r) = None
        \<and> \<not> rf_cancelled (vs_refreshes s ! r) \<and> rf_waiters (vs_refreshes s ! r) = int (vs_waiting s r) \<and> 0 < vs_waiting s r)
   \<and> (r < length (vs_refreshes s) \<longrightarrow>
        vs_in_flight s = Some r \<or> rf_cancelled (vs_refreshes s ! r) \<or> rf_result (vs_refreshes s ! r) \<noteq> None)
   \<and> (r < length (vs_refreshes s) \<longrightarrow>
        (\<forall>v. rf_result (vs_refreshes s ! r) = Some (Inr v) \<longrightarrow> v \<noteq> [] \<and> v \<in> set (vs_fetched s)))
   \<and> (0 < vs_waiting s r \<longrightarrow> r < length (vs_refreshes s) \<and> (vs_in_flight s = Some r \<or> rf_result (vs_refreshes s ! r) \<noteq> None))"

definition values_ok :: "version_state \<Rightarrow> bool" where
  "values_ok s \<longleftrightarrow> (vs_cache s = [] \<or> vs_cache s \<in> set (vs_fetched s))
     \<and> (\<forall>v. Some (Inr v) \<in> set (vs_returned s) \<longrightarrow> v \<noteq> [] \<and> v \<in> set (vs_fetched s))
     \<and> [] \<notin> set (vs_fetched s)"

definition version_inv :: "version_state \<Rightarrow> bool" where
  "version_inv s \<longleftrightarrow> (\<forall>r. refresh_ok s r) \<and> values_ok s"

lemma upd_refresh_simps [simp, step_simps]:
  "vs_cache (upd_refresh r f s) = vs_cache s" "vs_in_flight (upd_refresh r f s) = vs_in_flight s"
  "vs_waiting (upd_refresh r f s) = vs_waiting s" "vs_returned (upd_refresh r f s) = vs_returned s"
  "vs_fetched (upd_refresh r f s) = vs_fetched s" "length (vs_refreshes (upd_refresh r f s)) = length (vs_refreshes s)"
  "r' < length (vs_refreshes s) \<Longrightarrow> vs_refreshes (upd_refresh r f s) ! r' =
     (if r' = r then f (vs_refreshes s ! r) else vs_refreshes s ! r')"
  by (simp_all add: upd_refresh_def nth_list_update)

lemma version_invI: "(\<And>r. refresh_ok s r) \<Longrightarrow> values_ok s \<Longrightarrow> version_inv s"
  by (simp add: version_inv_def)

lemma version_invD: "version_inv s \<Longrightarrow> refresh_ok s r" "version_inv s \<Longrightarrow> values_ok s"
  by (simp_all add: version_inv_def)

lemma ask_version_inv [keeps]:
  assumes "version_inv s"
  shows "version_inv (ask_version s)"
proof (rule version_invI)
  fix r
  show "refresh_ok (ask_version s) r"
    using version_invD(1) [OF assms, of r]
    by (cases "vs_in_flight s"; cases "vs_cache s = []")
      (auto simp: refresh_ok_def ask_version_def nth_append less_Suc_eq)
  show "values_ok (ask_version s)"
    using version_invD(2) [OF assms] by (auto simp: values_ok_def ask_version_def split: option.splits)
qed

lemma run_version_refresh_inv [keeps]:
  assumes "version_inv s" and "r < length (vs_refreshes s)" and "rf_result (vs_refreshes s ! r) = None"
    and "\<And>v. res = Inr v \<Longrightarrow> v \<noteq> []"
  shows "version_inv (run_version_refresh r res s)"
proof (rule version_invI)
  fix r'
  show "refresh_ok (run_version_refresh r res s) r'"
    using version_invD(1) [OF assms(1), of r'] assms(2-4)
    by (cases "r' = r"; cases "vs_in_flight s = Some r"; cases res)
      (auto simp: refresh_ok_def run_version_refresh_def Let_def)
  show "values_ok (run_version_refresh r res s)"
    using version_invD(2) [OF assms(1)] assms(4) by (cases res) (auto simp: values_ok_def run_version_refresh_def Let_def)
qed

lemma return_result_inv [keeps]:
  assumes "version_inv s" and "0 < vs_waiting s r" and "rf_result (vs_refreshes s ! r) \<noteq> None"
  shows "version_inv (return_result r s)"
proof (rule version_invI)
  have r: "r < length (vs_refreshes s)" "vs_in_flight s \<noteq> Some r"
    using version_invD(1) [OF assms(1), of r] assms(2,3) by (auto simp: refresh_ok_def)
  fix r'
  show "refresh_ok (return_result r s) r'"
    using version_invD(1) [OF assms(1), of r'] assms(2,3) r
    by (cases "r' = r") (auto simp: refresh_ok_def return_result_def)
  have "\<forall>v. rf_result (vs_refreshes s ! r) = Some (Inr v) \<longrightarrow> v \<noteq> [] \<and> v \<in> set (vs_fetched s)"
    using version_invD(1) [OF assms(1), of r] r by (simp add: refresh_ok_def)
  then show "values_ok (return_result r s)"
    using version_invD(2) [OF assms(1)] by (auto simp: values_ok_def return_result_def)
qed

lemma give_up_inv [keeps]:
  assumes "version_inv s" and "0 < vs_waiting s r"
  shows "version_inv (give_up r s)"
proof (rule version_invI)
  fix r'
  show "refresh_ok (give_up r s) r'"
    using version_invD(1) [OF assms(1), of r'] version_invD(1) [OF assms(1), of r] assms(2)
    by (cases "r' = r"; cases "vs_in_flight s = Some r"; cases "vs_waiting s r = 1")
      (auto simp: refresh_ok_def give_up_def release_version_waiter_def Let_def)
  show "values_ok (give_up r s)"
    using version_invD(2) [OF assms(1)] by (auto simp: values_ok_def give_up_def release_version_waiter_def Let_def)
qed

lemma refresh_api_semver_inv [keeps]:
  assumes "version_inv s" and "v \<noteq> []"
  shows "version_inv (refresh_api_semver v s)"
proof (rule version_invI)
  fix r
  show "refresh_ok (refresh_api_semver v s) r"
    using version_invD(1) [OF assms(1), of r] by (auto simp: refresh_ok_def refresh_api_semver_def)
  show "values_ok (refresh_api_semver v s)"
    using version_invD(2) [OF assms(1)] assms(2) by (auto simp: values_ok_def refresh_api_semver_def)
qed

lemma version_step_inv: "version_step s s' \<Longrightarrow> version_inv s \<Longrightarrow> version_inv s'"
  by (erule version_stepE) (auto intro!: keeps dest: fetch_api_semver_nonempty sym)

lemma version_reach_inv: "version_reach s \<Longrightarrow> version_inv s"
proof (induction rule: version_reach.induct)
  case init
  show ?case by (simp add: version_init_def version_inv_def refresh_ok_def values_ok_def)
next
  case (step s s')
  then show ?case using version_step_inv by blast
qed

text \<open>
  C15: in every interleaving of callers, fetches and refreshes, all fetches but the shared one in flight
  have ended or were cancelled; the shared one is not cancelled and counts exactly the callers that
  wait for it, at least one; a waiting caller's fetch is the one in flight or has its result, so no
  caller waits for a cancelled fetch; and versions returned or cached are non-empty ones a device
  reported.
\<close>

theorem version_singleflight:
  assumes "version_reach s"
  shows "length (filter (\<lambda>f. rf_result f = None \<and> \<not> rf_cancelled f) (vs_refreshes s)) = (if vs_in_flight s = None then 0 else 1)
    \<and> (case vs_in_flight s of None \<Rightarrow> True
       | Some r \<Rightarrow> r < length (vs_refreshes s) \<and> rf_result (vs_refreshes s ! r) = None \<and> \<not> rf_cancelled (vs_refreshes s ! r)
           \<and> rf_waiters (vs_refreshes s ! r) = int (vs_waiting s r) \<and> 0 < vs_waiting s r)
    \<and> (\<forall>r. vs_waiting s r = 0 \<or> r < length (vs_refreshes s)
          \<and> (vs_in_flight s = Some r \<or> (\<exists>res. rf_result (vs_refreshes s ! r) = Some res)))
    \<and> (vs_cache s = [] \<or> vs_cache s \<in> set (vs_fetched s)) \<and> [] \<notin> set (vs_fetched s)
    \<and> {v. Some (Inr v) \<in> set (vs_returned s)} \<subseteq> set (vs_fetched s)"
proof -
  have inv: "version_inv s" using assms by (rule version_reach_inv)
  let ?live = "\<lambda>f. rf_result f = None \<and> \<not> rf_cancelled f"
  have "i < length (vs_refreshes s) \<and> ?live (vs_refreshes s ! i) \<longleftrightarrow> vs_in_flight s = Some i" for i
    using version_invD(1) [OF inv, of i] by (auto simp: refresh_ok_def)
  then have "{i. i < length (vs_refreshes s) \<and> ?live (vs_refreshes s ! i)} =
      (case vs_in_flight s of None \<Rightarrow> {} | Some r \<Rightarrow> {r})"
    by (simp split: option.split)
  then have "length (filter ?live (vs_refreshes s)) = (if vs_in_flight s = None then 0 else 1)"
    by (simp add: length_filter_conv_card split: option.splits)
  moreover have "vs_waiting s r = 0 \<or> r < length (vs_refreshes s)
      \<and> (vs_in_flight s = Some r \<or> (\<exists>res. rf_result (vs_refreshes s ! r) = Some res))" for r
    using version_invD(1) [OF inv, of r] by (auto simp: refresh_ok_def)
  moreover have "vs_in_flight s = Some r \<Longrightarrow> r < length (vs_refreshes s) \<and> rf_result (vs_refreshes s ! r) = None
      \<and> \<not> rf_cancelled (vs_refreshes s ! r) \<and> rf_waiters (vs_refreshes s ! r) = int (vs_waiting s r) \<and> 0 < vs_waiting s r" for r
    using version_invD(1) [OF inv, of r] by (simp add: refresh_ok_def)
  ultimately show ?thesis
    using version_invD(2) [OF inv] by (auto simp: values_ok_def split: option.split)
qed

text \<open>Two callers share the first fetch; one gives up, the fetch is still running for the other.\<close>

definition sample_state :: version_state where
  "sample_state = give_up 0 (ask_version (ask_version version_init))"

theorem version_singleflight_witness:
  "vs_in_flight sample_state = Some 0 \<and> vs_waiting sample_state 0 = 1
   \<and> rf_waiters (vs_refreshes sample_state ! 0) = 1 \<and> \<not> rf_cancelled (vs_refreshes sample_state ! 0)"
proof -
  let ?s = "ask_version (ask_version version_init)"
  have "version_reach ?s"
    by (intro version_reach.step [OF _ version_step.ask] version_reach.init)
  moreover have "0 < vs_waiting ?s 0" by (simp add: ask_version_def version_init_def upd_refresh_def)
  ultimately have r: "version_reach sample_state"
    unfolding sample_state_def by (blast intro: version_reach.step version_step.ended)
  have f: "vs_in_flight sample_state = Some 0" "vs_waiting sample_state 0 = 1"
    by (simp_all add: sample_state_def give_up_def release_version_waiter_def ask_version_def version_init_def upd_refresh_def Let_def)
  then show ?thesis using version_singleflight [OF r] by simp
qed

end
