(* ===== verification/RemoteHttp.thy ===== *)
theory RemoteHttp
  imports ClientConfig
begin

text \<open>
  \<open>remote/options.go\<close> and \<open>NewClient\<close> of \<open>remote/client.go\<close>: the options and the construction of a remote
  client with its topics. The round trips are in \<open>RemoteRoundTrip\<close>, the client's life in \<open>RemoteClient\<close>.
\<close>

section \<open>Options\<close>

record message_limit =
  ml_count :: nat
  ml_interval :: duration

record remote_config =
  rc_client_id :: string
  rc_session_id :: string
  rc_timeout :: duration
  rc_request_session :: string
  rc_lease :: duration
  rc_limit :: message_limit
  rc_max_message :: int

definition defaultRequestTimeout :: duration where "defaultRequestTimeout = 10 * second"
definition defaultStreamLease :: duration where "defaultStreamLease = 60 * second"
definition DefaultMaxMessageBytes :: int where "DefaultMaxMessageBytes = 1048576"

definition default_remote_config :: remote_config where
  "default_remote_config =
     \<lparr>rc_client_id = [], rc_session_id = [], rc_timeout = defaultRequestTimeout, rc_request_session = [],
      rc_lease = defaultStreamLease, rc_limit = \<lparr>ml_count = 0, ml_interval = 0\<rparr>, rc_max_message = DefaultMaxMessageBytes\<rparr>"

definition topic_reserved :: string where
  "topic_reserved = [CHR ''/'', CHR ''+'', CHR ''#'', CHR 0x00]"

definition validate_topic_segment :: "string \<Rightarrow> string \<Rightarrow> string + unit" where
  "validate_topic_segment name v =
     (if v = [] then Inl (''remote '' @ name @ '' must not be empty'')
      else if 64 < length v then Inl (''remote '' @ name @ '' must not exceed 64 bytes'')
      else if contains_any v topic_reserved then Inl (''remote '' @ name @ '' must be one safe MQTT topic segment'')
      else Inr ())"

datatype remote_option =
    RWithMaxMessageBytes int
  | RWithClientID string
  | RWithRequestTimeout duration
  | RWithRequestSessionID string
  | RWithStreamLease duration
  | RWithStreamMessageLimit message_limit

text \<open>The remainder of Go's \<open>%\<close>, on the positive leases that reach it, is \<open>mod\<close>.\<close>

fun apply_remote_option :: "remote_option \<Rightarrow> remote_config \<Rightarrow> string + remote_config" where
  "apply_remote_option (RWithMaxMessageBytes n) c =
     (if n \<le> 0 then Inl ''remote maximum message size must be greater than zero'' else Inr (c\<lparr>rc_max_message := n\<rparr>))"
| "apply_remote_option (RWithClientID i) c = rbind (validate_topic_segment ''client ID'' i) (\<lambda>u. Inr (c\<lparr>rc_client_id := i\<rparr>))"
| "apply_remote_option (RWithRequestTimeout t) c =
     (if t \<le> 0 then Inl ''remote request timeout must be greater than zero'' else Inr (c\<lparr>rc_timeout := t\<rparr>))"
| "apply_remote_option (RWithRequestSessionID s) c =
     (if contains_any s [CHR 0x0D, CHR 0x0A] then Inl ''remote request session ID must not contain a newline''
      else Inr (c\<lparr>rc_request_session := s\<rparr>))"
| "apply_remote_option (RWithStreamLease l) c =
     (if l \<le> 0 \<or> l mod second \<noteq> 0 then Inl ''remote stream lease must be a positive whole number of seconds''
      else Inr (c\<lparr>rc_lease := l\<rparr>))"
| "apply_remote_option (RWithStreamMessageLimit l) c =
     (if ml_count l = 0 \<and> ml_interval l = 0 then Inr (c\<lparr>rc_limit := l\<rparr>)
      else if ml_count l = 0 \<or> ml_interval l \<le> 0 then Inl ''remote stream message limit requires a positive count and interval''
      else Inr (c\<lparr>rc_limit := l\<rparr>))"

definition topic_segment :: "string \<Rightarrow> bool" where
  "topic_segment s \<longleftrightarrow> s \<noteq> [] \<and> length s \<le> 64 \<and> (\<forall>c \<in> set s. c \<notin> set topic_reserved)"

lemma validate_topic_segment_ok: "validate_topic_segment name v = Inr u \<longleftrightarrow> topic_segment v"
  by (auto simp: validate_topic_segment_def topic_segment_def contains_any_def list_ex_iff not_less)

definition remote_config_valid :: "remote_config \<Rightarrow> bool" where
  "remote_config_valid c \<longleftrightarrow> 0 < rc_max_message c \<and> 0 < rc_timeout c \<and> 0 < rc_lease c \<and> rc_lease c mod second = 0
     \<and> (rc_client_id c = [] \<or> topic_segment (rc_client_id c))
     \<and> (ml_count (rc_limit c) = 0 \<longleftrightarrow> ml_interval (rc_limit c) = 0) \<and> 0 \<le> ml_interval (rc_limit c)
     \<and> \<not> contains_any (rc_request_session c) [CHR 0x0D, CHR 0x0A]"

interpretation remote_opts: configurable apply_remote_option remote_config_valid
proof
  fix c op c'
  assume "remote_config_valid c" "apply_remote_option op c = Inr c'"
  then show "remote_config_valid c'"
    by (cases op) (auto simp: remote_config_valid_def rbind_eq_Inr validate_topic_segment_ok split: if_splits)
qed

lemma default_remote_config_valid: "remote_config_valid default_remote_config"
  by (simp add: remote_config_valid_def default_remote_config_def DefaultMaxMessageBytes_def
      defaultRequestTimeout_def defaultStreamLease_def second_def contains_any_def)

section \<open>The remote client\<close>

definition syntheticBaseURL :: string where "syntheticBaseURL = ''http://busybar.remote.invalid''"

definition request_topic :: "string \<Rightarrow> string" where
  "request_topic session = ''sessions/'' @ session @ ''/down/v1/http-request''"

definition response_topic :: "string \<Rightarrow> string \<Rightarrow> string" where
  "response_topic session client = ''sessions/'' @ session @ ''/up/v1/http-response/'' @ client"

record remote_client =
  rl_config :: remote_config
  rl_request_topic :: string
  rl_response_topic :: string
  rl_device :: client

text \<open>\<open>randomHex\<close>: \<open>rand.Read\<close> fails or fills the buffer.\<close>

definition hex_lower :: "nat \<Rightarrow> char" where
  "hex_lower n = (if n < 10 then char_of (48 + n) else char_of (87 + n))"

definition hex_encode :: "bytes \<Rightarrow> string" where
  "hex_encode b = concat (map (\<lambda>w. [hex_lower (unat w div 16), hex_lower (unat w mod 16)]) b)"

definition random_hex :: "nat \<Rightarrow> string + (nat \<Rightarrow> byte) \<Rightarrow> string + string" where
  "random_hex n source =
     (case source of
        Inl e \<Rightarrow> Inl (''generate remote identifier: '' @ e)
      | Inr fill \<Rightarrow> Inr (hex_encode (map fill [0..<n])))"

text \<open>\<open>round_tripper\<close> is the number of the HTTP client made for the round tripper.\<close>

definition root_options :: "nat \<Rightarrow> remote_config \<Rightarrow> client_option option list" where
  "root_options round_tripper c =
     [Some (WithEndpointMode EndpointRemote), Some (WithBaseURL syntheticBaseURL), Some (WithHTTPClient (Some round_tripper)),
      Some (WithTimeout (rc_timeout c)), Some (WithMaxResponseBytes (rc_max_message c))]
     @ (if rc_request_session c \<noteq> [] then [Some (WithSessionID (rc_request_session c))] else [])"

definition new_remote_client ::
  "(string \<Rightarrow> string + base_url) \<Rightarrow> nat \<Rightarrow> string + (nat \<Rightarrow> byte) \<Rightarrow> bool \<Rightarrow> string \<Rightarrow> remote_option option list \<Rightarrow> string + remote_client"
where
  "new_remote_client parse round_tripper source transport_nil session ops =
     (if transport_nil then Inl ''remote transport must not be nil''
      else rbind (validate_topic_segment ''session ID'' session) (\<lambda>u.
           rbind (resolve_options apply_remote_option ops default_remote_config) (\<lambda>c.
           rbind (if rc_client_id c = [] then random_hex 16 source else Inr (rc_client_id c)) (\<lambda>cid.
           let c = c\<lparr>rc_client_id := cid, rc_session_id := session\<rparr>
           in rbind (new_client parse (root_options round_tripper c)) (\<lambda>device.
              Inr \<lparr>rl_config = c, rl_request_topic = request_topic session, rl_response_topic = response_topic session cid,
                   rl_device = device\<rparr>)))))"

text \<open>The levels of an MQTT topic, and that it names exactly one topic.\<close>

definition topic_levels :: "string \<Rightarrow> string list" where
  "topic_levels t = split_on (CHR ''/'') t"

definition exact_topic :: "string \<Rightarrow> bool" where
  "exact_topic t \<longleftrightarrow> list_all (\<lambda>l. l \<noteq> [] \<and> CHR ''+'' \<notin> set l \<and> CHR ''#'' \<notin> set l \<and> CHR 0x00 \<notin> set l) (topic_levels t)"

lemma hex_lower_safe: "n < 16 \<Longrightarrow> hex_lower n \<notin> set topic_reserved"
proof -
  assume "n < 16"
  then have "n \<in> set [0..<16]" by simp
  moreover have "list_all (\<lambda>n. hex_lower n \<notin> set topic_reserved) [0..<16]" by code_simp
  ultimately show ?thesis unfolding list_all_iff by blast
qed

lemma length_hex_encode [simp]: "length (hex_encode b) = 2 * length b"
  by (induction b) (auto simp: hex_encode_def)

lemma hex_encode_safe: "c \<in> set (hex_encode b) \<Longrightarrow> c \<notin> set topic_reserved"
proof -
  assume "c \<in> set (hex_encode b)"
  then obtain w where "c = hex_lower (unat (w :: byte) div 16) \<or> c = hex_lower (unat w mod 16)"
    by (auto simp: hex_encode_def)
  moreover have "unat w div 16 < 16" using byte_bound [of w] by (simp add: less_mult_imp_div_less)
  ultimately show ?thesis using hex_lower_safe by auto
qed

lemma random_hex_segment: "random_hex 16 source = Inr i \<Longrightarrow> topic_segment i"
proof -
  assume "random_hex 16 source = Inr i"
  then obtain fill where i: "i = hex_encode (map fill [0..<16])" by (auto simp: random_hex_def split: sum.splits)
  have "length i = 32" unfolding i length_hex_encode by simp
  moreover have "\<forall>c \<in> set i. c \<notin> set topic_reserved" unfolding i by (blast dest: hex_encode_safe)
  ultimately show ?thesis unfolding topic_segment_def by auto
qed

lemma topic_segment_levels:
  assumes "topic_segment s"
  shows "CHR ''/'' \<notin> set s" "CHR ''+'' \<notin> set s" "CHR ''#'' \<notin> set s" "CHR 0x00 \<notin> set s" "s \<noteq> []"
  using assms by (auto simp: topic_segment_def topic_reserved_def)

lemma request_topic_levels:
  assumes "topic_segment s"
  shows "topic_levels (request_topic s) = [''sessions'', s, ''down'', ''v1'', ''http-request'']"
  using topic_segment_levels [OF assms] split_on_append_sep [of "CHR ''/''" s "''down/v1/http-request''"]
  by (simp add: topic_levels_def request_topic_def)

lemma response_topic_levels:
  assumes "topic_segment s" "topic_segment c"
  shows "topic_levels (response_topic s c) = [''sessions'', s, ''up'', ''v1'', ''http-response'', c]"
  using topic_segment_levels [OF assms(1)] topic_segment_levels [OF assms(2)]
    split_on_append_sep [of "CHR ''/''" s "''up/v1/http-response/'' @ c"] split_on_none [of "CHR ''/''" c]
  by (simp add: topic_levels_def response_topic_def)

lemma topics_exact:
  assumes "topic_segment s" "topic_segment c"
  shows "exact_topic (request_topic s)" "exact_topic (response_topic s c)"
  using topic_segment_levels [OF assms(1)] topic_segment_levels [OF assms(2)]
  by (simp_all add: exact_topic_def request_topic_levels response_topic_levels assms)

text \<open>What \<open>NewClient\<close> needs of \<open>url.Parse\<close>: the fixed synthetic URL has the scheme and host it spells.\<close>

definition parses_synthetic :: "(string \<Rightarrow> string + base_url) \<Rightarrow> bool" where
  "parses_synthetic parse \<longleftrightarrow>
     parse syntheticBaseURL = Inr \<lparr>bu_scheme = ''http'', bu_host = ''busybar.remote.invalid''\<rparr>"

lemma root_device:
  assumes "parses_synthetic parse" and "remote_config_valid c"
  shows "\<exists>d. new_client parse (root_options n c) = Inr d \<and> client_ok d \<and> cl_mode d = EndpointRemote \<and> cl_http d = n
    \<and> cl_timeout d = rc_timeout c \<and> cl_max_response d = rc_max_message c \<and> cl_session d = rc_request_session c"
proof -
  let ?cfg = "default_client_config\<lparr>c_mode := EndpointRemote, c_base_url := syntheticBaseURL, c_base_url_configured := True,
      c_http_client := n, c_http_client_configured := True, c_timeout := rc_timeout c, c_max_response := rc_max_message c,
      c_session := rc_request_session c\<rparr>"
  have "syntheticBaseURL \<noteq> []" by (simp add: syntheticBaseURL_def)
  then have "resolve_options apply_client_option (root_options n c) default_client_config = Inr ?cfg"
    using assms(2) by (simp add: root_options_def remote_config_valid_def default_client_config_def)
  moreover have "trim_space syntheticBaseURL = syntheticBaseURL" "contains syntheticBaseURL ''://''"
    unfolding syntheticBaseURL_def by code_simp+
  then have "normalize_base_url parse syntheticBaseURL = Inr \<lparr>bu_scheme = ''http'', bu_host = ''busybar.remote.invalid''\<rparr>"
    using assms(1) \<open>syntheticBaseURL \<noteq> []\<close> by (simp add: normalize_base_url_def parses_synthetic_def)
  ultimately have "new_client parse (root_options n c) =
      Inr \<lparr>cl_base = \<lparr>bu_scheme = ''http'', bu_host = ''busybar.remote.invalid''\<rparr>, cl_http = n, cl_timeout = rc_timeout c,
        cl_mode = EndpointRemote, cl_token = [], cl_session = rc_request_session c, cl_generator = 0,
        cl_retry = \<lparr>rp_attempts = 1, rp_backoff = 0\<rparr>, cl_negotiation = NegotiationEnabled, cl_max_response = rc_max_message c\<rparr>"
    by (simp add: new_client_def default_client_config_def)
  from this new_client_ok [OF this] show ?thesis by simp
qed

lemma random_hex_ok: "is_ok (random_hex k source) = is_ok source"
  by (cases source) (simp_all add: random_hex_def)

text \<open>What the construction gives once the options are resolved.\<close>

definition remote_made :: "nat \<Rightarrow> string \<Rightarrow> remote_client \<Rightarrow> bool" where
  "remote_made n session rc \<longleftrightarrow>
     client_ok (rl_device rc) \<and> cl_mode (rl_device rc) = EndpointRemote \<and> cl_http (rl_device rc) = n
   \<and> cl_timeout (rl_device rc) = rc_timeout (rl_config rc) \<and> cl_max_response (rl_device rc) = rc_max_message (rl_config rc)
   \<and> remote_config_valid (rl_config rc) \<and> topic_segment (rc_client_id (rl_config rc))
   \<and> topic_levels (rl_request_topic rc) = [''sessions'', session, ''down'', ''v1'', ''http-request'']
   \<and> topic_levels (rl_response_topic rc) = [''sessions'', session, ''up'', ''v1'', ''http-response'', rc_client_id (rl_config rc)]
   \<and> exact_topic (rl_request_topic rc) \<and> exact_topic (rl_response_topic rc)"

lemma new_remote_client_made:
  assumes parse: "parses_synthetic parse" and seg: "topic_segment session"
    and opts: "resolve_options apply_remote_option ops default_remote_config = Inr c"
    and cid: "(if rc_client_id c = [] then random_hex 16 source else Inr (rc_client_id c)) = Inr cid"
  shows "\<exists>rc. new_remote_client parse n source False session ops = Inr rc \<and> remote_made n session rc"
proof -
  let ?c = "c\<lparr>rc_client_id := cid, rc_session_id := session\<rparr>"
  have c: "remote_config_valid c" using remote_opts.resolve_valid [OF default_remote_config_valid opts] .
  have id: "topic_segment cid"
    using cid c random_hex_segment by (auto simp: remote_config_valid_def split: if_splits)
  have valid: "remote_config_valid ?c" using c id by (simp add: remote_config_valid_def)
  obtain d where d: "new_client parse (root_options n ?c) = Inr d" "client_ok d" "cl_mode d = EndpointRemote" "cl_http d = n"
    "cl_timeout d = rc_timeout ?c" "cl_max_response d = rc_max_message ?c"
    using root_device [OF parse valid] by blast
  have "validate_topic_segment ''session ID'' session = Inr ()" using seg by (simp add: validate_topic_segment_ok)
  then show ?thesis
    using d seg id valid cid
    by (simp add: new_remote_client_def opts Let_def remote_made_def request_topic_levels response_topic_levels topics_exact)
qed

text \<open>
  \<open>remote.NewClient\<close> succeeds exactly with a transport, a session that is one topic segment,
  acceptable options and - when no client identifier was configured - random bytes: the device client
  inside never fails to be made. It is then a remote client over the round tripper, its timeout and
  response limit are those of the valid configuration, and both topics name exactly one topic below
  the session, whatever the identifiers are.
\<close>

theorem remote_client_spec:
  assumes "parses_synthetic parse"
  shows "(is_ok (new_remote_client parse n source transport_nil session ops) \<longleftrightarrow>
      \<not> transport_nil \<and> topic_segment session
      \<and> (case resolve_options apply_remote_option ops default_remote_config of Inl _ \<Rightarrow> False
         | Inr c \<Rightarrow> rc_client_id c \<noteq> [] \<or> is_ok source))
    \<and> (case new_remote_client parse n source transport_nil session ops of Inl _ \<Rightarrow> True | Inr rc \<Rightarrow> remote_made n session rc)"
proof (cases "\<not> transport_nil \<and> topic_segment session")
  case True
  then have v: "validate_topic_segment ''session ID'' session = Inr ()" by (simp add: validate_topic_segment_ok)
  show ?thesis
  proof (cases "resolve_options apply_remote_option ops default_remote_config")
    case (Inl e)
    then show ?thesis using True v by (simp add: new_remote_client_def)
  next
    case (Inr c)
    show ?thesis
    proof (cases "if rc_client_id c = [] then random_hex 16 source else Inr (rc_client_id c)")
      case (Inl e)
      then have "rc_client_id c = []" "random_hex 16 source = Inl e" by (auto split: if_splits)
      moreover from this have "\<not> is_ok source" using random_hex_ok [of 16 source] by simp
      ultimately show ?thesis using True v Inr by (simp add: new_remote_client_def)
    next
      case cid: (Inr cid)
      then have "rc_client_id c \<noteq> [] \<or> is_ok source" using random_hex_ok [of 16 source] by (auto split: if_splits)
      then show ?thesis using new_remote_client_made [OF assms _ Inr cid, of session n] True Inr by auto
    qed
  qed
next
  case False
  then have "\<not> is_ok (new_remote_client parse n source transport_nil session ops)"
    by (cases "validate_topic_segment ''session ID'' session")
      (auto simp: new_remote_client_def validate_topic_segment_ok)
  then show ?thesis using False by (cases "new_remote_client parse n source transport_nil session ops") auto
qed

theorem remote_client_spec_witness:
  "is_ok (new_remote_client (\<lambda>u. Inr \<lparr>bu_scheme = ''http'', bu_host = ''busybar.remote.invalid''\<rparr>) 7 (Inr (\<lambda>k. 255)) False ''s1'' [])"
proof -
  have "parses_synthetic (\<lambda>u. Inr \<lparr>bu_scheme = ''http'', bu_host = ''busybar.remote.invalid''\<rparr>)"
    by (simp add: parses_synthetic_def)
  moreover have "topic_segment ''s1''" by (simp add: topic_segment_def topic_reserved_def)
  ultimately show ?thesis using remote_client_spec by (simp add: default_remote_config_def)
qed

end
