(* ===== verification/RemoteRoundTrip.thy ===== *)
theory RemoteRoundTrip
  imports RemoteHttp
begin

text \<open>
  \<open>remote/http.go\<close>: HTTP requests over MQTT. Round trips, the receive loops of the response
  subscriptions and \<open>Close\<close> interleave; every critical section of \<open>mu\<close> is one operation.
\<close>

section \<open>The bounded buffer\<close>

text \<open>\<open>messageBuffer\<close>: \<open>Write\<close> returns the bytes taken and whether the message is too large.\<close>

definition buffer_write :: "int \<Rightarrow> bytes \<Rightarrow> bytes \<Rightarrow> (int \<times> bool) \<times> bytes" where
  "buffer_write maximum data buffer =
     (let remaining = maximum - int (length buffer)
      in if int (length data) \<le> remaining then ((int (length data), False), buffer @ data)
         else ((max remaining 0, True), if 0 < remaining then buffer @ take (nat remaining) data else buffer))"

text \<open>A writer of several chunks stops at the first error.\<close>

fun write_chunks :: "int \<Rightarrow> bytes list \<Rightarrow> bytes \<Rightarrow> bool \<times> bytes" where
  "write_chunks maximum [] buffer = (False, buffer)"
| "write_chunks maximum (d # ds) buffer =
     (case buffer_write maximum d buffer of
        ((n, True), b) \<Rightarrow> (True, b)
      | ((n, False), b) \<Rightarrow> write_chunks maximum ds b)"

lemma write_chunks_from:
  assumes "int (length buffer) \<le> maximum"
  shows "write_chunks maximum ds buffer =
    (maximum < int (length (buffer @ concat ds)), take (nat maximum) (buffer @ concat ds))"
  using assms
proof (induction ds arbitrary: buffer)
  case (Cons d ds)
  show ?case
  proof (cases "int (length d) \<le> maximum - int (length buffer)")
    case True
    then show ?thesis using Cons.IH [of "buffer @ d"] by (simp add: buffer_write_def Let_def)
  next
    case False
    have "nat (maximum - int (length buffer)) = nat maximum - length buffer" by simp
    moreover have "nat maximum - length buffer \<le> length d" using False by simp
    ultimately show ?thesis using False Cons.prems by (auto simp: buffer_write_def Let_def)
  qed
qed simp

section \<open>State\<close>

datatype remote_cause = RErrClosed | RErrMessageTooLarge | RErrOther string

record remote_error =
  rme_operation :: string
  rme_route :: string
  rme_terminal :: bool
  rme_cause :: remote_cause

record mqtt_message =
  mq_topic :: string
  mq_payload :: bytes
  mq_correlation :: string

type_synonym http_result = "remote_error + mqtt_message"

text \<open>
  Where a round trip stands: begun, subscribed, registered under its correlation, published and
  waiting in the \<open>select\<close>, or returned. Round trips are numbered by their start; the result channel
  of a round trip has its number.
\<close>

datatype trip =
    TripBegun
  | TripSubscribed nat
  | TripRegistered string
  | TripWaiting string
  | TripReturned

record round_tripper =
  rt_closed :: bool
  rt_subscription :: "nat option"
  rt_loops :: "nat list" \<comment> \<open>subscriptions whose receive loop runs\<close>
  rt_subscribed :: nat \<comment> \<open>subscriptions made so far\<close>
  rt_pending :: "(string \<times> nat) list"
  rt_results :: "(nat \<times> http_result) list" \<comment> \<open>sends on result channels, in order\<close>
  rt_trips :: "trip list"

record rt_config =
  rx_request_topic :: string
  rx_response_topic :: string
  rx_max :: int

definition new_round_tripper :: round_tripper where
  "new_round_tripper =
     \<lparr>rt_closed = False, rt_subscription = None, rt_loops = [], rt_subscribed = 0, rt_pending = [], rt_results = [], rt_trips = []\<rparr>"

definition set_trip :: "nat \<Rightarrow> trip \<Rightarrow> round_tripper \<Rightarrow> round_tripper" where
  "set_trip r t s = s\<lparr>rt_trips := (rt_trips s)[r := t]\<rparr>"

section \<open>Operations of a round trip\<close>

definition begin_round_trip :: "rt_config \<Rightarrow> round_tripper \<Rightarrow> (remote_error + nat) \<times> round_tripper" where
  "begin_round_trip x s =
     (if rt_closed s then
        (Inl \<lparr>rme_operation = ''request HTTP'', rme_route = rx_request_topic x, rme_terminal = True, rme_cause = RErrClosed\<rparr>, s)
      else (Inr (length (rt_trips s)), s\<lparr>rt_trips := rt_trips s @ [TripBegun]\<rparr>))"

text \<open>\<open>made\<close> is the result of the transport's \<open>Subscribe\<close>: an error, nil, or a subscription.\<close>

definition ensure_subscription ::
  "rt_config \<Rightarrow> string + bool \<Rightarrow> round_tripper \<Rightarrow> (remote_error + nat) \<times> round_tripper"
where
  "ensure_subscription x made s =
     (let err = (\<lambda>terminal cause. Inl \<lparr>rme_operation = ''subscribe HTTP'', rme_route = rx_response_topic x,
                                       rme_terminal = terminal, rme_cause = cause\<rparr>)
      in if rt_closed s then (err True RErrClosed, s)
      else case rt_subscription s of
        Some i \<Rightarrow> (Inr i, s)
      | None \<Rightarrow>
          (case made of
             Inl e \<Rightarrow> (err False (RErrOther e), s)
           | Inr False \<Rightarrow> (err False (RErrOther ''transport returned a nil subscription''), s)
           | Inr True \<Rightarrow> (Inr (rt_subscribed s),
               s\<lparr>rt_subscription := Some (rt_subscribed s), rt_loops := rt_loops s @ [rt_subscribed s],
                 rt_subscribed := Suc (rt_subscribed s)\<rparr>)))"

definition without_key :: "string \<Rightarrow> (string \<times> nat) list \<Rightarrow> (string \<times> nat) list" where
  "without_key c ps = filter (\<lambda>(c', _). c' \<noteq> c) ps"

definition register_trip ::
  "rt_config \<Rightarrow> string \<Rightarrow> nat \<Rightarrow> nat \<Rightarrow> round_tripper \<Rightarrow> (remote_error + unit) \<times> round_tripper"
where
  "register_trip x c sub r s =
     (let err = (\<lambda>terminal cause. Inl \<lparr>rme_operation = ''register HTTP'', rme_route = rx_response_topic x,
                                       rme_terminal = terminal, rme_cause = cause\<rparr>)
      in if rt_closed s then (err True RErrClosed, s)
         else if rt_subscription s \<noteq> Some sub then (err False (RErrOther ''response subscription changed''), s)
         else (Inr (), s\<lparr>rt_pending := (c, r) # without_key c (rt_pending s)\<rparr>))"

definition unregister_trip :: "string \<Rightarrow> nat \<Rightarrow> round_tripper \<Rightarrow> round_tripper" where
  "unregister_trip c r s =
     (if map_of (rt_pending s) c = Some r then s\<lparr>rt_pending := without_key c (rt_pending s)\<rparr> else s)"

text \<open>
  Encoding into the bounded buffer (None: the request cannot be written) and publishing; a failure
  leaves through the deferred \<open>unregister\<close>.
\<close>

definition publish_trip ::
  "rt_config \<Rightarrow> bytes list option \<Rightarrow> string option \<Rightarrow> round_tripper \<Rightarrow> remote_error + bytes"
where
  "publish_trip x chunks published s =
     (let err = (\<lambda>operation cause. Inl \<lparr>rme_operation = operation, rme_route = rx_request_topic x,
                                        rme_terminal = False, rme_cause = cause\<rparr>)
      in case chunks of
        None \<Rightarrow> err ''encode HTTP'' (RErrOther ''request could not be written'')
      | Some ds \<Rightarrow>
          (case write_chunks (rx_max x) ds [] of
             (True, _) \<Rightarrow> err ''encode HTTP'' RErrMessageTooLarge
           | (False, payload) \<Rightarrow>
               if rt_closed s then err ''publish HTTP'' RErrClosed
               else (case published of Some e \<Rightarrow> err ''publish HTTP'' (RErrOther e) | None \<Rightarrow> Inr payload)))"

section \<open>Receive loops and Close\<close>

text \<open>One message received by a loop: looked up, removed and sent to the channel it belongs to.\<close>

definition receive_http :: "rt_config \<Rightarrow> mqtt_message \<Rightarrow> round_tripper \<Rightarrow> round_tripper" where
  "receive_http x m s =
     (if mq_topic m \<noteq> rx_response_topic x \<or> mq_correlation m = [] then s
      else case map_of (rt_pending s) (mq_correlation m) of
        None \<Rightarrow> s
      | Some r \<Rightarrow>
          s\<lparr>rt_pending := without_key (mq_correlation m) (rt_pending s),
            rt_results := rt_results s @
              [(r, if rx_max x < int (length (mq_payload m))
                   then Inl \<lparr>rme_operation = ''receive HTTP'', rme_route = rx_response_topic x,
                             rme_terminal = False, rme_cause = RErrMessageTooLarge\<rparr>
                   else Inr m)]\<rparr>)"

definition fail_pending :: "remote_error \<Rightarrow> round_tripper \<Rightarrow> round_tripper" where
  "fail_pending e s = s\<lparr>rt_subscription := None, rt_pending := [],
     rt_results := rt_results s @ map (\<lambda>(c, r). (r, Inl e)) (rt_pending s)\<rparr>"

text \<open>\<open>subscriptionFailed\<close>; \<open>canceled\<close> tells whether the error is \<open>context.Canceled\<close>. The loop ends.\<close>

definition subscription_failed :: "rt_config \<Rightarrow> nat \<Rightarrow> bool \<Rightarrow> string \<Rightarrow> round_tripper \<Rightarrow> round_tripper" where
  "subscription_failed x sub canceled e s =
     (let s = s\<lparr>rt_loops := removeAll sub (rt_loops s)\<rparr>
      in if rt_subscription s \<noteq> Some sub then s
         else fail_pending \<lparr>rme_operation = ''receive HTTP'', rme_route = rx_response_topic x, rme_terminal = rt_closed s,
                 rme_cause = (if rt_closed s \<and> canceled then RErrClosed else RErrOther e)\<rparr> s)"

definition close_http :: "rt_config \<Rightarrow> round_tripper \<Rightarrow> round_tripper" where
  "close_http x s =
     fail_pending \<lparr>rme_operation = ''close HTTP'', rme_route = rx_response_topic x, rme_terminal = True, rme_cause = RErrClosed\<rparr>
       (s\<lparr>rt_closed := True\<rparr>)"

section \<open>Steps\<close>

text \<open>
  The steps of round trip \<open>r\<close> after it has begun. The identifiers of \<open>randomHex(16)\<close> are taken to be
  fresh: 128 random bits do not meet a pending one.
\<close>

inductive trip_step :: "rt_config \<Rightarrow> nat \<Rightarrow> round_tripper \<Rightarrow> round_tripper \<Rightarrow> bool" where
  subscribe: "r < length (rt_trips s) \<Longrightarrow> rt_trips s ! r = TripBegun \<Longrightarrow> ensure_subscription x made s = (Inr sub, s') \<Longrightarrow>
    trip_step x r s (set_trip r (TripSubscribed sub) s')"
| no_subscription: "r < length (rt_trips s) \<Longrightarrow> rt_trips s ! r = TripBegun \<Longrightarrow> ensure_subscription x made s = (Inl e, s') \<Longrightarrow>
    trip_step x r s (set_trip r TripReturned s')"
| register: "r < length (rt_trips s) \<Longrightarrow> rt_trips s ! r = TripSubscribed sub \<Longrightarrow> c \<notin> fst ` set (rt_pending s) \<Longrightarrow> c \<noteq> [] \<Longrightarrow>
    register_trip x c sub r s = (Inr (), s') \<Longrightarrow> trip_step x r s (set_trip r (TripRegistered c) s')"
| not_registered: "r < length (rt_trips s) \<Longrightarrow> rt_trips s ! r = TripSubscribed sub \<Longrightarrow>
    register_trip x c sub r s = (Inl e, s') \<Longrightarrow> trip_step x r s (set_trip r TripReturned s')"
| no_identifier: "r < length (rt_trips s) \<Longrightarrow> rt_trips s ! r = TripSubscribed sub \<Longrightarrow> trip_step x r s (set_trip r TripReturned s)"
| publish: "r < length (rt_trips s) \<Longrightarrow> rt_trips s ! r = TripRegistered c \<Longrightarrow> publish_trip x chunks out s = Inr payload \<Longrightarrow>
    trip_step x r s (set_trip r (TripWaiting c) s)"
| not_published: "r < length (rt_trips s) \<Longrightarrow> rt_trips s ! r = TripRegistered c \<Longrightarrow> publish_trip x chunks out s = Inl e \<Longrightarrow>
    trip_step x r s (set_trip r TripReturned (unregister_trip c r s))"
| response: "r < length (rt_trips s) \<Longrightarrow> rt_trips s ! r = TripWaiting c \<Longrightarrow> (r, res) \<in> set (rt_results s) \<Longrightarrow>
    trip_step x r s (set_trip r TripReturned s)"
| ctx_done: "r < length (rt_trips s) \<Longrightarrow> rt_trips s ! r = TripWaiting c \<Longrightarrow>
    trip_step x r s (set_trip r TripReturned (unregister_trip c r s))"

text \<open>What the rest of the program does: new round trips, messages, failing subscriptions, \<open>Close\<close>.\<close>

inductive outer_step :: "rt_config \<Rightarrow> round_tripper \<Rightarrow> round_tripper \<Rightarrow> bool" where
  start: "outer_step x s (snd (begin_round_trip x s))"
| message: "i \<in> set (rt_loops s) \<Longrightarrow> outer_step x s (receive_http x m s)"
| failed: "i \<in> set (rt_loops s) \<Longrightarrow> outer_step x s (subscription_failed x i canceled e s)"
| close: "outer_step x s (close_http x s)"

inductive rt_reach :: "rt_config \<Rightarrow> round_tripper \<Rightarrow> bool" where
  init: "rt_reach x new_round_tripper"
| trip: "rt_reach x s \<Longrightarrow> trip_step x r s s' \<Longrightarrow> rt_reach x s'"
| outer: "rt_reach x s \<Longrightarrow> outer_step x s s' \<Longrightarrow> rt_reach x s'"

inductive_cases trip_stepE: "trip_step x r s s'"
inductive_cases outer_stepE: "outer_step x s s'"

section \<open>Invariant\<close>

definition trip_key :: "trip \<Rightarrow> string option" where
  "trip_key t = (case t of TripRegistered c \<Rightarrow> Some c | TripWaiting c \<Rightarrow> Some c | _ \<Rightarrow> None)"

lemma trip_key_simps [simp]:
  "trip_key TripBegun = None" "trip_key (TripSubscribed i) = None" "trip_key TripReturned = None"
  "trip_key (TripRegistered c) = Some c" "trip_key (TripWaiting c) = Some c"
  by (simp_all add: trip_key_def)

definition early :: "trip \<Rightarrow> bool" where
  "early t \<longleftrightarrow> (case t of TripBegun \<Rightarrow> True | TripSubscribed i \<Rightarrow> True | _ \<Rightarrow> False)"

lemma early_simps [simp]:
  "early TripBegun" "early (TripSubscribed i)" "\<not> early TripReturned" "\<not> early (TripRegistered c)" "\<not> early (TripWaiting c)"
  by (simp_all add: early_def)

definition answer_ok :: "rt_config \<Rightarrow> mqtt_message \<Rightarrow> bool" where
  "answer_ok x m \<longleftrightarrow> mq_topic m = rx_response_topic x \<and> int (length (mq_payload m)) \<le> rx_max x"

text \<open>
  What holds of round trip \<open>r\<close>: a pending one is registered and has no result; only registered ones
  get results; a registered one is pending or has its result; and a message it gets is its own.
\<close>

definition trip_ok :: "rt_config \<Rightarrow> round_tripper \<Rightarrow> nat \<Rightarrow> bool" where
  "trip_ok x s r \<longleftrightarrow>
     (\<forall>c. (c, r) \<in> set (rt_pending s) \<longrightarrow>
        r < length (rt_trips s) \<and> trip_key (rt_trips s ! r) = Some c \<and> r \<notin> fst ` set (rt_results s))
   \<and> (r \<in> fst ` set (rt_results s) \<longrightarrow> r < length (rt_trips s) \<and> \<not> early (rt_trips s ! r))
   \<and> (\<forall>c. r < length (rt_trips s) \<longrightarrow> trip_key (rt_trips s ! r) = Some c \<longrightarrow>
        (c, r) \<in> set (rt_pending s) \<or> r \<in> fst ` set (rt_results s))
   \<and> (\<forall>m. (r, Inr m) \<in> set (rt_results s) \<longrightarrow> answer_ok x m
        \<and> (\<forall>c. trip_key (rt_trips s ! r) = Some c \<longrightarrow> mq_correlation m = c))"

definition table_ok :: "round_tripper \<Rightarrow> bool" where
  "table_ok s \<longleftrightarrow> distinct (map fst (rt_pending s)) \<and> distinct (map snd (rt_pending s)) \<and> distinct (map fst (rt_results s))
     \<and> (rt_pending s \<noteq> [] \<longrightarrow> rt_subscription s \<noteq> None)
     \<and> (\<forall>i. rt_subscription s = Some i \<longrightarrow> \<not> rt_closed s \<and> i \<in> set (rt_loops s))"

definition rt_inv :: "rt_config \<Rightarrow> round_tripper \<Rightarrow> bool" where
  "rt_inv x s \<longleftrightarrow> table_ok s \<and> (\<forall>r. trip_ok x s r)"

lemma set_without_key [simp]: "set (without_key c ps) = {p \<in> set ps. fst p \<noteq> c}"
  by (auto simp: without_key_def)

lemma distinct_without_key [simp]:
  "distinct (map fst ps) \<Longrightarrow> distinct (map fst (without_key c ps))"
  "distinct (map snd ps) \<Longrightarrow> distinct (map snd (without_key c ps))"
  by (simp_all add: without_key_def distinct_map_filter)

lemma without_fresh_key: "c \<notin> fst ` set ps \<Longrightarrow> without_key c ps = ps"
  by (induction ps) (auto simp: without_key_def)

lemma set_trip_simps [simp]:
  "rt_closed (set_trip r t s) = rt_closed s" "rt_subscription (set_trip r t s) = rt_subscription s"
  "rt_loops (set_trip r t s) = rt_loops s" "rt_subscribed (set_trip r t s) = rt_subscribed s"
  "rt_pending (set_trip r t s) = rt_pending s" "rt_results (set_trip r t s) = rt_results s"
  "length (rt_trips (set_trip r t s)) = length (rt_trips s)"
  "r < length (rt_trips s) \<Longrightarrow> rt_trips (set_trip r t s) ! r' = (if r' = r then t else rt_trips s ! r')"
  by (auto simp: set_trip_def nth_list_update)

lemma table_ok_trips [simp]: "table_ok (set_trip r t s) = table_ok s"
  by (simp add: table_ok_def)

lemma trip_ok_other:
  "r < length (rt_trips s) \<Longrightarrow> r' \<noteq> r \<Longrightarrow> trip_ok x (set_trip r t s) r' = trip_ok x s r'"
  by (simp add: trip_ok_def)

lemma rt_inv_set_trip:
  assumes "rt_inv x s" and "r < length (rt_trips s)" and "trip_ok x (set_trip r t s) r"
  shows "rt_inv x (set_trip r t s)"
  using assms trip_ok_other [OF assms(2)] unfolding rt_inv_def by (metis table_ok_trips)

lemma rt_invD: "rt_inv x s \<Longrightarrow> table_ok s" "rt_inv x s \<Longrightarrow> trip_ok x s r"
  by (simp_all add: rt_inv_def)

lemma trip_ok_cong:
  "rt_trips s' = rt_trips s \<Longrightarrow> rt_pending s' = rt_pending s \<Longrightarrow> rt_results s' = rt_results s \<Longrightarrow>
     trip_ok x s' r = trip_ok x s r"
  by (simp add: trip_ok_def)

lemma ensure_subscription_same:
  assumes "ensure_subscription x made s = (res, s')"
  shows "rt_trips s' = rt_trips s" "rt_pending s' = rt_pending s" "rt_results s' = rt_results s" "rt_closed s' = rt_closed s"
  using assms by (auto simp: ensure_subscription_def Let_def split: if_splits option.splits sum.splits bool.splits)

lemma ensure_subscription_inv:
  assumes "rt_inv x s" and "ensure_subscription x made s = (res, s')"
  shows "rt_inv x s'"
proof -
  have "table_ok s'"
    using rt_invD(1) [OF assms(1)] assms(2)
    by (auto simp: ensure_subscription_def Let_def table_ok_def split: if_splits option.splits sum.splits bool.splits)
  then show ?thesis
    using rt_invD(2) [OF assms(1)] trip_ok_cong [OF ensure_subscription_same(1-3) [OF assms(2)]] by (simp add: rt_inv_def)
qed

lemma unregister_inv:
  assumes "rt_inv x s" and "r < length (rt_trips s)" and "trip_key (rt_trips s ! r) = Some c"
  shows "rt_inv x (set_trip r TripReturned (unregister_trip c r s))"
proof -
  note ok = rt_invD [OF assms(1)]
  have mine: "(c', r) \<in> set (rt_pending s) \<Longrightarrow> c' = c \<and> map_of (rt_pending s) c = Some r" for c'
    using ok(2) [of r] ok(1) assms(2,3) by (auto simp: trip_ok_def table_ok_def)
  have table: "table_ok (unregister_trip c r s)"
    using ok(1) by (auto simp: table_ok_def unregister_trip_def)
  have "trip_ok x (set_trip r TripReturned (unregister_trip c r s)) r'" for r'
  proof (cases "r' = r")
    case True
    then show ?thesis
      using ok(2) [of r] assms(2,3) mine by (auto simp: trip_ok_def unregister_trip_def)
  next
    case False
    have "(c, r') \<notin> set (rt_pending s)" if "map_of (rt_pending s) c = Some r"
      using False ok(1) that by (auto simp: table_ok_def dest: eq_key_imp_eq_value)
    then have pend: "(c', r') \<in> set (rt_pending (unregister_trip c r s)) \<longleftrightarrow> (c', r') \<in> set (rt_pending s)" for c'
      by (auto simp: unregister_trip_def)
    have same: "rt_results (unregister_trip c r s) = rt_results s" "rt_trips (unregister_trip c r s) = rt_trips s"
      by (simp_all add: unregister_trip_def)
    have "trip_ok x (unregister_trip c r s) r'"
      using ok(2) [of r'] unfolding trip_ok_def pend same .
    then show ?thesis using False assms(2) same by (simp add: trip_ok_other)
  qed
  then show ?thesis using table by (simp add: rt_inv_def)
qed

lemma trip_step_inv:
  assumes "trip_step x r s s'" and "rt_inv x s"
  shows "rt_inv x s'"
  using assms(1)
proof cases
  case (subscribe made sub s1)
  note inv = ensure_subscription_inv [OF assms(2) subscribe(4)] and same = ensure_subscription_same [OF subscribe(4)]
  show ?thesis unfolding subscribe(1)
    using inv subscribe(2,3) same rt_invD(2) [OF inv, of r]
    by (intro rt_inv_set_trip) (auto simp: trip_ok_def)
next
  case (no_subscription made e s1)
  note inv = ensure_subscription_inv [OF assms(2) no_subscription(4)] and same = ensure_subscription_same [OF no_subscription(4)]
  show ?thesis unfolding no_subscription(1)
    using inv no_subscription(2,3) same rt_invD(2) [OF inv, of r]
    by (intro rt_inv_set_trip) (auto simp: trip_ok_def)
next
  case (register sub c s1)
  note ok = rt_invD [OF assms(2)]
  have s1: "s1 = s\<lparr>rt_pending := (c, r) # rt_pending s\<rparr>" "rt_subscription s = Some sub"
    using register(6) without_fresh_key [OF register(4)] by (auto simp: register_trip_def Let_def split: if_splits)
  have notin: "(c', r) \<notin> set (rt_pending s)" for c'
    using ok(2) [of r] register(3) by (auto simp: trip_ok_def)
  have nores: "r \<notin> fst ` set (rt_results s)"
    using ok(2) [of r] register(3) by (auto simp: trip_ok_def)
  have "table_ok s1"
    using ok(1) register(4) notin by (auto simp: table_ok_def s1)
  moreover have "trip_ok x (set_trip r (TripRegistered c) s1) r'" for r'
  proof (cases "r' = r")
    case True
    then show ?thesis using register(2) notin nores by (force simp: trip_ok_def s1)
  next
    case False
    then show ?thesis using ok(2) [of r'] register(2) by (simp add: trip_ok_def s1)
  qed
  ultimately show ?thesis unfolding register(1) by (simp add: rt_inv_def)
next
  case (not_registered sub c e s1)
  have s1: "s1 = s" using not_registered(4) by (auto simp: register_trip_def Let_def split: if_splits)
  show ?thesis unfolding not_registered(1) s1
    using not_registered(2,3) rt_invD(2) [OF assms(2), of r]
    by (intro rt_inv_set_trip assms(2)) (auto simp: trip_ok_def)
next
  case (no_identifier sub)
  show ?thesis unfolding no_identifier(1)
    using no_identifier(2,3) rt_invD(2) [OF assms(2), of r]
    by (intro rt_inv_set_trip assms(2)) (auto simp: trip_ok_def)
next
  case (publish c chunks out payload)
  show ?thesis unfolding publish(1)
    using publish(2,3) rt_invD(2) [OF assms(2), of r]
    by (intro rt_inv_set_trip assms(2)) (auto simp: trip_ok_def)
next
  case (not_published c chunks out e)
  then show ?thesis using unregister_inv [OF assms(2)] by simp
next
  case (response c res)
  then have "r \<in> fst ` set (rt_results s)" by force
  then show ?thesis unfolding response(1)
    using response(2,3) rt_invD(2) [OF assms(2), of r]
    by (intro rt_inv_set_trip assms(2)) (auto simp: trip_ok_def)
next
  case (ctx_done c)
  then show ?thesis using unregister_inv [OF assms(2)] by simp
qed

lemma fail_pending_ok:
  assumes "rt_inv x s"
  shows "table_ok (fail_pending e s)" and "trip_ok x (fail_pending e s) r"
proof -
  note ok = rt_invD [OF assms]
  have res: "fst ` set (rt_results (fail_pending e s)) = fst ` set (rt_results s) \<union> snd ` set (rt_pending s)"
    by (force simp: fail_pending_def)
  have fresh: "snd ` set (rt_pending s) \<inter> fst ` set (rt_results s) = {}"
  proof -
    have "r' \<in> snd ` set (rt_pending s) \<Longrightarrow> r' \<notin> fst ` set (rt_results s)" for r'
      using ok(2) [of r'] unfolding trip_ok_def by force
    then show ?thesis by blast
  qed
  have "map fst (rt_results (fail_pending e s)) = map fst (rt_results s) @ map snd (rt_pending s)"
    by (auto simp: fail_pending_def)
  then have "distinct (map fst (rt_results (fail_pending e s)))"
    using ok(1) fresh by (auto simp: table_ok_def)
  then show "table_ok (fail_pending e s)" by (simp add: table_ok_def fail_pending_def)
  have pend: "c \<in> fst ` {p \<in> set (rt_pending s). snd p = r} \<Longrightarrow> r < length (rt_trips s) \<and> trip_key (rt_trips s ! r) = Some c" for c
    using ok(2) [of r] by (force simp: trip_ok_def)
  have new: "(r, Inr m) \<in> set (rt_results (fail_pending e s)) \<longleftrightarrow> (r, Inr m) \<in> set (rt_results s)" for m
    by (auto simp: fail_pending_def)
  have same: "rt_trips (fail_pending e s) = rt_trips s" "rt_pending (fail_pending e s) = []" by (simp_all add: fail_pending_def)
  have early: "r \<in> snd ` set (rt_pending s) \<Longrightarrow> r < length (rt_trips s) \<and> \<not> early (rt_trips s ! r)"
    using pend by (force simp: early_def split: trip.splits)
  have key: "(c, r) \<in> set (rt_pending s) \<Longrightarrow> r \<in> snd ` set (rt_pending s)" for c by force
  have t: "r \<in> fst ` set (rt_results s) \<Longrightarrow> r < length (rt_trips s) \<and> \<not> early (rt_trips s ! r)"
    "r < length (rt_trips s) \<Longrightarrow> trip_key (rt_trips s ! r) = Some c \<Longrightarrow> (c, r) \<in> set (rt_pending s) \<or> r \<in> fst ` set (rt_results s)"
    "(r, Inr m) \<in> set (rt_results s) \<Longrightarrow> answer_ok x m \<and> (\<forall>c. trip_key (rt_trips s ! r) = Some c \<longrightarrow> mq_correlation m = c)" for c m
    using ok(2) [of r] unfolding trip_ok_def by blast+
  have b: "r \<in> fst ` set (rt_results s) \<union> snd ` set (rt_pending s) \<longrightarrow> r < length (rt_trips s) \<and> \<not> early (rt_trips s ! r)"
    using early t(1) by blast
  have c: "\<forall>c. r < length (rt_trips s) \<longrightarrow> trip_key (rt_trips s ! r) = Some c \<longrightarrow>
      (c, r) \<in> set [] \<or> r \<in> fst ` set (rt_results s) \<union> snd ` set (rt_pending s)"
    using t(2) key by blast
  have d: "\<forall>m. (r, Inr m) \<in> set (rt_results s) \<longrightarrow>
      answer_ok x m \<and> (\<forall>c. trip_key (rt_trips s ! r) = Some c \<longrightarrow> mq_correlation m = c)"
    using t(3) by blast
  show "trip_ok x (fail_pending e s) r"
    unfolding trip_ok_def res new same by (intro conjI b c d) simp
qed

lemma fail_pending_inv: "rt_inv x s \<Longrightarrow> rt_inv x (fail_pending e s)"
  using fail_pending_ok unfolding rt_inv_def by blast

lemma receive_http_inv:
  assumes "rt_inv x s"
  shows "rt_inv x (receive_http x m s)"
proof (cases "mq_topic m \<noteq> rx_response_topic x \<or> mq_correlation m = [] \<or> map_of (rt_pending s) (mq_correlation m) = None")
  case True
  then have "receive_http x m s = s" by (auto simp: receive_http_def)
  then show ?thesis using assms by simp
next
  case False
  then obtain r where r: "mq_topic m = rx_response_topic x" "map_of (rt_pending s) (mq_correlation m) = Some r"
    "mq_correlation m \<noteq> []" by auto
  note ok = rt_invD [OF assms]
  let ?s = "receive_http x m s" and ?c = "mq_correlation m"
  define res :: http_result where "res =
      (if rx_max x < int (length (mq_payload m))
       then Inl \<lparr>rme_operation = ''receive HTTP'', rme_route = rx_response_topic x, rme_terminal = False, rme_cause = RErrMessageTooLarge\<rparr>
       else Inr m)"
  have s': "?s = s\<lparr>rt_pending := without_key ?c (rt_pending s), rt_results := rt_results s @ [(r, res)]\<rparr>"
    using r by (simp add: receive_http_def res_def)
  have res: "\<And>m'. res = Inr m' \<Longrightarrow> m' = m \<and> answer_ok x m"
    using r by (auto simp: res_def answer_ok_def split: if_splits)
  have mem: "(?c, r) \<in> set (rt_pending s)" using r(2) by (rule map_of_SomeD)
  have here: "r < length (rt_trips s)" "trip_key (rt_trips s ! r) = Some ?c" "r \<notin> fst ` set (rt_results s)"
    using ok(2) [of r] mem by (auto simp: trip_ok_def)
  have only: "(c, r) \<in> set (rt_pending s) \<Longrightarrow> c = ?c" for c
    using ok(2) [of r] here(2) by (auto simp: trip_ok_def)
  have keyed: "(?c, r') \<in> set (rt_pending s) \<Longrightarrow> r' = r" for r'
    using ok(1) mem by (auto simp: table_ok_def dest: eq_key_imp_eq_value)
  have "table_ok ?s" using ok(1) here(3) mem by (auto simp: table_ok_def s')
  moreover have "trip_ok x ?s r'" for r'
  proof (cases "r' = r")
    case True
    have "\<not> early (rt_trips s ! r)" using here(2) by (auto simp: early_def split: trip.splits)
    moreover have "(c, r) \<notin> set (rt_pending ?s)" for c using only by (auto simp: s')
    moreover have "r \<in> fst ` set (rt_results ?s)" by (simp add: s')
    moreover have "answer_ok x m' \<and> (\<forall>c. trip_key (rt_trips s ! r) = Some c \<longrightarrow> mq_correlation m' = c)"
      if "(r, Inr m') \<in> set (rt_results ?s)" for m'
    proof -
      have "(r, Inr m') \<notin> set (rt_results s)" using here(3) by force
      then show ?thesis using that res here(2) by (auto simp: s')
    qed
    moreover have t: "rt_trips ?s = rt_trips s" by (simp add: s')
    ultimately show ?thesis using here(1) unfolding True trip_ok_def t by blast
  next
    case False
    have pend: "(c', r') \<in> set (rt_pending ?s) \<longleftrightarrow> (c', r') \<in> set (rt_pending s)" for c'
      using False keyed by (auto simp: s')
    have r1: "r' \<in> fst ` set (rt_results ?s) \<longleftrightarrow> r' \<in> fst ` set (rt_results s)"
      and r2: "(r', Inr m') \<in> set (rt_results ?s) \<longleftrightarrow> (r', Inr m') \<in> set (rt_results s)" for m'
      using False by (auto simp: s')
    have t: "rt_trips ?s = rt_trips s" by (simp add: s')
    show ?thesis using ok(2) [of r'] unfolding trip_ok_def pend r1 r2 t .
  qed
  ultimately show ?thesis by (simp add: rt_inv_def)
qed

lemma rt_inv_same_trips:
  assumes "rt_inv x s" and "table_ok s'" and "rt_trips s' = rt_trips s" "rt_pending s' = rt_pending s" "rt_results s' = rt_results s"
  shows "rt_inv x s'"
  using assms trip_ok_cong [OF assms(3-5)] by (simp add: rt_inv_def)

lemma subscription_failed_inv:
  assumes "rt_inv x s"
  shows "rt_inv x (subscription_failed x i canceled e s)"
proof (cases "rt_subscription s = Some i")
  case True
  define err where "err = \<lparr>rme_operation = ''receive HTTP'', rme_route = rx_response_topic x, rme_terminal = rt_closed s,
      rme_cause = (if rt_closed s \<and> canceled then RErrClosed else RErrOther e)\<rparr>"
  have e: "subscription_failed x i canceled e s = (fail_pending err s)\<lparr>rt_loops := removeAll i (rt_loops s)\<rparr>"
    using True by (simp add: subscription_failed_def fail_pending_def err_def Let_def)
  have "table_ok ((fail_pending err s)\<lparr>rt_loops := removeAll i (rt_loops s)\<rparr>)"
    using fail_pending_ok(1) [OF assms, of err] by (simp add: table_ok_def fail_pending_def)
  then show ?thesis unfolding e
    by (rule rt_inv_same_trips [OF fail_pending_inv [OF assms, of err]]) simp_all
next
  case False
  then have e: "subscription_failed x i canceled e s = s\<lparr>rt_loops := removeAll i (rt_loops s)\<rparr>"
    by (simp add: subscription_failed_def Let_def)
  have "table_ok (s\<lparr>rt_loops := removeAll i (rt_loops s)\<rparr>)"
    using rt_invD(1) [OF assms] False by (auto simp: table_ok_def)
  then show ?thesis unfolding e by (rule rt_inv_same_trips [OF assms]) simp_all
qed

lemma close_http_inv:
  assumes "rt_inv x s"
  shows "rt_inv x (close_http x s)"
proof -
  define err where "err = \<lparr>rme_operation = ''close HTTP'', rme_route = rx_response_topic x, rme_terminal = True,
      rme_cause = RErrClosed\<rparr>"
  have e: "close_http x s = (fail_pending err s)\<lparr>rt_closed := True\<rparr>"
    by (simp add: close_http_def fail_pending_def err_def)
  have "table_ok ((fail_pending err s)\<lparr>rt_closed := True\<rparr>)"
    using fail_pending_ok(1) [OF assms, of err] by (simp add: table_ok_def fail_pending_def)
  then show ?thesis unfolding e
    by (rule rt_inv_same_trips [OF fail_pending_inv [OF assms, of err]]) simp_all
qed

lemma begin_round_trip_inv:
  assumes "rt_inv x s"
  shows "rt_inv x (snd (begin_round_trip x s))"
proof -
  have "trip_ok x (s\<lparr>rt_trips := rt_trips s @ [TripBegun]\<rparr>) r" for r
    using rt_invD(2) [OF assms, of r] image_eqI [of r fst "(r, v)" "set (rt_results s)" for v]
    by (cases "r < length (rt_trips s)"; cases "r = length (rt_trips s)") (auto simp: trip_ok_def nth_append)
  then show ?thesis using assms by (auto simp: begin_round_trip_def rt_inv_def table_ok_def)
qed

lemma outer_step_inv: "outer_step x s s' \<Longrightarrow> rt_inv x s \<Longrightarrow> rt_inv x s'"
  by (erule outer_stepE) (simp_all add: begin_round_trip_inv receive_http_inv subscription_failed_inv close_http_inv)

lemma rt_reach_inv: "rt_reach x s \<Longrightarrow> rt_inv x s"
proof (induction rule: rt_reach.induct)
  case (init x)
  show ?case by (simp add: rt_inv_def table_ok_def trip_ok_def new_round_tripper_def)
next
  case (trip x s r s')
  then show ?case using trip_step_inv by blast
next
  case (outer x s s')
  then show ?case using outer_step_inv by blast
qed

lemma publish_trip_ok:
  assumes "publish_trip x chunks out s = Inr payload" and "0 \<le> rx_max x"
  shows "\<not> rt_closed s \<and> (\<exists>ds. chunks = Some ds \<and> payload = concat ds \<and> int (length payload) \<le> rx_max x)"
  using assms by (auto simp: publish_trip_def Let_def write_chunks_from split: option.splits if_splits bool.splits)

section \<open>Properties\<close>

text \<open>
  C18: however round trips, receive loops, failing subscriptions and \<open>Close\<close> interleave: no result
  channel is sent to twice, so no send blocks; a round trip that waits has its result or is in the
  table of pending ones while the response subscription is open and its receive loop runs, so none is
  forgotten; and a message handed to a round trip came on the response topic within the size limit and
  has the correlation of that round trip.
\<close>

theorem http_pending_spec:
  assumes "rt_reach x s"
  shows "distinct (map fst (rt_results s))
    \<and> (\<forall>r c. r < length (rt_trips s) \<and> rt_trips s ! r \<in> {TripRegistered c, TripWaiting c} \<longrightarrow>
         (\<exists>res. (r, res) \<in> set (rt_results s))
         \<or> (c, r) \<in> set (rt_pending s) \<and> \<not> rt_closed s \<and> (\<exists>i. rt_subscription s = Some i \<and> i \<in> set (rt_loops s)))
    \<and> (\<forall>r c m. (r, Inr m) \<in> set (rt_results s) \<and> rt_trips s ! r \<in> {TripRegistered c, TripWaiting c} \<longrightarrow>
         mq_correlation m = c \<and> mq_topic m = rx_response_topic x \<and> int (length (mq_payload m)) \<le> rx_max x)"
proof (intro conjI allI impI)
  note inv = rt_reach_inv [OF assms]
  show "distinct (map fst (rt_results s))" using rt_invD(1) [OF inv] by (simp add: table_ok_def)
  {
    fix r c
    assume "r < length (rt_trips s) \<and> rt_trips s ! r \<in> {TripRegistered c, TripWaiting c}"
    then have r: "r < length (rt_trips s)" "trip_key (rt_trips s ! r) = Some c" by auto
    have "r \<in> fst ` set (rt_results s) \<Longrightarrow> \<exists>res. (r, res) \<in> set (rt_results s)" by force
    moreover have "(c, r) \<in> set (rt_pending s) \<Longrightarrow> \<exists>i. rt_subscription s = Some i \<and> \<not> rt_closed s \<and> i \<in> set (rt_loops s)"
      using rt_invD(1) [OF inv] by (cases "rt_pending s") (auto simp: table_ok_def)
    moreover have "(c, r) \<in> set (rt_pending s) \<or> r \<in> fst ` set (rt_results s)"
      using rt_invD(2) [OF inv, of r] r unfolding trip_ok_def by blast
    ultimately show "(\<exists>res. (r, res) \<in> set (rt_results s))
         \<or> (c, r) \<in> set (rt_pending s) \<and> \<not> rt_closed s \<and> (\<exists>i. rt_subscription s = Some i \<and> i \<in> set (rt_loops s))"
      by blast
  }
  fix r c m
  assume m: "(r, Inr m) \<in> set (rt_results s) \<and> rt_trips s ! r \<in> {TripRegistered c, TripWaiting c}"
  then have "trip_key (rt_trips s ! r) = Some c" by auto
  then show "mq_correlation m = c" "mq_topic m = rx_response_topic x" "int (length (mq_payload m)) \<le> rx_max x"
    using rt_invD(2) [OF inv, of r] m unfolding trip_ok_def answer_ok_def by blast+
qed

definition sample_rt :: rt_config where
  "sample_rt = \<lparr>rx_request_topic = ''q'', rx_response_topic = ''a'', rx_max = 10\<rparr>"

text \<open>One round trip, registered under \<open>''c''\<close>.\<close>

definition sample_registered :: round_tripper where
  "sample_registered =
     \<lparr>rt_closed = False, rt_subscription = Some 0, rt_loops = [0], rt_subscribed = 1, rt_pending = [(''c'', 0)],
      rt_results = [], rt_trips = [TripRegistered ''c'']\<rparr>"

lemma sample_registered_reach: "rt_reach sample_rt sample_registered"
proof -
  let ?s1 = "new_round_tripper\<lparr>rt_trips := [TripBegun]\<rparr>"
  let ?s2 = "?s1\<lparr>rt_subscription := Some 0, rt_loops := [0], rt_subscribed := 1\<rparr>"
  let ?s3 = "?s2\<lparr>rt_trips := [TripSubscribed 0]\<rparr>"
  have "rt_reach sample_rt ?s1"
    using rt_reach.outer [OF rt_reach.init outer_step.start [of sample_rt new_round_tripper]]
    by (simp add: begin_round_trip_def new_round_tripper_def)
  moreover have "trip_step sample_rt 0 ?s1 (set_trip 0 (TripSubscribed 0) ?s2)"
    by (rule trip_step.subscribe [where made = "Inr True"]) (simp_all add: ensure_subscription_def new_round_tripper_def Let_def)
  ultimately have "rt_reach sample_rt ?s3"
    using rt_reach.trip by (fastforce simp: set_trip_def)
  moreover have "trip_step sample_rt 0 ?s3 (set_trip 0 (TripRegistered ''c'') (?s3\<lparr>rt_pending := [(''c'', 0)]\<rparr>))"
    by (rule trip_step.register [where sub = 0 and c = "''c''"])
      (simp_all add: register_trip_def new_round_tripper_def without_key_def Let_def)
  ultimately have "rt_reach sample_rt (set_trip 0 (TripRegistered ''c'') (?s3\<lparr>rt_pending := [(''c'', 0)]\<rparr>))"
    using rt_reach.trip by blast
  then show ?thesis by (simp add: sample_registered_def set_trip_def new_round_tripper_def)
qed

theorem http_pending_spec_witness:
  "(''c'', 0) \<in> set (rt_pending sample_registered) \<and> rt_subscription sample_registered = Some 0
   \<and> distinct (map fst (rt_results sample_registered))"
  using http_pending_spec [OF sample_registered_reach] by (simp add: sample_registered_def)

text \<open>
  C19: after \<open>Close\<close> no round trip begins, and every unfinished one can take its next step and returns
  with it, whatever that step is: the one that waits has its result, all others meet the closed state.
  So the wait of \<open>Close\<close> for the round trips under way ends.
\<close>

theorem http_close_returns:
  assumes "rt_reach x s" and "rt_closed s" and "r < length (rt_trips s)" and "rt_trips s ! r \<noteq> TripReturned"
  shows "\<not> is_ok (fst (begin_round_trip x s))
    \<and> (\<exists>s'. trip_step x r s s')
    \<and> (\<forall>s'. trip_step x r s s' \<longrightarrow> rt_trips s' ! r = TripReturned \<and> rt_closed s')
    \<and> (\<forall>c. rt_trips s ! r = TripWaiting c \<longrightarrow> (\<exists>res. (r, res) \<in> set (rt_results s)))"
proof (intro conjI allI impI)
  note inv = rt_reach_inv [OF assms(1)]
  show "\<not> is_ok (fst (begin_round_trip x s))" using assms(2) by (simp add: begin_round_trip_def)
  have unpub: "publish_trip x chunks out s \<noteq> Inr payload" for chunks out payload
    using assms(2) by (auto simp: publish_trip_def Let_def split: option.splits prod.splits bool.splits)
  have unreg: "register_trip x c sub r s = (res, s') \<Longrightarrow> \<not> is_ok res \<and> s' = s" for c sub res s'
    using assms(2) by (auto simp: register_trip_def Let_def)
  have unsub: "ensure_subscription x made s = (res, s') \<Longrightarrow> \<not> is_ok res \<and> s' = s" for made res s'
    using assms(2) by (auto simp: ensure_subscription_def Let_def)
  show result: "\<exists>res. (r, res) \<in> set (rt_results s)" if "rt_trips s ! r = TripWaiting c" for c
  proof -
    have "rt_pending s = []" using rt_invD(1) [OF inv] assms(2) by (auto simp: table_ok_def)
    then have "r \<in> fst ` set (rt_results s)"
      using rt_invD(2) [OF inv, of r] assms(3) that unfolding trip_ok_def by fastforce
    then show ?thesis by force
  qed
  show "rt_trips s' ! r = TripReturned" "rt_closed s'" if "trip_step x r s s'" for s'
    using that assms(2,3) unpub unreg unsub
    by (auto elim!: trip_stepE simp: unregister_trip_def is_ok_iff dest!: unreg unsub)
  show "\<exists>s'. trip_step x r s s'"
  proof (cases "rt_trips s ! r")
    case TripBegun
    then show ?thesis using trip_step.no_subscription [OF assms(3)] unsub
      by (metis is_ok_def old.sum.exhaust sum.simps(6) surj_pair)
  next
    case (TripSubscribed sub)
    then show ?thesis using trip_step.no_identifier [OF assms(3)] by blast
  next
    case (TripRegistered c)
    then show ?thesis using trip_step.not_published [OF assms(3)] unpub by (metis old.sum.exhaust)
  next
    case (TripWaiting c)
    then show ?thesis using trip_step.ctx_done [OF assms(3)] by blast
  next
    case TripReturned
    then show ?thesis using assms(4) by simp
  qed
qed

theorem http_close_returns_witness:
  "\<exists>s'. trip_step sample_rt 0 (close_http sample_rt sample_registered) s' \<and> rt_trips s' ! 0 = TripReturned"
proof -
  have "rt_reach sample_rt (close_http sample_rt sample_registered)"
    by (rule rt_reach.outer [OF sample_registered_reach outer_step.close])
  moreover have "rt_closed (close_http sample_rt sample_registered)"
    "rt_trips (close_http sample_rt sample_registered) = [TripRegistered ''c'']"
    by (simp_all add: close_http_def fail_pending_def sample_registered_def)
  ultimately show ?thesis using http_close_returns [of sample_rt "close_http sample_rt sample_registered" 0] by auto
qed

end
