(* ===== verification/RemoteStream.thy ===== *)
theory RemoteStream
  imports StatusStream RemoteHttp
begin

text \<open>
  \<open>remote/stream.go\<close>: the status stream over MQTT, with its lease, its subscriptions and the stop
  message. As in the local stream the transport, the clock and the context are arguments; what the
  stream does to the transport is kept as a trace.
\<close>

section \<open>State\<close>

text \<open>\<open>errors.Join\<close> drops nil errors and is nil when all are.\<close>

datatype rs_error = RsStream stream_error | RsCtx | RsJoin "rs_error list"

definition go_join :: "rs_error option list \<Rightarrow> rs_error option" where
  "go_join errs = (case non_nil errs of [] \<Rightarrow> None | es \<Rightarrow> Some (RsJoin es))"

datatype transport_event = TeSubscribe nat | TeStart u32 | TeClose nat | TeStop

record 'p remote_stream =
  rm_state :: "(rs_error, 'p message) stream_state"
  rm_activated :: bool
  rm_stop_err :: "rs_error option"
  rm_close_err :: "rs_error option"
  rm_released :: bool
  rm_next :: nat \<comment> \<open>subscriptions made so far\<close>
  rm_trace :: "transport_event list"

record remote_stream_config =
  rk_request_topic :: string
  rk_response_topic :: string
  rk_lease :: duration
  rk_payload :: string
  rk_max :: int
  rk_options :: stream_options

definition remoteMessageBuffer :: nat where "remoteMessageBuffer = 64"

text \<open>
  \<open>newStatusStream\<close>; \<open>json_float\<close> writes the float64 of \<open>Interval.Seconds()\<close> as JSON (it can fail on
  no value a duration has, but the code checks).
\<close>

definition start_payload :: "(duration \<Rightarrow> string) \<Rightarrow> message_limit \<Rightarrow> string" where
  "start_payload json_float l =
     (if ml_count l \<noteq> 0
      then ''{\"message_limits\":{\"max_count\":'' @ format_nat (ml_count l) @ '',\"interval_s\":'' @ json_float (ml_interval l) @ ''}}''
      else ''{}'')"

definition new_remote_stream ::
  "(duration \<Rightarrow> string) \<Rightarrow> remote_config \<Rightarrow> stream_option option list \<Rightarrow> string + remote_stream_config \<times> 'p remote_stream"
where
  "new_remote_stream json_float c ops =
     rbind (resolve_stream_options ops) (\<lambda>resolved.
       Inr (\<lparr>rk_request_topic = ''sessions/'' @ rc_session_id c @ ''/down/v1/stream-request'',
             rk_response_topic = ''sessions/'' @ rc_session_id c @ ''/up/v1/stream-response/'' @ rc_client_id c,
             rk_lease = rc_lease c, rk_payload = start_payload json_float (rc_limit c), rk_max = rc_max_message c,
             rk_options = resolved\<rparr>,
            \<lparr>rm_state = new_state remoteMessageBuffer, rm_activated = False, rm_stop_err = None, rm_close_err = None,
             rm_released = False, rm_next = 0, rm_trace = []\<rparr>))"

definition log_event :: "transport_event \<Rightarrow> 'p remote_stream \<Rightarrow> 'p remote_stream" where
  "log_event e s = s\<lparr>rm_trace := rm_trace s @ [e]\<rparr>"

definition change_status :: "(rs_error status \<Rightarrow> rs_error status) \<Rightarrow> 'p remote_stream \<Rightarrow> 'p remote_stream" where
  "change_status f s = s\<lparr>rm_state := set_status f (rm_state s)\<rparr>"

definition stream_transport_error :: "string \<Rightarrow> string \<Rightarrow> nat \<Rightarrow> string \<Rightarrow> stream_error" where
  "stream_transport_error operation path att err = mk_stream_error operation path att 0 0 False (CauseText err)"

text \<open>\<open>publishStart\<close> sends the lease as the expiry of the message, a \<open>uint32\<close> of seconds.\<close>

definition lease_expiry :: "duration \<Rightarrow> u32" where
  "lease_expiry lease = of_int (lease div second)"

section \<open>Connecting\<close>

text \<open>
  One attempt: what \<open>Subscribe\<close> gives (an error, nil, or a subscription), what publishing the start
  message gives, what closing the subscription after a failure gives, and the context.
\<close>

record remote_attempt =
  ra_subscribe :: "string + bool"
  ra_publish :: "string option"
  ra_close :: "string option"
  ra_ctx_done :: bool
  ra_wait_cancelled :: bool
  ra_now :: int

definition join_text :: "string \<Rightarrow> string option \<Rightarrow> string" where
  "join_text e close = (case close of None \<Rightarrow> e | Some c \<Rightarrow> e @ [CHR 0x0A] @ c)"

text \<open>The attempt itself: the subscription, or the error after what was opened is closed again.\<close>

definition connect_attempt ::
  "remote_stream_config \<Rightarrow> remote_attempt \<Rightarrow> 'p remote_stream \<Rightarrow> (string + nat) \<times> 'p remote_stream"
where
  "connect_attempt k env s =
     (case ra_subscribe env of
        Inl e \<Rightarrow> (Inl e, s)
      | Inr False \<Rightarrow> (Inl ''transport returned a nil subscription'', s)
      | Inr True \<Rightarrow>
          (let i = rm_next s;
               s = log_event (TeStart (lease_expiry (rk_lease k))) (log_event (TeSubscribe i) (s\<lparr>rm_next := Suc i\<rparr>))
           in case ra_publish env of
                None \<Rightarrow> (Inr i, s)
              | Some e \<Rightarrow> (Inl (join_text e (ra_close env)), log_event (TeClose i) s)))"

definition remote_connected :: "int \<Rightarrow> rs_error status \<Rightarrow> rs_error status" where
  "remote_connected now st =
     st\<lparr>lifecycle := LifecycleConnected, access := AccessAccepted,
        data_state := (if last_state_at st = None then DataWaiting else DataStale),
        connected_at := Some now, last_error := None\<rparr>"

function remote_connect ::
  "remote_stream_config \<Rightarrow> lifecycle \<Rightarrow> (nat \<Rightarrow> remote_attempt) \<Rightarrow> nat \<Rightarrow> stream_error option
    \<Rightarrow> 'p remote_stream \<Rightarrow> (stream_error option + nat) \<times> 'p remote_stream"
where
  "remote_connect k lc envs att lastErr s =
     (if int att > max_attempts (rk_options k) then (Inl lastErr, s)
      else
        let env = envs att;
            s1 = change_status (\<lambda>st. st\<lparr>lifecycle := lc, attempt := att, access := AccessUnknown\<rparr>) s
        in case connect_attempt k env s1 of
             (Inr i, s2) \<Rightarrow> (Inr i, change_status (remote_connected (ra_now env)) s2)
           | (Inl e, s2) \<Rightarrow>
               let f = stream_transport_error ''connect'' (rk_request_topic k) att e;
                   terminal = (int att = max_attempts (rk_options k));
                   f = (if terminal then f\<lparr>sx_terminal := True\<rparr> else f);
                   s3 = change_status (\<lambda>st. st\<lparr>last_error := Some (RsStream f)\<rparr>) s2
               in if ra_ctx_done env \<or> terminal then (Inl (Some f), s3)
                  else if reconnect_delay (rk_options k) \<noteq> 0 \<and> ra_wait_cancelled env
                  then (Inl (Some (mk_stream_error ''reconnect'' (rk_request_topic k) att 0 0 False CauseCtx)), s3)
                  else remote_connect k lc envs (Suc att) (Some f) s3)"
  by pat_completeness auto
termination
  by (relation "measure (\<lambda>(k, lc, envs, att, l, s). nat (max_attempts (rk_options k) + 1 - int att))") auto

declare remote_connect.simps [simp del]

section \<open>Reading\<close>

text \<open>
  What the select of \<open>readSubscription\<close> meets: the context, the renewal timer (with the result of
  publishing), the staleness ticker, the consumer taking a message, and what the receiver got (with
  the state of the context and the choice of the select on delivery).
\<close>

datatype rv_event =
    RvCtx
  | RvRenew "string option"
  | RvTick int
  | RvTake
  | RvFailed string
  | RvMessage string bytes int bool bool \<comment> \<open>topic, payload, time\<close>

record remote_result =
  rz_err :: rs_error
  rz_terminal :: bool

definition mark_stale :: "duration \<Rightarrow> int \<Rightarrow> rs_error status \<Rightarrow> rs_error status" where
  "mark_stale limit now st =
     (if lifecycle st \<noteq> LifecycleConnected \<or> data_state st = DataStale then st
      else case (case last_state_at st of None \<Rightarrow> connected_at st | Some t \<Rightarrow> Some t) of
             None \<Rightarrow> st
           | Some reference \<Rightarrow> if now - reference \<ge> limit then st\<lparr>data_state := DataStale\<rparr> else st)"

definition remote_deliver ::
  "'p message \<Rightarrow> bool \<Rightarrow> bool \<Rightarrow> 'p remote_stream \<Rightarrow> (rs_error deliver_result \<times> 'p remote_stream) option"
where
  "remote_deliver m ctx_done prefer s =
     (let s = (if sm_state m \<noteq> None \<and> sm_decode_error m = None
               then change_status (\<lambda>st. st\<lparr>data_state := DataFresh, last_state_at := Some (sm_received m)\<rparr>) s
               else s)
      in map_option (\<lambda>(r, st). (r, s\<lparr>rm_state := st\<rparr>)) (deliver ctx_done prefer m (rm_state s)))"

definition terminal_result :: "string \<Rightarrow> string \<Rightarrow> stream_cause \<Rightarrow> remote_result" where
  "terminal_result operation path cause =
     \<lparr>rz_err = RsStream (mk_stream_error operation path 0 0 0 True cause), rz_terminal = True\<rparr>"

fun read_subscription ::
  "remote_stream_config \<Rightarrow> (bytes \<Rightarrow> string + 'p proto_state) \<Rightarrow> rv_event list \<Rightarrow> 'p remote_stream
    \<Rightarrow> (remote_result \<times> 'p remote_stream) outcome"
where
  "read_subscription k dec [] s = Running"
| "read_subscription k dec (RvCtx # evs) s = Done (\<lparr>rz_err = RsCtx, rz_terminal = False\<rparr>, s)"
| "read_subscription k dec (RvRenew result # evs) s =
     (let s = log_event (TeStart (lease_expiry (rk_lease k))) s
      in case result of
           None \<Rightarrow> read_subscription k dec evs s
         | Some e \<Rightarrow> Done (\<lparr>rz_err = RsStream (stream_transport_error ''renew'' (rk_request_topic k) 0 e), rz_terminal = False\<rparr>, s))"
| "read_subscription k dec (RvTick now # evs) s =
     read_subscription k dec evs (change_status (mark_stale (stale_after (rk_options k)) now) s)"
| "read_subscription k dec (RvTake # evs) s = read_subscription k dec evs (s\<lparr>rm_state := take_message (rm_state s)\<rparr>)"
| "read_subscription k dec (RvFailed e # evs) s =
     Done (\<lparr>rz_err = RsStream (stream_transport_error ''receive'' (rk_response_topic k) 0 e), rz_terminal = False\<rparr>, s)"
| "read_subscription k dec (RvMessage topic payload now ctx_done prefer # evs) s =
     (if topic \<noteq> rk_response_topic k then read_subscription k dec evs s
      else if rk_max k < int (length payload) then
        Done (terminal_result ''receive'' (rk_response_topic k) (CauseText ''remote message exceeds the configured limit''), s)
      else case decode_binary dec payload (rk_response_topic k) now of
        (m, fatal) \<Rightarrow>
          (case remote_deliver m ctx_done prefer s of
             None \<Rightarrow> Panic
           | Some (DeliverCtx, s2) \<Rightarrow> Done (\<lparr>rz_err = RsCtx, rz_terminal = False\<rparr>, s2)
           | Some (DeliverSlow, s2) \<Rightarrow>
               if ctx_done then Done (\<lparr>rz_err = RsCtx, rz_terminal = False\<rparr>, s2)
               else Done (terminal_result ''deliver'' (rk_response_topic k) CauseSlow, s2)
           | Some (Delivered, s2) \<Rightarrow>
               if fatal then
                 Done (terminal_result ''device error'' (rk_response_topic k)
                   (case sm_device_error m of None \<Rightarrow> CauseCtx | Some e \<Rightarrow> CauseDevice e), s2)
               else read_subscription k dec evs s2))"

section \<open>Running\<close>

text \<open>\<open>publishStop\<close> (once, because \<open>Finish\<close> runs its cleanup once) and the cleanup of \<open>finish\<close>.\<close>

definition publish_stop :: "remote_stream_config \<Rightarrow> string option \<Rightarrow> 'p remote_stream \<Rightarrow> 'p remote_stream" where
  "publish_stop k result s =
     (if \<not> rm_activated s then s
      else (log_event TeStop s)\<lparr>rm_stop_err :=
        map_option (\<lambda>e. RsStream ((stream_transport_error ''stop'' (rk_request_topic k) 0 e)\<lparr>sx_terminal := True\<rparr>)) result\<rparr>)"

definition finish_remote :: "remote_stream_config \<Rightarrow> string option \<Rightarrow> rs_error option \<Rightarrow> 'p remote_stream \<Rightarrow> 'p remote_stream" where
  "finish_remote k stop_result err s =
     (if done_closed (rm_state s) then s
      else let s = (publish_stop k stop_result s)\<lparr>rm_released := True\<rparr>;
               terminal = go_join [err, go_join [rm_stop_err s, rm_close_err s]]
           in s\<lparr>rm_state := finish_stream terminal (rm_state s)\<rparr>)"

definition record_close_error :: "rs_error option \<Rightarrow> 'p remote_stream \<Rightarrow> 'p remote_stream" where
  "record_close_error err s = (if err = None \<or> rm_close_err s \<noteq> None then s else s\<lparr>rm_close_err := err\<rparr>)"

definition remote_reconnecting :: "rs_error \<Rightarrow> rs_error status \<Rightarrow> rs_error status" where
  "remote_reconnecting err st =
     st\<lparr>lifecycle := LifecycleReconnecting, access := AccessUnknown,
       data_state := (if last_state_at st = None then DataWaiting else DataStale), last_error := Some err\<rparr>"

record remote_conn =
  rn_events :: "rv_event list"
  rn_close :: "string option" \<comment> \<open>the result of closing the subscription\<close>
  rn_ctx_after_read :: bool
  rn_attempts :: "nat \<Rightarrow> remote_attempt"
  rn_ctx_after_retry :: bool

text \<open>Closing after the reading, with the error it may add.\<close>

definition close_after_read ::
  "remote_stream_config \<Rightarrow> remote_conn \<Rightarrow> nat \<Rightarrow> remote_result \<Rightarrow> 'p remote_stream \<Rightarrow> remote_result \<times> 'p remote_stream"
where
  "close_after_read k env sub result s =
     (let s = log_event (TeClose sub) s
      in case rn_close env of
           None \<Rightarrow> (result, s)
         | Some e \<Rightarrow>
             (let close_err = RsStream (stream_transport_error ''close'' (rk_response_topic k) 0 e);
                  s = record_close_error (Some close_err) s
              in (if rn_ctx_after_read env then result else result\<lparr>rz_err := RsJoin [rz_err result, close_err]\<rparr>, s)))"

fun run_remote ::
  "remote_stream_config \<Rightarrow> (bytes \<Rightarrow> string + 'p proto_state) \<Rightarrow> string option \<Rightarrow> remote_conn list \<Rightarrow> nat
    \<Rightarrow> 'p remote_stream \<Rightarrow> 'p remote_stream outcome"
where
  "run_remote k dec stop_result [] sub s = Running"
| "run_remote k dec stop_result (env # envs) sub s =
     (case read_subscription k dec (rn_events env) s of
        Running \<Rightarrow> Running
      | Panic \<Rightarrow> Panic
      | Done (result0, s0) \<Rightarrow>
          (let (result, s1) = close_after_read k env sub result0 s0
           in if rn_ctx_after_read env then Done (finish_remote k stop_result None s1)
              else if rz_terminal result then Done (finish_remote k stop_result (Some (rz_err result)) s1)
              else
                (case remote_connect k LifecycleReconnecting (rn_attempts env) 1 None
                        (change_status (remote_reconnecting (rz_err result)) s1) of
                   (Inl err, s3) \<Rightarrow>
                     Done (finish_remote k stop_result
                       (if rn_ctx_after_retry env then None else map_option RsStream err) s3)
                 | (Inr i, s3) \<Rightarrow> run_remote k dec stop_result envs i s3)))"

record remote_start =
  rs_attempts :: "nat \<Rightarrow> remote_attempt"
  rs_ctx_after :: bool
  rs_conns :: "remote_conn list"
  rs_stop :: "string option" \<comment> \<open>the result of publishing the stop message\<close>

datatype remote_start_error = RStartApi stream_api_error | RStartRun rs_error

definition start_remote ::
  "remote_stream_config \<Rightarrow> (bytes \<Rightarrow> string + 'p proto_state) \<Rightarrow> remote_start \<Rightarrow> 'p remote_stream
    \<Rightarrow> remote_start_error option \<times> 'p remote_stream outcome"
where
  "start_remote k dec env s =
     (case begin_stream (rm_state s) of
        (Inl e, st') \<Rightarrow> (Some (RStartApi e), Done (s\<lparr>rm_state := st'\<rparr>))
      | (Inr _, st1) \<Rightarrow>
          (let s2 = change_status (\<lambda>st. st\<lparr>lifecycle := LifecycleConnecting, access := AccessUnknown,
                                           data_state := DataWaiting, last_error := None\<rparr>) (s\<lparr>rm_state := st1\<rparr>)
           in case remote_connect k LifecycleConnecting (rs_attempts env) 1 None s2 of
                (Inl err, s3) \<Rightarrow>
                  (let e = (if rs_ctx_after env then Some RsCtx else map_option RsStream err)
                   in (map_option RStartRun e, Done (finish_remote k (rs_stop env) e s3)))
              | (Inr i, s3) \<Rightarrow> (None, run_remote k dec (rs_stop env) (rs_conns env) i (s3\<lparr>rm_activated := True\<rparr>))))"

text \<open>\<open>Stop\<close> on a stream that was not started, and \<open>RequestSnapshot\<close>, which MQTT does not support.\<close>

definition stop_remote_idle :: "remote_stream_config \<Rightarrow> 'p remote_stream \<Rightarrow> bool \<times> 'p remote_stream" where
  "stop_remote_idle k s =
     (case stop_before_start (rm_state s) of
        (True, st') \<Rightarrow> (True, finish_remote k None None (s\<lparr>rm_state := st'\<rparr>))
      | (False, st') \<Rightarrow> (False, s))"

section \<open>The trace\<close>

text \<open>
  The discipline of the transport: at most one subscription open, start messages only while it is,
  each closed before the next, the stop message at the very end.
\<close>

datatype wire = WireIdle | WireOpen nat | WireStopped | WireBad

fun wire_step :: "wire \<Rightarrow> transport_event \<Rightarrow> wire" where
  "wire_step WireIdle (TeSubscribe i) = WireOpen i"
| "wire_step WireIdle TeStop = WireStopped"
| "wire_step (WireOpen i) (TeStart x) = WireOpen i"
| "wire_step (WireOpen i) (TeClose j) = (if i = j then WireIdle else WireBad)"
| "wire_step w e = WireBad"

definition wire_of :: "'p remote_stream \<Rightarrow> wire" where
  "wire_of s = foldl wire_step WireIdle (rm_trace s)"

lemma wire_log [simp]: "wire_of (log_event e s) = wire_step (wire_of s) e"
  by (simp add: wire_of_def log_event_def)

lemma wire_cong: "rm_trace s' = rm_trace s \<Longrightarrow> wire_of s' = wire_of s"
  by (simp add: wire_of_def)

lemma change_status_simps [simp]:
  "rm_trace (change_status f s) = rm_trace s" "rm_activated (change_status f s) = rm_activated s"
  "rm_next (change_status f s) = rm_next s" "rm_state (change_status f s) = set_status f (rm_state s)"
  "wire_of (change_status f s) = wire_of s"
  by (simp_all add: change_status_def wire_of_def)

lemma log_event_simps [simp]:
  "rm_activated (log_event e s) = rm_activated s" "rm_state (log_event e s) = rm_state s" "rm_next (log_event e s) = rm_next s"
  by (simp_all add: log_event_def)

lemma wire_updates [simp]:
  "wire_of (s\<lparr>rm_state := st\<rparr>) = wire_of s" "wire_of (s\<lparr>rm_activated := b\<rparr>) = wire_of s" "wire_of (s\<lparr>rm_next := n\<rparr>) = wire_of s"
  "wire_of (s\<lparr>rm_stop_err := e\<rparr>) = wire_of s" "wire_of (s\<lparr>rm_close_err := e\<rparr>) = wire_of s" "wire_of (s\<lparr>rm_released := b\<rparr>) = wire_of s"
  by (simp_all add: wire_of_def)

section \<open>One connection\<close>

definition running :: "'p remote_stream \<Rightarrow> bool" where
  "running s \<longleftrightarrow> live (rm_state s)"

lemma running_simps [simp]:
  "running (change_status f s) = running s" "running (log_event e s) = running s"
  "running (s\<lparr>rm_state := take_message (rm_state s)\<rparr>) = running s" "running (s\<lparr>rm_activated := b\<rparr>) = running s"
  "running (s\<lparr>rm_next := n\<rparr>) = running s" "running (s\<lparr>rm_close_err := ce\<rparr>) = running s"
  by (simp_all add: running_def)

text \<open>The decoded messages of the right topic and size, up to the event that ends the connection.\<close>

fun rv_messages :: "remote_stream_config \<Rightarrow> (bytes \<Rightarrow> string + 'p proto_state) \<Rightarrow> rv_event list \<Rightarrow> 'p message list" where
  "rv_messages k dec [] = []"
| "rv_messages k dec (RvMessage topic payload now c p # evs) =
     (if topic \<noteq> rk_response_topic k then rv_messages k dec evs
      else if rk_max k < int (length payload) then []
      else fst (decode_binary dec payload (rk_response_topic k) now) # rv_messages k dec evs)"
| "rv_messages k dec (RvCtx # evs) = []"
| "rv_messages k dec (RvFailed e # evs) = []"
| "rv_messages k dec (RvRenew (Some e) # evs) = []"
| "rv_messages k dec (RvRenew None # evs) = rv_messages k dec evs"
| "rv_messages k dec (RvTick now # evs) = rv_messages k dec evs"
| "rv_messages k dec (RvTake # evs) = rv_messages k dec evs"

definition rv_quiet :: "rv_event list \<Rightarrow> bool" where
  "rv_quiet evs = list_all (\<lambda>e. case e of RvMessage _ _ _ c _ \<Rightarrow> \<not> c | _ \<Rightarrow> True) evs"

lemma rv_quiet_Cons [simp]:
  "rv_quiet (e # evs) \<longleftrightarrow> (case e of RvMessage _ _ _ c _ \<Rightarrow> \<not> c | _ \<Rightarrow> True) \<and> rv_quiet evs"
  by (simp add: rv_quiet_def)

text \<open>What reading with an open subscription gives.\<close>

definition read_ok ::
  "nat \<Rightarrow> 'p message list \<Rightarrow> bool \<Rightarrow> 'p remote_stream \<Rightarrow> (remote_result \<times> 'p remote_stream) outcome \<Rightarrow> bool"
where
  "read_ok i ms quiet s out \<longleftrightarrow>
     (case out of Running \<Rightarrow> True | Panic \<Rightarrow> False
      | Done (res, s') \<Rightarrow> running s' \<and> wire_of s' = WireOpen i \<and> rm_activated s' = rm_activated s
          \<and> (\<exists>ds. prefix ds ms \<and> delivered (rm_state s') = delivered (rm_state s) @ ds)
          \<and> (rz_terminal res \<or> \<not> quiet \<or> delivered (rm_state s') = delivered (rm_state s) @ ms))"

lemma read_ok_step:
  assumes "read_ok i ms quiet s1 out" and "delivered (rm_state s1) = delivered (rm_state s) @ d"
    and "rm_activated s1 = rm_activated s"
  shows "read_ok i (d @ ms) quiet s out"
  using assms by (auto simp: read_ok_def split: outcome.splits)

lemma read_ok_weaken: "read_ok i ms quiet s out \<Longrightarrow> (quiet' \<Longrightarrow> quiet) \<Longrightarrow> read_ok i ms quiet' s out"
  by (auto simp: read_ok_def split: outcome.splits)

lemma remote_deliver_live:
  assumes "running s"
  shows "\<exists>r s2. remote_deliver m c p s = Some (r, s2) \<and> running s2 \<and> wire_of s2 = wire_of s \<and> rm_activated s2 = rm_activated s
    \<and> delivered (rm_state s2) = delivered (rm_state s) @ (if r = Delivered then [m] else [])
    \<and> (r = DeliverCtx \<longrightarrow> c)"
  using assms by (auto simp: remote_deliver_def deliver_def running_def live_def Let_def)

lemma read_subscription_ok:
  "running s \<Longrightarrow> wire_of s = WireOpen i \<Longrightarrow> read_ok i (rv_messages k dec evs) (rv_quiet evs) s (read_subscription k dec evs s)"
proof (induction k dec evs s rule: read_subscription.induct)
  case (3 k dec result evs s)
  show ?case
  proof (cases result)
    case None
    then have "read_ok i (rv_messages k dec evs) (rv_quiet evs) (log_event (TeStart (lease_expiry (rk_lease k))) s)
        (read_subscription k dec (RvRenew result # evs) s)"
      using 3 by simp
    from read_ok_step [OF this, of s "[]"] show ?thesis using None by simp
  qed (use 3 in \<open>simp add: read_ok_def\<close>)
next
  case (4 k dec now evs s)
  then have "read_ok i (rv_messages k dec evs) (rv_quiet evs) (change_status (mark_stale (stale_after (rk_options k)) now) s)
      (read_subscription k dec (RvTick now # evs) s)" by simp
  from read_ok_step [OF this, of s "[]"] show ?case by simp
next
  case (5 k dec evs s)
  then have "read_ok i (rv_messages k dec evs) (rv_quiet evs) (s\<lparr>rm_state := take_message (rm_state s)\<rparr>)
      (read_subscription k dec (RvTake # evs) s)" by simp
  from read_ok_step [OF this, of s "[]"] show ?case by simp
next
  case (7 k dec topic payload now c p evs s)
  show ?case
  proof (cases "topic = rk_response_topic k \<and> int (length payload) \<le> rk_max k")
    case False
    show ?thesis
    proof (cases "topic = rk_response_topic k")
      case True
      then show ?thesis using False "7.prems" by (auto simp: read_ok_def terminal_result_def)
    next
      case other: False
      then have "read_ok i (rv_messages k dec evs) (rv_quiet evs) s (read_subscription k dec evs s)" using 7 by simp
      then show ?thesis using other by (auto elim: read_ok_weaken)
    qed
  next
    case True
    obtain m fatal where m: "decode_binary dec payload (rk_response_topic k) now = (m, fatal)" by (meson surj_pair)
    obtain r s2 where r: "remote_deliver m c p s = Some (r, s2)" "running s2" "wire_of s2 = wire_of s"
      "rm_activated s2 = rm_activated s" "delivered (rm_state s2) = delivered (rm_state s) @ (if r = Delivered then [m] else [])"
      "r = DeliverCtx \<longrightarrow> c"
      using remote_deliver_live [OF "7.prems"(1)] by blast
    have msgs: "rv_messages k dec (RvMessage topic payload now c p # evs) = [m] @ rv_messages k dec evs"
      using True m by simp
    show ?thesis
    proof (cases "r = Delivered \<and> \<not> fatal")
      case go: True
      have "read_ok i (rv_messages k dec evs) (rv_quiet evs) s2 (read_subscription k dec evs s2)"
        using "7.IH"(2) [of m fatal "(Delivered, s2)" Delivered s2] True m r go "7.prems"(2) by (auto simp: not_less)
      then have "read_ok i ([m] @ rv_messages k dec evs) (rv_quiet evs) s (read_subscription k dec evs s2)"
        by (rule read_ok_step) (use r go in simp_all)
      then show ?thesis unfolding msgs using True m r go by (auto simp: not_less elim: read_ok_weaken)
    next
      case False
      then show ?thesis unfolding msgs using True m r "7.prems"(2)
        by (cases r) (auto simp: read_ok_def terminal_result_def not_less)
    qed
  qed
qed (simp_all add: read_ok_def)

section \<open>Connecting\<close>

text \<open>An attempt that fails leaves no subscription open; one that succeeds leaves exactly its own.\<close>

lemma connect_attempt_wire:
  assumes "connect_attempt k env s = (res, s')" and "wire_of s = WireIdle"
  shows "(case res of Inl e \<Rightarrow> wire_of s' = WireIdle | Inr i \<Rightarrow> wire_of s' = WireOpen i)
    \<and> rm_state s' = rm_state s \<and> rm_activated s' = rm_activated s"
  using assms by (auto simp: connect_attempt_def Let_def split: sum.splits bool.splits option.splits)

definition attempt_goes_on :: "remote_stream_config \<Rightarrow> (nat \<Rightarrow> remote_attempt) \<Rightarrow> nat \<Rightarrow> bool" where
  "attempt_goes_on k envs j \<longleftrightarrow>
     (ra_subscribe (envs j) \<noteq> Inr True \<or> ra_publish (envs j) \<noteq> None)
     \<and> int j < max_attempts (rk_options k) \<and> \<not> ra_ctx_done (envs j)
     \<and> \<not> (reconnect_delay (rk_options k) \<noteq> 0 \<and> ra_wait_cancelled (envs j))"

lemma connect_attempt_ok:
  "connect_attempt k env s = (res, s') \<Longrightarrow> is_ok res \<longleftrightarrow> ra_subscribe env = Inr True \<and> ra_publish env = None"
  by (auto simp: connect_attempt_def Let_def split: sum.splits bool.splits option.splits)

lemma remote_connect_ok:
  "int att \<le> max_attempts (rk_options k) \<Longrightarrow> running s \<Longrightarrow> wire_of s = WireIdle \<Longrightarrow>
     remote_connect k lc envs att lastErr s = (res, s') \<Longrightarrow>
     running s' \<and> rm_activated s' = rm_activated s \<and> delivered (rm_state s') = delivered (rm_state s)
     \<and> (case res of Inl e \<Rightarrow> wire_of s' = WireIdle \<and> (\<exists>f. e = Some f \<and> (sx_terminal f \<or> (\<exists>j. ra_ctx_done (envs j) \<or> ra_wait_cancelled (envs j))))
        | Inr i \<Rightarrow> wire_of s' = WireOpen i \<and> lifecycle (current (rm_state s')) = LifecycleConnected)
     \<and> (\<exists>n. att \<le> n \<and> int n \<le> max_attempts (rk_options k) \<and> (\<forall>j. att \<le> j \<longrightarrow> j < n \<longrightarrow> attempt_goes_on k envs j)
          \<and> \<not> attempt_goes_on k envs n \<and> attempt (current (rm_state s')) = n
          \<and> (is_ok res \<longleftrightarrow> ra_subscribe (envs n) = Inr True \<and> ra_publish (envs n) = None))"
proof (induction "nat (max_attempts (rk_options k) + 1 - int att)" arbitrary: att lastErr s rule: less_induct)
  case less
  define s1 where "s1 = change_status (\<lambda>st. st\<lparr>lifecycle := lc, attempt := att, access := AccessUnknown\<rparr>) s"
  have s1: "running s1" "wire_of s1 = WireIdle" "rm_activated s1 = rm_activated s" "delivered (rm_state s1) = delivered (rm_state s)"
    "attempt (current (rm_state s1)) = att"
    using less.prems(2,3) by (simp_all add: s1_def running_def live_def)
  obtain r s2 where c: "connect_attempt k (envs att) s1 = (r, s2)" by (meson surj_pair)
  note w = connect_attempt_wire [OF c s1(2)] and ok = connect_attempt_ok [OF c]
  have s2: "running s2" "rm_activated s2 = rm_activated s" "delivered (rm_state s2) = delivered (rm_state s)"
    "attempt (current (rm_state s2)) = att"
    using w s1 by (simp_all add: running_def)
  show ?case
  proof (cases r)
    case (Inr i)
    then have eq: "res = Inr i" "s' = change_status (remote_connected (ra_now (envs att))) s2"
      using less.prems(1,4) c by (simp_all add: remote_connect.simps [of k lc envs att] s1_def [symmetric] Let_def)
    have "\<not> attempt_goes_on k envs att" using ok Inr by (simp add: attempt_goes_on_def)
    then show ?thesis
      using s2 w Inr ok less.prems(1) unfolding eq
      by (intro conjI exI [of _ att]) (auto simp: remote_connected_def running_def live_def)
  next
    case (Inl e)
    define f where "f = (let f0 = stream_transport_error ''connect'' (rk_request_topic k) att e
      in if int att = max_attempts (rk_options k) then f0\<lparr>sx_terminal := True\<rparr> else f0)"
    define s3 where "s3 = change_status (\<lambda>st. st\<lparr>last_error := Some (RsStream f)\<rparr>) s2"
    have s3: "running s3" "rm_activated s3 = rm_activated s" "delivered (rm_state s3) = delivered (rm_state s)"
      "attempt (current (rm_state s3)) = att" "wire_of s3 = WireIdle"
      using s2 w Inl by (simp_all add: s3_def running_def live_def)
    have bad: "\<not> (ra_subscribe (envs att) = Inr True \<and> ra_publish (envs att) = None)" using ok Inl by simp
    show ?thesis
    proof (cases "attempt_goes_on k envs att")
      case True
      then have eq: "remote_connect k lc envs att lastErr s = remote_connect k lc envs (Suc att) (Some f) s3"
        using less.prems(1) c Inl
        by (subst remote_connect.simps) (auto simp: s1_def [symmetric] f_def s3_def Let_def attempt_goes_on_def)
      have lim: "int (Suc att) \<le> max_attempts (rk_options k)" using True by (simp add: attempt_goes_on_def)
      have "remote_connect k lc envs (Suc att) (Some f) s3 = (res, s')" using less.prems(4) eq by simp
      from less.hyps [OF _ lim s3(1,5) this] lim s3(2,3)
      obtain n where n: "Suc att \<le> n" "int n \<le> max_attempts (rk_options k)" "\<forall>j. Suc att \<le> j \<longrightarrow> j < n \<longrightarrow> attempt_goes_on k envs j"
          "\<not> attempt_goes_on k envs n" "attempt (current (rm_state s')) = n"
          "is_ok res \<longleftrightarrow> ra_subscribe (envs n) = Inr True \<and> ra_publish (envs n) = None"
        and rest: "running s'" "rm_activated s' = rm_activated s" "delivered (rm_state s') = delivered (rm_state s)"
          "case res of Inl e \<Rightarrow> wire_of s' = WireIdle \<and> (\<exists>f. e = Some f \<and> (sx_terminal f \<or> (\<exists>j. ra_ctx_done (envs j) \<or> ra_wait_cancelled (envs j))))
           | Inr i \<Rightarrow> wire_of s' = WireOpen i \<and> lifecycle (current (rm_state s')) = LifecycleConnected"
        by auto
      have "\<forall>j. att \<le> j \<longrightarrow> j < n \<longrightarrow> attempt_goes_on k envs j" using n(3) True by (metis Suc_leI le_neq_implies_less)
      then show ?thesis using n rest by (intro conjI exI [of _ n]) auto
    next
      case False
      then have eq: "s' = s3" "\<exists>g. res = Inl (Some g) \<and> (sx_terminal g \<or> ra_ctx_done (envs att) \<or> ra_wait_cancelled (envs att))"
        using less.prems(1,4) c Inl bad
        by (auto simp: remote_connect.simps [of k lc envs att] s1_def [symmetric] f_def s3_def Let_def attempt_goes_on_def
            split: if_splits)
      then show ?thesis using s3 False bad less.prems(1) by (intro conjI exI [of _ att]) auto
    qed
  qed
qed

section \<open>The life of a remote stream\<close>

lemma finish_remote_ok:
  assumes "running s"
  shows "done_closed (rm_state (finish_remote k r e s)) \<and> final_ok (rm_state (finish_remote k r e s))
    \<and> delivered (rm_state (finish_remote k r e s)) = delivered (rm_state s) \<and> rm_released (finish_remote k r e s)
    \<and> wire_of (finish_remote k r e s) = (if rm_activated s then wire_step (wire_of s) TeStop else wire_of s)"
proof -
  have p: "rm_state (publish_stop k r s) = rm_state s" by (simp add: publish_stop_def)
  have "wire_of (publish_stop k r s) = (if rm_activated s then wire_step (wire_of s) TeStop else wire_of s)"
    by (simp add: publish_stop_def)
  moreover obtain t where t: "finish_remote k r e s =
      (publish_stop k r s)\<lparr>rm_released := True, rm_state := finish_stream t (rm_state s)\<rparr>"
    using assms p by (simp add: finish_remote_def running_def live_def Let_def)
  ultimately show ?thesis
    using finish_live [of "rm_state s" t] assms unfolding t by (simp add: running_def)
qed

lemma close_after_read_ok:
  assumes "close_after_read k env i res s = (res', s')" and "running s" and "wire_of s = WireOpen i"
  shows "running s' \<and> wire_of s' = WireIdle \<and> rm_activated s' = rm_activated s \<and> rm_state s' = rm_state s
    \<and> rz_terminal res' = rz_terminal res"
  using assms
  by (auto simp: close_after_read_def record_close_error_def Let_def split: option.splits if_splits)

definition remote_messages :: "remote_stream_config \<Rightarrow> (bytes \<Rightarrow> string + 'p proto_state) \<Rightarrow> remote_conn list \<Rightarrow> 'p message list" where
  "remote_messages k dec envs = concat (map (\<lambda>e. rv_messages k dec (rn_events e)) envs)"

text \<open>A context stays done.\<close>

definition remote_ctx_stays_done :: "remote_conn \<Rightarrow> bool" where
  "remote_ctx_stays_done env \<longleftrightarrow> rv_quiet (rn_events env) \<or> rn_ctx_after_read env"

definition stream_ended :: "remote_stream_config \<Rightarrow> 'p message list \<Rightarrow> 'p remote_stream \<Rightarrow> 'p remote_stream \<Rightarrow> bool" where
  "stream_ended k ms s s' \<longleftrightarrow>
     done_closed (rm_state s') \<and> final_ok (rm_state s') \<and> rm_released s' \<and> wire_of s' = WireStopped
     \<and> (\<exists>ds. prefix ds ms \<and> delivered (rm_state s') = delivered (rm_state s) @ ds)"

lemma run_remote_ok:
  "running s \<Longrightarrow> wire_of s = WireOpen sub \<Longrightarrow> rm_activated s \<Longrightarrow> valid_stream_options (rk_options k) \<Longrightarrow>
   list_all remote_ctx_stays_done envs \<Longrightarrow>
     (case run_remote k dec stop envs sub s of Running \<Rightarrow> True | Panic \<Rightarrow> False
      | Done s' \<Rightarrow> stream_ended k (remote_messages k dec envs) s s')"
proof (induction envs arbitrary: s sub)
  case (Cons env envs)
  have msgs: "remote_messages k dec (env # envs) = rv_messages k dec (rn_events env) @ remote_messages k dec envs"
    by (simp add: remote_messages_def)
  note read = read_subscription_ok [OF Cons.prems(1,2), of k dec "rn_events env"]
  show ?case
  proof (cases "read_subscription k dec (rn_events env) s")
    case (Done v)
    then obtain res0 s0 where d: "read_subscription k dec (rn_events env) s = Done (res0, s0)" by (cases v) auto
    with read obtain ds where s0: "running s0" "wire_of s0 = WireOpen sub" "rm_activated s0"
      and ds: "prefix ds (rv_messages k dec (rn_events env))" "delivered (rm_state s0) = delivered (rm_state s) @ ds"
      and all: "rz_terminal res0 \<or> \<not> rv_quiet (rn_events env)
        \<or> delivered (rm_state s0) = delivered (rm_state s) @ rv_messages k dec (rn_events env)"
      using Cons.prems(3) by (auto simp: read_ok_def)
    obtain res s1 where c: "close_after_read k env sub res0 s0 = (res, s1)" by (meson surj_pair)
    note s1 = close_after_read_ok [OF c s0(1,2)]
    have pre: "prefix ds (remote_messages k dec (env # envs))" using ds(1) unfolding msgs by (rule prefix_prefix)
    have ended: "stream_ended k (remote_messages k dec (env # envs)) s (finish_remote k stop e s2)"
      if "running s2" "wire_of s2 = WireIdle" "rm_activated s2" "delivered (rm_state s2) = delivered (rm_state s) @ ds" for e s2
      using finish_remote_ok [OF that(1), of k stop e] that pre by (auto simp: stream_ended_def)
    show ?thesis
    proof (cases "rn_ctx_after_read env \<or> rz_terminal res")
      case True
      then show ?thesis using d c s1 s0(3) ds(2) ended [of s1] by auto
    next
      case False
      define s2 where "s2 = change_status (remote_reconnecting (rz_err res)) s1"
      have s2: "running s2" "wire_of s2 = WireIdle" "rm_activated s2" "delivered (rm_state s2) = delivered (rm_state s) @ ds"
        using s1 s0(3) ds(2) by (simp_all add: s2_def)
      obtain r s3 where cn: "remote_connect k LifecycleReconnecting (rn_attempts env) 1 None s2 = (r, s3)" by (meson surj_pair)
      have "int 1 \<le> max_attempts (rk_options k)" using Cons.prems(4) by (simp add: valid_stream_options_def)
      note s3 = remote_connect_ok [OF this s2(1,2) cn]
      show ?thesis
      proof (cases r)
        case (Inl err)
        then show ?thesis
          using d c False cn s3 s2(3,4) ended [of s3] by (simp add: s2_def)
      next
        case (Inr i)
        have all': "delivered (rm_state s3) = delivered (rm_state s) @ rv_messages k dec (rn_events env)"
          using all False Cons.prems(5) s1 s2(4) s3 ds(2) by (auto simp: remote_ctx_stays_done_def)
        have run: "run_remote k dec stop (env # envs) sub s = run_remote k dec stop envs i s3"
          using d c False cn Inr by (simp add: s2_def)
        have "case run_remote k dec stop envs i s3 of Running \<Rightarrow> True | Panic \<Rightarrow> False
            | Done s' \<Rightarrow> stream_ended k (remote_messages k dec envs) s3 s'"
          using s3 s2(3) Inr Cons.prems(4,5) by (intro Cons.IH) auto
        then show ?thesis
          unfolding run msgs using all' by (auto simp: stream_ended_def split: outcome.splits)
      qed
    qed
  qed (use read in \<open>simp_all add: read_ok_def\<close>)
qed simp

section \<open>Properties\<close>

text \<open>The lease in the start message is exact up to 2^32 - 1 seconds; the next one wraps to no time at all.\<close>

lemma lease_expiry_exact:
  assumes "0 < lease" and "lease mod second = 0" and "lease div second < 2 ^ 32"
  shows "int (unat (lease_expiry lease)) * second = lease"
proof -
  have "0 \<le> lease div second" using assms(1) by (simp add: second_def pos_imp_zdiv_nonneg_iff)
  then have "int (unat (lease_expiry lease)) = lease div second"
    using assms(3) by (simp add: lease_expiry_def unat_eq_nat_uint word_of_int_inverse uint_word_of_int_eq take_bit_eq_mod)
  then show ?thesis using assms(2) by (metis add.right_neutral div_mult_mod_eq)
qed

lemma lease_expiry_wraps:
  "apply_remote_option (RWithStreamLease (4294967296 * second)) c = Inr (c\<lparr>rc_lease := 4294967296 * second\<rparr>)
   \<and> lease_expiry (4294967296 * second) = 0"
  by (simp add: lease_expiry_def second_def)

text \<open>The whole run of a stream that is started once.\<close>

lemma start_remote_ok:
  assumes "\<not> started (rm_state s)" and "running s" and "wire_of s = WireIdle" and "\<not> rm_activated s"
    and "valid_stream_options (rk_options k)" and "list_all remote_ctx_stays_done (rs_conns env)"
  shows "case start_remote k dec env s of
      (err, Running) \<Rightarrow> err = None
    | (err, Panic) \<Rightarrow> False
    | (err, Done s') \<Rightarrow> done_closed (rm_state s') \<and> final_ok (rm_state s') \<and> rm_released s'
        \<and> wire_of s' = (if err = None then WireStopped else WireIdle)
        \<and> (\<exists>ds. prefix ds (remote_messages k dec (rs_conns env)) \<and> delivered (rm_state s') = delivered (rm_state s) @ ds)"
proof -
  have b: "begin_stream (rm_state s) = (Inr (), (rm_state s)\<lparr>started := True\<rparr>)" using assms(1) by (simp add: begin_stream_def)
  define s2 where "s2 = change_status (\<lambda>st. st\<lparr>lifecycle := LifecycleConnecting, access := AccessUnknown,
      data_state := DataWaiting, last_error := None\<rparr>) (s\<lparr>rm_state := (rm_state s)\<lparr>started := True\<rparr>\<rparr>)"
  have s2: "running s2" "wire_of s2 = WireIdle" "\<not> rm_activated s2" "delivered (rm_state s2) = delivered (rm_state s)"
    using assms(2-4) by (simp_all add: s2_def running_def live_def)
  obtain r s3 where c: "remote_connect k LifecycleConnecting (rs_attempts env) 1 None s2 = (r, s3)" by (meson surj_pair)
  have "int 1 \<le> max_attempts (rk_options k)" using assms(5) by (simp add: valid_stream_options_def)
  note s3 = remote_connect_ok [OF this s2(1,2) c]
  show ?thesis
  proof (cases r)
    case (Inl err)
    define e where "e = (if rs_ctx_after env then Some RsCtx else map_option RsStream err)"
    have start: "start_remote k dec env s = (map_option RStartRun e, Done (finish_remote k (rs_stop env) e s3))"
      using b c Inl by (simp add: start_remote_def s2_def e_def Let_def)
    have "e \<noteq> None" using s3 Inl by (auto simp: e_def)
    moreover have "running s3" "wire_of s3 = WireIdle" "\<not> rm_activated s3" "delivered (rm_state s3) = delivered (rm_state s)"
      using s3 s2(3,4) Inl by simp_all
    ultimately show ?thesis
      using finish_remote_ok [of s3 k "rs_stop env" e] unfolding start by (auto simp: prefix_def)
  next
    case (Inr i)
    have start: "start_remote k dec env s = (None, run_remote k dec (rs_stop env) (rs_conns env) i (s3\<lparr>rm_activated := True\<rparr>))"
      using b c Inr by (simp add: start_remote_def s2_def Let_def)
    have "case run_remote k dec (rs_stop env) (rs_conns env) i (s3\<lparr>rm_activated := True\<rparr>) of Running \<Rightarrow> True | Panic \<Rightarrow> False
      | Done s' \<Rightarrow> stream_ended k (remote_messages k dec (rs_conns env)) (s3\<lparr>rm_activated := True\<rparr>) s'"
      using s3 Inr assms(5,6) by (intro run_remote_ok) auto
    then show ?thesis
      using s3 s2(4) unfolding start by (auto simp: stream_ended_def split: outcome.splits)
  qed
qed

text \<open>
  C20: a remote status stream started once never panics, and when it ends its channels are closed with
  its final status, the client is free for another stream, its messages are an initial part of those
  received on its topic within the size limit, in order across reconnections, and its traffic is
  well-formed: at most one subscription open at any time, lease messages only while one is, every one
  closed, and the stop message last and only if \<open>Start\<close> succeeded.
\<close>

theorem remote_stream_spec:
  assumes "\<not> started (rm_state s)" and "running s" and "wire_of s = WireIdle" and "\<not> rm_activated s"
    and "valid_stream_options (rk_options k)" and "list_all remote_ctx_stays_done (rs_conns env)"
  shows "case start_remote k dec env s of
      (err, Running) \<Rightarrow> err = None
    | (err, Panic) \<Rightarrow> False
    | (err, Done s') \<Rightarrow> done_closed (rm_state s') \<and> final_ok (rm_state s') \<and> rm_released s'
        \<and> wire_of s' = (if err = None then WireStopped else WireIdle)
        \<and> (\<exists>ds. prefix ds (remote_messages k dec (rs_conns env)) \<and> delivered (rm_state s') = delivered (rm_state s) @ ds)"
  using assms by (rule start_remote_ok)

text \<open>
  C21: \<open>connectWithRetry\<close> of the remote stream makes between one and \<open>MaxAttempts\<close> attempts, goes on
  after an attempt only when it failed, attempts are left and the context allows; it returns the
  subscription of the last attempt, then the only one open, or its error with none left open.
\<close>

theorem remote_connect_spec:
  assumes "valid_stream_options (rk_options k)" and "running s" and "wire_of s = WireIdle"
    and "remote_connect k lc envs 1 None s = (res, s')"
  shows "(case res of Inl e \<Rightarrow> e \<noteq> None \<and> wire_of s' = WireIdle | Inr i \<Rightarrow> wire_of s' = WireOpen i)
    \<and> (\<exists>n. 1 \<le> n \<and> int n \<le> max_attempts (rk_options k) \<and> (\<forall>j. 1 \<le> j \<longrightarrow> j < n \<longrightarrow> attempt_goes_on k envs j)
          \<and> \<not> attempt_goes_on k envs n \<and> attempt (current (rm_state s')) = n
          \<and> (is_ok res \<longleftrightarrow> ra_subscribe (envs n) = Inr True \<and> ra_publish (envs n) = None))"
proof -
  have "int 1 \<le> max_attempts (rk_options k)" using assms(1) by (simp add: valid_stream_options_def)
  from remote_connect_ok [OF this assms(2-4)] show ?thesis by (auto split: sum.splits)
qed

definition sample_remote_config :: remote_stream_config where
  "sample_remote_config =
     \<lparr>rk_request_topic = ''q'', rk_response_topic = ''a'', rk_lease = 60 * second, rk_payload = ''{}'', rk_max = 10,
      rk_options = default_stream_options\<rparr>"

definition sample_remote :: "nat remote_stream" where
  "sample_remote = \<lparr>rm_state = new_state 64, rm_activated = False, rm_stop_err = None, rm_close_err = None,
     rm_released = False, rm_next = 0, rm_trace = []\<rparr>"

text \<open>The first attempt cannot publish its start message, the second connects.\<close>

definition sample_remote_attempts :: "nat \<Rightarrow> remote_attempt" where
  "sample_remote_attempts j = \<lparr>ra_subscribe = Inr True, ra_publish = (if j = 1 then Some ''offline'' else None), ra_close = None,
     ra_ctx_done = False, ra_wait_cancelled = False, ra_now = 5\<rparr>"

definition sample_remote_start :: remote_start where
  "sample_remote_start =
     \<lparr>rs_attempts = sample_remote_attempts, rs_ctx_after = False,
      rs_conns = [\<lparr>rn_events = [RvMessage ''a'' [1] 6 False False, RvMessage ''b'' [2] 6 False False, RvCtx], rn_close = None,
                   rn_ctx_after_read = True, rn_attempts = sample_remote_attempts, rn_ctx_after_retry = True\<rparr>],
      rs_stop = None\<rparr>"

lemma sample_remote_ready:
  "running sample_remote" "wire_of sample_remote = WireIdle" "\<not> rm_activated sample_remote" "\<not> started (rm_state sample_remote)"
  "valid_stream_options (rk_options sample_remote_config)" "list_all remote_ctx_stays_done (rs_conns sample_remote_start)"
  by (simp_all add: sample_remote_def running_def live_def wire_of_def new_state_def sample_remote_config_def
      valid_stream_options_def default_stream_options_def sample_remote_start_def remote_ctx_stays_done_def)

theorem remote_stream_spec_witness:
  "case start_remote sample_remote_config (\<lambda>b. Inl ''none'') sample_remote_start sample_remote of
      (err, Running) \<Rightarrow> err = None | (err, Panic) \<Rightarrow> False
    | (err, Done s') \<Rightarrow> done_closed (rm_state s') \<and> wire_of s' = (if err = None then WireStopped else WireIdle)"
  using remote_stream_spec [where k = sample_remote_config and s = sample_remote and env = sample_remote_start
      and dec = "\<lambda>b. Inl ''none''"] sample_remote_ready
  by (auto split: outcome.splits prod.splits)

theorem remote_connect_spec_witness:
  "case fst (remote_connect sample_remote_config LifecycleConnecting sample_remote_attempts 1 None sample_remote) of
     Inl e \<Rightarrow> e \<noteq> None
   | Inr i \<Rightarrow> wire_of (snd (remote_connect sample_remote_config LifecycleConnecting sample_remote_attempts 1 None sample_remote)) = WireOpen i"
proof -
  obtain res s' where c: "remote_connect sample_remote_config LifecycleConnecting sample_remote_attempts 1 None sample_remote = (res, s')"
    by (meson surj_pair)
  show ?thesis
    using remote_connect_spec [OF sample_remote_ready(5,1,2) c] unfolding c by (auto split: sum.splits)
qed

end
