(* ===== verification/RemoteClient.thy ===== *)
theory RemoteClient
  imports RemoteStream RemoteRoundTrip
begin

text \<open>
  \<open>remote/client.go\<close> after construction: \<open>NewStatusStream\<close> with its single active stream, the release
  that a stream calls when it finishes, and \<open>Close\<close>. Everything under \<open>mu\<close> is one step; the streams
  (from \<open>RemoteStream\<close>) and the round trips (from \<open>RemoteRoundTrip\<close>) run in between. All streams of a
  client use the same two topics, so the order of their messages on the shared transport matters: it
  is the trace of the client, each event with the number of its stream.
\<close>

section \<open>State\<close>

text \<open>
  A stream that was started has the events its run still sends and the state the run ends in. A run
  that has not ended yet is one whose remaining events are not sent yet. Released: the cleanup of
  \<open>finish\<close> ran, the channels are not closed yet.
\<close>

datatype 'p stream_phase =
    SpCreated
  | SpRunning "transport_event list" "'p remote_stream"
  | SpReleased "'p remote_stream"
  | SpDone "'p remote_stream"

record 'p client_stream =
  ls_config :: remote_stream_config
  ls_state :: "'p remote_stream" \<comment> \<open>before it is started\<close>
  ls_phase :: "'p stream_phase"

datatype close_error = CeStream rs_error | CeApi stream_api_error | CeHttp remote_error

text \<open>Where the one execution of \<open>close\<close> stands; the errors are joined, none means nil.\<close>

datatype close_progress =
    NotClosing
  | ClosingStream "nat option"
  | ClosingHttp "close_error list"
  | ClosedWith "close_error list"

record 'p client_life =
  lf_config :: remote_config
  lf_closed :: bool
  lf_active :: "nat option"
  lf_streams :: "'p client_stream list"
  lf_trace :: "(nat \<times> transport_event) list"
  lf_http :: round_tripper
  lf_close :: close_progress

definition new_client_life :: "remote_client \<Rightarrow> 'p client_life" where
  "new_client_life l =
     \<lparr>lf_config = rl_config l, lf_closed = False, lf_active = None, lf_streams = [], lf_trace = [],
      lf_http = new_round_tripper, lf_close = NotClosing\<rparr>"

definition http_config :: "remote_client \<Rightarrow> rt_config" where
  "http_config l =
     \<lparr>rx_request_topic = rl_request_topic l, rx_response_topic = rl_response_topic l,
      rx_max = rc_max_message (rl_config l)\<rparr>"

section \<open>Operations\<close>

datatype new_stream_error = NsClosed | NsText string

definition new_status_stream ::
  "(duration \<Rightarrow> string) \<Rightarrow> stream_option option list \<Rightarrow> 'p client_life \<Rightarrow> (new_stream_error + nat) \<times> 'p client_life"
where
  "new_status_stream json_float ops c =
     (if lf_closed c then (Inl NsClosed, c)
      else if lf_active c \<noteq> None then (Inl (NsText ''remote client already has an active status stream''), c)
      else case new_remote_stream json_float (lf_config c) ops of
        Inl e \<Rightarrow> (Inl (NsText e), c)
      | Inr (k, s) \<Rightarrow>
          (let i = length (lf_streams c)
           in (Inr i, c\<lparr>lf_active := Some i,
                        lf_streams := lf_streams c @ [\<lparr>ls_config = k, ls_state = s, ls_phase = SpCreated\<rparr>]\<rparr>)))"

definition release_stream :: "nat \<Rightarrow> 'p client_life \<Rightarrow> 'p client_life" where
  "release_stream i c = (if lf_active c = Some i then c\<lparr>lf_active := None\<rparr> else c)"

definition set_phase :: "nat \<Rightarrow> 'p stream_phase \<Rightarrow> 'p client_life \<Rightarrow> 'p client_life" where
  "set_phase i p c = c\<lparr>lf_streams := (lf_streams c)[i := (lf_streams c ! i)\<lparr>ls_phase := p\<rparr>]\<rparr>"

text \<open>\<open>Start\<close> on a stream of the client, and \<open>Stop\<close> on one that was not started.\<close>

definition start_owned ::
  "(bytes \<Rightarrow> string + 'p proto_state) \<Rightarrow> remote_start \<Rightarrow> nat \<Rightarrow> 'p client_life \<Rightarrow> 'p client_life option"
where
  "start_owned dec env i c =
     (case ls_phase (lf_streams c ! i) of
        SpCreated \<Rightarrow>
          (case start_remote (ls_config (lf_streams c ! i)) dec env (ls_state (lf_streams c ! i)) of
             (_, Done s') \<Rightarrow> Some (set_phase i (SpRunning (rm_trace s') s') c)
           | _ \<Rightarrow> None)
      | _ \<Rightarrow> None)"

definition stop_owned :: "nat \<Rightarrow> 'p client_life \<Rightarrow> 'p client_life option" where
  "stop_owned i c =
     (case ls_phase (lf_streams c ! i) of
        SpCreated \<Rightarrow>
          (case stop_remote_idle (ls_config (lf_streams c ! i)) (ls_state (lf_streams c ! i)) of
             (True, s') \<Rightarrow> Some (set_phase i (SpRunning (rm_trace s') s') c)
           | _ \<Rightarrow> None)
      | _ \<Rightarrow> None)"

text \<open>The progress of a started stream: its next event, then the release, then the closing of its channels.\<close>

definition advance_owned :: "nat \<Rightarrow> 'p client_life \<Rightarrow> 'p client_life option" where
  "advance_owned i c =
     (case ls_phase (lf_streams c ! i) of
        SpRunning (e # es) s' \<Rightarrow> Some (set_phase i (SpRunning es s') (c\<lparr>lf_trace := lf_trace c @ [(i, e)]\<rparr>))
      | SpRunning [] s' \<Rightarrow> Some (set_phase i (SpReleased s') (release_stream i c))
      | SpReleased s' \<Rightarrow> Some (set_phase i (SpDone s') c)
      | _ \<Rightarrow> None)"

text \<open>
  \<open>close\<close>, once: the flag and the active stream under the lock, then \<open>Stop\<close> of that stream, which
  returns when it is done, then \<open>http.Close\<close>, which waits for the round trips.
\<close>

definition close_begin :: "'p client_life \<Rightarrow> 'p client_life option" where
  "close_begin c =
     (if lf_close c = NotClosing then Some (c\<lparr>lf_closed := True, lf_close := ClosingStream (lf_active c)\<rparr>) else None)"

definition wait_errors :: "'p client_stream \<Rightarrow> close_error list option" where
  "wait_errors s =
     (case ls_phase s of
        SpDone s' \<Rightarrow>
          map_option (\<lambda>r. case r of Inl a \<Rightarrow> [CeApi a] | Inr None \<Rightarrow> [] | Inr (Some e) \<Rightarrow> [CeStream e])
            (wait_stream (rm_state s'))
      | _ \<Rightarrow> None)"

definition close_subscription_errors :: "rt_config \<Rightarrow> string option \<Rightarrow> round_tripper \<Rightarrow> close_error list" where
  "close_subscription_errors x result r =
     (case (rt_subscription r, result) of
        (Some _, Some e) \<Rightarrow>
          [CeHttp \<lparr>rme_operation = ''close HTTP subscription'', rme_route = rx_response_topic x, rme_terminal = True,
                   rme_cause = RErrOther e\<rparr>]
      | _ \<Rightarrow> [])"

definition close_joined :: "rt_config \<Rightarrow> string option \<Rightarrow> 'p client_life \<Rightarrow> 'p client_life option" where
  "close_joined x result c =
     (case lf_close c of
        ClosingStream active \<Rightarrow>
          map_option (\<lambda>errs. c\<lparr>lf_http := close_http x (lf_http c),
                              lf_close := ClosingHttp (errs @ close_subscription_errors x result (lf_http c))\<rparr>)
            (case active of None \<Rightarrow> Some [] | Some i \<Rightarrow> wait_errors (lf_streams c ! i))
      | _ \<Rightarrow> None)"

definition close_return :: "'p client_life \<Rightarrow> 'p client_life option" where
  "close_return c =
     (case lf_close c of
        ClosingHttp errs \<Rightarrow>
          if list_all (\<lambda>t. t = TripReturned) (rt_trips (lf_http c)) then Some (c\<lparr>lf_close := ClosedWith errs\<rparr>) else None
      | _ \<Rightarrow> None)"

section \<open>Steps\<close>

inductive client_step :: "rt_config \<Rightarrow> 'p client_life \<Rightarrow> 'p client_life \<Rightarrow> bool" where
  new: "client_step x c (snd (new_status_stream json_float ops c))"
| start: "i < length (lf_streams c) \<Longrightarrow> list_all remote_ctx_stays_done (rs_conns env) \<Longrightarrow>
    start_owned dec env i c = Some c' \<Longrightarrow> client_step x c c'"
| stop: "i < length (lf_streams c) \<Longrightarrow> stop_owned i c = Some c' \<Longrightarrow> client_step x c c'"
| advance: "i < length (lf_streams c) \<Longrightarrow> advance_owned i c = Some c' \<Longrightarrow> client_step x c c'"
| trip: "trip_step x r (lf_http c) h \<Longrightarrow> client_step x c (c\<lparr>lf_http := h\<rparr>)"
| http: "outer_step x (lf_http c) h \<Longrightarrow> rt_closed h = rt_closed (lf_http c) \<Longrightarrow> client_step x c (c\<lparr>lf_http := h\<rparr>)"
| close1: "close_begin c = Some c' \<Longrightarrow> client_step x c c'"
| close2: "close_joined x result c = Some c' \<Longrightarrow> client_step x c c'"
| close3: "close_return c = Some c' \<Longrightarrow> client_step x c c'"

inductive client_reach :: "remote_client \<Rightarrow> 'p client_life \<Rightarrow> bool" for l where
  init: "client_reach l (new_client_life l)"
| step: "client_reach l c \<Longrightarrow> client_step (http_config l) c c' \<Longrightarrow> client_reach l c'"

inductive_cases client_stepE: "client_step x c c'"

section \<open>Invariant\<close>

definition stream_events :: "nat \<Rightarrow> 'p client_life \<Rightarrow> transport_event list" where
  "stream_events i c = map snd (filter (\<lambda>e. fst e = i) (lf_trace c))"

definition wire_events :: "transport_event list \<Rightarrow> wire" where
  "wire_events es = foldl wire_step WireIdle es"

definition released :: "'p client_stream \<Rightarrow> bool" where
  "released s = (case ls_phase s of SpReleased _ \<Rightarrow> True | SpDone _ \<Rightarrow> True | _ \<Rightarrow> False)"

definition fresh_stream :: "remote_stream_config \<Rightarrow> 'p remote_stream \<Rightarrow> bool" where
  "fresh_stream k s \<longleftrightarrow> \<not> started (rm_state s) \<and> running s \<and> rm_trace s = [] \<and> \<not> rm_activated s
     \<and> valid_stream_options (rk_options k)"

definition run_ended :: "'p remote_stream \<Rightarrow> bool" where
  "run_ended s \<longleftrightarrow> done_closed (rm_state s) \<and> wire_events (rm_trace s) \<in> {WireIdle, WireStopped}"

definition stream_ok :: "transport_event list \<Rightarrow> 'p client_stream \<Rightarrow> bool" where
  "stream_ok es s =
     (case ls_phase s of
        SpCreated \<Rightarrow> es = [] \<and> fresh_stream (ls_config s) (ls_state s)
      | SpRunning todo s' \<Rightarrow> es @ todo = rm_trace s' \<and> run_ended s'
      | SpReleased s' \<Rightarrow> es = rm_trace s' \<and> run_ended s'
      | SpDone s' \<Rightarrow> es = rm_trace s' \<and> run_ended s')"

definition closing_ok :: "'p client_life \<Rightarrow> bool" where
  "closing_ok c =
     (case lf_close c of
        NotClosing \<Rightarrow> \<not> lf_closed c
      | ClosingStream a \<Rightarrow> lf_closed c \<and> (lf_active c = None \<or> lf_active c = a)
      | ClosingHttp _ \<Rightarrow> lf_closed c \<and> lf_active c = None \<and> rt_closed (lf_http c)
      | ClosedWith _ \<Rightarrow> lf_closed c \<and> lf_active c = None \<and> rt_closed (lf_http c)
          \<and> list_all (\<lambda>t. t = TripReturned) (rt_trips (lf_http c)))"

definition streams_ok :: "'p client_life \<Rightarrow> bool" where
  "streams_ok c \<longleftrightarrow>
     (\<forall>i < length (lf_streams c). stream_ok (stream_events i c) (lf_streams c ! i)
        \<and> (\<not> released (lf_streams c ! i) \<longleftrightarrow> lf_active c = Some i))
     \<and> (\<forall>i. lf_active c = Some i \<longrightarrow> Suc i = length (lf_streams c))
     \<and> sorted (map fst (lf_trace c)) \<and> (\<forall>e \<in> set (lf_trace c). fst e < length (lf_streams c))"

lemma wire_events_of: "wire_of s = wire_events (rm_trace s)"
  by (simp add: wire_of_def wire_events_def)

lemma wire_bad_stays: "foldl wire_step WireBad es = WireBad"
  by (induction es) auto

lemma wire_events_prefix: "wire_events (es @ fs) \<noteq> WireBad \<Longrightarrow> wire_events es \<noteq> WireBad"
  by (auto simp: wire_events_def wire_bad_stays)

lemma stream_ok_wire:
  assumes "stream_ok es s"
  shows "wire_events es \<noteq> WireBad" and "released s \<Longrightarrow> wire_events es \<in> {WireIdle, WireStopped}"
proof -
  show "wire_events es \<noteq> WireBad"
  proof (cases "ls_phase s")
    case (SpRunning todo s')
    then show ?thesis using assms wire_events_prefix [of es todo] by (auto simp: stream_ok_def run_ended_def)
  qed (use assms in \<open>auto simp: stream_ok_def run_ended_def wire_events_def\<close>)
  show "wire_events es \<in> {WireIdle, WireStopped}" if "released s"
    using assms that by (auto simp: stream_ok_def run_ended_def released_def split: stream_phase.splits)
qed

text \<open>Creation and the two ways out of it.\<close>

lemma new_remote_stream_fresh:
  assumes "new_remote_stream json_float rc ops = Inr (k, s)"
  shows "fresh_stream k s"
proof -
  obtain o' where o': "resolve_stream_options ops = Inr o'" "rk_options k = o'"
      "s = \<lparr>rm_state = new_state remoteMessageBuffer, rm_activated = False, rm_stop_err = None, rm_close_err = None,
            rm_released = False, rm_next = 0, rm_trace = []\<rparr>"
    using assms by (auto simp: new_remote_stream_def rbind_eq_Inr)
  have "valid_stream_options o'"
    using o'(1) unfolding resolve_stream_options_def
    by (rule stream_opts.resolve_valid [rotated]) (simp add: valid_stream_options_def default_stream_options_def)
  then show ?thesis using o' by (simp add: fresh_stream_def running_def live_def new_state_def)
qed

lemma start_remote_ended:
  assumes "fresh_stream k s" and "list_all remote_ctx_stays_done (rs_conns env)" and "start_remote k dec env s = (err, Done s')"
  shows "run_ended s'"
  using start_remote_ok [of s k env dec] assms
  by (auto simp: fresh_stream_def run_ended_def wire_events_of wire_events_def split: if_splits)

lemma stop_idle_ended:
  assumes "fresh_stream k s" and "stop_remote_idle k s = (True, s')"
  shows "run_ended s'"
proof -
  define s1 where "s1 = s\<lparr>rm_state := (rm_state s)\<lparr>started := True\<rparr>\<rparr>"
  have s1: "running s1" "rm_trace s1 = []" "\<not> rm_activated s1"
    using assms(1) by (simp_all add: s1_def fresh_stream_def running_def live_def)
  have "s' = finish_remote k None None s1"
    using assms by (simp add: stop_remote_idle_def stop_before_start_def fresh_stream_def s1_def)
  then show ?thesis
    using finish_remote_ok [OF s1(1), of k None None] s1 by (simp add: run_ended_def wire_events_of wire_events_def)
qed

text \<open>One stream changes, the slot is freed when it is released.\<close>

lemma streams_ok_update:
  assumes ok: "streams_ok c" and i: "i < length (lf_streams c)"
    and new: "lf_streams c' = (lf_streams c)[i := s]" "stream_ok (stream_events i c') s"
      "\<And>j. j \<noteq> i \<Longrightarrow> stream_events j c' = stream_events j c"
    and slot: "lf_active c' = (if released s \<and> lf_active c = Some i then None else lf_active c)"
      "released (lf_streams c ! i) \<Longrightarrow> released s"
    and trace: "sorted (map fst (lf_trace c'))" "\<forall>e \<in> set (lf_trace c'). fst e < length (lf_streams c)"
  shows "streams_ok c'"
proof -
  have one: "stream_ok (stream_events j c') (lf_streams c' ! j) \<and> (\<not> released (lf_streams c' ! j) \<longleftrightarrow> lf_active c' = Some j)"
    if "j < length (lf_streams c)" for j
  proof (cases "j = i")
    case True
    then show ?thesis using ok i new(1,2) slot by (auto simp: streams_ok_def)
  next
    case False
    then have "stream_ok (stream_events j c) (lf_streams c ! j) \<and> (\<not> released (lf_streams c ! j) \<longleftrightarrow> lf_active c = Some j)"
      using ok that by (simp add: streams_ok_def)
    then show ?thesis using False new(1,3) slot(1) by auto
  qed
  have last: "Suc j = length (lf_streams c)" if "lf_active c' = Some j" for j
    using that slot(1) ok by (auto simp: streams_ok_def split: if_splits)
  show ?thesis using one last trace new(1) by (auto simp: streams_ok_def)
qed

lemma set_phase_simps [simp]:
  "lf_streams (set_phase i p c) = (lf_streams c)[i := (lf_streams c ! i)\<lparr>ls_phase := p\<rparr>]"
  "lf_trace (set_phase i p c) = lf_trace c" "lf_active (set_phase i p c) = lf_active c"
  "lf_http (set_phase i p c) = lf_http c" "lf_close (set_phase i p c) = lf_close c" "lf_closed (set_phase i p c) = lf_closed c"
  by (simp_all add: set_phase_def)

lemma release_stream_simps [simp]:
  "lf_streams (release_stream i c) = lf_streams c" "lf_trace (release_stream i c) = lf_trace c"
  "lf_active (release_stream i c) = (if lf_active c = Some i then None else lf_active c)"
  "lf_http (release_stream i c) = lf_http c" "lf_close (release_stream i c) = lf_close c" "lf_closed (release_stream i c) = lf_closed c"
  by (simp_all add: release_stream_def)

lemma stream_events_cong: "lf_trace c' = lf_trace c \<Longrightarrow> stream_events i c' = stream_events i c"
  by (simp add: stream_events_def)

lemma streams_okD:
  assumes "streams_ok c"
  shows "i < length (lf_streams c) \<Longrightarrow> stream_ok (stream_events i c) (lf_streams c ! i)"
    and "i < length (lf_streams c) \<Longrightarrow> \<not> released (lf_streams c ! i) \<longleftrightarrow> lf_active c = Some i"
    and "lf_active c = Some i \<Longrightarrow> Suc i = length (lf_streams c)"
    and "sorted (map fst (lf_trace c))" and "\<forall>e \<in> set (lf_trace c). fst e < length (lf_streams c)"
  using assms by (auto simp: streams_ok_def)

lemma streams_ok_cong:
  "streams_ok c \<Longrightarrow> lf_streams c' = lf_streams c \<Longrightarrow> lf_active c' = lf_active c \<Longrightarrow> lf_trace c' = lf_trace c \<Longrightarrow> streams_ok c'"
  by (simp add: streams_ok_def stream_events_def)

lemma new_status_stream_cases:
  obtains (refused) e where "new_status_stream json_float ops c = (Inl e, c)"
  | (made) k s where "\<not> lf_closed c" "lf_active c = None" "new_remote_stream json_float (lf_config c) ops = Inr (k, s)"
      "new_status_stream json_float ops c = (Inr (length (lf_streams c)), c\<lparr>lf_active := Some (length (lf_streams c)),
         lf_streams := lf_streams c @ [\<lparr>ls_config = k, ls_state = s, ls_phase = SpCreated\<rparr>]\<rparr>)"
  by (cases "new_status_stream json_float ops c")
    (auto simp: new_status_stream_def Let_def split: if_splits sum.splits prod.splits)

lemma new_status_stream_ok:
  assumes "streams_ok c"
  shows "streams_ok (snd (new_status_stream json_float ops c))"
proof (cases rule: new_status_stream_cases [of json_float ops c])
  case (refused e)
  then show ?thesis using assms by simp
next
  case (made k s)
  note d = streams_okD [OF assms]
  have none: "stream_events (length (lf_streams c)) c = []"
    using d(5) by (auto simp: stream_events_def filter_empty_conv)
  define c' where "c' = snd (new_status_stream json_float ops c)"
  have c': "lf_streams c' = lf_streams c @ [\<lparr>ls_config = k, ls_state = s, ls_phase = SpCreated\<rparr>]"
    "lf_active c' = Some (length (lf_streams c))" "lf_trace c' = lf_trace c"
    using made by (simp_all add: c'_def)
  have ev: "stream_events j c' = stream_events j c" for j using c'(3) by (rule stream_events_cong)
  have "\<forall>e \<in> set (lf_trace c'). fst e < length (lf_streams c')" using d(5) c' by auto
  moreover have "stream_ok (stream_events j c') (lf_streams c' ! j) \<and> (\<not> released (lf_streams c' ! j) \<longleftrightarrow> lf_active c' = Some j)"
    if "j < length (lf_streams c')" for j
    using that d(1,2) [of j] made(2) c' ev none new_remote_stream_fresh [OF made(3)]
    by (cases "j = length (lf_streams c)") (auto simp: nth_append stream_ok_def released_def)
  ultimately show ?thesis unfolding c'_def [symmetric] using d(4) c' by (simp add: streams_ok_def)
qed

lemma start_owned_ok:
  assumes "streams_ok c" and "i < length (lf_streams c)" and "list_all remote_ctx_stays_done (rs_conns env)"
    and "start_owned dec env i c = Some c'"
  shows "streams_ok c'"
proof -
  note d = streams_okD [OF assms(1)]
  obtain err s' where p: "ls_phase (lf_streams c ! i) = SpCreated"
      "start_remote (ls_config (lf_streams c ! i)) dec env (ls_state (lf_streams c ! i)) = (err, Done s')"
      "c' = set_phase i (SpRunning (rm_trace s') s') c"
    using assms(4) by (auto simp: start_owned_def split: stream_phase.splits outcome.splits prod.splits)
  have e: "stream_events i c = []" "fresh_stream (ls_config (lf_streams c ! i)) (ls_state (lf_streams c ! i))"
    using d(1) [OF assms(2)] p(1) by (simp_all add: stream_ok_def)
  have ev: "stream_events j c' = stream_events j c" for j by (rule stream_events_cong) (simp add: p(3))
  show ?thesis
    by (rule streams_ok_update [OF assms(1,2), of c' "(lf_streams c ! i)\<lparr>ls_phase := SpRunning (rm_trace s') s'\<rparr>"])
      (use p d(4,5) e ev start_remote_ended [OF e(2) assms(3) p(2)] in \<open>simp_all add: stream_ok_def released_def\<close>)
qed

lemma stop_owned_ok:
  assumes "streams_ok c" and "i < length (lf_streams c)" and "stop_owned i c = Some c'"
  shows "streams_ok c'"
proof -
  note d = streams_okD [OF assms(1)]
  obtain s' where p: "ls_phase (lf_streams c ! i) = SpCreated"
      "stop_remote_idle (ls_config (lf_streams c ! i)) (ls_state (lf_streams c ! i)) = (True, s')"
      "c' = set_phase i (SpRunning (rm_trace s') s') c"
    using assms(3) by (auto simp: stop_owned_def split: stream_phase.splits prod.splits bool.splits)
  have e: "stream_events i c = []" "fresh_stream (ls_config (lf_streams c ! i)) (ls_state (lf_streams c ! i))"
    using d(1) [OF assms(2)] p(1) by (simp_all add: stream_ok_def)
  have ev: "stream_events j c' = stream_events j c" for j by (rule stream_events_cong) (simp add: p(3))
  show ?thesis
    by (rule streams_ok_update [OF assms(1,2), of c' "(lf_streams c ! i)\<lparr>ls_phase := SpRunning (rm_trace s') s'\<rparr>"])
      (use p d(4,5) e ev stop_idle_ended [OF e(2) p(2)] in \<open>simp_all add: stream_ok_def released_def\<close>)
qed

lemma advance_owned_ok:
  assumes "streams_ok c" and "i < length (lf_streams c)" and "advance_owned i c = Some c'"
  shows "streams_ok c'"
proof (cases "ls_phase (lf_streams c ! i)")
  case (SpRunning es s')
  note d = streams_okD [OF assms(1)]
  have ev: "stream_events i c @ es = rm_trace s'" "run_ended s'" and "\<not> released (lf_streams c ! i)"
    using d(1) [OF assms(2)] SpRunning by (simp_all add: stream_ok_def released_def)
  then have act: "\<not> released (lf_streams c ! i)" "lf_active c = Some i" "Suc i = length (lf_streams c)" using d(2) [OF assms(2)] d(3) by auto
  show ?thesis
  proof (cases es)
    case Nil
    then have c': "c' = set_phase i (SpReleased s') (release_stream i c)"
      using assms(3) SpRunning by (simp add: advance_owned_def)
    have evs: "stream_events j c' = stream_events j c" for j by (rule stream_events_cong) (simp add: c')
    show ?thesis
      by (rule streams_ok_update [OF assms(1,2), of c' "(lf_streams c ! i)\<lparr>ls_phase := SpReleased s'\<rparr>"])
        (use c' d(4,5) ev evs act Nil in \<open>simp_all add: stream_ok_def released_def\<close>)
  next
    case (Cons e fs)
    then have c': "c' = set_phase i (SpRunning fs s') (c\<lparr>lf_trace := lf_trace c @ [(i, e)]\<rparr>)"
      using assms(3) SpRunning by (simp add: advance_owned_def)
    have evs: "stream_events j c' = stream_events j c @ (if j = i then [e] else [])" for j by (simp add: c' stream_events_def)
    have "\<forall>p \<in> set (lf_trace c). fst p \<le> i" using d(5) act(3) by auto
    then have "sorted (map fst (lf_trace c'))" using d(4) by (auto simp: c' sorted_append)
    moreover have "\<forall>p \<in> set (lf_trace c'). fst p < length (lf_streams c)" using d(5) assms(2) by (auto simp: c')
    ultimately show ?thesis
      by (intro streams_ok_update [OF assms(1,2), of c' "(lf_streams c ! i)\<lparr>ls_phase := SpRunning fs s'\<rparr>"])
        (use c' ev evs act Cons in \<open>simp_all add: stream_ok_def released_def\<close>)
  qed
next
  case (SpReleased s')
  note d = streams_okD [OF assms(1)]
  have c': "c' = set_phase i (SpDone s') c" using assms(3) SpReleased by (simp add: advance_owned_def)
  have evs: "stream_events j c' = stream_events j c" for j by (rule stream_events_cong) (simp add: c')
  have "lf_active c \<noteq> Some i" using d(2) [OF assms(2)] SpReleased by (simp add: released_def)
  then show ?thesis
    by (intro streams_ok_update [OF assms(1,2), of c' "(lf_streams c ! i)\<lparr>ls_phase := SpDone s'\<rparr>"])
      (use c' d(1) [OF assms(2)] d(4,5) evs SpReleased in \<open>simp_all add: stream_ok_def released_def\<close>)
qed (use assms(3) in \<open>simp_all add: advance_owned_def\<close>)

section \<open>Closing\<close>

definition all_returned :: "round_tripper \<Rightarrow> bool" where
  "all_returned h \<longleftrightarrow> list_all (\<lambda>t. t = TripReturned) (rt_trips h)"

lemma trip_step_closed: "trip_step x r h h' \<Longrightarrow> rt_closed h' = rt_closed h"
  by (erule trip_stepE)
    (auto simp: set_trip_def unregister_trip_def ensure_subscription_def register_trip_def Let_def
      split: if_splits option.splits sum.splits bool.splits)

lemma trip_step_unreturned: "trip_step x r h h' \<Longrightarrow> \<not> all_returned h"
  by (erule trip_stepE) (auto simp: all_returned_def list_all_length intro: exI [of _ r])

text \<open>Once closed, the HTTP side begins nothing new.\<close>

lemma outer_step_closed:
  assumes "outer_step x h h'" and "rt_closed h" and "rt_closed h' = rt_closed h" and "all_returned h"
  shows "all_returned h'"
  using assms
  by (elim outer_stepE)
    (auto simp: all_returned_def begin_round_trip_def receive_http_def subscription_failed_def close_http_def fail_pending_def Let_def
      split: option.splits)

lemma closing_ok_streams:
  assumes "closing_ok c" and "lf_closed c' = lf_closed c" and "lf_close c' = lf_close c" and "lf_http c' = lf_http c"
    and "lf_active c' = lf_active c \<or> lf_active c' = None"
  shows "closing_ok c'"
  using assms by (auto simp: closing_ok_def split: close_progress.splits)

lemma new_status_stream_closed: "lf_closed c \<Longrightarrow> new_status_stream json_float ops c = (Inl NsClosed, c)"
  by (simp add: new_status_stream_def)

lemma new_status_stream_closing: "closing_ok c \<Longrightarrow> closing_ok (snd (new_status_stream json_float ops c))"
proof (cases rule: new_status_stream_cases [of json_float ops c])
  case (made k s)
  assume "closing_ok c"
  then have "lf_close c = NotClosing" using made(1) by (auto simp: closing_ok_def split: close_progress.splits)
  then show ?thesis using made by (simp add: closing_ok_def)
qed simp

lemma owned_frame:
  "start_owned dec env i c = Some c' \<Longrightarrow>
     lf_closed c' = lf_closed c \<and> lf_close c' = lf_close c \<and> lf_http c' = lf_http c \<and> lf_active c' = lf_active c"
  "stop_owned i c = Some c' \<Longrightarrow>
     lf_closed c' = lf_closed c \<and> lf_close c' = lf_close c \<and> lf_http c' = lf_http c \<and> lf_active c' = lf_active c"
  "advance_owned i c = Some c' \<Longrightarrow>
     lf_closed c' = lf_closed c \<and> lf_close c' = lf_close c \<and> lf_http c' = lf_http c
     \<and> (lf_active c' = lf_active c \<or> lf_active c' = None)"
  by (auto simp: start_owned_def stop_owned_def advance_owned_def
      split: stream_phase.splits outcome.splits prod.splits bool.splits list.splits if_splits)

lemma wait_errors_released: "wait_errors s = Some es \<Longrightarrow> released s"
  by (auto simp: wait_errors_def released_def split: stream_phase.splits)

lemma close_joined_ok:
  assumes "streams_ok c" and "closing_ok c" and "close_joined x result c = Some c'"
  shows "closing_ok c'"
proof -
  obtain a es where a: "lf_close c = ClosingStream a"
      "(case a of None \<Rightarrow> Some [] | Some i \<Rightarrow> wait_errors (lf_streams c ! i)) = Some es"
      "c' = c\<lparr>lf_http := close_http x (lf_http c), lf_close := ClosingHttp (es @ close_subscription_errors x result (lf_http c))\<rparr>"
    using assms(3) by (auto simp: close_joined_def split: close_progress.splits)
  have "lf_active c = None"
  proof (rule ccontr)
    assume "lf_active c \<noteq> None"
    then obtain i where i: "lf_active c = Some i" by auto
    then have "a = Some i" using assms(2) a(1) by (simp add: closing_ok_def)
    then have "released (lf_streams c ! i)" using a(2) wait_errors_released by simp
    then show False using i streams_okD(2,3) [OF assms(1), of i] by auto
  qed
  then show ?thesis using assms(2) a by (simp add: closing_ok_def close_http_def fail_pending_def)
qed

lemma close_return_ok: "closing_ok c \<Longrightarrow> close_return c = Some c' \<Longrightarrow> closing_ok c'"
  by (auto simp: close_return_def closing_ok_def split: close_progress.splits if_splits)

lemma client_step_closing:
  assumes "client_step x c c'" and "streams_ok c" and "closing_ok c"
  shows "closing_ok c'"
  using assms(1)
proof (cases rule: client_step.cases)
  case (trip r h)
  then show ?thesis using assms(3) trip_step_closed [OF trip(2)] trip_step_unreturned [OF trip(2)]
    by (auto simp: closing_ok_def all_returned_def split: close_progress.splits)
next
  case (http h)
  then show ?thesis using assms(3) outer_step_closed [OF http(2)]
    by (auto simp: closing_ok_def all_returned_def split: close_progress.splits)
next
  case close1
  then show ?thesis using assms(3) by (auto simp: close_begin_def closing_ok_def split: if_splits)
qed (use assms(2,3) in \<open>auto intro: new_status_stream_closing close_joined_ok close_return_ok closing_ok_streams dest: owned_frame\<close>)

lemma client_step_streams:
  assumes "client_step x c c'" and "streams_ok c"
  shows "streams_ok c'"
  using assms(1)
proof (cases rule: client_step.cases)
  case close1
  then show ?thesis using assms(2) by (auto simp: close_begin_def split: if_splits intro: streams_ok_cong)
next
  case close2
  then show ?thesis using assms(2) by (auto simp: close_joined_def split: close_progress.splits intro: streams_ok_cong)
next
  case close3
  then show ?thesis using assms(2) by (auto simp: close_return_def split: close_progress.splits if_splits intro: streams_ok_cong)
qed (use assms(2) in \<open>auto intro: new_status_stream_ok start_owned_ok stop_owned_ok advance_owned_ok streams_ok_cong\<close>)

lemma client_reach_ok: "client_reach l c \<Longrightarrow> streams_ok c \<and> closing_ok c"
proof (induction rule: client_reach.induct)
  case init
  show ?case by (simp add: streams_ok_def closing_ok_def new_client_life_def)
next
  case (step c c')
  then show ?case using client_step_streams client_step_closing by blast
qed

text \<open>After \<open>Close\<close> returned every stream is released and nothing is sent any more.\<close>

lemma closed_released: "client_reach l c \<Longrightarrow> lf_close c = ClosedWith es \<Longrightarrow> i < length (lf_streams c) \<Longrightarrow> released (lf_streams c ! i)"
  using client_reach_ok [of l c] streams_okD(2) [of c i] by (auto simp: closing_ok_def)

lemma closed_step:
  assumes "client_reach l c" and "lf_close c = ClosedWith es" and "client_step (http_config l) c c'"
  shows "lf_close c' = ClosedWith es \<and> lf_trace c' = lf_trace c"
proof -
  have closed: "lf_closed c" and quiet: "\<And>i. i < length (lf_streams c) \<Longrightarrow> released (lf_streams c ! i)"
    using client_reach_ok [OF assms(1)] closed_released [OF assms(1,2)] assms(2) by (auto simp: closing_ok_def)
  from assms(3) show ?thesis
  proof (cases rule: client_step.cases)
    case (advance i)
    then show ?thesis using quiet [of i] assms(2)
      by (auto simp: advance_owned_def released_def split: stream_phase.splits list.splits)
  qed (use assms(2) closed in \<open>auto simp: new_status_stream_closed close_begin_def close_joined_def close_return_def
      start_owned_def stop_owned_def split: stream_phase.splits outcome.splits prod.splits bool.splits\<close>)
qed

section \<open>Property\<close>


text \<open>A client makes a stream, stops it unstarted and is closed.\<close>

definition sample_remote_client :: remote_client where
  "sample_remote_client =
     \<lparr>rl_config = default_remote_config\<lparr>rc_client_id := ''c'', rc_session_id := ''s''\<rparr>,
      rl_request_topic = request_topic ''s'', rl_response_topic = response_topic ''s'' ''c'',
      rl_device = \<lparr>cl_base = \<lparr>bu_scheme = ''http'', bu_host = ''busybar.remote.invalid''\<rparr>, cl_http = 1, cl_timeout = second,
        cl_mode = EndpointRemote, cl_token = [], cl_session = [], cl_generator = 0,
        cl_retry = \<lparr>rp_attempts = 0, rp_backoff = 0\<rparr>, cl_negotiation = NegotiationDisabled, cl_max_response = 1\<rparr>\<rparr>"

definition sample_made :: "nat client_life" where
  "sample_made = snd (new_status_stream (\<lambda>d. ''1'') [] (new_client_life sample_remote_client))"

definition sample_stopped :: "nat client_life" where "sample_stopped = the (stop_owned 0 sample_made)"
definition sample_freed :: "nat client_life" where "sample_freed = the (advance_owned 0 sample_stopped)"
definition sample_closed :: "nat client_life" where
  "sample_closed = the (close_return (the (close_joined (http_config sample_remote_client) None (the (close_begin sample_freed)))))"

lemma sample_client_steps:
  "stop_owned 0 sample_made = Some sample_stopped" "advance_owned 0 sample_stopped = Some sample_freed"
  "close_begin sample_freed = Some (the (close_begin sample_freed))"
  "close_joined (http_config sample_remote_client) None (the (close_begin sample_freed))
     = Some (the (close_joined (http_config sample_remote_client) None (the (close_begin sample_freed))))"
  "close_return (the (close_joined (http_config sample_remote_client) None (the (close_begin sample_freed)))) = Some sample_closed"
  "length (lf_streams sample_made) = 1" "length (lf_streams sample_stopped) = 1"
  "lf_close sample_closed = ClosedWith []" "length (lf_streams sample_closed) = 1"
  by code_simp+

lemma sample_closed_reach: "client_reach sample_remote_client sample_closed"
proof -
  let ?x = "http_config sample_remote_client"
  have "client_reach sample_remote_client sample_made"
    unfolding sample_made_def by (rule client_reach.step [OF client_reach.init client_step.new])
  then have "client_reach sample_remote_client sample_stopped"
    by (rule client_reach.step) (rule client_step.stop [of 0], simp_all add: sample_client_steps)
  then have "client_reach sample_remote_client sample_freed"
    by (rule client_reach.step) (rule client_step.advance [of 0], simp_all add: sample_client_steps)
  then have "client_reach sample_remote_client (the (close_begin sample_freed))"
    by (rule client_reach.step) (rule client_step.close1 [OF sample_client_steps(3)])
  then have "client_reach sample_remote_client (the (close_joined ?x None (the (close_begin sample_freed))))"
    by (rule client_reach.step) (rule client_step.close2 [OF sample_client_steps(4)])
  then show ?thesis
    by (rule client_reach.step) (rule client_step.close3 [OF sample_client_steps(5)])
qed


end
