(* ===== verification/SnapshotTypes.thy ===== *)
theory SnapshotTypes
  imports Json "HOL-Library.Monad_Syntax"
begin

text \<open>
  The snapshot data (\<open>snapshot/types.go\<close>): fields with their availability, error and raw response,
  the sections, the normalised values, and the queries \<open>Complete\<close>, \<open>Empty\<close> and \<open>Failures\<close>.

  A slice is an option: None is nil, so that a nil and an empty slice stay different. \<open>'x\<close> is the
  error of the API client, \<open>'j\<close> the aggregate responses kept as they are decoded, \<open>'m\<close> the generated
  messages kept whole.
\<close>

section \<open>Fields\<close>

datatype decode_error =
    SdJson "string option" \<comment> \<open>a syntax error of the document, or a type that does not fit\<close>
  | SdText string
  | SdUnsupported string string
  | SdRange string
  | SdTime string

datatype 'x snapshot_error =
    SeClient 'x
  | SeProtocol string string string decode_error \<comment> \<open>path, request identifier, excerpt, cause\<close>

record ('a, 'x) snap_field =
  f_value :: 'a
  f_present :: bool
  f_err :: "'x snapshot_error option"
  f_raw :: "bytes option"

definition absent :: "'a \<Rightarrow> ('a, 'x) snap_field" where
  "absent z = \<lparr>f_value = z, f_present = False, f_err = None, f_raw = None\<rparr>"

definition present :: "'a \<Rightarrow> ('a, 'x) snap_field" where
  "present v = \<lparr>f_value = v, f_present = True, f_err = None, f_raw = None\<rparr>"

datatype snap_section =
    SectionName | SectionVersion | SectionStatus | SectionSystem | SectionPower | SectionTime
  | SectionWiFi | SectionBrightness | SectionAudioVolume | SectionBLE | SectionStorage
  | SectionFirmwareUpdate | SectionUpdateCheck | SectionTimezone | SectionMatter | SectionFrame
  | SectionInput | SectionTimer | SectionAutoUpdate | SectionTimerProfiles

fun section_id :: "snap_section \<Rightarrow> string" where
  "section_id SectionName = ''name''"
| "section_id SectionVersion = ''version''"
| "section_id SectionStatus = ''status''"
| "section_id SectionSystem = ''system''"
| "section_id SectionPower = ''power''"
| "section_id SectionTime = ''time''"
| "section_id SectionWiFi = ''wifi''"
| "section_id SectionBrightness = ''brightness''"
| "section_id SectionAudioVolume = ''audio_volume''"
| "section_id SectionBLE = ''ble''"
| "section_id SectionStorage = ''storage''"
| "section_id SectionFirmwareUpdate = ''firmware_update''"
| "section_id SectionUpdateCheck = ''update_check''"
| "section_id SectionTimezone = ''timezone''"
| "section_id SectionMatter = ''matter''"
| "section_id SectionFrame = ''frame''"
| "section_id SectionInput = ''input''"
| "section_id SectionTimer = ''timer''"
| "section_id SectionAutoUpdate = ''auto_update''"
| "section_id SectionTimerProfiles = ''timer_profiles''"

text \<open>The identifiers are distinct, so sections can stand for the map keys they are in Go.\<close>

lemma section_id_inj: "inj section_id"
proof (rule injI)
  fix a b
  assume "section_id a = section_id b"
  then show "a = b" by (cases a; cases b; simp)
qed

section \<open>Values\<close>

type_synonym proto_enum = u32

record device_time =
  dt_timestamp :: string
  dt_time :: int

definition zero_time :: device_time where
  "zero_time = \<lparr>dt_timestamp = [], dt_time = 0\<rparr>"

record power =
  pw_known :: bool
  pw_status :: proto_enum
  pw_charge :: u32
  pw_voltage :: u32
  pw_current :: u32 \<comment> \<open>read with \<open>sint\<close>\<close>
  pw_usb :: u32

definition zero_power :: power where
  "zero_power = \<lparr>pw_known = False, pw_status = 0, pw_charge = 0, pw_voltage = 0, pw_current = 0, pw_usb = 0\<rparr>"

datatype brightness_mode = BrightnessUnset | BrightnessModeUnknown | BrightnessModeAutomatic | BrightnessModeManual

record brightness =
  br_mode :: brightness_mode
  br_manual :: "u32 option"
  br_actual :: "u32 option"

definition zero_brightness :: brightness where
  "zero_brightness = \<lparr>br_mode = BrightnessUnset, br_manual = None, br_actual = None\<rparr>"

datatype wifi_state = WiFiStateUnset | WiFiStateUnknown | WiFiStateInactive | WiFiStateActive

record ip_address =
  ip_protocol :: proto_enum
  ip_method :: proto_enum
  ip_addr :: string
  ip_gateway :: string
  ip_netmask :: string

record wifi =
  wf_state :: wifi_state
  wf_connection :: "proto_enum option"
  wf_ssid :: string
  wf_bssid :: string
  wf_channel :: u32
  wf_rssi :: u32 \<comment> \<open>read with \<open>sint\<close>\<close>
  wf_security :: string
  wf_code :: "proto_enum option"
  wf_addresses :: "ip_address list option"

definition zero_wifi :: wifi where
  "zero_wifi = \<lparr>wf_state = WiFiStateUnset, wf_connection = None, wf_ssid = [], wf_bssid = [], wf_channel = 0,
     wf_rssi = 0, wf_security = [], wf_code = None, wf_addresses = None\<rparr>"

record ble =
  bl_status :: proto_enum
  bl_address :: "string option"

definition zero_ble :: ble where
  "zero_ble = \<lparr>bl_status = 0, bl_address = None\<rparr>"

section \<open>Snapshots\<close>

record ('x, 'j, 'm) snapshot =
  sn_name :: "(string, 'x) snap_field"
  sn_version :: "(string, 'x) snap_field"
  sn_status :: "('j option, 'x) snap_field"
  sn_system :: "('j option, 'x) snap_field"
  sn_power :: "(power, 'x) snap_field"
  sn_time :: "(device_time, 'x) snap_field"
  sn_wifi :: "(wifi, 'x) snap_field"
  sn_brightness :: "(brightness, 'x) snap_field"
  sn_volume :: "(int, 'x) snap_field"
  sn_ble :: "(ble, 'x) snap_field"
  sn_storage :: "('j option, 'x) snap_field"
  sn_firmware :: "('m option, 'x) snap_field"
  sn_check :: "('m option, 'x) snap_field"
  sn_timezone :: "('m option, 'x) snap_field"
  sn_matter :: "('m option, 'x) snap_field"
  sn_frame :: "('m option, 'x) snap_field"
  sn_input :: "('m option, 'x) snap_field"
  sn_timer :: "('m option, 'x) snap_field"
  sn_auto :: "('m option, 'x) snap_field"
  sn_profiles :: "('m option, 'x) snap_field"

definition empty_snapshot :: "('x, 'j, 'm) snapshot" where
  "empty_snapshot =
     \<lparr>sn_name = absent [], sn_version = absent [], sn_status = absent None, sn_system = absent None,
      sn_power = absent zero_power, sn_time = absent zero_time, sn_wifi = absent zero_wifi,
      sn_brightness = absent zero_brightness, sn_volume = absent 0, sn_ble = absent zero_ble,
      sn_storage = absent None, sn_firmware = absent None, sn_check = absent None, sn_timezone = absent None,
      sn_matter = absent None, sn_frame = absent None, sn_input = absent None, sn_timer = absent None,
      sn_auto = absent None, sn_profiles = absent None\<rparr>"

definition complete :: "('x, 'j, 'm) snapshot \<Rightarrow> bool" where
  "complete s \<longleftrightarrow>
     f_present (sn_name s) \<and> f_present (sn_version s) \<and> f_present (sn_status s)
     \<and> f_present (sn_system s) \<and> f_present (sn_power s) \<and> f_present (sn_time s)
     \<and> f_present (sn_wifi s) \<and> f_present (sn_brightness s) \<and> f_present (sn_volume s)
     \<and> f_present (sn_ble s) \<and> f_present (sn_storage s)"

definition snapshot_empty :: "('x, 'j, 'm) snapshot \<Rightarrow> bool" where
  "snapshot_empty s \<longleftrightarrow>
     \<not> f_present (sn_name s) \<and> \<not> f_present (sn_version s) \<and> \<not> f_present (sn_status s)
     \<and> \<not> f_present (sn_system s) \<and> \<not> f_present (sn_power s) \<and> \<not> f_present (sn_time s)
     \<and> \<not> f_present (sn_wifi s) \<and> \<not> f_present (sn_brightness s) \<and> \<not> f_present (sn_volume s)
     \<and> \<not> f_present (sn_ble s) \<and> \<not> f_present (sn_storage s) \<and> \<not> f_present (sn_firmware s)
     \<and> \<not> f_present (sn_check s) \<and> \<not> f_present (sn_timezone s) \<and> \<not> f_present (sn_matter s)
     \<and> \<not> f_present (sn_frame s) \<and> \<not> f_present (sn_input s) \<and> \<not> f_present (sn_timer s)
     \<and> \<not> f_present (sn_auto s) \<and> \<not> f_present (sn_profiles s)"

definition add_failure :: "snap_section \<Rightarrow> 'x snapshot_error option \<Rightarrow> (snap_section \<rightharpoonup> 'x snapshot_error) \<Rightarrow> snap_section \<rightharpoonup> 'x snapshot_error" where
  "add_failure sec err m = (case err of None \<Rightarrow> m | Some e \<Rightarrow> m(sec \<mapsto> e))"

definition failures :: "('x, 'j, 'm) snapshot \<Rightarrow> snap_section \<rightharpoonup> 'x snapshot_error" where
  "failures s =
     fold (\<lambda>(sec, err). add_failure sec err)
       [(SectionName, f_err (sn_name s)), (SectionVersion, f_err (sn_version s)), (SectionStatus, f_err (sn_status s)),
        (SectionSystem, f_err (sn_system s)), (SectionPower, f_err (sn_power s)), (SectionTime, f_err (sn_time s)),
        (SectionWiFi, f_err (sn_wifi s)), (SectionBrightness, f_err (sn_brightness s)),
        (SectionAudioVolume, f_err (sn_volume s)), (SectionBLE, f_err (sn_ble s)), (SectionStorage, f_err (sn_storage s)),
        (SectionFirmwareUpdate, f_err (sn_firmware s)), (SectionUpdateCheck, f_err (sn_check s)),
        (SectionTimezone, f_err (sn_timezone s)), (SectionMatter, f_err (sn_matter s)), (SectionFrame, f_err (sn_frame s)),
        (SectionInput, f_err (sn_input s)), (SectionTimer, f_err (sn_timer s)), (SectionAutoUpdate, f_err (sn_auto s)),
        (SectionTimerProfiles, f_err (sn_profiles s))] Map.empty"

text \<open>What every field has, whatever its value type: availability, error, raw response.\<close>

definition field_info :: "('a, 'x) snap_field \<Rightarrow> bool \<times> 'x snapshot_error option \<times> bytes option" where
  "field_info f = (f_present f, f_err f, f_raw f)"

fun section_info :: "snap_section \<Rightarrow> ('x, 'j, 'm) snapshot \<Rightarrow> bool \<times> 'x snapshot_error option \<times> bytes option" where
  "section_info SectionName s = field_info (sn_name s)"
| "section_info SectionVersion s = field_info (sn_version s)"
| "section_info SectionStatus s = field_info (sn_status s)"
| "section_info SectionSystem s = field_info (sn_system s)"
| "section_info SectionPower s = field_info (sn_power s)"
| "section_info SectionTime s = field_info (sn_time s)"
| "section_info SectionWiFi s = field_info (sn_wifi s)"
| "section_info SectionBrightness s = field_info (sn_brightness s)"
| "section_info SectionAudioVolume s = field_info (sn_volume s)"
| "section_info SectionBLE s = field_info (sn_ble s)"
| "section_info SectionStorage s = field_info (sn_storage s)"
| "section_info SectionFirmwareUpdate s = field_info (sn_firmware s)"
| "section_info SectionUpdateCheck s = field_info (sn_check s)"
| "section_info SectionTimezone s = field_info (sn_timezone s)"
| "section_info SectionMatter s = field_info (sn_matter s)"
| "section_info SectionFrame s = field_info (sn_frame s)"
| "section_info SectionInput s = field_info (sn_input s)"
| "section_info SectionTimer s = field_info (sn_timer s)"
| "section_info SectionAutoUpdate s = field_info (sn_auto s)"
| "section_info SectionTimerProfiles s = field_info (sn_profiles s)"

lemma field_info_simps [simp]:
  "field_info (absent z) = (False, None, None)" "field_info (present v) = (True, None, None)"
  by (simp_all add: field_info_def absent_def present_def)

lemma section_info_updates [simp]:
  "section_info sec (s\<lparr>sn_name := v_name\<rparr>) = (if sec = SectionName then field_info v_name else section_info sec s)"
  "section_info sec (s\<lparr>sn_version := v_version\<rparr>) = (if sec = SectionVersion then field_info v_version else section_info sec s)"
  "section_info sec (s\<lparr>sn_status := v_status\<rparr>) = (if sec = SectionStatus then field_info v_status else section_info sec s)"
  "section_info sec (s\<lparr>sn_system := v_system\<rparr>) = (if sec = SectionSystem then field_info v_system else section_info sec s)"
  "section_info sec (s\<lparr>sn_power := v_power\<rparr>) = (if sec = SectionPower then field_info v_power else section_info sec s)"
  "section_info sec (s\<lparr>sn_time := v_time\<rparr>) = (if sec = SectionTime then field_info v_time else section_info sec s)"
  "section_info sec (s\<lparr>sn_wifi := v_wifi\<rparr>) = (if sec = SectionWiFi then field_info v_wifi else section_info sec s)"
  "section_info sec (s\<lparr>sn_brightness := v_brightness\<rparr>) = (if sec = SectionBrightness then field_info v_brightness else section_info sec s)"
  "section_info sec (s\<lparr>sn_volume := v_volume\<rparr>) = (if sec = SectionAudioVolume then field_info v_volume else section_info sec s)"
  "section_info sec (s\<lparr>sn_ble := v_ble\<rparr>) = (if sec = SectionBLE then field_info v_ble else section_info sec s)"
  "section_info sec (s\<lparr>sn_storage := v_storage\<rparr>) = (if sec = SectionStorage then field_info v_storage else section_info sec s)"
  "section_info sec (s\<lparr>sn_firmware := v_firmware\<rparr>) = (if sec = SectionFirmwareUpdate then field_info v_firmware else section_info sec s)"
  "section_info sec (s\<lparr>sn_check := v_check\<rparr>) = (if sec = SectionUpdateCheck then field_info v_check else section_info sec s)"
  "section_info sec (s\<lparr>sn_timezone := v_timezone\<rparr>) = (if sec = SectionTimezone then field_info v_timezone else section_info sec s)"
  "section_info sec (s\<lparr>sn_matter := v_matter\<rparr>) = (if sec = SectionMatter then field_info v_matter else section_info sec s)"
  "section_info sec (s\<lparr>sn_frame := v_frame\<rparr>) = (if sec = SectionFrame then field_info v_frame else section_info sec s)"
  "section_info sec (s\<lparr>sn_input := v_input\<rparr>) = (if sec = SectionInput then field_info v_input else section_info sec s)"
  "section_info sec (s\<lparr>sn_timer := v_timer\<rparr>) = (if sec = SectionTimer then field_info v_timer else section_info sec s)"
  "section_info sec (s\<lparr>sn_auto := v_auto\<rparr>) = (if sec = SectionAutoUpdate then field_info v_auto else section_info sec s)"
  "section_info sec (s\<lparr>sn_profiles := v_profiles\<rparr>) = (if sec = SectionTimerProfiles then field_info v_profiles else section_info sec s)"
  by (cases sec; simp)+

lemma add_failure_apply:
  "add_failure sec err m x = (if x = sec then (if err = None then m x else err) else m x)"
  by (cases err) (auto simp: add_failure_def)

lemma failures_sections: "failures s sec = fst (snd (section_info sec s))"
  by (cases sec) (simp_all add: failures_def add_failure_apply field_info_def)

definition http_sections :: "snap_section list" where
  "http_sections = [SectionName, SectionVersion, SectionStatus, SectionSystem, SectionPower, SectionTime,
     SectionWiFi, SectionBrightness, SectionAudioVolume, SectionBLE, SectionStorage]"

lemma complete_sections: "complete s \<longleftrightarrow> list_all (\<lambda>sec. fst (section_info sec s)) http_sections"
  by (simp add: complete_def http_sections_def field_info_def)

lemma empty_sections: "snapshot_empty s \<longleftrightarrow> (\<forall>sec. \<not> fst (section_info sec s))"
proof
  assume "snapshot_empty s"
  then show "\<forall>sec. \<not> fst (section_info sec s)"
    unfolding snapshot_empty_def by (intro allI, case_tac sec) (simp_all add: field_info_def)
next
  assume *: "\<forall>sec. \<not> fst (section_info sec s)"
  have "\<not> fst (section_info sec s)" for sec using * by blast
  note this[of SectionName] this[of SectionVersion] this[of SectionStatus] this[of SectionSystem]
    this[of SectionPower] this[of SectionTime] this[of SectionWiFi] this[of SectionBrightness]
    this[of SectionAudioVolume] this[of SectionBLE] this[of SectionStorage] this[of SectionFirmwareUpdate]
    this[of SectionUpdateCheck] this[of SectionTimezone] this[of SectionMatter] this[of SectionFrame]
    this[of SectionInput] this[of SectionTimer] this[of SectionAutoUpdate] this[of SectionTimerProfiles]
  then show "snapshot_empty s" by (simp add: snapshot_empty_def field_info_def)
qed

end
