(* ===== verification/SnapshotCollect.thy ===== *)
theory SnapshotCollect
  imports SnapshotTypes
begin

text \<open>
  Collecting a snapshot over HTTP (\<open>snapshot/collect.go\<close>): the payload decoders with their range
  checks, \<open>collectJSON\<close>, and \<open>Collect\<close> with its checks of the context after every endpoint.

  The API client is a function from paths to its result, the context a function from the number of
  endpoints read so far to its error. JSON syntax, key folding and RFC 3339 times are parameters.
\<close>

section \<open>Payloads\<close>

record 'j payload_lib =
  pl_parse :: "bytes \<Rightarrow> string + json"
  pl_fold :: "string \<Rightarrow> string"
  pl_time :: "string \<Rightarrow> string + int"
  pl_value :: "snap_section \<Rightarrow> bytes \<Rightarrow> decode_error + 'j" \<comment> \<open>json.Unmarshal into the aggregate types\<close>

text \<open>json.Unmarshal into a struct: \<open>build\<close> assigns its fields from the members.\<close>

definition unmarshal_struct :: "'j payload_lib \<Rightarrow> ((string \<times> json) list \<Rightarrow> 'a option) \<Rightarrow> bytes \<Rightarrow> decode_error + 'a" where
  "unmarshal_struct lib build data =
     (case pl_parse lib data of
        Inl e \<Rightarrow> Inl (SdJson (Some e))
      | Inr v \<Rightarrow>
          (case Option.bind (json_members v) build of
             None \<Rightarrow> Inl (SdJson None)
           | Some x \<Rightarrow> Inr x))"

definition decode_name :: "'j payload_lib \<Rightarrow> bytes \<Rightarrow> decode_error + string" where
  "decode_name lib data =
     rbind (unmarshal_struct lib (struct_member (pl_fold lib) ''name'' (to_pointer [] to_string) None) data)
       (\<lambda>name. case name of None \<Rightarrow> Inl (SdText ''response did not include name'') | Some s \<Rightarrow> Inr s)"

record power_payload =
  pp_state :: string
  pp_charge :: int
  pp_voltage :: int
  pp_current :: int
  pp_usb :: int

definition build_power :: "(string \<Rightarrow> string) \<Rightarrow> (string \<times> json) list \<Rightarrow> power_payload option" where
  "build_power fold_name kvs =
     do { state \<leftarrow> struct_member fold_name ''state'' to_string [] kvs;
          charge \<leftarrow> struct_member fold_name ''battery_charge'' to_int 0 kvs;
          voltage \<leftarrow> struct_member fold_name ''battery_voltage'' to_int 0 kvs;
          current \<leftarrow> struct_member fold_name ''battery_current'' to_int 0 kvs;
          usb \<leftarrow> struct_member fold_name ''usb_voltage'' to_int 0 kvs;
          Some \<lparr>pp_state = state, pp_charge = charge, pp_voltage = voltage, pp_current = current, pp_usb = usb\<rparr> }"

definition BatteryStatus_DISCHARGING :: proto_enum where "BatteryStatus_DISCHARGING = 0"
definition BatteryStatus_CHARGING :: proto_enum where "BatteryStatus_CHARGING = 1"
definition BatteryStatus_CHARGED :: proto_enum where "BatteryStatus_CHARGED = 2"

definition power_status :: "string \<Rightarrow> decode_error + proto_enum" where
  "power_status value =
     (if value = ''discharging'' then Inr BatteryStatus_DISCHARGING
      else if value = ''charging'' then Inr BatteryStatus_CHARGING
      else if value = ''charged'' then Inr BatteryStatus_CHARGED
      else Inl (SdUnsupported ''power state'' value))"

definition unsigned32 :: "string \<Rightarrow> int \<Rightarrow> decode_error + u32" where
  "unsigned32 field value = (if value < 0 \<or> value > max_uint32 then Inl (SdRange field) else Inr (of_int value))"

definition battery_charge :: "int \<Rightarrow> decode_error + u32" where
  "battery_charge value =
     (case unsigned32 ''battery_charge'' value of
        Inl _ \<Rightarrow> Inl (SdText ''battery_charge must be between 0 and 100'')
      | Inr charge \<Rightarrow> if charge > 100 then Inl (SdText ''battery_charge must be between 0 and 100'') else Inr charge)"

definition decode_power :: "'j payload_lib \<Rightarrow> bytes \<Rightarrow> decode_error + power" where
  "decode_power lib data =
     rbind (unmarshal_struct lib (build_power (pl_fold lib)) data) (\<lambda>payload.
     rbind (power_status (pp_state payload)) (\<lambda>status.
     rbind (battery_charge (pp_charge payload)) (\<lambda>charge.
     rbind (unsigned32 ''battery_voltage'' (pp_voltage payload)) (\<lambda>voltage.
     rbind (unsigned32 ''usb_voltage'' (pp_usb payload)) (\<lambda>usb.
       if pp_current payload < min_int32 \<or> pp_current payload > max_int32
       then Inl (SdText ''battery_current does not fit signed 32 bits'')
       else Inr \<lparr>pw_known = True, pw_status = status, pw_charge = charge, pw_voltage = voltage,
                 pw_current = of_int (pp_current payload), pw_usb = usb\<rparr>)))))"

definition decode_time :: "'j payload_lib \<Rightarrow> bytes \<Rightarrow> decode_error + device_time" where
  "decode_time lib data =
     rbind (unmarshal_struct lib (struct_member (pl_fold lib) ''timestamp'' (to_pointer [] to_string) None) data)
       (\<lambda>timestamp.
          case timestamp of
            None \<Rightarrow> Inl (SdText ''response did not include timestamp'')
          | Some s \<Rightarrow>
              (case pl_time lib s of
                 Inl e \<Rightarrow> Inl (SdTime e)
               | Inr t \<Rightarrow> Inr \<lparr>dt_timestamp = s, dt_time = t\<rparr>))"

text \<open>\<open>strconv.ParseUint(s, 10, 32)\<close>\<close>

definition parse_uint32 :: "string \<Rightarrow> nat option" where
  "parse_uint32 s =
     (if s \<noteq> [] \<and> list_all is_digit s \<and> digits_value s < 2 ^ 32 then Some (digits_value s) else None)"

definition brightness_value :: "string \<Rightarrow> decode_error + brightness" where
  "brightness_value s =
     (if s = ''auto'' then Inr \<lparr>br_mode = BrightnessModeAutomatic, br_manual = None, br_actual = None\<rparr>
      else
        (case parse_uint32 s of
           None \<Rightarrow> Inl (SdText ''brightness value must be auto or 0-100'')
         | Some n \<Rightarrow>
             if n > 100 then Inl (SdText ''brightness value must be auto or 0-100'')
             else Inr \<lparr>br_mode = BrightnessModeManual, br_manual = Some (of_nat n), br_actual = None\<rparr>))"

definition decode_brightness :: "'j payload_lib \<Rightarrow> bytes \<Rightarrow> decode_error + brightness" where
  "decode_brightness lib data =
     rbind (unmarshal_struct lib (struct_member (pl_fold lib) ''value'' (to_pointer [] to_string) None) data)
       (\<lambda>value. case value of
          None \<Rightarrow> Inl (SdText ''response did not include value'')
        | Some s \<Rightarrow> brightness_value s)"

definition decode_volume :: "'j payload_lib \<Rightarrow> bytes \<Rightarrow> decode_error + int" where
  "decode_volume lib data =
     rbind (unmarshal_struct lib (struct_member (pl_fold lib) ''volume'' (to_pointer 0 to_int) None) data)
       (\<lambda>volume. case volume of
          None \<Rightarrow> Inl (SdText ''volume must be between 0 and 100'')
        | Some v \<Rightarrow> if v < 0 \<or> v > 100 then Inl (SdText ''volume must be between 0 and 100'') else Inr v)"

subsection \<open>Wi-Fi and Bluetooth\<close>

record ip_config =
  ic_method :: string
  ic_type :: string
  ic_address :: string

definition zero_ip_config :: ip_config where
  "zero_ip_config = \<lparr>ic_method = [], ic_type = [], ic_address = []\<rparr>"

definition to_ip_config :: "(string \<Rightarrow> string) \<Rightarrow> ip_config json_target" where
  "to_ip_config fold_name c v =
     do { kvs \<leftarrow> json_members v;
          m \<leftarrow> struct_member fold_name ''ip_method'' to_string (ic_method c) kvs;
          t \<leftarrow> struct_member fold_name ''ip_type'' to_string (ic_type c) kvs;
          a \<leftarrow> struct_member fold_name ''address'' to_string (ic_address c) kvs;
          Some \<lparr>ic_method = m, ic_type = t, ic_address = a\<rparr> }"

record wifi_payload =
  wp_state :: string
  wp_ssid :: string
  wp_bssid :: string
  wp_channel :: int
  wp_rssi :: int
  wp_security :: string
  wp_ip :: "ip_config option"

definition build_wifi :: "(string \<Rightarrow> string) \<Rightarrow> (string \<times> json) list \<Rightarrow> wifi_payload option" where
  "build_wifi fold_name kvs =
     do { state \<leftarrow> struct_member fold_name ''state'' to_string [] kvs;
          ssid \<leftarrow> struct_member fold_name ''ssid'' to_string [] kvs;
          bssid \<leftarrow> struct_member fold_name ''bssid'' to_string [] kvs;
          channel \<leftarrow> struct_member fold_name ''channel'' to_int 0 kvs;
          rssi \<leftarrow> struct_member fold_name ''rssi'' to_int 0 kvs;
          security \<leftarrow> struct_member fold_name ''security'' to_string [] kvs;
          ip \<leftarrow> struct_member fold_name ''ip_config'' (to_pointer zero_ip_config (to_ip_config fold_name)) None kvs;
          Some \<lparr>wp_state = state, wp_ssid = ssid, wp_bssid = bssid, wp_channel = channel, wp_rssi = rssi,
                wp_security = security, wp_ip = ip\<rparr> }"

definition WifiConnectionStatus_CONNECTED :: proto_enum where "WifiConnectionStatus_CONNECTED = 0"
definition WifiConnectionStatus_CONNECTING :: proto_enum where "WifiConnectionStatus_CONNECTING = 1"
definition WifiConnectionStatus_DISCONNECTING :: proto_enum where "WifiConnectionStatus_DISCONNECTING = 2"
definition WifiConnectionStatus_RECONNECTING :: proto_enum where "WifiConnectionStatus_RECONNECTING = 3"

definition decode_wifi_state :: "string \<Rightarrow> decode_error + wifi_state \<times> proto_enum option" where
  "decode_wifi_state value =
     (if value = ''unknown'' then Inr (WiFiStateUnknown, None)
      else if value = ''disconnected'' then Inr (WiFiStateInactive, None)
      else if value = ''connected'' then Inr (WiFiStateActive, Some WifiConnectionStatus_CONNECTED)
      else if value = ''connecting'' then Inr (WiFiStateActive, Some WifiConnectionStatus_CONNECTING)
      else if value = ''disconnecting'' then Inr (WiFiStateActive, Some WifiConnectionStatus_DISCONNECTING)
      else if value = ''reconnecting'' then Inr (WiFiStateActive, Some WifiConnectionStatus_RECONNECTING)
      else Inl (SdUnsupported ''Wi-Fi state'' value))"

definition wifi_security :: "string \<Rightarrow> proto_enum" where
  "wifi_security value =
     (if value = ''Open'' then 1 else if value = ''WPA'' then 2 else if value = ''WPA2'' then 3
      else if value = ''WEP'' then 4 else if value = ''WPA/WPA2'' then 5 else if value = ''WPA3'' then 6
      else if value = ''WPA2/WPA3'' then 7 else 0)"

definition wifi_ip_address :: "ip_config \<Rightarrow> decode_error + ip_address" where
  "wifi_ip_address value =
     rbind (if ic_type value = ''ipv4'' then Inr 0 else if ic_type value = ''ipv6'' then Inr 1
            else Inl (SdUnsupported ''Wi-Fi IP type'' (ic_type value))) (\<lambda>protocol.
     rbind (if ic_method value = ''dhcp'' then Inr 0 else if ic_method value = ''static'' then Inr 1
            else Inl (SdUnsupported ''Wi-Fi IP method'' (ic_method value))) (\<lambda>ipm.
       Inr \<lparr>ip_protocol = protocol, ip_method = ipm, ip_addr = ic_address value, ip_gateway = [], ip_netmask = []\<rparr>))"

definition wifi_of_payload :: "wifi_payload \<Rightarrow> decode_error + wifi" where
  "wifi_of_payload payload =
     rbind (unsigned32 ''channel'' (wp_channel payload)) (\<lambda>channel.
     rbind (decode_wifi_state (wp_state payload)) (\<lambda>(state, connection).
     rbind (case wp_ip payload of
              None \<Rightarrow> Inr None
            | Some c \<Rightarrow> rbind (wifi_ip_address c) (\<lambda>a. Inr (Some [a]))) (\<lambda>addresses.
       Inr \<lparr>wf_state = state, wf_connection = connection, wf_ssid = wp_ssid payload, wf_bssid = wp_bssid payload,
            wf_channel = channel, wf_rssi = of_int (wp_rssi payload), wf_security = wp_security payload,
            wf_code = (if wp_security payload \<noteq> [] then Some (wifi_security (wp_security payload)) else None),
            wf_addresses = addresses\<rparr>)))"

definition decode_wifi :: "'j payload_lib \<Rightarrow> bytes \<Rightarrow> decode_error + wifi" where
  "decode_wifi lib data = rbind (unmarshal_struct lib (build_wifi (pl_fold lib)) data) wifi_of_payload"

definition ServiceStatus_CONNECTED :: proto_enum where "ServiceStatus_CONNECTED = 5"

definition ble_status :: "string \<Rightarrow> decode_error + proto_enum" where
  "ble_status value =
     (if value = ''reset'' then Inr 0 else if value = ''initialization'' then Inr 1
      else if value = ''disabled'' then Inr 2 else if value = ''enabled'' then Inr 3
      else if value = ''connectable'' then Inr 4 else if value = ''connected'' then Inr ServiceStatus_CONNECTED
      else Inl (SdUnsupported ''BLE status'' value))"

definition build_ble :: "(string \<Rightarrow> string) \<Rightarrow> (string \<times> json) list \<Rightarrow> (string \<times> string) option" where
  "build_ble fold_name kvs =
     do { state \<leftarrow> struct_member fold_name ''status'' to_string [] kvs;
          address \<leftarrow> struct_member fold_name ''address'' to_string [] kvs;
          Some (state, address) }"

definition decode_ble :: "'j payload_lib \<Rightarrow> bytes \<Rightarrow> decode_error + ble" where
  "decode_ble lib data =
     rbind (unmarshal_struct lib (build_ble (pl_fold lib)) data) (\<lambda>(state, address).
     rbind (ble_status state) (\<lambda>status.
       if status = ServiceStatus_CONNECTED \<and> address = []
       then Inl (SdText ''connected BLE response did not include address'')
       else Inr \<lparr>bl_status = status, bl_address = (if address \<noteq> [] then Some address else None)\<rparr>))"

section \<open>Collecting\<close>

definition protocol_excerpt :: "bytes \<Rightarrow> string" where
  "protocol_excerpt data =
     (if length data \<le> 256 then body_string data else body_string (take 256 data) @ ''...'')"

type_synonym 'x api = "string \<Rightarrow> 'x + string \<times> bytes" \<comment> \<open>request identifier and body by path\<close>

definition collect_json :: "'x api \<Rightarrow> string \<Rightarrow> (bytes \<Rightarrow> decode_error + 'a) \<Rightarrow> 'a \<Rightarrow> ('a, 'x) snap_field" where
  "collect_json get path decode z =
     (case get path of
        Inl e \<Rightarrow> (absent z)\<lparr>f_err := Some (SeClient e)\<rparr>
      | Inr (request_id, data) \<Rightarrow>
          (case decode data of
             Inl e \<Rightarrow> (absent z)\<lparr>f_err := Some (SeProtocol path request_id (protocol_excerpt data) e),
                                  f_raw := (if data = [] then None else Some data)\<rparr>
           | Inr v \<Rightarrow> present v))"

definition collect_value :: "'j payload_lib \<Rightarrow> 'x api \<Rightarrow> string \<Rightarrow> snap_section \<Rightarrow> ('j option, 'x) snap_field" where
  "collect_value lib get path sec = collect_json get path (\<lambda>d. map_sum id Some (pl_value lib sec d)) None"

definition version_field :: "'x + string \<Rightarrow> (string, 'x) snap_field" where
  "version_field r = (case r of Inl e \<Rightarrow> (absent [])\<lparr>f_err := Some (SeClient e)\<rparr> | Inr v \<Rightarrow> present v)"

text \<open>The statements of \<open>Collect\<close>, each followed by the check of the context.\<close>

definition collect_steps :: "'j payload_lib \<Rightarrow> 'x + string \<Rightarrow> 'x api \<Rightarrow> (('x, 'j, 'm) snapshot \<Rightarrow> ('x, 'j, 'm) snapshot) list" where
  "collect_steps lib version get =
     [\<lambda>s. s\<lparr>sn_version := version_field version\<rparr>,
      \<lambda>s. s\<lparr>sn_name := collect_json get ''/api/name'' (decode_name lib) []\<rparr>,
      \<lambda>s. s\<lparr>sn_status := collect_value lib get ''/api/status'' SectionStatus\<rparr>,
      \<lambda>s. s\<lparr>sn_system := collect_value lib get ''/api/status/system'' SectionSystem\<rparr>,
      \<lambda>s. s\<lparr>sn_power := collect_json get ''/api/status/power'' (decode_power lib) zero_power\<rparr>,
      \<lambda>s. s\<lparr>sn_time := collect_json get ''/api/time'' (decode_time lib) zero_time\<rparr>,
      \<lambda>s. s\<lparr>sn_wifi := collect_json get ''/api/wifi/status'' (decode_wifi lib) zero_wifi\<rparr>,
      \<lambda>s. s\<lparr>sn_brightness := collect_json get ''/api/display/brightness'' (decode_brightness lib) zero_brightness\<rparr>,
      \<lambda>s. s\<lparr>sn_volume := collect_json get ''/api/audio/volume'' (decode_volume lib) 0\<rparr>,
      \<lambda>s. s\<lparr>sn_ble := collect_json get ''/api/ble/status'' (decode_ble lib) zero_ble\<rparr>,
      \<lambda>s. s\<lparr>sn_storage := collect_value lib get ''/api/storage/status'' SectionStorage\<rparr>]"

datatype collect_error = CollectText string | CollectCtx string

fun run_steps :: "(nat \<Rightarrow> string option) \<Rightarrow> nat \<Rightarrow> ('s \<Rightarrow> 's) list \<Rightarrow> 's \<Rightarrow> 's \<times> collect_error option" where
  "run_steps ctx i [] s = (s, None)"
| "run_steps ctx i (f # fs) s =
     (case ctx i of None \<Rightarrow> run_steps ctx (Suc i) fs (f s) | Some e \<Rightarrow> (f s, Some (CollectCtx e)))"

definition collect ::
  "'j payload_lib \<Rightarrow> bool \<Rightarrow> bool \<Rightarrow> (nat \<Rightarrow> string option) \<Rightarrow> 'x + string \<Rightarrow> 'x api \<Rightarrow> ('x, 'j, 'm) snapshot \<times> collect_error option" where
  "collect lib ctx_nil client_nil ctx version get =
     (if ctx_nil then (empty_snapshot, Some (CollectText ''snapshot: context must not be nil''))
      else if client_nil then (empty_snapshot, Some (CollectText ''snapshot: client must not be nil''))
      else run_steps ctx 0 (collect_steps lib version get) empty_snapshot)"

section \<open>What the decoders promise\<close>

lemma unsigned32_ok: "unsigned32 field v = Inr w \<longleftrightarrow> 0 \<le> v \<and> v \<le> max_uint32 \<and> w = of_int v"
  by (auto simp: unsigned32_def)

lemma of_int_small: "0 \<le> v \<Longrightarrow> v \<le> max_uint32 \<Longrightarrow> uint (of_int v :: u32) = v"
  by (simp add: uint_word_of_int)

lemma battery_charge_ok: "battery_charge v = Inr w \<longleftrightarrow> 0 \<le> v \<and> v \<le> 100 \<and> w = of_int v"
proof -
  have "(of_int v :: u32) > 100 \<longleftrightarrow> v > 100" if "0 \<le> v" "v \<le> max_uint32"
    using of_int_small [OF that] by (simp add: word_less_def)
  then show ?thesis by (auto simp: battery_charge_def unsigned32_def)
qed

definition power_typed :: "power \<Rightarrow> bool" where
  "power_typed p \<longleftrightarrow> pw_known p \<and> pw_status p \<in> {BatteryStatus_DISCHARGING, BatteryStatus_CHARGING, BatteryStatus_CHARGED}
     \<and> pw_charge p \<le> 100"

definition brightness_typed :: "brightness \<Rightarrow> bool" where
  "brightness_typed b \<longleftrightarrow> br_actual b = None
     \<and> (case br_manual b of
          None \<Rightarrow> br_mode b = BrightnessModeAutomatic
        | Some v \<Rightarrow> br_mode b = BrightnessModeManual \<and> v \<le> 100)"

definition volume_typed :: "int \<Rightarrow> bool" where
  "volume_typed v \<longleftrightarrow> 0 \<le> v \<and> v \<le> 100"

definition wifi_typed :: "wifi \<Rightarrow> bool" where
  "wifi_typed w \<longleftrightarrow> wf_state w \<noteq> WiFiStateUnset \<and> (wf_connection w \<noteq> None \<longleftrightarrow> wf_state w = WiFiStateActive)
     \<and> (wf_code w \<noteq> None \<longleftrightarrow> wf_security w \<noteq> [])
     \<and> (case wf_addresses w of None \<Rightarrow> True | Some as \<Rightarrow> length as = 1)"

definition ble_typed :: "ble \<Rightarrow> bool" where
  "ble_typed b \<longleftrightarrow> bl_status b \<le> ServiceStatus_CONNECTED \<and> bl_address b \<noteq> Some []
     \<and> (if bl_status b = ServiceStatus_CONNECTED then bl_address b \<noteq> None else True)"

named_theorems decoded

lemma decode_power_typed [decoded]: "decode_power lib data = Inr p \<Longrightarrow> power_typed p"
  by (auto simp: decode_power_def rbind_eq_Inr battery_charge_ok power_status_def power_typed_def word_le_def of_int_small
      split: if_splits)

lemma brightness_value_typed: "brightness_value x = Inr b \<Longrightarrow> brightness_typed b"
  by (auto simp: brightness_value_def brightness_typed_def word_le_nat_alt unat_of_nat
      split: if_splits option.splits intro: order_trans [OF mod_less_eq_dividend])

lemma decode_brightness_typed [decoded]: "decode_brightness lib data = Inr b \<Longrightarrow> brightness_typed b"
  unfolding decode_brightness_def rbind_eq_Inr by (auto intro: brightness_value_typed split: option.splits)

lemma decode_volume_typed [decoded]: "decode_volume lib data = Inr v \<Longrightarrow> volume_typed v"
  by (auto simp: decode_volume_def rbind_eq_Inr volume_typed_def split: if_splits option.splits)

lemma decode_wifi_typed [decoded]: "decode_wifi lib data = Inr w \<Longrightarrow> wifi_typed w"
  by (auto simp: decode_wifi_def wifi_of_payload_def rbind_eq_Inr wifi_typed_def decode_wifi_state_def
      split: if_splits option.splits)

lemma decode_ble_typed [decoded]: "decode_ble lib data = Inr b \<Longrightarrow> ble_typed b"
  by (auto simp: decode_ble_def rbind_eq_Inr ble_typed_def ble_status_def ServiceStatus_CONNECTED_def split: if_splits)

text \<open>The received signal strength is converted to 32 bits without the check the battery current has.\<close>

lemma wifi_rssi_wraps:
  "map_sum id wf_rssi (wifi_of_payload \<lparr>wp_state = ''connected'', wp_ssid = [], wp_bssid = [], wp_channel = 1,
     wp_rssi = 2 ^ 32 - 60, wp_security = [], wp_ip = None\<rparr>) = Inr (- 60)"
  by (simp add: wifi_of_payload_def unsigned32_def decode_wifi_state_def)

text \<open>A field is present without error, or has its zero value; only a decoding error keeps a response.\<close>

definition field_typed :: "('a \<Rightarrow> bool) \<Rightarrow> 'a \<Rightarrow> ('a, 'x) snap_field \<Rightarrow> bool" where
  "field_typed P z f \<longleftrightarrow>
     (if f_present f then f_err f = None \<and> f_raw f = None \<and> P (f_value f)
      else f_value f = z
        \<and> (case f_raw f of
             None \<Rightarrow> True
           | Some d \<Rightarrow> d \<noteq> [] \<and> (\<exists>p i x c. f_err f = Some (SeProtocol p i x c))))"

lemma field_typed_absent [simp]: "field_typed P z (absent z)"
  by (simp add: field_typed_def absent_def)

lemma field_typed_present [simp]: "field_typed P z (present v) \<longleftrightarrow> P v"
  by (simp add: field_typed_def present_def)

lemma field_typed_mono: "field_typed P z f \<Longrightarrow> (\<And>v. P v \<Longrightarrow> Q v) \<Longrightarrow> field_typed Q z f"
  by (auto simp: field_typed_def split: if_splits)

lemma collect_json_typed:
  assumes "\<And>d v. decode d = Inr v \<Longrightarrow> P v"
  shows "field_typed P z (collect_json get path decode z)"
  using assms by (auto simp: collect_json_def field_typed_def absent_def present_def split: sum.splits)

lemma version_field_typed: "field_typed P [] (version_field r) \<longleftrightarrow> (case r of Inl _ \<Rightarrow> True | Inr v \<Rightarrow> P v)"
  by (simp add: version_field_def field_typed_def absent_def present_def split: sum.splits)

definition decoded_value :: "'j option \<Rightarrow> bool" where
  "decoded_value v = (case v of None \<Rightarrow> False | Some _ \<Rightarrow> True)"

definition collected :: "('x, 'j, 'm) snapshot \<Rightarrow> bool" where
  "collected s \<longleftrightarrow>
     field_typed (\<lambda>_. True) [] (sn_name s) \<and> field_typed (\<lambda>_. True) [] (sn_version s)
     \<and> field_typed decoded_value None (sn_status s) \<and> field_typed decoded_value None (sn_system s)
     \<and> field_typed power_typed zero_power (sn_power s) \<and> field_typed (\<lambda>_. True) zero_time (sn_time s)
     \<and> field_typed wifi_typed zero_wifi (sn_wifi s) \<and> field_typed brightness_typed zero_brightness (sn_brightness s)
     \<and> field_typed volume_typed 0 (sn_volume s) \<and> field_typed ble_typed zero_ble (sn_ble s)
     \<and> field_typed decoded_value None (sn_storage s)
     \<and> sn_firmware s = absent None \<and> sn_check s = absent None \<and> sn_timezone s = absent None
     \<and> sn_matter s = absent None \<and> sn_frame s = absent None \<and> sn_input s = absent None
     \<and> sn_timer s = absent None \<and> sn_auto s = absent None \<and> sn_profiles s = absent None"

lemma run_steps_keeps:
  assumes "\<And>f s. f \<in> set fs \<Longrightarrow> P s \<Longrightarrow> P (f s)" and "P s"
  shows "P (fst (run_steps ctx i fs s))"
  using assms by (induction ctx i fs s rule: run_steps.induct) (auto split: option.splits)

lemma collect_value_typed: "field_typed decoded_value None (collect_value lib get path sec)"
  unfolding collect_value_def by (rule collect_json_typed) (auto simp: map_sum_def decoded_value_def split: sum.splits)

lemma empty_collected: "collected empty_snapshot"
  by (simp add: collected_def empty_snapshot_def)

lemma collect_steps_collected:
  assumes "f \<in> set (collect_steps lib version get)" and "collected s"
  shows "collected (f s)"
  using assms unfolding collect_steps_def
  by (auto simp: collected_def version_field_typed collect_value_typed intro!: collect_json_typed decoded split: sum.splits)

section \<open>Each endpoint on its own\<close>

definition collect_order :: "snap_section list" where
  "collect_order = [SectionVersion, SectionName, SectionStatus, SectionSystem, SectionPower, SectionTime,
     SectionWiFi, SectionBrightness, SectionAudioVolume, SectionBLE, SectionStorage]"

definition answers :: "'x api \<Rightarrow> string \<Rightarrow> (bytes \<Rightarrow> decode_error + 'a) \<Rightarrow> bool" where
  "answers get path decode = (case get path of Inl _ \<Rightarrow> False | Inr (i, d) \<Rightarrow> is_ok (decode d))"

fun endpoint_ok :: "'j payload_lib \<Rightarrow> 'x + string \<Rightarrow> 'x api \<Rightarrow> snap_section \<Rightarrow> bool" where
  "endpoint_ok lib version get SectionVersion = is_ok version"
| "endpoint_ok lib version get SectionName = answers get ''/api/name'' (decode_name lib)"
| "endpoint_ok lib version get SectionStatus = answers get ''/api/status'' (pl_value lib SectionStatus)"
| "endpoint_ok lib version get SectionSystem = answers get ''/api/status/system'' (pl_value lib SectionSystem)"
| "endpoint_ok lib version get SectionPower = answers get ''/api/status/power'' (decode_power lib)"
| "endpoint_ok lib version get SectionTime = answers get ''/api/time'' (decode_time lib)"
| "endpoint_ok lib version get SectionWiFi = answers get ''/api/wifi/status'' (decode_wifi lib)"
| "endpoint_ok lib version get SectionBrightness = answers get ''/api/display/brightness'' (decode_brightness lib)"
| "endpoint_ok lib version get SectionAudioVolume = answers get ''/api/audio/volume'' (decode_volume lib)"
| "endpoint_ok lib version get SectionBLE = answers get ''/api/ble/status'' (decode_ble lib)"
| "endpoint_ok lib version get SectionStorage = answers get ''/api/storage/status'' (pl_value lib SectionStorage)"
| "endpoint_ok lib version get _ = False"

text \<open>The two answers a reader asks of a section: whether it is there, and whether it has no failure.\<close>

definition section_outcome :: "snap_section \<Rightarrow> ('x, 'j, 'm) snapshot \<Rightarrow> bool \<times> bool" where
  "section_outcome sec s = (fst (section_info sec s), failures s sec = None)"

definition json_info :: "'x api \<Rightarrow> string \<Rightarrow> (bytes \<Rightarrow> decode_error + 'a) \<Rightarrow> 'a \<Rightarrow> bool \<times> bool" where
  "json_info get path decode z =
     (let f = field_info (collect_json get path decode z) in (fst f, fst (snd f) = None))"

lemma json_info_answers: "json_info get path decode z = (answers get path decode, answers get path decode)"
  by (auto simp: json_info_def collect_json_def answers_def field_info_def absent_def present_def is_ok_def Let_def
      split: sum.splits)

lemma answers_map_sum: "answers get path (\<lambda>d. map_sum id Some (f d)) = answers get path f"
  by (auto simp: answers_def is_ok_def map_sum_def split: sum.splits)

lemma collect_json_outcome:
  "fst (field_info (collect_json get path decode z)) = answers get path decode"
  "fst (snd (field_info (collect_json get path decode z))) = None \<longleftrightarrow> answers get path decode"
  using json_info_answers [of get path decode z] by (simp_all add: json_info_def Let_def)

lemma collect_value_outcome:
  "fst (field_info (collect_value lib get path sec)) = answers get path (pl_value lib sec)"
  "fst (snd (field_info (collect_value lib get path sec))) = None \<longleftrightarrow> answers get path (pl_value lib sec)"
  by (simp_all only: collect_value_def collect_json_outcome answers_map_sum)

lemma version_outcome:
  "fst (field_info (version_field r)) = is_ok r"
  "fst (snd (field_info (version_field r))) = None \<longleftrightarrow> is_ok r"
  by (simp_all add: version_field_def field_info_def absent_def present_def is_ok_def split: sum.splits)

lemmas endpoint_outcomes = collect_json_outcome collect_value_outcome version_outcome

lemma section_outcome_info:
  "section_outcome sec s = (fst (section_info sec s), fst (snd (section_info sec s)) = None)"
  by (simp add: section_outcome_def failures_sections)

text \<open>Every statement of \<open>Collect\<close> sets the section it stands for and no other.\<close>

lemma collect_step_outcomes:
  "list_all2 (\<lambda>f k. \<forall>s. section_outcome sec (f s) =
     (if sec = k then (endpoint_ok lib version get sec, endpoint_ok lib version get sec) else section_outcome sec s))
   (collect_steps lib version get) collect_order"
  by (simp add: collect_steps_def collect_order_def section_outcome_info endpoint_outcomes del: split_paired_All)

lemma upt_step: "[i..<i + length (f # fs)] = i # [Suc i..<Suc i + length fs]"
  by (subst upt_conv_Cons) auto

lemma run_steps_error: "snd (run_steps ctx i fs s) = None \<longleftrightarrow> list_all (\<lambda>j. ctx j = None) [i..<i + length fs]"
proof (induction fs arbitrary: i s)
  case (Cons f fs)
  then show ?case unfolding upt_step by (auto split: option.splits)
qed simp

text \<open>The statements run before the context is done, and the one after which that is found.\<close>

definition steps_run :: "(nat \<Rightarrow> string option) \<Rightarrow> nat \<Rightarrow> nat \<Rightarrow> nat" where
  "steps_run ctx i n = Suc (length (takeWhile (\<lambda>j. ctx j = None) [i..<i + n]))"

lemma run_steps_sections:
  assumes "list_all2 (\<lambda>f k. \<forall>s. oc (f s) = (if sec = k then v else oc s)) fs keys"
  shows "oc (fst (run_steps ctx i fs s)) = (if sec \<in> set (take (steps_run ctx i (length fs)) keys) then v else oc s)"
  using assms
proof (induction fs keys arbitrary: i s rule: list_all2_induct)
  case (Cons f fs k keys)
  then show ?case
    unfolding steps_run_def upt_step by (auto split: option.splits)
qed (simp add: steps_run_def)

lemma length_collect_steps: "length (collect_steps lib version get) = 11"
  by (simp add: collect_steps_def)

lemma empty_outcome: "section_outcome sec empty_snapshot = (False, True)"
  by (cases sec) (simp_all add: section_outcome_info empty_snapshot_def)

lemma read_outcomes:
  assumes "\<And>sec. section_outcome sec t = (if sec \<in> set rd then (ok sec, ok sec) else (False, True))"
    and "rd = take k collect_order"
  shows "(\<forall>sec. fst (section_info sec t) \<longleftrightarrow> sec \<in> set rd \<and> ok sec)
    \<and> (\<forall>sec. (failures t sec = None) = (\<not> (sec \<in> set rd \<and> \<not> ok sec)))
    \<and> (complete t \<longleftrightarrow> length rd = 11 \<and> list_all ok rd)"
proof (intro conjI allI)
  have a: "fst (section_info sec t) \<longleftrightarrow> sec \<in> set rd \<and> ok sec"
    "(failures t sec = None) = (\<not> (sec \<in> set rd \<and> \<not> ok sec))" for sec
    using assms(1) [of sec] by (auto simp: section_outcome_def split: if_splits)
  then show "fst (section_info sec t) \<longleftrightarrow> sec \<in> set rd \<and> ok sec"
    "(failures t sec = None) = (\<not> (sec \<in> set rd \<and> \<not> ok sec))" for sec .
  have q: "set http_sections = set collect_order" "card (set collect_order) = 11" "length collect_order = 11"
    by (auto simp: http_sections_def collect_order_def)
  have "set collect_order \<subseteq> set rd \<longleftrightarrow> length rd = 11"
  proof
    assume "set collect_order \<subseteq> set rd"
    then have "card (set collect_order) \<le> length rd" by (meson List.finite_set card_length card_mono order_trans)
    then show "length rd = 11" using assms(2) q by simp
  qed (use assms(2) q in auto)
  moreover have "complete t \<longleftrightarrow> set collect_order \<subseteq> set rd \<and> list_all ok rd"
    unfolding complete_sections using a(1) q(1) assms(2) by (auto simp: list_all_iff dest: in_set_takeD)
  ultimately show "complete t \<longleftrightarrow> length rd = 11 \<and> list_all ok rd" by simp
qed


lemma collect_collected: "collected (fst (collect lib ctx_nil client_nil ctx version get))"
  unfolding collect_def by (auto intro: empty_collected run_steps_keeps collect_steps_collected)

text \<open>
  every snapshot \<open>Collect\<close> returns is well-typed, error or not: a section is present without
  error or raw response, or has its zero value; a raw response is kept exactly with a decoding error;
  battery charge, brightness and volume are percentages, the power and Bluetooth states known ones, a
  connected Bluetooth service has an address, the connection status is there exactly for an active
  Wi-Fi service, and the sections only the stream brings are empty.
\<close>

theorem collect_typed: "collected (fst (collect lib ctx_nil client_nil ctx version get))"
  by (rule collect_collected)

end
