(* ===== verification/SnapshotStore.thy ===== *)
theory SnapshotStore
  imports SnapshotCollect
begin

text \<open>
  The snapshot store (\<open>snapshot/store.go\<close>): \<open>Apply\<close> with its conversions of the generated messages,
  the deep copies, and the comparison that finds the changed sections.

  Messages kept whole are values of \<open>'m\<close>; \<open>proto.Clone\<close> is the identity on them and \<open>proto.Equal\<close> a
  parameter. A store is used under its lock, so operations are functions of its snapshot. Pointers
  and slices are copied by \<open>cloneSnapshot\<close>; here the copy is the value with empty slices made nil.
\<close>

section \<open>The generated messages\<close>

record proto_power_state =
  gp_status :: proto_enum
  gp_charge :: u32
  gp_voltage :: u32
  gp_current :: u32
  gp_usb :: u32

text \<open>Oneofs: unset, or a member whose message may be nil.\<close>

datatype proto_power = PowerUnset | PowerUnknown | PowerKnown "proto_power_state option"

datatype brightness_setting = SettingUnset | SettingAutomatic "unit option" | SettingManual "u32 option"

record proto_brightness =
  gb_setting :: brightness_setting
  gb_actual :: u32

record proto_wifi_active =
  gw_status :: proto_enum
  gw_ssid :: string
  gw_bssid :: string
  gw_channel :: u32
  gw_rssi :: u32
  gw_security :: proto_enum

datatype wifi_oneof = WifiUnset | WifiUnknown | WifiInactive "unit option" | WifiActive "proto_wifi_active option"

record proto_wifi =
  gw_state :: wifi_oneof
  gw_addresses :: "ip_address option list"

record proto_ble =
  gl_status :: proto_enum
  gl_remote :: "string option"

text \<open>
  The updates of \<open>stream/types.go\<close>: None is a nil \<open>Value\<close>, \<open>UIgnored\<close> stands for nil and unknown
  updates.
\<close>

datatype 'm store_update =
    UName "string option"
  | UPower "proto_power option"
  | UBrightness "proto_brightness option"
  | UVolume "u32 option"
  | UWiFi "proto_wifi option"
  | UFirmware "'m option"
  | UCheck "'m option"
  | UTimezone "'m option"
  | UMatter "'m option"
  | UFrame "'m option"
  | UInput "'m option"
  | UTimer "'m option"
  | UBle "proto_ble option"
  | UAuto "'m option"
  | UProfiles "'m option"
  | UIgnored

section \<open>Conversions\<close>

definition power_from_proto :: "proto_power \<Rightarrow> power" where
  "power_from_proto value =
     (case value of
        PowerKnown (Some known) \<Rightarrow>
          \<lparr>pw_known = True, pw_status = gp_status known, pw_charge = gp_charge known, pw_voltage = gp_voltage known,
           pw_current = gp_current known, pw_usb = gp_usb known\<rparr>
      | _ \<Rightarrow> zero_power)"

definition brightness_from_proto :: "proto_brightness \<Rightarrow> brightness" where
  "brightness_from_proto value =
     (let result = \<lparr>br_mode = BrightnessModeUnknown, br_manual = None, br_actual = None\<rparr>;
          result = (case gb_setting value of
                      SettingAutomatic (Some _) \<Rightarrow> result\<lparr>br_mode := BrightnessModeAutomatic\<rparr>
                    | SettingManual (Some b) \<Rightarrow> result\<lparr>br_mode := BrightnessModeManual, br_manual := Some b\<rparr>
                    | _ \<Rightarrow> result)
      in result\<lparr>br_actual := Some (gb_actual value)\<rparr>)"

definition wifi_security_name :: "proto_enum \<Rightarrow> string" where
  "wifi_security_name value =
     (if value = 1 then ''Open'' else if value = 2 then ''WPA'' else if value = 3 then ''WPA2''
      else if value = 4 then ''WEP'' else if value = 5 then ''WPA/WPA2'' else if value = 6 then ''WPA3''
      else if value = 7 then ''WPA2/WPA3'' else ''Unsupported'')"

definition wifi_from_proto :: "proto_wifi \<Rightarrow> wifi" where
  "wifi_from_proto value =
     (let result = zero_wifi\<lparr>wf_state := WiFiStateUnknown\<rparr>;
          result = (case gw_state value of
                      WifiInactive (Some _) \<Rightarrow> result\<lparr>wf_state := WiFiStateInactive\<rparr>
                    | WifiActive (Some active) \<Rightarrow>
                        result\<lparr>wf_state := WiFiStateActive, wf_connection := Some (gw_status active),
                               wf_ssid := gw_ssid active, wf_bssid := gw_bssid active, wf_channel := gw_channel active,
                               wf_rssi := gw_rssi active, wf_security := wifi_security_name (gw_security active),
                               wf_code := Some (gw_security active)\<rparr>
                    | _ \<Rightarrow> result)
      in result\<lparr>wf_addresses := Some (List.map_filter id (gw_addresses value))\<rparr>)"

definition ble_from_proto :: "proto_ble \<Rightarrow> ble" where
  "ble_from_proto value = \<lparr>bl_status = gl_status value, bl_address = gl_remote value\<rparr>"

section \<open>Copies and comparison\<close>

definition clone_slice :: "'a list option \<Rightarrow> 'a list option" where
  "clone_slice xs = (case xs of Some (x # ys) \<Rightarrow> Some (x # ys) | _ \<Rightarrow> None)"

definition clone_field :: "('a, 'x) snap_field \<Rightarrow> ('a, 'x) snap_field" where
  "clone_field f = f\<lparr>f_raw := clone_slice (f_raw f)\<rparr>"

definition clone_wifi :: "wifi \<Rightarrow> wifi" where
  "clone_wifi w = w\<lparr>wf_addresses := clone_slice (wf_addresses w)\<rparr>"

definition clone_wifi_field :: "(wifi, 'x) snap_field \<Rightarrow> (wifi, 'x) snap_field" where
  "clone_wifi_field f = (clone_field f)\<lparr>f_value := clone_wifi (f_value f)\<rparr>"

definition clone_snapshot :: "('x, 'j, 'm) snapshot \<Rightarrow> ('x, 'j, 'm) snapshot" where
  "clone_snapshot s =
     \<lparr>sn_name = clone_field (sn_name s), sn_version = clone_field (sn_version s), sn_status = clone_field (sn_status s),
      sn_system = clone_field (sn_system s), sn_power = clone_field (sn_power s), sn_time = clone_field (sn_time s),
      sn_wifi = clone_wifi_field (sn_wifi s), sn_brightness = clone_field (sn_brightness s), sn_volume = clone_field (sn_volume s),
      sn_ble = clone_field (sn_ble s), sn_storage = clone_field (sn_storage s), sn_firmware = clone_field (sn_firmware s),
      sn_check = clone_field (sn_check s), sn_timezone = clone_field (sn_timezone s), sn_matter = clone_field (sn_matter s),
      sn_frame = clone_field (sn_frame s), sn_input = clone_field (sn_input s), sn_timer = clone_field (sn_timer s),
      sn_auto = clone_field (sn_auto s), sn_profiles = clone_field (sn_profiles s)\<rparr>"

definition bytes_equal :: "bytes option \<Rightarrow> bytes option \<Rightarrow> bool" where
  "bytes_equal x y \<longleftrightarrow> clone_slice x = clone_slice y"

definition proto_equal :: "('m \<Rightarrow> 'm \<Rightarrow> bool) \<Rightarrow> 'm option \<Rightarrow> 'm option \<Rightarrow> bool" where
  "proto_equal peq x y = (case (x, y) of (None, None) \<Rightarrow> True | (Some a, Some b) \<Rightarrow> peq a b | _ \<Rightarrow> False)"

definition proto_field_equal :: "('m \<Rightarrow> 'm \<Rightarrow> bool) \<Rightarrow> ('m option, 'x) snap_field \<Rightarrow> ('m option, 'x) snap_field \<Rightarrow> bool" where
  "proto_field_equal peq l r \<longleftrightarrow>
     f_present l = f_present r \<and> f_err l = f_err r \<and> bytes_equal (f_raw l) (f_raw r)
     \<and> proto_equal peq (f_value l) (f_value r)"

definition stream_section_order :: "snap_section list" where
  "stream_section_order =
     [SectionName, SectionPower, SectionBrightness, SectionAudioVolume,
      SectionWiFi, SectionFirmwareUpdate, SectionUpdateCheck, SectionTimezone,
      SectionMatter, SectionFrame, SectionInput, SectionTimer,
      SectionBLE, SectionAutoUpdate, SectionTimerProfiles]"

text \<open>\<open>reflect.DeepEqual\<close> on the plain fields: nil and empty slices differ.\<close>

fun section_equal :: "('m \<Rightarrow> 'm \<Rightarrow> bool) \<Rightarrow> snap_section \<Rightarrow> ('x, 'j, 'm) snapshot \<Rightarrow> ('x, 'j, 'm) snapshot \<Rightarrow> bool" where
  "section_equal peq SectionName before after \<longleftrightarrow> sn_name before = sn_name after"
| "section_equal peq SectionPower before after \<longleftrightarrow> sn_power before = sn_power after"
| "section_equal peq SectionBrightness before after \<longleftrightarrow> sn_brightness before = sn_brightness after"
| "section_equal peq SectionAudioVolume before after \<longleftrightarrow> sn_volume before = sn_volume after"
| "section_equal peq SectionWiFi before after \<longleftrightarrow> sn_wifi before = sn_wifi after"
| "section_equal peq SectionFirmwareUpdate before after \<longleftrightarrow> proto_field_equal peq (sn_firmware before) (sn_firmware after)"
| "section_equal peq SectionUpdateCheck before after \<longleftrightarrow> proto_field_equal peq (sn_check before) (sn_check after)"
| "section_equal peq SectionTimezone before after \<longleftrightarrow> proto_field_equal peq (sn_timezone before) (sn_timezone after)"
| "section_equal peq SectionMatter before after \<longleftrightarrow> proto_field_equal peq (sn_matter before) (sn_matter after)"
| "section_equal peq SectionFrame before after \<longleftrightarrow> proto_field_equal peq (sn_frame before) (sn_frame after)"
| "section_equal peq SectionInput before after \<longleftrightarrow> proto_field_equal peq (sn_input before) (sn_input after)"
| "section_equal peq SectionTimer before after \<longleftrightarrow> proto_field_equal peq (sn_timer before) (sn_timer after)"
| "section_equal peq SectionBLE before after \<longleftrightarrow> sn_ble before = sn_ble after"
| "section_equal peq SectionAutoUpdate before after \<longleftrightarrow> proto_field_equal peq (sn_auto before) (sn_auto after)"
| "section_equal peq SectionTimerProfiles before after \<longleftrightarrow> proto_field_equal peq (sn_profiles before) (sn_profiles after)"
| "section_equal peq _ before after \<longleftrightarrow> True"

definition changed_sections :: "('m \<Rightarrow> 'm \<Rightarrow> bool) \<Rightarrow> ('x, 'j, 'm) snapshot \<Rightarrow> ('x, 'j, 'm) snapshot \<Rightarrow> snap_section set \<Rightarrow> snap_section list" where
  "changed_sections peq before after touched =
     filter (\<lambda>sec. sec \<in> touched \<and> \<not> section_equal peq sec before after) stream_section_order"

section \<open>Applying updates\<close>

fun apply_update :: "'m store_update \<Rightarrow> ('x, 'j, 'm) snapshot \<times> snap_section set \<Rightarrow> ('x, 'j, 'm) snapshot \<times> snap_section set" where
  "apply_update (UName (Some n)) (s, touched) = (s\<lparr>sn_name := present n\<rparr>, insert SectionName touched)"
| "apply_update (UPower (Some p)) (s, touched) = (s\<lparr>sn_power := present (power_from_proto p)\<rparr>, insert SectionPower touched)"
| "apply_update (UBrightness (Some b)) (s, touched) = (s\<lparr>sn_brightness := present (brightness_from_proto b)\<rparr>, insert SectionBrightness touched)"
| "apply_update (UVolume (Some v)) (s, touched) = (s\<lparr>sn_volume := present (uint v)\<rparr>, insert SectionAudioVolume touched)"
| "apply_update (UWiFi (Some w)) (s, touched) = (s\<lparr>sn_wifi := present (wifi_from_proto w)\<rparr>, insert SectionWiFi touched)"
| "apply_update (UFirmware (Some m)) (s, touched) = (s\<lparr>sn_firmware := present (Some m)\<rparr>, insert SectionFirmwareUpdate touched)"
| "apply_update (UCheck (Some m)) (s, touched) = (s\<lparr>sn_check := present (Some m)\<rparr>, insert SectionUpdateCheck touched)"
| "apply_update (UTimezone (Some m)) (s, touched) = (s\<lparr>sn_timezone := present (Some m)\<rparr>, insert SectionTimezone touched)"
| "apply_update (UMatter (Some m)) (s, touched) = (s\<lparr>sn_matter := present (Some m)\<rparr>, insert SectionMatter touched)"
| "apply_update (UFrame (Some m)) (s, touched) = (s\<lparr>sn_frame := present (Some m)\<rparr>, insert SectionFrame touched)"
| "apply_update (UInput (Some m)) (s, touched) = (s\<lparr>sn_input := present (Some m)\<rparr>, insert SectionInput touched)"
| "apply_update (UTimer (Some m)) (s, touched) = (s\<lparr>sn_timer := present (Some m)\<rparr>, insert SectionTimer touched)"
| "apply_update (UBle (Some b)) (s, touched) = (s\<lparr>sn_ble := present (ble_from_proto b)\<rparr>, insert SectionBLE touched)"
| "apply_update (UAuto (Some m)) (s, touched) = (s\<lparr>sn_auto := present (Some m)\<rparr>, insert SectionAutoUpdate touched)"
| "apply_update (UProfiles (Some m)) (s, touched) = (s\<lparr>sn_profiles := present (Some m)\<rparr>, insert SectionTimerProfiles touched)"
| "apply_update _ (s, touched) = (s, touched)"

record ('x, 'j, 'm) change =
  ch_snapshot :: "('x, 'j, 'm) snapshot"
  ch_sections :: "snap_section list"

type_synonym ('x, 'j, 'm) store = "('x, 'j, 'm) snapshot option" \<comment> \<open>None is a nil store\<close>

definition new_store :: "('x, 'j, 'm) snapshot \<Rightarrow> ('x, 'j, 'm) store" where
  "new_store initial = Some (clone_snapshot initial)"

definition store_snapshot :: "('x, 'j, 'm) store \<Rightarrow> ('x, 'j, 'm) snapshot" where
  "store_snapshot st = (case st of None \<Rightarrow> empty_snapshot | Some s \<Rightarrow> clone_snapshot s)"

definition apply_all :: "'m store_update list \<Rightarrow> ('x, 'j, 'm) snapshot \<Rightarrow> ('x, 'j, 'm) snapshot \<times> snap_section set" where
  "apply_all updates s = fold apply_update updates (s, {})"

definition store_apply ::
  "('m \<Rightarrow> 'm \<Rightarrow> bool) \<Rightarrow> 'm store_update list \<Rightarrow> ('x, 'j, 'm) store \<Rightarrow> ('x, 'j, 'm) change \<times> ('x, 'j, 'm) store" where
  "store_apply peq updates st =
     (case st of
        None \<Rightarrow> (\<lparr>ch_snapshot = empty_snapshot, ch_sections = []\<rparr>, None)
      | Some s \<Rightarrow>
          let before = clone_snapshot s;
              (after, touched) = apply_all updates s
          in (\<lparr>ch_snapshot = clone_snapshot after, ch_sections = changed_sections peq before after touched\<rparr>, Some after))"

section \<open>The abstract store: the latest value of every section\<close>

datatype 'm section_value =
    SvNone | SvName string | SvPower power | SvBrightness brightness | SvVolume int | SvWiFi wifi | SvBle ble
  | SvMessage "'m option"

definition map_field :: "('a \<Rightarrow> 'b) \<Rightarrow> ('a, 'x) snap_field \<Rightarrow> ('b, 'x) snap_field" where
  "map_field F f = \<lparr>f_value = F (f_value f), f_present = f_present f, f_err = f_err f, f_raw = f_raw f\<rparr>"

fun stream_field :: "snap_section \<Rightarrow> ('x, 'j, 'm) snapshot \<Rightarrow> ('m section_value, 'x) snap_field" where
  "stream_field SectionName s = map_field SvName (sn_name s)"
| "stream_field SectionPower s = map_field SvPower (sn_power s)"
| "stream_field SectionBrightness s = map_field SvBrightness (sn_brightness s)"
| "stream_field SectionAudioVolume s = map_field SvVolume (sn_volume s)"
| "stream_field SectionWiFi s = map_field SvWiFi (sn_wifi s)"
| "stream_field SectionFirmwareUpdate s = map_field SvMessage (sn_firmware s)"
| "stream_field SectionUpdateCheck s = map_field SvMessage (sn_check s)"
| "stream_field SectionTimezone s = map_field SvMessage (sn_timezone s)"
| "stream_field SectionMatter s = map_field SvMessage (sn_matter s)"
| "stream_field SectionFrame s = map_field SvMessage (sn_frame s)"
| "stream_field SectionInput s = map_field SvMessage (sn_input s)"
| "stream_field SectionTimer s = map_field SvMessage (sn_timer s)"
| "stream_field SectionBLE s = map_field SvBle (sn_ble s)"
| "stream_field SectionAutoUpdate s = map_field SvMessage (sn_auto s)"
| "stream_field SectionTimerProfiles s = map_field SvMessage (sn_profiles s)"
| "stream_field _ s = absent SvNone"

fun update_value :: "'m store_update \<Rightarrow> (snap_section \<times> 'm section_value) option" where
  "update_value (UName (Some n)) = Some (SectionName, SvName n)"
| "update_value (UPower (Some p)) = Some (SectionPower, SvPower (power_from_proto p))"
| "update_value (UBrightness (Some b)) = Some (SectionBrightness, SvBrightness (brightness_from_proto b))"
| "update_value (UVolume (Some v)) = Some (SectionAudioVolume, SvVolume (uint v))"
| "update_value (UWiFi (Some w)) = Some (SectionWiFi, SvWiFi (wifi_from_proto w))"
| "update_value (UFirmware (Some m)) = Some (SectionFirmwareUpdate, SvMessage (Some m))"
| "update_value (UCheck (Some m)) = Some (SectionUpdateCheck, SvMessage (Some m))"
| "update_value (UTimezone (Some m)) = Some (SectionTimezone, SvMessage (Some m))"
| "update_value (UMatter (Some m)) = Some (SectionMatter, SvMessage (Some m))"
| "update_value (UFrame (Some m)) = Some (SectionFrame, SvMessage (Some m))"
| "update_value (UInput (Some m)) = Some (SectionInput, SvMessage (Some m))"
| "update_value (UTimer (Some m)) = Some (SectionTimer, SvMessage (Some m))"
| "update_value (UBle (Some b)) = Some (SectionBLE, SvBle (ble_from_proto b))"
| "update_value (UAuto (Some m)) = Some (SectionAutoUpdate, SvMessage (Some m))"
| "update_value (UProfiles (Some m)) = Some (SectionTimerProfiles, SvMessage (Some m))"
| "update_value _ = None"

text \<open>The latest value a batch has for a section.\<close>

definition latest :: "snap_section \<Rightarrow> 'm store_update list \<Rightarrow> 'm section_value option" where
  "latest sec updates = map_of (rev (List.map_filter update_value updates)) sec"

lemma map_field_simps [simp]:
  "map_field F (present v) = present (F v)" "map_field F (absent v) = absent (F v)"
  "f_value (map_field F f) = F (f_value f)" "f_present (map_field F f) = f_present f"
  "f_err (map_field F f) = f_err f" "f_raw (map_field F f) = f_raw f"
  by (simp_all add: map_field_def present_def absent_def)

lemma map_field_inj: "inj F \<Longrightarrow> map_field F f = map_field F g \<longleftrightarrow> f = g"
  by (cases f; cases g) (auto simp: map_field_def inj_eq)

lemma section_value_inj: "inj SvName" "inj SvPower" "inj SvBrightness" "inj SvVolume" "inj SvWiFi" "inj SvBle" "inj SvMessage"
  by (simp_all add: inj_on_def)

lemma stream_field_updates [simp]:
  "stream_field sec (s\<lparr>sn_name := v_name\<rparr>) = (if sec = SectionName then map_field SvName v_name else stream_field sec s)"
  "stream_field sec (s\<lparr>sn_power := v_power\<rparr>) = (if sec = SectionPower then map_field SvPower v_power else stream_field sec s)"
  "stream_field sec (s\<lparr>sn_brightness := v_brightness\<rparr>) = (if sec = SectionBrightness then map_field SvBrightness v_brightness else stream_field sec s)"
  "stream_field sec (s\<lparr>sn_volume := v_volume\<rparr>) = (if sec = SectionAudioVolume then map_field SvVolume v_volume else stream_field sec s)"
  "stream_field sec (s\<lparr>sn_wifi := v_wifi\<rparr>) = (if sec = SectionWiFi then map_field SvWiFi v_wifi else stream_field sec s)"
  "stream_field sec (s\<lparr>sn_firmware := v_firmware\<rparr>) = (if sec = SectionFirmwareUpdate then map_field SvMessage v_firmware else stream_field sec s)"
  "stream_field sec (s\<lparr>sn_check := v_check\<rparr>) = (if sec = SectionUpdateCheck then map_field SvMessage v_check else stream_field sec s)"
  "stream_field sec (s\<lparr>sn_timezone := v_timezone\<rparr>) = (if sec = SectionTimezone then map_field SvMessage v_timezone else stream_field sec s)"
  "stream_field sec (s\<lparr>sn_matter := v_matter\<rparr>) = (if sec = SectionMatter then map_field SvMessage v_matter else stream_field sec s)"
  "stream_field sec (s\<lparr>sn_frame := v_frame\<rparr>) = (if sec = SectionFrame then map_field SvMessage v_frame else stream_field sec s)"
  "stream_field sec (s\<lparr>sn_input := v_input\<rparr>) = (if sec = SectionInput then map_field SvMessage v_input else stream_field sec s)"
  "stream_field sec (s\<lparr>sn_timer := v_timer\<rparr>) = (if sec = SectionTimer then map_field SvMessage v_timer else stream_field sec s)"
  "stream_field sec (s\<lparr>sn_ble := v_ble\<rparr>) = (if sec = SectionBLE then map_field SvBle v_ble else stream_field sec s)"
  "stream_field sec (s\<lparr>sn_auto := v_auto\<rparr>) = (if sec = SectionAutoUpdate then map_field SvMessage v_auto else stream_field sec s)"
  "stream_field sec (s\<lparr>sn_profiles := v_profiles\<rparr>) = (if sec = SectionTimerProfiles then map_field SvMessage v_profiles else stream_field sec s)"
  by (cases sec; simp)+

text \<open>The sections no update touches.\<close>

definition http_only :: "('x, 'j, 'm) snapshot \<Rightarrow>
    (string, 'x) snap_field \<times> ('j option, 'x) snap_field \<times> ('j option, 'x) snap_field \<times> (device_time, 'x) snap_field \<times> ('j option, 'x) snap_field" where
  "http_only s = (sn_version s, sn_status s, sn_system s, sn_time s, sn_storage s)"

lemma snapshot_eqI:
  assumes "http_only s = http_only t" and "\<And>sec. stream_field sec s = stream_field sec t"
  shows "s = t"
proof -
  note f = section_value_inj [THEN map_field_inj]
  show ?thesis
    using assms(1) assms(2) [of SectionName] assms(2) [of SectionPower] assms(2) [of SectionBrightness] assms(2) [of SectionAudioVolume] assms(2) [of SectionWiFi] assms(2) [of SectionFirmwareUpdate] assms(2) [of SectionUpdateCheck] assms(2) [of SectionTimezone] assms(2) [of SectionMatter] assms(2) [of SectionFrame] assms(2) [of SectionInput] assms(2) [of SectionTimer] assms(2) [of SectionBLE] assms(2) [of SectionAutoUpdate] assms(2) [of SectionTimerProfiles]
    by (cases s; cases t) (simp add: http_only_def f)
qed

lemma apply_update_step:
  "stream_field sec (fst (apply_update u (s, t))) =
     (case update_value u of Some (k, v) \<Rightarrow> if sec = k then present v else stream_field sec s | None \<Rightarrow> stream_field sec s)"
  "http_only (fst (apply_update u (s, t))) = http_only s"
  "snd (apply_update u (s, t)) = (case update_value u of Some (k, v) \<Rightarrow> insert k t | None \<Rightarrow> t)"
  by (cases "(u, (s, t))" rule: apply_update.cases; simp add: http_only_def)+

lemma latest_simps [simp]:
  "latest sec [] = None"
  "latest sec (u # us) =
     (case latest sec us of
        Some v \<Rightarrow> Some v
      | None \<Rightarrow> (case update_value u of Some (k, v) \<Rightarrow> if sec = k then Some v else None | None \<Rightarrow> None))"
  by (auto simp: latest_def map_filter_simps map_add_def split: option.splits)

lemma fold_updates:
  "stream_field sec (fst (fold apply_update us (s, t))) = (case latest sec us of None \<Rightarrow> stream_field sec s | Some v \<Rightarrow> present v)"
  "http_only (fst (fold apply_update us (s, t))) = http_only s"
  "sec \<in> snd (fold apply_update us (s, t)) \<longleftrightarrow> sec \<in> t \<or> latest sec us \<noteq> None"
proof (induction us arbitrary: s t)
  case (Cons u us)
  have f: "fold apply_update (u # us) x = fold apply_update us (fst (apply_update u x), snd (apply_update u x))" for x
    by simp
  case 1 show ?case unfolding f Cons(1) by (auto simp: apply_update_step split: option.splits prod.splits)
  case 2 show ?case unfolding f Cons(2) by (simp add: apply_update_step)
  case 3 show ?case unfolding f Cons(3) by (auto simp: apply_update_step split: option.splits prod.splits if_splits)
qed simp_all

lemma apply_all_fields:
  "stream_field sec (fst (apply_all us s)) = (case latest sec us of None \<Rightarrow> stream_field sec s | Some v \<Rightarrow> present v)"
  "http_only (fst (apply_all us s)) = http_only s"
  "sec \<in> snd (apply_all us s) \<longleftrightarrow> latest sec us \<noteq> None"
  by (simp_all add: apply_all_def fold_updates)

section \<open>What readers observe\<close>

fun clone_value :: "'m section_value \<Rightarrow> 'm section_value" where
  "clone_value (SvWiFi w) = SvWiFi (clone_wifi w)"
| "clone_value v = v"

definition no_addresses :: "'m section_value \<Rightarrow> bool" where
  "no_addresses v = (case v of SvWiFi w \<Rightarrow> wf_addresses w = Some [] | _ \<Rightarrow> False)"

definition value_equal :: "('m \<Rightarrow> 'm \<Rightarrow> bool) \<Rightarrow> 'm section_value \<Rightarrow> 'm section_value \<Rightarrow> bool" where
  "value_equal peq v w = (case (v, w) of (SvMessage a, SvMessage b) \<Rightarrow> proto_equal peq a b | _ \<Rightarrow> v = w)"

text \<open>The stored field already shows the value.\<close>

definition shows_value :: "('m \<Rightarrow> 'm \<Rightarrow> bool) \<Rightarrow> ('m section_value, 'x) snap_field \<Rightarrow> 'm section_value \<Rightarrow> bool" where
  "shows_value peq f v \<longleftrightarrow> f_present f \<and> f_err f = None \<and> clone_slice (f_raw f) = None \<and> value_equal peq (f_value f) (clone_value v)"

lemma clone_slice_simps [simp]:
  "clone_slice None = None" "clone_slice (Some []) = None" "clone_slice (Some (x # xs)) = Some (x # xs)"
  "clone_slice (clone_slice ys) = clone_slice ys" "clone_slice ys \<noteq> Some []"
  by (simp_all add: clone_slice_def split: option.splits list.splits)

lemma clone_wifi_id: "wf_addresses w \<noteq> Some [] \<Longrightarrow> clone_wifi w = w"
  by (cases w) (auto simp: clone_wifi_def clone_slice_def split: option.splits list.splits)

lemma clone_wifi_addresses: "wf_addresses (clone_wifi w) = clone_slice (wf_addresses w)"
  by (simp add: clone_wifi_def)

lemma clone_stream_field:
  "stream_field sec (clone_snapshot s) = (clone_field (stream_field sec s))\<lparr>f_value := clone_value (f_value (stream_field sec s))\<rparr>"
  by (cases sec) (simp_all add: clone_snapshot_def clone_field_def clone_wifi_field_def map_field_def absent_def)

text \<open>The kind of value each section has.\<close>

fun value_kind :: "snap_section \<Rightarrow> 'm section_value \<Rightarrow> bool" where
  "value_kind SectionName v = (\<exists>x. v = SvName x)"
| "value_kind SectionPower v = (\<exists>x. v = SvPower x)"
| "value_kind SectionBrightness v = (\<exists>x. v = SvBrightness x)"
| "value_kind SectionAudioVolume v = (\<exists>x. v = SvVolume x)"
| "value_kind SectionWiFi v = (\<exists>x. v = SvWiFi x)"
| "value_kind SectionBLE v = (\<exists>x. v = SvBle x)"
| "value_kind _ v = (\<exists>x. v = SvMessage x)"

lemma update_value_kind: "update_value u = Some (sec, v) \<Longrightarrow> value_kind sec v \<and> sec \<in> set stream_section_order"
  by (cases u rule: update_value.cases) (auto simp: stream_section_order_def)

lemma latest_kind: "latest sec us = Some v \<Longrightarrow> value_kind sec v \<and> sec \<in> set stream_section_order"
  by (induction us) (auto split: option.splits prod.splits if_splits dest: update_value_kind)

lemma present_fields [simp]:
  "f_present (present v)" "f_err (present v) = None" "f_raw (present v) = None" "f_value (present v) = v"
  by (simp_all add: present_def)

lemma field_eq_present:
  "f = present x \<longleftrightarrow> f_present f \<and> f_err f = None \<and> f_raw f = None \<and> f_value f = x"
  by (cases f) (auto simp: present_def)

lemma map_field_present: "inj F \<Longrightarrow> map_field F f = present (F x) \<longleftrightarrow> f = present x"
  using map_field_inj [of F f "present x"] by simp

lemmas written_field = section_value_inj [THEN map_field_present]

text \<open>The comparison of \<open>Apply\<close>, on a field just written.\<close>

lemma clone_field_simps [simp]:
  "f_value (clone_field f) = f_value f" "f_present (clone_field f) = f_present f" "f_err (clone_field f) = f_err f"
  "f_raw (clone_field f) = clone_slice (f_raw f)"
  by (simp_all add: clone_field_def)

lemma clone_wifi_field_simps [simp]:
  "f_value (clone_wifi_field f) = clone_wifi (f_value f)" "f_present (clone_wifi_field f) = f_present f"
  "f_err (clone_wifi_field f) = f_err f" "f_raw (clone_wifi_field f) = clone_slice (f_raw f)"
  by (simp_all add: clone_wifi_field_def)

lemma section_equal_present:
  assumes "stream_field sec after = present v" and "value_kind sec v"
  shows "section_equal peq sec (clone_snapshot s) after \<longleftrightarrow>
    \<not> no_addresses v \<and> shows_value peq (stream_field sec (clone_snapshot s)) v"
proof -
  note d = no_addresses_def shows_value_def value_equal_def field_eq_present clone_snapshot_def proto_field_equal_def bytes_equal_def
  show ?thesis
  proof (cases "sec = SectionWiFi")
    case True
    then obtain w where w: "v = SvWiFi w" "sn_wifi after = present w" using assms by (auto simp: written_field)
    show ?thesis
    proof (cases "wf_addresses w = Some []")
      case True
      then have "clone_wifi w' \<noteq> w" for w' using clone_wifi_addresses [of w'] by (metis clone_slice_simps(5))
      then show ?thesis using True \<open>sec = SectionWiFi\<close> by (simp add: w d)
    next
      case False
      then show ?thesis using \<open>sec = SectionWiFi\<close> clone_wifi_id [OF False] by (auto simp: w d)
    qed
  next
    case False
    then show ?thesis using assms by (cases sec; fastforce simp: written_field d absent_def)
  qed
qed

lemma changed_sections_spec:
  "changed_sections peq (clone_snapshot s) (fst (apply_all us s)) (snd (apply_all us s)) =
     filter (\<lambda>sec. case latest sec us of
         None \<Rightarrow> False
       | Some v \<Rightarrow> no_addresses v \<or> \<not> shows_value peq (stream_field sec (clone_snapshot s)) v) stream_section_order"
proof -
  have "sec \<in> snd (apply_all us s) \<and> \<not> section_equal peq sec (clone_snapshot s) (fst (apply_all us s)) \<longleftrightarrow>
    (case latest sec us of None \<Rightarrow> False
     | Some v \<Rightarrow> no_addresses v \<or> \<not> shows_value peq (stream_field sec (clone_snapshot s)) v)" for sec
  proof (cases "latest sec us")
    case (Some v)
    have "stream_field sec (fst (apply_all us s)) = present v" by (simp add: apply_all_fields Some)
    then show ?thesis
      using section_equal_present [of sec _ v peq s] latest_kind [OF Some] by (simp add: apply_all_fields Some)
  qed (simp add: apply_all_fields)
  then show ?thesis unfolding changed_sections_def by simp
qed

lemma apply_all_again: "fst (apply_all us (fst (apply_all us s))) = fst (apply_all us s)"
  by (rule snapshot_eqI) (simp_all add: apply_all_fields split: option.splits)

lemma store_snapshot_Some: "store_snapshot (Some s) = clone_snapshot s"
  by (simp add: store_snapshot_def)

lemma value_equal_refl: "(\<And>m. peq m m) \<Longrightarrow> value_equal peq v v"
  by (simp add: value_equal_def proto_equal_def split: section_value.splits option.splits)

lemma shows_cloned:
  assumes "\<And>m. peq m m" and "stream_field sec s = present v"
  shows "shows_value peq (stream_field sec (clone_snapshot s)) v"
  by (simp add: clone_stream_field assms shows_value_def value_equal_refl)

lemma filter_wifi:
  "filter (\<lambda>sec. case latest sec us of None \<Rightarrow> False | Some v \<Rightarrow> no_addresses v) stream_section_order =
     (case latest SectionWiFi us of None \<Rightarrow> [] | Some v \<Rightarrow> if no_addresses v then [SectionWiFi] else [])"
proof -
  have k: "value_kind sec v \<Longrightarrow> no_addresses v \<Longrightarrow> sec = SectionWiFi" for sec and v :: "'a section_value"
    by (cases sec) (auto simp: no_addresses_def)
  have "(case latest sec us of None \<Rightarrow> False | Some v \<Rightarrow> no_addresses v) \<longleftrightarrow>
      sec = SectionWiFi \<and> (case latest SectionWiFi us of None \<Rightarrow> False | Some v \<Rightarrow> no_addresses v)" for sec
  proof (cases "sec = SectionWiFi")
    case False
    have "\<not> no_addresses v" if "latest sec us = Some v" for v
      using latest_kind [OF that] k False by blast
    then show ?thesis using False by (auto split: option.splits)
  qed simp
  then have "filter (\<lambda>sec. case latest sec us of None \<Rightarrow> False | Some v \<Rightarrow> no_addresses v) stream_section_order =
      filter (\<lambda>sec. sec = SectionWiFi \<and> (case latest SectionWiFi us of None \<Rightarrow> False | Some v \<Rightarrow> no_addresses v)) stream_section_order"
    by (intro filter_cong refl) blast
  also have "\<dots> = (case latest SectionWiFi us of None \<Rightarrow> [] | Some v \<Rightarrow> if no_addresses v then [SectionWiFi] else [])"
    by (cases "latest SectionWiFi us") (simp_all add: stream_section_order_def)
  finally show ?thesis .
qed

section \<open>Properties\<close>


text \<open>
  applying the same batch again changes nothing that readers see and reports nothing - except a
  Wi-Fi update without addresses, which is reported every time.
\<close>

theorem store_reapply:
  assumes "\<And>m. peq m m"
  shows "case store_apply peq us st of (c1, st1) \<Rightarrow>
     (case store_apply peq us st1 of (c2, st2) \<Rightarrow>
        st2 = st1 \<and> ch_snapshot c2 = ch_snapshot c1
        \<and> ch_sections c2 =
            (if st = None then []
             else case latest SectionWiFi us of None \<Rightarrow> [] | Some v \<Rightarrow> if no_addresses v then [SectionWiFi] else []))"
proof (cases st)
  case None
  then show ?thesis by (simp add: store_apply_def)
next
  case (Some s)
  define s1 where "s1 = fst (apply_all us s)"
  have "shows_value peq (stream_field sec (clone_snapshot s1)) v" if "latest sec us = Some v" for sec v
    using that by (intro shows_cloned assms) (simp add: s1_def apply_all_fields)
  then have "changed_sections peq (clone_snapshot s1) (fst (apply_all us s1)) (snd (apply_all us s1)) =
      filter (\<lambda>sec. case latest sec us of None \<Rightarrow> False | Some v \<Rightarrow> no_addresses v) stream_section_order"
    unfolding changed_sections_spec by (intro filter_cong) (auto split: option.splits)
  then show ?thesis
    unfolding filter_wifi using apply_all_again [of us s] by (simp add: Some store_apply_def Let_def split_beta  s1_def [symmetric])
qed

definition sample_updates :: "nat store_update list" where
  "sample_updates = [UName (Some ''bar''), UVolume (Some 7), UWiFi (Some \<lparr>gw_state = WifiInactive (Some ()), gw_addresses = []\<rparr>),
     UFrame (Some 3), UName None, UIgnored, UVolume (Some 9)]"

lemma store_reapply_witness:
  "case store_apply (=) sample_updates (new_store (empty_snapshot :: (string, unit, nat) snapshot)) of (c1, st1) \<Rightarrow>
     (case store_apply (=) sample_updates st1 of (c2, st2) \<Rightarrow>
        st2 = st1 \<and> ch_sections c1 = [SectionName, SectionAudioVolume, SectionWiFi, SectionFrame]
        \<and> ch_sections c2 = [SectionWiFi])"
proof -
  have "ch_sections (fst (store_apply (=) sample_updates (new_store (empty_snapshot :: (string, unit, nat) snapshot)))) =
      [SectionName, SectionAudioVolume, SectionWiFi, SectionFrame]"
    by code_simp
  moreover have "(case latest SectionWiFi sample_updates of None \<Rightarrow> [] | Some v \<Rightarrow> if no_addresses v then [SectionWiFi] else []) = [SectionWiFi]"
    by code_simp
  ultimately show ?thesis
    using store_reapply [of "(=)" "new_store (empty_snapshot :: (string, unit, nat) snapshot)" sample_updates]
    by (auto simp: new_store_def split: prod.splits)
qed

section \<open>What every stored snapshot is\<close>

definition stored_power :: "power \<Rightarrow> bool" where
  "stored_power p \<longleftrightarrow> pw_known p \<or> p = zero_power"

definition stored_brightness :: "brightness \<Rightarrow> bool" where
  "stored_brightness b \<longleftrightarrow> br_mode b \<noteq> BrightnessUnset \<and> (br_manual b \<noteq> None \<longleftrightarrow> br_mode b = BrightnessModeManual)"

definition stored_volume :: "int \<Rightarrow> bool" where
  "stored_volume v \<longleftrightarrow> 0 \<le> v \<and> v \<le> max_uint32"

definition stored_wifi :: "wifi \<Rightarrow> bool" where
  "stored_wifi w \<longleftrightarrow> wf_state w \<noteq> WiFiStateUnset \<and> (wf_connection w \<noteq> None \<longleftrightarrow> wf_state w = WiFiStateActive)"

definition stored_snapshot :: "('x, 'j, 'm) snapshot \<Rightarrow> bool" where
  "stored_snapshot s \<longleftrightarrow>
     field_typed (\<lambda>_. True) [] (sn_name s) \<and> field_typed (\<lambda>_. True) [] (sn_version s)
     \<and> field_typed decoded_value None (sn_status s) \<and> field_typed decoded_value None (sn_system s)
     \<and> field_typed stored_power zero_power (sn_power s) \<and> field_typed (\<lambda>_. True) zero_time (sn_time s)
     \<and> field_typed stored_wifi zero_wifi (sn_wifi s) \<and> field_typed stored_brightness zero_brightness (sn_brightness s)
     \<and> field_typed stored_volume 0 (sn_volume s) \<and> field_typed (\<lambda>_. True) zero_ble (sn_ble s)
     \<and> field_typed decoded_value None (sn_storage s)
     \<and> field_typed decoded_value None (sn_firmware s) \<and> field_typed decoded_value None (sn_check s)
     \<and> field_typed decoded_value None (sn_timezone s) \<and> field_typed decoded_value None (sn_matter s)
     \<and> field_typed decoded_value None (sn_frame s) \<and> field_typed decoded_value None (sn_input s)
     \<and> field_typed decoded_value None (sn_timer s) \<and> field_typed decoded_value None (sn_auto s)
     \<and> field_typed decoded_value None (sn_profiles s)"

lemma stored_conversions [simp]:
  "stored_power (power_from_proto p)" "stored_brightness (brightness_from_proto b)" "stored_wifi (wifi_from_proto w)"
  "stored_volume (uint (v :: u32))"
  using uint_range_size [of v]
  by (auto simp: stored_power_def power_from_proto_def stored_brightness_def brightness_from_proto_def Let_def
      stored_wifi_def wifi_from_proto_def zero_wifi_def stored_volume_def word_size
      split: proto_power.splits option.splits brightness_setting.splits wifi_oneof.splits)

lemma decoded_value_Some [simp]: "decoded_value (Some x)"
  by (simp add: decoded_value_def)

lemma apply_update_stored: "stored_snapshot s \<Longrightarrow> stored_snapshot (fst (apply_update u (s, t)))"
  by (cases "(u, (s, t))" rule: apply_update.cases; simp add: stored_snapshot_def)

lemma apply_all_stored: "stored_snapshot s \<Longrightarrow> stored_snapshot (fst (apply_all us s))"
proof -
  assume "stored_snapshot s"
  then have "stored_snapshot (fst (fold apply_update us (s, t)))" for t
  proof (induction us arbitrary: s t)
    case (Cons u us)
    have "fold apply_update (u # us) (s, t) = fold apply_update us (fst (apply_update u (s, t)), snd (apply_update u (s, t)))"
      by simp
    then show ?case using Cons.IH [OF apply_update_stored [OF Cons.prems]] by presburger
  qed simp
  then show ?thesis by (simp add: apply_all_def)
qed

lemma field_typed_clone [simp]: "field_typed P z f \<Longrightarrow> field_typed P z (clone_field f)"
  by (auto simp: field_typed_def clone_slice_def split: option.splits list.splits if_splits)

lemma wifi_typed_clone [simp]: "field_typed stored_wifi zero_wifi f \<Longrightarrow> field_typed stored_wifi zero_wifi (clone_wifi_field f)"
  by (auto simp: field_typed_def stored_wifi_def clone_wifi_def zero_wifi_def clone_slice_def split: option.splits list.splits if_splits)

lemma clone_stored: "stored_snapshot s \<Longrightarrow> stored_snapshot (clone_snapshot s)"
  by (simp add: stored_snapshot_def clone_snapshot_def)

lemma collected_stored:
  assumes "collected s"
  shows "stored_snapshot s"
proof -
  have "power_typed p \<Longrightarrow> stored_power p" "wifi_typed w \<Longrightarrow> stored_wifi w" "volume_typed v \<Longrightarrow> stored_volume v"
    "brightness_typed b \<Longrightarrow> stored_brightness b" for p w v b
    by (auto simp: power_typed_def stored_power_def wifi_typed_def stored_wifi_def volume_typed_def stored_volume_def
        brightness_typed_def stored_brightness_def split: option.splits)
  then show ?thesis using assms by (auto simp: collected_def stored_snapshot_def intro: field_typed_mono)
qed

lemma apply_batches_stored:
  assumes "stored_snapshot s"
  shows "\<exists>s'. fold (\<lambda>us st. snd (store_apply peq us st)) batches (Some s) = Some s' \<and> stored_snapshot s'"
  using assms by (induction batches arbitrary: s) (simp_all add: store_apply_def Let_def split_beta apply_all_stored)

text \<open>
  C23: whatever a store collected over HTTP and whatever batches it then applied, every section is present
  without error or raw response, or has its zero value, and the values are of their types: a known
  power state or the zero one, a manual brightness exactly in manual mode, a connection status exactly
  for an active Wi-Fi service, a volume that fits 32 bits, a message that is not nil; so are the copies
  \<open>Snapshot\<close> returns.
\<close>

theorem store_typed:
  "case fold (\<lambda>us st. snd (store_apply peq us st)) batches (new_store (fst (collect lib ctx_nil client_nil ctx version get))) of
     None \<Rightarrow> False
   | Some s \<Rightarrow> stored_snapshot s \<and> stored_snapshot (store_snapshot (Some s))"
proof -
  obtain s where "fold (\<lambda>us st. snd (store_apply peq us st)) batches
      (new_store (fst (collect lib ctx_nil client_nil ctx version get))) = Some s" and "stored_snapshot s"
    using apply_batches_stored [OF clone_stored [OF collected_stored [OF collect_collected]]]
    unfolding new_store_def by metis
  then show ?thesis by (simp add: store_snapshot_Some clone_stored)
qed

end
