(* ===== verification/Validation.thy ===== *)
theory Validation
  imports Prelude
begin

text \<open>
  The local validation of requests: application names and asset paths (\<open>application_validation.go\<close>),
  storage paths (\<open>storage.go\<close>), settings, account, Wi-Fi, update, time, system, input, smart home and
  audio arguments. A regular expression is the predicate on bytes it stands for; \<open>time.Parse\<close> is a
  parameter.
\<close>

section \<open>Errors and sequences of checks\<close>

datatype val_error =
    VText string
  | VUnsupported string string \<comment> \<open>\<open>"%s %q is not supported"\<close>\<close>
  | VField string val_error \<comment> \<open>\<open>fieldError\<close>\<close>

type_synonym validity = "val_error + unit"

definition field_error :: "string \<Rightarrow> validity \<Rightarrow> validity" where
  "field_error field r = (case r of Inl e \<Rightarrow> Inl (VField field e) | Inr u \<Rightarrow> Inr u)"

definition checks :: "validity list \<Rightarrow> validity" where
  "checks rs = check_all (\<lambda>r. r) rs"

lemma checks_simps [simp]:
  "checks [] = Inr ()" "checks (r # rs) = rbind r (\<lambda>_. checks rs)"
  by (simp_all add: checks_def)

lemma rbind_unit [simp]: "rbind r (\<lambda>_. s) = Inr () \<longleftrightarrow> r = Inr () \<and> s = Inr ()"
  by (cases r) auto

lemma field_error_ok [simp]: "field_error f r = Inr () \<longleftrightarrow> r = Inr ()"
  by (simp add: field_error_def split: sum.splits)

section \<open>Application names and asset paths\<close>

definition maxApplicationNameBytes :: nat where "maxApplicationNameBytes = 31"
definition maxUploadedAssetPathBytes :: nat where "maxUploadedAssetPathBytes = 64"
definition maxStockAssetPathBytes :: nat where "maxStockAssetPathBytes = 256"

text \<open>\<open>[A-Za-z0-9._-]\<close>\<close>

definition name_char :: "char \<Rightarrow> bool" where
  "name_char c \<longleftrightarrow> is_alnum c \<or> c = CHR ''.'' \<or> c = CHR ''_'' \<or> c = CHR ''-''"

definition applicationNamePattern :: "string \<Rightarrow> bool" where
  "applicationNamePattern s \<longleftrightarrow> s \<noteq> [] \<and> list_all name_char s"

definition assetPathPattern :: "string \<Rightarrow> bool" where
  "assetPathPattern s \<longleftrightarrow> s \<noteq> [] \<and> list_all (\<lambda>c. name_char c \<or> c = CHR ''/'') s"

definition validate_application_name :: "string \<Rightarrow> validity" where
  "validate_application_name value =
     checks [guard (length value < 1 \<or> length value > maxApplicationNameBytes) (VText ''application_name must be 1-31 bytes''),
             guard (\<not> applicationNamePattern value)
               (VText ''application_name must contain only ASCII letters, digits, periods, underscores, or hyphens'')]"

definition validate_safe_asset_path :: "string \<Rightarrow> string \<Rightarrow> nat \<Rightarrow> validity" where
  "validate_safe_asset_path field value maximumBytes =
     checks [guard (length value < 1 \<or> length value > maximumBytes) (VText (field @ '' must be 1-'' @ format_nat maximumBytes @ '' bytes'')),
             guard (\<not> assetPathPattern value) (VText (field @ '' contains unsupported characters'')),
             guard (has_prefix value ''/'' \<or> has_suffix value ''/'' \<or> contains value ''//'' \<or> contains value ''..'')
               (VText (field @ '' must be a safe relative asset path'')),
             check_all (\<lambda>segment. guard (segment = ''.'') (VText (field @ '' must not contain traversal segments'')))
               (split_on (CHR ''/'') value)]"

definition validate_uploaded_asset_path :: "string \<Rightarrow> string \<Rightarrow> validity" where
  "validate_uploaded_asset_path field value = validate_safe_asset_path field value maxUploadedAssetPathBytes"

definition validate_stock_asset_path :: "string \<Rightarrow> string \<Rightarrow> validity" where
  "validate_stock_asset_path field value =
     checks [validate_safe_asset_path field value maxStockAssetPathBytes,
             guard (\<not> has_prefix value ''shared/'') (VText (field @ '' must begin with shared/''))]"

definition validate_asset_source :: "string \<Rightarrow> string \<Rightarrow> string \<Rightarrow> string \<Rightarrow> validity" where
  "validate_asset_source field applicationName path stockPath =
     rbind (validate_application_name applicationName) (\<lambda>_.
       if (path \<noteq> []) = (stockPath \<noteq> []) then Inl (VText (field @ '' must set exactly one of path or stock_path''))
       else if path \<noteq> [] then validate_uploaded_asset_path (field @ ''.path'') path
       else validate_stock_asset_path (field @ ''.stock_path'') stockPath)"

section \<open>Storage\<close>

definition maxStoragePathBytes :: nat where "maxStoragePathBytes = 63"

definition firmware_path_is_sane :: "string \<Rightarrow> bool" where
  "firmware_path_is_sane value \<longleftrightarrow>
     (if has_prefix value ''~'' \<or> has_prefix value ''..'' then False
      else \<not> contains value ''/..'' \<and> \<not> contains value [CHR 0x5C, CHR ''.'', CHR ''.''])"

definition validate_storage_path :: "string \<Rightarrow> string \<Rightarrow> validity" where
  "validate_storage_path field value =
     (if value = [] \<or> length value > maxStoragePathBytes then Inl (VText (field @ '' must be 1-63 bytes''))
      else
        let trimmed = trim_suffix value ''/''
        in guard (\<not> has_prefix trimmed ''/ext'' \<or> \<not> firmware_path_is_sane trimmed)
             (VText (field @ '' must use a sane firmware path under /ext'')))"

definition validate_storage_write :: "string \<Rightarrow> 'b option \<Rightarrow> validity" where
  "validate_storage_write path body =
     checks [validate_storage_path ''path'' path, guard (body = None) (VText ''storage write body must not be nil'')]"

section \<open>Settings, account, system, input, audio, smart home\<close>

text \<open>The runes of a string: an ASCII byte is one, all other bytes belong to runes above 0x7e.\<close>

definition device_name_punctuation :: string where
  "device_name_punctuation = '' !()_=+;:,.?'' @ [CHR 0x27] @ ''|@#$%^&*[]{} /'' @ [CHR 0x5C] @ [CHR 0x22] @ ''<>-''"

definition validate_device_name :: "string \<Rightarrow> validity" where
  "validate_device_name name =
     checks [guard (length name < 1 \<or> length name > 20) (VText ''device name must be 1-20 characters''),
             guard (trim_space name = []) (VText ''device name must not contain only spaces''),
             check_all (\<lambda>c. guard (\<not> is_alnum c \<and> c \<notin> set device_name_punctuation)
               (VText ''device name contains unsupported characters'')) name]"

text \<open>\<open>^[0-9]{4,10}$\<close> and \<open>^[A-Za-z0-9]{8}$\<close>\<close>

definition httpKeyPattern :: "string \<Rightarrow> bool" where
  "httpKeyPattern s \<longleftrightarrow> 4 \<le> length s \<and> length s \<le> 10 \<and> list_all is_digit s"

definition accessTokenIDPattern :: "string \<Rightarrow> bool" where
  "accessTokenIDPattern s \<longleftrightarrow> length s = 8 \<and> list_all is_alnum s"

definition validate_http_access :: "string \<Rightarrow> string \<Rightarrow> validity" where
  "validate_http_access mode key =
     checks [guard (mode \<notin> set [''disabled'', ''enabled'', ''key'']) (VUnsupported ''mode'' mode),
             guard (mode = ''key'' \<and> \<not> httpKeyPattern key) (VText ''key mode requires a 4-10 digit key''),
             guard (mode \<noteq> ''key'' \<and> key \<noteq> [] \<and> \<not> httpKeyPattern key)
               (VText ''access key must be 4-10 digits when provided'')]"

definition validate_access_token_short_id :: "string \<Rightarrow> validity" where
  "validate_access_token_short_id shortID =
     guard (\<not> accessTokenIDPattern shortID) (VText ''access token short ID must contain exactly 8 ASCII letters or digits'')"

record account_backend =
  ab_server_url :: string
  ab_client_cert_type :: string
  ab_ignore_server_cert :: bool

definition client_cert_types :: "string list" where
  [simp]: "client_cert_types = [''default'', ''custom'', ''none'']"

definition validate_account_backend :: "account_backend \<Rightarrow> validity" where
  "validate_account_backend b =
     checks [guard (trim_space (ab_server_url b) = []) (VText ''server_url must not be empty''),
             guard (length (ab_server_url b) > 64) (VText ''server_url must be at most 64 bytes''),
             guard (ab_server_url b \<noteq> ''default'' \<and> \<not> has_prefix (ab_server_url b) ''mqtt://''
                    \<and> \<not> has_prefix (ab_server_url b) ''mqtts://'') (VText ''server_url must be default, mqtt://, or mqtts://''),
             guard (ab_client_cert_type b \<notin> set client_cert_types) (VUnsupported ''client_cert_type'' (ab_client_cert_type b))]"

definition validate_optional_log_filename :: "string \<Rightarrow> validity" where
  "validate_optional_log_filename value =
     (if value = [] then Inr ()
      else guard (length value > 63 \<or> \<not> list_all (\<lambda>c. is_alnum c \<or> c = CHR ''_'' \<or> c = CHR ''-'') value)
        (VText ''filename must be 1-63 ASCII letters, digits, underscores, or hyphens''))"

definition input_keys :: "string list" where
  "input_keys = [''up'', ''down'', ''ok'', ''back'', ''start'', ''busy'', ''custom'', ''off'', ''apps'', ''settings'']"

definition validate_input_key :: "string \<Rightarrow> validity" where
  "validate_input_key key = guard (key \<notin> set input_keys) (VUnsupported ''key'' key)"

definition validate_volume :: "int \<Rightarrow> validity" where
  "validate_volume v = guard (v < 0 \<or> v > 100) (VText ''volume must be between 0 and 100'')"

definition switch_startups :: "string list" where
  [simp]: "switch_startups = [''off'', ''on'', ''toggle'', ''last'']"

definition validate_switch_update :: "bool option \<Rightarrow> string \<Rightarrow> validity" where
  "validate_switch_update state startup =
     checks [guard (state = None \<and> startup = []) (VText ''state or startup must be provided''),
             guard (startup \<noteq> [] \<and> startup \<notin> set switch_startups) (VUnsupported ''startup'' startup)]"

section \<open>Time, update, Wi-Fi\<close>

text \<open>\<open>time.Parse\<close>: the layout and the value; whether it succeeds.\<close>

type_synonym time_parser = "string \<Rightarrow> string \<Rightarrow> bool"

definition validate_timestamp :: "time_parser \<Rightarrow> string \<Rightarrow> validity" where
  "validate_timestamp parses value =
     guard (\<not> (length value = length ''20060102T150405Z'' \<and> parses ''20060102T150405Z'' value
            \<or> (length value = length ''2006-01-02T15:04:05Z'' \<or> length value = length ''2006-01-02T15:04:05+03:00'')
              \<and> parses ''2006-01-02T15:04:05Z07:00'' value))
       (VText ''timestamp must use RFC 3339 or firmware compact UTC format YYYYMMDDThhmmssZ'')"

definition validate_timezone :: "string \<Rightarrow> validity" where
  "validate_timezone value = guard (trim_space value = []) (VText ''timezone must not be empty'')"

definition validate_update_version :: "string \<Rightarrow> validity" where
  "validate_update_version version = guard (version = [] \<or> length version > 63) (VText ''version must be 1-63 bytes'')"

text \<open>
  \<open>strconv.ParseInt(s, 10, 64)\<close>, and \<open>fmt.Sscanf(value, "%d:%d", &hour, &minute)\<close>: a number after
  spaces without a line break, a colon, another number; what follows is not read.
\<close>

definition parse_int64 :: "string \<Rightarrow> int option" where
  "parse_int64 s =
     (let negative = has_prefix s ''-'';
          ds = (if negative \<or> has_prefix s ''+'' then drop 1 s else s);
          v = (if negative then - int (digits_value ds) else int (digits_value ds))
      in if ds \<noteq> [] \<and> list_all is_digit ds \<and> - max_int64 - 1 \<le> v \<and> v \<le> max_int64 then Some v else None)"

definition scan_int :: "string \<Rightarrow> (int \<times> string) option" where
  "scan_int s =
     (let r = trim_left_space s;
          skipped = take (length s - length r) s;
          sign = take (if has_prefix r ''-'' \<or> has_prefix r ''+'' then 1 else 0) r;
          rest = drop (length sign) r;
          token = sign @ takeWhile is_digit rest
      in if CHR 0x0A \<in> set skipped then None
         else (case parse_int64 token of None \<Rightarrow> None | Some v \<Rightarrow> Some (v, dropWhile is_digit rest)))"

definition valid_firmware_clock :: "string \<Rightarrow> bool" where
  "valid_firmware_clock value =
     (case scan_int value of
        Some (hour, CHR '':'' # r) \<Rightarrow>
          (case scan_int r of
             Some (minute, _) \<Rightarrow> 0 \<le> hour \<and> hour \<le> 23 \<and> 0 \<le> minute \<and> minute \<le> 59
           | None \<Rightarrow> False)
      | _ \<Rightarrow> False)"

definition validate_auto_update :: "string \<Rightarrow> string \<Rightarrow> validity" where
  "validate_auto_update start finish =
     checks [guard (start \<noteq> [] \<and> \<not> valid_firmware_clock start)
               (VText ''interval_start must contain an hour from 0-23 and minute from 0-59''),
             guard (finish \<noteq> [] \<and> \<not> valid_firmware_clock finish)
               (VText ''interval_end must contain an hour from 0-23 and minute from 0-59'')]"

text \<open>\<open>netip.ParseAddr(s)\<close> succeeding with \<open>Is4()\<close>\<close>

definition ipv4_field :: "string \<Rightarrow> bool" where
  "ipv4_field f \<longleftrightarrow> f \<noteq> [] \<and> list_all is_digit f \<and> (length f > 1 \<longrightarrow> hd f \<noteq> CHR ''0'') \<and> digits_value f \<le> 255"

definition is_ipv4 :: "string \<Rightarrow> bool" where
  "is_ipv4 s \<longleftrightarrow> (let fs = split_on (CHR ''.'') s in length fs = 4 \<and> list_all ipv4_field fs)"

record wifi_connect =
  wc_ssid :: string
  wc_password :: string
  wc_security :: string
  wc_ip_method :: string
  wc_address :: string
  wc_mask :: string
  wc_gateway :: string

definition wifi_securities :: "string list" where
  [simp]: "wifi_securities = [''Open'', ''WPA'', ''WPA2'', ''WEP'', ''WPA/WPA2'', ''WPA3'', ''WPA2/WPA3'']"

definition wifi_ip_methods :: "string list" where
  [simp]: "wifi_ip_methods = [''dhcp'', ''static'']"

text \<open>The three addresses are in a Go map, so the order in which they are checked is not fixed.\<close>

definition validate_wifi_connect :: "(string \<times> (wifi_connect \<Rightarrow> string)) list \<Rightarrow> wifi_connect \<Rightarrow> validity" where
  "validate_wifi_connect order r =
     checks [guard (wc_ssid r = []) (VText ''ssid must not be empty''),
             guard (length (wc_ssid r) > 33) (VText ''ssid must be at most 33 bytes''),
             guard (length (wc_password r) > 63) (VText ''password must be at most 63 bytes''),
             guard (wc_security r \<notin> set wifi_securities)
               (VUnsupported ''security'' (wc_security r)),
             guard (wc_ip_method r \<notin> set wifi_ip_methods) (VUnsupported ''ip_config.ip_method'' (wc_ip_method r)),
             guard (wc_ip_method r = ''static'' \<and> (wc_address r = [] \<or> wc_mask r = [] \<or> wc_gateway r = []))
               (VText ''static ip_config requires address, mask, and gateway''),
             check_all (\<lambda>(field, get). guard (get r \<noteq> [] \<and> \<not> is_ipv4 (get r))
               (VText (''ip_config.'' @ field @ '' must be an IPv4 address''))) order]"

definition wifi_addresses :: "(string \<times> (wifi_connect \<Rightarrow> string)) list" where
  "wifi_addresses = [(''address'', wc_address), (''mask'', wc_mask), (''gateway'', wc_gateway)]"

section \<open>Paths as segments\<close>

lemma rbind_Inr_unit [simp]: "rbind r Inr = r"
  by (cases r) auto

lemma has_prefix_Cons [simp]: "has_prefix (x # xs) (y # ys) \<longleftrightarrow> x = y \<and> has_prefix xs ys"
  by (simp add: has_prefix_def)

lemma has_prefix_Nil [simp]: "has_prefix xs []" "has_prefix [] (y # ys) \<longleftrightarrow> False"
  by (simp_all add: has_prefix_def)

lemma split_on_Cons_ne: "x \<noteq> c \<Longrightarrow> split_on c (x # xs) = (x # hd (split_on c xs)) # tl (split_on c xs)"
  by (cases "split_on c xs") (simp_all add: split_on_nonempty)

lemma split_on_hd_tl: "split_on c xs = hd (split_on c xs) # tl (split_on c xs)"
  by (simp add: split_on_nonempty)

lemma split_on_all: "list_all (list_all P) (split_on c s) \<longleftrightarrow> list_all (\<lambda>x. P x \<or> x = c) s"
proof (induction s)
  case (Cons x s)
  show ?case
  proof (cases "x = c")
    case False
    obtain y ys where "split_on c s = y # ys" by (cases "split_on c s") (simp_all add: split_on_nonempty)
    then show ?thesis using Cons False by auto
  qed (use Cons in auto)
qed simp

text \<open>No segment is empty: no separator at either end, and no two in a row.\<close>

lemma split_on_no_empty:
  "list_all (\<lambda>g. g \<noteq> []) (split_on c s) \<longleftrightarrow> s \<noteq> [] \<and> hd s \<noteq> c \<and> last s \<noteq> c \<and> \<not> contains s [c, c]"
  "list_all (\<lambda>g. g \<noteq> []) (tl (split_on c s)) \<longleftrightarrow> s = [] \<or> last s \<noteq> c \<and> \<not> contains s [c, c]"
proof (induction s)
  case (Cons x s)
  have two: "has_prefix s [c] \<longleftrightarrow> s \<noteq> [] \<and> hd s = c" by (cases s) auto
  case 1 show ?case
  proof (cases "x = c")
    case False
    then show ?thesis using Cons(2) unfolding split_on_Cons_ne [OF False] by auto
  qed simp
  case 2 show ?case
  proof (cases "x = c")
    case True
    then show ?thesis using Cons(1) two by auto
  next
    case False
    then show ?thesis using Cons(2) unfolding split_on_Cons_ne [OF False] by auto
  qed
qed simp_all

lemma split_on_hd_prefix: "c \<notin> set p \<Longrightarrow> has_prefix (hd (split_on c s)) p \<longleftrightarrow> has_prefix s p"
proof (induction s arbitrary: p)
  case Nil
  then show ?case by (cases p) auto
next
  case (Cons x s)
  show ?case
  proof (cases "x = c")
    case True
    then show ?thesis using Cons.prems by (cases p) auto
  next
    case False
    then show ?thesis using Cons unfolding split_on_Cons_ne [OF False] by (cases p) auto
  qed
qed

lemma split_on_contains: "c \<notin> set p \<Longrightarrow> p \<noteq> [] \<Longrightarrow> contains s p \<longleftrightarrow> list_ex (\<lambda>g. contains g p) (split_on c s)"
proof (induction s)
  case (Cons x s)
  show ?case
  proof (cases "x = c")
    case True
    then show ?thesis using Cons by (cases p) auto
  next
    case False
    have "has_prefix (x # hd (split_on c s)) p \<longleftrightarrow> has_prefix (x # s) p"
      using split_on_hd_prefix [OF Cons.prems(1), of "x # s"] split_on_Cons_ne [OF False, of s] by simp
    moreover obtain y ys where "split_on c s = y # ys" by (cases "split_on c s") (simp_all add: split_on_nonempty)
    ultimately show ?thesis using Cons False by auto
  qed
qed auto

lemma split_on_begins: "c \<notin> set p \<Longrightarrow> contains s (c # p) \<longleftrightarrow> list_ex (\<lambda>g. has_prefix g p) (tl (split_on c s))"
proof (induction s)
  case (Cons x s)
  show ?case
  proof (cases "x = c")
    case True
    obtain y ys where "split_on c s = y # ys" by (cases "split_on c s") (simp_all add: split_on_nonempty)
    then show ?thesis using True Cons split_on_hd_prefix [OF Cons.prems, of s] by auto
  next
    case False
    then show ?thesis using Cons unfolding split_on_Cons_ne [OF False] by auto
  qed
qed auto

definition safe_segment :: "string \<Rightarrow> bool" where
  "safe_segment g \<longleftrightarrow> g \<noteq> [] \<and> g \<noteq> ''.'' \<and> list_all name_char g \<and> \<not> contains g ''..''"

lemma has_suffix_last: "has_suffix s [c] \<longleftrightarrow> s \<noteq> [] \<and> last s = c"
  by (cases s rule: rev_cases) (auto simp: has_suffix_def)

lemma safe_asset_path_ok:
  "validate_safe_asset_path field s n = Inr () \<longleftrightarrow> length s \<le> n \<and> list_all safe_segment (split_on (CHR ''/'') s)"
proof -
  have p: "list_all (\<lambda>c. name_char c \<or> c = CHR ''/'') s \<longleftrightarrow> list_all (list_all name_char) (split_on (CHR ''/'') s)"
    using split_on_all [of name_char "CHR ''/''" s] by (auto simp: list_all_iff)
  have e: "(length s < 1 \<or> has_prefix s ''/'' \<or> has_suffix s ''/'' \<or> contains s ''//'') \<longleftrightarrow> \<not> list_all (\<lambda>g. g \<noteq> []) (split_on (CHR ''/'') s)"
    unfolding split_on_no_empty(1) by (cases s) (auto simp: has_suffix_last)
  have d: "contains s ''..'' \<longleftrightarrow> list_ex (\<lambda>g. contains g ''..'') (split_on (CHR ''/'') s)"
    by (rule split_on_contains) simp_all
  have "validate_safe_asset_path field s n = Inr () \<longleftrightarrow>
     length s \<le> n \<and> \<not> (length s < 1 \<or> has_prefix s ''/'' \<or> has_suffix s ''/'' \<or> contains s ''//'')
     \<and> list_all (\<lambda>c. name_char c \<or> c = CHR ''/'') s \<and> \<not> contains s ''..'' \<and> list_all (\<lambda>g. g \<noteq> ''.'') (split_on (CHR ''/'') s)"
    by (auto simp: validate_safe_asset_path_def assetPathPattern_def check_all_ok list_all_iff)
  also have "\<dots> \<longleftrightarrow> length s \<le> n \<and> list_all safe_segment (split_on (CHR ''/'') s)"
    unfolding p e d by (auto simp: safe_segment_def list_all_iff list_ex_iff)
  finally show ?thesis .
qed

lemma split_on_two: "tl (split_on c s) \<noteq> [] \<longleftrightarrow> c \<in> set s"
proof (induction s)
  case (Cons x s)
  then show ?case
  proof (cases "x = c")
    case False
    then show ?thesis using Cons split_on_Cons_ne [OF False, of s] by auto
  qed (simp add: split_on_nonempty)
qed simp

lemma has_prefix_first: "c \<notin> set a \<Longrightarrow> has_prefix s (a @ [c]) \<longleftrightarrow> hd (split_on c s) = a \<and> tl (split_on c s) \<noteq> []"
proof (induction a arbitrary: s)
  case Nil
  then show ?case by (cases s) (auto simp: split_on_nonempty split: list.splits)
next
  case (Cons x a)
  show ?case
  proof (cases s)
    case (Cons y t)
    show ?thesis
    proof (cases "y = c")
      case False
      then show ?thesis using Cons.IH [of t] Cons.prems split_on_Cons_ne [OF False, of t] by (auto simp: \<open>s = y # t\<close>)
    qed (use Cons Cons.prems in auto)
  qed simp
qed

lemma shared_prefix:
  "has_prefix s ''shared/'' \<longleftrightarrow> hd (split_on (CHR ''/'') s) = ''shared'' \<and> tl (split_on (CHR ''/'') s) \<noteq> []"
  using has_prefix_first [of "CHR ''/''" "''shared''" s] by simp

definition asset_source_ok :: "string \<Rightarrow> string \<Rightarrow> string \<Rightarrow> bool" where
  "asset_source_ok app path stock \<longleftrightarrow>
     app \<noteq> [] \<and> length app \<le> 31 \<and> list_all name_char app
     \<and> (if stock = [] then length path \<le> 64 \<and> list_all safe_segment (split_on (CHR ''/'') path)
        else path = [] \<and> length stock \<le> 256 \<and> list_all safe_segment (split_on (CHR ''/'') stock)
             \<and> hd (split_on (CHR ''/'') stock) = ''shared'' \<and> tl (split_on (CHR ''/'') stock) \<noteq> [])"

lemma validate_application_name_ok:
  "validate_application_name app = Inr () \<longleftrightarrow> app \<noteq> [] \<and> length app \<le> 31 \<and> list_all name_char app"
  by (auto simp: validate_application_name_def applicationNamePattern_def maxApplicationNameBytes_def)

lemma validate_asset_source_ok: "validate_asset_source field app path stock = Inr () \<longleftrightarrow> asset_source_ok app path stock"
proof -
  have e: "\<not> safe_segment []" by (simp add: safe_segment_def)
  show ?thesis
    by (auto simp: asset_source_ok_def validate_asset_source_def validate_application_name_ok e validate_uploaded_asset_path_def
        validate_stock_asset_path_def safe_asset_path_ok maxUploadedAssetPathBytes_def maxStockAssetPathBytes_def shared_prefix)
qed

text \<open>
  an asset source is accepted exactly when the application name is one to 31 name bytes and one of
  the two paths is given, at most 64 bytes uploaded or 256 bytes stock: a sequence of segments of name
  bytes, none of them empty or a dot or with two dots in a row, the first of a stock path being
  \<open>shared\<close>. So no accepted path leaves the directory it is resolved in.
\<close>

theorem asset_source_spec:
  "validate_asset_source field app path stock = Inr () \<longleftrightarrow>
     app \<noteq> [] \<and> length app \<le> 31 \<and> list_all name_char app
     \<and> (if stock = [] then length path \<le> 64 \<and> list_all safe_segment (split_on (CHR ''/'') path)
        else path = [] \<and> length stock \<le> 256 \<and> list_all safe_segment (split_on (CHR ''/'') stock)
             \<and> hd (split_on (CHR ''/'') stock) = ''shared'' \<and> tl (split_on (CHR ''/'') stock) \<noteq> [])"
  unfolding validate_asset_source_ok asset_source_ok_def ..

text \<open>
  C29: a storage path is accepted exactly when it is one to 63 bytes and, without one slash at its end,
  begins with \<open>/ext\<close> and none of its parts between slashes, and none between backslashes, begins with
  two dots.
\<close>

theorem storage_path_spec:
  "validate_storage_path field s = Inr () \<longleftrightarrow>
     s \<noteq> [] \<and> length s \<le> 63 \<and> has_prefix (trim_suffix s ''/'') ''/ext''
     \<and> list_all (\<lambda>g. \<not> has_prefix g ''..'') (split_on (CHR ''/'') (trim_suffix s ''/''))
     \<and> list_all (\<lambda>g. \<not> has_prefix g ''..'') (split_on (CHR 0x5C) (trim_suffix s ''/''))"
proof -
  define t where "t = trim_suffix s ''/''"
  have "contains t ''/..'' \<longleftrightarrow> list_ex (\<lambda>g. has_prefix g ''..'') (tl (split_on (CHR ''/'') t))"
    "contains t [CHR 0x5C, CHR ''.'', CHR ''.''] \<longleftrightarrow> list_ex (\<lambda>g. has_prefix g ''..'') (tl (split_on (CHR 0x5C) t))"
    using split_on_begins [of "CHR ''/''" "''..''" t] split_on_begins [of "CHR 0x5C" "''..''" t] by simp_all
  moreover have "list_all (\<lambda>g. \<not> has_prefix g ''..'') (split_on c t) \<longleftrightarrow>
      \<not> has_prefix t ''..'' \<and> \<not> list_ex (\<lambda>g. has_prefix g ''..'') (tl (split_on c t))" if "c \<noteq> CHR ''.''" for c
  proof -
    obtain y ys where y: "split_on c t = y # ys" by (cases "split_on c t") (simp_all add: split_on_nonempty)
    then show ?thesis using split_on_hd_prefix [of c "''..''" t] that by (auto simp: list_all_iff list_ex_iff)
  qed
  moreover have "\<not> has_prefix t ''~'' \<and> \<not> has_prefix t ''..''" if "has_prefix t ''/ext''"
    using that by (cases t) auto
  ultimately show ?thesis
    unfolding validate_storage_path_def firmware_path_is_sane_def Let_def maxStoragePathBytes_def t_def [symmetric]
    by (cases "has_prefix t ''/ext''") (auto simp: not_le)
qed

text \<open>The prefix is not followed by a slash in the check: siblings of the directory pass.\<close>

lemma storage_sibling_accepted: "validate_storage_path ''path'' ''/external/secrets'' = Inr ()"
  by code_simp

text \<open>A clock may be followed by anything.\<close>

lemma clock_trailing_accepted: "validate_auto_update ''7:05 tomorrow'' [] = Inr ()"
  by code_simp

end
