(* ===== verification/DisplayRequests.thy ===== *)
theory DisplayRequests
  imports Validation
begin

text \<open>
  Display requests: the element types (\<open>display_elements.go\<close>), their validation and warnings
  (\<open>display_validation.go\<close>), and the sanitising of text.

  An element is None when it is a nil interface or a nil pointer; \<open>OtherElement\<close> is a type of another
  package that embeds one of the element types.
\<close>

section \<open>Elements\<close>

record base_element =
  be_id :: string
  be_timeout :: "int option"
  be_until :: string
  be_x :: "int option"
  be_y :: "int option"
  be_z :: "int option"
  be_display :: string
  be_align :: string

record text_element =
  te_base :: base_element
  te_text :: string
  te_font :: string
  te_color :: string
  te_width :: int
  te_rate :: int
  te_start_delay :: int
  te_repeat_delay :: int

record asset_element = \<comment> \<open>the common fields of image and animation elements\<close>
  ae_base :: base_element
  ae_path :: string
  ae_stock_path :: string
  ae_opacity :: "int option"

record xpm_element =
  xe_base :: base_element
  xe_data :: string
  xe_opacity :: "int option"

record countdown_element =
  ce_base :: base_element
  ce_timestamp :: string
  ce_color :: string
  ce_direction :: string
  ce_show_hours :: string

record rectangle_element =
  re_base :: base_element
  re_width :: int
  re_height :: int
  re_radius :: int
  re_fill :: string
  re_fill_colors :: "string list"
  re_border_width :: "int option"
  re_border_color :: string

datatype display_element =
    TextElement text_element
  | ImageElement asset_element
  | AnimationElement asset_element bool bool string \<comment> \<open>loop, await previous end, section\<close>
  | XPMBitmapElement xpm_element
  | CountdownElement countdown_element
  | RectangleElement rectangle_element
  | OtherElement string

record display_request =
  dr_application :: string
  dr_priority :: int
  dr_led_color :: string
  dr_elements :: "display_element option list"

definition default_display_element :: "string \<Rightarrow> base_element" where
  "default_display_element i = \<lparr>be_id = i, be_timeout = None, be_until = [], be_x = None, be_y = None, be_z = None,
     be_display = ''front'', be_align = []\<rparr>"

definition new_text_element :: "string \<Rightarrow> string \<Rightarrow> string \<Rightarrow> text_element" where
  "new_text_element i text font = \<lparr>te_base = default_display_element i, te_text = text, te_font = font, te_color = [],
     te_width = 0, te_rate = 0, te_start_delay = 0, te_repeat_delay = 0\<rparr>"

definition new_rectangle_element :: "string \<Rightarrow> int \<Rightarrow> int \<Rightarrow> rectangle_element" where
  "new_rectangle_element i width height = \<lparr>re_base = default_display_element i, re_width = width, re_height = height,
     re_radius = 0, re_fill = [], re_fill_colors = [], re_border_width = None, re_border_color = []\<rparr>"

definition new_countdown_element :: "string \<Rightarrow> string \<Rightarrow> string \<Rightarrow> string \<Rightarrow> countdown_element" where
  "new_countdown_element i timestamp direction hours = \<lparr>ce_base = default_display_element i, ce_timestamp = timestamp,
     ce_color = [], ce_direction = direction, ce_show_hours = hours\<rparr>"

definition new_asset_element :: "string \<Rightarrow> string \<Rightarrow> asset_element" where
  "new_asset_element i path = \<lparr>ae_base = default_display_element i, ae_path = path, ae_stock_path = [], ae_opacity = None\<rparr>"

definition new_stock_element :: "string \<Rightarrow> string \<Rightarrow> asset_element" where
  "new_stock_element i path = \<lparr>ae_base = default_display_element i, ae_path = [], ae_stock_path = path, ae_opacity = None\<rparr>"

definition new_asset_animation_element :: "string \<Rightarrow> string \<Rightarrow> display_element" where
  "new_asset_animation_element i path = AnimationElement (new_asset_element i path) False False []"

definition new_stock_animation_element :: "string \<Rightarrow> string \<Rightarrow> display_element" where
  "new_stock_animation_element i path = AnimationElement (new_stock_element i path) False False []"

definition new_xpm_element :: "string \<Rightarrow> string \<Rightarrow> xpm_element" where
  "new_xpm_element i data = \<lparr>xe_base = default_display_element i, xe_data = data, xe_opacity = None\<rparr>"

section \<open>Validation\<close>

definition is_hex :: "char \<Rightarrow> bool" where
  "is_hex c \<longleftrightarrow> is_digit c \<or> char_in (CHR ''a'') (CHR ''f'') c \<or> char_in (CHR ''A'') (CHR ''F'') c"

definition colorPattern :: "string \<Rightarrow> bool" where
  "colorPattern s \<longleftrightarrow> (case s of c # cs \<Rightarrow> c = CHR ''#'' \<and> length cs = 8 \<and> list_all is_hex cs | [] \<Rightarrow> False)"

definition normalize_color :: "string \<Rightarrow> val_error + string" where
  "normalize_color value =
     (if \<not> colorPattern value then Inl (VText ''color must use #RRGGBBAA'') else Inr (map ascii_upper value))"

definition validate_color :: "string \<Rightarrow> string \<Rightarrow> validity" where
  "validate_color field value =
     (if value = [] then Inr () else field_error field (map_sum id (\<lambda>_. ()) (normalize_color value)))"

definition elem_prefix :: "nat \<Rightarrow> string" where
  "elem_prefix i = ''elements['' @ format_nat i @ '']''"

definition outside :: "int \<Rightarrow> int \<Rightarrow> int option \<Rightarrow> bool" where
  "outside lo hi v = (case v of None \<Rightarrow> False | Some x \<Rightarrow> x < lo \<or> x > hi)"

definition display_until :: "string \<Rightarrow> int option" where
  "display_until s = (if s = [] then Some 0 else parse_int64 s)"

definition display_aligns :: "string list" where
  "display_aligns = [''top_left'', ''top_mid'', ''top_right'', ''mid_left'', ''center'', ''mid_right'',
     ''bottom_left'', ''bottom_mid'', ''bottom_right'']"

definition display_fonts :: "string list" where
  "display_fonts = [''tiny'', ''small'', ''normal'', ''condensed'', ''bold'', ''large'', ''extra_large'', ''global'']"

definition rectangle_fills :: "string list" where
  "rectangle_fills = [''none'', ''solid'', ''gradient_h'', ''gradient_v'']"

definition validate_base_element :: "nat \<Rightarrow> base_element \<Rightarrow> validity" where
  "validate_base_element i b =
     rbind (guard (outside min_int32 max_int32 (be_timeout b)) (VText (elem_prefix i @ ''.timeout must fit a signed 32-bit integer''))) (\<lambda>_.
     case display_until (be_until b) of
       None \<Rightarrow> Inl (VText (elem_prefix i @ ''.display_until must be a signed Unix timestamp string''))
     | Some until \<Rightarrow>
         checks [guard ((case be_timeout b of None \<Rightarrow> False | Some t \<Rightarrow> t > 0) \<and> until > 0)
                   (VText (elem_prefix i @ ''.timeout and display_until are mutually exclusive when positive'')),
                 guard (outside (- 32768) 32767 (be_x b)) (VText (elem_prefix i @ ''.x must fit a signed 16-bit integer'')),
                 guard (outside (- 32768) 32767 (be_y b)) (VText (elem_prefix i @ ''.y must fit a signed 16-bit integer'')),
                 guard (outside 0 max_int32 (be_z b)) (VText (elem_prefix i @ ''.z_index must be between 0 and 2147483647'')),
                 guard (be_display b \<noteq> [] \<and> be_display b \<noteq> ''front'' \<and> be_display b \<noteq> ''back'')
                   (VUnsupported (elem_prefix i @ ''.display'') (be_display b)),
                 guard (be_align b \<noteq> [] \<and> be_align b \<notin> set display_aligns) (VUnsupported (elem_prefix i @ ''.align'') (be_align b))])"

definition validate_optional_percent :: "string \<Rightarrow> int option \<Rightarrow> validity" where
  "validate_optional_percent field value = guard (outside 0 100 value) (VText (field @ '' must be between 0 and 100''))"

definition validate_xpm_element :: "nat \<Rightarrow> xpm_element \<Rightarrow> validity" where
  "validate_xpm_element i e =
     checks [guard (xe_data e = []) (VText (elem_prefix i @ ''.data must not be empty'')),
             validate_optional_percent (elem_prefix i @ ''.opacity'') (xe_opacity e)]"

definition firmware_size :: "int \<Rightarrow> bool" where
  "firmware_size v \<longleftrightarrow> 0 \<le> v \<and> v \<le> max_uint32"

definition validate_text_element :: "nat \<Rightarrow> text_element \<Rightarrow> validity" where
  "validate_text_element i e =
     checks [guard (te_font e \<notin> set display_fonts) (VUnsupported (elem_prefix i @ ''.font'') (te_font e)),
             validate_color (elem_prefix i @ ''.color'') (te_color e),
             guard (\<not> firmware_size (te_width e)) (VText (elem_prefix i @ ''.width must be omitted or fit a positive firmware size'')),
             guard (\<not> firmware_size (te_rate e) \<or> \<not> firmware_size (te_start_delay e) \<or> \<not> firmware_size (te_repeat_delay e))
               (VText (elem_prefix i @ '' scroll values must fit unsigned firmware sizes''))]"

definition validate_countdown_element :: "nat \<Rightarrow> countdown_element \<Rightarrow> validity" where
  "validate_countdown_element i e =
     checks [guard (ce_timestamp e = []) (VText (elem_prefix i @ ''.timestamp must be a signed Unix timestamp string'')),
             guard (parse_int64 (ce_timestamp e) = None) (VText (elem_prefix i @ ''.timestamp must be a signed Unix timestamp string'')),
             validate_color (elem_prefix i @ ''.color'') (ce_color e),
             guard (ce_direction e \<noteq> ''time_left'' \<and> ce_direction e \<noteq> ''time_since'')
               (VUnsupported (elem_prefix i @ ''.direction'') (ce_direction e)),
             guard (ce_show_hours e \<noteq> ''when_non_zero'' \<and> ce_show_hours e \<noteq> ''always'')
               (VUnsupported (elem_prefix i @ ''.show_hours'') (ce_show_hours e))]"

definition validate_fill_color :: "nat \<Rightarrow> nat \<times> string \<Rightarrow> validity" where
  "validate_fill_color i jc =
     field_error (elem_prefix i @ ''.fill_colors['' @ format_nat (fst jc) @ '']'') (map_sum id (\<lambda>_. ()) (normalize_color (snd jc)))"

definition validate_fill_count :: "nat \<Rightarrow> string \<Rightarrow> nat \<Rightarrow> validity" where
  "validate_fill_count i fill n =
     (if fill = ''solid'' then guard (n > 1) (VText (elem_prefix i @ ''.fill_colors must contain at most one color for solid fill''))
      else if fill = ''gradient_h'' \<or> fill = ''gradient_v''
      then guard (n \<noteq> 0 \<and> n \<noteq> 2) (VText (elem_prefix i @ ''.fill_colors must be omitted or contain two colors for gradient fill''))
      else guard (n > 2) (VText (elem_prefix i @ ''.fill_colors must contain at most two colors'')))"

definition validate_rectangle_element :: "nat \<Rightarrow> rectangle_element \<Rightarrow> validity" where
  "validate_rectangle_element i e =
     checks [guard (re_width e < 1 \<or> re_width e > max_int32) (VText (elem_prefix i @ ''.width must be between 1 and 2147483647'')),
             guard (re_height e < 1 \<or> re_height e > max_int32) (VText (elem_prefix i @ ''.height must be between 1 and 2147483647'')),
             guard (re_radius e < 0 \<or> re_radius e > max_int32) (VText (elem_prefix i @ ''.radius must be between 0 and 2147483647'')),
             guard (re_fill e \<noteq> [] \<and> re_fill e \<notin> set rectangle_fills) (VUnsupported (elem_prefix i @ ''.fill'') (re_fill e)),
             check_all (validate_fill_color i) (enumerate 0 (re_fill_colors e)),
             validate_fill_count i (re_fill e) (length (re_fill_colors e)),
             guard (outside 0 max_int32 (re_border_width e)) (VText (elem_prefix i @ ''.border_width must be between 0 and 2147483647'')),
             validate_color (elem_prefix i @ ''.border_color'') (re_border_color e)]"

definition validate_asset_element :: "nat \<Rightarrow> string \<Rightarrow> asset_element \<Rightarrow> validity" where
  "validate_asset_element i app e =
     checks [validate_asset_source (elem_prefix i) app (ae_path e) (ae_stock_path e),
             validate_optional_percent (elem_prefix i @ ''.opacity'') (ae_opacity e)]"

text \<open>\<open>displayElementInfo\<close>: the base of an element and the check of its own fields.\<close>

fun display_element_info :: "nat \<Rightarrow> string \<Rightarrow> display_element option \<Rightarrow> val_error + base_element \<times> (nat \<Rightarrow> validity)" where
  "display_element_info i app None = Inl (VText (elem_prefix i @ '' must not be nil''))"
| "display_element_info i app (Some (TextElement e)) = Inr (te_base e, \<lambda>i. validate_text_element i e)"
| "display_element_info i app (Some (ImageElement e)) = Inr (ae_base e, \<lambda>i. validate_asset_element i app e)"
| "display_element_info i app (Some (AnimationElement e looped await sec)) = Inr (ae_base e, \<lambda>i. validate_asset_element i app e)"
| "display_element_info i app (Some (XPMBitmapElement e)) = Inr (xe_base e, \<lambda>i. validate_xpm_element i e)"
| "display_element_info i app (Some (CountdownElement e)) = Inr (ce_base e, \<lambda>i. validate_countdown_element i e)"
| "display_element_info i app (Some (RectangleElement e)) = Inr (re_base e, \<lambda>i. validate_rectangle_element i e)"
| "display_element_info i app (Some (OtherElement t)) = Inl (VText (elem_prefix i @ '' has unsupported type '' @ t))"

definition validate_display_element :: "nat \<Rightarrow> string \<Rightarrow> display_element option \<Rightarrow> validity" where
  "validate_display_element i app e =
     rbind (display_element_info i app e) (\<lambda>(b, specific). rbind (validate_base_element i b) (\<lambda>_. specific i))"

definition maxDisplayElements :: nat where "maxDisplayElements = 100"

definition validate_display_header :: "display_request \<Rightarrow> validity" where
  "validate_display_header r =
     checks [validate_application_name (dr_application r),
             guard (dr_priority r < 0 \<or> dr_priority r > 100) (VText ''priority must be omitted or between 1 and 100''),
             validate_color ''led_notification_color'' (dr_led_color r),
             guard (length (dr_elements r) = 0) (VText ''elements must contain at least one element''),
             guard (length (dr_elements r) > maxDisplayElements) (VText ''elements must contain at most 100 elements'')]"

definition validate_display :: "display_request \<Rightarrow> validity" where
  "validate_display r =
     rbind (validate_display_header r) (\<lambda>_.
       check_all (\<lambda>(i, e). validate_display_element i (dr_application r) e) (enumerate 0 (dr_elements r)))"

section \<open>Warnings\<close>

record warning =
  wn_field :: string
  wn_message :: string

definition display_surface :: "base_element \<Rightarrow> int \<times> int" where
  "display_surface b = (if be_display b = ''back'' then (160, 80) else (72, 16))"

definition surface_text :: "base_element \<Rightarrow> string" where
  "surface_text b = (if be_display b = ''back'' then ''160x80'' else ''72x16'')"

definition element_warnings :: "nat \<Rightarrow> base_element \<Rightarrow> warning list" where
  "element_warnings i b =
     (let (width, height) = display_surface b;
          message = ''coordinate is outside the observed '' @ surface_text b @ '' display surface''
      in (if outside 0 (width - 1) (be_x b) then [\<lparr>wn_field = elem_prefix i @ ''.x'', wn_message = message\<rparr>] else [])
         @ (if outside 0 (height - 1) (be_y b) then [\<lparr>wn_field = elem_prefix i @ ''.y'', wn_message = message\<rparr>] else []))"

definition display_warnings :: "display_request \<Rightarrow> warning list" where
  "display_warnings r =
     concat (map (\<lambda>(i, e). case display_element_info i (dr_application r) e of Inl _ \<Rightarrow> [] | Inr (b, _) \<Rightarrow> element_warnings i b)
       (enumerate 0 (dr_elements r)))"

section \<open>Brightness, screens, clearing\<close>

definition brightnessPattern :: "string \<Rightarrow> bool" where
  "brightnessPattern s \<longleftrightarrow> s = ''auto'' \<or> s = ''100'' \<or> s \<noteq> [] \<and> length s \<le> 2 \<and> list_all is_digit s"

definition validate_brightness :: "string \<Rightarrow> validity" where
  "validate_brightness value =
     (if \<not> brightnessPattern value then Inl (VText ''brightness must be auto or 0-100'')
      else if value = ''auto'' then Inr ()
      else guard (case parse_int64 value of None \<Rightarrow> True | Some v \<Rightarrow> v < 0 \<or> v > 100) (VText ''brightness must be auto or 0-100''))"

definition validate_screen_display :: "string \<Rightarrow> validity" where
  "validate_screen_display d = guard (d \<noteq> ''front'' \<and> d \<noteq> ''back'') (VText ''display must be front or back'')"

definition validate_clear_elements :: "string \<Rightarrow> string list \<Rightarrow> validity" where
  "validate_clear_elements app ids =
     checks [guard (length ids = 0) (VText ''element_ids must contain at least one element ID''),
             if app \<noteq> [] then validate_application_name app else Inr (),
             check_all (\<lambda>(i, s). guard (\<not> applicationNamePattern s)
               (VText (''element_ids['' @ format_nat i @ ''] must contain only ASCII letters, digits, periods, underscores, or hyphens'')))
               (enumerate 0 ids)]"

section \<open>Display text\<close>

text \<open>\<open>SanitizeDisplayText\<close> on the runes of the text.\<close>

type_synonym rune = nat

definition is_space_rune :: "rune \<Rightarrow> bool" where
  "is_space_rune r \<longleftrightarrow> 0x9 \<le> r \<and> r \<le> 0xd \<or> r = 0x20 \<or> r = 0x85 \<or> r = 0xa0 \<or> r = 0x1680 \<or> 0x2000 \<le> r \<and> r \<le> 0x200a
     \<or> r = 0x2028 \<or> r = 0x2029 \<or> r = 0x202f \<or> r = 0x205f \<or> r = 0x3000"

definition is_control_rune :: "rune \<Rightarrow> bool" where
  "is_control_rune r \<longleftrightarrow> r < 0x20 \<or> 0x7f \<le> r \<and> r \<le> 0x9f"

definition is_display_symbol :: "rune \<Rightarrow> bool" where
  "is_display_symbol r \<longleftrightarrow> 0x1f300 \<le> r \<and> r \<le> 0x1faff \<or> 0x2600 \<le> r \<and> r \<le> 0x27bf \<or> r = 0x200d \<or> r = 0xfe0f"

definition sanitize_rune :: "rune \<Rightarrow> rune list" where
  "sanitize_rune r = (if is_space_rune r then [0x20] else if is_control_rune r \<or> is_display_symbol r then [] else [r])"

text \<open>\<open>strings.Join(strings.Fields(s), " ")\<close>\<close>

function rune_fields :: "rune list \<Rightarrow> rune list list" where
  "rune_fields [] = []"
| "rune_fields (r # rs) =
     (if is_space_rune r then rune_fields rs
      else (r # takeWhile (\<lambda>r. \<not> is_space_rune r) rs) # rune_fields (dropWhile (\<lambda>r. \<not> is_space_rune r) rs))"
  by pat_completeness auto
termination by (relation "measure length") (auto simp: length_dropWhile_le le_imp_less_Suc)

fun join_fields :: "rune list list \<Rightarrow> rune list" where
  "join_fields [] = []"
| "join_fields [f] = f"
| "join_fields (f # g # fs) = f @ 0x20 # join_fields (g # fs)"

definition sanitize_display_text :: "rune list \<Rightarrow> rune list" where
  "sanitize_display_text rs = join_fields (rune_fields (concat (map sanitize_rune rs)))"

section \<open>What a display request must be\<close>

definition color_ok :: "string \<Rightarrow> bool" where
  "color_ok s \<longleftrightarrow> (\<exists>cs. s = CHR ''#'' # cs \<and> length cs = 8 \<and> list_all is_hex cs)"

definition base_ok :: "base_element \<Rightarrow> bool" where
  "base_ok b \<longleftrightarrow>
     \<not> outside (- (2 ^ 31)) (2 ^ 31 - 1) (be_timeout b) \<and> \<not> outside (- (2 ^ 15)) (2 ^ 15 - 1) (be_x b)
     \<and> \<not> outside (- (2 ^ 15)) (2 ^ 15 - 1) (be_y b) \<and> \<not> outside 0 (2 ^ 31 - 1) (be_z b)
     \<and> (case display_until (be_until b) of
          None \<Rightarrow> False
        | Some until \<Rightarrow> \<not> (until > 0 \<and> (case be_timeout b of None \<Rightarrow> False | Some t \<Rightarrow> t > 0)))
     \<and> be_display b \<in> set ['''', ''front'', ''back''] \<and> be_align b \<in> set ('''' # display_aligns)"

definition asset_element_ok :: "string \<Rightarrow> asset_element \<Rightarrow> bool" where
  "asset_element_ok app e \<longleftrightarrow> base_ok (ae_base e) \<and> asset_source_ok app (ae_path e) (ae_stock_path e) \<and> \<not> outside 0 100 (ae_opacity e)"

fun element_ok :: "string \<Rightarrow> display_element option \<Rightarrow> bool" where
  "element_ok app None = False"
| "element_ok app (Some (TextElement e)) \<longleftrightarrow>
     base_ok (te_base e) \<and> te_font e \<in> set display_fonts \<and> (te_color e = [] \<or> color_ok (te_color e))
     \<and> list_all (\<lambda>v. 0 \<le> v \<and> v < 2 ^ 32) [te_width e, te_rate e, te_start_delay e, te_repeat_delay e]"
| "element_ok app (Some (ImageElement e)) \<longleftrightarrow> asset_element_ok app e"
| "element_ok app (Some (AnimationElement e looped await sec)) \<longleftrightarrow> asset_element_ok app e"
| "element_ok app (Some (XPMBitmapElement e)) \<longleftrightarrow> base_ok (xe_base e) \<and> xe_data e \<noteq> [] \<and> \<not> outside 0 100 (xe_opacity e)"
| "element_ok app (Some (CountdownElement e)) \<longleftrightarrow>
     base_ok (ce_base e) \<and> parse_int64 (ce_timestamp e) \<noteq> None \<and> (ce_color e = [] \<or> color_ok (ce_color e))
     \<and> ce_direction e \<in> set [''time_left'', ''time_since''] \<and> ce_show_hours e \<in> set [''when_non_zero'', ''always'']"
| "element_ok app (Some (RectangleElement e)) \<longleftrightarrow>
     base_ok (re_base e) \<and> list_all (\<lambda>v. 1 \<le> v \<and> v < 2 ^ 31) [re_width e, re_height e] \<and> 0 \<le> re_radius e \<and> re_radius e < 2 ^ 31
     \<and> re_fill e \<in> set ('''' # rectangle_fills) \<and> list_all color_ok (re_fill_colors e)
     \<and> length (re_fill_colors e) \<in>
         (if re_fill e = ''solid'' then {0, 1} else if re_fill e = ''gradient_h'' \<or> re_fill e = ''gradient_v'' then {0, 2} else {0, 1, 2})
     \<and> \<not> outside 0 (2 ^ 31 - 1) (re_border_width e) \<and> (re_border_color e = [] \<or> color_ok (re_border_color e))"
| "element_ok app (Some (OtherElement t)) = False"

definition header_ok :: "display_request \<Rightarrow> bool" where
  "header_ok r \<longleftrightarrow>
     dr_application r \<noteq> [] \<and> length (dr_application r) \<le> 31 \<and> list_all name_char (dr_application r)
     \<and> 0 \<le> dr_priority r \<and> dr_priority r \<le> 100 \<and> (dr_led_color r = [] \<or> color_ok (dr_led_color r))
     \<and> 1 \<le> length (dr_elements r) \<and> length (dr_elements r) \<le> 100"

named_theorems accepts

lemma color_pattern_ok: "colorPattern s \<longleftrightarrow> color_ok s"
  by (auto simp: colorPattern_def color_ok_def split: list.splits)

lemma validate_color_ok [accepts]: "validate_color f s = Inr () \<longleftrightarrow> s = [] \<or> color_ok s"
  by (auto simp: validate_color_def normalize_color_def color_pattern_ok)

lemma validate_base_ok [accepts]: "validate_base_element i b = Inr () \<longleftrightarrow> base_ok b"
  by (auto simp: validate_base_element_def base_ok_def split: option.splits)

lemma validate_percent_ok [accepts]: "validate_optional_percent f v = Inr () \<longleftrightarrow> \<not> outside 0 100 v"
  by (simp add: validate_optional_percent_def)

lemma validate_text_ok [accepts]:
  "validate_text_element i e = Inr () \<longleftrightarrow> te_font e \<in> set display_fonts \<and> (te_color e = [] \<or> color_ok (te_color e))
     \<and> list_all (\<lambda>v. 0 \<le> v \<and> v < 2 ^ 32) [te_width e, te_rate e, te_start_delay e, te_repeat_delay e]"
  by (auto simp: validate_text_element_def accepts firmware_size_def)

lemma validate_xpm_ok [accepts]: "validate_xpm_element i e = Inr () \<longleftrightarrow> xe_data e \<noteq> [] \<and> \<not> outside 0 100 (xe_opacity e)"
  by (simp add: validate_xpm_element_def accepts)

lemma validate_asset_ok [accepts]:
  "validate_asset_element i app e = Inr () \<longleftrightarrow> asset_source_ok app (ae_path e) (ae_stock_path e) \<and> \<not> outside 0 100 (ae_opacity e)"
  by (simp add: validate_asset_element_def accepts validate_asset_source_ok)

lemma parse_int64_Nil [simp]: "parse_int64 [] = None"
  by (simp add: parse_int64_def)

lemma validate_countdown_ok [accepts]:
  "validate_countdown_element i e = Inr () \<longleftrightarrow> parse_int64 (ce_timestamp e) \<noteq> None \<and> (ce_color e = [] \<or> color_ok (ce_color e))
     \<and> ce_direction e \<in> set [''time_left'', ''time_since''] \<and> ce_show_hours e \<in> set [''when_non_zero'', ''always'']"
  by (auto simp: validate_countdown_element_def accepts)

lemma validate_fill_colors_ok [accepts]:
  "check_all (validate_fill_color i) (enumerate n cs) = Inr () \<longleftrightarrow> list_all color_ok cs"
  by (induction cs arbitrary: n) (auto simp: validate_fill_color_def normalize_color_def color_pattern_ok)

lemma validate_fill_count_ok [accepts]:
  "validate_fill_count i fill n = Inr () \<longleftrightarrow>
     n \<in> (if fill = ''solid'' then {0, 1} else if fill = ''gradient_h'' \<or> fill = ''gradient_v'' then {0, 2} else {0, 1, 2})"
  by (auto simp: validate_fill_count_def)

lemma validate_rectangle_ok [accepts]:
  "validate_rectangle_element i e = Inr () \<longleftrightarrow>
     list_all (\<lambda>v. 1 \<le> v \<and> v < 2 ^ 31) [re_width e, re_height e] \<and> 0 \<le> re_radius e \<and> re_radius e < 2 ^ 31
     \<and> re_fill e \<in> set ('''' # rectangle_fills) \<and> list_all color_ok (re_fill_colors e)
     \<and> length (re_fill_colors e) \<in>
         (if re_fill e = ''solid'' then {0, 1} else if re_fill e = ''gradient_h'' \<or> re_fill e = ''gradient_v'' then {0, 2} else {0, 1, 2})
     \<and> \<not> outside 0 (2 ^ 31 - 1) (re_border_width e) \<and> (re_border_color e = [] \<or> color_ok (re_border_color e))"
  unfolding validate_rectangle_element_def checks_simps rbind_unit accepts by auto

lemma validate_element_ok: "validate_display_element i app e = Inr () \<longleftrightarrow> element_ok app e"
proof (cases e)
  case None
  then show ?thesis by (simp add: validate_display_element_def)
next
  case (Some d)
  show ?thesis
    unfolding Some
    by (cases d; simp add: validate_display_element_def asset_element_ok_def accepts)
qed

lemma validate_header_ok: "validate_display_header r = Inr () \<longleftrightarrow> header_ok r"
  by (auto simp: validate_display_header_def header_ok_def accepts validate_application_name_ok maxDisplayElements_def Suc_le_eq)

section \<open>The first error\<close>

fun error_text :: "val_error \<Rightarrow> string" where
  "error_text (VText s) = s"
| "error_text (VUnsupported s v) = s"
| "error_text (VField s e) = s"

definition names :: "string \<Rightarrow> validity \<Rightarrow> bool" where
  "names p r = (case r of Inl e \<Rightarrow> has_prefix (error_text e) p | Inr _ \<Rightarrow> True)"

lemma names_simps [simp]:
  "names p (Inr u)" "names p (Inl e) = has_prefix (error_text e) p" "has_prefix (p @ s) p"
  by (simp_all add: names_def has_prefix_def)

lemma names_guard [intro]: "has_prefix (error_text e) p \<Longrightarrow> names p (guard b e)"
  by (simp add: guard_def)

lemma names_rbind [intro]: "names p r \<Longrightarrow> (\<And>x. names p (k x)) \<Longrightarrow> names p (rbind r k)"
  by (cases r) simp_all

lemma names_check_all [intro]: "(\<And>x. names p (f x)) \<Longrightarrow> names p (check_all f xs)"
  by (induction xs) auto

lemma names_checks [intro]: "list_all (names p) rs \<Longrightarrow> names p (checks rs)"
  by (induction rs) auto

lemma names_field [intro]: "has_prefix f p \<Longrightarrow> names p (field_error f r)"
  by (cases r) (simp_all add: field_error_def)

lemma check_all_first:
  "check_all f xs = Inl e \<Longrightarrow> \<exists>k < length xs. f (xs ! k) = Inl e \<and> list_all (\<lambda>x. f x = Inr ()) (take k xs)"
proof (induction xs)
  case (Cons x xs)
  show ?case
  proof (cases "f x")
    case (Inl d)
    then show ?thesis using Cons.prems by (intro exI [of _ 0]) simp
  next
    case (Inr u)
    then obtain k where "k < length xs" "f (xs ! k) = Inl e" "list_all (\<lambda>x. f x = Inr ()) (take k xs)"
      using Cons by auto
    then show ?thesis using Inr by (intro exI [of _ "Suc k"]) simp
  qed
qed simp

lemma has_prefix_self [simp]: "has_prefix s s"
  by (simp add: has_prefix_def)

lemma has_prefix_append_left: "has_prefix (p @ s) p"
  by (simp add: has_prefix_def)

lemma has_prefix_append2: "has_prefix s p \<Longrightarrow> has_prefix (s @ t) p"
  by (auto simp: has_prefix_iff)

lemma take_enumerate: "take k (enumerate n xs) = enumerate n (take k xs)"
  by (induction xs arbitrary: k n) (auto simp: take_Cons split: nat.splits)

lemmas names_intros = names_guard names_rbind names_check_all names_checks names_field

lemma names_color: "has_prefix f p \<Longrightarrow> names p (validate_color f s)"
  by (auto simp: validate_color_def)

lemma names_percent: "has_prefix f p \<Longrightarrow> names p (validate_optional_percent f v)"
  by (auto simp: validate_optional_percent_def intro!: names_guard has_prefix_append2)

lemma names_safe_path: "has_prefix f p \<Longrightarrow> names p (validate_safe_asset_path f s n)"
  unfolding validate_safe_asset_path_def by (intro names_checks) (auto intro!: names_intros has_prefix_append2)

lemma names_base: "names (elem_prefix i) (validate_base_element i b)"
  unfolding validate_base_element_def by (auto intro!: names_intros split: option.splits)

lemma names_asset_source:
  assumes "validate_application_name app = Inr ()"
  shows "names (elem_prefix i) (validate_asset_source (elem_prefix i) app path stock)"
  unfolding validate_asset_source_def assms validate_uploaded_asset_path_def validate_stock_asset_path_def
  by (auto intro!: names_intros names_safe_path has_prefix_append_left simp del: checks_simps)

lemma names_fill_color: "names (elem_prefix i) (validate_fill_color i jc)"
  by (simp add: validate_fill_color_def names_field)

lemma names_fill_count: "names (elem_prefix i) (validate_fill_count i fill n)"
  by (simp add: validate_fill_count_def guard_def)

lemma names_rectangle: "names (elem_prefix i) (validate_rectangle_element i e)"
  unfolding validate_rectangle_element_def
  by (intro names_checks) (simp add: guard_def names_check_all names_fill_color names_fill_count names_color)

lemma names_countdown: "names (elem_prefix i) (validate_countdown_element i e)"
  unfolding validate_countdown_element_def by (intro names_checks) (simp add: guard_def names_color)

lemma names_text: "names (elem_prefix i) (validate_text_element i e)"
  unfolding validate_text_element_def by (intro names_checks) (simp add: guard_def names_color)

lemma names_xpm: "names (elem_prefix i) (validate_xpm_element i e)"
  unfolding validate_xpm_element_def by (intro names_checks) (simp add: guard_def names_percent)

lemma names_asset:
  "validate_application_name app = Inr () \<Longrightarrow> names (elem_prefix i) (validate_asset_element i app e)"
  unfolding validate_asset_element_def by (intro names_checks) (simp add: names_asset_source names_percent)

lemma names_specific:
  assumes "validate_application_name app = Inr ()" and "display_element_info i app e = Inr (b, k)"
  shows "names (elem_prefix i) (k i)"
  using assms
  by (cases "(i, app, e)" rule: display_element_info.cases)
    (auto simp: names_rectangle names_countdown names_text names_xpm names_asset)

lemma names_element:
  assumes "validate_application_name app = Inr ()"
  shows "names (elem_prefix i) (validate_display_element i app e)"
proof (cases "display_element_info i app e")
  case (Inl err)
  then have "has_prefix (error_text err) (elem_prefix i)"
    by (cases "(i, app, e)" rule: display_element_info.cases) auto
  then show ?thesis using Inl by (simp add: validate_display_element_def)
next
  case (Inr bk)
  then show ?thesis using assms names_specific [OF assms] names_base by (cases bk) (auto simp: validate_display_element_def)
qed

text \<open>
  C27: \<open>Validate\<close> accepts a display request exactly when its header is in order and every element is one:
  numbers that fit the types of the firmware, at most one positive lifetime, known names, \<open>#\<close> and eight
  hexadecimal digits for colours in the number the fill takes, a safe asset source. When the header is in
  order and an element is not, the error names the first such element.
\<close>

theorem display_validate_spec:
  "case validate_display r of
     Inr _ \<Rightarrow> header_ok r \<and> list_all (element_ok (dr_application r)) (dr_elements r)
   | Inl e \<Rightarrow>
       if header_ok r
       then \<exists>i < length (dr_elements r). \<not> element_ok (dr_application r) (dr_elements r ! i)
              \<and> list_all (element_ok (dr_application r)) (take i (dr_elements r)) \<and> has_prefix (error_text e) (elem_prefix i)
       else Inl e = validate_display_header r"
proof (cases "header_ok r")
  case False
  then show ?thesis
    using validate_header_ok [of r] by (cases "validate_display_header r") (auto simp: validate_display_def)
next
  case True
  define f where "f = (\<lambda>(i, e). validate_display_element i (dr_application r) e)"
  have h: "validate_display_header r = Inr ()" using True by (simp add: validate_header_ok)
  then have app: "validate_application_name (dr_application r) = Inr ()" by (simp add: validate_display_header_def)
  have v: "validate_display r = check_all f (enumerate 0 (dr_elements r))" by (simp add: validate_display_def h f_def)
  have nth: "k < length (dr_elements r) \<Longrightarrow> enumerate 0 (dr_elements r) ! k = (k, dr_elements r ! k)" for k
    by (simp add: nth_enumerate_eq)
  have all: "list_all (\<lambda>x. f x = Inr ()) (enumerate n es) \<longleftrightarrow> list_all (element_ok (dr_application r)) es" for n es
    by (induction es arbitrary: n) (simp_all add: f_def validate_element_ok)
  show ?thesis
  proof (cases "validate_display r")
    case (Inr u)
    then have "list_all (\<lambda>x. f x = Inr ()) (enumerate 0 (dr_elements r))" by (simp add: v check_all_ok list_all_iff)
    then show ?thesis using True by (simp add: Inr all)
  next
    case (Inl e)
    then obtain k where k: "k < length (dr_elements r)" "f (k, dr_elements r ! k) = Inl e"
      "list_all (\<lambda>x. f x = Inr ()) (take k (enumerate 0 (dr_elements r)))"
      using check_all_first [of f "enumerate 0 (dr_elements r)" e] by (auto simp: v nth)
    have "\<not> element_ok (dr_application r) (dr_elements r ! k)"
      using k(2) by (metis case_prod_conv f_def sum.distinct(1) validate_element_ok)
    moreover have "has_prefix (error_text e) (elem_prefix k)"
      using names_element [OF app, of k "dr_elements r ! k"] k(2) by (simp add: f_def)
    moreover have "list_all (element_ok (dr_application r)) (take k (dr_elements r))"
      using k(3) all [of 0 "take k (dr_elements r)"] by (simp add: take_enumerate)
    ultimately show ?thesis using True k(1) Inl by auto
  qed
qed

section \<open>Display text is clean\<close>

definition shown_rune :: "rune \<Rightarrow> bool" where
  "shown_rune r \<longleftrightarrow> \<not> is_space_rune r \<and> \<not> is_control_rune r \<and> \<not> is_display_symbol r"

lemma space_rune [simp]: "is_space_rune 32"
  by (simp add: is_space_rune_def)

lemma sanitize_runes:
  "filter (\<lambda>r. \<not> is_space_rune r) (concat (map sanitize_rune rs)) = filter shown_rune rs"
  "r \<in> set (concat (map sanitize_rune rs)) \<Longrightarrow> r = 32 \<or> shown_rune r"
  by (induction rs) (auto simp: sanitize_rune_def shown_rune_def split: if_splits)

lemma rune_fields_parts:
  "concat (rune_fields rs) = filter (\<lambda>r. \<not> is_space_rune r) rs"
  "f \<in> set (rune_fields rs) \<Longrightarrow> f \<noteq> [] \<and> list_all (\<lambda>r. \<not> is_space_rune r) f \<and> set f \<subseteq> set rs"
proof (induction rs rule: rune_fields.induct)
  case (2 r rs)
  note IH = 2
  let ?P = "\<lambda>r. \<not> is_space_rune r"
  have s: "filter ?P rs = takeWhile ?P rs @ filter ?P (dropWhile ?P rs)"
    by (metis filter_append filter_id_conv set_takeWhileD takeWhile_dropWhile_id)
  {
    case 1 show ?case
    proof (cases "is_space_rune r")
      case False
      then show ?thesis using 2(3) s by simp
    qed (use 2(1) in simp)
  next
    case two: 2
    show ?case
    proof (cases "is_space_rune r")
      case False
      then consider "f = r # takeWhile ?P rs" | "f \<in> set (rune_fields (dropWhile ?P rs))" using two by auto
      then show ?thesis
      proof cases
        case 1
        then show ?thesis using False by (auto simp: list_all_iff dest: set_takeWhileD)
      next
        case 2
        have "set (dropWhile ?P rs) \<subseteq> set rs" by (auto dest: set_dropWhileD)
        then show ?thesis using IH(4) [OF False 2] by auto
      qed
    qed (use two 2(2) in auto)
  }
qed simp_all

definition words_ok :: "rune list list \<Rightarrow> bool" where
  "words_ok fs \<longleftrightarrow> list_all (\<lambda>f. f \<noteq> [] \<and> list_all shown_rune f) fs"

lemma rune_fields_word:
  assumes "f \<noteq> []" and "list_all shown_rune f" and "rest = [] \<or> is_space_rune (hd rest)"
  shows "rune_fields (f @ rest) = f # rune_fields rest"
proof -
  let ?P = "\<lambda>r. \<not> is_space_rune r"
  obtain r g where f: "f = r # g" using assms(1) by (cases f) auto
  have "\<forall>x \<in> set g. ?P x" "?P r" using assms(2) by (auto simp: f list_all_iff shown_rune_def)
  moreover have "takeWhile ?P rest = []" "dropWhile ?P rest = rest" using assms(3) by (cases rest; simp)+
  ultimately show ?thesis by (simp add: f takeWhile_append2 dropWhile_append2)
qed

lemma rune_fields_join: "words_ok fs \<Longrightarrow> rune_fields (join_fields fs) = fs"
proof (induction fs rule: join_fields.induct)
  case (2 f)
  then show ?case using rune_fields_word [of f "[]"] by (simp add: words_ok_def)
next
  case (3 f g fs)
  then show ?case using rune_fields_word [of f "32 # join_fields (g # fs)"] by (simp add: words_ok_def)
qed simp

lemma sanitize_join: "words_ok fs \<Longrightarrow> concat (map sanitize_rune (join_fields fs)) = join_fields fs"
proof -
  have word: "list_all shown_rune f \<Longrightarrow> concat (map sanitize_rune f) = f" for f
    by (induction f) (simp_all add: sanitize_rune_def shown_rune_def)
  show "words_ok fs \<Longrightarrow> ?thesis"
    by (induction fs rule: join_fields.induct) (simp_all add: words_ok_def word sanitize_rune_def)
qed

text \<open>
  the sanitised text is the shown runes of the input in order, grouped into words separated by single
  spaces, with none at either end: no control character, display symbol or other white space is left; and
  sanitising again changes nothing.
\<close>

theorem sanitize_spec:
  "(\<exists>fs. sanitize_display_text rs = join_fields fs \<and> words_ok fs \<and> concat fs = filter shown_rune rs)
   \<and> sanitize_display_text (sanitize_display_text rs) = sanitize_display_text rs"
proof -
  define fs where "fs = rune_fields (concat (map sanitize_rune rs))"
  have "words_ok fs"
    unfolding words_ok_def list_all_iff
  proof
    fix f assume "f \<in> set fs"
    then have f: "f \<noteq> []" "list_all (\<lambda>r. \<not> is_space_rune r) f" "set f \<subseteq> set (concat (map sanitize_rune rs))"
      using rune_fields_parts(2) unfolding fs_def by blast+
    then have "shown_rune r" if "r \<in> set f" for r
    proof -
      have "r \<in> set (concat (map sanitize_rune rs))" "r \<noteq> 32" using f that by (auto simp: list_all_iff simp del: set_concat)
      then show ?thesis using sanitize_runes(2) by blast
    qed
    then show "f \<noteq> [] \<and> Ball (set f) shown_rune" using f(1) by blast
  qed
  moreover have "concat fs = filter shown_rune rs"
    unfolding fs_def rune_fields_parts(1) by (rule sanitize_runes(1))
  moreover have "sanitize_display_text rs = join_fields fs" by (simp add: sanitize_display_text_def fs_def)
  ultimately show ?thesis using sanitize_join rune_fields_join by (auto simp: sanitize_display_text_def)
qed

end
