(* ===== verification/BusyState.thy ===== *)
theory BusyState
  imports Validation
begin

text \<open>
  Busy-state snapshots and timer profiles (\<open>busy.go\<close>): the data with its optional fields and the
  validation, against the typed states the data stands for.
\<close>

section \<open>Data\<close>

definition busyTimerSimpleMaxMS :: int where "busyTimerSimpleMaxMS = 24 * 60 * 60 * 1000"
definition busyTimerIntervalMinMS :: int where "busyTimerIntervalMinMS = 5 * 60 * 1000"
definition busyTimerIntervalMaxMS :: int where "busyTimerIntervalMaxMS = 8 * 60 * 60 * 1000"
definition busyTimerCyclesMin :: int where "busyTimerCyclesMin = 2"
definition busyTimerCyclesMax :: int where "busyTimerCyclesMax = 35"
definition maxBusyTitleBytes :: nat where "maxBusyTitleBytes = 128"
definition maxBusyThemeBytes :: nat where "maxBusyThemeBytes = 64"

lemmas busy_limits = busyTimerSimpleMaxMS_def busyTimerIntervalMinMS_def busyTimerIntervalMaxMS_def busyTimerCyclesMin_def
  busyTimerCyclesMax_def maxBusyTitleBytes_def maxBusyThemeBytes_def

record bar_settings =
  bb_theme :: string
  bb_work_only :: bool
  bb_smart_home :: bool

record interval_settings =
  is_type :: string
  is_work :: int
  is_rest :: int
  is_cycles :: int
  is_autostart :: bool

record busy_snapshot =
  sd_type :: string
  sd_card :: string
  sd_time_left :: "int option"
  sd_paused :: "bool option"
  sd_current :: "int option"
  sd_interval_total :: "int option"
  sd_interval_left :: "int option"
  sd_interval :: "interval_settings option"
  sd_bar :: bar_settings

record timer_settings =
  ts_type :: string
  ts_total :: "int option"
  ts_work :: "int option"
  ts_rest :: "int option"
  ts_cycles :: "int option"
  ts_autostart :: "bool option"

record busy_profile =
  bp_sort_order :: int
  bp_title :: string
  bp_id :: string
  bp_timer :: timer_settings
  bp_bar :: bar_settings

section \<open>Validation\<close>

definition busy_hex :: "char \<Rightarrow> bool" where
  "busy_hex c \<longleftrightarrow> char_in (CHR ''0'') (CHR ''9'') c \<or> char_in (CHR ''a'') (CHR ''f'') c \<or> char_in (CHR ''A'') (CHR ''F'') c"

definition validate_card_id :: "string \<Rightarrow> string \<Rightarrow> validity" where
  "validate_card_id field value =
     checks [guard (length value \<noteq> 36) (VText (field @ '' must be a 36-character UUID'')),
             check_all (\<lambda>(i, c). guard (if i \<in> {8, 13, 18, 23} then c \<noteq> CHR ''-'' else \<not> busy_hex c) (VText (field @ '' must be a UUID'')))
               (enumerate 0 value)]"

definition validate_busy_duration :: "string \<Rightarrow> int \<Rightarrow> int \<Rightarrow> int \<Rightarrow> validity" where
  "validate_busy_duration field value minimum maximum =
     guard (value < minimum \<or> value > maximum \<or> value > max_uint32) 
       (VText (field @ '' must be between '' @ format_nat (nat minimum) @ '' and '' @ format_nat (nat maximum) @ '' milliseconds''))"

definition validate_busy_interval :: "int \<Rightarrow> int \<Rightarrow> int \<Rightarrow> validity" where
  "validate_busy_interval work rest cycles =
     checks [validate_busy_duration ''interval_work_ms'' work busyTimerIntervalMinMS busyTimerIntervalMaxMS,
             validate_busy_duration ''interval_rest_ms'' rest busyTimerIntervalMinMS busyTimerIntervalMaxMS,
             guard (cycles < busyTimerCyclesMin \<or> cycles > busyTimerCyclesMax)
               (VText ''interval_work_cycles_count must be between 2 and 35'')]"

definition validate_interval_settings :: "interval_settings \<Rightarrow> validity" where
  "validate_interval_settings s = validate_busy_interval (is_work s) (is_rest s) (is_cycles s)"

definition validate_bar_settings :: "bar_settings \<Rightarrow> validity" where
  "validate_bar_settings s = guard (length (bb_theme s) > maxBusyThemeBytes) (VText ''theme must be at most 64 bytes'')"

definition validate_interval_snapshot :: "int \<Rightarrow> int \<Rightarrow> int \<Rightarrow> interval_settings \<Rightarrow> validity" where
  "validate_interval_snapshot current whole left settings =
     checks [field_error ''snapshot.interval_settings'' (validate_interval_settings settings),
             guard (current < 0 \<or> current > busyTimerCyclesMax * 2 - 2) (VText ''snapshot.current_interval must be between 0 and 68''),
             guard (whole < 0 \<or> whole > max_uint32 \<or> left < 0 \<or> left > whole)
               (VText ''snapshot interval times must fit unsigned 32-bit values and time left must not exceed total''),
             guard (left > (if current mod 2 = 1 then is_rest settings else is_work settings))
               (VText ''snapshot.current_interval_time_left_ms exceeds the configured interval duration'')]"

definition validate_busy_snapshot :: "busy_snapshot \<Rightarrow> validity" where
  "validate_busy_snapshot s =
     rbind (field_error ''snapshot.busy_bar_settings'' (validate_bar_settings (sd_bar s))) (\<lambda>_.
       if sd_type s = ''NOT_STARTED'' then Inr ()
       else if sd_type s = ''INFINITE'' then
         checks [validate_card_id ''snapshot.card_id'' (sd_card s),
                 guard (sd_paused s = None) (VText ''snapshot.is_paused is required for INFINITE snapshots'')]
       else if sd_type s = ''SIMPLE'' then
         rbind (validate_card_id ''snapshot.card_id'' (sd_card s)) (\<lambda>_.
           case (sd_paused s, sd_time_left s) of
             (Some _, Some left) \<Rightarrow> validate_busy_duration ''snapshot.time_left_ms'' left 0 busyTimerSimpleMaxMS
           | _ \<Rightarrow> Inl (VText ''snapshot.is_paused and snapshot.time_left_ms are required for SIMPLE snapshots''))
       else if sd_type s = ''INTERVAL'' then
         rbind (validate_card_id ''snapshot.card_id'' (sd_card s)) (\<lambda>_.
           case (sd_paused s, sd_current s, sd_interval_total s, sd_interval_left s, sd_interval s) of
             (Some _, Some current, Some whole, Some left, Some settings) \<Rightarrow> validate_interval_snapshot current whole left settings
           | _ \<Rightarrow> Inl (VText ''snapshot.is_paused, current interval fields, and interval_settings are required for INTERVAL snapshots''))
       else Inl (VUnsupported ''snapshot.type'' (sd_type s)))"

definition validate_timer_settings :: "timer_settings \<Rightarrow> validity" where
  "validate_timer_settings s =
     (if ts_type s = ''INFINITE'' then Inr ()
      else if ts_type s = ''SIMPLE'' then
        (case ts_total s of
           None \<Rightarrow> Inl (VText ''total_time_ms is required for SIMPLE timers'')
         | Some whole \<Rightarrow> validate_busy_duration ''total_time_ms'' whole 0 busyTimerSimpleMaxMS)
      else if ts_type s = ''INTERVAL'' then
        (case (ts_work s, ts_rest s, ts_cycles s, ts_autostart s) of
           (Some work, Some rest, Some cycles, Some _) \<Rightarrow> validate_busy_interval work rest cycles
         | _ \<Rightarrow> Inl (VText ''interval work, rest, cycle count, and autostart fields are required for INTERVAL timers''))
      else Inl (VUnsupported ''type'' (ts_type s)))"

definition validate_busy_profile :: "busy_profile \<Rightarrow> validity" where
  "validate_busy_profile p =
     checks [guard (bp_sort_order p < min_int32 \<or> bp_sort_order p > max_int32) (VText ''sort_order must fit a signed 32-bit integer''),
             guard (length (bp_title p) > maxBusyTitleBytes) (VText ''title must be at most 128 bytes''),
             validate_card_id ''id'' (bp_id p),
             field_error ''timer_settings'' (validate_timer_settings (bp_timer p)),
             validate_bar_settings (bp_bar p)]"

definition validate_profile_slot :: "string \<Rightarrow> validity" where
  "validate_profile_slot slot = guard (slot \<noteq> ''busy'' \<and> slot \<noteq> ''custom'') (VUnsupported ''profile slot'' slot)"

section \<open>The typed states\<close>

datatype busy_state =
    NotStarted
  | Infinite string bool
  | Simple string bool int
  | Interval string bool int int int interval_settings \<comment> \<open>card, paused, current interval, its total and left time\<close>

definition busy_state :: "busy_snapshot \<Rightarrow> busy_state option" where
  "busy_state s =
     (if sd_type s = ''NOT_STARTED'' then Some NotStarted
      else if sd_type s = ''INFINITE'' then map_option (Infinite (sd_card s)) (sd_paused s)
      else if sd_type s = ''SIMPLE'' then
        Option.bind (sd_paused s) (\<lambda>p. map_option (Simple (sd_card s) p) (sd_time_left s))
      else if sd_type s = ''INTERVAL'' then
        Option.bind (sd_paused s) (\<lambda>p. Option.bind (sd_current s) (\<lambda>c. Option.bind (sd_interval_total s) (\<lambda>t.
          Option.bind (sd_interval_left s) (\<lambda>l. map_option (Interval (sd_card s) p c t l) (sd_interval s)))))
      else None)"

text \<open>A UUID: five groups of hexadecimal digits.\<close>

definition is_uuid :: "string \<Rightarrow> bool" where
  "is_uuid s \<longleftrightarrow> map length (split_on (CHR ''-'') s) = [8, 4, 4, 4, 12] \<and> list_all (list_all busy_hex) (split_on (CHR ''-'') s)"

definition minutes :: "int \<Rightarrow> int" where "minutes n = n * 60000"

definition interval_settings_ok :: "interval_settings \<Rightarrow> bool" where
  "interval_settings_ok s \<longleftrightarrow>
     list_all (\<lambda>v. minutes 5 \<le> v \<and> v \<le> minutes (8 * 60)) [is_work s, is_rest s] \<and> 2 \<le> is_cycles s \<and> is_cycles s \<le> 35"

fun busy_state_ok :: "busy_state \<Rightarrow> bool" where
  "busy_state_ok NotStarted = True"
| "busy_state_ok (Infinite cid paused) = is_uuid cid"
| "busy_state_ok (Simple cid paused left) \<longleftrightarrow> is_uuid cid \<and> 0 \<le> left \<and> left \<le> minutes (24 * 60)"
| "busy_state_ok (Interval cid paused current whole left settings) \<longleftrightarrow>
     is_uuid cid \<and> interval_settings_ok settings \<and> 0 \<le> current \<and> current \<le> 68
     \<and> 0 \<le> left \<and> left \<le> whole \<and> whole < 2 ^ 32 \<and> left \<le> (if even current then is_work settings else is_rest settings)"

section \<open>Validation is well-formedness of the typed state\<close>

lemma enumerate_all: "(\<forall>x \<in> set (enumerate n xs). P x) \<longleftrightarrow> (\<forall>i < length xs. P (n + i, xs ! i))"
proof (induction xs arbitrary: n)
  case (Cons x xs)
  have "(\<forall>i < length (x # xs). P (n + i, (x # xs) ! i)) \<longleftrightarrow> P (n, x) \<and> (\<forall>i < length xs. P (Suc n + i, xs ! i))"
    by (auto simp: All_less_Suc2 nth_Cons split: nat.splits)
  then show ?case using Cons by simp
qed simp

definition card_groups :: "string \<Rightarrow> bool" where
  "card_groups s \<longleftrightarrow> length s = 36 \<and> (\<forall>i < 36. if i \<in> {8, 13, 18, 23} then s ! i = CHR ''-'' else busy_hex (s ! i))"

lemma guard_if: "guard (if a then b else c) e = Inr () \<longleftrightarrow> (if a then \<not> b else \<not> c)"
  by simp

lemma validate_card_id_groups: "validate_card_id f s = Inr () \<longleftrightarrow> card_groups s"
proof -
  have "check_all (\<lambda>(i, c). guard (if i \<in> {8, 13, 18, 23} then c \<noteq> CHR ''-'' else \<not> busy_hex c) e) (enumerate 0 s) = Inr () \<longleftrightarrow>
    (\<forall>i < length s. if i \<in> {8, 13, 18, 23} then s ! i = CHR ''-'' else busy_hex (s ! i))" for e :: val_error
    unfolding check_all_ok enumerate_all by (simp only: prod.case guard_if not_not add_0_left)
  then show ?thesis
    unfolding validate_card_id_def card_groups_def checks_simps rbind_unit guard_eq_Inr not_not
    by (cases "length s = 36") (simp_all only: simp_thms)
qed

lemma dash_not_hex: "busy_hex c \<Longrightarrow> c \<noteq> CHR ''-''"
  by (auto simp: busy_hex_def char_in_def)

lemma hex_range:
  assumes "card_groups s" and "\<And>i. a \<le> i \<Longrightarrow> i < a + n \<Longrightarrow> i < 36 \<and> i \<notin> {8, 13, 18, 23}"
  shows "list_all busy_hex (take n (drop a s))"
  using assms by (auto simp: list_all_length card_groups_def)

lemma list_parts: "a + 1 \<le> length s \<Longrightarrow> drop k s = take (a - k) (drop k s) @ s ! a # drop (Suc a) s" if "k \<le> a"
  using that by (metis Cons_nth_drop_Suc Suc_eq_plus1 Suc_le_eq append_take_drop_id drop_drop le_add_diff_inverse2)

lemma uuid_groups: "is_uuid s \<longleftrightarrow> card_groups s"
proof
  assume g: "card_groups s"
  then have l: "length s = 36" and d: "s ! 8 = CHR ''-''" "s ! 13 = CHR ''-''" "s ! 18 = CHR ''-''" "s ! 23 = CHR ''-''"
    by (auto simp: card_groups_def)
  define a where "a = take 8 (drop 0 s)"
  define b where "b = take 4 (drop 9 s)"
  define c where "c = take 4 (drop 14 s)"
  define e where "e = take 4 (drop 19 s)"
  define f where "f = take 12 (drop 24 s)"
  have "s = a @ CHR ''-'' # drop 9 s" using list_parts [of 0 8 s] l d by (simp add: a_def)
  moreover have "drop 9 s = b @ CHR ''-'' # drop 14 s" using list_parts [of 9 13 s] l d by (simp add: b_def)
  moreover have "drop 14 s = c @ CHR ''-'' # drop 19 s" using list_parts [of 14 18 s] l d by (simp add: c_def)
  moreover have "drop 19 s = e @ CHR ''-'' # drop 24 s" using list_parts [of 19 23 s] l d by (simp add: e_def)
  moreover have "drop 24 s = f" using l by (simp add: f_def)
  ultimately have s: "s = a @ CHR ''-'' # b @ CHR ''-'' # c @ CHR ''-'' # e @ CHR ''-'' # f" by simp
  have h: "list_all busy_hex a" "list_all busy_hex b" "list_all busy_hex c" "list_all busy_hex e" "list_all busy_hex f"
    unfolding a_def b_def c_def e_def f_def by (rule hex_range [OF g]; auto)+
  have n: "length a = 8" "length b = 4" "length c = 4" "length e = 4" "length f = 12"
    using l by (simp_all add: a_def b_def c_def e_def f_def)
  have "CHR ''-'' \<notin> set x" if "list_all busy_hex x" for x
    using that dash_not_hex by (auto simp: list_all_iff)
  then have "split_on (CHR ''-'') s = [a, b, c, e, f]"
    using h unfolding s by (simp add: split_on_append_sep split_on_none)
  then show "is_uuid s" using h n by (simp add: is_uuid_def)
next
  assume "is_uuid s"
  then obtain a b c e f where p: "split_on (CHR ''-'') s = [a, b, c, e, f]"
    and n: "length a = 8" "length b = 4" "length c = 4" "length e = 4" "length f = 12"
    and h: "list_all busy_hex a" "list_all busy_hex b" "list_all busy_hex c" "list_all busy_hex e" "list_all busy_hex f"
    by (auto simp: is_uuid_def Cons_eq_map_conv map_eq_Cons_conv)
  have s: "s = a @ CHR ''-'' # b @ CHR ''-'' # c @ CHR ''-'' # e @ CHR ''-'' # f"
    using join_split [of "CHR ''-''" s] unfolding p by simp
  show "card_groups s"
    unfolding card_groups_def
  proof (intro conjI allI impI)
    show "length s = 36" by (simp add: s n)
    fix i :: nat assume i: "i < 36"
    consider "i < 8" | "i = 8" | "8 < i \<and> i < 13" | "i = 13" | "13 < i \<and> i < 18" | "i = 18" | "18 < i \<and> i < 23" | "i = 23" | "23 < i"
      by linarith
    then show "if i \<in> {8, 13, 18, 23} then s ! i = CHR ''-'' else busy_hex (s ! i)"
      by cases (use h i in \<open>auto simp: s n nth_append nth_Cons' list_all_length\<close>)
  qed
qed

lemma validate_card_id_ok: "validate_card_id f s = Inr () \<longleftrightarrow> is_uuid s"
  unfolding validate_card_id_groups uuid_groups ..

lemma validate_interval_settings_ok: "validate_interval_settings s = Inr () \<longleftrightarrow> interval_settings_ok s"
  by (auto simp: validate_interval_settings_def validate_busy_interval_def validate_busy_duration_def interval_settings_ok_def
      busy_limits minutes_def)

lemma validate_interval_snapshot_ok:
  "validate_interval_snapshot current whole left settings = Inr () \<longleftrightarrow>
     interval_settings_ok settings \<and> 0 \<le> current \<and> current \<le> 68 \<and> 0 \<le> left \<and> left \<le> whole \<and> whole < 2 ^ 32
     \<and> left \<le> (if even current then is_work settings else is_rest settings)"
  unfolding validate_interval_snapshot_def checks_simps rbind_unit field_error_ok validate_interval_settings_ok guard_eq_Inr
  by (auto simp: busy_limits even_iff_mod_2_eq_zero)

text \<open>
  C28: a busy snapshot passes \<open>Validate\<close> exactly when its theme has at most 64 bytes and its fields make one
  of the four typed states: not started; infinite; simple, with at most a day left; or interval, with work
  and rest of five minutes to eight hours, two to 35 cycles, an interval number up to 68, and a time left
  within the interval and the total - with a UUID for the card.
\<close>

theorem busy_snapshot_spec:
  "validate_busy_snapshot s = Inr () \<longleftrightarrow>
     length (bb_theme (sd_bar s)) \<le> 64 \<and> (case busy_state s of None \<Rightarrow> False | Some st \<Rightarrow> busy_state_ok st)"
proof -
  have b: "validate_bar_settings (sd_bar s) = Inr () \<longleftrightarrow> length (bb_theme (sd_bar s)) \<le> 64"
    by (simp add: validate_bar_settings_def busy_limits not_less)
  have d: "validate_busy_duration f left 0 busyTimerSimpleMaxMS = Inr () \<longleftrightarrow> 0 \<le> left \<and> left \<le> minutes (24 * 60)" for f left
    by (auto simp: validate_busy_duration_def busy_limits minutes_def)
  show ?thesis
  proof -
    consider "sd_type s = ''NOT_STARTED''" | "sd_type s = ''INFINITE''" | "sd_type s = ''SIMPLE''" | "sd_type s = ''INTERVAL''"
      | "sd_type s \<notin> {''NOT_STARTED'', ''INFINITE'', ''SIMPLE'', ''INTERVAL''}" by blast
    then show ?thesis
    proof cases
      case 1
      then show ?thesis by (simp add: validate_busy_snapshot_def busy_state_def b)
    next
      case 2
      then show ?thesis by (cases "sd_paused s") (simp_all add: validate_busy_snapshot_def busy_state_def b validate_card_id_ok)
    next
      case 3
      then show ?thesis
        by (cases "sd_paused s"; cases "sd_time_left s") (simp_all add: validate_busy_snapshot_def busy_state_def b d validate_card_id_ok)
    next
      case 4
      then show ?thesis
        by (cases "sd_paused s"; cases "sd_current s"; cases "sd_interval_total s"; cases "sd_interval_left s"; cases "sd_interval s")
          (simp_all add: validate_busy_snapshot_def busy_state_def b validate_card_id_ok validate_interval_snapshot_ok)
    next
      case 5
      then show ?thesis by (simp add: validate_busy_snapshot_def busy_state_def)
    qed
  qed
qed

text \<open>The interval number is checked against the largest cycle count, not the one configured.\<close>

lemma busy_interval_past_cycles:
  "validate_interval_snapshot 60 1 1 \<lparr>is_type = ''INTERVAL'', is_work = 300000, is_rest = 300000, is_cycles = 2, is_autostart = True\<rparr> = Inr ()"
  by (simp add: validate_interval_snapshot_ok interval_settings_ok_def minutes_def)

end
