(* ===== verification/Services.thy ===== *)
theory Services
  imports Request DisplayRequests BusyState
begin

text \<open>
  The service calls of the client (\<open>account.go\<close>, \<open>assets.go\<close>, \<open>audio.go\<close>, \<open>ble.go\<close>, \<open>busy.go\<close>,
  \<open>display.go\<close>, \<open>input.go\<close>, \<open>settings.go\<close>, \<open>smart_home.go\<close>, \<open>storage.go\<close>, \<open>system.go\<close>, \<open>time.go\<close>,
  \<open>update.go\<close>, \<open>wifi.go\<close>): each validates its arguments and then makes one request. A call is modelled
  by the request it hands to \<open>Client.Do\<close>, or the validation error it returns without one. What is done
  with the response is in \<open>ServiceResults\<close>.
\<close>

section \<open>Requests of a service\<close>

text \<open>\<open>json.Marshal\<close> of the body, \<open>%q\<close>, the time parser and the order of a Go map are the environment.\<close>

record service_env =
  se_json :: "string + bytes"
  se_quote :: "string \<Rightarrow> string"
  se_time :: time_parser
  se_order :: "(string \<times> (wifi_connect \<Rightarrow> string)) list"

fun error_string :: "(string \<Rightarrow> string) \<Rightarrow> val_error \<Rightarrow> string" where
  "error_string quote (VText s) = s"
| "error_string quote (VUnsupported s v) = s @ '' '' @ quote v @ '' is not supported''"
| "error_string quote (VField f e) = f @ '': '' @ error_string quote e"

type_synonym planned = "validation_error + request"

definition api_get :: "string \<Rightarrow> string \<Rightarrow> query \<Rightarrow> body option \<Rightarrow> string \<Rightarrow> request" where
  "api_get method path query b mode =
     \<lparr>rq_method = method, rq_path = path, rq_query = query, rq_header = [], rq_body = b, rq_mode = mode,
      rq_request_id = [], rq_session_id = []\<rparr>"

definition do_json :: "string \<Rightarrow> string \<Rightarrow> query \<Rightarrow> body option \<Rightarrow> planned" where
  "do_json method path query b = Inr (api_get method path query b ResponseModeJSON)"

definition do_bytes :: "string \<Rightarrow> string \<Rightarrow> query \<Rightarrow> body option \<Rightarrow> planned" where
  "do_bytes method path query b = Inr (api_get method path query b ResponseModeBytes)"

definition checked :: "service_env \<Rightarrow> string \<Rightarrow> string \<Rightarrow> validity \<Rightarrow> planned \<Rightarrow> planned" where
  "checked env method path v k =
     (case v of
        Inl e \<Rightarrow> Inl (mk_validation_error method path (error_string (se_quote env) e) None)
      | Inr _ \<Rightarrow> k)"

definition json_body :: "service_env \<Rightarrow> body option" where
  "json_body env = Some (JsonBody (se_json env))"

definition optional :: "string \<Rightarrow> string \<Rightarrow> query" where
  "optional key value = (if value = [] then [] else [(key, [value])])"

section \<open>The services\<close>

datatype account_call = AccountStatus | AccountInfo | AccountLink | AccountBackend | AccountSetBackend account_backend | AccountUnlink

fun account_request :: "service_env \<Rightarrow> account_call \<Rightarrow> planned" where
  "account_request env AccountStatus = do_json ''GET'' ''/api/account/status'' [] None"
| "account_request env AccountInfo = do_json ''GET'' ''/api/account/info'' [] None"
| "account_request env AccountLink = do_json ''POST'' ''/api/account/link'' [] None"
| "account_request env AccountBackend = do_json ''GET'' ''/api/account/backend'' [] None"
| "account_request env (AccountSetBackend b) =
     checked env ''PUT'' ''/api/account/backend'' (validate_account_backend b)
       (do_json ''PUT'' ''/api/account/backend'' [] (json_body env))"
| "account_request env AccountUnlink = do_json ''DELETE'' ''/api/account'' [] None"

datatype assets_call = AssetsUpload string string "body option" | AssetsUploadFile string string string | AssetsDelete string

definition validate_upload_asset :: "string \<Rightarrow> string \<Rightarrow> body option \<Rightarrow> validity" where
  "validate_upload_asset app f b =
     checks [validate_application_name app, validate_uploaded_asset_path ''file'' f,
             guard (b = None) (VText ''asset upload body must not be nil'')]"

definition upload_asset :: "service_env \<Rightarrow> string \<Rightarrow> string \<Rightarrow> body option \<Rightarrow> planned" where
  "upload_asset env app f b =
     checked env ''POST'' ''/api/assets/upload'' (validate_upload_asset app f b)
       (do_json ''POST'' ''/api/assets/upload'' [(''application_name'', [app]), (''file'', [f])] b)"

fun assets_request :: "service_env \<Rightarrow> assets_call \<Rightarrow> planned" where
  "assets_request env (AssetsUpload app f b) = upload_asset env app f b"
| "assets_request env (AssetsUploadFile app f local_path) =
     upload_asset env app f (Some (FileBody local_path ''application/octet-stream''))"
| "assets_request env (AssetsDelete app) =
     checked env ''DELETE'' ''/api/assets/upload'' (validate_application_name app)
       (do_json ''DELETE'' ''/api/assets/upload'' [(''application_name'', [app])] None)"

datatype audio_call =
    AudioPlay string string string \<comment> \<open>application, path, stock path\<close>
  | AudioPlayAsset string string
  | AudioPlayStock string string
  | AudioStop
  | AudioVolume
  | AudioSetVolume int bool
  | AudioSetVolumeSilently int

definition play_audio :: "service_env \<Rightarrow> string \<Rightarrow> string \<Rightarrow> string \<Rightarrow> planned" where
  "play_audio env app path stock =
     checked env ''POST'' ''/api/audio/play'' (validate_asset_source ''audio'' app path stock)
       (do_json ''POST'' ''/api/audio/play'' [] (json_body env))"

definition format_volume :: "int \<Rightarrow> string" where
  "format_volume v = (if v < 0 then ''-'' @ format_nat (nat (- v)) else format_nat (nat v))"

definition set_volume :: "service_env \<Rightarrow> int \<Rightarrow> bool \<Rightarrow> planned" where
  "set_volume env v silent =
     checked env ''POST'' ''/api/audio/volume'' (validate_volume v)
       (do_json ''POST'' ''/api/audio/volume'' ((''volume'', [format_volume v]) # (if silent then [(''silent'', [''1''])] else [])) None)"

fun audio_request :: "service_env \<Rightarrow> audio_call \<Rightarrow> planned" where
  "audio_request env (AudioPlay app path stock) = play_audio env app path stock"
| "audio_request env (AudioPlayAsset app path) = play_audio env app path []"
| "audio_request env (AudioPlayStock app stock) = play_audio env app [] stock"
| "audio_request env AudioStop = do_json ''DELETE'' ''/api/audio/play'' [] None"
| "audio_request env AudioVolume = do_json ''GET'' ''/api/audio/volume'' [] None"
| "audio_request env (AudioSetVolume v silent) = set_volume env v silent"
| "audio_request env (AudioSetVolumeSilently v) = set_volume env v True"

datatype ble_call = BleStatus | BleEnable | BleDisable | BleRemovePairing

fun ble_request :: "service_env \<Rightarrow> ble_call \<Rightarrow> planned" where
  "ble_request env BleStatus = do_json ''GET'' ''/api/ble/status'' [] None"
| "ble_request env BleEnable = do_json ''POST'' ''/api/ble/enable'' [] None"
| "ble_request env BleDisable = do_json ''POST'' ''/api/ble/disable'' [] None"
| "ble_request env BleRemovePairing = do_json ''DELETE'' ''/api/ble/pairing'' [] None"

datatype busy_call = BusySnapshot | BusySetSnapshot busy_snapshot | BusyProfile string | BusySetProfile string busy_profile

text \<open>The two accepted slots are their own \<open>url.PathEscape\<close>.\<close>

fun busy_request :: "service_env \<Rightarrow> busy_call \<Rightarrow> planned" where
  "busy_request env BusySnapshot = do_json ''GET'' ''/api/busy/snapshot'' [] None"
| "busy_request env (BusySetSnapshot s) =
     checked env ''PUT'' ''/api/busy/snapshot'' (validate_busy_snapshot s) (do_json ''PUT'' ''/api/busy/snapshot'' [] (json_body env))"
| "busy_request env (BusyProfile slot) =
     checked env ''GET'' ''/api/busy/profiles/{slot}'' (validate_profile_slot slot)
       (do_json ''GET'' (''/api/busy/profiles/'' @ slot) [] None)"
| "busy_request env (BusySetProfile slot p) =
     checked env ''PUT'' ''/api/busy/profiles/{slot}'' (validate_profile_slot slot)
       (checked env ''PUT'' ''/api/busy/profiles/{slot}'' (validate_busy_profile p)
         (do_json ''PUT'' (''/api/busy/profiles/'' @ slot) [] (json_body env)))"

datatype display_call =
    DisplayBrightness
  | DisplaySetBrightness string
  | DisplayDraw display_request
  | DisplayClear string
  | DisplayClearElements string "string list"
  | DisplayScreen string

fun display_request_of :: "service_env \<Rightarrow> display_call \<Rightarrow> planned" where
  "display_request_of env DisplayBrightness = do_json ''GET'' ''/api/display/brightness'' [] None"
| "display_request_of env (DisplaySetBrightness v) =
     checked env ''POST'' ''/api/display/brightness'' (validate_brightness v)
       (do_json ''POST'' ''/api/display/brightness'' [(''value'', [v])] None)"
| "display_request_of env (DisplayDraw r) =
     checked env ''POST'' ''/api/display/draw'' (validate_display r) (do_json ''POST'' ''/api/display/draw'' [] (json_body env))"
| "display_request_of env (DisplayClear app) =
     checked env ''DELETE'' ''/api/display/draw'' (if app \<noteq> [] then validate_application_name app else Inr ())
       (do_json ''DELETE'' ''/api/display/draw'' (optional ''application_name'' app) None)"
| "display_request_of env (DisplayClearElements app ids) =
     checked env ''DELETE'' ''/api/display/draw'' (validate_clear_elements app ids)
       (do_json ''DELETE'' ''/api/display/draw'' (optional ''application_name'' app) (json_body env))"
| "display_request_of env (DisplayScreen d) =
     checked env ''GET'' ''/api/screen'' (validate_screen_display d)
       (do_bytes ''GET'' ''/api/screen'' [(''display'', [if d = ''back'' then ''1'' else ''0''])] None)"

definition send_key :: "service_env \<Rightarrow> string \<Rightarrow> planned" where
  "send_key env key = checked env ''POST'' ''/api/input'' (validate_input_key key) (do_json ''POST'' ''/api/input'' [(''key'', [key])] None)"

datatype settings_call =
    SettingsHTTPAccess
  | SettingsSetHTTPAccess string string
  | SettingsAccessTokens
  | SettingsMintAccessToken string
  | SettingsRevokeAccessToken string
  | SettingsRevokeAllAccessTokens
  | SettingsName
  | SettingsSetName string

fun settings_request :: "service_env \<Rightarrow> settings_call \<Rightarrow> planned" where
  "settings_request env SettingsHTTPAccess = do_json ''GET'' ''/api/access'' [] None"
| "settings_request env (SettingsSetHTTPAccess mode key) =
     checked env ''POST'' ''/api/access'' (validate_http_access mode key)
       (do_json ''POST'' ''/api/access'' ((''mode'', [mode]) # optional ''key'' key) None)"
| "settings_request env SettingsAccessTokens = do_json ''GET'' ''/api/access/tokens'' [] None"
| "settings_request env (SettingsMintAccessToken name) = do_json ''POST'' ''/api/access/tokens'' [] (json_body env)"
| "settings_request env (SettingsRevokeAccessToken shortID) =
     checked env ''DELETE'' ''/api/access/tokens/{short_id}'' (validate_access_token_short_id shortID)
       (do_json ''DELETE'' (''/api/access/tokens/'' @ shortID) [] None)"
| "settings_request env SettingsRevokeAllAccessTokens = do_json ''DELETE'' ''/api/access/tokens'' [] None"
| "settings_request env SettingsName = do_json ''GET'' ''/api/name'' [] None"
| "settings_request env (SettingsSetName name) =
     checked env ''POST'' ''/api/name'' (validate_device_name name) (do_json ''POST'' ''/api/name'' [] (json_body env))"

datatype smart_home_call =
    SmartHomePairingStatus | SmartHomeStartPairing | SmartHomeForgetPairings | SmartHomeSwitchState
  | SmartHomeSetSwitchState "bool option" string

fun smart_home_request :: "service_env \<Rightarrow> smart_home_call \<Rightarrow> planned" where
  "smart_home_request env SmartHomePairingStatus = do_json ''GET'' ''/api/smart_home/pairing'' [] None"
| "smart_home_request env SmartHomeStartPairing = do_json ''POST'' ''/api/smart_home/pairing'' [] None"
| "smart_home_request env SmartHomeForgetPairings = do_json ''DELETE'' ''/api/smart_home/pairing'' [] None"
| "smart_home_request env SmartHomeSwitchState = do_json ''GET'' ''/api/smart_home/switch'' [] None"
| "smart_home_request env (SmartHomeSetSwitchState state startup) =
     checked env ''POST'' ''/api/smart_home/switch'' (validate_switch_update state startup)
       (do_json ''POST'' ''/api/smart_home/switch'' [] (json_body env))"

datatype storage_call =
    StorageWrite string "body option" "bool option"
  | StorageWriteFile string string
  | StorageRead string
  | StorageReadTo string bool \<comment> \<open>whether the writer is nil\<close>
  | StorageList string
  | StorageRemove string
  | StorageMkdir string
  | StorageRename string string
  | StorageStatus

definition storage_write :: "service_env \<Rightarrow> string \<Rightarrow> body option \<Rightarrow> bool option \<Rightarrow> planned" where
  "storage_write env path b app_option =
     checked env ''POST'' ''/api/storage/write'' (validate_storage_write path b)
       (do_json ''POST'' ''/api/storage/write''
         ((''path'', [path]) # (case app_option of None \<Rightarrow> [] | Some a \<Rightarrow> [(''append'', [if a then ''1'' else ''0''])])) b)"

fun storage_request :: "service_env \<Rightarrow> storage_call \<Rightarrow> planned" where
  "storage_request env (StorageWrite path b app_option) = storage_write env path b app_option"
| "storage_request env (StorageWriteFile path local_path) =
     storage_write env path (Some (FileBody local_path ''application/octet-stream'')) None"
| "storage_request env (StorageRead path) =
     checked env ''GET'' ''/api/storage/read'' (validate_storage_path ''path'' path)
       (do_bytes ''GET'' ''/api/storage/read'' [(''path'', [path])] None)"
| "storage_request env (StorageReadTo path writer_nil) =
     checked env ''GET'' ''/api/storage/read'' (validate_storage_path ''path'' path)
       (if writer_nil then Inl (mk_validation_error ''GET'' ''/api/storage/read'' ''writer must not be nil'' None)
        else do_bytes ''GET'' ''/api/storage/read'' [(''path'', [path])] None)"
| "storage_request env (StorageList path) =
     checked env ''GET'' ''/api/storage/list'' (validate_storage_path ''path'' path)
       (do_json ''GET'' ''/api/storage/list'' [(''path'', [path])] None)"
| "storage_request env (StorageRemove path) =
     checked env ''DELETE'' ''/api/storage/remove'' (validate_storage_path ''path'' path)
       (do_json ''DELETE'' ''/api/storage/remove'' [(''path'', [path])] None)"
| "storage_request env (StorageMkdir path) =
     checked env ''POST'' ''/api/storage/mkdir'' (validate_storage_path ''path'' path)
       (do_json ''POST'' ''/api/storage/mkdir'' [(''path'', [path])] None)"
| "storage_request env (StorageRename path new_path) =
     checked env ''POST'' ''/api/storage/rename'' (validate_storage_path ''path'' path)
       (checked env ''POST'' ''/api/storage/rename'' (validate_storage_path ''new_path'' new_path)
         (do_json ''POST'' ''/api/storage/rename'' [(''path'', [path]), (''new_path'', [new_path])] None))"
| "storage_request env StorageStatus = do_json ''GET'' ''/api/storage/status'' [] None"

datatype system_call =
    SystemVersion | SystemStatusAll | SystemDeviceStatus | SystemFirmwareStatus | SystemSystemStatus | SystemPowerStatus
  | SystemTransport | SystemDumpLog string

fun system_request :: "service_env \<Rightarrow> system_call \<Rightarrow> planned" where
  "system_request env SystemVersion = do_json ''GET'' ''/api/version'' [] None"
| "system_request env SystemStatusAll = do_json ''GET'' ''/api/status'' [] None"
| "system_request env SystemDeviceStatus = do_json ''GET'' ''/api/status/device'' [] None"
| "system_request env SystemFirmwareStatus = do_json ''GET'' ''/api/status/firmware'' [] None"
| "system_request env SystemSystemStatus = do_json ''GET'' ''/api/status/system'' [] None"
| "system_request env SystemPowerStatus = do_json ''GET'' ''/api/status/power'' [] None"
| "system_request env SystemTransport = do_json ''GET'' ''/api/transport'' [] None"
| "system_request env (SystemDumpLog filename) =
     checked env ''POST'' ''/api/log_dump'' (validate_optional_log_filename filename)
       (do_json ''POST'' ''/api/log_dump'' (optional ''filename'' filename) None)"

datatype time_call = TimeNow | TimeSetTimestamp string | TimeTimezone | TimeSetTimezone string | TimeTimezones

fun time_request :: "service_env \<Rightarrow> time_call \<Rightarrow> planned" where
  "time_request env TimeNow = do_json ''GET'' ''/api/time'' [] None"
| "time_request env (TimeSetTimestamp s) =
     checked env ''POST'' ''/api/time/timestamp'' (validate_timestamp (se_time env) s)
       (do_json ''POST'' ''/api/time/timestamp'' [(''timestamp'', [s])] None)"
| "time_request env TimeTimezone = do_json ''GET'' ''/api/time/timezone'' [] None"
| "time_request env (TimeSetTimezone s) =
     checked env ''POST'' ''/api/time/timezone'' (validate_timezone s) (do_json ''POST'' ''/api/time/timezone'' [(''timezone'', [s])] None)"
| "time_request env TimeTimezones = do_json ''GET'' ''/api/time/tzlist'' [] None"

datatype update_call =
    UpdateUploadPackage "body option" | UpdateCheckNow | UpdateStatusNow | UpdateChangelog string | UpdateInstall string
  | UpdateAbortDownload | UpdateAutoUpdate | UpdateSetAutoUpdate string string \<comment> \<open>interval start and end\<close>

fun update_request :: "service_env \<Rightarrow> update_call \<Rightarrow> planned" where
  "update_request env (UpdateUploadPackage b) =
     (if b = None then Inl (mk_validation_error ''POST'' ''/api/update'' ''firmware update body must not be nil'' None)
      else do_json ''POST'' ''/api/update'' [] b)"
| "update_request env UpdateCheckNow = do_json ''POST'' ''/api/update/check'' [] None"
| "update_request env UpdateStatusNow = do_json ''GET'' ''/api/update/status'' [] None"
| "update_request env (UpdateChangelog v) =
     checked env ''GET'' ''/api/update/changelog'' (validate_update_version v)
       (do_json ''GET'' ''/api/update/changelog'' [(''version'', [v])] None)"
| "update_request env (UpdateInstall v) =
     checked env ''POST'' ''/api/update/install'' (validate_update_version v)
       (do_json ''POST'' ''/api/update/install'' [(''version'', [v])] None)"
| "update_request env UpdateAbortDownload = do_json ''POST'' ''/api/update/abort_download'' [] None"
| "update_request env UpdateAutoUpdate = do_json ''GET'' ''/api/update/autoupdate'' [] None"
| "update_request env (UpdateSetAutoUpdate start finish) =
     checked env ''POST'' ''/api/update/autoupdate'' (validate_auto_update start finish)
       (do_json ''POST'' ''/api/update/autoupdate'' [] (json_body env))"

datatype wifi_call = WifiStatus | WifiNetworks | WifiConnect wifi_connect | WifiDisconnect

fun wifi_request :: "service_env \<Rightarrow> wifi_call \<Rightarrow> planned" where
  "wifi_request env WifiStatus = do_json ''GET'' ''/api/wifi/status'' [] None"
| "wifi_request env WifiNetworks = do_json ''GET'' ''/api/wifi/networks'' [] None"
| "wifi_request env (WifiConnect r) =
     checked env ''POST'' ''/api/wifi/connect'' (validate_wifi_connect (se_order env) r)
       (do_json ''POST'' ''/api/wifi/connect'' [] (json_body env))"
| "wifi_request env WifiDisconnect = do_json ''POST'' ''/api/wifi/disconnect'' [] None"

datatype api_call =
    AccountCall account_call | AssetsCall assets_call | AudioCall audio_call | BleCall ble_call | BusyCall busy_call
  | DisplayCall display_call | InputCall string | SettingsCall settings_call | SmartHomeCall smart_home_call
  | StorageCall storage_call | SystemCall system_call | TimeCall time_call | UpdateCall update_call | WifiCall wifi_call

fun service_request :: "service_env \<Rightarrow> api_call \<Rightarrow> planned" where
  "service_request env (AccountCall c) = account_request env c"
| "service_request env (AssetsCall c) = assets_request env c"
| "service_request env (AudioCall c) = audio_request env c"
| "service_request env (BleCall c) = ble_request env c"
| "service_request env (BusyCall c) = busy_request env c"
| "service_request env (DisplayCall c) = display_request_of env c"
| "service_request env (InputCall key) = send_key env key"
| "service_request env (SettingsCall c) = settings_request env c"
| "service_request env (SmartHomeCall c) = smart_home_request env c"
| "service_request env (StorageCall c) = storage_request env c"
| "service_request env (SystemCall c) = system_request env c"
| "service_request env (TimeCall c) = time_request env c"
| "service_request env (UpdateCall c) = update_request env c"
| "service_request env (WifiCall c) = wifi_request env c"

section \<open>Service requests and their preparation\<close>

text \<open>The calls the firmware refuses over the remote transport.\<close>

fun refused_remotely :: "api_call \<Rightarrow> bool" where
  "refused_remotely (AccountCall c) = (case c of AccountLink \<Rightarrow> True | AccountSetBackend _ \<Rightarrow> True | AccountUnlink \<Rightarrow> True | _ \<Rightarrow> False)"
| "refused_remotely (UpdateCall c) = (case c of UpdateUploadPackage _ \<Rightarrow> True | _ \<Rightarrow> False)"
| "refused_remotely (WifiCall c) = (case c of WifiStatus \<Rightarrow> False | _ \<Rightarrow> True)"
| "refused_remotely _ = False"

definition path_char :: "char \<Rightarrow> bool" where
  "path_char c \<longleftrightarrow> is_alnum c \<or> c = CHR ''/'' \<or> c = CHR ''_''"

definition plain_path :: "string \<Rightarrow> bool" where
  "plain_path p \<longleftrightarrow> has_prefix p ''/api/'' \<and> list_all path_char p \<and> last p \<noteq> CHR ''/''"

definition plain_request :: "bool \<Rightarrow> request \<Rightarrow> bool" where
  "plain_request refused rq \<longleftrightarrow>
     plain_path (rq_path rq) \<and> rq_method rq \<in> {''GET'', ''POST'', ''PUT'', ''DELETE''} \<and> rq_header rq = []
     \<and> rq_mode rq \<in> {ResponseModeJSON, ResponseModeBytes}
     \<and> (rq_method rq @ '' '' @ rq_path rq \<in> set remoteBlockedOperations \<longleftrightarrow> refused)"

lemma space_encodings_plain: "list_all (\<lambda>w. w \<noteq> [] \<and> \<not> path_char (hd w) \<and> \<not> path_char (last w)) space_encodings"
  by code_simp

lemma space_free:
  assumes "list_all path_char p"
  shows "trim_space p = p"
proof -
  have "\<not> has_prefix p w" "\<not> has_suffix p w" if "w \<in> set space_encodings" for w
  proof -
    have w: "w \<noteq> []" "\<not> path_char (hd w)" "\<not> path_char (last w)"
      using space_encodings_plain that by (auto simp: list_all_iff)
    show "\<not> has_prefix p w"
    proof
      assume "has_prefix p w"
      then obtain t where "p = w @ t" by (auto simp: has_prefix_iff)
      then show False using assms w(1,2) by (cases w) auto
    qed
    show "\<not> has_suffix p w"
    proof
      assume "has_suffix p w"
      then obtain t where "p = t @ w" by (auto simp: has_suffix_iff)
      then show False using assms w(1,3) by (cases w rule: rev_cases) auto
    qed
  qed
  then have "find (has_prefix p) space_encodings = None" "find (has_suffix p) space_encodings = None"
    by (auto simp: find_None_iff)
  then show ?thesis
    by (simp add: trim_space_def trim_left_space.simps [of p] trim_right_space.simps [of p] space_prefix_def space_suffix_def)
qed

lemma plain_path_canonical:
  assumes "plain_path p"
  shows "canonical_api_path p = Inr p" and "trim_suffix p ''/'' = p" and "p \<noteq> []"
proof -
  have p: "has_prefix p ''/api/''" "list_all path_char p" "last p \<noteq> CHR ''/''" using assms by (simp_all add: plain_path_def)
  then obtain t where t: "p = ''/api/'' @ t" by (auto simp: has_prefix_iff)
  have no: "\<not> contains q (CHR '':'' # r)" if "list_all path_char q" for q r
    using that by (induction q) (auto simp: path_char_def is_alnum_def char_class_defs has_prefix_def)
  have b: "\<not> has_prefix p ''/busybar''" by (simp add: t has_prefix_def)
  show "canonical_api_path p = Inr p"
    using space_free [OF p(2)] no [OF p(2)] b p(1) by (simp add: canonical_api_path_def Let_def t has_prefix_def)
  show "trim_suffix p ''/'' = p" using p(3) by (simp add: trim_suffix_def has_suffix_last)
  show "p \<noteq> []" by (simp add: t)
qed

lemma method_upper:
  assumes "m \<in> {''GET'', ''POST'', ''PUT'', ''DELETE''}"
  shows "to_upper um (trim_space m) = m" and "to_upper um m = m" and "m \<noteq> []"
proof -
  have "list_all path_char m \<and> list_all is_ascii m \<and> map ascii_upper m = m \<and> m \<noteq> []"
    using assms by (elim insertE emptyE; hypsubst; code_simp)
  then show "to_upper um (trim_space m) = m" "to_upper um m = m" "m \<noteq> []"
    by (simp_all add: space_free to_upper_def)
qed

lemma plain_request_prepare:
  assumes "plain_request refused rq"
  shows "is_ok (prepare ev cl rq) \<longleftrightarrow> is_ok (prepare_request_body ev rq) \<and> \<not> (cl_mode cl = EndpointRemote \<and> refused)"
    and "prepare ev cl rq = Inr p \<Longrightarrow> pr_path p = rq_path rq \<and> pr_method p = rq_method rq"
proof -
  have r: "plain_path (rq_path rq)" "rq_method rq \<in> {''GET'', ''POST'', ''PUT'', ''DELETE''}" "rq_header rq = []"
    "rq_mode rq \<in> {ResponseModeJSON, ResponseModeBytes}"
    "rq_method rq @ '' '' @ rq_path rq \<in> set remoteBlockedOperations \<longleftrightarrow> refused"
    using assms by (simp_all add: plain_request_def)
  note m = method_upper [OF r(2)] and q = plain_path_canonical [OF r(1)]
  have "rq_path rq \<noteq> ''/api/''" using r(1) by (auto simp: plain_path_def)
  then have blocked: "is_remote_blocked_operation (ev_upper ev) (rq_method rq) (rq_path rq) \<longleftrightarrow> refused"
    using r(5) m(2) q(2) by (simp add: is_remote_blocked_operation_def operation_id_def Let_def)
  have auth: "is_ok (validate_caller_auth_headers (ev_lower ev) [])"
    by (simp add: auth_is_ok header_value_def h_get_def h_values_def)
  have mode: "is_ok (validate_response_mode (rq_mode rq))"
    using r(4) by (auto simp: validate_mode_ok ResponseModeJSON_def ResponseModeBytes_def)
  show "is_ok (prepare ev cl rq) \<longleftrightarrow> is_ok (prepare_request_body ev rq) \<and> \<not> (cl_mode cl = EndpointRemote \<and> refused)"
    unfolding prepare_is_ok Let_def m(1) q(1) r(3) using m(3) blocked auth mode by auto
  show "prepare ev cl rq = Inr p \<Longrightarrow> pr_path p = rq_path rq \<and> pr_method p = rq_method rq"
    using prepare_result [of ev cl rq p] m(1) q(1) by auto
qed

text \<open>The fixed operations of the services, and the three with an argument in the path.\<close>

definition service_operations :: "(string \<times> string) list" where
  "service_operations =
     [(''DELETE'', ''/api/access/tokens''), (''DELETE'', ''/api/account''),
      (''DELETE'', ''/api/assets/upload''), (''DELETE'', ''/api/audio/play''),
      (''DELETE'', ''/api/ble/pairing''), (''DELETE'', ''/api/display/draw''),
      (''DELETE'', ''/api/smart_home/pairing''), (''DELETE'', ''/api/storage/remove''),
      (''GET'', ''/api/access''), (''GET'', ''/api/access/tokens''),
      (''GET'', ''/api/account/backend''), (''GET'', ''/api/account/info''),
      (''GET'', ''/api/account/status''), (''GET'', ''/api/audio/volume''),
      (''GET'', ''/api/ble/status''), (''GET'', ''/api/busy/snapshot''),
      (''GET'', ''/api/display/brightness''), (''GET'', ''/api/name''), (''GET'', ''/api/screen''),
      (''GET'', ''/api/smart_home/pairing''), (''GET'', ''/api/smart_home/switch''),
      (''GET'', ''/api/status''), (''GET'', ''/api/status/device''),
      (''GET'', ''/api/status/firmware''), (''GET'', ''/api/status/power''),
      (''GET'', ''/api/status/system''), (''GET'', ''/api/storage/list''),
      (''GET'', ''/api/storage/read''), (''GET'', ''/api/storage/status''),
      (''GET'', ''/api/time''), (''GET'', ''/api/time/timezone''), (''GET'', ''/api/time/tzlist''),
      (''GET'', ''/api/transport''), (''GET'', ''/api/update/autoupdate''),
      (''GET'', ''/api/update/changelog''), (''GET'', ''/api/update/status''),
      (''GET'', ''/api/version''), (''GET'', ''/api/wifi/networks''),
      (''GET'', ''/api/wifi/status''), (''POST'', ''/api/access''),
      (''POST'', ''/api/access/tokens''), (''POST'', ''/api/account/link''),
      (''POST'', ''/api/assets/upload''), (''POST'', ''/api/audio/play''),
      (''POST'', ''/api/audio/volume''), (''POST'', ''/api/ble/disable''),
      (''POST'', ''/api/ble/enable''), (''POST'', ''/api/display/brightness''),
      (''POST'', ''/api/display/draw''), (''POST'', ''/api/input''), (''POST'', ''/api/log_dump''),
      (''POST'', ''/api/name''), (''POST'', ''/api/smart_home/pairing''),
      (''POST'', ''/api/smart_home/switch''), (''POST'', ''/api/storage/mkdir''),
      (''POST'', ''/api/storage/rename''), (''POST'', ''/api/storage/write''),
      (''POST'', ''/api/time/timestamp''), (''POST'', ''/api/time/timezone''),
      (''POST'', ''/api/update''), (''POST'', ''/api/update/abort_download''),
      (''POST'', ''/api/update/autoupdate''), (''POST'', ''/api/update/check''),
      (''POST'', ''/api/update/install''), (''POST'', ''/api/wifi/connect''),
      (''POST'', ''/api/wifi/disconnect''), (''PUT'', ''/api/account/backend''),
      (''PUT'', ''/api/busy/snapshot'')]"

definition service_operation :: "string \<Rightarrow> string \<Rightarrow> bool" where
  "service_operation m p \<longleftrightarrow>
     (m, p) \<in> set service_operations
     \<or> m = ''DELETE'' \<and> (\<exists>t. p = ''/api/access/tokens/'' @ t \<and> validate_access_token_short_id t = Inr ())
     \<or> m \<in> {''GET'', ''PUT''} \<and> p \<in> {''/api/busy/profiles/busy'', ''/api/busy/profiles/custom''}"

definition planned_ok :: "bool \<Rightarrow> planned \<Rightarrow> bool" where
  "planned_ok refused r = (case r of Inl e \<Rightarrow> ve_message e \<noteq> [] | Inr rq \<Rightarrow> plain_request refused rq \<and> service_operation (rq_method rq) (rq_path rq))"

named_theorems planned

lemma planned_checked [planned]: "(v = Inr () \<Longrightarrow> planned_ok refused k) \<Longrightarrow> planned_ok refused (checked env m p v k)"
  by (auto simp: checked_def planned_ok_def mk_validation_error_message split: sum.split)

lemma planned_error [planned]: "planned_ok refused (Inl (mk_validation_error m p t e))"
  by (simp add: planned_ok_def mk_validation_error_message)

lemma planned_json:
  "plain_request refused (api_get m p q b ResponseModeJSON) \<Longrightarrow> service_operation m p \<Longrightarrow> planned_ok refused (do_json m p q b)"
  by (simp add: planned_ok_def do_json_def api_get_def)

lemma planned_bytes:
  "plain_request refused (api_get m p q b ResponseModeBytes) \<Longrightarrow> service_operation m p \<Longrightarrow> planned_ok refused (do_bytes m p q b)"
  by (simp add: planned_ok_def do_bytes_def api_get_def)

lemma plain_request_api:
  "plain_request refused (api_get m p q b mode) \<longleftrightarrow>
     plain_path p \<and> m \<in> {''GET'', ''POST'', ''PUT'', ''DELETE''} \<and> mode \<in> {ResponseModeJSON, ResponseModeBytes}
     \<and> (m @ '' '' @ p \<in> set remoteBlockedOperations \<longleftrightarrow> refused)"
  by (simp add: plain_request_def api_get_def)

text \<open>The fixed operations of the services, evaluated once.\<close>

lemma path_letters [unfolded list.pred_inject, simp]: "list_all path_char ''abcdefghijklmnopqrstuvwxyz_/''"
  by code_simp

lemma plain_path_literal:
  "plain_path (CHR ''/'' # CHR ''a'' # CHR ''p'' # CHR ''i'' # CHR ''/'' # c # p) \<longleftrightarrow>
     list_all path_char (c # p) \<and> last (c # p) \<noteq> CHR ''/''"
  by (simp add: plain_path_def has_prefix_def)

lemma service_operations_plain:
  "list_all (\<lambda>(m, p). plain_path p \<and> m \<in> {''GET'', ''POST'', ''PUT'', ''DELETE''}) service_operations"
  by (simp add: service_operations_def plain_path_literal)

lemma service_operations_blocked:
  "filter (\<lambda>(m, p). m @ '' '' @ p \<in> set remoteBlockedOperations) service_operations =
     [(''DELETE'', ''/api/account''),
      (''GET'', ''/api/wifi/networks''),
      (''POST'', ''/api/account/link''),
      (''POST'', ''/api/update''),
      (''POST'', ''/api/wifi/connect''),
      (''POST'', ''/api/wifi/disconnect''),
      (''PUT'', ''/api/account/backend'')]"
  by (simp add: service_operations_def remoteBlockedOperations_def)

text \<open>A request of a fixed operation, given the answer whether it is one of the refused.\<close>

definition refused_operations :: "(string \<times> string) list" where
  "refused_operations = filter (\<lambda>(m, p). m @ '' '' @ p \<in> set remoteBlockedOperations) service_operations"

lemma plain_operation:
  assumes "(m, p) \<in> set service_operations" and "mode \<in> {ResponseModeJSON, ResponseModeBytes}"
    and "(m, p) \<in> set refused_operations \<longleftrightarrow> refused"
  shows "plain_request refused (api_get m p q b mode)"
  using service_operations_plain assms by (auto simp: plain_request_api list_all_iff refused_operations_def)

lemma planned_operation [planned]:
  assumes "(m, p) \<in> set service_operations" and "(m, p) \<in> set refused_operations \<longleftrightarrow> refused"
  shows "planned_ok refused (do_json m p q b)" "planned_ok refused (do_bytes m p q b)"
  using plain_operation [OF assms(1) _ assms(2)] assms(1)
  by (auto intro!: planned_json planned_bytes simp: service_operation_def)

lemmas operation_tables = service_operations_def refused_operations_def [unfolded service_operations_blocked]

lemma account_planned: "planned_ok (refused_remotely (AccountCall c)) (account_request env c)"
  by (cases c) (auto simp: operation_tables intro!: planned)

lemma assets_planned: "planned_ok False (assets_request env c)"
  by (cases c) (auto simp: upload_asset_def operation_tables intro!: planned)

lemma audio_planned: "planned_ok False (audio_request env c)"
  by (cases c) (auto simp: play_audio_def set_volume_def operation_tables intro!: planned)

lemma ble_planned: "planned_ok False (ble_request env c)"
  by (cases c) (auto simp: operation_tables intro!: planned)

lemma display_planned: "planned_ok False (display_request_of env c)"
  by (cases c) (auto simp: operation_tables intro!: planned)

lemma input_planned: "planned_ok False (send_key env key)"
  by (auto simp: send_key_def operation_tables intro!: planned)

lemma smart_home_planned: "planned_ok False (smart_home_request env c)"
  by (cases c) (auto simp: operation_tables intro!: planned)

lemma storage_planned: "planned_ok False (storage_request env c)"
  by (cases c) (auto simp: storage_write_def operation_tables intro!: planned)

lemma system_planned: "planned_ok False (system_request env c)"
  by (cases c) (auto simp: operation_tables intro!: planned)

lemma time_planned: "planned_ok False (time_request env c)"
  by (cases c) (auto simp: operation_tables intro!: planned)

lemma update_planned: "planned_ok (refused_remotely (UpdateCall c)) (update_request env c)"
  by (cases c) (auto simp: operation_tables intro!: planned)

lemma wifi_planned: "planned_ok (refused_remotely (WifiCall c)) (wifi_request env c)"
  by (cases c) (auto simp: operation_tables intro!: planned)

text \<open>The two services with a checked argument in the path.\<close>

lemma busy_planned: "planned_ok False (busy_request env c)"
proof -
  have "planned_ok False (do_json m (''/api/busy/profiles/'' @ slot) [] b)"
    if "validate_profile_slot slot = Inr ()" "m \<in> {''GET'', ''PUT''}" for m slot b
  proof -
    have "slot \<in> {''busy'', ''custom''}" using that(1) by (simp add: validate_profile_slot_def)
    moreover have "plain_path (''/api/busy/profiles/'' @ ''busy'')" "plain_path (''/api/busy/profiles/'' @ ''custom'')"
      by code_simp+
    ultimately show ?thesis
      using that(2)
      by (intro planned_json) (auto simp: plain_request_api remoteBlockedOperations_def service_operation_def)
  qed
  note slots = this
  show ?thesis
  proof (cases c)
    case (BusyProfile slot)
    show ?thesis unfolding BusyProfile busy_request.simps by (intro planned_checked slots) simp_all
  next
    case (BusySetProfile slot p)
    show ?thesis unfolding BusySetProfile busy_request.simps by (intro planned_checked slots) simp_all
  qed (auto simp: operation_tables intro!: planned)
qed

lemma settings_planned: "planned_ok False (settings_request env c)"
proof -
  have "planned_ok False (do_json ''DELETE'' (''/api/access/tokens/'' @ shortID) [] b)"
    if "validate_access_token_short_id shortID = Inr ()" for shortID b
  proof -
    have i: "length shortID = 8" "list_all is_alnum shortID"
      using that by (simp_all add: validate_access_token_short_id_def accessTokenIDPattern_def)
    then have "list_all path_char shortID" "shortID \<noteq> []" by (auto simp: path_char_def list_all_iff)
    moreover have "\<not> is_alnum (CHR ''/'')" "list_all path_char ''/api/access/tokens/''" by code_simp+
    moreover have "last shortID \<noteq> CHR ''/''" using i calculation(2,3) by (metis last_in_set list_all_iff)
    ultimately show ?thesis
      using that by (intro planned_json)
        (auto simp: plain_request_api plain_path_def remoteBlockedOperations_def service_operation_def)
  qed
  note revoke = this
  show ?thesis
  proof (cases c)
    case (SettingsRevokeAccessToken shortID)
    show ?thesis unfolding SettingsRevokeAccessToken settings_request.simps by (intro planned_checked revoke)
  qed (auto simp: operation_tables intro!: planned)
qed

lemma service_planned: "planned_ok (refused_remotely c) (service_request env c)"
proof (cases c)
  case (AccountCall x) then show ?thesis using account_planned by (metis service_request.simps(1))
next
  case (UpdateCall x) then show ?thesis using update_planned by (metis service_request.simps(13))
next
  case (WifiCall x) then show ?thesis using wifi_planned by (metis service_request.simps(14))
qed (simp_all add: assets_planned audio_planned ble_planned busy_planned display_planned input_planned
      settings_planned smart_home_planned storage_planned system_planned time_planned)

text \<open>
  every call of a service either returns a validation error or makes one request, and \<open>Prepare\<close> takes
  that request unchanged: under \<open>/api/\<close>, with the path the service wrote, whatever the arguments are. Over
  the remote transport the same holds for all calls but the seven the firmware refuses, which never leave
  the client; nothing else but a body that cannot be prepared stops a call.
\<close>

theorem service_prepare_spec:
  "case service_request env c of
     Inl e \<Rightarrow> ve_message e \<noteq> []
   | Inr rq \<Rightarrow>
       (is_ok (prepare ev cl rq) \<longleftrightarrow> is_ok (prepare_request_body ev rq) \<and> \<not> (cl_mode cl = EndpointRemote \<and> refused_remotely c))
       \<and> (case prepare ev cl rq of
            Inl _ \<Rightarrow> True
          | Inr p \<Rightarrow> pr_path p = rq_path rq \<and> pr_method p = rq_method rq \<and> has_prefix (pr_path p) ''/api/'')"
proof (cases "service_request env c")
  case (Inl e)
  then show ?thesis using service_planned [of c env] by (simp add: planned_ok_def)
next
  case (Inr rq)
  then have r: "plain_request (refused_remotely c) rq" using service_planned [of c env] by (simp add: planned_ok_def)
  then have "has_prefix (rq_path rq) ''/api/''" by (simp add: plain_request_def plain_path_def)
  then show ?thesis
    using plain_request_prepare(1) [OF r, of ev cl] plain_request_prepare(2) [OF r, of ev cl]
    by (simp add: Inr split: sum.split)
qed

end
