(* ===== verification/LocalStream.thy ===== *)
theory LocalStream
  imports StatusStream Request
begin

text \<open>
  The local status stream around its life in \<open>StatusStream\<close>: \<open>Client.NewStatusStream\<close>
  (\<open>status_stream.go\<close>), \<open>New\<close>, the dialled URL, the interval of the staleness watcher and the errors of
  the websocket (\<open>internal/statusstream/stream.go\<close>), the wire names (\<open>stream/types.go\<close>) and the text of
  its errors (\<open>stream/errors.go\<close>).
\<close>

section \<open>Names\<close>

fun lifecycle_name :: "lifecycle \<Rightarrow> string" where
  "lifecycle_name LifecycleIdle = ''idle''"
| "lifecycle_name LifecycleConnecting = ''connecting''"
| "lifecycle_name LifecycleConnected = ''connected''"
| "lifecycle_name LifecycleReconnecting = ''reconnecting''"
| "lifecycle_name LifecycleStopped = ''stopped''"
| "lifecycle_name LifecycleFailed = ''failed''"

fun access_name :: "access_status \<Rightarrow> string" where
  "access_name AccessUnknown = ''unknown''"
| "access_name AccessAccepted = ''accepted''"
| "access_name AccessRejected = ''rejected''"

fun data_name :: "data_status \<Rightarrow> string" where
  "data_name DataWaiting = ''waiting''"
| "data_name DataFresh = ''fresh''"
| "data_name DataStale = ''stale''"

fun message_kind_name :: "message_kind \<Rightarrow> string" where
  "message_kind_name MessageBinary = ''binary''"
| "message_kind_name MessageText = ''text''"

definition update_kinds :: "string list" where
  "update_kinds =
     [''device_name'', ''power'', ''brightness'', ''audio_volume'', ''wifi'', ''update_state'', ''update_check'', ''timezone'',
      ''matter'', ''frame'', ''input'', ''timer'', ''ble'', ''auto_update_state'', ''timer_profiles'', ''unknown'']"

lemma update_kind_listed: "update_kind u \<in> set update_kinds"
  by (cases u) (simp_all add: update_kinds_def)

text \<open>The enumerations are compared as strings; different values have different names.\<close>

lemma names_inj: "inj lifecycle_name" "inj access_name" "inj data_name" "inj message_kind_name"
proof -
  show "inj lifecycle_name"
  proof (rule injI)
    fix x y show "lifecycle_name x = lifecycle_name y \<Longrightarrow> x = y" by (cases x; cases y) simp_all
  qed
  show "inj access_name"
  proof (rule injI)
    fix x y show "access_name x = access_name y \<Longrightarrow> x = y" by (cases x; cases y) simp_all
  qed
  show "inj data_name"
  proof (rule injI)
    fix x y show "data_name x = data_name y \<Longrightarrow> x = y" by (cases x; cases y) simp_all
  qed
  show "inj message_kind_name"
  proof (rule injI)
    fix x y show "message_kind_name x = message_kind_name y \<Longrightarrow> x = y" by (cases x; cases y) simp_all
  qed
qed

section \<open>Construction\<close>

record local_stream_config =
  lc_base :: "base_url option"
  lc_http :: "nat option"
  lc_timeout :: duration
  lc_token :: string
  lc_negotiation :: bool
  lc_has_version :: bool \<comment> \<open>whether \<open>APISemVer\<close> is given\<close>
  lc_has_refresh :: bool

definition new_local_stream ::
  "local_stream_config \<Rightarrow> stream_option option list \<Rightarrow> string + local_stream_config \<times> stream_options \<times> 'p stream"
where
  "new_local_stream c ops =
     rbind (resolve_stream_options ops) (\<lambda>resolved.
       if lc_base c = None then Inl ''status stream base URL must not be nil''
       else if lc_http c = None then Inl ''status stream HTTP client must not be nil''
       else if lc_negotiation c \<and> (\<not> lc_has_version c \<or> \<not> lc_has_refresh c)
       then Inl ''status stream version callbacks must not be nil when negotiation is enabled''
       else Inr (c, resolved, new_state messageBuffer))"

datatype new_status_error = NewValidation validation_error | NewStream string

definition client_status_stream ::
  "client \<Rightarrow> stream_option option list \<Rightarrow> new_status_error + local_stream_config \<times> stream_options \<times> 'p stream"
where
  "client_status_stream cl ops =
     (if cl_mode cl \<noteq> EndpointLocal
      then Inl (NewValidation (mk_validation_error ''GET'' ''/api/status/ws''
             ''local WebSocket status streaming is unavailable in remote mode'' None))
      else map_sum NewStream id
        (new_local_stream
          \<lparr>lc_base = Some (cl_base cl), lc_http = Some (cl_http cl), lc_timeout = cl_timeout cl, lc_token = cl_token cl,
           lc_negotiation = (cl_negotiation cl \<noteq> NegotiationDisabled), lc_has_version = True, lc_has_refresh = True\<rparr> ops))"

section \<open>Dialling\<close>

definition dial_query :: "local_stream_config \<Rightarrow> string \<Rightarrow> query" where
  "dial_query c version =
     (if lc_token c = [] then [] else [(''x-api-token'', [lc_token c])])
     @ (if lc_negotiation c then [(''x-api-sem-ver'', [version])] else [])"

text \<open>\<open>URL.String\<close> of the normalised origin with the path and the encoded query.\<close>

definition dial_url :: "base_url \<Rightarrow> local_stream_config \<Rightarrow> string \<Rightarrow> string" where
  "dial_url b c version =
     bu_scheme b @ ''://'' @ bu_host b @ statusStreamPath
     @ (if dial_query c version = [] then [] else ''?'' @ encode_query (dial_query c version))"

text \<open>\<open>websocketError\<close>: no close frame is code -1 of the library and 0 here.\<close>

definition websocket_error :: "string \<Rightarrow> int \<Rightarrow> string \<Rightarrow> stream_error" where
  "websocket_error operation close_status err =
     mk_stream_error operation statusStreamPath 0 0 (if close_status < 0 then 0 else nat close_status) False (CauseText err)"

text \<open>\<open>watchStaleness\<close>, and the same lines in \<open>readSubscription\<close> of the remote stream.\<close>

definition millisecond :: duration where "millisecond = 1000000"

definition stale_interval :: "duration \<Rightarrow> duration" where
  "stale_interval limit =
     (let i = limit div 4; i = (if i < millisecond then millisecond else i)
      in if i > 250 * millisecond then 250 * millisecond else i)"

section \<open>Errors\<close>

text \<open>\<open>Error.Error\<close>; every error of the sources has a cause, \<open>show\<close> is \<open>%v\<close> of it.\<close>

definition stream_error_text :: "(stream_cause \<Rightarrow> string) \<Rightarrow> stream_error \<Rightarrow> string" where
  "stream_error_text show e =
     ''status stream '' @ sx_operation e @ '' '' @ sx_path e @
     (if sx_status e \<noteq> 0 then '' failed: HTTP '' @ format_nat (sx_status e)
      else if sx_close e \<noteq> 0 then '' failed: WebSocket close '' @ format_nat (sx_close e) @ '': '' @ show (sx_err e)
      else '' failed: '' @ show (sx_err e))"

section \<open>Facts\<close>

text \<open>A stream is made exactly for a local client and acceptable options, idle, with the token of the client.\<close>

lemma client_status_stream_ok:
  "client_status_stream cl ops = Inr (c, opts, st) \<longleftrightarrow>
     cl_mode cl = EndpointLocal \<and> resolve_stream_options ops = Inr opts \<and> st = new_state messageBuffer
     \<and> c = \<lparr>lc_base = Some (cl_base cl), lc_http = Some (cl_http cl), lc_timeout = cl_timeout cl, lc_token = cl_token cl,
            lc_negotiation = (cl_negotiation cl \<noteq> NegotiationDisabled), lc_has_version = True, lc_has_refresh = True\<rparr>"
  by (cases "resolve_stream_options ops") (auto simp: client_status_stream_def new_local_stream_def)

lemma client_status_stream_fails:
  "\<not> is_ok (client_status_stream cl ops :: new_status_error + local_stream_config \<times> stream_options \<times> 'p stream) \<longleftrightarrow>
     cl_mode cl \<noteq> EndpointLocal \<or> \<not> is_ok (resolve_stream_options ops)"
  by (cases "resolve_stream_options ops") (auto simp: client_status_stream_def new_local_stream_def is_ok_def)

text \<open>The watcher ticks at least every quarter of a second and, but for limits below 4 ms, four times within the limit.\<close>

lemma stale_interval_bounds:
  assumes "0 < limit"
  shows "millisecond \<le> stale_interval limit" and "stale_interval limit \<le> 250 * millisecond"
    and "4 * millisecond \<le> limit \<Longrightarrow> 4 * stale_interval limit \<le> limit"
  using assms by (auto simp: stale_interval_def Let_def millisecond_def)

lemma encode_token_query:
  "\<exists>rest. encode_query (dial_query c version) = rest @ ''x-api-token='' @ query_escape (lc_token c)" if "lc_token c \<noteq> []"
proof -
  have e: "query_escape ''x-api-token'' = ''x-api-token''" by code_simp
  have s: "sort_key fst [(''x-api-token'', [lc_token c]), (''x-api-sem-ver'', [version])] =
      [(''x-api-sem-ver'', [version]), (''x-api-token'', [lc_token c])]"
    by simp
  show ?thesis
    using that e by (auto simp: dial_query_def encode_query_def s)
qed

text \<open>
  The text of a failed dial repeats the cause. \<open>net/http\<close> reports a request it cannot send with its URL,
  query included, so the text then contains the access token, which the comment of \<open>Error\<close> excludes.
\<close>

lemma dial_error_shows_token:
  assumes "lc_token c \<noteq> []" and "contains cause (dial_url b c version)" and "show (CauseText cause) = cause"
  shows "contains (stream_error_text show (mk_stream_error ''connect'' statusStreamPath att 0 0 False (CauseText cause)))
    (''x-api-token='' @ query_escape (lc_token c))"
proof -
  obtain r where "encode_query (dial_query c version) = r @ ''x-api-token='' @ query_escape (lc_token c)"
    using encode_token_query [OF assms(1)] by blast
  then obtain r' where r': "dial_url b c version = r' @ ''x-api-token='' @ query_escape (lc_token c)"
    using assms(1) by (auto simp: dial_url_def dial_query_def)
  obtain x y where "cause = x @ dial_url b c version @ y" using assms(2) by (auto simp: contains_iff)
  then have "\<exists>u. stream_error_text show (mk_stream_error ''connect'' statusStreamPath att 0 0 False (CauseText cause)) =
      u @ (''x-api-token='' @ query_escape (lc_token c)) @ y"
    using assms(3) by (simp add: stream_error_text_def mk_stream_error_def r')
  then show ?thesis by (auto simp: contains_iff)
qed

end
