(* ===== verification/ResponseTypes.thy ===== *)
theory ResponseTypes
  imports SnapshotCollect BusyState Validation
begin

text \<open>
  The result types of the service calls (\<open>account.go\<close>, \<open>settings.go\<close>, \<open>smart_home.go\<close>, \<open>storage.go\<close>,
  \<open>system.go\<close>, \<open>time.go\<close>, \<open>update.go\<close>, \<open>wifi.go\<close>, \<open>busy.go\<close>) with the way \<open>json.Unmarshal\<close> fills them
  from the members of an object: a member of the wrong type is an error, an absent one or a null keeps
  the zero value, an unknown one is ignored. The enumerations of the firmware are open strings in the
  sources and are strings here. Elements of a slice start from their zero value.
\<close>

section \<open>Targets\<close>

definition to_bool :: "bool json_target" where
  "to_bool x v = (case v of JNull \<Rightarrow> Some x | JBool b \<Rightarrow> Some b | _ \<Rightarrow> None)"

definition to_uint64 :: "int json_target" where
  "to_uint64 x v = (case v of JNull \<Rightarrow> Some x | JInt n \<Rightarrow> if 0 \<le> n \<and> n < 2 ^ 64 then Some n else None | _ \<Rightarrow> None)"

fun decode_elements :: "'a \<Rightarrow> 'a json_target \<Rightarrow> json list \<Rightarrow> 'a list option" where
  "decode_elements z t [] = Some []"
| "decode_elements z t (v # vs) =
     (case t z v of None \<Rightarrow> None | Some x \<Rightarrow> map_option (Cons x) (decode_elements z t vs))"

definition to_slice :: "'a \<Rightarrow> 'a json_target \<Rightarrow> 'a list json_target" where
  "to_slice z t x v = (case v of JNull \<Rightarrow> Some [] | JArr vs \<Rightarrow> decode_elements z t vs | _ \<Rightarrow> None)"

section \<open>Types\<close>

subsection \<open>Account\<close>

record account_link =
  al_code :: string
  al_expires :: int

definition zero_account_link :: account_link where
  "zero_account_link = \<lparr>al_code = [], al_expires = 0\<rparr>"

definition to_account_link :: "(string \<Rightarrow> string) \<Rightarrow> account_link json_target" where
  "to_account_link fold_name c v =
     do { kvs \<leftarrow> json_members v;
          x0 \<leftarrow> struct_member fold_name ''code'' to_string (al_code c) kvs;
          x1 \<leftarrow> struct_member fold_name ''expires_at'' to_int (al_expires c) kvs;
          Some \<lparr>al_code = x0, al_expires = x1\<rparr> }"

record account_info =
  ai_linked :: bool
  ai_id :: string
  ai_email :: string
  ai_user :: string

definition zero_account_info :: account_info where
  "zero_account_info = \<lparr>ai_linked = False, ai_id = [], ai_email = [], ai_user = []\<rparr>"

definition to_account_info :: "(string \<Rightarrow> string) \<Rightarrow> account_info json_target" where
  "to_account_info fold_name c v =
     do { kvs \<leftarrow> json_members v;
          x0 \<leftarrow> struct_member fold_name ''linked'' to_bool (ai_linked c) kvs;
          x1 \<leftarrow> struct_member fold_name ''id'' to_string (ai_id c) kvs;
          x2 \<leftarrow> struct_member fold_name ''email'' to_string (ai_email c) kvs;
          x3 \<leftarrow> struct_member fold_name ''user_id'' to_string (ai_user c) kvs;
          Some \<lparr>ai_linked = x0, ai_id = x1, ai_email = x2, ai_user = x3\<rparr> }"

subsection \<open>Settings\<close>

record http_access_info =
  ha_mode :: string
  ha_key_valid :: bool

definition zero_http_access_info :: http_access_info where
  "zero_http_access_info = \<lparr>ha_mode = [], ha_key_valid = False\<rparr>"

definition to_http_access_info :: "(string \<Rightarrow> string) \<Rightarrow> http_access_info json_target" where
  "to_http_access_info fold_name c v =
     do { kvs \<leftarrow> json_members v;
          x0 \<leftarrow> struct_member fold_name ''mode'' to_string (ha_mode c) kvs;
          x1 \<leftarrow> struct_member fold_name ''key_valid'' to_bool (ha_key_valid c) kvs;
          Some \<lparr>ha_mode = x0, ha_key_valid = x1\<rparr> }"

record stored_token =
  st_short :: string
  st_display :: string
  st_name :: string
  st_created :: string
  st_used :: string

definition zero_stored_token :: stored_token where
  "zero_stored_token = \<lparr>st_short = [], st_display = [], st_name = [], st_created = [], st_used = []\<rparr>"

definition to_stored_token :: "(string \<Rightarrow> string) \<Rightarrow> stored_token json_target" where
  "to_stored_token fold_name c v =
     do { kvs \<leftarrow> json_members v;
          x0 \<leftarrow> struct_member fold_name ''short_id'' to_string (st_short c) kvs;
          x1 \<leftarrow> struct_member fold_name ''display_id'' to_string (st_display c) kvs;
          x2 \<leftarrow> struct_member fold_name ''name'' to_string (st_name c) kvs;
          x3 \<leftarrow> struct_member fold_name ''created_at'' to_string (st_created c) kvs;
          x4 \<leftarrow> struct_member fold_name ''last_used_at'' to_string (st_used c) kvs;
          Some \<lparr>st_short = x0, st_display = x1, st_name = x2, st_created = x3, st_used = x4\<rparr> }"

subsection \<open>Smart home\<close>

record pairing_status =
  ps_value :: string
  ps_timestamp :: int

definition zero_pairing_status :: pairing_status where
  "zero_pairing_status = \<lparr>ps_value = [], ps_timestamp = 0\<rparr>"

definition to_pairing_status :: "(string \<Rightarrow> string) \<Rightarrow> pairing_status json_target" where
  "to_pairing_status fold_name c v =
     do { kvs \<leftarrow> json_members v;
          x0 \<leftarrow> struct_member fold_name ''value'' to_string (ps_value c) kvs;
          x1 \<leftarrow> struct_member fold_name ''timestamp'' to_int (ps_timestamp c) kvs;
          Some \<lparr>ps_value = x0, ps_timestamp = x1\<rparr> }"

record pairing_info =
  pi_fabrics :: int
  pi_latest :: pairing_status

definition zero_pairing_info :: pairing_info where
  "zero_pairing_info = \<lparr>pi_fabrics = 0, pi_latest = zero_pairing_status\<rparr>"

definition to_pairing_info :: "(string \<Rightarrow> string) \<Rightarrow> pairing_info json_target" where
  "to_pairing_info fold_name c v =
     do { kvs \<leftarrow> json_members v;
          x0 \<leftarrow> struct_member fold_name ''fabric_count'' to_int (pi_fabrics c) kvs;
          x1 \<leftarrow> struct_member fold_name ''latest_pairing_status'' (to_pairing_status fold_name) (pi_latest c) kvs;
          Some \<lparr>pi_fabrics = x0, pi_latest = x1\<rparr> }"

record pairing_payload =
  pp_until :: string
  pp_qr :: string
  pp_manual :: string

definition zero_pairing_payload :: pairing_payload where
  "zero_pairing_payload = \<lparr>pp_until = [], pp_qr = [], pp_manual = []\<rparr>"

definition to_pairing_payload :: "(string \<Rightarrow> string) \<Rightarrow> pairing_payload json_target" where
  "to_pairing_payload fold_name c v =
     do { kvs \<leftarrow> json_members v;
          x0 \<leftarrow> struct_member fold_name ''available_until'' to_string (pp_until c) kvs;
          x1 \<leftarrow> struct_member fold_name ''qr_code'' to_string (pp_qr c) kvs;
          x2 \<leftarrow> struct_member fold_name ''manual_code'' to_string (pp_manual c) kvs;
          Some \<lparr>pp_until = x0, pp_qr = x1, pp_manual = x2\<rparr> }"

subsection \<open>Storage\<close>

record storage_element =
  se_type :: string
  se_name :: string
  se_size :: int

definition zero_storage_element :: storage_element where
  "zero_storage_element = \<lparr>se_type = [], se_name = [], se_size = 0\<rparr>"

definition to_storage_element :: "(string \<Rightarrow> string) \<Rightarrow> storage_element json_target" where
  "to_storage_element fold_name c v =
     do { kvs \<leftarrow> json_members v;
          x0 \<leftarrow> struct_member fold_name ''type'' to_string (se_type c) kvs;
          x1 \<leftarrow> struct_member fold_name ''name'' to_string (se_name c) kvs;
          x2 \<leftarrow> struct_member fold_name ''size'' to_uint64 (se_size c) kvs;
          Some \<lparr>se_type = x0, se_name = x1, se_size = x2\<rparr> }"

record storage_space =
  ss_used :: int
  ss_free :: int
  ss_total :: int

definition zero_storage_space :: storage_space where
  "zero_storage_space = \<lparr>ss_used = 0, ss_free = 0, ss_total = 0\<rparr>"

definition to_storage_space :: "(string \<Rightarrow> string) \<Rightarrow> storage_space json_target" where
  "to_storage_space fold_name c v =
     do { kvs \<leftarrow> json_members v;
          x0 \<leftarrow> struct_member fold_name ''used_bytes'' to_uint64 (ss_used c) kvs;
          x1 \<leftarrow> struct_member fold_name ''free_bytes'' to_uint64 (ss_free c) kvs;
          x2 \<leftarrow> struct_member fold_name ''total_bytes'' to_uint64 (ss_total c) kvs;
          Some \<lparr>ss_used = x0, ss_free = x1, ss_total = x2\<rparr> }"

subsection \<open>System\<close>

record device_status =
  ds_serial :: string
  ds_usb_mac :: string
  ds_wifi_mac :: string
  ds_ble_mac :: string
  ds_otp_valid :: bool
  ds_otp_model :: string
  ds_otp_time :: int
  ds_security :: string

definition zero_device_status :: device_status where
  "zero_device_status = \<lparr>ds_serial = [], ds_usb_mac = [], ds_wifi_mac = [], ds_ble_mac = [], ds_otp_valid = False, ds_otp_model = [], ds_otp_time = 0, ds_security = []\<rparr>"

definition to_device_status :: "(string \<Rightarrow> string) \<Rightarrow> device_status json_target" where
  "to_device_status fold_name c v =
     do { kvs \<leftarrow> json_members v;
          x0 \<leftarrow> struct_member fold_name ''serial_number'' to_string (ds_serial c) kvs;
          x1 \<leftarrow> struct_member fold_name ''usb_mac'' to_string (ds_usb_mac c) kvs;
          x2 \<leftarrow> struct_member fold_name ''wifi_mac'' to_string (ds_wifi_mac c) kvs;
          x3 \<leftarrow> struct_member fold_name ''ble_mac'' to_string (ds_ble_mac c) kvs;
          x4 \<leftarrow> struct_member fold_name ''otp_valid'' to_bool (ds_otp_valid c) kvs;
          x5 \<leftarrow> struct_member fold_name ''otp_model'' to_string (ds_otp_model c) kvs;
          x6 \<leftarrow> struct_member fold_name ''otp_timestamp'' to_int (ds_otp_time c) kvs;
          x7 \<leftarrow> struct_member fold_name ''firmware_security'' to_string (ds_security c) kvs;
          Some \<lparr>ds_serial = x0, ds_usb_mac = x1, ds_wifi_mac = x2, ds_ble_mac = x3, ds_otp_valid = x4, ds_otp_model = x5, ds_otp_time = x6, ds_security = x7\<rparr> }"

record firmware_status =
  fs_version :: string
  fs_target :: int
  fs_branch :: string
  fs_built :: string
  fs_commit :: string
  fs_intercom :: string
  fs_nwp :: string
  fs_matter :: string

definition zero_firmware_status :: firmware_status where
  "zero_firmware_status = \<lparr>fs_version = [], fs_target = 0, fs_branch = [], fs_built = [], fs_commit = [], fs_intercom = [], fs_nwp = [], fs_matter = []\<rparr>"

definition to_firmware_status :: "(string \<Rightarrow> string) \<Rightarrow> firmware_status json_target" where
  "to_firmware_status fold_name c v =
     do { kvs \<leftarrow> json_members v;
          x0 \<leftarrow> struct_member fold_name ''version'' to_string (fs_version c) kvs;
          x1 \<leftarrow> struct_member fold_name ''target'' to_int (fs_target c) kvs;
          x2 \<leftarrow> struct_member fold_name ''branch'' to_string (fs_branch c) kvs;
          x3 \<leftarrow> struct_member fold_name ''build_date'' to_string (fs_built c) kvs;
          x4 \<leftarrow> struct_member fold_name ''commit_hash'' to_string (fs_commit c) kvs;
          x5 \<leftarrow> struct_member fold_name ''intercom_version'' to_string (fs_intercom c) kvs;
          x6 \<leftarrow> struct_member fold_name ''nwp_version'' to_string (fs_nwp c) kvs;
          x7 \<leftarrow> struct_member fold_name ''matter_version'' to_string (fs_matter c) kvs;
          Some \<lparr>fs_version = x0, fs_target = x1, fs_branch = x2, fs_built = x3, fs_commit = x4, fs_intercom = x5, fs_nwp = x6, fs_matter = x7\<rparr> }"

record system_status =
  sy_api :: string
  sy_uptime :: string
  sy_boot :: int
  sy_auto_update :: bool

definition zero_system_status :: system_status where
  "zero_system_status = \<lparr>sy_api = [], sy_uptime = [], sy_boot = 0, sy_auto_update = False\<rparr>"

definition to_system_status :: "(string \<Rightarrow> string) \<Rightarrow> system_status json_target" where
  "to_system_status fold_name c v =
     do { kvs \<leftarrow> json_members v;
          x0 \<leftarrow> struct_member fold_name ''api_semver'' to_string (sy_api c) kvs;
          x1 \<leftarrow> struct_member fold_name ''uptime'' to_string (sy_uptime c) kvs;
          x2 \<leftarrow> struct_member fold_name ''boot_time'' to_int (sy_boot c) kvs;
          x3 \<leftarrow> struct_member fold_name ''auto_update_enabled'' to_bool (sy_auto_update c) kvs;
          Some \<lparr>sy_api = x0, sy_uptime = x1, sy_boot = x2, sy_auto_update = x3\<rparr> }"

record log_dump =
  ld_result :: string
  ld_path :: string

definition zero_log_dump :: log_dump where
  "zero_log_dump = \<lparr>ld_result = [], ld_path = []\<rparr>"

definition to_log_dump :: "(string \<Rightarrow> string) \<Rightarrow> log_dump json_target" where
  "to_log_dump fold_name c v =
     do { kvs \<leftarrow> json_members v;
          x0 \<leftarrow> struct_member fold_name ''result'' to_string (ld_result c) kvs;
          x1 \<leftarrow> struct_member fold_name ''path'' to_string (ld_path c) kvs;
          Some \<lparr>ld_result = x0, ld_path = x1\<rparr> }"

subsection \<open>Time\<close>

record timezone_info =
  tz_name :: string
  tz_offset :: string
  tz_abbr :: string

definition zero_timezone_info :: timezone_info where
  "zero_timezone_info = \<lparr>tz_name = [], tz_offset = [], tz_abbr = []\<rparr>"

definition to_timezone_info :: "(string \<Rightarrow> string) \<Rightarrow> timezone_info json_target" where
  "to_timezone_info fold_name c v =
     do { kvs \<leftarrow> json_members v;
          x0 \<leftarrow> struct_member fold_name ''name'' to_string (tz_name c) kvs;
          x1 \<leftarrow> struct_member fold_name ''offset'' to_string (tz_offset c) kvs;
          x2 \<leftarrow> struct_member fold_name ''abbr'' to_string (tz_abbr c) kvs;
          Some \<lparr>tz_name = x0, tz_offset = x1, tz_abbr = x2\<rparr> }"

subsection \<open>Update\<close>

record download_status =
  dl_speed :: int
  dl_received :: int
  dl_total :: int

definition zero_download_status :: download_status where
  "zero_download_status = \<lparr>dl_speed = 0, dl_received = 0, dl_total = 0\<rparr>"

definition to_download_status :: "(string \<Rightarrow> string) \<Rightarrow> download_status json_target" where
  "to_download_status fold_name c v =
     do { kvs \<leftarrow> json_members v;
          x0 \<leftarrow> struct_member fold_name ''speed_bytes_per_sec'' to_int (dl_speed c) kvs;
          x1 \<leftarrow> struct_member fold_name ''received_bytes'' to_int (dl_received c) kvs;
          x2 \<leftarrow> struct_member fold_name ''total_bytes'' to_int (dl_total c) kvs;
          Some \<lparr>dl_speed = x0, dl_received = x1, dl_total = x2\<rparr> }"

record install_status =
  in_allowed :: bool
  in_event :: string
  in_action :: string
  in_status :: string
  in_detail :: string
  in_download :: download_status

definition zero_install_status :: install_status where
  "zero_install_status = \<lparr>in_allowed = False, in_event = [], in_action = [], in_status = [], in_detail = [], in_download = zero_download_status\<rparr>"

definition to_install_status :: "(string \<Rightarrow> string) \<Rightarrow> install_status json_target" where
  "to_install_status fold_name c v =
     do { kvs \<leftarrow> json_members v;
          x0 \<leftarrow> struct_member fold_name ''is_allowed'' to_bool (in_allowed c) kvs;
          x1 \<leftarrow> struct_member fold_name ''event'' to_string (in_event c) kvs;
          x2 \<leftarrow> struct_member fold_name ''action'' to_string (in_action c) kvs;
          x3 \<leftarrow> struct_member fold_name ''status'' to_string (in_status c) kvs;
          x4 \<leftarrow> struct_member fold_name ''detail'' to_string (in_detail c) kvs;
          x5 \<leftarrow> struct_member fold_name ''download'' (to_download_status fold_name) (in_download c) kvs;
          Some \<lparr>in_allowed = x0, in_event = x1, in_action = x2, in_status = x3, in_detail = x4, in_download = x5\<rparr> }"

record check_status =
  ck_available :: string
  ck_event :: string
  ck_status :: string

definition zero_check_status :: check_status where
  "zero_check_status = \<lparr>ck_available = [], ck_event = [], ck_status = []\<rparr>"

definition to_check_status :: "(string \<Rightarrow> string) \<Rightarrow> check_status json_target" where
  "to_check_status fold_name c v =
     do { kvs \<leftarrow> json_members v;
          x0 \<leftarrow> struct_member fold_name ''available_version'' to_string (ck_available c) kvs;
          x1 \<leftarrow> struct_member fold_name ''event'' to_string (ck_event c) kvs;
          x2 \<leftarrow> struct_member fold_name ''status'' to_string (ck_status c) kvs;
          Some \<lparr>ck_available = x0, ck_event = x1, ck_status = x2\<rparr> }"

record update_status =
  us_install :: install_status
  us_check :: check_status

definition zero_update_status :: update_status where
  "zero_update_status = \<lparr>us_install = zero_install_status, us_check = zero_check_status\<rparr>"

definition to_update_status :: "(string \<Rightarrow> string) \<Rightarrow> update_status json_target" where
  "to_update_status fold_name c v =
     do { kvs \<leftarrow> json_members v;
          x0 \<leftarrow> struct_member fold_name ''install'' (to_install_status fold_name) (us_install c) kvs;
          x1 \<leftarrow> struct_member fold_name ''check'' (to_check_status fold_name) (us_check c) kvs;
          Some \<lparr>us_install = x0, us_check = x1\<rparr> }"

record auto_update =
  au_enabled :: "bool option"
  au_start :: string
  au_end :: string

definition zero_auto_update :: auto_update where
  "zero_auto_update = \<lparr>au_enabled = None, au_start = [], au_end = []\<rparr>"

definition to_auto_update :: "(string \<Rightarrow> string) \<Rightarrow> auto_update json_target" where
  "to_auto_update fold_name c v =
     do { kvs \<leftarrow> json_members v;
          x0 \<leftarrow> struct_member fold_name ''is_enabled'' (to_pointer False to_bool) (au_enabled c) kvs;
          x1 \<leftarrow> struct_member fold_name ''interval_start'' to_string (au_start c) kvs;
          x2 \<leftarrow> struct_member fold_name ''interval_end'' to_string (au_end c) kvs;
          Some \<lparr>au_enabled = x0, au_start = x1, au_end = x2\<rparr> }"

subsection \<open>Wi-Fi\<close>

record wifi_network =
  wn_ssid :: string
  wn_security :: string
  wn_rssi :: int

definition zero_wifi_network :: wifi_network where
  "zero_wifi_network = \<lparr>wn_ssid = [], wn_security = [], wn_rssi = 0\<rparr>"

definition to_wifi_network :: "(string \<Rightarrow> string) \<Rightarrow> wifi_network json_target" where
  "to_wifi_network fold_name c v =
     do { kvs \<leftarrow> json_members v;
          x0 \<leftarrow> struct_member fold_name ''ssid'' to_string (wn_ssid c) kvs;
          x1 \<leftarrow> struct_member fold_name ''security'' to_string (wn_security c) kvs;
          x2 \<leftarrow> struct_member fold_name ''rssi'' to_int (wn_rssi c) kvs;
          Some \<lparr>wn_ssid = x0, wn_security = x1, wn_rssi = x2\<rparr> }"

record wifi_networks =
  wl_count :: int
  wl_networks :: "wifi_network list"

definition zero_wifi_networks :: wifi_networks where
  "zero_wifi_networks = \<lparr>wl_count = 0, wl_networks = []\<rparr>"

definition to_wifi_networks :: "(string \<Rightarrow> string) \<Rightarrow> wifi_networks json_target" where
  "to_wifi_networks fold_name c v =
     do { kvs \<leftarrow> json_members v;
          x0 \<leftarrow> struct_member fold_name ''count'' to_int (wl_count c) kvs;
          x1 \<leftarrow> struct_member fold_name ''networks'' (to_slice zero_wifi_network (to_wifi_network fold_name)) (wl_networks c) kvs;
          Some \<lparr>wl_count = x0, wl_networks = x1\<rparr> }"

subsection \<open>Types with one member, and those of other components\<close>

definition to_member :: "(string \<Rightarrow> string) \<Rightarrow> string \<Rightarrow> 'a json_target \<Rightarrow> 'a json_target" where
  "to_member fold_name name t x v = do { kvs \<leftarrow> json_members v; struct_member fold_name name t x kvs }"

definition to_account_backend :: "(string \<Rightarrow> string) \<Rightarrow> account_backend json_target" where
  "to_account_backend fold_name c v =
     do { kvs \<leftarrow> json_members v;
          u \<leftarrow> struct_member fold_name ''server_url'' to_string (ab_server_url c) kvs;
          k \<leftarrow> struct_member fold_name ''client_cert_type'' to_string (ab_client_cert_type c) kvs;
          i \<leftarrow> struct_member fold_name ''ignore_server_cert'' to_bool (ab_ignore_server_cert c) kvs;
          Some \<lparr>ab_server_url = u, ab_client_cert_type = k, ab_ignore_server_cert = i\<rparr> }"

definition zero_account_backend :: account_backend where
  "zero_account_backend = \<lparr>ab_server_url = [], ab_client_cert_type = [], ab_ignore_server_cert = False\<rparr>"

text \<open>A minted token embeds the stored one.\<close>

definition to_minted_token :: "(string \<Rightarrow> string) \<Rightarrow> (stored_token \<times> string) json_target" where
  "to_minted_token fold_name c v =
     do { stored \<leftarrow> to_stored_token fold_name (fst c) v;
          kvs \<leftarrow> json_members v;
          token \<leftarrow> struct_member fold_name ''token'' to_string (snd c) kvs;
          Some (stored, token) }"

record whole_status =
  ws_device :: device_status
  ws_firmware :: firmware_status
  ws_system :: system_status
  ws_power :: power_payload

definition zero_power_payload :: power_payload where
  "zero_power_payload = \<lparr>pp_state = [], pp_charge = 0, pp_voltage = 0, pp_current = 0, pp_usb = 0\<rparr>"

definition to_power_payload :: "(string \<Rightarrow> string) \<Rightarrow> power_payload json_target" where
  "to_power_payload fold_name c v =
     do { kvs \<leftarrow> json_members v;
          state \<leftarrow> struct_member fold_name ''state'' to_string (pp_state c) kvs;
          charge \<leftarrow> struct_member fold_name ''battery_charge'' to_int (pp_charge c) kvs;
          voltage \<leftarrow> struct_member fold_name ''battery_voltage'' to_int (pp_voltage c) kvs;
          current \<leftarrow> struct_member fold_name ''battery_current'' to_int (pp_current c) kvs;
          usb \<leftarrow> struct_member fold_name ''usb_voltage'' to_int (pp_usb c) kvs;
          Some \<lparr>pp_state = state, pp_charge = charge, pp_voltage = voltage, pp_current = current, pp_usb = usb\<rparr> }"

definition zero_whole_status :: whole_status where
  "zero_whole_status = \<lparr>ws_device = zero_device_status, ws_firmware = zero_firmware_status, ws_system = zero_system_status,
     ws_power = zero_power_payload\<rparr>"

definition to_whole_status :: "(string \<Rightarrow> string) \<Rightarrow> whole_status json_target" where
  "to_whole_status fold_name c v =
     do { kvs \<leftarrow> json_members v;
          d \<leftarrow> struct_member fold_name ''device'' (to_device_status fold_name) (ws_device c) kvs;
          f \<leftarrow> struct_member fold_name ''firmware'' (to_firmware_status fold_name) (ws_firmware c) kvs;
          s \<leftarrow> struct_member fold_name ''system'' (to_system_status fold_name) (ws_system c) kvs;
          p \<leftarrow> struct_member fold_name ''power'' (to_power_payload fold_name) (ws_power c) kvs;
          Some \<lparr>ws_device = d, ws_firmware = f, ws_system = s, ws_power = p\<rparr> }"

subsection \<open>Busy timers\<close>

definition zero_bar_settings :: bar_settings where
  "zero_bar_settings = \<lparr>bb_theme = [], bb_work_only = False, bb_smart_home = False\<rparr>"

definition to_bar_settings :: "(string \<Rightarrow> string) \<Rightarrow> bar_settings json_target" where
  "to_bar_settings fold_name c v =
     do { kvs \<leftarrow> json_members v;
          theme \<leftarrow> struct_member fold_name ''theme'' to_string (bb_theme c) kvs;
          w \<leftarrow> struct_member fold_name ''show_work_phase_only'' to_bool (bb_work_only c) kvs;
          s \<leftarrow> struct_member fold_name ''trigger_smart_home'' to_bool (bb_smart_home c) kvs;
          Some \<lparr>bb_theme = theme, bb_work_only = w, bb_smart_home = s\<rparr> }"

definition zero_interval_settings :: interval_settings where
  "zero_interval_settings = \<lparr>is_type = [], is_work = 0, is_rest = 0, is_cycles = 0, is_autostart = False\<rparr>"

definition to_interval_settings :: "(string \<Rightarrow> string) \<Rightarrow> interval_settings json_target" where
  "to_interval_settings fold_name c v =
     do { kvs \<leftarrow> json_members v;
          t \<leftarrow> struct_member fold_name ''type'' to_string (is_type c) kvs;
          w \<leftarrow> struct_member fold_name ''interval_work_ms'' to_int (is_work c) kvs;
          r \<leftarrow> struct_member fold_name ''interval_rest_ms'' to_int (is_rest c) kvs;
          n \<leftarrow> struct_member fold_name ''interval_work_cycles_count'' to_int (is_cycles c) kvs;
          a \<leftarrow> struct_member fold_name ''is_autostart_enabled'' to_bool (is_autostart c) kvs;
          Some \<lparr>is_type = t, is_work = w, is_rest = r, is_cycles = n, is_autostart = a\<rparr> }"

definition zero_busy_snapshot :: busy_snapshot where
  "zero_busy_snapshot = \<lparr>sd_type = [], sd_card = [], sd_time_left = None, sd_paused = None, sd_current = None,
     sd_interval_total = None, sd_interval_left = None, sd_interval = None, sd_bar = zero_bar_settings\<rparr>"

definition to_busy_data :: "(string \<Rightarrow> string) \<Rightarrow> busy_snapshot json_target" where
  "to_busy_data fold_name c v =
     do { kvs \<leftarrow> json_members v;
          t \<leftarrow> struct_member fold_name ''type'' to_string (sd_type c) kvs;
          card \<leftarrow> struct_member fold_name ''card_id'' to_string (sd_card c) kvs;
          left \<leftarrow> struct_member fold_name ''time_left_ms'' (to_pointer 0 to_int) (sd_time_left c) kvs;
          paused \<leftarrow> struct_member fold_name ''is_paused'' (to_pointer False to_bool) (sd_paused c) kvs;
          current \<leftarrow> struct_member fold_name ''current_interval'' (to_pointer 0 to_int) (sd_current c) kvs;
          total \<leftarrow> struct_member fold_name ''current_interval_time_total_ms'' (to_pointer 0 to_int) (sd_interval_total c) kvs;
          rest \<leftarrow> struct_member fold_name ''current_interval_time_left_ms'' (to_pointer 0 to_int) (sd_interval_left c) kvs;
          interval \<leftarrow> struct_member fold_name ''interval_settings''
            (to_pointer zero_interval_settings (to_interval_settings fold_name)) (sd_interval c) kvs;
          bar \<leftarrow> struct_member fold_name ''busy_bar_settings'' (to_bar_settings fold_name) (sd_bar c) kvs;
          Some \<lparr>sd_type = t, sd_card = card, sd_time_left = left, sd_paused = paused, sd_current = current,
                sd_interval_total = total, sd_interval_left = rest, sd_interval = interval, sd_bar = bar\<rparr> }"

definition to_busy_snapshot :: "(string \<Rightarrow> string) \<Rightarrow> (busy_snapshot \<times> int) json_target" where
  "to_busy_snapshot fold_name c v =
     do { kvs \<leftarrow> json_members v;
          d \<leftarrow> struct_member fold_name ''snapshot'' (to_busy_data fold_name) (fst c) kvs;
          t \<leftarrow> struct_member fold_name ''snapshot_timestamp_ms'' to_int (snd c) kvs;
          Some (d, t) }"

definition zero_timer_settings :: timer_settings where
  "zero_timer_settings = \<lparr>ts_type = [], ts_total = None, ts_work = None, ts_rest = None, ts_cycles = None, ts_autostart = None\<rparr>"

definition to_timer_settings :: "(string \<Rightarrow> string) \<Rightarrow> timer_settings json_target" where
  "to_timer_settings fold_name c v =
     do { kvs \<leftarrow> json_members v;
          t \<leftarrow> struct_member fold_name ''type'' to_string (ts_type c) kvs;
          total \<leftarrow> struct_member fold_name ''total_time_ms'' (to_pointer 0 to_int) (ts_total c) kvs;
          w \<leftarrow> struct_member fold_name ''interval_work_ms'' (to_pointer 0 to_int) (ts_work c) kvs;
          r \<leftarrow> struct_member fold_name ''interval_rest_ms'' (to_pointer 0 to_int) (ts_rest c) kvs;
          n \<leftarrow> struct_member fold_name ''interval_work_cycles_count'' (to_pointer 0 to_int) (ts_cycles c) kvs;
          a \<leftarrow> struct_member fold_name ''is_autostart_enabled'' (to_pointer False to_bool) (ts_autostart c) kvs;
          Some \<lparr>ts_type = t, ts_total = total, ts_work = w, ts_rest = r, ts_cycles = n, ts_autostart = a\<rparr> }"

definition zero_busy_profile :: busy_profile where
  "zero_busy_profile = \<lparr>bp_sort_order = 0, bp_title = [], bp_id = [], bp_timer = zero_timer_settings, bp_bar = zero_bar_settings\<rparr>"

text \<open>The profile and its \<open>profile_timestamp_ms\<close>, which validation does not look at.\<close>

definition to_busy_profile :: "(string \<Rightarrow> string) \<Rightarrow> (busy_profile \<times> int) json_target" where
  "to_busy_profile fold_name c v =
     do { kvs \<leftarrow> json_members v;
          order \<leftarrow> struct_member fold_name ''sort_order'' to_int (bp_sort_order (fst c)) kvs;
          title \<leftarrow> struct_member fold_name ''title'' to_string (bp_title (fst c)) kvs;
          i \<leftarrow> struct_member fold_name ''id'' to_string (bp_id (fst c)) kvs;
          timer \<leftarrow> struct_member fold_name ''timer_settings'' (to_timer_settings fold_name) (bp_timer (fst c)) kvs;
          bar \<leftarrow> struct_member fold_name ''busy_bar_settings'' (to_bar_settings fold_name) (bp_bar (fst c)) kvs;
          t \<leftarrow> struct_member fold_name ''profile_timestamp_ms'' to_int (snd c) kvs;
          Some (\<lparr>bp_sort_order = order, bp_title = title, bp_id = i, bp_timer = timer, bp_bar = bar\<rparr>, t) }"

end
