(* ===== verification/BusyJson.thy ===== *)
theory BusyJson
  imports ResponseTypes
begin

text \<open>
  What \<open>json.Marshal\<close> makes of the busy snapshot and the busy profile (\<open>busy.go\<close>, the bodies of
  \<open>SetSnapshot\<close> and \<open>SetProfile\<close>), from the tags of their fields: empty strings and nil pointers marked
  \<open>omitempty\<close> are left out. \<open>coerce\<close> is the replacement of invalid UTF-8 in strings.
\<close>

section \<open>Marshalling\<close>

definition json_text :: "(string \<Rightarrow> string) \<Rightarrow> string \<Rightarrow> json" where
  "json_text coerce s = JStr (coerce s)"

definition omit_nil :: "string \<Rightarrow> ('a \<Rightarrow> json) \<Rightarrow> 'a option \<Rightarrow> (string \<times> json) list" where
  "omit_nil name f x = (case x of None \<Rightarrow> [] | Some y \<Rightarrow> [(name, f y)])"

definition omit_empty :: "string \<Rightarrow> (string \<Rightarrow> json) \<Rightarrow> string \<Rightarrow> (string \<times> json) list" where
  "omit_empty name f s = (if s = [] then [] else [(name, f s)])"

definition bar_json :: "(string \<Rightarrow> string) \<Rightarrow> bar_settings \<Rightarrow> json" where
  "bar_json coerce b =
     JObj [(''theme'', json_text coerce (bb_theme b)), (''show_work_phase_only'', JBool (bb_work_only b)),
           (''trigger_smart_home'', JBool (bb_smart_home b))]"

definition interval_json :: "(string \<Rightarrow> string) \<Rightarrow> interval_settings \<Rightarrow> json" where
  "interval_json coerce i =
     JObj [(''type'', json_text coerce (is_type i)), (''interval_work_ms'', JInt (is_work i)), (''interval_rest_ms'', JInt (is_rest i)),
           (''interval_work_cycles_count'', JInt (is_cycles i)), (''is_autostart_enabled'', JBool (is_autostart i))]"

definition snapshot_data_json :: "(string \<Rightarrow> string) \<Rightarrow> busy_snapshot \<Rightarrow> json" where
  "snapshot_data_json coerce s =
     JObj ((''type'', json_text coerce (sd_type s)) # omit_empty ''card_id'' (json_text coerce) (sd_card s)
       @ omit_nil ''time_left_ms'' JInt (sd_time_left s) @ omit_nil ''is_paused'' JBool (sd_paused s)
       @ omit_nil ''current_interval'' JInt (sd_current s)
       @ omit_nil ''current_interval_time_total_ms'' JInt (sd_interval_total s)
       @ omit_nil ''current_interval_time_left_ms'' JInt (sd_interval_left s)
       @ omit_nil ''interval_settings'' (interval_json coerce) (sd_interval s)
       @ [(''busy_bar_settings'', bar_json coerce (sd_bar s))])"

definition snapshot_json :: "(string \<Rightarrow> string) \<Rightarrow> busy_snapshot \<Rightarrow> int \<Rightarrow> json" where
  "snapshot_json coerce s t = JObj [(''snapshot'', snapshot_data_json coerce s), (''snapshot_timestamp_ms'', JInt t)]"

definition timer_json :: "(string \<Rightarrow> string) \<Rightarrow> timer_settings \<Rightarrow> json" where
  "timer_json coerce t =
     JObj ((''type'', json_text coerce (ts_type t)) # omit_nil ''total_time_ms'' JInt (ts_total t)
       @ omit_nil ''interval_work_ms'' JInt (ts_work t) @ omit_nil ''interval_rest_ms'' JInt (ts_rest t)
       @ omit_nil ''interval_work_cycles_count'' JInt (ts_cycles t) @ omit_nil ''is_autostart_enabled'' JBool (ts_autostart t))"

definition profile_json :: "(string \<Rightarrow> string) \<Rightarrow> busy_profile \<Rightarrow> int \<Rightarrow> json" where
  "profile_json coerce p t =
     JObj [(''sort_order'', JInt (bp_sort_order p)), (''title'', json_text coerce (bp_title p)), (''id'', json_text coerce (bp_id p)),
           (''timer_settings'', timer_json coerce (bp_timer p)), (''busy_bar_settings'', bar_json coerce (bp_bar p)),
           (''profile_timestamp_ms'', JInt t)]"

section \<open>Reading members back\<close>

text \<open>All member names of the two documents; the folding of \<open>encoding/json\<close> keeps them apart.\<close>

definition busy_members :: "string list" where
  "busy_members =
     [''theme'', ''show_work_phase_only'', ''trigger_smart_home'', ''type'', ''interval_work_ms'', ''interval_rest_ms'',
      ''interval_work_cycles_count'', ''is_autostart_enabled'', ''card_id'', ''time_left_ms'', ''is_paused'', ''current_interval'',
      ''current_interval_time_total_ms'', ''current_interval_time_left_ms'', ''interval_settings'', ''busy_bar_settings'',
      ''snapshot'', ''snapshot_timestamp_ms'', ''total_time_ms'', ''sort_order'', ''title'', ''id'', ''timer_settings'',
      ''profile_timestamp_ms'']"

lemma foldl_bind_None: "foldl (\<lambda>acc kv. Option.bind acc (f kv)) None kvs = None"
  by (induction kvs) auto

lemma struct_member_Nil [simp]: "struct_member fn name t x [] = Some x"
  by (simp add: struct_member_def)

lemma struct_member_Cons:
  "struct_member fn name t x ((k, v) # kvs) =
     (if fn k = fn name then Option.bind (t x v) (\<lambda>y. struct_member fn name t y kvs) else struct_member fn name t x kvs)"
  by (cases "t x v") (simp_all add: struct_member_def foldl_bind_None)

lemma struct_member_append:
  "struct_member fn name t x (kvs @ kvs') = Option.bind (struct_member fn name t x kvs) (\<lambda>y. struct_member fn name t y kvs')"
  by (induction kvs arbitrary: x) (auto simp: struct_member_Cons)

lemma struct_member_omit_nil:
  "struct_member fn name t x (omit_nil k f v) =
     (case v of None \<Rightarrow> Some x | Some y \<Rightarrow> if fn k = fn name then t x (f y) else Some x)"
  by (auto simp: omit_nil_def struct_member_Cons split: option.split)

lemma struct_member_omit_empty:
  "struct_member fn name t x (omit_empty k f s) = (if s \<noteq> [] \<and> fn k = fn name then t x (f s) else Some x)"
  by (simp add: omit_empty_def struct_member_Cons)

definition keeps_names :: "(string \<Rightarrow> string) \<Rightarrow> bool" where
  "keeps_names fn \<longleftrightarrow> inj_on fn (set busy_members)"

lemma keeps_names_eq:
  "keeps_names fn \<Longrightarrow> k \<in> set busy_members \<Longrightarrow> name \<in> set busy_members \<Longrightarrow> fn k = fn name \<longleftrightarrow> k = name"
  unfolding keeps_names_def by (rule inj_on_eq_iff)

definition int64 :: "int \<Rightarrow> bool" where
  "int64 n \<longleftrightarrow> - max_int64 - 1 \<le> n \<and> n \<le> max_int64"

lemma targets_back [simp]:
  "int64 n \<Longrightarrow> to_int x (JInt n) = Some n" "to_bool b' (JBool b) = Some b" "to_string s' (JStr s) = Some s"
  by (simp_all add: int64_def to_int_def to_bool_def to_string_def unmarshal_int_def)

lemma to_pointer_back: "v \<noteq> JNull \<Longrightarrow> to_pointer z t None v = map_option Some (t z v)"
  by (simp add: to_pointer_def)

section \<open>Round trip\<close>

definition text_kept :: "(string \<Rightarrow> string) \<Rightarrow> string \<Rightarrow> bool" where
  "text_kept coerce s \<longleftrightarrow> coerce s = s"

definition interval_fits :: "(string \<Rightarrow> bool) \<Rightarrow> interval_settings \<Rightarrow> bool" where
  "interval_fits ok i \<longleftrightarrow> ok (is_type i) \<and> int64 (is_work i) \<and> int64 (is_rest i) \<and> int64 (is_cycles i)"

definition snapshot_fits :: "(string \<Rightarrow> bool) \<Rightarrow> busy_snapshot \<Rightarrow> bool" where
  "snapshot_fits ok s \<longleftrightarrow> ok (sd_type s) \<and> ok (sd_card s) \<and> ok (bb_theme (sd_bar s))
     \<and> pred_option int64 (sd_time_left s) \<and> pred_option int64 (sd_current s) \<and> pred_option int64 (sd_interval_total s)
     \<and> pred_option int64 (sd_interval_left s) \<and> pred_option (interval_fits ok) (sd_interval s)"

definition profile_fits :: "(string \<Rightarrow> bool) \<Rightarrow> busy_profile \<Rightarrow> bool" where
  "profile_fits ok p \<longleftrightarrow> int64 (bp_sort_order p) \<and> ok (bp_title p) \<and> ok (bp_id p)
     \<and> ok (bb_theme (bp_bar p)) \<and> ok (ts_type (bp_timer p))
     \<and> pred_option int64 (ts_total (bp_timer p)) \<and> pred_option int64 (ts_work (bp_timer p))
     \<and> pred_option int64 (ts_rest (bp_timer p)) \<and> pred_option int64 (ts_cycles (bp_timer p))"

lemmas member_rules = json_members_def json_text_def struct_member_Cons struct_member_append struct_member_omit_nil
  struct_member_omit_empty text_kept_def

lemma busy_member_names:
  "list_all (\<lambda>k. k \<in> set busy_members) busy_members" by (simp add: list_all_iff)

lemma bar_back:
  assumes fn: "keeps_names fn" and "text_kept coerce (bb_theme b)"
  shows "to_bar_settings fn c (bar_json coerce b) = Some b"
  using assms(2)
  by (simp add: to_bar_settings_def bar_json_def member_rules keeps_names_eq [OF fn] busy_members_def)

lemma interval_back:
  assumes fn: "keeps_names fn" and "interval_fits (text_kept coerce) i"
  shows "to_interval_settings fn c (interval_json coerce i) = Some i"
  using assms(2)
  by (simp add: to_interval_settings_def interval_json_def interval_fits_def member_rules keeps_names_eq [OF fn] busy_members_def)

text \<open>The optional members, each read over the whole list.\<close>

lemma omit_other:
  "fn k \<noteq> fn name \<Longrightarrow> struct_member fn name t x (omit_nil k f v) = Some x"
  "fn k \<noteq> fn name \<Longrightarrow> struct_member fn name t x (omit_empty k g s) = Some x"
  by (simp_all add: struct_member_omit_nil struct_member_omit_empty split: option.split)

lemma omit_own:
  "pred_option int64 v \<Longrightarrow> struct_member fn k (to_pointer 0 to_int) None (omit_nil k JInt v) = Some v"
  "struct_member fn k (to_pointer False to_bool) None (omit_nil k JBool w) = Some w"
  "text_kept coerce s \<Longrightarrow> struct_member fn k to_string [] (omit_empty k (json_text coerce) s) = Some s"
  subgoal by (cases v) (simp_all add: struct_member_omit_nil to_pointer_back)
  subgoal by (cases w) (simp_all add: struct_member_omit_nil to_pointer_back)
  subgoal by (simp add: struct_member_omit_empty json_text_def text_kept_def)
  done

lemma omit_own_interval:
  assumes "keeps_names fn" and "pred_option (interval_fits (text_kept coerce)) v"
  shows "struct_member fn k (to_pointer zero_interval_settings (to_interval_settings fn)) None (omit_nil k (interval_json coerce) v) = Some v"
  using assms(2) interval_back [OF assms(1)]
  by (cases v) (auto simp: struct_member_omit_nil to_pointer_back interval_json_def)

lemma own_member: "struct_member fn k t x [(k, v)] = t x v"
  by (simp add: struct_member_Cons)

lemma struct_member_other: "fn k \<noteq> fn name \<Longrightarrow> struct_member fn name t x ((k, v) # kvs) = struct_member fn name t x kvs"
  by (simp add: struct_member_Cons)

lemma struct_member_own: "struct_member fn k t x ((k, v) # kvs) = Option.bind (t x v) (\<lambda>y. struct_member fn k t y kvs)"
  by (simp add: struct_member_Cons)

lemmas member_steps = json_members_def struct_member_append omit_other omit_own own_member struct_member_other struct_member_own

lemma timer_back:
  assumes fn: "keeps_names fn" and "text_kept coerce (ts_type t)" "pred_option int64 (ts_total t)" "pred_option int64 (ts_work t)"
    "pred_option int64 (ts_rest t)" "pred_option int64 (ts_cycles t)"
  shows "to_timer_settings fn zero_timer_settings (timer_json coerce t) = Some t"
  using assms(2-)
  by (simp add: to_timer_settings_def timer_json_def zero_timer_settings_def member_steps keeps_names_eq [OF fn] busy_members_def
      json_text_def text_kept_def)

lemma snapshot_data_back:
  assumes fn: "keeps_names fn" and fits: "snapshot_fits (text_kept coerce) s"
  shows "to_busy_data fn zero_busy_snapshot (snapshot_data_json coerce s) = Some s"
proof -
  have f: "text_kept coerce (sd_type s)" "text_kept coerce (sd_card s)" "text_kept coerce (bb_theme (sd_bar s))"
    "pred_option int64 (sd_time_left s)" "pred_option int64 (sd_current s)" "pred_option int64 (sd_interval_total s)"
    "pred_option int64 (sd_interval_left s)" "pred_option (interval_fits (text_kept coerce)) (sd_interval s)"
    using fits by (simp_all add: snapshot_fits_def)
  show ?thesis
    using f
    by (simp add: to_busy_data_def snapshot_data_json_def zero_busy_snapshot_def member_steps keeps_names_eq [OF fn] busy_members_def
        omit_own_interval [OF fn] bar_back [OF fn] json_text_def [of coerce "sd_type s"] text_kept_def [of coerce "sd_type s"])
qed

lemma snapshot_back:
  assumes "keeps_names fn" and "snapshot_fits (text_kept coerce) s" and "int64 t"
  shows "to_busy_snapshot fn (zero_busy_snapshot, 0) (snapshot_json coerce s t) = Some (s, t)"
  using assms(3)
  by (simp add: to_busy_snapshot_def snapshot_json_def member_steps keeps_names_eq [OF assms(1)] busy_members_def
      snapshot_data_back [OF assms(1,2)])

lemma profile_back:
  assumes fn: "keeps_names fn" and "profile_fits (text_kept coerce) p" and "int64 t"
  shows "to_busy_profile fn (zero_busy_profile, 0) (profile_json coerce p t) = Some (p, t)"
  using assms(2,3)
  by (simp add: to_busy_profile_def profile_json_def zero_busy_profile_def profile_fits_def member_steps keeps_names_eq [OF fn]
      busy_members_def bar_back [OF fn] timer_back [OF fn] json_text_def text_kept_def)

lemma busy_fits_mono:
  assumes "\<And>x. ok x \<Longrightarrow> ok' x"
  shows "snapshot_fits ok s \<Longrightarrow> snapshot_fits ok' s" and "profile_fits ok p \<Longrightarrow> profile_fits ok' p"
  using assms by (auto simp: snapshot_fits_def profile_fits_def interval_fits_def option.pred_set)

section \<open>Property\<close>


text \<open>A paused snapshot at zero, and a simple timer without autostart.\<close>

definition sample_busy :: busy_snapshot where
  "sample_busy = \<lparr>sd_type = ''SIMPLE'', sd_card = [], sd_time_left = Some 0, sd_paused = Some False, sd_current = None,
     sd_interval_total = None, sd_interval_left = None, sd_interval = None,
     sd_bar = \<lparr>bb_theme = ''dark'', bb_work_only = True, bb_smart_home = False\<rparr>\<rparr>"

definition sample_busy_profile :: busy_profile where
  "sample_busy_profile = \<lparr>bp_sort_order = 1, bp_title = ''Work'', bp_id = ''p'',
     bp_timer = \<lparr>ts_type = ''SIMPLE'', ts_total = Some 60000, ts_work = None, ts_rest = None, ts_cycles = None, ts_autostart = Some False\<rparr>,
     bp_bar = \<lparr>bb_theme = [], bb_work_only = False, bb_smart_home = True\<rparr>\<rparr>"

lemma sample_busy_fits:
  "keeps_names id" "int64 5" "snapshot_fits valid_utf8 sample_busy" "profile_fits valid_utf8 sample_busy_profile"
proof -
  have "valid_utf8 ''SIMPLE''" "valid_utf8 ''dark''" "valid_utf8 ''Work''" "valid_utf8 ''p''" "valid_utf8 []" by code_simp+
  then show "snapshot_fits valid_utf8 sample_busy" "profile_fits valid_utf8 sample_busy_profile"
    by (simp_all add: sample_busy_def sample_busy_profile_def snapshot_fits_def profile_fits_def int64_def)
  show "keeps_names id" "int64 5" by (simp_all add: keeps_names_def int64_def)
qed


end
