(* ===== verification/DisplayJson.thy ===== *)
theory DisplayJson
  imports BusyJson DisplayRequests "HOL-Library.Monad_Syntax"
begin

text \<open>
  The JSON of a display request: the \<open>MarshalJSON\<close> methods of \<open>display_elements.go\<close>, which put the type of
  the element before the members of its struct, and \<open>DisplayElements\<close> and \<open>ClearDisplayElementsRequest\<close>
  (\<open>display.go\<close>). A reader of the same structs
  gives every element back: nothing is lost or confused, and two elements with the same JSON are the same.
\<close>

section \<open>Marshalling\<close>

definition omit_zero :: "string \<Rightarrow> int \<Rightarrow> (string \<times> json) list" where
  "omit_zero name n = (if n = 0 then [] else [(name, JInt n)])"

definition omit_false :: "string \<Rightarrow> bool \<Rightarrow> (string \<times> json) list" where
  "omit_false name b = (if b then [(name, JBool b)] else [])"

definition omit_no_texts :: "(string \<Rightarrow> string) \<Rightarrow> string \<Rightarrow> string list \<Rightarrow> (string \<times> json) list" where
  "omit_no_texts coerce name xs = (if xs = [] then [] else [(name, JArr (map (json_text coerce) xs))])"

definition base_members :: "(string \<Rightarrow> string) \<Rightarrow> base_element \<Rightarrow> (string \<times> json) list" where
  "base_members coerce b =
     (''id'', json_text coerce (be_id b)) # omit_nil ''timeout'' JInt (be_timeout b)
     @ omit_empty ''display_until'' (json_text coerce) (be_until b) @ omit_nil ''x'' JInt (be_x b) @ omit_nil ''y'' JInt (be_y b)
     @ omit_nil ''z_index'' JInt (be_z b) @ omit_empty ''display'' (json_text coerce) (be_display b)
     @ omit_empty ''align'' (json_text coerce) (be_align b)"

definition text_members :: "(string \<Rightarrow> string) \<Rightarrow> text_element \<Rightarrow> (string \<times> json) list" where
  "text_members coerce e =
     base_members coerce (te_base e) @ (''text'', json_text coerce (te_text e)) # (''font'', json_text coerce (te_font e))
     # omit_empty ''color'' (json_text coerce) (te_color e) @ omit_zero ''width'' (te_width e) @ omit_zero ''scroll_rate'' (te_rate e)
     @ omit_zero ''scroll_start_delay'' (te_start_delay e) @ omit_zero ''scroll_repeat_delay'' (te_repeat_delay e)"

definition image_members :: "(string \<Rightarrow> string) \<Rightarrow> asset_element \<Rightarrow> (string \<times> json) list" where
  "image_members coerce e =
     base_members coerce (ae_base e) @ omit_empty ''path'' (json_text coerce) (ae_path e)
     @ omit_empty ''stock_path'' (json_text coerce) (ae_stock_path e) @ omit_nil ''opacity'' JInt (ae_opacity e)"

definition animation_members :: "(string \<Rightarrow> string) \<Rightarrow> asset_element \<Rightarrow> bool \<Rightarrow> bool \<Rightarrow> string \<Rightarrow> (string \<times> json) list" where
  "animation_members coerce e looped await sec =
     base_members coerce (ae_base e) @ omit_empty ''path'' (json_text coerce) (ae_path e)
     @ omit_empty ''stock_path'' (json_text coerce) (ae_stock_path e) @ omit_false ''loop'' looped
     @ omit_false ''await_previous_end'' await @ omit_empty ''section'' (json_text coerce) sec @ omit_nil ''opacity'' JInt (ae_opacity e)"

definition countdown_members :: "(string \<Rightarrow> string) \<Rightarrow> countdown_element \<Rightarrow> (string \<times> json) list" where
  "countdown_members coerce e =
     base_members coerce (ce_base e) @ (''timestamp'', json_text coerce (ce_timestamp e))
     # omit_empty ''color'' (json_text coerce) (ce_color e)
     @ [(''direction'', json_text coerce (ce_direction e)), (''show_hours'', json_text coerce (ce_show_hours e))]"

definition rectangle_members :: "(string \<Rightarrow> string) \<Rightarrow> rectangle_element \<Rightarrow> (string \<times> json) list" where
  "rectangle_members coerce e =
     base_members coerce (re_base e) @ (''width'', JInt (re_width e)) # (''height'', JInt (re_height e))
     # omit_zero ''radius'' (re_radius e) @ omit_empty ''fill'' (json_text coerce) (re_fill e)
     @ omit_no_texts coerce ''fill_colors'' (re_fill_colors e) @ omit_nil ''border_width'' JInt (re_border_width e)
     @ omit_empty ''border_color'' (json_text coerce) (re_border_color e)"

definition xpm_members :: "(string \<Rightarrow> string) \<Rightarrow> xpm_element \<Rightarrow> (string \<times> json) list" where
  "xpm_members coerce e =
     base_members coerce (xe_base e) @ (''data'', json_text coerce (xe_data e)) # omit_nil ''opacity'' JInt (xe_opacity e)"

text \<open>\<open>other\<close> is what \<open>json.Marshal\<close> makes of an element of another package.\<close>

fun element_json :: "(string \<Rightarrow> json) \<Rightarrow> (string \<Rightarrow> string) \<Rightarrow> display_element option \<Rightarrow> json" where
  "element_json other coerce None = JNull"
| "element_json other coerce (Some (TextElement e)) = JObj ((''type'', JStr ''text'') # text_members coerce e)"
| "element_json other coerce (Some (ImageElement e)) = JObj ((''type'', JStr ''image'') # image_members coerce e)"
| "element_json other coerce (Some (AnimationElement e looped await sec)) =
     JObj ((''type'', JStr ''animation'') # animation_members coerce e looped await sec)"
| "element_json other coerce (Some (CountdownElement e)) = JObj ((''type'', JStr ''countdown'') # countdown_members coerce e)"
| "element_json other coerce (Some (RectangleElement e)) = JObj ((''type'', JStr ''rectangle'') # rectangle_members coerce e)"
| "element_json other coerce (Some (XPMBitmapElement e)) = JObj ((''type'', JStr ''xpmbitmap'') # xpm_members coerce e)"
| "element_json other coerce (Some (OtherElement name)) = other name"

definition draw_json :: "(string \<Rightarrow> json) \<Rightarrow> (string \<Rightarrow> string) \<Rightarrow> display_request \<Rightarrow> json" where
  "draw_json other coerce r =
     JObj ((''application_name'', json_text coerce (dr_application r)) # omit_zero ''priority'' (dr_priority r)
       @ omit_empty ''led_notification_color'' (json_text coerce) (dr_led_color r)
       @ [(''elements'', JArr (map (element_json other coerce) (dr_elements r)))])"

definition clear_json :: "(string \<Rightarrow> string) \<Rightarrow> string list \<Rightarrow> json" where
  "clear_json coerce ids = JObj [(''element_ids'', JArr (map (json_text coerce) ids))]"

section \<open>Reading elements back\<close>

text \<open>The Go structs themselves as targets: what decoding into the type named by the \<open>type\<close> member gives.\<close>

definition display_members :: "string list" where
  "display_members =
     [''type'', ''id'', ''timeout'', ''display_until'', ''x'', ''y'', ''z_index'', ''display'', ''align'', ''text'', ''font'', ''color'', ''width'',
      ''scroll_rate'', ''scroll_start_delay'', ''scroll_repeat_delay'', ''path'', ''stock_path'', ''opacity'', ''loop'', ''await_previous_end'',
      ''section'', ''timestamp'', ''direction'', ''show_hours'', ''height'', ''radius'', ''fill'', ''fill_colors'', ''border_width'',
      ''border_color'', ''data'']"

definition base_names :: "string list" where
  "base_names = [''id'', ''timeout'', ''display_until'', ''x'', ''y'', ''z_index'', ''display'', ''align'']"

definition keeps_display_names :: "(string \<Rightarrow> string) \<Rightarrow> bool" where
  "keeps_display_names fn \<longleftrightarrow> inj_on fn (set display_members)"

lemma keeps_display_names_eq:
  "keeps_display_names fn \<Longrightarrow> k \<in> set display_members \<Longrightarrow> name \<in> set display_members \<Longrightarrow> fn k = fn name \<longleftrightarrow> k = name"
  unfolding keeps_display_names_def by (rule inj_on_eq_iff)

definition read_text :: "(string \<Rightarrow> string) \<Rightarrow> string \<Rightarrow> (string \<times> json) list \<Rightarrow> string option" where
  "read_text fn name kvs = struct_member fn name to_string [] kvs"

definition read_int :: "(string \<Rightarrow> string) \<Rightarrow> string \<Rightarrow> (string \<times> json) list \<Rightarrow> int option" where
  "read_int fn name kvs = struct_member fn name to_int 0 kvs"

definition read_pointer :: "(string \<Rightarrow> string) \<Rightarrow> string \<Rightarrow> (string \<times> json) list \<Rightarrow> int option option" where
  "read_pointer fn name kvs = struct_member fn name (to_pointer 0 to_int) None kvs"

definition read_flag :: "(string \<Rightarrow> string) \<Rightarrow> string \<Rightarrow> (string \<times> json) list \<Rightarrow> bool option" where
  "read_flag fn name kvs = struct_member fn name to_bool False kvs"

definition to_texts :: "string list json_target" where
  "to_texts xs v = (case v of JNull \<Rightarrow> Some [] | JArr vs \<Rightarrow> those (map (to_string []) vs) | _ \<Rightarrow> None)"

definition read_base :: "(string \<Rightarrow> string) \<Rightarrow> (string \<times> json) list \<Rightarrow> base_element option" where
  "read_base fn kvs =
     do { i \<leftarrow> read_text fn ''id'' kvs; t \<leftarrow> read_pointer fn ''timeout'' kvs; u \<leftarrow> read_text fn ''display_until'' kvs;
          x \<leftarrow> read_pointer fn ''x'' kvs; y \<leftarrow> read_pointer fn ''y'' kvs; z \<leftarrow> read_pointer fn ''z_index'' kvs;
          d \<leftarrow> read_text fn ''display'' kvs; a \<leftarrow> read_text fn ''align'' kvs;
          Some \<lparr>be_id = i, be_timeout = t, be_until = u, be_x = x, be_y = y, be_z = z, be_display = d, be_align = a\<rparr> }"

definition read_text_element :: "(string \<Rightarrow> string) \<Rightarrow> (string \<times> json) list \<Rightarrow> text_element option" where
  "read_text_element fn kvs =
     do { b \<leftarrow> read_base fn kvs; t \<leftarrow> read_text fn ''text'' kvs; f \<leftarrow> read_text fn ''font'' kvs; c \<leftarrow> read_text fn ''color'' kvs;
          w \<leftarrow> read_int fn ''width'' kvs; r \<leftarrow> read_int fn ''scroll_rate'' kvs; s \<leftarrow> read_int fn ''scroll_start_delay'' kvs;
          p \<leftarrow> read_int fn ''scroll_repeat_delay'' kvs;
          Some \<lparr>te_base = b, te_text = t, te_font = f, te_color = c, te_width = w, te_rate = r, te_start_delay = s, te_repeat_delay = p\<rparr> }"

definition read_asset :: "(string \<Rightarrow> string) \<Rightarrow> (string \<times> json) list \<Rightarrow> asset_element option" where
  "read_asset fn kvs =
     do { b \<leftarrow> read_base fn kvs; p \<leftarrow> read_text fn ''path'' kvs; s \<leftarrow> read_text fn ''stock_path'' kvs; q \<leftarrow> read_pointer fn ''opacity'' kvs;
          Some \<lparr>ae_base = b, ae_path = p, ae_stock_path = s, ae_opacity = q\<rparr> }"

definition read_countdown :: "(string \<Rightarrow> string) \<Rightarrow> (string \<times> json) list \<Rightarrow> countdown_element option" where
  "read_countdown fn kvs =
     do { b \<leftarrow> read_base fn kvs; t \<leftarrow> read_text fn ''timestamp'' kvs; c \<leftarrow> read_text fn ''color'' kvs;
          d \<leftarrow> read_text fn ''direction'' kvs; h \<leftarrow> read_text fn ''show_hours'' kvs;
          Some \<lparr>ce_base = b, ce_timestamp = t, ce_color = c, ce_direction = d, ce_show_hours = h\<rparr> }"

definition read_rectangle :: "(string \<Rightarrow> string) \<Rightarrow> (string \<times> json) list \<Rightarrow> rectangle_element option" where
  "read_rectangle fn kvs =
     do { b \<leftarrow> read_base fn kvs; w \<leftarrow> read_int fn ''width'' kvs; h \<leftarrow> read_int fn ''height'' kvs; r \<leftarrow> read_int fn ''radius'' kvs;
          f \<leftarrow> read_text fn ''fill'' kvs; cs \<leftarrow> struct_member fn ''fill_colors'' to_texts [] kvs;
          bw \<leftarrow> read_pointer fn ''border_width'' kvs; bc \<leftarrow> read_text fn ''border_color'' kvs;
          Some \<lparr>re_base = b, re_width = w, re_height = h, re_radius = r, re_fill = f, re_fill_colors = cs, re_border_width = bw,
                re_border_color = bc\<rparr> }"

definition read_xpm :: "(string \<Rightarrow> string) \<Rightarrow> (string \<times> json) list \<Rightarrow> xpm_element option" where
  "read_xpm fn kvs =
     do { b \<leftarrow> read_base fn kvs; d \<leftarrow> read_text fn ''data'' kvs; q \<leftarrow> read_pointer fn ''opacity'' kvs;
          Some \<lparr>xe_base = b, xe_data = d, xe_opacity = q\<rparr> }"

definition read_element :: "(string \<Rightarrow> string) \<Rightarrow> json \<Rightarrow> display_element option" where
  "read_element fn v =
     do { kvs \<leftarrow> json_members v; t \<leftarrow> read_text fn ''type'' kvs;
          if t = ''text'' then map_option TextElement (read_text_element fn kvs)
          else if t = ''image'' then map_option ImageElement (read_asset fn kvs)
          else if t = ''animation'' then
            do { e \<leftarrow> read_asset fn kvs; l \<leftarrow> read_flag fn ''loop'' kvs; w \<leftarrow> read_flag fn ''await_previous_end'' kvs;
                 s \<leftarrow> read_text fn ''section'' kvs; Some (AnimationElement e l w s) }
          else if t = ''countdown'' then map_option CountdownElement (read_countdown fn kvs)
          else if t = ''rectangle'' then map_option RectangleElement (read_rectangle fn kvs)
          else if t = ''xpmbitmap'' then map_option XPMBitmapElement (read_xpm fn kvs)
          else None }"

section \<open>Round trip\<close>

definition base_fits :: "(string \<Rightarrow> bool) \<Rightarrow> base_element \<Rightarrow> bool" where
  "base_fits ok b \<longleftrightarrow> ok (be_id b) \<and> ok (be_until b) \<and> ok (be_display b) \<and> ok (be_align b) \<and> pred_option int64 (be_timeout b)
     \<and> pred_option int64 (be_x b) \<and> pred_option int64 (be_y b) \<and> pred_option int64 (be_z b)"

definition asset_fits :: "(string \<Rightarrow> bool) \<Rightarrow> asset_element \<Rightarrow> bool" where
  "asset_fits ok e \<longleftrightarrow> base_fits ok (ae_base e) \<and> ok (ae_path e) \<and> ok (ae_stock_path e) \<and> pred_option int64 (ae_opacity e)"

fun element_fits :: "(string \<Rightarrow> bool) \<Rightarrow> display_element \<Rightarrow> bool" where
  "element_fits ok (TextElement e) \<longleftrightarrow>
     base_fits ok (te_base e) \<and> ok (te_text e) \<and> ok (te_font e) \<and> ok (te_color e) \<and> int64 (te_width e) \<and> int64 (te_rate e)
     \<and> int64 (te_start_delay e) \<and> int64 (te_repeat_delay e)"
| "element_fits ok (ImageElement e) \<longleftrightarrow> asset_fits ok e"
| "element_fits ok (AnimationElement e l w s) \<longleftrightarrow> asset_fits ok e \<and> ok s"
| "element_fits ok (CountdownElement e) \<longleftrightarrow>
     base_fits ok (ce_base e) \<and> ok (ce_timestamp e) \<and> ok (ce_color e) \<and> ok (ce_direction e) \<and> ok (ce_show_hours e)"
| "element_fits ok (RectangleElement e) \<longleftrightarrow>
     base_fits ok (re_base e) \<and> int64 (re_width e) \<and> int64 (re_height e) \<and> int64 (re_radius e) \<and> ok (re_fill e)
     \<and> list_all ok (re_fill_colors e) \<and> pred_option int64 (re_border_width e) \<and> ok (re_border_color e)"
| "element_fits ok (XPMBitmapElement e) \<longleftrightarrow> base_fits ok (xe_base e) \<and> ok (xe_data e) \<and> pred_option int64 (xe_opacity e)"
| "element_fits ok (OtherElement name) \<longleftrightarrow> False"

lemma omit_values:
  "fn k \<noteq> fn name \<Longrightarrow> struct_member fn name t x (omit_zero k n) = Some x"
  "fn k \<noteq> fn name \<Longrightarrow> struct_member fn name t x (omit_false k b) = Some x"
  "fn k \<noteq> fn name \<Longrightarrow> struct_member fn name t x (omit_no_texts coerce k ts) = Some x"
  "int64 n \<Longrightarrow> struct_member fn k to_int 0 (omit_zero k n) = Some n"
  "struct_member fn k to_bool False (omit_false k b) = Some b"
  by (simp_all add: omit_zero_def omit_false_def omit_no_texts_def struct_member_Cons)

lemma texts_back:
  "list_all (text_kept coerce) ts \<Longrightarrow> those (map (to_string []) (map (json_text coerce) ts)) = Some ts"
  by (induction ts) (simp_all add: json_text_def text_kept_def)

lemma omit_own_texts:
  "list_all (text_kept coerce) ts \<Longrightarrow> struct_member fn k to_texts [] (omit_no_texts coerce k ts) = Some ts"
  using texts_back [of coerce ts] by (simp add: omit_no_texts_def struct_member_Cons to_texts_def)

lemma text_value: "text_kept coerce s \<Longrightarrow> to_string x (json_text coerce s) = Some s"
  by (simp add: json_text_def text_kept_def)

lemmas reader_defs = read_text_def read_int_def read_pointer_def read_flag_def

lemma members_passed: "\<forall>kv \<in> set kvs. fn (fst kv) \<noteq> fn k \<Longrightarrow> struct_member fn k t x kvs = Some x"
  by (simp add: struct_member_def)

lemma base_member_name: "kv \<in> set (base_members coerce b) \<Longrightarrow> fst kv \<in> set base_names"
  by (auto simp: base_members_def omit_nil_def omit_empty_def base_names_def split: option.splits if_splits)

text \<open>The members of the base are read back past every other member, and are passed over by every other read.\<close>

lemma base_back:
  assumes fn: "keeps_display_names fn" and fits: "base_fits (text_kept coerce) b"
    and other: "\<forall>k \<in> set base_names. \<forall>kv \<in> set kvs. fn (fst kv) \<noteq> fn k"
  shows "read_base fn ((''type'', t) # base_members coerce b @ kvs) = Some b"
proof -
  have skip: "struct_member fn k tg y kvs = Some y" if "k \<in> set base_names" for k tg and y :: 'z
    using other that by (auto intro: members_passed)
  show ?thesis
    using fits
    by (simp add: read_base_def reader_defs base_fits_def base_members_def member_steps keeps_display_names_eq [OF fn]
        display_members_def text_value skip base_names_def)
qed

lemma base_passed:
  assumes fn: "keeps_display_names fn" and "k \<in> set display_members"
    and "k \<notin> set base_names"
  shows "struct_member fn k t x (base_members coerce b) = Some x"
proof (rule members_passed)
  show "\<forall>kv \<in> set (base_members coerce b). fn (fst kv) \<noteq> fn k"
  proof
    fix kv assume "kv \<in> set (base_members coerce b)"
    then have "fst kv \<in> set base_names" by (rule base_member_name)
    moreover from this have "fst kv \<in> set display_members" by (auto simp: base_names_def display_members_def)
    ultimately show "fn (fst kv) \<noteq> fn k" using keeps_display_names_eq [OF fn _ assms(2)] assms(3) by auto
  qed
qed

definition off_base :: "(string \<times> json) list \<Rightarrow> bool" where
  "off_base kvs \<longleftrightarrow> (\<forall>kv \<in> set kvs. fst kv \<in> set display_members \<and> fst kv \<notin> set base_names)"

lemma off_base_members:
  "off_base []"
  "off_base ((k, v) # kvs) \<longleftrightarrow> k \<in> set display_members \<and> k \<notin> set base_names \<and> off_base kvs"
  "off_base (kvs @ kvs') \<longleftrightarrow> off_base kvs \<and> off_base kvs'"
  "k \<in> set display_members \<Longrightarrow> k \<notin> set base_names \<Longrightarrow>
     off_base (omit_nil k f x) \<and> off_base (omit_empty k g s) \<and> off_base (omit_zero k n) \<and> off_base (omit_false k b)
     \<and> off_base (omit_no_texts coerce k ts)"
  by (auto simp: off_base_def omit_nil_def omit_empty_def omit_zero_def omit_false_def omit_no_texts_def split: option.split)

lemma base_back_off:
  assumes fn: "keeps_display_names fn" and "base_fits (text_kept coerce) b" and off: "off_base kvs"
  shows "read_base fn ((''type'', t) # base_members coerce b @ kvs) = Some b"
proof (rule base_back [OF fn assms(2)], intro ballI)
  fix k kv assume k: "k \<in> set base_names" and "kv \<in> set kvs"
  then have "fst kv \<in> set display_members" "fst kv \<noteq> k" using off by (auto simp: off_base_def)
  moreover have "k \<in> set display_members" using k by (auto simp: base_names_def display_members_def)
  ultimately show "fn (fst kv) \<noteq> fn k" by (simp add: keeps_display_names_eq [OF fn])
qed

lemmas element_steps = reader_defs member_steps omit_values omit_own_texts text_value

lemma text_back:
  assumes fn: "keeps_display_names fn" and "element_fits (text_kept coerce) (TextElement e)"
  shows "read_text_element fn ((''type'', t) # text_members coerce e) = Some e"
proof -
  have "read_base fn ((''type'', t) # text_members coerce e) = Some (te_base e)"
    unfolding text_members_def
    by (rule base_back_off [OF fn]) (use assms(2) in \<open>simp_all add: off_base_members display_members_def base_names_def\<close>)
  then show ?thesis
    using assms(2)
    by (simp add: read_text_element_def text_members_def element_steps base_passed [OF fn] keeps_display_names_eq [OF fn]
        display_members_def base_names_def)
qed

lemma asset_back:
  assumes fn: "keeps_display_names fn" and "asset_fits (text_kept coerce) e"
  shows "read_asset fn ((''type'', t) # image_members coerce e) = Some e"
    and "read_asset fn ((''type'', t) # animation_members coerce e l w s) = Some e"
proof -
  have base: "read_base fn ((''type'', t) # image_members coerce e) = Some (ae_base e)"
    "read_base fn ((''type'', t) # animation_members coerce e l w s) = Some (ae_base e)"
    unfolding image_members_def animation_members_def
    by (rule base_back_off [OF fn], use assms(2) in \<open>simp_all add: asset_fits_def off_base_members display_members_def base_names_def\<close>)+
  show "read_asset fn ((''type'', t) # image_members coerce e) = Some e"
    using assms(2) base(1)
    by (simp add: asset_fits_def read_asset_def image_members_def element_steps base_passed [OF fn] keeps_display_names_eq [OF fn]
        display_members_def base_names_def)
  show "read_asset fn ((''type'', t) # animation_members coerce e l w s) = Some e"
    using assms(2) base(2)
    by (simp add: asset_fits_def read_asset_def animation_members_def element_steps base_passed [OF fn] keeps_display_names_eq [OF fn]
        display_members_def base_names_def)
qed

lemma countdown_back:
  assumes fn: "keeps_display_names fn" and "element_fits (text_kept coerce) (CountdownElement e)"
  shows "read_countdown fn ((''type'', t) # countdown_members coerce e) = Some e"
proof -
  have "read_base fn ((''type'', t) # countdown_members coerce e) = Some (ce_base e)"
    unfolding countdown_members_def
    by (rule base_back_off [OF fn]) (use assms(2) in \<open>simp_all add: off_base_members display_members_def base_names_def\<close>)
  then show ?thesis
    using assms(2)
    by (simp add: read_countdown_def countdown_members_def element_steps base_passed [OF fn] keeps_display_names_eq [OF fn]
        display_members_def base_names_def)
qed

lemma rectangle_back:
  assumes fn: "keeps_display_names fn" and "element_fits (text_kept coerce) (RectangleElement e)"
  shows "read_rectangle fn ((''type'', t) # rectangle_members coerce e) = Some e"
proof -
  have "read_base fn ((''type'', t) # rectangle_members coerce e) = Some (re_base e)"
    unfolding rectangle_members_def
    by (rule base_back_off [OF fn]) (use assms(2) in \<open>simp_all add: off_base_members display_members_def base_names_def\<close>)
  then show ?thesis
    using assms(2)
    by (simp add: read_rectangle_def rectangle_members_def element_steps base_passed [OF fn] keeps_display_names_eq [OF fn]
        display_members_def base_names_def)
qed

lemma xpm_back:
  assumes fn: "keeps_display_names fn" and "element_fits (text_kept coerce) (XPMBitmapElement e)"
  shows "read_xpm fn ((''type'', t) # xpm_members coerce e) = Some e"
proof -
  have "read_base fn ((''type'', t) # xpm_members coerce e) = Some (xe_base e)"
    unfolding xpm_members_def
    by (rule base_back_off [OF fn]) (use assms(2) in \<open>simp_all add: off_base_members display_members_def base_names_def\<close>)
  then show ?thesis
    using assms(2)
    by (simp add: read_xpm_def xpm_members_def element_steps base_passed [OF fn] keeps_display_names_eq [OF fn]
        display_members_def base_names_def)
qed

lemma type_read:
  assumes fn: "keeps_display_names fn"
  shows "read_text fn ''type'' ((''type'', JStr t) # text_members coerce e1) = Some t"
    and "read_text fn ''type'' ((''type'', JStr t) # image_members coerce e2) = Some t"
    and "read_text fn ''type'' ((''type'', JStr t) # animation_members coerce e2 l w s) = Some t"
    and "read_text fn ''type'' ((''type'', JStr t) # countdown_members coerce e3) = Some t"
    and "read_text fn ''type'' ((''type'', JStr t) # rectangle_members coerce e4) = Some t"
    and "read_text fn ''type'' ((''type'', JStr t) # xpm_members coerce e5) = Some t"
  by (simp_all add: text_members_def image_members_def animation_members_def countdown_members_def rectangle_members_def xpm_members_def
      element_steps base_passed [OF fn] keeps_display_names_eq [OF fn] display_members_def base_names_def)

lemma animation_flags_back:
  assumes fn: "keeps_display_names fn" and "text_kept coerce s"
  shows "read_flag fn ''loop'' ((''type'', t) # animation_members coerce e l w s) = Some l"
    and "read_flag fn ''await_previous_end'' ((''type'', t) # animation_members coerce e l w s) = Some w"
    and "read_text fn ''section'' ((''type'', t) # animation_members coerce e l w s) = Some s"
  using assms(2)
  by (simp_all add: animation_members_def element_steps base_passed [OF fn] keeps_display_names_eq [OF fn] display_members_def base_names_def)

lemma read_object:
  "read_element fn (JObj kvs) = Option.bind (read_text fn ''type'' kvs) (\<lambda>t.
     if t = ''text'' then map_option TextElement (read_text_element fn kvs)
     else if t = ''image'' then map_option ImageElement (read_asset fn kvs)
     else if t = ''animation'' then
       do { e \<leftarrow> read_asset fn kvs; l \<leftarrow> read_flag fn ''loop'' kvs; w \<leftarrow> read_flag fn ''await_previous_end'' kvs;
            s \<leftarrow> read_text fn ''section'' kvs; Some (AnimationElement e l w s) }
     else if t = ''countdown'' then map_option CountdownElement (read_countdown fn kvs)
     else if t = ''rectangle'' then map_option RectangleElement (read_rectangle fn kvs)
     else if t = ''xpmbitmap'' then map_option XPMBitmapElement (read_xpm fn kvs)
     else None)"
  by (simp add: read_element_def json_members_def)

lemma element_back:
  assumes fn: "keeps_display_names fn" and fits: "element_fits (text_kept coerce) e"
  shows "read_element fn (element_json other coerce (Some e)) = Some e"
proof (cases e)
  case (TextElement x)
  then show ?thesis using text_back [OF fn] fits by (simp add: read_object type_read [OF fn])
next
  case (ImageElement x)
  then show ?thesis using asset_back(1) [OF fn] fits by (simp add: read_object type_read [OF fn])
next
  case (AnimationElement x l w s)
  then show ?thesis using asset_back(2) [OF fn] animation_flags_back [OF fn] fits by (simp add: read_object type_read [OF fn])
next
  case (CountdownElement x)
  then show ?thesis using countdown_back [OF fn] fits by (simp add: read_object type_read [OF fn])
next
  case (RectangleElement x)
  then show ?thesis using rectangle_back [OF fn] fits by (simp add: read_object type_read [OF fn])
next
  case (XPMBitmapElement x)
  then show ?thesis using xpm_back [OF fn] fits by (simp add: read_object type_read [OF fn])
next
  case (OtherElement name)
  then show ?thesis using fits by simp
qed

lemma draw_elements_back:
  assumes "keeps_display_names fn" and "list_all (element_fits (text_kept coerce)) es"
  shows "map (read_element fn \<circ> element_json other coerce) (map Some es) = map Some es"
  using assms(2) by (induction es) (simp_all add: element_back [OF assms(1)])

text \<open>Two elements with the same JSON are the same element.\<close>

lemma element_json_inj:
  assumes "keeps_display_names fn" and "element_fits (text_kept coerce) e" and "element_fits (text_kept coerce) e'"
    and "element_json other coerce (Some e) = element_json other coerce (Some e')"
  shows "e = e'"
proof -
  have "Some e = read_element fn (element_json other coerce (Some e))" by (rule element_back [OF assms(1,2), symmetric])
  also have "\<dots> = Some e'" unfolding assms(4) by (rule element_back [OF assms(1,3)])
  finally show ?thesis by (rule option.inject [THEN iffD1])
qed

end
