(* ===== verification/ServiceResults.thy ===== *)
theory ServiceResults
  imports ResponseTypes Services Execution
begin

text \<open>
  A whole service call: validation and request (from \<open>Services\<close>), \<open>Client.Do\<close> (\<open>request.go\<close>, over
  \<open>Request\<close> and \<open>Execution\<close>), and the decoding of the response by \<open>doJSON\<close>, \<open>doSuccess\<close>, \<open>doBytes\<close>
  (\<open>response.go\<close>), \<open>Screen\<close> (\<open>display.go\<close>) and \<open>ReadTo\<close> (\<open>storage.go\<close>). A result that comes with an error is
  not looked at.
\<close>

section \<open>Base64\<close>

text \<open>\<open>base64.StdEncoding.DecodeString\<close>: line ends are skipped, padding is required, the unused bits may be anything.\<close>

definition b64_alphabet :: "char list" where
  "b64_alphabet = ''ABCDEFGHIJKLMNOPQRSTUVWXYZabcdefghijklmnopqrstuvwxyz0123456789+/''"

definition b64_value :: "char \<Rightarrow> nat option" where
  "b64_value = map_of (zip b64_alphabet [0..<64])"

definition b64_byte :: "nat \<Rightarrow> byte" where
  "b64_byte n = of_nat (n mod 256)"

fun b64_quads :: "char list \<Rightarrow> bytes option" where
  "b64_quads [] = Some []"
| "b64_quads (a # b # c # d # rest) =
     (case (b64_value a, b64_value b) of
        (Some x, Some y) \<Rightarrow>
          if d = CHR ''='' then
            (if rest \<noteq> [] then None
             else if c = CHR ''='' then Some [b64_byte (4 * x + y div 16)]
             else case b64_value c of None \<Rightarrow> None
                  | Some z \<Rightarrow> Some [b64_byte (4 * x + y div 16), b64_byte (16 * y + z div 4)])
          else
            (case (b64_value c, b64_value d) of
               (Some z, Some w) \<Rightarrow>
                 map_option (\<lambda>bs. b64_byte (4 * x + y div 16) # b64_byte (16 * y + z div 4) # b64_byte (64 * z + w) # bs)
                   (b64_quads rest)
             | _ \<Rightarrow> None)
      | _ \<Rightarrow> None)"
| "b64_quads _ = None"

definition b64_decode :: "bytes \<Rightarrow> bytes option" where
  "b64_decode data = b64_quads (filter (\<lambda>c. c \<noteq> CHR 0x0A \<and> c \<noteq> CHR 0x0D) (body_string data))"

text \<open>The encoding of RFC 4648, as the reference.\<close>

definition b64_char :: "nat \<Rightarrow> char" where
  "b64_char n = b64_alphabet ! n"

fun b64_encode :: "bytes \<Rightarrow> char list" where
  "b64_encode [] = []"
| "b64_encode [a] = [b64_char (unat a div 4), b64_char (16 * (unat a mod 4)), CHR ''='', CHR ''='']"
| "b64_encode [a, b] =
     [b64_char (unat a div 4), b64_char (16 * (unat a mod 4) + unat b div 16), b64_char (4 * (unat b mod 16)), CHR ''='']"
| "b64_encode (a # b # c # rest) =
     b64_char (unat a div 4) # b64_char (16 * (unat a mod 4) + unat b div 16)
       # b64_char (4 * (unat b mod 16) + unat c div 64) # b64_char (unat c mod 64) # b64_encode rest"

lemma b64_alphabet_facts:
  "length b64_alphabet = 64" "distinct b64_alphabet"
  "CHR ''='' \<notin> set b64_alphabet" "CHR 0x0A \<notin> set b64_alphabet" "CHR 0x0D \<notin> set b64_alphabet"
  by (simp_all add: b64_alphabet_def)

lemma b64_char_value:
  assumes "n < 64"
  shows "b64_value (b64_char n) = Some n" and "b64_char n \<noteq> CHR ''=''" and "b64_char n \<noteq> CHR 0x0A" and "b64_char n \<noteq> CHR 0x0D"
proof -
  have "b64_char n \<in> set b64_alphabet" using assms by (simp add: b64_char_def b64_alphabet_facts(1))
  then show "b64_char n \<noteq> CHR ''=''" "b64_char n \<noteq> CHR 0x0A" "b64_char n \<noteq> CHR 0x0D"
    using b64_alphabet_facts(3-5) by auto
  show "b64_value (b64_char n) = Some n"
    unfolding b64_value_def b64_char_def
    using map_of_zip_nth [of b64_alphabet "[0..<64]" n] assms b64_alphabet_facts(1,2) by simp
qed

text \<open>What \<open>Screen\<close> decodes is what the device encoded.\<close>

lemma b64_joined:
  fixes a b c :: byte
  shows "b64_byte (unat a) = a" and "b64_byte (unat a + unat b div 16 div 16) = a" and "b64_byte (unat b + 256 * k) = b"
    and "b64_byte (unat b + (256 * k + unat c div 64 div 4)) = b"
  using byte_bound [of a] byte_bound [of b] byte_bound [of c]
  by (simp_all add: b64_byte_def div_mult2_eq [symmetric])

lemma b64_sextets:
  fixes a b c :: byte
  shows "unat a div 4 < 64" "16 * (unat a mod 4) < 64" "16 * (unat a mod 4) + unat b div 16 < 64"
    "4 * (unat b mod 16) < 64" "4 * (unat b mod 16) + unat c div 64 < 64" "unat c mod 64 < 64"
proof -
  have d: "unat a div 4 < 64" "unat b div 16 < 16" "unat c div 64 < 4"
    using byte_bound [of a] byte_bound [of b] byte_bound [of c] by (simp_all add: less_mult_imp_div_less)
  have m: "unat a mod 4 < 4" "unat b mod 16 < 16" "unat c mod 64 < 64" by simp_all
  show "unat a div 4 < 64" "16 * (unat a mod 4) < 64" "16 * (unat a mod 4) + unat b div 16 < 64"
    "4 * (unat b mod 16) < 64" "4 * (unat b mod 16) + unat c div 64 < 64" "unat c mod 64 < 64"
    using d m by linarith+
qed

lemma b64_quads_encode: "b64_quads (b64_encode bs) = Some bs"
  by (induction bs rule: b64_encode.induct) (simp_all add: b64_char_value b64_sextets b64_joined)

section \<open>Calls\<close>

text \<open>What a call gives: nothing, bytes, or a value of its result type.\<close>

datatype api_result =
    NoResult
  | BytesResult bytes
  | TextResult string \<comment> \<open>the types with one string member\<close>
  | IntResult int
  | BoolResult bool
  | AccountLinkResult account_link
  | AccountInfoResult account_info
  | AccountBackendResult account_backend
  | BleResult string string
  | BusySnapshotResult busy_snapshot int
  | BusyProfileResult busy_profile int
  | HTTPAccessResult http_access_info
  | TokensResult "stored_token list"
  | MintedTokenResult stored_token string
  | PairingInfoResult pairing_info
  | PairingPayloadResult pairing_payload
  | StorageListResult "storage_element list"
  | StorageStatusResult storage_space
  | StatusResult whole_status
  | DeviceStatusResult device_status
  | FirmwareStatusResult firmware_status
  | SystemStatusResult system_status
  | PowerStatusResult power_payload
  | LogDumpResult log_dump
  | TimezoneResult timezone_info
  | TimezonesResult "timezone_info list"
  | UpdateStatusResult update_status
  | AutoUpdateResult auto_update
  | WifiStatusResult wifi_payload
  | WifiNetworksResult wifi_networks

text \<open>
  \<open>json.Unmarshal\<close> of the response into the result variable of the call; the calls without a result
  decode a \<open>successResponse\<close>.
\<close>

definition text_member :: "(string \<Rightarrow> string) \<Rightarrow> string \<Rightarrow> json \<Rightarrow> api_result option" where
  "text_member fold_name name v = map_option TextResult (to_member fold_name name to_string [] v)"

definition success :: "(string \<Rightarrow> string) \<Rightarrow> json \<Rightarrow> api_result option" where
  "success fold_name v = map_option (\<lambda>r. NoResult) (to_member fold_name ''result'' to_string [] v)"

fun account_result :: "(string \<Rightarrow> string) \<Rightarrow> account_call \<Rightarrow> json \<Rightarrow> api_result option" where
  "account_result fn AccountStatus v = text_member fn ''status'' v"
| "account_result fn AccountInfo v = map_option AccountInfoResult (to_account_info fn zero_account_info v)"
| "account_result fn AccountLink v = map_option AccountLinkResult (to_account_link fn zero_account_link v)"
| "account_result fn AccountBackend v = map_option AccountBackendResult (to_account_backend fn zero_account_backend v)"
| "account_result fn (AccountSetBackend b) v = success fn v"
| "account_result fn AccountUnlink v = success fn v"

fun audio_result :: "(string \<Rightarrow> string) \<Rightarrow> audio_call \<Rightarrow> json \<Rightarrow> api_result option" where
  "audio_result fn AudioVolume v = map_option IntResult (to_member fn ''volume'' to_int 0 v)"
| "audio_result fn c v = success fn v"

fun ble_result :: "(string \<Rightarrow> string) \<Rightarrow> ble_call \<Rightarrow> json \<Rightarrow> api_result option" where
  "ble_result fn BleStatus v = map_option (\<lambda>(s, a). BleResult s a) (Option.bind (json_members v) (build_ble fn))"
| "ble_result fn c v = success fn v"

fun busy_result :: "(string \<Rightarrow> string) \<Rightarrow> busy_call \<Rightarrow> json \<Rightarrow> api_result option" where
  "busy_result fn BusySnapshot v = map_option (\<lambda>(s, t). BusySnapshotResult s t) (to_busy_snapshot fn (zero_busy_snapshot, 0) v)"
| "busy_result fn (BusyProfile slot) v = map_option (\<lambda>(p, t). BusyProfileResult p t) (to_busy_profile fn (zero_busy_profile, 0) v)"
| "busy_result fn c v = success fn v"

fun display_result :: "(string \<Rightarrow> string) \<Rightarrow> display_call \<Rightarrow> json \<Rightarrow> api_result option" where
  "display_result fn DisplayBrightness v = text_member fn ''value'' v"
| "display_result fn c v = success fn v"

fun settings_result :: "(string \<Rightarrow> string) \<Rightarrow> settings_call \<Rightarrow> json \<Rightarrow> api_result option" where
  "settings_result fn SettingsHTTPAccess v = map_option HTTPAccessResult (to_http_access_info fn zero_http_access_info v)"
| "settings_result fn SettingsAccessTokens v =
     map_option TokensResult (to_member fn ''tokens'' (to_slice zero_stored_token (to_stored_token fn)) [] v)"
| "settings_result fn (SettingsMintAccessToken name) v =
     map_option (\<lambda>(s, t). MintedTokenResult s t) (to_minted_token fn (zero_stored_token, []) v)"
| "settings_result fn SettingsName v = text_member fn ''name'' v"
| "settings_result fn c v = success fn v"

fun smart_home_result :: "(string \<Rightarrow> string) \<Rightarrow> smart_home_call \<Rightarrow> json \<Rightarrow> api_result option" where
  "smart_home_result fn SmartHomePairingStatus v = map_option PairingInfoResult (to_pairing_info fn zero_pairing_info v)"
| "smart_home_result fn SmartHomeStartPairing v = map_option PairingPayloadResult (to_pairing_payload fn zero_pairing_payload v)"
| "smart_home_result fn SmartHomeSwitchState v = map_option BoolResult (to_member fn ''state'' to_bool False v)"
| "smart_home_result fn c v = success fn v"

fun storage_result :: "(string \<Rightarrow> string) \<Rightarrow> storage_call \<Rightarrow> json \<Rightarrow> api_result option" where
  "storage_result fn (StorageList path) v =
     map_option StorageListResult (to_member fn ''list'' (to_slice zero_storage_element (to_storage_element fn)) [] v)"
| "storage_result fn StorageStatus v = map_option StorageStatusResult (to_storage_space fn zero_storage_space v)"
| "storage_result fn c v = success fn v"

fun system_result :: "(string \<Rightarrow> string) \<Rightarrow> system_call \<Rightarrow> json \<Rightarrow> api_result option" where
  "system_result fn SystemVersion v = text_member fn ''api_semver'' v"
| "system_result fn SystemStatusAll v = map_option StatusResult (to_whole_status fn zero_whole_status v)"
| "system_result fn SystemDeviceStatus v = map_option DeviceStatusResult (to_device_status fn zero_device_status v)"
| "system_result fn SystemFirmwareStatus v = map_option FirmwareStatusResult (to_firmware_status fn zero_firmware_status v)"
| "system_result fn SystemSystemStatus v = map_option SystemStatusResult (to_system_status fn zero_system_status v)"
| "system_result fn SystemPowerStatus v = map_option PowerStatusResult (to_power_payload fn zero_power_payload v)"
| "system_result fn SystemTransport v = text_member fn ''type'' v"
| "system_result fn (SystemDumpLog filename) v = map_option LogDumpResult (to_log_dump fn zero_log_dump v)"

fun time_result :: "(string \<Rightarrow> string) \<Rightarrow> time_call \<Rightarrow> json \<Rightarrow> api_result option" where
  "time_result fn TimeNow v = text_member fn ''timestamp'' v"
| "time_result fn TimeTimezone v = map_option TimezoneResult (to_timezone_info fn zero_timezone_info v)"
| "time_result fn TimeTimezones v =
     map_option TimezonesResult (to_member fn ''list'' (to_slice zero_timezone_info (to_timezone_info fn)) [] v)"
| "time_result fn c v = success fn v"

fun update_result :: "(string \<Rightarrow> string) \<Rightarrow> update_call \<Rightarrow> json \<Rightarrow> api_result option" where
  "update_result fn UpdateStatusNow v = map_option UpdateStatusResult (to_update_status fn zero_update_status v)"
| "update_result fn (UpdateChangelog version) v = text_member fn ''changelog'' v"
| "update_result fn UpdateAutoUpdate v = map_option AutoUpdateResult (to_auto_update fn zero_auto_update v)"
| "update_result fn c v = success fn v"

fun wifi_result :: "(string \<Rightarrow> string) \<Rightarrow> wifi_call \<Rightarrow> json \<Rightarrow> api_result option" where
  "wifi_result fn WifiStatus v = map_option WifiStatusResult (Option.bind (json_members v) (build_wifi fn))"
| "wifi_result fn WifiNetworks v = map_option WifiNetworksResult (to_wifi_networks fn zero_wifi_networks v)"
| "wifi_result fn c v = success fn v"

fun decode_answer :: "(string \<Rightarrow> string) \<Rightarrow> api_call \<Rightarrow> json \<Rightarrow> api_result option" where
  "decode_answer fn (AccountCall c) v = account_result fn c v"
| "decode_answer fn (AudioCall c) v = audio_result fn c v"
| "decode_answer fn (BleCall c) v = ble_result fn c v"
| "decode_answer fn (BusyCall c) v = busy_result fn c v"
| "decode_answer fn (DisplayCall c) v = display_result fn c v"
| "decode_answer fn (SettingsCall c) v = settings_result fn c v"
| "decode_answer fn (SmartHomeCall c) v = smart_home_result fn c v"
| "decode_answer fn (StorageCall c) v = storage_result fn c v"
| "decode_answer fn (SystemCall c) v = system_result fn c v"
| "decode_answer fn (TimeCall c) v = time_result fn c v"
| "decode_answer fn (UpdateCall c) v = update_result fn c v"
| "decode_answer fn (WifiCall c) v = wifi_result fn c v"
| "decode_answer fn (AssetsCall c) v = success fn v"
| "decode_answer fn (InputCall key) v = success fn v"

section \<open>Doing a request\<close>

record call_env =
  ce_services :: service_env
  ce_prepare :: prepare_env
  ce_exec :: exec_env
  ce_fold :: "string \<Rightarrow> string"
  ce_json_error :: "bytes \<Rightarrow> string" \<comment> \<open>the text of \<open>json.Unmarshal\<close>'s error\<close>
  ce_base64_error :: "bytes \<Rightarrow> string"
  ce_ctx_nil :: bool
  ce_version :: "string + string"
  ce_room :: "(nat \<times> string) option" \<comment> \<open>what the writer of \<open>ReadTo\<close> takes before it fails\<close>

definition json_valid_by :: "exec_env \<Rightarrow> bytes \<Rightarrow> bool" where
  "json_valid_by xe data = (case xe_parse xe data of None \<Rightarrow> False | Some _ \<Rightarrow> True)"

definition client_do :: "call_env \<Rightarrow> client \<Rightarrow> request \<Rightarrow> exec_state \<Rightarrow> (do_error + api_response) \<times> exec_state" where
  "client_do env cl rq st =
     (if ce_ctx_nil env then (Inl (DoValidation (mk_validation_error (rq_method rq) (rq_path rq) ''context must not be nil'' None)), st)
      else case prepare (ce_prepare env) cl rq of
        Inl e \<Rightarrow> (Inl (DoValidation e), st)
      | Inr p \<Rightarrow> do_prepared (ce_exec env) (json_valid_by (ce_exec env)) cl (ce_ctx_nil env) (ce_version env) (Some p) st)"

definition do_stream_to ::
  "call_env \<Rightarrow> client \<Rightarrow> request \<Rightarrow> bool \<Rightarrow> exec_state \<Rightarrow> ((do_error + api_response) \<times> int) \<times> exec_state"
where
  "do_stream_to env cl rq writer_nil st =
     (let err = (\<lambda>m. ((Inl (DoValidation (mk_validation_error (rq_method rq) (rq_path rq) m None)), 0), st))
      in if ce_ctx_nil env then err ''context must not be nil''
         else if writer_nil then err ''writer must not be nil''
         else case prepare (ce_prepare env) cl rq of
           Inl e \<Rightarrow> ((Inl (DoValidation e), 0), st)
         | Inr p \<Rightarrow> do_prepared_to (ce_exec env) (ce_room env) cl (ce_ctx_nil env) (ce_version env) (Some p) st)"

definition payload_error :: "(bytes \<Rightarrow> string) \<Rightarrow> string \<Rightarrow> string \<Rightarrow> api_response \<Rightarrow> do_error" where
  "payload_error show m p r =
     DoExec (ErrProtocol \<lparr>pe_method = m, pe_path = p, pe_request_id = rs_request_id r, pe_excerpt = excerpt (rs_body r),
                          pe_cause = show (rs_body r)\<rparr>)"

definition decode_json :: "call_env \<Rightarrow> (json \<Rightarrow> 'a option) \<Rightarrow> api_response \<Rightarrow> do_error + 'a" where
  "decode_json env target r =
     (case Option.bind (xe_parse (ce_exec env) (rs_body r)) target of
        None \<Rightarrow> Inl (payload_error (ce_json_error env) (rs_method r) (rs_path r) r)
      | Some x \<Rightarrow> Inr x)"

text \<open>What the methods of the services do with a response: \<open>doBytes\<close>, \<open>Screen\<close>, and \<open>doJSON\<close> for all others.\<close>

definition call_result :: "call_env \<Rightarrow> api_call \<Rightarrow> api_response \<Rightarrow> do_error + api_result" where
  "call_result env c r =
     (case c of
        StorageCall (StorageRead path) \<Rightarrow> Inr (BytesResult (rs_body r))
      | DisplayCall (DisplayScreen d) \<Rightarrow>
          (case b64_decode (rs_body r) of
             None \<Rightarrow> Inl (payload_error (ce_base64_error env) ''GET'' ''/api/screen'' r)
           | Some pixels \<Rightarrow> Inr (BytesResult pixels))
      | _ \<Rightarrow> decode_json env (decode_answer (ce_fold env) c) r)"

text \<open>\<open>ReadTo\<close> returns the bytes written also with an error.\<close>

definition read_to :: "call_env \<Rightarrow> client \<Rightarrow> string \<Rightarrow> bool \<Rightarrow> exec_state \<Rightarrow> (do_error option \<times> int) \<times> exec_state" where
  "read_to env cl path writer_nil st =
     (case storage_request (ce_services env) (StorageReadTo path writer_nil) of
        Inl e \<Rightarrow> ((Some (DoValidation e), 0), st)
      | Inr rq \<Rightarrow>
          (case do_stream_to env cl rq writer_nil st of
             ((Inl e, n), st') \<Rightarrow> ((Some e, n), st')
           | ((Inr _, n), st') \<Rightarrow> ((None, n), st')))"

definition call_service :: "call_env \<Rightarrow> client \<Rightarrow> api_call \<Rightarrow> exec_state \<Rightarrow> (do_error + api_result) \<times> exec_state" where
  "call_service env cl c st =
     (case c of
        StorageCall (StorageReadTo path writer_nil) \<Rightarrow>
          (case read_to env cl path writer_nil st of
             ((Some e, n), st') \<Rightarrow> (Inl e, st')
           | ((None, n), st') \<Rightarrow> (Inr (IntResult n), st'))
      | _ \<Rightarrow>
          (case service_request (ce_services env) c of
             Inl e \<Rightarrow> (Inl (DoValidation e), st)
           | Inr rq \<Rightarrow>
               (case client_do env cl rq st of
                  (Inl e, st') \<Rightarrow> (Inl e, st')
                | (Inr r, st') \<Rightarrow> (call_result env c r, st'))))"

section \<open>What goes over the network\<close>

text \<open>The requests a prepared request sends carry its header but for the version.\<close>

definition same_sends :: "client \<Rightarrow> prepared_request \<Rightarrow> sent_request list \<Rightarrow> bool" where
  "same_sends cl p qs \<longleftrightarrow>
     int (length qs) \<le> (if is_safe_retry_method (pr_method p) then max 1 (rp_attempts (cl_retry cl)) + 1 else 2)
     \<and> list_all (\<lambda>q. same_but_version (sq_header q) (pr_header p) \<and> sq_source q = pb_source (pr_body p)) qs"

lemma prepared_execution_parts:
  "prepared_execution cl n ver (Some p) = Inr ex \<Longrightarrow>
     ex_method ex = pr_method p \<and> ex_path ex = pr_path p \<and> ex_body ex = pr_body p \<and> same_but_version (ex_header ex) (pr_header p)"
  by (auto simp: prepared_execution_def execution_copy_def Let_def same_but_version_set split: if_splits sum.splits)

lemma execute_same_sends:
  assumes "prepared_execution cl n ver (Some p) = Inr ex"
  shows "\<exists>qs. es_sent (snd (execute xe cl handle 0 False ex st)) = es_sent st @ qs \<and> same_sends cl p qs"
proof -
  obtain qs where qs: "es_sent (snd (execute xe cl handle 0 False ex st)) = es_sent st @ qs" "sends_ok xe cl ex 0 False qs"
    using execute_sends by blast
  note ex = prepared_execution_parts [OF assms]
  have "int (length qs) \<le> max_attempts cl ex + 1" using qs(2) max_attempts_pos [of cl ex] by (simp add: sends_ok_def)
  then have "int (length qs) \<le> (if is_safe_retry_method (pr_method p) then max 1 (rp_attempts (cl_retry cl)) + 1 else 2)"
    using max_attempts_one [of ex cl] max_attempts_le [of cl ex] ex by auto
  moreover have "same_but_version h (ex_header ex) \<Longrightarrow> same_but_version h (pr_header p)" for h
    using ex unfolding same_but_version_def by metis
  ultimately have "same_sends cl p qs" using qs(2) ex by (auto simp: same_sends_def sends_ok_def list_all_iff)
  with qs(1) show ?thesis by blast
qed

lemma same_sends_Nil [simp]: "same_sends cl p []"
  by (simp add: same_sends_def)

lemma do_prepared_sends:
  "\<exists>qs. es_sent (snd (do_prepared xe jv cl n ver (Some p) st)) = es_sent st @ qs \<and> same_sends cl p qs"
proof (cases "prepared_execution cl n ver (Some p)")
  case (Inr ex)
  then show ?thesis
    using execute_same_sends [OF Inr, of xe "read_buffered (xe_lower xe) jv" st]
    by (simp add: do_prepared_def split_beta Let_def)
qed (auto simp: do_prepared_def)

lemma do_prepared_to_sends:
  "\<exists>qs. es_sent (snd (do_prepared_to xe room cl n ver (Some p) st)) = es_sent st @ qs \<and> same_sends cl p qs"
proof (cases "prepared_execution cl n ver (Some p)")
  case (Inr ex)
  then show ?thesis
    using execute_same_sends [OF Inr, of xe "stream_response_to (xe_lower xe) room" st]
    by (simp add: do_prepared_to_def split_beta Let_def)
qed (auto simp: do_prepared_to_def)

text \<open>The token a prepared service request carries, and that the header of the caller is empty.\<close>

definition token_values :: "client \<Rightarrow> string list" where
  "token_values cl = (if cl_mode cl = EndpointLocal \<and> cl_token cl \<noteq> [] then [cl_token cl] else [])"

lemma service_request_header: "service_request senv c = Inr rq \<Longrightarrow> rq_header rq = []"
proof -
  assume "service_request senv c = Inr rq"
  then have "plain_request (refused_remotely c) rq" using service_planned [of c senv] by (simp add: planned_ok_def)
  then show ?thesis by (simp add: plain_request_def)
qed

lemma prepared_token:
  assumes "prepare ev cl rq = Inr p" and "rq_header rq = []"
  shows "h_values (pr_header p) ''X-Api-Token'' = token_values cl"
proof -
  obtain b where "pr_header p = request_header ev cl (rq_header rq) rq b" using prepare_result [OF assms(1)] by blast
  moreover have "h_values [] k = []" for k by (simp add: h_values_def)
  ultimately show ?thesis using assms(2) by (simp add: request_header_token token_values_def)
qed

lemma same_sends_token:
  assumes "same_sends cl p qs" and "h_values (pr_header p) ''X-Api-Token'' = ts"
  shows "list_all (\<lambda>q. h_values (sq_header q) ''X-Api-Token'' = ts) qs"
proof -
  have "h_values (sq_header q) ''X-Api-Token'' = ts" if "q \<in> set qs" for q
  proof -
    have "same_but_version (sq_header q) (pr_header p)" using assms(1) that by (auto simp: same_sends_def list_all_iff)
    then have "''X-Api-Token'' = ''X-Api-Sem-Ver'' \<or> h_values (sq_header q) ''X-Api-Token'' = h_values (pr_header p) ''X-Api-Token''"
      unfolding same_but_version_def by (rule spec)
    moreover have "''X-Api-Token'' \<noteq> ''X-Api-Sem-Ver''" by simp
    ultimately show ?thesis using assms(2) by (elim disjE) (simp_all only:)
  qed
  then show ?thesis by (simp add: list_all_iff)
qed

text \<open>What one call puts on the network.\<close>

definition call_sends :: "call_env \<Rightarrow> client \<Rightarrow> api_call \<Rightarrow> sent_request list \<Rightarrow> bool" where
  "call_sends env cl c qs \<longleftrightarrow>
     (case service_request (ce_services env) c of
        Inl _ \<Rightarrow> qs = []
      | Inr rq \<Rightarrow>
          int (length qs) \<le> (if rq_method rq = ''GET'' then max 1 (rp_attempts (cl_retry cl)) + 1 else 2)
          \<and> list_all (\<lambda>q. h_values (sq_header q) ''X-Api-Token'' = token_values cl) qs
          \<and> (qs = [] \<or> \<not> ce_ctx_nil env \<and> is_ok (prepare_request_body (ce_prepare env) rq)
               \<and> \<not> (cl_mode cl = EndpointRemote \<and> refused_remotely c)))"

lemma call_sends_prepared:
  assumes rq: "service_request (ce_services env) c = Inr rq" and p: "prepare (ce_prepare env) cl rq = Inr p"
    and qs: "same_sends cl p qs" and n: "\<not> ce_ctx_nil env"
  shows "call_sends env cl c qs"
proof -
  have r: "plain_request (refused_remotely c) rq" using service_planned [of c "ce_services env"] rq by (simp add: planned_ok_def)
  note pr = plain_request_prepare [OF r, of "ce_prepare env" cl]
  have m: "pr_method p = rq_method rq" using pr(2) [OF p] by simp
  have "rq_method rq \<in> {''GET'', ''POST'', ''PUT'', ''DELETE''}" using r by (simp add: plain_request_def)
  then have "is_safe_retry_method (pr_method p) \<longleftrightarrow> rq_method rq = ''GET''" unfolding m by (auto simp: is_safe_retry_method_def)
  moreover have "is_ok (prepare_request_body (ce_prepare env) rq) \<and> \<not> (cl_mode cl = EndpointRemote \<and> refused_remotely c)"
    using pr(1) p by simp
  moreover note same_sends_token [OF qs prepared_token [OF p service_request_header [OF rq]]]
  ultimately show ?thesis using rq qs n by (simp add: call_sends_def same_sends_def)
qed

lemma call_sends_Nil: "call_sends env cl c []"
  by (simp add: call_sends_def split: sum.split)

lemma client_do_sends:
  assumes "service_request (ce_services env) c = Inr rq"
  shows "\<exists>qs. es_sent (snd (client_do env cl rq st)) = es_sent st @ qs \<and> call_sends env cl c qs"
proof (cases "ce_ctx_nil env")
  case True
  then show ?thesis using call_sends_Nil by (auto simp: client_do_def)
next
  case False
  show ?thesis
  proof (cases "prepare (ce_prepare env) cl rq")
    case (Inl e)
    then show ?thesis using False call_sends_Nil by (auto simp: client_do_def)
  next
    case (Inr p)
    then show ?thesis
      using False do_prepared_sends [of "ce_exec env" "json_valid_by (ce_exec env)" cl False "ce_version env" p st]
        call_sends_prepared [OF assms Inr _ False] by (auto simp: client_do_def)
  qed
qed

lemma do_stream_to_sends:
  assumes "service_request (ce_services env) c = Inr rq"
  shows "\<exists>qs. es_sent (snd (do_stream_to env cl rq w st)) = es_sent st @ qs \<and> call_sends env cl c qs"
proof (cases "ce_ctx_nil env \<or> w")
  case True
  then show ?thesis using call_sends_Nil by (auto simp: do_stream_to_def)
next
  case False
  show ?thesis
  proof (cases "prepare (ce_prepare env) cl rq")
    case (Inl e)
    then show ?thesis using False call_sends_Nil by (auto simp: do_stream_to_def)
  next
    case (Inr p)
    then show ?thesis
      using False do_prepared_to_sends [of "ce_exec env" "ce_room env" cl False "ce_version env" p st]
        call_sends_prepared [OF assms Inr] by (auto simp: do_stream_to_def)
  qed
qed

definition reads_to :: "api_call \<Rightarrow> bool" where
  "reads_to c = (case c of StorageCall (StorageReadTo path w) \<Rightarrow> True | _ \<Rightarrow> False)"

lemma reads_to_iff: "reads_to c \<longleftrightarrow> (\<exists>path w. c = StorageCall (StorageReadTo path w))"
proof (cases c)
  case (StorageCall s)
  then show ?thesis by (cases s) (simp_all add: reads_to_def)
qed (simp_all add: reads_to_def)

lemma call_service_other:
  assumes "\<not> reads_to c"
  shows "call_service env cl c st =
     (case service_request (ce_services env) c of
        Inl e \<Rightarrow> (Inl (DoValidation e), st)
      | Inr rq \<Rightarrow>
          (case client_do env cl rq st of
             (Inl e, st') \<Rightarrow> (Inl e, st')
           | (Inr r, st') \<Rightarrow> (call_result env c r, st')))"
proof (cases c)
  case (StorageCall s)
  then show ?thesis using assms by (cases s) (auto simp add: call_service_def reads_to_def)
qed (auto simp add: call_service_def)

lemma call_service_read_to:
  "call_service env cl (StorageCall (StorageReadTo path w)) st =
     (case read_to env cl path w st of ((Some e, n), st') \<Rightarrow> (Inl e, st') | ((None, n), st') \<Rightarrow> (Inr (IntResult n), st'))"
  by (simp add: call_service_def)

lemma call_service_sends: "\<exists>qs. es_sent (snd (call_service env cl c st)) = es_sent st @ qs \<and> call_sends env cl c qs"
proof (cases "reads_to c")
  case True
  then obtain path w where c: "c = StorageCall (StorageReadTo path w)" using reads_to_iff by blast
  show ?thesis
  proof (cases "service_request (ce_services env) c")
    case (Inl e)
    then show ?thesis using call_sends_Nil unfolding c by (simp add: call_service_read_to read_to_def)
  next
    case (Inr rq)
    obtain r n st' where d: "do_stream_to env cl rq w st = ((r, n), st')" by (metis surj_pair)
    then have "snd (call_service env cl c st) = st'"
      using Inr unfolding c by (cases r) (simp_all add: call_service_read_to read_to_def)
    then show ?thesis using do_stream_to_sends [OF Inr, of cl w st] d by simp
  qed
next
  case False
  show ?thesis
  proof (cases "service_request (ce_services env) c")
    case (Inl e)
    then show ?thesis using call_sends_Nil by (simp add: call_service_other [OF False])
  next
    case (Inr rq)
    obtain r st' where d: "client_do env cl rq st = (r, st')" by (metis surj_pair)
    then have "snd (call_service env cl c st) = st'"
      using Inr by (cases r) (simp_all add: call_service_other [OF False])
    then show ?thesis using client_do_sends [OF Inr, of cl st] d by simp
  qed
qed

text \<open>A response is the last reply, complete and within the limit of the client.\<close>

definition from_reply :: "exec_env \<Rightarrow> client \<Rightarrow> api_response \<Rightarrow> bool" where
  "from_reply xe cl rs \<longleftrightarrow>
     (\<exists>j h reply. nt_send (xe_tries xe j) h = Inr reply \<and> hr_status reply < 400 \<and> rs_status rs = hr_status reply
        \<and> rs_body rs = rd_data (hr_body reply) \<and> rd_err (hr_body reply) = None \<and> hr_close reply = None
        \<and> int (length (rs_body rs)) \<le> cl_max_response cl)"

lemma client_do_reply:
  assumes "client_ok cl" and "client_do env cl rq st = (Inr rs, st')"
  shows "from_reply (ce_exec env) cl rs"
proof -
  let ?xe = "ce_exec env" and ?jv = "json_valid_by (ce_exec env)"
  obtain p where p: "\<not> ce_ctx_nil env" "do_prepared ?xe ?jv cl False (ce_version env) (Some p) st = (Inr rs, st')"
    using assms(2) by (auto simp: client_do_def split: if_splits sum.splits)
  note d = do_prepared_explained [OF assms(1), where ctx_nil = False and version = "ce_version env" and p = "Some p" and xe = ?xe
      and jv = ?jv and st = st]
  from d p(2) obtain ex where "prepared_execution cl False (ce_version env) (Some p) = Inr ex" by (auto split: sum.splits)
  with d p(2) obtain j ex' st1 sent r where s: "send_once ?xe ex' j st1 = (sent, st')" "Inr rs = map_sum DoExec id r"
      "explains ?xe ?jv cl ex' sent r" by auto
  then have r: "r = Inr rs" by (cases r) auto
  from s(3) obtain reply where reply: "sent = Inr reply" unfolding r explains_def by (cases sent) auto
  with s(1) have "nt_send (xe_tries ?xe j) (ex_header ex') = Inr reply"
    by (auto simp: send_once_def split: prod.splits sum.splits)
  with s(3) show ?thesis unfolding r reply explains_def from_reply_def
    by (intro exI [of _ j] exI [of _ "ex_header ex'"] exI [of _ reply]) auto
qed

section \<open>Property\<close>


text \<open>The brightness is read from a reply that arrives at the second try.\<close>

definition sample_call_env :: call_env where
  "sample_call_env =
     \<lparr>ce_services = \<lparr>se_json = Inr [], se_quote = id, se_time = (\<lambda>f t. False), se_order = wifi_addresses\<rparr>,
      ce_prepare = \<lparr>ev_upper = id, ev_lower = id, ev_stat = (\<lambda>p. Inl []), ev_generated = ''r''\<rparr>,
      ce_exec = sample_env\<lparr>xe_parse := (\<lambda>b. Some (JObj [(''value'', JStr ''auto'')]))\<rparr>,
      ce_fold = id, ce_json_error = (\<lambda>b. []), ce_base64_error = (\<lambda>b. []), ce_ctx_nil = False, ce_version = Inl [], ce_room = None\<rparr>"


end
