(* ===== verification/Contract.thy ===== *)
theory Contract
  imports Request
begin

text \<open>
  \<open>internal/api/contract.go\<close>: the recorded audit of the firmware's HTTP handlers, the validation
  of every part of it, the lookup of operations, and the loading of a contract file, with what each
  part of the validation accepts. The recorded contract itself is in \<open>ContractReceipt\<close>.
\<close>

section \<open>Messages\<close>

text \<open>
  A formatted message is kept as its parts: text, \<open>%q\<close>, \<open>%d\<close>, a list under \<open>%v\<close> and a wrapped
  error of the operating system, of git or of the JSON decoder.
\<close>

datatype 'x msg_part = Txt string | Quoted string | Num int | Listing "string list" | Wrapped 'x

type_synonym 'x err_message = "'x msg_part list"

section \<open>The data\<close>

record source_reference =
  src_file :: string
  src_symbol :: string

record api_operation =
  co_method :: string
  co_path :: string
  co_phase :: int
  co_file :: string
  co_symbol :: string

record status_stream_contract =
  css_path :: string
  css_access_key_query :: string
  css_api_semver_query :: string
  css_initial_control :: string
  css_snapshot_control :: string
  css_max_clients :: int
  css_frame_interval_ms :: int
  css_publisher_heartbeat_ms :: int
  css_client_heartbeat_ms :: int
  css_rate_max_packets :: int
  css_rate_period_ms :: int
  css_state_update_kinds :: int
  css_front_frames_only :: bool
  css_fatal_error_cause :: string
  css_references :: "source_reference list"

record frame_surface =
  cfs_screen :: int
  cfs_width :: int
  cfs_height :: int
  cfs_pixel_format :: string
  cfs_plain_bytes :: int
  cfs_wire_layout :: string
  cfs_rle_block_bytes :: int

record frame_contract =
  cfr_http_path :: string
  cfr_http_encoding :: string
  cfr_max_payload :: int
  cfr_emitted_encodings :: "string list"
  cfr_pixel_formats :: "string list"
  cfr_front :: frame_surface
  cfr_back :: frame_surface
  cfr_references :: "source_reference list"

record snapshot_http =
  csh_section :: string
  csh_path :: string
  csh_keys :: "string list"

record snapshot_contract =
  csn_http :: "snapshot_http list"
  csn_update_kinds :: "string list"
  csn_references :: "source_reference list"

record cli_command =
  ccm_name :: string
  ccm_mode :: string
  ccm_file :: string
  ccm_symbol :: string

record cli_contract =
  ccl_address :: string
  ccl_port :: int
  ccl_prompt :: string
  ccl_interrupt_byte :: int
  ccl_reboot :: string
  ccl_commands :: "cli_command list"
  ccl_references :: "source_reference list"

record image_contract =
  cim_format :: string
  cim_decoder :: string
  cim_front_width :: int
  cim_front_height :: int
  cim_back_width :: int
  cim_back_height :: int

record audio_contract =
  cau_header :: string
  cau_channels :: int
  cau_sample_rate :: int
  cau_bits :: int
  cau_byte_order :: string
  cau_extension :: string

record media_contract =
  cme_image :: image_contract
  cme_audio :: audio_contract
  cme_references :: "source_reference list"

record tools_contract =
  cot_cli :: cli_contract
  cot_media :: media_contract

record remote_http_contract =
  crh_request_topic :: string
  crh_local_host :: string
  crh_path_prefix :: string
  crh_timeout_ms :: int
  crh_request_qos :: int
  crh_response_qos :: int
  crh_invalid_status :: int
  crh_requires_response_topic :: bool
  crh_requires_correlation :: bool
  crh_echoes_correlation :: bool
  crh_blocked :: "string list"

record remote_stream_contract =
  crs_request_topic :: string
  crs_request_qos :: int
  crs_response_qos :: int
  crs_expiry_seconds :: int
  crs_frame_interval_ms :: int
  crs_queue_size :: int
  crs_empty_stops :: bool
  crs_nonempty_starts :: bool
  crs_snapshot_on_start :: bool
  crs_single_publisher :: bool
  crs_max_count_key :: string
  crs_interval_key :: string

record remote_contract =
  crm_mqtt_version :: int
  crm_api_version :: string
  crm_topic_pattern :: string
  crm_down :: string
  crm_up :: string
  crm_http :: remote_http_contract
  crm_stream :: remote_stream_contract
  crm_references :: "source_reference list"

record firmware_contract =
  ctr_repository :: string
  ctr_release :: string
  ctr_api_version :: string
  ctr_protobuf_commit :: string
  ctr_license :: string
  ctr_status_stream :: status_stream_contract
  ctr_frames :: frame_contract
  ctr_snapshots :: snapshot_contract
  ctr_tools :: tools_contract
  ctr_remote :: remote_contract
  ctr_operations :: "api_operation list"

definition ExpectedAPIVersion :: string where "ExpectedAPIVersion = ''27.5.0''"
definition ExpectedOperationCount :: nat where "ExpectedOperationCount = 72"
definition ExpectedSyncOperationCount :: int where "ExpectedSyncOperationCount = 71"
definition StreamPhase :: int where "StreamPhase = 6"
definition ExpectedStreamUpdateKinds :: int where "ExpectedStreamUpdateKinds = 15"

lemmas contract_consts =
  ExpectedAPIVersion_def ExpectedOperationCount_def ExpectedSyncOperationCount_def StreamPhase_def
  ExpectedStreamUpdateKinds_def

section \<open>Validation of the parts\<close>

definition reference_complete :: "source_reference \<Rightarrow> bool" where
  "reference_complete r \<longleftrightarrow> src_file r \<noteq> [] \<and> src_symbol r \<noteq> []"

definition validate_source_references :: "string \<Rightarrow> source_reference list \<Rightarrow> 'x err_message + unit" where
  "validate_source_references section_name rs =
     check_all (\<lambda>r. guard (src_file r = [] \<or> src_symbol r = [])
       [Txt section_name, Txt '' source provenance is incomplete'']) rs"

text \<open>\<open>if len(c.SourceReferences) != n\<close> and the loop after it, which end every part's validation.\<close>

definition validate_references :: "string \<Rightarrow> nat \<Rightarrow> source_reference list \<Rightarrow> 'x err_message + unit" where
  "validate_references section_name n rs =
     rbind (guard (length rs \<noteq> n)
        [Txt section_name, Txt '' source reference count = '', Num (int (length rs)), Txt '', want '', Num (int n)])
       (\<lambda>_. validate_source_references section_name rs)"

definition run_checks :: "('e + unit) list \<Rightarrow> 'e + unit" where
  "run_checks rs = check_all (\<lambda>r. r) rs"

definition validate_status_stream :: "status_stream_contract \<Rightarrow> 'x err_message + unit" where
  "validate_status_stream c = run_checks
     [guard (css_path c \<noteq> ''/api/status/ws'' \<or> css_access_key_query c \<noteq> ''x-api-token''
             \<or> css_api_semver_query c \<noteq> ''x-api-sem-ver'')
        [Txt ''status stream address or query contract is invalid''],
      guard (css_initial_control c \<noteq> ''{\"enable\":true,\"send\":\"all\"}''
             \<or> css_snapshot_control c \<noteq> ''{\"send\":\"all\"}'')
        [Txt ''status stream controls are invalid''],
      guard (css_max_clients c \<noteq> 4 \<or> css_frame_interval_ms c \<noteq> 100 \<or> css_publisher_heartbeat_ms c \<noteq> 991
             \<or> css_client_heartbeat_ms c \<noteq> 10000)
        [Txt ''status stream limits or timing are invalid''],
      guard (css_rate_max_packets c \<noteq> 11 \<or> css_rate_period_ms c \<noteq> 1000)
        [Txt ''status stream rate limit is invalid''],
      guard (css_state_update_kinds c \<noteq> ExpectedStreamUpdateKinds)
        [Txt ''status stream update kinds = '', Num (css_state_update_kinds c), Txt '', want '', Num ExpectedStreamUpdateKinds],
      guard (\<not> css_front_frames_only c \<or> css_fatal_error_cause c \<noteq> ''RESOURCE_LIMIT'')
        [Txt ''status stream frame or fatal-error contract is invalid''],
      validate_references ''status stream'' 4 (css_references c)]"

definition wantFront :: frame_surface where
  "wantFront = \<lparr>cfs_screen = 0, cfs_width = 72, cfs_height = 16, cfs_pixel_format = ''RGB888'',
     cfs_plain_bytes = 3456, cfs_wire_layout = ''BGR'', cfs_rle_block_bytes = 3\<rparr>"

definition wantBack :: frame_surface where
  "wantBack = \<lparr>cfs_screen = 1, cfs_width = 160, cfs_height = 80, cfs_pixel_format = ''L4'',
     cfs_plain_bytes = 6400, cfs_wire_layout = ''L4_LOW_NIBBLE_FIRST'', cfs_rle_block_bytes = 2\<rparr>"

definition validate_frames :: "frame_contract \<Rightarrow> 'x err_message + unit" where
  "validate_frames c = run_checks
     [guard (cfr_http_path c \<noteq> ''/api/screen'' \<or> cfr_http_encoding c \<noteq> ''base64'' \<or> cfr_max_payload c \<noteq> 16384)
        [Txt ''frame HTTP path or payload limit is invalid''],
      guard (cfr_emitted_encodings c \<noteq> [''PLAIN'', ''RUN_LENGTH''])
        [Txt ''firmware-emitted frame encodings are invalid''],
      guard (cfr_pixel_formats c \<noteq> [''RGB888'', ''L8'', ''L4''])
        [Txt ''frame protobuf pixel formats are invalid''],
      guard (cfr_front c \<noteq> wantFront \<or> cfr_back c \<noteq> wantBack)
        [Txt ''front or back frame contract is invalid''],
      validate_references ''frame'' 8 (cfr_references c)]"

definition wantHTTP :: "snapshot_http list" where
  "wantHTTP =
     [\<lparr>csh_section = ''name'', csh_path = ''/api/name'', csh_keys = [''name'']\<rparr>,
      \<lparr>csh_section = ''version'', csh_path = ''/api/version'', csh_keys = [''api_semver'']\<rparr>,
      \<lparr>csh_section = ''status'', csh_path = ''/api/status'', csh_keys = [''device'', ''firmware'', ''system'', ''power'']\<rparr>,
      \<lparr>csh_section = ''system'', csh_path = ''/api/status/system'',
       csh_keys = [''api_semver'', ''uptime'', ''boot_time'', ''auto_update_enabled'']\<rparr>,
      \<lparr>csh_section = ''power'', csh_path = ''/api/status/power'',
       csh_keys = [''state'', ''battery_charge'', ''battery_voltage'', ''battery_current'', ''usb_voltage'']\<rparr>,
      \<lparr>csh_section = ''time'', csh_path = ''/api/time'', csh_keys = [''timestamp'']\<rparr>,
      \<lparr>csh_section = ''wifi'', csh_path = ''/api/wifi/status'',
       csh_keys = [''state'', ''ssid'', ''bssid'', ''channel'', ''rssi'', ''security'', ''ip_config'']\<rparr>,
      \<lparr>csh_section = ''brightness'', csh_path = ''/api/display/brightness'', csh_keys = [''value'']\<rparr>,
      \<lparr>csh_section = ''audio_volume'', csh_path = ''/api/audio/volume'', csh_keys = [''volume'']\<rparr>,
      \<lparr>csh_section = ''ble'', csh_path = ''/api/ble/status'', csh_keys = [''status'', ''address'']\<rparr>,
      \<lparr>csh_section = ''storage'', csh_path = ''/api/storage/status'',
       csh_keys = [''used_bytes'', ''free_bytes'', ''total_bytes'']\<rparr>]"

definition wantKinds :: "string list" where
  "wantKinds =
     [''device_name'', ''power'', ''brightness'', ''audio_volume'', ''wifi'', ''update_state'', ''update_check'',
      ''timezone'', ''matter'', ''frame'', ''input'', ''timer'', ''ble'', ''auto_update_state'', ''timer_profiles'']"

text \<open>The loops that compare row by row; the lengths have been compared before.\<close>

fun check_rows :: "('a \<times> 'b \<Rightarrow> bool) \<Rightarrow> (nat \<Rightarrow> 'e) \<Rightarrow> nat \<Rightarrow> ('a \<times> 'b) list \<Rightarrow> 'e + unit" where
  "check_rows same err i [] = Inr ()"
| "check_rows same err i (row # rows) = rbind (guard (\<not> same row) (err i)) (\<lambda>_. check_rows same err (Suc i) rows)"

definition validate_snapshots :: "snapshot_contract \<Rightarrow> 'x err_message + unit" where
  "validate_snapshots c = run_checks
     [guard (length (csn_http c) \<noteq> length wantHTTP)
        [Txt ''snapshot HTTP section count = '', Num (int (length (csn_http c))), Txt '', want '', Num (int (length wantHTTP))],
      check_rows (\<lambda>(want, got). csh_section got = csh_section want \<and> csh_path got = csh_path want
                                \<and> csh_keys got = csh_keys want)
        (\<lambda>i. [Txt ''snapshot HTTP section '', Num (int i), Txt '' is invalid'']) 0 (zip wantHTTP (csn_http c)),
      guard (csn_update_kinds c \<noteq> wantKinds) [Txt ''snapshot state update kinds are invalid''],
      validate_references ''snapshot'' 10 (csn_references c)]"

definition wantCommands :: "(string \<times> string) list" where
  "wantCommands =
     [(''uptime'', ''buffered''), (''power'', ''buffered''), (''storage'', ''buffered''), (''update'', ''buffered''),
      (''input'', ''buffered''), (''loader'', ''buffered''), (''top'', ''stream''), (''free'', ''buffered''),
      (''free_blocks'', ''buffered''), (''log'', ''stream''), (''echo'', ''buffered''), (''device_info'', ''buffered''),
      (''date'', ''buffered''), (''timezone'', ''buffered''), (''matter'', ''buffered''), (''audio'', ''buffered''),
      (''display'', ''buffered''), (''sysctl'', ''buffered''), (''log_dump'', ''buffered'')]"

definition validate_cli :: "cli_contract \<Rightarrow> 'x err_message + unit" where
  "validate_cli c = run_checks
     [guard (ccl_address c \<noteq> ''10.0.4.20'' \<or> ccl_port c \<noteq> 23 \<or> ccl_prompt c \<noteq> ''>: '' \<or> ccl_interrupt_byte c \<noteq> 3)
        [Txt ''optional CLI transport contract is invalid''],
      guard (ccl_reboot c \<noteq> ''power reboot sw'') [Txt ''optional CLI reboot command is invalid''],
      guard (length (ccl_commands c) \<noteq> length wantCommands)
        [Txt ''optional CLI command count = '', Num (int (length (ccl_commands c))), Txt '', want '',
         Num (int (length wantCommands))],
      check_rows (\<lambda>((name, mode), command). ccm_name command = name \<and> ccm_mode command = mode
                                \<and> ccm_file command \<noteq> [] \<and> ccm_symbol command \<noteq> [])
        (\<lambda>i. [Txt ''optional CLI command '', Num (int i), Txt '' is invalid'']) 0 (zip wantCommands (ccl_commands c)),
      validate_references ''optional CLI'' 4 (ccl_references c)]"

definition wantImage :: image_contract where
  "wantImage = \<lparr>cim_format = ''PNG'', cim_decoder = ''LODEPNG'', cim_front_width = 72, cim_front_height = 16,
     cim_back_width = 160, cim_back_height = 80\<rparr>"

definition wantAudio :: audio_contract where
  "wantAudio = \<lparr>cau_header = ''none'', cau_channels = 1, cau_sample_rate = 44100, cau_bits = 16,
     cau_byte_order = ''little_endian'', cau_extension = ''.snd''\<rparr>"

definition validate_media :: "media_contract \<Rightarrow> 'x err_message + unit" where
  "validate_media c = run_checks
     [guard (cme_image c \<noteq> wantImage) [Txt ''optional image conversion contract is invalid''],
      guard (cme_audio c \<noteq> wantAudio) [Txt ''optional audio conversion contract is invalid''],
      validate_references ''optional media'' 4 (cme_references c)]"

definition validate_tools :: "tools_contract \<Rightarrow> 'x err_message + unit" where
  "validate_tools c = rbind (validate_cli (cot_cli c)) (\<lambda>_. validate_media (cot_media c))"

definition wantBlocked :: "string list" where
  "wantBlocked =
     [''POST /api/update'', ''DELETE /api/account'', ''POST /api/account/link'', ''PUT /api/account/backend'',
      ''POST /api/wifi/connect'', ''POST /api/wifi/disconnect'', ''GET /api/wifi/networks'']"

definition validate_remote :: "remote_contract \<Rightarrow> 'x err_message + unit" where
  "validate_remote c = run_checks
     [guard (crm_mqtt_version c \<noteq> 5 \<or> crm_api_version c \<noteq> ''v1''
             \<or> crm_topic_pattern c \<noteq> ''sessions/{session_id}/{direction}/v1/{topic}''
             \<or> crm_down c \<noteq> ''down'' \<or> crm_up c \<noteq> ''up'')
        [Txt ''remote MQTT routing contract is invalid''],
      (let h = crm_http c in
       guard (crh_request_topic h \<noteq> ''http-request'' \<or> crh_local_host h \<noteq> ''http://127.0.0.1''
              \<or> crh_path_prefix h \<noteq> ''/api/'' \<or> crh_timeout_ms h \<noteq> 5000 \<or> crh_request_qos h \<noteq> 2
              \<or> crh_response_qos h \<noteq> 1 \<or> crh_invalid_status h \<noteq> 422 \<or> \<not> crh_requires_response_topic h
              \<or> \<not> crh_requires_correlation h \<or> \<not> crh_echoes_correlation h \<or> crh_blocked h \<noteq> wantBlocked)
         [Txt ''remote HTTP contract is invalid'']),
      (let s = crm_stream c in
       guard (crs_request_topic s \<noteq> ''stream-request'' \<or> crs_request_qos s \<noteq> 1 \<or> crs_response_qos s \<noteq> 0
              \<or> crs_expiry_seconds s \<noteq> 60 \<or> crs_frame_interval_ms s \<noteq> 500 \<or> crs_queue_size s \<noteq> 4
              \<or> \<not> crs_empty_stops s \<or> \<not> crs_nonempty_starts s \<or> crs_snapshot_on_start s
              \<or> \<not> crs_single_publisher s \<or> crs_max_count_key s \<noteq> ''max_count''
              \<or> crs_interval_key s \<noteq> ''interval_s'')
         [Txt ''remote stream contract is invalid'']),
      validate_references ''remote'' 7 (crm_references c)]"

section \<open>Operations and the whole contract\<close>

definition contract_id :: "(string \<Rightarrow> string) \<Rightarrow> api_operation \<Rightarrow> string" where
  "contract_id um op = to_upper um (co_method op) @ '' '' @ co_path op"

fun find_operation :: "(string \<Rightarrow> string) \<Rightarrow> string \<Rightarrow> api_operation list \<Rightarrow> api_operation option" where
  "find_operation um ident [] = None"
| "find_operation um ident (op # ops) = (if contract_id um op = ident then Some op else find_operation um ident ops)"

definition contract_operation :: "(string \<Rightarrow> string) \<Rightarrow> firmware_contract \<Rightarrow> string \<Rightarrow> api_operation option" where
  "contract_operation um c ident = find_operation um ident (ctr_operations c)"

definition operation_ids :: "(string \<Rightarrow> string) \<Rightarrow> firmware_contract \<Rightarrow> string list" where
  "operation_ids um c = sort (map (contract_id um) (ctr_operations c))"

text \<open>The loop over the operations with the identifiers seen and the two counts.\<close>

fun check_operations ::
  "(string \<Rightarrow> string) \<Rightarrow> string set \<Rightarrow> int \<Rightarrow> int \<Rightarrow> api_operation list \<Rightarrow> 'x err_message + int \<times> int" where
  "check_operations um seen sync strm [] = Inr (sync, strm)"
| "check_operations um seen sync strm (op # ops) =
     (let ident = contract_id um op in
      if co_method op = [] \<or> co_path op = [] \<or> co_file op = [] \<or> co_symbol op = []
      then Inl [Txt ''operation '', Quoted ident, Txt '' has incomplete firmware provenance'']
      else if ident \<in> seen then Inl [Txt ''operation '', Quoted ident, Txt '' is duplicated'']
      else if co_phase op = 3 then check_operations um (insert ident seen) (sync + 1) strm ops
      else if co_phase op = StreamPhase then check_operations um (insert ident seen) sync (strm + 1) ops
      else Inl [Txt ''operation '', Quoted ident, Txt '' has unsupported owner phase '', Num (co_phase op)])"

definition validate_contract :: "(string \<Rightarrow> string) \<Rightarrow> firmware_contract \<Rightarrow> 'x err_message + unit" where
  "validate_contract um c =
     rbind (run_checks
       [guard (ctr_repository c = [] \<or> ctr_release c = [] \<or> ctr_protobuf_commit c = [])
          [Txt ''firmware provenance is incomplete''],
        guard (ctr_api_version c \<noteq> ExpectedAPIVersion)
          [Txt ''firmware API version = '', Quoted (ctr_api_version c), Txt '', want '', Quoted ExpectedAPIVersion],
        guard (length (ctr_operations c) \<noteq> ExpectedOperationCount)
          [Txt ''operation count = '', Num (int (length (ctr_operations c))), Txt '', want '', Num (int ExpectedOperationCount)],
        validate_status_stream (ctr_status_stream c),
        validate_frames (ctr_frames c),
        validate_snapshots (ctr_snapshots c),
        validate_tools (ctr_tools c),
        validate_remote (ctr_remote c)])
     (\<lambda>_. rbind (check_operations um {} 0 0 (ctr_operations c)) (\<lambda>(sync, strm). run_checks
       [guard (sync \<noteq> ExpectedSyncOperationCount)
          [Txt ''synchronous operation count = '', Num sync, Txt '', want '', Num ExpectedSyncOperationCount],
        guard (strm \<noteq> 1) [Txt ''stream operation count = '', Num strm, Txt '', want 1''],
        guard (case contract_operation um c ''GET /api/status/ws'' of
                 None \<Rightarrow> True | Some op \<Rightarrow> co_phase op \<noteq> StreamPhase)
          [Txt ''GET /api/status/ws must be owned by phase '', Num StreamPhase]]))"

text \<open>\<open>LoadContractFile\<close>: the file system and \<open>encoding/json\<close> are the two parameters.\<close>

definition load_contract_file ::
  "(string \<Rightarrow> string) \<Rightarrow> (string \<Rightarrow> 'x + bytes) \<Rightarrow> (bytes \<Rightarrow> 'x + firmware_contract) \<Rightarrow> string
    \<Rightarrow> 'x err_message + firmware_contract"
where
  "load_contract_file um read_file unmarshal path =
     rbind (map_sum (\<lambda>e. [Wrapped e]) id (read_file path)) (\<lambda>data.
     rbind (map_sum (\<lambda>e. [Wrapped e]) id (unmarshal data)) (\<lambda>c.
     rbind (validate_contract um c) (\<lambda>_. Inr c)))"

section \<open>What the validations accept\<close>

lemma run_checks_ok [simp]: "run_checks rs = Inr u \<longleftrightarrow> list_all (\<lambda>r. r = Inr ()) rs"
  by (simp add: run_checks_def check_all_ok list_all_iff)

declare check_rows.simps [simp del]

lemma validate_source_references_ok [simp]:
  "validate_source_references s rs = Inr u \<longleftrightarrow> list_all reference_complete rs"
  by (auto simp: validate_source_references_def check_all_ok reference_complete_def list_all_iff)

lemma validate_references_ok [simp]:
  "validate_references s n rs = Inr u \<longleftrightarrow> length rs = n \<and> list_all reference_complete rs"
  by (simp add: validate_references_def rbind_eq_Inr)

lemma check_rows_ok [simp]: "check_rows same err i rows = Inr u \<longleftrightarrow> list_all same rows"
  by (induction rows arbitrary: i) (auto simp: rbind_eq_Inr check_rows.simps)

lemma snapshot_rows:
  fixes got want :: "snapshot_http list"
  assumes "length got = length want"
  shows "list_all (\<lambda>(w, g). csh_section g = csh_section w \<and> csh_path g = csh_path w \<and> csh_keys g = csh_keys w)
           (zip want got) \<longleftrightarrow> got = want"
  using assms by (induction got want rule: list_induct2) auto

lemma command_rows:
  assumes "length got = length want"
  shows "list_all (\<lambda>((name, mode), c). ccm_name c = name \<and> ccm_mode c = mode \<and> ccm_file c \<noteq> [] \<and> ccm_symbol c \<noteq> [])
           (zip want got)
     \<longleftrightarrow> map (\<lambda>c. (ccm_name c, ccm_mode c)) got = want \<and> list_all (\<lambda>c. ccm_file c \<noteq> [] \<and> ccm_symbol c \<noteq> []) got"
  using assms by (induction got want rule: list_induct2) auto

lemma validate_snapshots_ok:
  "validate_snapshots c = Inr u \<longleftrightarrow>
     csn_http c = wantHTTP \<and> csn_update_kinds c = wantKinds
     \<and> length (csn_references c) = 10 \<and> list_all reference_complete (csn_references c)"
  by (auto simp: validate_snapshots_def snapshot_rows)

lemma validate_cli_ok:
  "validate_cli c = Inr u \<longleftrightarrow>
     ccl_address c = ''10.0.4.20'' \<and> ccl_port c = 23 \<and> ccl_prompt c = ''>: '' \<and> ccl_interrupt_byte c = 3
     \<and> ccl_reboot c = ''power reboot sw''
     \<and> map (\<lambda>m. (ccm_name m, ccm_mode m)) (ccl_commands c) = wantCommands
     \<and> list_all (\<lambda>m. ccm_file m \<noteq> [] \<and> ccm_symbol m \<noteq> []) (ccl_commands c)
     \<and> length (ccl_references c) = 4 \<and> list_all reference_complete (ccl_references c)"
  (is "_ \<longleftrightarrow> ?spec")
proof -
  have "map (\<lambda>m. (ccm_name m, ccm_mode m)) (ccl_commands c) = wantCommands \<Longrightarrow> length (ccl_commands c) = length wantCommands"
    by (metis length_map)
  then show ?thesis
    by (cases "length (ccl_commands c) = length wantCommands") (auto simp: validate_cli_def command_rows)
qed

section \<open>The operations\<close>

definition operation_complete :: "api_operation \<Rightarrow> bool" where
  "operation_complete op \<longleftrightarrow> co_method op \<noteq> [] \<and> co_path op \<noteq> [] \<and> co_file op \<noteq> [] \<and> co_symbol op \<noteq> []"

definition phase_count :: "int \<Rightarrow> api_operation list \<Rightarrow> int" where
  "phase_count p ops = int (length (filter (\<lambda>op. co_phase op = p) ops))"

lemma phase_count_simps [simp]:
  "phase_count p [] = 0"
  "phase_count p (op # ops) = (if co_phase op = p then 1 else 0) + phase_count p ops"
  by (simp_all add: phase_count_def)

lemma check_operations_ok:
  "check_operations um seen sync strm ops = Inr (sync', strm') \<longleftrightarrow>
     list_all (\<lambda>op. operation_complete op \<and> co_phase op \<in> {3, StreamPhase}) ops
     \<and> distinct (map (contract_id um) ops) \<and> set (map (contract_id um) ops) \<inter> seen = {}
     \<and> sync' = sync + phase_count 3 ops \<and> strm' = strm + phase_count StreamPhase ops"
proof (induction ops arbitrary: seen sync strm)
  case Nil
  then show ?case by auto
next
  case (Cons op ops)
  show ?case
    by (auto simp: Let_def Cons.IH operation_complete_def StreamPhase_def)
qed

lemma find_operation_Some:
  "find_operation um ident ops = Some op \<Longrightarrow> op \<in> set ops \<and> contract_id um op = ident"
  by (induction ops) (auto split: if_splits)

lemma find_operation_distinct:
  "distinct (map (contract_id um) ops) \<Longrightarrow>
     find_operation um ident ops = Some op \<longleftrightarrow> op \<in> set ops \<and> contract_id um op = ident"
  by (induction ops) (auto split: if_splits)

text \<open>What the loop and the three checks after it accept.\<close>

definition operations_ok :: "(string \<Rightarrow> string) \<Rightarrow> api_operation list \<Rightarrow> bool" where
  "operations_ok um ops \<longleftrightarrow>
     length ops = 72 \<and> distinct (map (contract_id um) ops) \<and> list_all operation_complete ops
     \<and> (\<exists>strm. filter (\<lambda>op. co_phase op \<noteq> 3) ops = [strm] \<and> co_phase strm = StreamPhase
            \<and> contract_id um strm = ''GET /api/status/ws'')"

lemma one_stream:
  assumes "list_all (\<lambda>op. co_phase op \<in> {3, StreamPhase}) ops" and "phase_count StreamPhase ops = 1"
  obtains strm where "filter (\<lambda>op. co_phase op \<noteq> 3) ops = [strm]" "co_phase strm = StreamPhase"
proof -
  have f: "filter (\<lambda>op. co_phase op \<noteq> 3) ops = filter (\<lambda>op. co_phase op = StreamPhase) ops"
    using assms(1) by (intro filter_cong) (auto simp: list_all_iff StreamPhase_def)
  have "length (filter (\<lambda>op. co_phase op = StreamPhase) ops) = 1"
    using assms(2) by (simp add: phase_count_def)
  then obtain strm where s: "filter (\<lambda>op. co_phase op = StreamPhase) ops = [strm]"
    by (auto simp: length_Suc_conv)
  then have "strm \<in> set (filter (\<lambda>op. co_phase op = StreamPhase) ops)" by (simp only: list.set(2) insertI1)
  then have "co_phase strm = StreamPhase" by simp
  then show thesis using that f s by simp
qed

lemma phase_counts_total:
  "list_all (\<lambda>op. co_phase op \<in> {3, StreamPhase}) ops \<Longrightarrow>
     phase_count 3 ops + phase_count StreamPhase ops = int (length ops)"
  by (induction ops) (auto simp: StreamPhase_def)

lemma operations_checked:
  assumes len: "length (ctr_operations c) = 72"
  shows "rbind (check_operations um {} 0 0 (ctr_operations c)) (\<lambda>(sync, strm). run_checks
       [guard (sync \<noteq> ExpectedSyncOperationCount) (e1 sync), guard (strm \<noteq> 1) (e2 strm),
        guard (case contract_operation um c ''GET /api/status/ws'' of
                 None \<Rightarrow> True | Some op \<Rightarrow> co_phase op \<noteq> StreamPhase) e3]) = Inr u
     \<longleftrightarrow> operations_ok um (ctr_operations c)"
  (is "?checked \<longleftrightarrow> _")
proof -
  let ?ops = "ctr_operations c" and ?ws = "''GET /api/status/ws''"
  let ?ph = "list_all (\<lambda>op. co_phase op \<in> {3, StreamPhase}) ?ops"
  have c: "?checked \<longleftrightarrow> list_all operation_complete ?ops \<and> ?ph \<and> distinct (map (contract_id um) ?ops)
       \<and> phase_count 3 ?ops = 71 \<and> phase_count StreamPhase ?ops = 1
       \<and> (\<exists>op. find_operation um ?ws ?ops = Some op \<and> co_phase op = StreamPhase)"
    by (auto simp: rbind_eq_Inr check_operations_ok contract_operation_def ExpectedSyncOperationCount_def
        list_all_iff split: option.splits)
  show ?thesis
  proof
    assume "?checked"
    with c have ph: "?ph" and d: "distinct (map (contract_id um) ?ops)" and one: "phase_count StreamPhase ?ops = 1"
      and cmp: "list_all operation_complete ?ops"
      and f: "\<exists>op. find_operation um ?ws ?ops = Some op \<and> co_phase op = StreamPhase" by auto
    from one_stream [OF ph one] obtain strm
      where s: "filter (\<lambda>op. co_phase op \<noteq> 3) ?ops = [strm]" "co_phase strm = StreamPhase" by auto
    from f obtain op where op: "op \<in> set ?ops" "contract_id um op = ?ws" "co_phase op = StreamPhase"
      using find_operation_Some by blast
    then have "op \<in> set (filter (\<lambda>op. co_phase op \<noteq> 3) ?ops)" by (simp add: StreamPhase_def)
    with s(1) op(2) have "contract_id um strm = ?ws" by simp
    with s len d cmp show "operations_ok um ?ops" by (auto simp: operations_ok_def)
  next
    assume "operations_ok um ?ops"
    then obtain strm where d: "distinct (map (contract_id um) ?ops)" and cmp: "list_all operation_complete ?ops"
      and s: "filter (\<lambda>op. co_phase op \<noteq> 3) ?ops = [strm]" "co_phase strm = StreamPhase" "contract_id um strm = ?ws"
      by (auto simp: operations_ok_def)
    have "co_phase op \<in> {3, StreamPhase}" if "op \<in> set ?ops" for op
    proof (cases "co_phase op = 3")
      case False
      with that have "op \<in> set (filter (\<lambda>op. co_phase op \<noteq> 3) ?ops)" by simp
      with s show ?thesis by simp
    qed simp
    then have ph: "?ph" by (auto simp: list_all_iff)
    have "filter (\<lambda>op. co_phase op = StreamPhase) ?ops = filter (\<lambda>op. co_phase op \<noteq> 3) ?ops"
      using ph by (intro filter_cong) (auto simp: list_all_iff StreamPhase_def)
    with s(1) have one: "phase_count StreamPhase ?ops = 1" by (simp add: phase_count_def)
    with phase_counts_total [OF ph] len have "phase_count 3 ?ops = 71" by simp
    moreover have "strm \<in> set (filter (\<lambda>op. co_phase op \<noteq> 3) ?ops)" using s(1) by simp
    then have "find_operation um ?ws ?ops = Some strm"
      using s(3) by (simp add: find_operation_distinct [OF d])
    ultimately show "?checked" using c ph one d cmp s(2) by auto
  qed
qed

text \<open>
  In a contract without duplicates every operation is found under its identifier, and the list of
  identifiers is strictly ordered.
\<close>

lemma contract_lookup:
  assumes "operations_ok um (ctr_operations c)"
  shows "contract_operation um c ident = Some op \<longleftrightarrow> op \<in> set (ctr_operations c) \<and> contract_id um op = ident"
    and "sorted_wrt (<) (operation_ids um c)"
    and "contract_operation um c ident \<noteq> None \<longleftrightarrow> ident \<in> set (operation_ids um c)"
proof -
  have d: "distinct (map (contract_id um) (ctr_operations c))" using assms by (simp add: operations_ok_def)
  show f: "contract_operation um c ident = Some op \<longleftrightarrow> op \<in> set (ctr_operations c) \<and> contract_id um op = ident" for op
    unfolding contract_operation_def by (rule find_operation_distinct [OF d])
  show "sorted_wrt (<) (operation_ids um c)"
    using d by (simp add: operation_ids_def strict_sorted_iff)
  show "contract_operation um c ident \<noteq> None \<longleftrightarrow> ident \<in> set (operation_ids um c)"
    using f by (auto simp: operation_ids_def)
qed

end
