(* ===== verification/ContractReceipt.thy ===== *)
theory ContractReceipt
  imports Contract
begin

text \<open>
  The recorded contract, \<open>internal/api/testdata/firmware-contract.json\<close>, as a value of the model,
  and its acceptance by \<open>Contract.Validate\<close>.
\<close>

section \<open>The recorded contract\<close>

definition recorded_status_stream :: "status_stream_contract" where
  "recorded_status_stream =
     \<lparr>css_path = ''/api/status/ws'', css_access_key_query = ''x-api-token'',
      css_api_semver_query = ''x-api-sem-ver'', css_initial_control = ''{\"enable\":true,\"send\":\"all\"}'',
      css_snapshot_control = ''{\"send\":\"all\"}'', css_max_clients = 4, css_frame_interval_ms = 100,
      css_publisher_heartbeat_ms = 991, css_client_heartbeat_ms = 10000, css_rate_max_packets = 11,
      css_rate_period_ms = 1000, css_state_update_kinds = 15, css_front_frames_only = True,
      css_fatal_error_cause = ''RESOURCE_LIMIT'',
      css_references = [\<lparr>src_file = ''applications/services/web_server/http_api/api_status_streaming.c'', src_symbol = ''http_api_status_ws_callback''\<rparr>,
       \<lparr>src_file = ''applications/services/web_server/http_api/api_root.c'', src_symbol = ''http_api_is_version_allowed''\<rparr>,
       \<lparr>src_file = ''applications/services/state_publisher/state_publisher.c'', src_symbol = ''state_publisher_send_complete_snapshot''\<rparr>,
       \<lparr>src_file = ''applications/services/state_publisher/subscriptions.c'', src_symbol = ''state_publisher_collect_all''\<rparr>]\<rparr>"

definition recorded_frames :: "frame_contract" where
  "recorded_frames =
     \<lparr>cfr_http_path = ''/api/screen'', cfr_http_encoding = ''base64'', cfr_max_payload = 16384,
      cfr_emitted_encodings = [''PLAIN'', ''RUN_LENGTH''], cfr_pixel_formats = [''RGB888'', ''L8'', ''L4''],
      cfr_front = \<lparr>cfs_screen = 0, cfs_width = 72, cfs_height = 16, cfs_pixel_format = ''RGB888'',
      cfs_plain_bytes = 3456, cfs_wire_layout = ''BGR'', cfs_rle_block_bytes = 3\<rparr>,
      cfr_back = \<lparr>cfs_screen = 1, cfs_width = 160, cfs_height = 80, cfs_pixel_format = ''L4'', cfs_plain_bytes = 6400,
      cfs_wire_layout = ''L4_LOW_NIBBLE_FIRST'', cfs_rle_block_bytes = 2\<rparr>,
      cfr_references = [\<lparr>src_file = ''applications/services/web_server/http_api/api_streaming.c'', src_symbol = ''http_api_streaming_single_frame_callback''\<rparr>,
       \<lparr>src_file = ''applications/services/state_publisher/screen_streamer.c'', src_symbol = ''frame_data_init''\<rparr>,
       \<lparr>src_file = ''applications/services/state_publisher/screen_streamer.c'', src_symbol = ''get_frame''\<rparr>,
       \<lparr>src_file = ''applications/services/state_publisher/subscriptions.c'', src_symbol = ''collect_frame''\<rparr>,
       \<lparr>src_file = ''lib/toolbox/color.c'', src_symbol = ''color_buf_l8_to_l4''\<rparr>,
       \<lparr>src_file = ''applications/services/front_display/front_display.h'', src_symbol = ''FRONT_DISPLAY_W''\<rparr>,
       \<lparr>src_file = ''applications/services/back_display/back_display.h'', src_symbol = ''BACK_DISPLAY_W''\<rparr>,
       \<lparr>src_file = ''applications/services/gui/modules/canvas.c'', src_symbol = ''lv_canvas_set_px_no_invalidate''\<rparr>]\<rparr>"

definition recorded_snapshots :: "snapshot_contract" where
  "recorded_snapshots =
     \<lparr>csn_http =
      [\<lparr>csh_section = ''name'', csh_path = ''/api/name'', csh_keys = [''name'']\<rparr>,
       \<lparr>csh_section = ''version'', csh_path = ''/api/version'', csh_keys = [''api_semver'']\<rparr>,
       \<lparr>csh_section = ''status'', csh_path = ''/api/status'',
      csh_keys = [''device'', ''firmware'', ''system'', ''power'']\<rparr>,
       \<lparr>csh_section = ''system'', csh_path = ''/api/status/system'',
      csh_keys = [''api_semver'', ''uptime'', ''boot_time'', ''auto_update_enabled'']\<rparr>,
       \<lparr>csh_section = ''power'', csh_path = ''/api/status/power'',
      csh_keys = [''state'', ''battery_charge'', ''battery_voltage'', ''battery_current'', ''usb_voltage'']\<rparr>,
       \<lparr>csh_section = ''time'', csh_path = ''/api/time'', csh_keys = [''timestamp'']\<rparr>,
       \<lparr>csh_section = ''wifi'', csh_path = ''/api/wifi/status'',
      csh_keys = [''state'', ''ssid'', ''bssid'', ''channel'', ''rssi'', ''security'', ''ip_config'']\<rparr>,
       \<lparr>csh_section = ''brightness'', csh_path = ''/api/display/brightness'', csh_keys = [''value'']\<rparr>,
       \<lparr>csh_section = ''audio_volume'', csh_path = ''/api/audio/volume'', csh_keys = [''volume'']\<rparr>,
       \<lparr>csh_section = ''ble'', csh_path = ''/api/ble/status'', csh_keys = [''status'', ''address'']\<rparr>,
       \<lparr>csh_section = ''storage'', csh_path = ''/api/storage/status'',
      csh_keys = [''used_bytes'', ''free_bytes'', ''total_bytes'']\<rparr>],
      csn_update_kinds = [''device_name'', ''power'', ''brightness'', ''audio_volume'', ''wifi'',
        ''update_state'', ''update_check'', ''timezone'', ''matter'', ''frame'',
        ''input'', ''timer'', ''ble'', ''auto_update_state'', ''timer_profiles''],
      csn_references = [\<lparr>src_file = ''applications/services/web_server/http_api/api_name.c'', src_symbol = ''http_api_name_callback''\<rparr>,
       \<lparr>src_file = ''applications/services/web_server/http_api/api_root.c'', src_symbol = ''http_api_root_callback''\<rparr>,
       \<lparr>src_file = ''applications/services/web_server/http_api/api_status.c'', src_symbol = ''http_api_status_callback''\<rparr>,
       \<lparr>src_file = ''applications/services/web_server/http_api/api_time.c'', src_symbol = ''http_api_time_callback''\<rparr>,
       \<lparr>src_file = ''applications/services/web_server/http_api/api_wifi.c'', src_symbol = ''http_api_wifi_callback''\<rparr>,
       \<lparr>src_file = ''applications/services/web_server/http_api/api_display.c'', src_symbol = ''http_api_display_callback''\<rparr>,
       \<lparr>src_file = ''applications/services/web_server/http_api/api_audio.c'', src_symbol = ''http_api_audio_callback''\<rparr>,
       \<lparr>src_file = ''applications/services/web_server/http_api/api_ble.c'', src_symbol = ''http_api_ble_callback''\<rparr>,
       \<lparr>src_file = ''applications/services/web_server/http_api/api_storage.c'', src_symbol = ''http_api_storage_callback''\<rparr>,
       \<lparr>src_file = ''applications/services/state_publisher/subscriptions.c'', src_symbol = ''state_publisher_collect_all''\<rparr>]\<rparr>"

definition recorded_cli :: "cli_contract" where
  "recorded_cli =
     \<lparr>ccl_address = ''10.0.4.20'', ccl_port = 23, ccl_prompt = ''>: '', ccl_interrupt_byte = 3,
      ccl_reboot = ''power reboot sw'',
      ccl_commands = 
      [\<lparr>ccm_name = ''uptime'', ccm_mode = ''buffered'', ccm_file = ''applications/services/cli_commands_common/application.fam'', ccm_symbol = ''cli_command_uptime''\<rparr>,
       \<lparr>ccm_name = ''power'', ccm_mode = ''buffered'', ccm_file = ''applications/services/power/application.fam'', ccm_symbol = ''power_cli_command''\<rparr>,
       \<lparr>ccm_name = ''storage'', ccm_mode = ''buffered'', ccm_file = ''applications/services/storage/application.fam'', ccm_symbol = ''storage_command''\<rparr>,
       \<lparr>ccm_name = ''update'', ccm_mode = ''buffered'', ccm_file = ''applications/system/updater/application.fam'', ccm_symbol = ''update_cli_command''\<rparr>,
       \<lparr>ccm_name = ''input'', ccm_mode = ''buffered'', ccm_file = ''applications/services/input/application.fam'', ccm_symbol = ''input_cli_command''\<rparr>,
       \<lparr>ccm_name = ''loader'', ccm_mode = ''buffered'', ccm_file = ''applications/services/loader/application.fam'', ccm_symbol = ''loader_cli_command''\<rparr>,
       \<lparr>ccm_name = ''top'', ccm_mode = ''stream'', ccm_file = ''applications/services/cli_commands_common/application.fam'', ccm_symbol = ''cli_command_top''\<rparr>,
       \<lparr>ccm_name = ''free'', ccm_mode = ''buffered'', ccm_file = ''applications/services/cli_commands_common/application.fam'', ccm_symbol = ''cli_command_free''\<rparr>,
       \<lparr>ccm_name = ''free_blocks'', ccm_mode = ''buffered'', ccm_file = ''applications/services/cli_commands_common/application.fam'', ccm_symbol = ''cli_command_free_blocks''\<rparr>,
       \<lparr>ccm_name = ''log'', ccm_mode = ''stream'', ccm_file = ''applications/services/cli_commands_common/application.fam'', ccm_symbol = ''cli_command_log''\<rparr>,
       \<lparr>ccm_name = ''echo'', ccm_mode = ''buffered'', ccm_file = ''applications/services/cli_commands_common/application.fam'', ccm_symbol = ''cli_command_echo''\<rparr>,
       \<lparr>ccm_name = ''device_info'', ccm_mode = ''buffered'', ccm_file = ''applications/services/device_info/application.fam'', ccm_symbol = ''cli_command_device_info''\<rparr>,
       \<lparr>ccm_name = ''date'', ccm_mode = ''buffered'', ccm_file = ''applications/services/time/application.fam'', ccm_symbol = ''cli_command_date''\<rparr>,
       \<lparr>ccm_name = ''timezone'', ccm_mode = ''buffered'', ccm_file = ''applications/services/time/application.fam'', ccm_symbol = ''cli_command_timezone''\<rparr>,
       \<lparr>ccm_name = ''matter'', ccm_mode = ''buffered'', ccm_file = ''applications/services/matter/application.fam'', ccm_symbol = ''matter_cli_command''\<rparr>,
       \<lparr>ccm_name = ''audio'', ccm_mode = ''buffered'', ccm_file = ''applications/services/audio/application.fam'', ccm_symbol = ''cli_command_audio''\<rparr>,
       \<lparr>ccm_name = ''display'', ccm_mode = ''buffered'', ccm_file = ''applications/services/brightness_control/application.fam'', ccm_symbol = ''cli_command_display''\<rparr>,
       \<lparr>ccm_name = ''sysctl'', ccm_mode = ''buffered'', ccm_file = ''applications/services/sysctl/application.fam'', ccm_symbol = ''cli_command_sysctl''\<rparr>,
       \<lparr>ccm_name = ''log_dump'', ccm_mode = ''buffered'', ccm_file = ''applications/services/log_storage/application.fam'', ccm_symbol = ''log_storage_cli_command_entry''\<rparr>],
      ccl_references = [\<lparr>src_file = ''applications/services/cli_socket/cli_socket.c'', src_symbol = ''CLI_SOCKET_PORT''\<rparr>,
       \<lparr>src_file = ''applications/services/usb_network/settings/usb_network_settings_interface_v1.c'', src_symbol = ''.bytes = {10, 0, 4, 20}''\<rparr>,
       \<lparr>src_file = ''lib/cli/shell/cli_shell_line.c'', src_symbol = ''\"%s>: \"''\<rparr>,
       \<lparr>src_file = ''applications/services/power/power_cli.c'', src_symbol = ''power_cli_reboot''\<rparr>]\<rparr>"

definition recorded_media :: "media_contract" where
  "recorded_media =
     \<lparr>
      cme_image = \<lparr>cim_format = ''PNG'', cim_decoder = ''LODEPNG'', cim_front_width = 72, cim_front_height = 16,
      cim_back_width = 160, cim_back_height = 80\<rparr>,
      cme_audio = \<lparr>cau_header = ''none'', cau_channels = 1, cau_sample_rate = 44100, cau_bits = 16,
      cau_byte_order = ''little_endian'', cau_extension = ''.snd''\<rparr>,
      cme_references = [\<lparr>src_file = ''targets/f21/config/lv_conf.h'', src_symbol = ''LV_USE_LODEPNG''\<rparr>,
       \<lparr>src_file = ''applications/services/web_server/http_api/api_display.c'', src_symbol = ''api_display_validate_image''\<rparr>,
       \<lparr>src_file = ''applications/services/audio/audio.c'', src_symbol = ''AUDIO_SAMPLE_RATE''\<rparr>,
       \<lparr>src_file = ''applications/services/audio/audio.h'', src_symbol = ''audio_play_file''\<rparr>]\<rparr>"

definition recorded_remote :: "remote_contract" where
  "recorded_remote =
     \<lparr>crm_mqtt_version = 5, crm_api_version = ''v1'',
      crm_topic_pattern = ''sessions/{session_id}/{direction}/v1/{topic}'', crm_down = ''down'',
      crm_up = ''up'',
      crm_http = 
      \<lparr>crh_request_topic = ''http-request'', crh_local_host = ''http://127.0.0.1'',
      crh_path_prefix = ''/api/'', crh_timeout_ms = 5000, crh_request_qos = 2, crh_response_qos = 1,
      crh_invalid_status = 422, crh_requires_response_topic = True, crh_requires_correlation = True,
      crh_echoes_correlation = True,
      crh_blocked = [''POST /api/update'', ''DELETE /api/account'', ''POST /api/account/link'', ''PUT /api/account/backend'',
       ''POST /api/wifi/connect'', ''POST /api/wifi/disconnect'', ''GET /api/wifi/networks'']\<rparr>,
      crm_stream = 
      \<lparr>crs_request_topic = ''stream-request'', crs_request_qos = 1, crs_response_qos = 0,
      crs_expiry_seconds = 60, crs_frame_interval_ms = 500, crs_queue_size = 4, crs_empty_stops = True,
      crs_nonempty_starts = True, crs_snapshot_on_start = False, crs_single_publisher = True,
      crs_max_count_key = ''max_count'', crs_interval_key = ''interval_s''\<rparr>,
      crm_references = [\<lparr>src_file = ''applications/services/mqtt/mqtt_connection.c'', src_symbol = ''MQTT_VERSION''\<rparr>,
       \<lparr>src_file = ''applications/services/mqtt/mqtt_i.h'', src_symbol = ''MQTT_API_VERSION''\<rparr>,
       \<lparr>src_file = ''applications/services/mqtt/mqtt_subscription.c'', src_symbol = ''mqtt_make_topic_path''\<rparr>,
       \<lparr>src_file = ''applications/services/mqtt/mqtt_message.c'', src_symbol = ''mqtt_message_trim_response_topic''\<rparr>,
       \<lparr>src_file = ''applications/services/mqtt/modules/mqtt_http_proxy.c'', src_symbol = ''mqtt_http_proxy_blocklist''\<rparr>,
       \<lparr>src_file = ''applications/services/mqtt/modules/mqtt_streaming.c'', src_symbol = ''mqtt_streaming_message_callback''\<rparr>,
       \<lparr>src_file = ''applications/services/state_publisher/state_publisher.c'', src_symbol = ''state_publisher_add_transport''\<rparr>]\<rparr>"

definition recorded_operation :: "string \<Rightarrow> string \<Rightarrow> int \<Rightarrow> string \<Rightarrow> string \<Rightarrow> api_operation" where
  "recorded_operation method path phase file symbol =
     \<lparr>co_method = method, co_path = path, co_phase = phase,
      co_file = ''applications/services/web_server/http_api/'' @ file, co_symbol = symbol\<rparr>"

definition recorded_operations :: "api_operation list" where
  "recorded_operations =
     [recorded_operation ''GET'' ''/api/access'' 3 ''api_root.c'' ''http_api_root_callback'',
      recorded_operation ''POST'' ''/api/access'' 3 ''api_root.c'' ''http_api_root_callback'',
      recorded_operation ''GET'' ''/api/access/tokens'' 3 ''api_root.c'' ''api_access_api_tokens_list_callback'',
      recorded_operation ''POST'' ''/api/access/tokens'' 3 ''api_root.c'' ''api_access_api_tokens_mint_callback'',
      recorded_operation ''DELETE'' ''/api/access/tokens'' 3 ''api_root.c'' ''api_access_api_tokens_revoke_callback'',
      recorded_operation ''DELETE'' ''/api/access/tokens/{short_id}'' 3 ''api_root.c'' ''api_access_api_tokens_revoke_callback'',
      recorded_operation ''DELETE'' ''/api/account'' 3 ''api_account.c'' ''http_api_account_callback'',
      recorded_operation ''GET'' ''/api/account/backend'' 3 ''api_account.c'' ''http_api_account_callback'',
      recorded_operation ''PUT'' ''/api/account/backend'' 3 ''api_account.c'' ''http_api_account_callback'',
      recorded_operation ''GET'' ''/api/account/info'' 3 ''api_account.c'' ''http_api_account_callback'',
      recorded_operation ''POST'' ''/api/account/link'' 3 ''api_account.c'' ''http_api_account_callback'',
      recorded_operation ''GET'' ''/api/account/status'' 3 ''api_account.c'' ''http_api_account_callback'',
      recorded_operation ''DELETE'' ''/api/assets/upload'' 3 ''api_assets.c'' ''http_api_assets_callback'',
      recorded_operation ''POST'' ''/api/assets/upload'' 3 ''api_assets.c'' ''http_api_assets_hdr_callback'',
      recorded_operation ''DELETE'' ''/api/audio/play'' 3 ''api_audio.c'' ''http_api_audio_callback'',
      recorded_operation ''POST'' ''/api/audio/play'' 3 ''api_audio.c'' ''http_api_audio_callback'',
      recorded_operation ''GET'' ''/api/audio/volume'' 3 ''api_audio.c'' ''http_api_audio_callback'',
      recorded_operation ''POST'' ''/api/audio/volume'' 3 ''api_audio.c'' ''http_api_audio_callback'',
      recorded_operation ''POST'' ''/api/ble/disable'' 3 ''api_ble.c'' ''http_api_ble_callback'',
      recorded_operation ''POST'' ''/api/ble/enable'' 3 ''api_ble.c'' ''http_api_ble_callback'',
      recorded_operation ''DELETE'' ''/api/ble/pairing'' 3 ''api_ble.c'' ''http_api_ble_callback'',
      recorded_operation ''GET'' ''/api/ble/status'' 3 ''api_ble.c'' ''http_api_ble_callback'',
      recorded_operation ''GET'' ''/api/busy/profiles/{slot}'' 3 ''api_busy.c'' ''http_api_busy_callback'',
      recorded_operation ''PUT'' ''/api/busy/profiles/{slot}'' 3 ''api_busy.c'' ''http_api_busy_callback'',
      recorded_operation ''GET'' ''/api/busy/snapshot'' 3 ''api_busy.c'' ''http_api_busy_callback'',
      recorded_operation ''PUT'' ''/api/busy/snapshot'' 3 ''api_busy.c'' ''http_api_busy_callback'',
      recorded_operation ''GET'' ''/api/display/brightness'' 3 ''api_display.c'' ''http_api_display_callback'',
      recorded_operation ''POST'' ''/api/display/brightness'' 3 ''api_display.c'' ''http_api_display_callback'',
      recorded_operation ''DELETE'' ''/api/display/draw'' 3 ''api_display.c'' ''http_api_display_callback'',
      recorded_operation ''POST'' ''/api/display/draw'' 3 ''api_display.c'' ''http_api_display_callback'',
      recorded_operation ''POST'' ''/api/input'' 3 ''api_input.c'' ''http_api_input_callback'',
      recorded_operation ''POST'' ''/api/log_dump'' 3 ''api_log.c'' ''http_api_log_dump_callback'',
      recorded_operation ''GET'' ''/api/name'' 3 ''api_name.c'' ''http_api_name_callback'',
      recorded_operation ''POST'' ''/api/name'' 3 ''api_name.c'' ''http_api_name_callback'',
      recorded_operation ''GET'' ''/api/screen'' 3 ''api_streaming.c'' ''http_api_streaming_single_frame_callback'',
      recorded_operation ''DELETE'' ''/api/smart_home/pairing'' 3 ''api_smart_home.c'' ''http_api_smart_home_callback'',
      recorded_operation ''GET'' ''/api/smart_home/pairing'' 3 ''api_smart_home.c'' ''http_api_smart_home_callback'',
      recorded_operation ''POST'' ''/api/smart_home/pairing'' 3 ''api_smart_home.c'' ''http_api_smart_home_callback'',
      recorded_operation ''GET'' ''/api/smart_home/switch'' 3 ''api_smart_home.c'' ''http_api_smart_home_callback'',
      recorded_operation ''POST'' ''/api/smart_home/switch'' 3 ''api_smart_home.c'' ''http_api_smart_home_callback'',
      recorded_operation ''GET'' ''/api/status'' 3 ''api_status.c'' ''http_api_status_callback'',
      recorded_operation ''GET'' ''/api/status/device'' 3 ''api_status.c'' ''http_api_status_callback'',
      recorded_operation ''GET'' ''/api/status/firmware'' 3 ''api_status.c'' ''http_api_status_callback'',
      recorded_operation ''GET'' ''/api/status/power'' 3 ''api_status.c'' ''http_api_status_callback'',
      recorded_operation ''GET'' ''/api/status/system'' 3 ''api_status.c'' ''http_api_status_callback'',
      recorded_operation ''GET'' ''/api/status/ws'' 6 ''api_status_streaming.c'' ''http_api_status_ws_callback'',
      recorded_operation ''GET'' ''/api/storage/list'' 3 ''api_storage.c'' ''http_api_storage_callback'',
      recorded_operation ''POST'' ''/api/storage/mkdir'' 3 ''api_storage.c'' ''http_api_storage_callback'',
      recorded_operation ''GET'' ''/api/storage/read'' 3 ''api_storage.c'' ''http_api_storage_callback'',
      recorded_operation ''DELETE'' ''/api/storage/remove'' 3 ''api_storage.c'' ''http_api_storage_callback'',
      recorded_operation ''POST'' ''/api/storage/rename'' 3 ''api_storage.c'' ''http_api_storage_callback'',
      recorded_operation ''GET'' ''/api/storage/status'' 3 ''api_storage.c'' ''http_api_storage_callback'',
      recorded_operation ''POST'' ''/api/storage/write'' 3 ''api_storage.c'' ''http_api_storage_hdr_callback'',
      recorded_operation ''GET'' ''/api/time'' 3 ''api_time.c'' ''http_api_time_callback'',
      recorded_operation ''POST'' ''/api/time/timestamp'' 3 ''api_time.c'' ''http_api_time_callback'',
      recorded_operation ''GET'' ''/api/time/timezone'' 3 ''api_time.c'' ''http_api_time_callback'',
      recorded_operation ''POST'' ''/api/time/timezone'' 3 ''api_time.c'' ''http_api_time_callback'',
      recorded_operation ''GET'' ''/api/time/tzlist'' 3 ''api_time.c'' ''http_api_time_callback'',
      recorded_operation ''GET'' ''/api/transport'' 3 ''api_root.c'' ''http_api_root_callback'',
      recorded_operation ''POST'' ''/api/update'' 3 ''api_update.c'' ''http_api_update_callback'',
      recorded_operation ''POST'' ''/api/update/abort_download'' 3 ''api_update.c'' ''http_api_update_callback'',
      recorded_operation ''GET'' ''/api/update/autoupdate'' 3 ''api_update.c'' ''http_api_update_callback'',
      recorded_operation ''POST'' ''/api/update/autoupdate'' 3 ''api_update.c'' ''http_api_update_callback'',
      recorded_operation ''GET'' ''/api/update/changelog'' 3 ''api_update.c'' ''http_api_update_callback'',
      recorded_operation ''POST'' ''/api/update/check'' 3 ''api_update.c'' ''http_api_update_callback'',
      recorded_operation ''POST'' ''/api/update/install'' 3 ''api_update.c'' ''http_api_update_callback'',
      recorded_operation ''GET'' ''/api/update/status'' 3 ''api_update.c'' ''http_api_update_callback'',
      recorded_operation ''GET'' ''/api/version'' 3 ''api_root.c'' ''http_api_root_callback'',
      recorded_operation ''POST'' ''/api/wifi/connect'' 3 ''api_wifi.c'' ''http_api_wifi_callback'',
      recorded_operation ''POST'' ''/api/wifi/disconnect'' 3 ''api_wifi.c'' ''http_api_wifi_callback'',
      recorded_operation ''GET'' ''/api/wifi/networks'' 3 ''api_wifi.c'' ''http_api_wifi_callback'',
      recorded_operation ''GET'' ''/api/wifi/status'' 3 ''api_wifi.c'' ''http_api_wifi_callback'']"

definition recorded_contract :: "firmware_contract" where
  "recorded_contract =
     \<lparr>ctr_repository = ''https://github.com/busy-app/busybar-firmware.git'', ctr_release = ''1.2.3'',
      ctr_api_version = ''27.5.0'', ctr_protobuf_commit = ''dba670e2ddb5cda511af997ca5fcb1254e90917f'',
      ctr_license = ''GPL-2.0-or-later'', ctr_status_stream = recorded_status_stream,
      ctr_frames = recorded_frames, ctr_snapshots = recorded_snapshots,
      ctr_tools = \<lparr>cot_cli = recorded_cli, cot_media = recorded_media\<rparr>,
      ctr_remote = recorded_remote, ctr_operations = recorded_operations\<rparr>"

section \<open>Validation accepts exactly the audited facts\<close>

text \<open>The facts of a contract without its provenance: the texts that Validate does not compare.\<close>

definition stream_facts :: "status_stream_contract \<Rightarrow> status_stream_contract" where
  "stream_facts c = c\<lparr>css_references := []\<rparr>"

definition frame_facts :: "frame_contract \<Rightarrow> frame_contract" where
  "frame_facts c = c\<lparr>cfr_references := []\<rparr>"

definition snapshot_facts :: "snapshot_contract \<Rightarrow> snapshot_contract" where
  "snapshot_facts c = c\<lparr>csn_references := []\<rparr>"

definition cli_facts :: "cli_contract \<Rightarrow> cli_contract" where
  "cli_facts c = c\<lparr>ccl_commands := map (\<lambda>m. m\<lparr>ccm_file := [], ccm_symbol := []\<rparr>) (ccl_commands c), ccl_references := []\<rparr>"

definition media_facts :: "media_contract \<Rightarrow> media_contract" where
  "media_facts c = c\<lparr>cme_references := []\<rparr>"

definition remote_facts :: "remote_contract \<Rightarrow> remote_contract" where
  "remote_facts c = c\<lparr>crm_references := []\<rparr>"

lemma stream_accepted:
  "validate_status_stream c = Inr u \<longleftrightarrow>
     stream_facts c = stream_facts recorded_status_stream
     \<and> length (css_references c) = 4 \<and> list_all reference_complete (css_references c)"
  by (cases c) (auto simp: validate_status_stream_def stream_facts_def recorded_status_stream_def
      ExpectedStreamUpdateKinds_def)

lemma frames_accepted:
  "validate_frames c = Inr u \<longleftrightarrow>
     frame_facts c = frame_facts recorded_frames
     \<and> length (cfr_references c) = 8 \<and> list_all reference_complete (cfr_references c)"
  by (cases c) (auto simp: validate_frames_def frame_facts_def recorded_frames_def wantFront_def wantBack_def)

lemma snapshot_facts_eq:
  "snapshot_facts c = snapshot_facts d \<longleftrightarrow> csn_http c = csn_http d \<and> csn_update_kinds c = csn_update_kinds d"
  by (cases c, cases d) (simp add: snapshot_facts_def)

lemma recorded_snapshots_facts:
  "csn_http recorded_snapshots = wantHTTP" "csn_update_kinds recorded_snapshots = wantKinds"
  by (simp_all add: recorded_snapshots_def wantHTTP_def wantKinds_def)

lemma snapshots_accepted:
  "validate_snapshots c = Inr u \<longleftrightarrow>
     snapshot_facts c = snapshot_facts recorded_snapshots
     \<and> length (csn_references c) = 10 \<and> list_all reference_complete (csn_references c)"
  by (simp add: validate_snapshots_ok snapshot_facts_eq recorded_snapshots_facts conj_assoc)

lemma command_facts_eq:
  fixes ms ns :: "cli_command list"
  shows "map (\<lambda>m. m\<lparr>ccm_file := [], ccm_symbol := []\<rparr>) ms = map (\<lambda>m. m\<lparr>ccm_file := [], ccm_symbol := []\<rparr>) ns
     \<longleftrightarrow> map (\<lambda>m. (ccm_name m, ccm_mode m)) ms = map (\<lambda>m. (ccm_name m, ccm_mode m)) ns"
proof (induction ms ns rule: list_induct2')
  case (4 m ms n ns)
  then show ?case by (cases m, cases n) simp
qed simp_all

lemma cli_facts_eq:
  "cli_facts c = cli_facts d \<longleftrightarrow>
     ccl_address c = ccl_address d \<and> ccl_port c = ccl_port d \<and> ccl_prompt c = ccl_prompt d
     \<and> ccl_interrupt_byte c = ccl_interrupt_byte d \<and> ccl_reboot c = ccl_reboot d
     \<and> map (\<lambda>m. (ccm_name m, ccm_mode m)) (ccl_commands c) = map (\<lambda>m. (ccm_name m, ccm_mode m)) (ccl_commands d)"
  by (cases c, cases d) (simp add: cli_facts_def command_facts_eq)

lemma recorded_cli_facts:
  "ccl_address recorded_cli = ''10.0.4.20''" "ccl_port recorded_cli = 23" "ccl_prompt recorded_cli = ''>: ''"
  "ccl_interrupt_byte recorded_cli = 3" "ccl_reboot recorded_cli = ''power reboot sw''"
  "map (\<lambda>m. (ccm_name m, ccm_mode m)) (ccl_commands recorded_cli) = wantCommands"
  by (simp_all add: recorded_cli_def wantCommands_def)

lemma cli_accepted:
  "validate_cli c = Inr u \<longleftrightarrow>
     cli_facts c = cli_facts recorded_cli \<and> list_all (\<lambda>m. ccm_file m \<noteq> [] \<and> ccm_symbol m \<noteq> []) (ccl_commands c)
     \<and> length (ccl_references c) = 4 \<and> list_all reference_complete (ccl_references c)"
  by (simp add: validate_cli_ok cli_facts_eq recorded_cli_facts conj_assoc)

lemma media_accepted:
  "validate_media c = Inr u \<longleftrightarrow>
     media_facts c = media_facts recorded_media
     \<and> length (cme_references c) = 4 \<and> list_all reference_complete (cme_references c)"
  by (cases c) (auto simp: validate_media_def media_facts_def recorded_media_def wantImage_def wantAudio_def)

lemma remote_accepted:
  "validate_remote c = Inr u \<longleftrightarrow>
     remote_facts c = remote_facts recorded_remote
     \<and> length (crm_references c) = 7 \<and> list_all reference_complete (crm_references c)"
proof (cases c)
  case (fields v a p d up h s r)
  then show ?thesis
    by (cases h, cases s) (auto simp: validate_remote_def remote_facts_def recorded_remote_def wantBlocked_def Let_def)
qed

section \<open>The whole contract\<close>

text \<open>
  The facts of a contract that an update of the receipt must not change, and its provenance, which
  has only to be complete.
\<close>

definition contract_facts ::
  "firmware_contract \<Rightarrow> string \<times> status_stream_contract \<times> frame_contract \<times> snapshot_contract
    \<times> cli_contract \<times> media_contract \<times> remote_contract" where
  "contract_facts c =
     (ctr_api_version c, stream_facts (ctr_status_stream c), frame_facts (ctr_frames c),
      snapshot_facts (ctr_snapshots c), cli_facts (cot_cli (ctr_tools c)), media_facts (cot_media (ctr_tools c)),
      remote_facts (ctr_remote c))"

definition contract_references :: "firmware_contract \<Rightarrow> source_reference list list" where
  "contract_references c =
     [css_references (ctr_status_stream c), cfr_references (ctr_frames c), csn_references (ctr_snapshots c),
      ccl_references (cot_cli (ctr_tools c)), cme_references (cot_media (ctr_tools c)), crm_references (ctr_remote c)]"

definition provenance_complete :: "firmware_contract \<Rightarrow> bool" where
  "provenance_complete c \<longleftrightarrow>
     ctr_repository c \<noteq> [] \<and> ctr_release c \<noteq> [] \<and> ctr_protobuf_commit c \<noteq> []
     \<and> map length (contract_references c) = [4, 8, 10, 4, 4, 7]
     \<and> list_all (list_all reference_complete) (contract_references c)
     \<and> list_all (\<lambda>m. ccm_file m \<noteq> [] \<and> ccm_symbol m \<noteq> []) (ccl_commands (cot_cli (ctr_tools c)))"

definition contract_ok :: "(string \<Rightarrow> string) \<Rightarrow> firmware_contract \<Rightarrow> bool" where
  "contract_ok um c \<longleftrightarrow>
     contract_facts c = contract_facts recorded_contract \<and> provenance_complete c
     \<and> operations_ok um (ctr_operations c)"

lemma recorded_parts:
  "ctr_api_version recorded_contract = ''27.5.0''" "ctr_status_stream recorded_contract = recorded_status_stream"
  "ctr_frames recorded_contract = recorded_frames" "ctr_snapshots recorded_contract = recorded_snapshots"
  "cot_cli (ctr_tools recorded_contract) = recorded_cli" "cot_media (ctr_tools recorded_contract) = recorded_media"
  "ctr_remote recorded_contract = recorded_remote" "ctr_operations recorded_contract = recorded_operations"
  by (simp_all add: recorded_contract_def)

lemma rbind_unit_ok: "rbind r k = Inr u \<longleftrightarrow> r = Inr () \<and> k () = Inr u" for r :: "'e + unit"
  by (auto simp: rbind_eq_Inr)

lemma tools_accepted:
  "(validate_tools t :: 'x err_message + unit) = Inr u \<longleftrightarrow>
     (validate_cli (cot_cli t) :: 'x err_message + unit) = Inr () \<and> (validate_media (cot_media t) :: 'x err_message + unit) = Inr ()"
  by (simp add: validate_tools_def rbind_unit_ok)

text \<open>
  Contract.Validate accepts a contract exactly when its facts are those of the recorded audit,
  its provenance is complete, and its 72 operations are distinct, complete, and owned by the
  synchronous phase but for the one status stream, which is \<open>GET /api/status/ws\<close>.
\<close>
lemma validate_contract_spec: "validate_contract um c = Inr u \<longleftrightarrow> contract_ok um c"
proof -
  have "validate_contract um c = Inr u \<longleftrightarrow>
      (ctr_repository c \<noteq> [] \<and> ctr_release c \<noteq> [] \<and> ctr_protobuf_commit c \<noteq> [] \<and> ctr_api_version c = ''27.5.0''
       \<and> contract_facts c = contract_facts recorded_contract \<and> provenance_complete c
       \<and> length (ctr_operations c) = 72) \<and> operations_ok um (ctr_operations c)"
    unfolding validate_contract_def rbind_unit_ok
    apply (rule conj_cong)
    subgoal
      by (auto simp: ExpectedAPIVersion_def ExpectedOperationCount_def stream_accepted frames_accepted
          snapshots_accepted tools_accepted cli_accepted media_accepted remote_accepted
          contract_facts_def provenance_complete_def contract_references_def recorded_parts)
    subgoal by (rule operations_checked) simp
    done
  then show ?thesis
    by (auto simp: contract_ok_def provenance_complete_def operations_ok_def recorded_parts contract_facts_def)
qed

section \<open>The recorded contract is accepted\<close>

lemma recorded_provenance: "provenance_complete recorded_contract"
  by (simp add: provenance_complete_def contract_references_def recorded_parts)
    (simp add: reference_complete_def recorded_contract_def recorded_status_stream_def recorded_frames_def recorded_snapshots_def
      recorded_cli_def recorded_media_def recorded_remote_def)

definition recorded_ids :: "string list" where
  "recorded_ids = map (\<lambda>op. co_method op @ '' '' @ co_path op) recorded_operations"

lemma recorded_methods:
  "list_all (\<lambda>op. to_upper um (co_method op) = co_method op) recorded_operations"
  by (simp add: recorded_operations_def recorded_operation_def) (simp add: to_upper_def is_ascii_def ascii_upper_def is_lower_def char_in_def)

lemma recorded_ids_eq: "map (contract_id um) recorded_operations = recorded_ids"
  using recorded_methods [of um] by (auto simp: recorded_ids_def contract_id_def list_all_iff)

lemma recorded_distinct: "distinct recorded_ids"
  by code_simp

lemma recorded_operations_ok: "operations_ok um recorded_operations"
proof -
  have l: "length recorded_operations = 72" "list_all operation_complete recorded_operations"
    "map api_operation.co_path (filter (\<lambda>op. co_phase op \<noteq> 3) recorded_operations) = [''/api/status/ws'']"
    "map (\<lambda>op. (co_method op, co_phase op)) (filter (\<lambda>op. co_phase op \<noteq> 3) recorded_operations) = [(''GET'', 6)]"
    by code_simp+
  then obtain strm where s: "filter (\<lambda>op. co_phase op \<noteq> 3) recorded_operations = [strm]"
    "co_path strm = ''/api/status/ws''" "co_method strm = ''GET''" "co_phase strm = 6"
    by (cases "filter (\<lambda>op. co_phase op \<noteq> 3) recorded_operations") auto
  have "to_upper um ''GET'' = ''GET''" by (simp add: to_upper_def is_ascii_def ascii_upper_def is_lower_def char_in_def)
  with s l(1,2) show ?thesis
    using recorded_distinct by (simp add: operations_ok_def recorded_ids_eq contract_id_def StreamPhase_def)
qed

lemma recorded_accepted: "contract_ok um recorded_contract"
  using recorded_operations_ok by (simp add: contract_ok_def recorded_provenance recorded_parts)

end
