(* ===== verification/ContractAgreement.thy ===== *)
theory ContractAgreement
  imports ContractReceipt Services
begin

text \<open>
  The recorded contract against the client: every request that a service call makes is one of the
  synchronous operations of the contract, and every one of these operations is the request of some
  service call.
\<close>

section \<open>Operations with a variable in the path\<close>

definition path_variable :: "string \<Rightarrow> bool" where
  "path_variable seg \<longleftrightarrow> has_prefix seg ''{'' \<and> has_suffix seg ''}''"

fun segments_match :: "string list \<Rightarrow> string list \<Rightarrow> bool" where
  "segments_match [] [] \<longleftrightarrow> True"
| "segments_match (t # ts) (s # ss) \<longleftrightarrow> (t = s \<or> path_variable t \<and> s \<noteq> []) \<and> segments_match ts ss"
| "segments_match _ _ \<longleftrightarrow> False"

definition serves :: "string \<Rightarrow> string \<Rightarrow> api_operation \<Rightarrow> bool" where
  "serves m p op \<longleftrightarrow> co_method op = m \<and> segments_match (split_on (CHR ''/'') (co_path op)) (split_on (CHR ''/'') p)"

lemma segments_match_refl [simp]: "segments_match ss ss"
  by (induction ss) auto

lemma serves_same: "serves (co_method op) (co_path op) op"
  by (simp add: serves_def)

definition sync_operations :: "api_operation list" where
  "sync_operations = filter (\<lambda>op. co_phase op = 3) (ctr_operations recorded_contract)"

definition sync_pairs :: "(string \<times> string) list" where
  "sync_pairs = map (\<lambda>op. (co_method op, co_path op)) sync_operations"

lemma sync_pairs_eq:
  "sync_pairs = map (\<lambda>op. (co_method op, co_path op)) (filter (\<lambda>op. co_phase op = 3) recorded_operations)"
  by (simp add: sync_pairs_def sync_operations_def recorded_parts)

definition path_templates :: "(string \<times> string) list" where
  "path_templates =
     [(''DELETE'', ''/api/access/tokens/{short_id}''), (''GET'', ''/api/busy/profiles/{slot}''),
      (''PUT'', ''/api/busy/profiles/{slot}'')]"

text \<open>Where the operations of the services stand in the contract.\<close>

definition contract_positions :: "nat list" where
  "contract_positions =
     [4, 6, 12, 14, 20, 28, 35, 48, 0, 2, 7, 9, 11, 16, 21, 24, 26, 32, 34, 36, 38, 40, 41, 42, 43, 44,
      45, 47, 50, 52, 54, 56, 57, 60, 62, 65, 66, 69, 70, 1, 3, 10, 13, 15, 17, 18, 19, 27, 29, 30, 31,
      33, 37, 39, 46, 49, 51, 53, 55, 58, 59, 61, 63, 64, 67, 68, 8, 25, 5, 22, 23]"

lemma positions_small: "list_all (\<lambda>i. i < 71) contract_positions"
  by (simp add: contract_positions_def)

lemma services_at_positions: "map (\<lambda>i. sync_pairs ! i) contract_positions = service_operations @ path_templates"
  unfolding sync_pairs_eq by code_simp

lemma sync_pairs_length: "length sync_pairs = 71"
  unfolding sync_pairs_eq by code_simp

lemma services_in_contract: "set service_operations \<union> set path_templates \<subseteq> set sync_pairs"
proof -
  have "set (map (\<lambda>i. sync_pairs ! i) contract_positions) \<subseteq> set sync_pairs"
    using positions_small by (auto simp: list_all_iff sync_pairs_length)
  then show ?thesis by (simp add: services_at_positions)
qed

lemma served: "(m, p) \<in> set sync_pairs \<Longrightarrow> list_ex (serves m p) sync_operations"
  using serves_same by (auto simp: sync_pairs_def list_ex_iff)

lemma served_variable:
  assumes "(m, t) \<in> set sync_pairs" and "segments_match (split_on (CHR ''/'') t) (split_on (CHR ''/'') p)"
  shows "list_ex (serves m p) sync_operations"
  using assms by (auto simp: sync_pairs_def list_ex_iff serves_def)

lemma service_operation_served:
  assumes "service_operation m p"
  shows "list_ex (serves m p) sync_operations"
proof -
  consider "(m, p) \<in> set service_operations"
    | t where "m = ''DELETE''" "p = ''/api/access/tokens/'' @ t" "validate_access_token_short_id t = Inr ()"
    | "m \<in> {''GET'', ''PUT''}" "p \<in> {''/api/busy/profiles/busy'', ''/api/busy/profiles/custom''}"
    using assms by (auto simp: service_operation_def)
  then show ?thesis
  proof cases
    case 1
    then show ?thesis using services_in_contract by (intro served) auto
  next
    case (2 t)
    have t: "t \<noteq> []" "CHR ''/'' \<notin> set t"
      using 2(3) by (auto simp: validate_access_token_short_id_def accessTokenIDPattern_def list_all_iff
          is_alnum_def char_class_defs)
    have "split_on (CHR ''/'') p = ['''', ''api'', ''access'', ''tokens'', t]"
      using t(2) by (simp add: 2(2) split_on_none)
    moreover have "split_on (CHR ''/'') ''/api/access/tokens/{short_id}'' = ['''', ''api'', ''access'', ''tokens'', ''{short_id}'']"
      by code_simp
    moreover have "path_variable ''{short_id}''" by code_simp
    ultimately show ?thesis
      using t(1) services_in_contract
      by (intro served_variable [of _ "''/api/access/tokens/{short_id}''"]) (auto simp: path_templates_def 2(1))
  next
    case 3
    have "segments_match (split_on (CHR ''/'') ''/api/busy/profiles/{slot}'') (split_on (CHR ''/'') p)"
      using 3(2) by (elim insertE emptyE; hypsubst; code_simp)
    then show ?thesis
      using 3(1) services_in_contract
      by (intro served_variable [of _ "''/api/busy/profiles/{slot}''"]) (auto simp: path_templates_def)
  qed
qed

section \<open>A call for every operation\<close>

definition covering_env :: service_env where
  "covering_env = \<lparr>se_json = Inr [], se_quote = id, se_time = (\<lambda>_ _. True), se_order = wifi_addresses\<rparr>"

definition sample_body :: "body option" where "sample_body = Some (BytesBody [] [])"

definition sample_bar :: bar_settings where
  "sample_bar = \<lparr>bb_theme = [], bb_work_only = False, bb_smart_home = False\<rparr>"

definition sample_snapshot :: busy_snapshot where
  "sample_snapshot =
     \<lparr>sd_type = ''NOT_STARTED'', sd_card = [], sd_time_left = None, sd_paused = None, sd_current = None,
      sd_interval_total = None, sd_interval_left = None, sd_interval = None, sd_bar = sample_bar\<rparr>"

definition sample_profile :: busy_profile where
  "sample_profile =
     \<lparr>bp_sort_order = 0, bp_title = ''Focus'', bp_id = ''00000000-0000-0000-0000-000000000000'',
      bp_timer = \<lparr>ts_type = ''INFINITE'', ts_total = None, ts_work = None, ts_rest = None, ts_cycles = None,
                  ts_autostart = None\<rparr>,
      bp_bar = sample_bar\<rparr>"

definition sample_draw :: display_request where
  "sample_draw =
     \<lparr>dr_application = ''app'', dr_priority = 0, dr_led_color = [],
      dr_elements = [Some (TextElement (new_text_element ''0'' ''hello'' ''small''))]\<rparr>"

definition sample_calls :: "api_call list" where
  "sample_calls =
     [SettingsCall SettingsHTTPAccess, SettingsCall (SettingsSetHTTPAccess ''enabled'' []),
      SettingsCall SettingsAccessTokens, SettingsCall (SettingsMintAccessToken ''name''),
      SettingsCall SettingsRevokeAllAccessTokens, SettingsCall (SettingsRevokeAccessToken ''abcd1234''),
      AccountCall AccountUnlink, AccountCall AccountBackend,
      AccountCall (AccountSetBackend \<lparr>ab_server_url = ''default'', ab_client_cert_type = ''none'', ab_ignore_server_cert = False\<rparr>),
      AccountCall AccountInfo, AccountCall AccountLink, AccountCall AccountStatus,
      AssetsCall (AssetsDelete ''app''), AssetsCall (AssetsUpload ''app'' ''a.png'' sample_body),
      AudioCall AudioStop, AudioCall (AudioPlayAsset ''app'' ''a.snd''), AudioCall AudioVolume,
      AudioCall (AudioSetVolume 50 False),
      BleCall BleDisable, BleCall BleEnable, BleCall BleRemovePairing, BleCall BleStatus,
      BusyCall (BusyProfile ''busy''), BusyCall (BusySetProfile ''custom'' sample_profile),
      BusyCall BusySnapshot, BusyCall (BusySetSnapshot sample_snapshot),
      DisplayCall DisplayBrightness, DisplayCall (DisplaySetBrightness ''auto''), DisplayCall (DisplayClear ''app''),
      DisplayCall (DisplayDraw sample_draw), InputCall ''ok'', SystemCall (SystemDumpLog []),
      SettingsCall SettingsName, SettingsCall (SettingsSetName ''bar''), DisplayCall (DisplayScreen ''front''),
      SmartHomeCall SmartHomeForgetPairings, SmartHomeCall SmartHomePairingStatus, SmartHomeCall SmartHomeStartPairing,
      SmartHomeCall SmartHomeSwitchState, SmartHomeCall (SmartHomeSetSwitchState (Some True) []),
      SystemCall SystemStatusAll, SystemCall SystemDeviceStatus, SystemCall SystemFirmwareStatus,
      SystemCall SystemPowerStatus, SystemCall SystemSystemStatus,
      StorageCall (StorageList ''/ext''), StorageCall (StorageMkdir ''/ext/a''), StorageCall (StorageRead ''/ext/a''),
      StorageCall (StorageRemove ''/ext/a''), StorageCall (StorageRename ''/ext/a'' ''/ext/b''), StorageCall StorageStatus,
      StorageCall (StorageWrite ''/ext/a'' sample_body None),
      TimeCall TimeNow, TimeCall (TimeSetTimestamp ''20250102T030405Z''), TimeCall TimeTimezone,
      TimeCall (TimeSetTimezone ''UTC''), TimeCall TimeTimezones, SystemCall SystemTransport,
      UpdateCall (UpdateUploadPackage sample_body), UpdateCall UpdateAbortDownload, UpdateCall UpdateAutoUpdate,
      UpdateCall (UpdateSetAutoUpdate [] []), UpdateCall (UpdateChangelog ''1.0''), UpdateCall UpdateCheckNow,
      UpdateCall (UpdateInstall ''1.0''), UpdateCall UpdateStatusNow, SystemCall SystemVersion,
      WifiCall (WifiConnect \<lparr>wc_ssid = ''net'', wc_password = [], wc_security = ''Open'', wc_ip_method = ''dhcp'',
                             wc_address = [], wc_mask = [], wc_gateway = []\<rparr>),
      WifiCall WifiDisconnect, WifiCall WifiNetworks, WifiCall WifiStatus]"

definition made_by :: "api_call \<Rightarrow> api_operation \<Rightarrow> bool" where
  "made_by c op = (case service_request covering_env c of Inl _ \<Rightarrow> False | Inr rq \<Rightarrow> serves (rq_method rq) (rq_path rq) op)"

lemma sample_calls_made: "list_all2 made_by sample_calls (filter (\<lambda>op. co_phase op = 3) recorded_operations)"
  by code_simp

lemma sync_operations_eq: "sync_operations = filter (\<lambda>op. co_phase op = 3) recorded_operations"
  by (simp add: sync_operations_def recorded_parts)

text \<open>
  C37: the recorded contract passes its validation, and its 71 synchronous operations are what the
  services of the client can ask for: whatever a service call sends is an operation of the contract,
  with the method and the path of the contract up to the variables in the path, and each operation of
  the contract is sent by the sample call at its position.
\<close>
theorem contract_covers_services:
  "validate_contract um recorded_contract = Inr ()
   \<and> length sync_operations = 71
   \<and> (case service_request env c of
        Inl e \<Rightarrow> ve_message e \<noteq> []
      | Inr rq \<Rightarrow> list_ex (serves (rq_method rq) (rq_path rq)) sync_operations)
   \<and> list_all2 made_by sample_calls sync_operations"
proof (intro conjI)
  show "validate_contract um recorded_contract = Inr ()"
    using recorded_accepted by (simp add: validate_contract_spec)
  show "list_all2 made_by sample_calls sync_operations"
    by (simp add: sync_operations_eq sample_calls_made)
  then show "length sync_operations = 71"
    by (auto dest!: list_all2_lengthD simp: sample_calls_def)
  show "case service_request env c of
        Inl e \<Rightarrow> ve_message e \<noteq> []
      | Inr rq \<Rightarrow> list_ex (serves (rq_method rq) (rq_path rq)) sync_operations"
    using service_planned [of c env] service_operation_served by (auto simp: planned_ok_def split: sum.splits)
qed

end
