(* ===== verification/ContractConstants.thy ===== *)
theory ContractConstants
  imports ContractReceipt Frame SnapshotStore UsbSession ConvertImage ConvertAudio StatusStream RemoteStream
begin

text \<open>
  An accepted contract against the constants and tables that the packages of the library are written
  with: sizes of frames and displays, sections of snapshots, topics, refused operations, the USB command
  line and the media formats.
\<close>

lemma accepted_parts:
  assumes "contract_ok um c"
  shows "stream_facts (ctr_status_stream c) = stream_facts recorded_status_stream"
    "frame_facts (ctr_frames c) = frame_facts recorded_frames"
    "snapshot_facts (ctr_snapshots c) = snapshot_facts recorded_snapshots"
    "cli_facts (cot_cli (ctr_tools c)) = cli_facts recorded_cli"
    "media_facts (cot_media (ctr_tools c)) = media_facts recorded_media"
    "remote_facts (ctr_remote c) = remote_facts recorded_remote"
  using assms by (simp_all add: contract_ok_def contract_facts_def recorded_parts)

text \<open>Two contracts with the same facts agree on every field that is a fact.\<close>

lemma stream_fields:
  "stream_facts a = stream_facts b \<Longrightarrow>
     css_path a = css_path b \<and> css_state_update_kinds a = css_state_update_kinds b"
  by (cases a, cases b) (simp add: stream_facts_def)

lemma frame_fields:
  "frame_facts a = frame_facts b \<Longrightarrow>
     cfr_max_payload a = cfr_max_payload b \<and> cfr_front a = cfr_front b \<and> cfr_back a = cfr_back b"
  by (cases a, cases b) (simp add: frame_facts_def)

lemma media_fields:
  "media_facts a = media_facts b \<Longrightarrow> cme_image a = cme_image b \<and> cme_audio a = cme_audio b"
  by (cases a, cases b) (simp add: media_facts_def)

lemma remote_fields:
  "remote_facts a = remote_facts b \<Longrightarrow>
     crm_api_version a = crm_api_version b \<and> crm_down a = crm_down b \<and> crm_up a = crm_up b
     \<and> crm_http a = crm_http b \<and> crm_stream a = crm_stream b"
  by (cases a, cases b) (simp add: remote_facts_def)

definition curated :: "(string \<times> string) list \<Rightarrow> usb_command \<Rightarrow> bool" where
  "curated table command =
     (case command_call command of
        Inl e \<Rightarrow> e \<noteq> []
      | Inr (CallSend name args) \<Rightarrow> (name, ''buffered'') \<in> set table
      | Inr (CallStream name args) \<Rightarrow> (name, ''stream'') \<in> set table
      | Inr CallReboot \<Rightarrow> True)"

lemma all_curated: "curated wantCommands command"
  by (cases command) (simp_all add: curated_def wantCommands_def)



end
