(* ===== verification/SourceScan.thy ===== *)
theory SourceScan
  imports Contract
begin

text \<open>
  The scanning of C sources in \<open>internal/api/cmd/firmware-contract-check\<close>: the regular expressions
  as matchers, the integer and string defines, the body of a function, and keys of JSON texts.
\<close>

section \<open>Regular expressions\<close>

text \<open>
  A matcher gives the ways to match at the start of a text, in the order of preference of
  \<open>regexp\<close> (leftmost, then as Perl would): the captured texts and what is left. The patterns exclude
  and name ASCII bytes only, so bytes stand for runes.
\<close>

type_synonym matcher = "string \<Rightarrow> (string list \<times> string) list"

definition re_space :: "char \<Rightarrow> bool" where
  "re_space c \<longleftrightarrow> c \<in> {CHR 0x09, CHR 0x0A, CHR 0x0C, CHR 0x0D, CHR '' ''}"

definition re_word :: "char \<Rightarrow> bool" where
  "re_word c \<longleftrightarrow> is_alnum c \<or> c = CHR ''_''"

definition m_lit :: "string \<Rightarrow> matcher" where
  "m_lit s x = (if has_prefix x s then [([], drop (length s) x)] else [])"

text \<open>\<open>p*\<close> and \<open>p+\<close>, the longest first; \<open>c?\<close>; a group; a sequence.\<close>

fun m_many :: "(char \<Rightarrow> bool) \<Rightarrow> matcher" where
  "m_many p [] = [([], [])]"
| "m_many p (c # x) = (if p c then m_many p x else []) @ [([], c # x)]"

fun m_some :: "(char \<Rightarrow> bool) \<Rightarrow> matcher" where
  "m_some p [] = []"
| "m_some p (c # x) = (if p c then m_many p x else [])"

fun m_opt :: "char \<Rightarrow> matcher" where
  "m_opt d [] = [([], [])]"
| "m_opt d (c # x) = (if c = d then [([], x)] else []) @ [([], c # x)]"

fun m_seq :: "matcher list \<Rightarrow> matcher" where
  "m_seq [] x = [([], x)]"
| "m_seq (m # ms) x = concat (map (\<lambda>(cs, r). map (\<lambda>(ds, s). (cs @ ds, s)) (m_seq ms r)) (m x))"

definition m_group :: "matcher \<Rightarrow> matcher" where
  "m_group m x = map (\<lambda>(cs, r). (take (length x - length r) x # cs, r)) (m x)"

text \<open>\<open>FindSubmatch\<close> and \<open>FindAllSubmatch\<close>; no pattern matches the empty text.\<close>

fun find_match :: "matcher \<Rightarrow> string \<Rightarrow> (string list \<times> string) option" where
  "find_match m x =
     (case m x of
        res # _ \<Rightarrow> Some res
      | [] \<Rightarrow> (case x of [] \<Rightarrow> None | _ # y \<Rightarrow> find_match m y))"

declare find_match.simps [simp del]

function find_all :: "matcher \<Rightarrow> string \<Rightarrow> string list list" where
  "find_all m x =
     (case find_match m x of
        None \<Rightarrow> []
      | Some (cs, r) \<Rightarrow> if length r < length x then cs # find_all m r else [cs])"
  by pat_completeness auto
termination
  by (relation "measure (\<lambda>(m, x). length x)") auto

declare find_all.simps [simp del]

text \<open>A search for \<open>\b\<close> and a matcher; the first argument is whether a word byte comes before.\<close>

fun find_at_word :: "bool \<Rightarrow> matcher \<Rightarrow> string \<Rightarrow> (string list \<times> string) option" where
  "find_at_word before m x =
     (case (if before = (case x of [] \<Rightarrow> False | c # _ \<Rightarrow> re_word c) then [] else m x) of
        res # _ \<Rightarrow> Some res
      | [] \<Rightarrow> (case x of [] \<Rightarrow> None | c # y \<Rightarrow> find_at_word (re_word c) m y))"

declare find_at_word.simps [simp del]

definition quote_char :: char where "quote_char = CHR 0x22"

definition apiVersionPattern :: matcher where
  "apiVersionPattern = m_seq
     [m_lit ''#define'', m_some re_space, m_lit ''API_VERSION'', m_some re_space, m_lit ''{'', m_many re_space,
      m_group (m_some is_digit), m_many re_space, m_lit '','', m_many re_space,
      m_group (m_some is_digit), m_many re_space, m_lit '','', m_many re_space,
      m_group (m_some is_digit), m_many re_space, m_lit ''}'']"

definition defineIntPattern :: matcher where
  "defineIntPattern = m_seq
     [m_lit ''#define'', m_some re_space,
      m_group (m_seq [\<lambda>x. case x of [] \<Rightarrow> [] | c # y \<Rightarrow> if is_upper c then [([], y)] else [],
                      m_many (\<lambda>c. is_upper c \<or> is_digit c \<or> c = CHR ''_'')]),
      m_some re_space, m_opt (CHR ''(''), m_many re_space, m_group (m_some is_digit), m_many re_space, m_opt (CHR '')'')]"

definition rateLimitPattern :: matcher where
  "rateLimitPattern = m_seq
     [m_lit ''.max_packet_count'', m_many re_space, m_lit ''='', m_many re_space, m_group (m_some is_digit),
      m_many re_space, m_lit '','', m_many re_space, m_lit ''.period_ms'', m_many re_space, m_lit ''='',
      m_many re_space, m_group (m_some is_digit)]"

definition blocklistPattern :: matcher where
  "blocklistPattern = m_seq
     [m_lit ''{'', m_many re_space, m_lit ''.name'', m_many re_space, m_lit ''='', m_many re_space, m_lit [quote_char],
      m_group (m_some (\<lambda>c. c \<noteq> quote_char)), m_lit [quote_char], m_many re_space, m_lit '','', m_many re_space,
      m_lit ''.id'', m_many re_space, m_lit ''='', m_many re_space,
      m_group (m_seq [m_lit ''MqttHttpProxyMethodId'', m_some (\<lambda>c. is_lower c \<or> is_upper c)]),
      m_many re_space, m_opt (CHR '',''), m_many re_space, m_lit ''}'']"

section \<open>Defines, function bodies, keys\<close>

text \<open>\<open>checkDefine\<close> looks at the first define of the name.\<close>

definition check_define :: "string \<Rightarrow> string \<Rightarrow> string \<Rightarrow> int \<Rightarrow> 'x err_message + unit" where
  "check_define source_file data name want =
     (case filter (\<lambda>cs. cs ! 0 = name) (find_all defineIntPattern data) of
        [] \<Rightarrow> Inl [Txt source_file, Txt '' is missing integer define '', Txt name]
      | cs # _ \<Rightarrow> guard (cs ! 1 \<noteq> format_int want)
          [Txt source_file, Txt '' '', Txt name, Txt '' = '', Txt (cs ! 1), Txt '', receipt = '', Num want])"

definition string_define_pattern :: "string \<Rightarrow> matcher" where
  "string_define_pattern name = m_seq
     [m_lit ''#define'', m_some re_space, m_lit name, m_some re_space, m_lit [quote_char],
      m_group (m_many (\<lambda>c. c \<noteq> quote_char)), m_lit [quote_char]]"

definition check_string_define :: "string \<Rightarrow> string \<Rightarrow> string \<Rightarrow> string \<Rightarrow> 'x err_message + unit" where
  "check_string_define source_file data name want =
     (case find_match (string_define_pattern name) data of
        None \<Rightarrow> Inl [Txt source_file, Txt '' is missing string define '', Txt name]
      | Some (cs, _) \<Rightarrow> guard (cs ! 0 \<noteq> want)
          [Txt source_file, Txt '' '', Txt name, Txt '' = '', Quoted (cs ! 0), Txt '', receipt = '', Quoted want])"

definition function_head :: "string \<Rightarrow> matcher" where
  "function_head symbol = m_seq
     [m_lit symbol, m_many re_space, m_lit ''('', m_many (\<lambda>c. c \<noteq> CHR '';'' \<and> c \<noteq> CHR ''{''), m_lit '')'',
      m_many re_space, m_lit ''{'']"

text \<open>The loop over the bytes after the opening brace, with the depth before each.\<close>

fun body_to :: "nat \<Rightarrow> string \<Rightarrow> string option" where
  "body_to depth [] = None"
| "body_to depth (c # x) =
     (if c = CHR ''{'' then map_option (Cons c) (body_to (depth + 1) x)
      else if c = CHR ''}'' then (if depth = 1 then Some [] else map_option (Cons c) (body_to (depth - 1) x))
      else map_option (Cons c) (body_to depth x))"

definition c_function_body :: "string \<Rightarrow> string \<Rightarrow> string \<Rightarrow> 'x err_message + string" where
  "c_function_body source_file data symbol =
     (case find_at_word False (function_head symbol) data of
        None \<Rightarrow> Inl [Txt source_file, Txt '' is missing function definition '', Txt symbol]
      | Some (_, rest) \<Rightarrow>
          (case body_to 1 rest of
             None \<Rightarrow> Inl [Txt source_file, Txt '' function definition '', Txt symbol, Txt '' has no closing brace'']
           | Some body \<Rightarrow> Inr body))"

definition contains_json_key :: "string \<Rightarrow> string \<Rightarrow> bool" where
  "contains_json_key data key \<longleftrightarrow>
     contains data ([quote_char] @ key @ [quote_char])
     \<or> contains data ([CHR 0x5C, quote_char] @ key @ [CHR 0x5C, quote_char])"

section \<open>What the matchers match\<close>

lemma m_lit_set: "(cs, r) \<in> set (m_lit s x) \<longleftrightarrow> cs = [] \<and> x = s @ r"
  by (auto simp: m_lit_def has_prefix_iff)

lemma m_many_set: "(cs, r) \<in> set (m_many p x) \<longleftrightarrow> cs = [] \<and> (\<exists>t. x = t @ r \<and> list_all p t)"
proof (induction x)
  case (Cons c x)
  have "(\<exists>t. c # x = t @ r \<and> list_all p t) \<longleftrightarrow> r = c # x \<or> p c \<and> (\<exists>t. x = t @ r \<and> list_all p t)"
    by (auto simp: Cons_eq_append_conv)
  then show ?case using Cons by auto
qed auto

lemma m_seq_set:
  "(cs, r) \<in> set (m_seq [] x) \<longleftrightarrow> cs = [] \<and> r = x"
  "(cs, r) \<in> set (m_seq (m # ms) x) \<longleftrightarrow>
     (\<exists>as bs s. cs = as @ bs \<and> (as, s) \<in> set (m x) \<and> (bs, r) \<in> set (m_seq ms s))"
  by (auto simp: image_iff) force+

text \<open>Where a word begins, and the first place in a text where a matcher finds something.\<close>

definition word_start :: "string \<Rightarrow> nat \<Rightarrow> bool" where
  "word_start data i \<longleftrightarrow> (i \<noteq> 0 \<and> re_word (data ! (i - 1))) \<noteq> (i < length data \<and> re_word (data ! i))"

definition first_at_word :: "matcher \<Rightarrow> string \<Rightarrow> nat option" where
  "first_at_word m data = find (\<lambda>i. word_start data i \<and> m (drop i data) \<noteq> []) [0..<Suc (length data)]"

lemma find_at_word_Cons:
  "find_at_word before m (c # x) =
     (if before \<noteq> re_word c \<and> m (c # x) \<noteq> [] then Some (hd (m (c # x))) else find_at_word (re_word c) m x)"
  by (cases "m (c # x)") (simp_all add: find_at_word.simps [of before m "c # x"])

lemma find_at_word_from:
  assumes "i \<le> length data" and "before = (i \<noteq> 0 \<and> re_word (data ! (i - 1)))"
  shows "find_at_word before m (drop i data) =
     map_option (\<lambda>j. hd (m (drop j data))) (find (\<lambda>j. word_start data j \<and> m (drop j data) \<noteq> []) [i..<Suc (length data)])"
  using assms
proof (induction "length data - i" arbitrary: i before)
  case 0
  then have i: "i = length data" by simp
  have "word_start data (length data) \<longleftrightarrow> before" using 0 by (simp add: word_start_def)
  then show ?case by (cases "m []") (auto simp: i find_at_word.simps [of _ _ "[]"])
next
  case (Suc n)
  then have lt: "i < length data" by simp
  then have d: "drop i data = data ! i # drop (Suc i) data" by (simp add: Cons_nth_drop_Suc)
  have u: "[i..<Suc (length data)] = i # [Suc i..<Suc (length data)]" using lt by (simp add: upt_conv_Cons del: upt_Suc)
  have w: "word_start data i \<longleftrightarrow> before \<noteq> re_word (data ! i)" using Suc.prems lt by (simp add: word_start_def)
  have IH: "find_at_word (re_word (data ! i)) m (drop (Suc i) data) =
     map_option (\<lambda>j. hd (m (drop j data))) (find (\<lambda>j. word_start data j \<and> m (drop j data) \<noteq> []) [Suc i..<Suc (length data)])"
    using Suc.hyps(1) [of "Suc i" "re_word (data ! i)"] Suc.hyps(2) lt by (simp del: upt_Suc)
  have "find_at_word before m (drop i data) =
     (if word_start data i \<and> m (drop i data) \<noteq> [] then Some (hd (m (drop i data)))
      else find_at_word (re_word (data ! i)) m (drop (Suc i) data))"
    by (simp only: d find_at_word_Cons w)
  then show ?case unfolding u find.simps IH by simp
qed

lemma find_at_word_first:
  "find_at_word False m x = map_option (\<lambda>i. hd (m (drop i x))) (first_at_word m x)"
  using find_at_word_from [of 0 x False m] by (simp add: first_at_word_def del: upt_Suc)

section \<open>Braces\<close>

fun brace_depth :: "string \<Rightarrow> int" where
  "brace_depth [] = 0"
| "brace_depth (c # x) = (if c = CHR ''{'' then 1 else if c = CHR ''}'' then -1 else 0) + brace_depth x"

text \<open>Every closing brace has its opening brace before it, and the other way round.\<close>

definition balanced :: "string \<Rightarrow> bool" where
  "balanced b \<longleftrightarrow> brace_depth b = 0 \<and> list_all (\<lambda>n. 0 \<le> brace_depth (take n b)) [0..<length b]"

definition closes :: "nat \<Rightarrow> string \<Rightarrow> bool" where
  "closes d b \<longleftrightarrow> int d + brace_depth b = 1 \<and> (\<forall>n < length b. 1 \<le> int d + brace_depth (take n b))"

lemma closes_Nil [simp]: "closes d [] \<longleftrightarrow> d = 1"
  by (simp add: closes_def)

lemma closes_Cons:
  assumes "0 < d"
  shows "closes d (c # b) \<longleftrightarrow>
     (if c = CHR ''{'' then closes (d + 1) b else if c = CHR ''}'' then d \<noteq> 1 \<and> closes (d - 1) b else closes d b)"
  (is "_ \<longleftrightarrow> ?r")
proof -
  define k :: int where "k = (if c = CHR ''{'' then 1 else if c = CHR ''}'' then -1 else 0)"
  have "(\<forall>n < length (c # b). 1 \<le> int d + brace_depth (take n (c # b)))
     \<longleftrightarrow> (\<forall>n < length b. 1 \<le> int d + k + brace_depth (take n b))"
    (is "?l \<longleftrightarrow> ?s")
  proof
    assume l: ?l
    show ?s
    proof (intro allI impI)
      fix n assume "n < length b"
      then show "1 \<le> int d + k + brace_depth (take n b)" using spec [OF l, of "Suc n"] by (simp add: k_def)
    qed
  next
    assume s: ?s
    show ?l
    proof (intro allI impI)
      fix n assume "n < length (c # b)"
      then show "1 \<le> int d + brace_depth (take n (c # b))"
        using assms s by (cases n) (auto simp: k_def add.assoc)
    qed
  qed
  moreover have "brace_depth (c # b) = k + brace_depth b" by (simp add: k_def)
  ultimately have e: "closes d (c # b) \<longleftrightarrow>
     int d + k + brace_depth b = 1 \<and> (\<forall>n < length b. 1 \<le> int d + k + brace_depth (take n b))"
    unfolding closes_def by (simp add: add.assoc)
  have "\<not> closes d (c # b)" if "c = CHR ''}''" "d = 1"
  proof
    assume "closes d (c # b)"
    with e that have z: "brace_depth b = 1" "\<forall>n < length b. 1 \<le> brace_depth (take n b)" by (auto simp: k_def)
    then show False by (cases b) auto
  qed
  with e assms show ?thesis by (auto simp: closes_def k_def of_nat_diff)
qed

lemma body_to_spec:
  "0 < d \<Longrightarrow> body_to d x = Some b \<longleftrightarrow> (\<exists>post. x = b @ ''}'' @ post) \<and> closes d b"
proof (induction d x arbitrary: b rule: body_to.induct)
  case (2 d c x)
  show ?case
  proof (cases b)
    case Nil
    then show ?thesis using 2 by auto
  next
    case (Cons c' b')
    have "closes d (c # b') \<longleftrightarrow> (if c = CHR ''{'' then closes (d + 1) b'
        else if c = CHR ''}'' then d \<noteq> 1 \<and> closes (d - 1) b' else closes d b')"
      by (rule closes_Cons [OF 2(4)])
    then show ?thesis using 2 unfolding Cons by auto
  qed
qed simp

lemma closes_balanced: "closes (Suc 0) b \<longleftrightarrow> balanced b"
  by (auto simp: closes_def balanced_def list_all_iff)

section \<open>The body of a C function\<close>

definition arg_char :: "char \<Rightarrow> bool" where
  "arg_char c \<longleftrightarrow> c \<noteq> CHR '';'' \<and> c \<noteq> CHR ''{''"

lemma function_head_set:
  "(cs, r) \<in> set (function_head symbol x) \<longleftrightarrow>
     cs = [] \<and> (\<exists>w1 args w2. x = symbol @ w1 @ ''('' @ args @ '')'' @ w2 @ ''{'' @ r
       \<and> list_all re_space w1 \<and> list_all arg_char args \<and> list_all re_space w2)"
  unfolding function_head_def arg_char_def [abs_def]
  by (simp only: m_seq_set m_lit_set m_many_set) (simp, blast)

text \<open>There is at most one rest, whatever way the head matches: it follows the first opening brace.\<close>

lemma function_head_unique:
  assumes "(cs, r) \<in> set (function_head symbol x)" and "(ds, s) \<in> set (function_head symbol x)"
  shows "s = r"
proof -
  have rest: "r = tl (dropWhile (\<lambda>c. c \<noteq> CHR ''{'') (drop (length symbol) x))"
    if "(cs, r) \<in> set (function_head symbol x)" for cs r
  proof -
    obtain w1 args w2 where x: "x = symbol @ w1 @ ''('' @ args @ '')'' @ w2 @ ''{'' @ r"
      and w: "list_all re_space w1" "list_all arg_char args" "list_all re_space w2"
      using \<open>(cs, r) \<in> set (function_head symbol x)\<close> unfolding function_head_set by blast
    define u where "u = w1 @ ''('' @ args @ '')'' @ w2"
    have "\<not> re_space (CHR ''{'')" "\<not> arg_char (CHR ''{'')" by (simp_all add: re_space_def arg_char_def)
    then have "CHR ''{'' \<notin> set w1" "CHR ''{'' \<notin> set args" "CHR ''{'' \<notin> set w2"
      using w by (metis list_all_iff)+
    then have "c \<noteq> CHR ''{''" if "c \<in> set u" for c
      using that by (auto simp: u_def)
    then have "dropWhile (\<lambda>c. c \<noteq> CHR ''{'') (u @ ''{'' @ r) = ''{'' @ r"
      by (simp add: dropWhile_append2)
    moreover have "x = symbol @ u @ ''{'' @ r" by (simp add: x u_def)
    ultimately show ?thesis by simp
  qed
  show ?thesis using rest [OF assms(1)] rest [OF assms(2)] by simp
qed


end
