(* ===== verification/FirmwareCheck.thy ===== *)
theory FirmwareCheck
  imports SourceScan ContractReceipt "HOL-Library.Signed_Division"
begin

text \<open>
  \<open>internal/api/cmd/firmware-contract-check\<close>: the comparison of a recorded contract with the sources of
  the tagged firmware release. Files are read from git through a cache that all checks share; the theorems
  show that the cache is invisible, that no file is read twice, and what a passed check establishes.
\<close>

section \<open>Reading files\<close>

text \<open>
  The environment: \<open>git -C root args\<close>, \<open>os.ReadFile(filepath.Join(root, file))\<close>, and the rank by which
  the names of a constant Go map are visited: any rank, so any order. On Unix \<open>filepath.ToSlash\<close> is the
  identity.
\<close>

record 'x check_env =
  ce_git :: "string \<Rightarrow> string list \<Rightarrow> 'x + string"
  ce_disk :: "string \<Rightarrow> string \<Rightarrow> 'x + string"
  ce_rank :: "string \<Rightarrow> nat"

definition visited :: "'x check_env \<Rightarrow> (string \<times> 'a) list \<Rightarrow> (string \<times> 'a) list" where
  "visited env entries = sort_key (\<lambda>(name, _). ce_rank env name) entries"

record firmware_source =
  fs_root :: string
  fs_revision :: string

text \<open>
  The state of a check is the map \<open>checked\<close> and, for the statements about it, the list of the files that
  were fetched, the latest first.
\<close>

record check_state =
  ck_checked :: "string \<rightharpoonup> string"
  ck_fetched :: "string list"

type_synonym ('x, 'a) check = "check_state \<Rightarrow> ('x err_message + 'a) \<times> check_state"

definition cbind :: "('x, 'a) check \<Rightarrow> ('a \<Rightarrow> ('x, 'b) check) \<Rightarrow> ('x, 'b) check" where
  "cbind m k s = (case m s of (Inl e, s') \<Rightarrow> (Inl e, s') | (Inr a, s') \<Rightarrow> k a s')"

definition pure_result :: "('x err_message + 'a) \<Rightarrow> ('x, 'a) check" where
  "pure_result r s = (r, s)"

definition with_prefix :: "'x err_message \<Rightarrow> ('x, 'a) check \<Rightarrow> ('x, 'a) check" where
  "with_prefix prefix m s = (case m s of (Inl e, s') \<Rightarrow> (Inl (prefix @ e), s') | (Inr a, s') \<Rightarrow> (Inr a, s'))"

definition require :: "bool \<Rightarrow> 'x err_message \<Rightarrow> ('x, unit) check" where
  "require good e = pure_result (guard (\<not> good) e)"

fun ceach :: "('a \<Rightarrow> ('x, unit) check) \<Rightarrow> 'a list \<Rightarrow> ('x, unit) check" where
  "ceach f [] = pure_result (Inr ())"
| "ceach f (x # xs) = cbind (f x) (\<lambda>_. ceach f xs)"

fun csteps :: "('x, unit) check list \<Rightarrow> ('x, unit) check" where
  "csteps [] = pure_result (Inr ())"
| "csteps (m # ms) = cbind m (\<lambda>_. csteps ms)"

definition git_output_bytes :: "'x check_env \<Rightarrow> string \<Rightarrow> string list \<Rightarrow> 'x err_message + string" where
  "git_output_bytes env root args =
     map_sum (\<lambda>e. [Txt ''git '', Txt (join_with '' '' args), Txt '': '', Wrapped e]) id (ce_git env root args)"

definition git_output :: "'x check_env \<Rightarrow> string \<Rightarrow> string list \<Rightarrow> 'x err_message + string" where
  "git_output env root args = map_sum id trim_space (git_output_bytes env root args)"

definition new_tagged_firmware_source :: "'x check_env \<Rightarrow> string \<Rightarrow> string \<Rightarrow> 'x err_message + firmware_source" where
  "new_tagged_firmware_source env root release =
     (let revision = ''refs/tags/'' @ release in
      case git_output env root [''rev-parse'', ''--verify'', revision @ ''^{commit}''] of
        Inl e \<Rightarrow> Inl ([Txt ''resolve firmware release tag '', Quoted release, Txt '': ''] @ e)
      | Inr _ \<Rightarrow> Inr \<lparr>fs_root = root, fs_revision = revision\<rparr>)"

definition fetch_file :: "'x check_env \<Rightarrow> firmware_source \<Rightarrow> string \<Rightarrow> 'x err_message + string" where
  "fetch_file env src file =
     map_sum (\<lambda>e. [Txt ''read '', Txt file, Txt '': ''] @ e) id
       (if fs_revision src = [] then map_sum (\<lambda>e. [Wrapped e]) id (ce_disk env (fs_root src) file)
        else git_output_bytes env (fs_root src) [''show'', fs_revision src @ '':'' @ file])"

definition read_file :: "'x check_env \<Rightarrow> firmware_source \<Rightarrow> string \<Rightarrow> ('x, string) check" where
  "read_file env src file s =
     (case ck_checked s file of
        Some data \<Rightarrow> (Inr data, s)
      | None \<Rightarrow>
          (let s' = s\<lparr>ck_fetched := file # ck_fetched s\<rparr> in
           case fetch_file env src file of
             Inl e \<Rightarrow> (Inl e, s')
           | Inr data \<Rightarrow> (Inr data, s'\<lparr>ck_checked := (ck_checked s)(file \<mapsto> data)\<rparr>)))"

section \<open>Files and markers\<close>

text \<open>Text with literal backslashes, given by what stands between them.\<close>

definition backslashed :: "string list \<Rightarrow> string" where
  "backslashed parts = join_with [CHR 0x5C] parts"

definition versionPath :: string where "versionPath = ''applications/services/web_server/http_api/http_api.h''"
definition rootSource :: string where "rootSource = ''applications/services/web_server/http_api/api_root.c''"
definition displaySource :: string where "displaySource = ''applications/services/web_server/http_api/api_display.c''"
definition storageSource :: string where "storageSource = ''applications/services/web_server/http_api/api_storage.c''"
definition updateSource :: string where "updateSource = ''applications/services/web_server/http_api/api_update.c''"
definition streamingSource :: string where "streamingSource = ''applications/services/web_server/http_api/api_streaming.c''"
definition webServerHeader :: string where "webServerHeader = ''applications/services/web_server/web_server_i.h''"
definition logSource :: string where "logSource = ''applications/services/web_server/http_api/api_log.c''"
definition statusSource :: string where "statusSource = ''applications/services/web_server/http_api/api_status_streaming.c''"
definition publisherSource :: string where "publisherSource = ''applications/services/state_publisher/state_publisher.c''"
definition streamerSource :: string where "streamerSource = ''applications/services/state_publisher/screen_streamer.c''"
definition subscriptionsSource :: string where "subscriptionsSource = ''applications/services/state_publisher/subscriptions.c''"
definition colorSource :: string where "colorSource = ''lib/toolbox/color.c''"
definition frontSource :: string where "frontSource = ''applications/services/front_display/front_display.h''"
definition backSource :: string where "backSource = ''applications/services/back_display/back_display.h''"
definition canvasSource :: string where "canvasSource = ''applications/services/gui/modules/canvas.c''"
definition cliSocketSource :: string where "cliSocketSource = ''applications/services/cli_socket/cli_socket.c''"
definition usbNetworkSource :: string where "usbNetworkSource = ''applications/services/usb_network/settings/usb_network_settings_interface_v1.c''"
definition promptSource :: string where "promptSource = ''lib/cli/shell/cli_shell_line.c''"
definition powerSource :: string where "powerSource = ''applications/services/power/power_cli.c''"
definition pngSource :: string where "pngSource = ''targets/f21/config/lv_conf.h''"
definition audioSource :: string where "audioSource = ''applications/services/audio/audio.c''"
definition audioHeader :: string where "audioHeader = ''applications/services/audio/audio.h''"
definition connectionSource :: string where "connectionSource = ''applications/services/mqtt/mqtt_connection.c''"
definition internalSource :: string where "internalSource = ''applications/services/mqtt/mqtt_i.h''"
definition subscriptionSource :: string where "subscriptionSource = ''applications/services/mqtt/mqtt_subscription.c''"
definition messageSource :: string where "messageSource = ''applications/services/mqtt/mqtt_message.c''"
definition proxySource :: string where "proxySource = ''applications/services/mqtt/modules/mqtt_http_proxy.c''"
definition mqttStreamSource :: string where "mqttStreamSource = ''applications/services/mqtt/modules/mqtt_streaming.c''"

text \<open>The loops over source references and over markers.\<close>

definition check_references ::
  "'x check_env \<Rightarrow> firmware_source \<Rightarrow> string \<Rightarrow> string \<Rightarrow> source_reference list \<Rightarrow> ('x, unit) check" where
  "check_references env src area kind references = ceach (\<lambda>r.
     cbind (with_prefix [Txt area, Txt '': ''] (read_file env src (src_file r))) (\<lambda>data.
       require (contains data (src_symbol r))
         [Txt kind, Txt '' source symbol '', Quoted (src_symbol r), Txt '' is missing from '', Txt (src_file r)])) references"

definition check_markers :: "string \<Rightarrow> string \<Rightarrow> string list \<Rightarrow> ('x, unit) check" where
  "check_markers file data markers =
     ceach (\<lambda>m. require (contains data m) [Txt file, Txt '' is missing '', Quoted m]) markers"

section \<open>The checks\<close>

definition check_operation_sources ::
  "(string \<Rightarrow> string) \<Rightarrow> 'x check_env \<Rightarrow> firmware_source \<Rightarrow> api_operation list \<Rightarrow> ('x, unit) check" where
  "check_operation_sources um env src ops = ceach (\<lambda>op.
     cbind (with_prefix [Txt (contract_id um op), Txt '': ''] (read_file env src (co_file op))) (\<lambda>data.
       require (contains data (co_symbol op))
         [Txt (contract_id um op), Txt '' source symbol '', Quoted (co_symbol op), Txt '' is missing from '', Txt (co_file op)])) ops"

definition required_capabilities :: "(string \<times> string list) list" where
  "required_capabilities =
     [(rootSource,
       [''bool api_access_api_tokens_list_callback('', ''bool api_access_api_tokens_mint_callback('',
        ''bool api_access_api_tokens_revoke_callback('',
        ''const char* access_tokens_path = \"access/tokens\";'',
        ''furi_string_start_with_str(path, access_tokens_path)'',
        ''furi_string_right(path, strlen(access_tokens_path));'',
        ''handled = api_access_tokens_callback(path, method, conn, msg, ctx);'',
        ''return api_access_api_tokens_list_callback(path, method, conn, msg, ctx);'',
        ''return api_access_api_tokens_mint_callback(path, method, conn, msg, ctx);'',
        ''return api_access_api_tokens_revoke_callback(path, method, conn, msg, ctx);'']),
      (displaySource,
       [''mg_json_get_tok(element, \"$.z_index\")'', ''canvas_element->z_index = z_index;'',
        ''*default_z_index += 10;'', ''{\"xpmbitmap\", api_display_draw_parse_xpm_element}'',
        ''cJSON_GetObjectItem(body, \"element_ids\")'',
        ''canvas_delete_elements(canvas, app_name, (const char* const*)element_ids);'']),
      (storageSource,
       [''mg_http_get_var(params_str, \"append\"'',
        ''api_storage_parse_append_parameter(&msg->query, &append)'',
        ''http_upload_start(conn, msg, furi_string_get_cstr(file_path), append);'']),
      (updateSource,
       [backslashed [''\"{'', ''\"error'', ''\":'', ''\"%M'', ''\", '', ''\"error_code'', ''\":'', ''\"%s'', ''\"}'', ''n\"'']])]"

definition check_required_capabilities :: "'x check_env \<Rightarrow> firmware_source \<Rightarrow> ('x, unit) check" where
  "check_required_capabilities env src = ceach (\<lambda>(file, markers).
     cbind (with_prefix [Txt ''required capabilities: ''] (read_file env src file)) (\<lambda>data.
       ceach (\<lambda>m. require (contains data m)
         [Txt ''required capability marker '', Quoted m, Txt '' is missing from '', Txt file]) markers)) required_capabilities"

definition check_http_screen_transport :: "'x check_env \<Rightarrow> firmware_source \<Rightarrow> ('x, unit) check" where
  "check_http_screen_transport env src =
     cbind (read_file env src streamingSource) (\<lambda>streaming.
     cbind (read_file env src webServerHeader) (\<lambda>header. csteps
       [require (contains streaming ''MG_REPLY_IMAGE(conn, frame, frame_size)'')
          [Txt streamingSource, Txt '' does not return screen frames through MG_REPLY_IMAGE''],
        require (contains header ''#define MG_REPLY_IMAGE'' \<and> contains header ''mg_print_base64'')
          [Txt webServerHeader, Txt '' does not encode MG_REPLY_IMAGE bodies as base64'']]))"

definition log_dump_markers :: "string list" where
  "log_dump_markers =
     [''HTTP_API_LOG_DUMP_FILENAME_MAX 64'', ''mg_http_get_var(&msg->query, \"filename\"'',
      ''http_api_log_filename_is_valid(filename, filename_length)'',
      ''path_concat(STORAGE_EXT_PATH_PREFIX, filename, full_path_builder)'',
      ''furi_string_cat_printf(full_path_builder, \".txt\")'',
      backslashed [''{'', ''\"result'', ''\":'', ''\"OK'', ''\",'', ''\"path'', ''\":'', ''\"%s'', ''\"}''],
      ''MG_REPLY_ERROR(conn, 508, \"Failed to dump logs.\")'']"

definition check_log_dump :: "'x check_env \<Rightarrow> firmware_source \<Rightarrow> ('x, unit) check" where
  "check_log_dump env src =
     cbind (read_file env src logSource) (\<lambda>data.
       ceach (\<lambda>m. require (contains data m)
         [Txt ''firmware log dump marker '', Quoted m, Txt '' is missing from '', Txt logSource]) log_dump_markers)"

definition quoted_text :: "string \<Rightarrow> string" where
  "quoted_text s = [quote_char] @ s @ [quote_char]"

definition status_markers :: "status_stream_contract \<Rightarrow> string list" where
  "status_markers c =
     [quoted_text ''$.enable'', quoted_text ''$.send'', ''strcmp(\"all\", send_value)'', ''BSB_Error_Severity_FATAL'',
      ''BSB_Error_Cause_'' @ css_fatal_error_cause c]"

definition query_markers :: "status_stream_contract \<Rightarrow> string list" where
  "query_markers c = [quoted_text (css_access_key_query c), quoted_text (css_api_semver_query c)]"

definition publisher_markers :: "string list" where
  "publisher_markers =
     [''state_publisher_send_complete_snapshot'', ''state_publisher_collect_all'', ''screen_streamer_front'',
      ''GuiDisplayIdFront'']"

definition check_status_stream ::
  "'x check_env \<Rightarrow> firmware_source \<Rightarrow> status_stream_contract \<Rightarrow> ('x, unit) check" where
  "check_status_stream env src c =
     cbind (check_references env src ''status stream'' ''status stream'' (css_references c)) (\<lambda>_.
     cbind (read_file env src statusSource) (\<lambda>stream.
     cbind (read_file env src rootSource) (\<lambda>root.
     cbind (read_file env src publisherSource) (\<lambda>publisher. csteps
       [pure_result (check_define statusSource stream ''MAX_CLIENTS_COUNT'' (css_max_clients c)),
        pure_result (check_define statusSource stream ''FRAME_INTERVAL_MS'' (css_frame_interval_ms c)),
        pure_result (check_define statusSource stream ''CLIENT_HEARTBEAT_INTERVAL_MS'' (css_client_heartbeat_ms c)),
        pure_result (check_define publisherSource publisher ''HEARTBEAT_INTERVAL_MS'' (css_publisher_heartbeat_ms c)),
        require (map_option fst (find_match rateLimitPattern stream)
                   = Some [format_int (css_rate_max_packets c), format_int (css_rate_period_ms c)])
          [Txt statusSource, Txt '' rate limit does not match receipt ('', Num (css_rate_max_packets c),
           Txt '' packets per '', Num (css_rate_period_ms c), Txt '' ms)''],
        ceach (\<lambda>(file, data, m). require (contains data m) [Txt file, Txt '' is missing '', Quoted m])
          (map (\<lambda>m. (statusSource, stream, m)) (status_markers c) @ map (\<lambda>m. (rootSource, root, m)) (query_markers c)
           @ map (\<lambda>m. (publisherSource, publisher, m)) publisher_markers),
        require (\<not> (css_front_frames_only c \<and> contains publisher ''screen_streamer_back''))
          [Txt publisherSource, Txt '' now contains a back-display streamer; refresh the status stream receipt'']]))))"

definition screen_markers :: "string list" where
  "screen_markers =
     [''FRONT_DISPLAY_BUF_SIZE'', ''BACK_DISPLAY_BUF_SIZE'', ''color_buf_l8_to_l4'']"

definition streamer_markers :: "string list" where
  "streamer_markers =
     [''ScreenStreamerPixelFormatR8G8B8'', ''ScreenStreamerPixelFormatL4'',
      ''const uint8_t blk_size = instance->display_id == GuiDisplayIdFront ? 3 : 2;'',
      ''ScreenStreamerCompressionRLE'', ''ScreenStreamerCompressionPlain'']"

definition mapping_markers :: "string list" where
  "mapping_markers =
     [''ScreenStreamerCompressionPlain] = BSB_Frame_Encoding_PLAIN'',
      ''ScreenStreamerCompressionRLE] = BSB_Frame_Encoding_RUN_LENGTH'',
      ''ScreenStreamerPixelFormatR8G8B8] = BSB_Frame_PixelFormat_RGB888'',
      ''ScreenStreamerPixelFormatL8] = BSB_Frame_PixelFormat_L8'',
      ''ScreenStreamerPixelFormatL4] = BSB_Frame_PixelFormat_L4'',
      ''GuiDisplayIdFront] = BSB_Frame_Screen_FRONT'', ''GuiDisplayIdBack] = BSB_Frame_Screen_BACK'']"

definition color_markers :: "string list" where
  "color_markers =
     [''(src_u8[src_i] >> 4) | (src_u8[src_i + 1] & 0xF0)'']"

definition canvas_markers :: "string list" where
  "canvas_markers =
     [''data[2] = color.red;'', ''data[1] = color.green;'', ''data[0] = color.blue;'']"

definition check_frames :: "'x check_env \<Rightarrow> firmware_source \<Rightarrow> frame_contract \<Rightarrow> ('x, unit) check" where
  "check_frames env src c =
     cbind (check_references env src ''frames'' ''frame'' (cfr_references c)) (\<lambda>_.
     cbind (read_file env src streamingSource) (\<lambda>http.
     cbind (read_file env src streamerSource) (\<lambda>streamer.
     cbind (read_file env src subscriptionsSource) (\<lambda>subscriptions.
     cbind (read_file env src colorSource) (\<lambda>color.
     cbind (read_file env src frontSource) (\<lambda>front.
     cbind (read_file env src backSource) (\<lambda>back.
     cbind (read_file env src canvasSource) (\<lambda>canvas. csteps
       [ceach (\<lambda>(file, data, name, want). pure_result (check_define file data name want))
          [(frontSource, front, ''FRONT_DISPLAY_W'', cfs_width (cfr_front c)),
           (frontSource, front, ''FRONT_DISPLAY_H'', cfs_height (cfr_front c)),
           (frontSource, front, ''FRONT_DISPLAY_BPP'', 24),
           (backSource, back, ''BACK_DISPLAY_W'', cfs_width (cfr_back c)),
           (backSource, back, ''BACK_DISPLAY_H'', cfs_height (cfr_back c)),
           (backSource, back, ''BACK_DISPLAY_BPP'', 8)],
        (let need = cfs_width (cfr_front c) * cfs_height (cfr_front c) * 3 in
         require (cfs_plain_bytes (cfr_front c) = need)
           [Txt ''front frame plain size = '', Num (cfs_plain_bytes (cfr_front c)), Txt '', dimensions require '', Num need]),
        (let need = (cfs_width (cfr_back c) * cfs_height (cfr_back c)) sdiv 2 in
         require (cfs_plain_bytes (cfr_back c) = need)
           [Txt ''back frame plain size = '', Num (cfs_plain_bytes (cfr_back c)), Txt '', dimensions require '', Num need]),
        ceach (\<lambda>(file, data, m). require (contains data m) [Txt file, Txt '' is missing '', Quoted m])
          (map (\<lambda>m. (streamingSource, http, m)) screen_markers
           @ map (\<lambda>m. (streamerSource, streamer, m)) streamer_markers
           @ map (\<lambda>m. (subscriptionsSource, subscriptions, m)) mapping_markers
           @ map (\<lambda>m. (colorSource, color, m)) color_markers
           @ map (\<lambda>m. (canvasSource, canvas, m)) canvas_markers)]))))))))"

definition check_snapshots ::
  "(string \<Rightarrow> string) \<Rightarrow> 'x check_env \<Rightarrow> firmware_source \<Rightarrow> firmware_contract \<Rightarrow> ('x, unit) check" where
  "check_snapshots um env src c = csteps
     [check_references env src ''snapshots'' ''snapshot'' (csn_references (ctr_snapshots c)),
      ceach (\<lambda>endpoint.
        case contract_operation um c (''GET '' @ csh_path endpoint) of
          None \<Rightarrow> pure_result (Inl [Txt ''snapshot endpoint GET '', Txt (csh_path endpoint), Txt '' is not owned by phase 3''])
        | Some op \<Rightarrow>
            if co_phase op \<noteq> 3
            then pure_result (Inl [Txt ''snapshot endpoint GET '', Txt (csh_path endpoint), Txt '' is not owned by phase 3''])
            else cbind (read_file env src (co_file op)) (\<lambda>data.
              ceach (\<lambda>key. require (contains_json_key data key)
                [Txt (co_file op), Txt '' is missing canonical snapshot key '', Quoted key]) (csh_keys endpoint)))
        (csn_http (ctr_snapshots c)),
      cbind (read_file env src subscriptionsSource) (\<lambda>subscriptions.
        check_markers subscriptionsSource subscriptions
          (map (\<lambda>kind. ''BSB_State_StateUpdate_'' @ kind @ ''_tag'') (csn_update_kinds (ctr_snapshots c))))]"

definition check_optional_tools :: "'x check_env \<Rightarrow> firmware_source \<Rightarrow> tools_contract \<Rightarrow> ('x, unit) check" where
  "check_optional_tools env src t =
     (let cli = cot_cli t in csteps
     [check_references env src ''optional tools'' ''optional tools'' (ccl_references cli @ cme_references (cot_media t)),
      ceach (\<lambda>command.
        cbind (with_prefix [Txt ''CLI command '', Txt (ccm_name command), Txt '': ''] (read_file env src (ccm_file command)))
          (\<lambda>data. csteps
            [require (contains data (''name='' @ quoted_text (ccm_name command)))
               [Txt ''CLI command '', Quoted (ccm_name command), Txt '' is missing from '', Txt (ccm_file command)],
             require (contains data (ccm_symbol command))
               [Txt ''CLI command '', Quoted (ccm_name command), Txt '' source symbol '', Quoted (ccm_symbol command),
                Txt '' is missing from '', Txt (ccm_file command)]]))
        (ccl_commands cli),
      cbind (read_file env src cliSocketSource) (\<lambda>data.
        pure_result (check_define cliSocketSource data ''CLI_SOCKET_PORT'' (ccl_port cli))),
      cbind (read_file env src usbNetworkSource) (\<lambda>data.
        require (contains data (''{'' @ replace_all ''.'' '', '' (ccl_address cli) @ ''}''))
          [Txt usbNetworkSource, Txt '' is missing USB network address '', Txt (ccl_address cli)]),
      cbind (read_file env src promptSource) (\<lambda>data.
        require (contains data (quoted_text (''%s'' @ ccl_prompt cli)))
          [Txt promptSource, Txt '' is missing CLI prompt '', Quoted (ccl_prompt cli)]),
      cbind (read_file env src powerSource) (\<lambda>data.
        check_markers powerSource data [''power_cli_reboot'', quoted_text ''sw'']),
      cbind (read_file env src pngSource) (\<lambda>data.
        pure_result (check_define pngSource data ''LV_USE_LODEPNG'' 1)),
      cbind (read_file env src displaySource) (\<lambda>data.
        check_markers displaySource data
          [''header.w > display_parameters->width'', ''header.h > display_parameters->height'']),
      cbind (read_file env src audioSource) (\<lambda>data. csteps
        [pure_result (check_define audioSource data ''AUDIO_SAMPLE_RATE'' (cau_sample_rate (cme_audio (cot_media t)))),
         check_markers audioSource data [''int16_t buffer'', ''storage_file_read'']]),
      cbind (read_file env src audioHeader) (\<lambda>data.
        check_markers audioHeader data [''Header: none'', ''Channels: 1'', ''Rate: 44100 Hz'', ''Bits: 16bit LE''])])"

text \<open>The receipt's form of the firmware's blocklist.\<close>

fun method_identifier :: "string \<Rightarrow> string" where
  "method_identifier m =
     (if m = ''GET'' then ''MqttHttpProxyMethodIdGet'' else if m = ''POST'' then ''MqttHttpProxyMethodIdPost''
      else if m = ''PUT'' then ''MqttHttpProxyMethodIdPut'' else if m = ''DELETE'' then ''MqttHttpProxyMethodIdDelete''
      else [])"

fun want_blocklist :: "string list \<Rightarrow> 'x err_message + string list" where
  "want_blocklist [] = Inr []"
| "want_blocklist (operation # ops) =
     (case cut_space operation of
        Some (m, path) \<Rightarrow>
          if has_prefix path ''/api/''
          then rbind (want_blocklist ops) (\<lambda>rest. Inr ((trim_prefix path ''/api/'' @ '' '' @ method_identifier m) # rest))
          else Inl [Txt ''invalid remote blocklist receipt entry '', Quoted operation]
      | None \<Rightarrow> Inl [Txt ''invalid remote blocklist receipt entry '', Quoted operation])"

definition got_blocklist :: "string \<Rightarrow> string list" where
  "got_blocklist data = map (\<lambda>cs. cs ! 0 @ '' '' @ cs ! 1) (find_all blocklistPattern data)"

definition topic_markers :: "string list" where
  "topic_markers =
     [''root = MQTT_ROOT_TOPIC_SESSION;'',
      ''furi_string_printf(out, \"%s/%s/%s/%s/%s\", root, id, dir, MQTT_API_VERSION, topic);'',
      ''MQTT_DIRECTION_DOWN'', ''MQTT_DIRECTION_UP'']"

definition response_topic_marker :: string where
  "response_topic_marker = ''MQTT_ROOT_TOPIC_SESSION \"/*/\" MQTT_DIRECTION_UP \"/\" MQTT_API_VERSION \"/#\"''"

definition proxy_markers :: "int \<Rightarrow> string list" where
  "proxy_markers status =
     [''#define SUB_QOS (MqttQosExactlyOnce)'', ''[MqttHttpProxyMethodIdGet] = \"GET\"'',
      ''[MqttHttpProxyMethodIdPost] = \"POST\"'', ''[MqttHttpProxyMethodIdPut] = \"PUT\"'',
      ''[MqttHttpProxyMethodIdDelete] = \"DELETE\"'', ''mqtt_http_proxy_request_requires_response'',
      ''MqttPropertyTypeResponseTopic'', ''MqttPropertyTypeCorrelationData'', ''mqtt_publish_ex'',
      ''MqttQosAtLeastOnce'']
     @ [''HTTP/1.1 '' @ format_int status @ '' Unprocessable Entity'', ''mqtt_http_proxy_is_websocket_upgrade'']"

definition streaming_markers :: "remote_stream_contract \<Rightarrow> string list" where
  "streaming_markers s =
     [''#define SUB_QOS (MqttQosAtLeastOnce)'', ''#define PUB_QOS (MqttQosAtMostOnce)'',
      ''MqttPropertyTypeExpiryInterval'', ''MqttPropertyTypeResponseTopic'',
      ''.type = data_size ? MqttStreamingApiMessageTypeStart : MqttStreamingApiMessageTypeStop'']
     @ [quoted_text ''message_limits'', quoted_text (crs_max_count_key s), quoted_text (crs_interval_key s),
        ''state_publisher_handle'', ''response_topic'', ''state_publisher_add_transport'']"

text \<open>The checks of the proxy and of the streaming module, whose sources have been read.\<close>

definition check_proxy :: "'x check_env \<Rightarrow> string \<Rightarrow> remote_http_contract \<Rightarrow> ('x, unit) check" where
  "check_proxy env data h = csteps
     [ceach (\<lambda>(name, want). pure_result (check_string_define proxySource data name want))
        (visited env [(''HTTP_HOST'', crh_local_host h), (''HTTP_URI_API_PREFIX'', crh_path_prefix h),
                            (''SUB_TOPIC'', crh_request_topic h)]),
      check_markers proxySource data (proxy_markers (crh_invalid_status h)),
      pure_result (check_define proxySource data ''HTTP_CONN_TIMEOUT_MS'' (crh_timeout_ms h)),
      cbind (pure_result (want_blocklist (crh_blocked h))) (\<lambda>want.
        require (got_blocklist data = want)
          [Txt proxySource, Txt '' blocklist = '', Listing (got_blocklist data), Txt '', receipt = '', Listing want])]"

definition check_streaming :: "'x check_env \<Rightarrow> string \<Rightarrow> remote_stream_contract \<Rightarrow> ('x, unit) check" where
  "check_streaming env data s = csteps
     [pure_result (check_string_define mqttStreamSource data ''SUB_TOPIC'' (crs_request_topic s)),
      check_markers mqttStreamSource data (streaming_markers s),
      ceach (\<lambda>(name, want). pure_result (check_define mqttStreamSource data name want))
        (visited env [(''API_QUEUE_SIZE'', crs_queue_size s), (''FRAME_PERIOD_MS'', crs_frame_interval_ms s),
                           (''EXPIRY_INTERVAL_DEFAULT_S'', crs_expiry_seconds s)]),
      require (\<not> (crs_snapshot_on_start s \<or> contains data ''state_publisher_send_complete_snapshot''))
        [Txt mqttStreamSource, Txt '' remote stream now requests a complete snapshot'']]"

definition check_remote_mqtt :: "'x check_env \<Rightarrow> firmware_source \<Rightarrow> remote_contract \<Rightarrow> ('x, unit) check" where
  "check_remote_mqtt env src c = csteps
     [check_references env src ''remote MQTT'' ''remote MQTT'' (crm_references c),
      cbind (read_file env src connectionSource) (\<lambda>data.
        pure_result (check_define connectionSource data ''MQTT_VERSION'' (crm_mqtt_version c))),
      cbind (read_file env src internalSource) (\<lambda>data.
        ceach (\<lambda>(name, want). pure_result (check_string_define internalSource data name want))
          (visited env [(''MQTT_API_VERSION'', crm_api_version c), (''MQTT_ROOT_TOPIC_SESSION'', ''sessions''),
                              (''MQTT_DIRECTION_UP'', crm_up c), (''MQTT_DIRECTION_DOWN'', crm_down c)])),
      cbind (read_file env src subscriptionSource) (\<lambda>data. check_markers subscriptionSource data topic_markers),
      cbind (read_file env src messageSource) (\<lambda>data. check_markers messageSource data [response_topic_marker]),
      cbind (read_file env src proxySource) (\<lambda>data. check_proxy env data (crm_http c)),
      cbind (read_file env src mqttStreamSource) (\<lambda>data. check_streaming env data (crm_stream c)),
      cbind (read_file env src publisherSource) (\<lambda>data.
        cbind (pure_result (c_function_body publisherSource data ''state_publisher_add_transport'')) (\<lambda>body.
          require (\<not> contains body ''state_publisher_send_complete_snapshot'')
            [Txt publisherSource, Txt '' state_publisher_add_transport now requests a complete snapshot'']))]"

text \<open>
  \<open>checkFirmware\<close>; the version is read before the shared cache exists, with a cache of its own.
\<close>

definition check_version :: "string \<Rightarrow> firmware_contract \<Rightarrow> 'x err_message + unit" where
  "check_version data c =
     (case find_match apiVersionPattern data of
        None \<Rightarrow> Inl [Txt ''API_VERSION is missing from '', Txt versionPath]
      | Some (cs, _) \<Rightarrow>
          (let version = join_with ''.'' cs in
           guard (version \<noteq> ctr_api_version c)
             [Txt ''API_VERSION = '', Txt version, Txt '', receipt = '', Txt (ctr_api_version c)]))"

definition check_protobuf :: "string \<Rightarrow> firmware_contract \<Rightarrow> 'x err_message + unit" where
  "check_protobuf tree c =
     (let fields = string_fields tree in
      rbind (guard (length fields < 3 \<or> fields ! 1 \<noteq> ''commit'')
          [Txt ''assets/proto is not a firmware gitlink: '', Quoted tree]) (\<lambda>_.
        guard (fields ! 2 \<noteq> ctr_protobuf_commit c)
          [Txt ''protobuf gitlink = '', Txt (fields ! 2), Txt '', receipt = '', Txt (ctr_protobuf_commit c)]))"

definition check_sources ::
  "(string \<Rightarrow> string) \<Rightarrow> 'x check_env \<Rightarrow> firmware_source \<Rightarrow> firmware_contract \<Rightarrow> ('x, unit) check" where
  "check_sources um env src c = csteps
     [check_operation_sources um env src (ctr_operations c),
      check_status_stream env src (ctr_status_stream c),
      check_frames env src (ctr_frames c),
      check_http_screen_transport env src,
      check_snapshots um env src c,
      check_optional_tools env src (ctr_tools c),
      check_required_capabilities env src,
      check_log_dump env src,
      check_remote_mqtt env src (ctr_remote c)]"

definition empty_checked :: check_state where
  "empty_checked = \<lparr>ck_checked = Map.empty, ck_fetched = []\<rparr>"

definition check_firmware ::
  "(string \<Rightarrow> string) \<Rightarrow> 'x check_env \<Rightarrow> string \<Rightarrow> firmware_contract \<Rightarrow> 'x err_message + unit" where
  "check_firmware um env root c =
     rbind (new_tagged_firmware_source env root (ctr_release c)) (\<lambda>src.
     rbind (fst (read_file env src versionPath empty_checked)) (\<lambda>version.
     rbind (check_version version c) (\<lambda>_.
     rbind (git_output env root [''ls-tree'', fs_revision src, ''assets/proto'']) (\<lambda>tree.
     rbind (check_protobuf tree c) (\<lambda>_.
     fst (check_sources um env src c empty_checked))))))"

text \<open>\<open>main\<close> without the parsing of flags: the error it exits with, or the line it prints.\<close>

definition check_main ::
  "(string \<Rightarrow> string) \<Rightarrow> 'x check_env \<Rightarrow> (string \<Rightarrow> 'x + bytes) \<Rightarrow> (bytes \<Rightarrow> 'x + firmware_contract)
    \<Rightarrow> string \<Rightarrow> string \<Rightarrow> 'x err_message + 'x err_message" where
  "check_main um env read_contract unmarshal firmware_dir contract_path =
     (if firmware_dir = [] then Inl [Txt ''-firmware-dir is required'']
      else case load_contract_file um read_contract unmarshal contract_path of
        Inl e \<Rightarrow> Inl ([Txt ''load contract: ''] @ e)
      | Inr c \<Rightarrow>
          (case check_firmware um env firmware_dir c of
             Inl e \<Rightarrow> Inl ([Txt ''firmware contract drift: ''] @ e)
           | Inr _ \<Rightarrow> Inr [Txt ''firmware contract matches '', Txt (ctr_repository c), Txt '' release '', Txt (ctr_release c),
                          Txt '' (API '', Txt (ctr_api_version c), Txt '', '', Num (int (length (ctr_operations c))),
                          Txt '' operations, status stream, frames, snapshots, optional tools, and remote MQTT verified)'']))"

section \<open>The cache\<close>

text \<open>
  The cache holds the files as git gives them, and they are the files fetched, each once.
\<close>

definition cache_ok :: "'x check_env \<Rightarrow> firmware_source \<Rightarrow> check_state \<Rightarrow> bool" where
  "cache_ok env src s \<longleftrightarrow>
     (\<forall>f d. ck_checked s f = Some d \<longrightarrow> fetch_file env src f = Inr d)
     \<and> dom (ck_checked s) = set (ck_fetched s) \<and> distinct (ck_fetched s)"

text \<open>
  \<open>gives\<close>: whatever the cache holds, the check has the result \<open>r\<close>, fetches no file twice, and leaves
  the cache in order unless it failed.
\<close>

definition gives :: "'x check_env \<Rightarrow> firmware_source \<Rightarrow> ('x, 'a) check \<Rightarrow> ('x err_message + 'a) \<Rightarrow> bool" where
  "gives env src m r \<longleftrightarrow>
     (\<forall>s. cache_ok env src s \<longrightarrow>
        fst (m s) = r \<and> distinct (ck_fetched (snd (m s))) \<and> (is_ok r \<longrightarrow> cache_ok env src (snd (m s))))"

definition result_of :: "('x, 'a) check \<Rightarrow> 'x err_message + 'a" where
  "result_of m = fst (m empty_checked)"

definition cache_free :: "'x check_env \<Rightarrow> firmware_source \<Rightarrow> ('x, 'a) check \<Rightarrow> bool" where
  "cache_free env src m \<longleftrightarrow> gives env src m (result_of m)"

lemma empty_cache_ok: "cache_ok env src empty_checked"
  by (simp add: cache_ok_def empty_checked_def)

lemma gives_result: "gives env src m r \<Longrightarrow> r = result_of m"
  using empty_cache_ok by (auto simp: gives_def result_of_def)

lemma gives_cache_free: "gives env src m r \<Longrightarrow> cache_free env src m"
  using gives_result unfolding cache_free_def by metis

lemma gives_pure: "gives env src (pure_result r) r"
  by (simp add: gives_def pure_result_def cache_ok_def)

lemma gives_read: "gives env src (read_file env src f) (fetch_file env src f)"
  unfolding gives_def
proof (intro allI impI)
  fix s
  assume s: "cache_ok env src s"
  show "fst (read_file env src f s) = fetch_file env src f
    \<and> distinct (ck_fetched (snd (read_file env src f s)))
    \<and> (is_ok (fetch_file env src f) \<longrightarrow> cache_ok env src (snd (read_file env src f s)))"
  proof (cases "ck_checked s f")
    case None
    then have "f \<notin> dom (ck_checked s)" by auto
    then have "f \<notin> set (ck_fetched s)" using s by (simp add: cache_ok_def)
    with None s show ?thesis
      by (cases "fetch_file env src f") (auto simp: read_file_def cache_ok_def Let_def)
  next
    case (Some d)
    with s show ?thesis by (auto simp: read_file_def cache_ok_def)
  qed
qed

lemma gives_bind:
  assumes "gives env src m r" and "\<And>a. r = Inr a \<Longrightarrow> gives env src (k a) (k' a)"
  shows "gives env src (cbind m k) (rbind r k')"
  unfolding gives_def
proof (intro allI impI)
  fix s
  assume s: "cache_ok env src s"
  obtain r' s' where m: "m s = (r', s')" by fastforce
  with assms(1) s have r: "r' = r" "distinct (ck_fetched s')" "is_ok r \<Longrightarrow> cache_ok env src s'"
    by (auto simp: gives_def)
  show "fst (cbind m k s) = rbind r k' \<and> distinct (ck_fetched (snd (cbind m k s)))
    \<and> (is_ok (rbind r k') \<longrightarrow> cache_ok env src (snd (cbind m k s)))"
    using r assms(2) by (cases r) (auto simp: cbind_def m gives_def)
qed

lemma gives_prefix:
  assumes "gives env src m r"
  shows "gives env src (with_prefix p m) (map_sum (\<lambda>e. p @ e) id r)"
  unfolding gives_def
proof (intro allI impI)
  fix s
  assume s: "cache_ok env src s"
  obtain r' s' where m: "m s = (r', s')" by fastforce
  with assms s have "r' = r" "distinct (ck_fetched s')" "is_ok r \<Longrightarrow> cache_ok env src s'"
    by (auto simp: gives_def)
  then show "fst (with_prefix p m s) = map_sum (\<lambda>e. p @ e) id r \<and> distinct (ck_fetched (snd (with_prefix p m s)))
    \<and> (is_ok (map_sum (\<lambda>e. p @ e) id r) \<longrightarrow> cache_ok env src (snd (with_prefix p m s)))"
    by (cases r) (auto simp: with_prefix_def m)
qed

text \<open>The same as facts about \<open>result_of\<close>, for the simplifier.\<close>

named_theorems cfree

lemma cache_free_pure [cfree]: "cache_free env src (pure_result r)"
  by (rule gives_cache_free [OF gives_pure])

lemma cache_free_require [cfree]: "cache_free env src (require b e)"
  by (simp add: require_def cache_free_pure)

lemma cache_free_read [cfree]: "cache_free env src (read_file env src f)"
  by (rule gives_cache_free [OF gives_read])

lemma cache_free_prefix [cfree]: "cache_free env src m \<Longrightarrow> cache_free env src (with_prefix p m)"
  unfolding cache_free_def [of _ _ m] by (rule gives_cache_free [OF gives_prefix])

lemma cache_free_bind [cfree]:
  "cache_free env src m \<Longrightarrow> (\<And>a. cache_free env src (k a)) \<Longrightarrow> cache_free env src (cbind m k)"
  unfolding cache_free_def [of _ _ m] cache_free_def [of _ _ "k _"] by (rule gives_cache_free [OF gives_bind])

lemma cache_free_each [cfree]: "(\<And>x. cache_free env src (f x)) \<Longrightarrow> cache_free env src (ceach f xs)"
  by (induction xs) (auto intro: cfree)

lemma cache_free_steps_Nil [cfree]: "cache_free env src (csteps [])"
  by (simp add: cfree)

lemma cache_free_steps_Cons [cfree]:
  "cache_free env src m \<Longrightarrow> cache_free env src (csteps ms) \<Longrightarrow> cache_free env src (csteps (m # ms))"
  by (simp add: cache_free_bind)

lemma cache_free_if [cfree]:
  "cache_free env src m \<Longrightarrow> cache_free env src n \<Longrightarrow> cache_free env src (if b then m else n)"
  by simp

lemma cache_free_option [cfree]:
  "cache_free env src m \<Longrightarrow> (\<And>a. cache_free env src (k a)) \<Longrightarrow>
     cache_free env src (case x of None \<Rightarrow> m | Some a \<Rightarrow> k a)"
  by (cases x) simp_all

lemma cache_free_prod [cfree]:
  "(\<And>a b. cache_free env src (k a b)) \<Longrightarrow> cache_free env src (case x of (a, b) \<Rightarrow> k a b)"
  by (cases x) simp

lemmas check_defs =
  check_references_def check_markers_def check_operation_sources_def check_required_capabilities_def
  check_http_screen_transport_def check_log_dump_def check_status_stream_def check_frames_def check_snapshots_def
  check_optional_tools_def check_proxy_def check_streaming_def check_remote_mqtt_def

lemma check_sources_cache_free: "cache_free env src (check_sources um env src c)"
  unfolding check_sources_def check_defs Let_def by (intro cfree)

section \<open>What a passed check establishes\<close>

lemma result_pure [simp]: "result_of (pure_result r) = r"
  by (simp add: result_of_def pure_result_def)

lemma result_require [simp]: "result_of (require b e) = Inr u \<longleftrightarrow> b"
  by (simp add: require_def)

lemma result_read [simp]: "result_of (read_file env src f) = fetch_file env src f"
  using gives_result [OF gives_read] by metis

lemma result_prefix:
  "cache_free env src m \<Longrightarrow> result_of (with_prefix p m) = map_sum (\<lambda>e. p @ e) id (result_of m)"
  using gives_result [OF gives_prefix] unfolding cache_free_def by metis

lemma result_bind:
  "cache_free env src m \<Longrightarrow> (\<And>a. cache_free env src (k a)) \<Longrightarrow>
     result_of (cbind m k) = rbind (result_of m) (\<lambda>a. result_of (k a))"
  using gives_result [OF gives_bind] unfolding cache_free_def by metis

lemma result_each:
  assumes "\<And>x. cache_free env src (f x)"
  shows "result_of (ceach f xs) = Inr u \<longleftrightarrow> list_all (\<lambda>x. result_of (f x) = Inr ()) xs"
  by (induction xs) (auto simp: result_bind [of env src] assms cfree rbind_eq_Inr)

lemma cache_free_steps: "list_all (cache_free env src) ms \<Longrightarrow> cache_free env src (csteps ms)"
  by (induction ms) (auto simp: cfree simp del: csteps.simps)

lemma result_steps:
  "list_all (cache_free env src) ms \<Longrightarrow> result_of (csteps ms) = Inr u \<longleftrightarrow> list_all (\<lambda>m. result_of m = Inr ()) ms"
proof (induction ms)
  case (Cons m ms)
  then have "cache_free env src (csteps ms)" by (simp add: cache_free_steps)
  with Cons show ?case by (auto simp: result_bind [of env src] rbind_eq_Inr)
qed simp

declare csteps.simps [simp del] ceach.simps [simp del]

text \<open>A file that can be read and has a property.\<close>

definition file_sat :: "'x check_env \<Rightarrow> firmware_source \<Rightarrow> string \<Rightarrow> (string \<Rightarrow> bool) \<Rightarrow> bool" where
  "file_sat env src f P = (case fetch_file env src f of Inl _ \<Rightarrow> False | Inr d \<Rightarrow> P d)"

lemma result_bind_read:
  "(\<And>d. cache_free env src (k d)) \<Longrightarrow>
     result_of (cbind (read_file env src f) k) = Inr u \<longleftrightarrow> file_sat env src f (\<lambda>d. result_of (k d) = Inr u)"
  by (auto simp: result_bind [of env src] cfree rbind_eq_Inr file_sat_def split: sum.splits)

lemma result_bind_read_prefix:
  "(\<And>d. cache_free env src (k d)) \<Longrightarrow>
     result_of (cbind (with_prefix p (read_file env src f)) k) = Inr u
       \<longleftrightarrow> file_sat env src f (\<lambda>d. result_of (k d) = Inr u)"
  by (auto simp: result_bind [of env src] result_prefix [of env src] cfree rbind_eq_Inr file_sat_def split: sum.splits)

lemma result_bind_pure:
  "(\<And>d. cache_free env src (k d)) \<Longrightarrow>
     result_of (cbind (pure_result r) k) = Inr u \<longleftrightarrow> (\<exists>a. r = Inr a \<and> result_of (k a) = Inr u)"
  by (simp add: result_bind [of env src] cfree rbind_eq_Inr)

text \<open>The value of a define, and what the two kinds of checks ask of it.\<close>

definition define_value :: "string \<Rightarrow> string \<Rightarrow> string option" where
  "define_value data name = map_option (\<lambda>cs. cs ! 1) (find (\<lambda>cs. cs ! 0 = name) (find_all defineIntPattern data))"

definition string_define_value :: "string \<Rightarrow> string \<Rightarrow> string option" where
  "string_define_value data name = map_option (\<lambda>(cs, _). cs ! 0) (find_match (string_define_pattern name) data)"

lemma find_filter: "find P xs = (case filter P xs of [] \<Rightarrow> None | x # _ \<Rightarrow> Some x)"
  by (induction xs) auto

lemma check_define_ok [simp]:
  "check_define file data name want = Inr u \<longleftrightarrow> define_value data name = Some (format_int want)"
  by (auto simp: check_define_def define_value_def find_filter split: list.splits)

lemma check_string_define_ok [simp]:
  "check_string_define file data name want = Inr u \<longleftrightarrow> string_define_value data name = Some want"
  by (auto simp: check_string_define_def string_define_value_def split: option.splits)

lemma visited_all [simp]: "list_all P (visited env xs) \<longleftrightarrow> list_all P xs"
  by (simp add: visited_def list_all_iff)

definition has_markers :: "string list \<Rightarrow> string \<Rightarrow> bool" where
  "has_markers ms d \<longleftrightarrow> list_all (contains d) ms"

definition has_defines :: "(string \<times> int) list \<Rightarrow> string \<Rightarrow> bool" where
  "has_defines ds d \<longleftrightarrow> list_all (\<lambda>(name, v). define_value d name = Some (format_int v)) ds"

definition has_strings :: "(string \<times> string) list \<Rightarrow> string \<Rightarrow> bool" where
  "has_strings ds d \<longleftrightarrow> list_all (\<lambda>(name, v). string_define_value d name = Some v) ds"

definition references_found :: "'x check_env \<Rightarrow> firmware_source \<Rightarrow> source_reference list \<Rightarrow> bool" where
  "references_found env src rs \<longleftrightarrow> list_all (\<lambda>r. file_sat env src (src_file r) (\<lambda>d. contains d (src_symbol r))) rs"

lemma references_ok [simp]:
  "result_of (check_references env src area kind rs) = Inr u \<longleftrightarrow> references_found env src rs"
  by (simp add: check_references_def references_found_def result_each [of env src] result_bind_read_prefix cfree)

lemma references_free [cfree]: "cache_free env src (check_references env src area kind rs)"
  unfolding check_references_def by (intro cfree)

lemma markers_ok [simp]: "result_of (check_markers file d ms) = Inr u \<longleftrightarrow> has_markers ms d"
  unfolding check_markers_def has_markers_def by (subst result_each) (simp_all add: cfree)

lemma markers_free [cfree]: "cache_free env src (check_markers file d ms)"
  unfolding check_markers_def by (intro cfree)

text \<open>The agreement of each part, file by file.\<close>

definition status_stream_agrees :: "'x check_env \<Rightarrow> firmware_source \<Rightarrow> status_stream_contract \<Rightarrow> bool" where
  "status_stream_agrees env src c \<longleftrightarrow>
     references_found env src (css_references c)
     \<and> file_sat env src statusSource (\<lambda>d.
         has_defines [(''MAX_CLIENTS_COUNT'', css_max_clients c), (''FRAME_INTERVAL_MS'', css_frame_interval_ms c),
                      (''CLIENT_HEARTBEAT_INTERVAL_MS'', css_client_heartbeat_ms c)] d
         \<and> map_option fst (find_match rateLimitPattern d)
             = Some [format_int (css_rate_max_packets c), format_int (css_rate_period_ms c)]
         \<and> has_markers (status_markers c) d)
     \<and> file_sat env src rootSource (has_markers (query_markers c))
     \<and> file_sat env src publisherSource (\<lambda>d.
         has_defines [(''HEARTBEAT_INTERVAL_MS'', css_publisher_heartbeat_ms c)] d
         \<and> has_markers publisher_markers d
         \<and> \<not> (css_front_frames_only c \<and> contains d ''screen_streamer_back''))"

lemma status_stream_ok:
  "result_of (check_status_stream env src c) = Inr u \<longleftrightarrow> status_stream_agrees env src c"
  by (simp add: check_status_stream_def result_bind [of env src] rbind_eq_Inr result_steps [of env src]
      result_each [of env src] cfree cache_free_steps)
    (auto simp: status_stream_agrees_def file_sat_def has_defines_def has_markers_def list.pred_map comp_def split: sum.splits)

definition frames_agree :: "'x check_env \<Rightarrow> firmware_source \<Rightarrow> frame_contract \<Rightarrow> bool" where
  "frames_agree env src c \<longleftrightarrow>
     (let f = cfr_front c; b = cfr_back c in
     references_found env src (cfr_references c)
     \<and> file_sat env src streamingSource (has_markers screen_markers)
     \<and> file_sat env src streamerSource (has_markers streamer_markers)
     \<and> file_sat env src subscriptionsSource (has_markers mapping_markers)
     \<and> file_sat env src colorSource (has_markers color_markers)
     \<and> file_sat env src canvasSource (has_markers canvas_markers)
     \<and> file_sat env src frontSource (has_defines
         [(''FRONT_DISPLAY_W'', cfs_width f), (''FRONT_DISPLAY_H'', cfs_height f), (''FRONT_DISPLAY_BPP'', 24)])
     \<and> file_sat env src backSource (has_defines
         [(''BACK_DISPLAY_W'', cfs_width b), (''BACK_DISPLAY_H'', cfs_height b), (''BACK_DISPLAY_BPP'', 8)])
     \<and> cfs_plain_bytes f = cfs_width f * cfs_height f * 3
     \<and> cfs_plain_bytes b = (cfs_width b * cfs_height b) sdiv 2)"

lemma frames_ok: "result_of (check_frames env src c) = Inr u \<longleftrightarrow> frames_agree env src c"
  by (simp add: check_frames_def result_bind [of env src] rbind_eq_Inr result_steps [of env src]
      result_each [of env src] cfree cache_free_steps Let_def)
    (auto simp: frames_agree_def Let_def file_sat_def has_defines_def has_markers_def list.pred_map comp_def split: sum.splits)

definition snapshots_agree ::
  "(string \<Rightarrow> string) \<Rightarrow> 'x check_env \<Rightarrow> firmware_source \<Rightarrow> firmware_contract \<Rightarrow> bool" where
  "snapshots_agree um env src c \<longleftrightarrow>
     references_found env src (csn_references (ctr_snapshots c))
     \<and> list_all (\<lambda>e. case contract_operation um c (''GET '' @ csh_path e) of
           None \<Rightarrow> False
         | Some op \<Rightarrow> co_phase op = 3
             \<and> file_sat env src (co_file op) (\<lambda>d. list_all (contains_json_key d) (csh_keys e)))
         (csn_http (ctr_snapshots c))
     \<and> file_sat env src subscriptionsSource
         (has_markers (map (\<lambda>kind. ''BSB_State_StateUpdate_'' @ kind @ ''_tag'') (csn_update_kinds (ctr_snapshots c))))"

lemma snapshot_endpoint:
  "result_of (case x of None \<Rightarrow> pure_result (Inl e)
     | Some op \<Rightarrow> if co_phase op \<noteq> 3 then pure_result (Inl e')
         else cbind (read_file env src (co_file op)) (\<lambda>data. ceach (\<lambda>key. require (P data key) (e'' op key)) keys)) = Inr u
     \<longleftrightarrow> (case x of None \<Rightarrow> False
          | Some op \<Rightarrow> co_phase op = 3 \<and> file_sat env src (co_file op) (\<lambda>d. list_all (P d) keys))"
  by (simp add: result_bind_read result_each [of env src] cfree split: option.split)

lemma snapshots_ok: "result_of (check_snapshots um env src c) = Inr u \<longleftrightarrow> snapshots_agree um env src c"
  by (simp add: check_snapshots_def snapshots_agree_def result_steps [of env src] result_each [of env src]
      result_bind_read snapshot_endpoint cfree)

definition tools_agree :: "'x check_env \<Rightarrow> firmware_source \<Rightarrow> tools_contract \<Rightarrow> bool" where
  "tools_agree env src t \<longleftrightarrow>
     (let cli = cot_cli t in
     references_found env src (ccl_references cli @ cme_references (cot_media t))
     \<and> list_all (\<lambda>m. file_sat env src (ccm_file m)
          (has_markers [''name='' @ quoted_text (ccm_name m), ccm_symbol m])) (ccl_commands cli)
     \<and> file_sat env src cliSocketSource (has_defines [(''CLI_SOCKET_PORT'', ccl_port cli)])
     \<and> file_sat env src usbNetworkSource (has_markers [''{'' @ replace_all ''.'' '', '' (ccl_address cli) @ ''}''])
     \<and> file_sat env src promptSource (has_markers [quoted_text (''%s'' @ ccl_prompt cli)])
     \<and> file_sat env src powerSource (has_markers [''power_cli_reboot'', quoted_text ''sw''])
     \<and> file_sat env src pngSource (has_defines [(''LV_USE_LODEPNG'', 1)])
     \<and> file_sat env src displaySource
         (has_markers [''header.w > display_parameters->width'', ''header.h > display_parameters->height''])
     \<and> file_sat env src audioSource (\<lambda>d.
         has_defines [(''AUDIO_SAMPLE_RATE'', cau_sample_rate (cme_audio (cot_media t)))] d
         \<and> has_markers [''int16_t buffer'', ''storage_file_read''] d)
     \<and> file_sat env src audioHeader
         (has_markers [''Header: none'', ''Channels: 1'', ''Rate: 44100 Hz'', ''Bits: 16bit LE'']))"

lemma tools_ok: "result_of (check_optional_tools env src t) = Inr u \<longleftrightarrow> tools_agree env src t"
  by (simp add: check_optional_tools_def tools_agree_def Let_def result_steps [of env src] result_each [of env src]
      result_bind_read result_bind_read_prefix cfree cache_free_steps)
    (simp add: has_defines_def [abs_def] has_markers_def [abs_def])

definition features_agree :: "'x check_env \<Rightarrow> firmware_source \<Rightarrow> bool" where
  "features_agree env src \<longleftrightarrow>
     file_sat env src streamingSource (has_markers [''MG_REPLY_IMAGE(conn, frame, frame_size)''])
     \<and> file_sat env src webServerHeader (has_markers [''#define MG_REPLY_IMAGE'', ''mg_print_base64''])
     \<and> list_all (\<lambda>(file, ms). file_sat env src file (has_markers ms)) required_capabilities
     \<and> file_sat env src logSource (has_markers log_dump_markers)"

lemma screen_transport_ok:
  "result_of (check_http_screen_transport env src) = Inr u \<longleftrightarrow>
     file_sat env src streamingSource (has_markers [''MG_REPLY_IMAGE(conn, frame, frame_size)''])
     \<and> file_sat env src webServerHeader (has_markers [''#define MG_REPLY_IMAGE'', ''mg_print_base64''])"
  by (simp add: check_http_screen_transport_def result_steps [of env src] result_bind_read cfree cache_free_steps)
    (auto simp: file_sat_def has_markers_def split: sum.splits)

lemma capabilities_ok:
  "result_of (check_required_capabilities env src) = Inr u \<longleftrightarrow>
     list_all (\<lambda>(file, ms). file_sat env src file (has_markers ms)) required_capabilities"
  by (simp add: check_required_capabilities_def result_each [of env src] cfree)
    (simp add: list_all_iff split_beta result_bind_read_prefix result_each [of env src] cfree has_markers_def [abs_def])

lemma log_dump_ok:
  "result_of (check_log_dump env src) = Inr u \<longleftrightarrow> file_sat env src logSource (has_markers log_dump_markers)"
  by (simp add: check_log_dump_def result_each [of env src] result_bind_read cfree has_markers_def [abs_def])

definition remote_agrees :: "'x check_env \<Rightarrow> firmware_source \<Rightarrow> remote_contract \<Rightarrow> bool" where
  "remote_agrees env src c \<longleftrightarrow>
     (let h = crm_http c; s = crm_stream c in
     references_found env src (crm_references c)
     \<and> file_sat env src connectionSource (has_defines [(''MQTT_VERSION'', crm_mqtt_version c)])
     \<and> file_sat env src internalSource (has_strings
         [(''MQTT_API_VERSION'', crm_api_version c), (''MQTT_ROOT_TOPIC_SESSION'', ''sessions''),
          (''MQTT_DIRECTION_UP'', crm_up c), (''MQTT_DIRECTION_DOWN'', crm_down c)])
     \<and> file_sat env src subscriptionSource (has_markers topic_markers)
     \<and> file_sat env src messageSource (has_markers [response_topic_marker])
     \<and> file_sat env src proxySource (\<lambda>d.
         has_strings [(''HTTP_HOST'', crh_local_host h), (''HTTP_URI_API_PREFIX'', crh_path_prefix h),
                      (''SUB_TOPIC'', crh_request_topic h)] d
         \<and> has_markers (proxy_markers (crh_invalid_status h)) d
         \<and> has_defines [(''HTTP_CONN_TIMEOUT_MS'', crh_timeout_ms h)] d
         \<and> (want_blocklist (crh_blocked h) :: 'x err_message + string list) = Inr (got_blocklist d))
     \<and> file_sat env src mqttStreamSource (\<lambda>d.
         has_strings [(''SUB_TOPIC'', crs_request_topic s)] d
         \<and> has_markers (streaming_markers s) d
         \<and> has_defines [(''API_QUEUE_SIZE'', crs_queue_size s), (''FRAME_PERIOD_MS'', crs_frame_interval_ms s),
                        (''EXPIRY_INTERVAL_DEFAULT_S'', crs_expiry_seconds s)] d
         \<and> \<not> crs_snapshot_on_start s \<and> \<not> contains d ''state_publisher_send_complete_snapshot'')
     \<and> file_sat env src publisherSource (\<lambda>d.
         case c_function_body publisherSource d ''state_publisher_add_transport'' :: 'x err_message + string of
           Inl _ \<Rightarrow> False
         | Inr body \<Rightarrow> \<not> contains body ''state_publisher_send_complete_snapshot''))"

lemma proxy_free [cfree]: "cache_free env src (check_proxy env' d h)"
  unfolding check_proxy_def by (intro cfree)

lemma streaming_free [cfree]: "cache_free env src (check_streaming env' d s)"
  unfolding check_streaming_def by (intro cfree)

lemma proxy_ok:
  "result_of (check_proxy env d h :: ('x, unit) check) = Inr u \<longleftrightarrow>
     has_strings [(''HTTP_HOST'', crh_local_host h), (''HTTP_URI_API_PREFIX'', crh_path_prefix h),
                  (''SUB_TOPIC'', crh_request_topic h)] d
     \<and> has_markers (proxy_markers (crh_invalid_status h)) d
     \<and> has_defines [(''HTTP_CONN_TIMEOUT_MS'', crh_timeout_ms h)] d
     \<and> (want_blocklist (crh_blocked h) :: 'x err_message + string list) = Inr (got_blocklist d)"
  unfolding check_proxy_def
  by (subst result_steps [of env undefined]) 
    (auto simp: result_each [of env undefined] result_bind_pure [of env undefined] cfree cache_free_steps
      has_strings_def has_defines_def)

lemma streaming_ok:
  "result_of (check_streaming env d s :: ('x, unit) check) = Inr u \<longleftrightarrow>
     has_strings [(''SUB_TOPIC'', crs_request_topic s)] d
     \<and> has_markers (streaming_markers s) d
     \<and> has_defines [(''API_QUEUE_SIZE'', crs_queue_size s), (''FRAME_PERIOD_MS'', crs_frame_interval_ms s),
                    (''EXPIRY_INTERVAL_DEFAULT_S'', crs_expiry_seconds s)] d
     \<and> \<not> crs_snapshot_on_start s \<and> \<not> contains d ''state_publisher_send_complete_snapshot''"
  unfolding check_streaming_def
  by (subst result_steps [of env undefined])
    (auto simp: result_each [of env undefined] cfree cache_free_steps has_strings_def has_defines_def)

lemma remote_ok:
  fixes env :: "'x check_env"
  shows "result_of (check_remote_mqtt env src c) = Inr u \<longleftrightarrow> remote_agrees env src c"
proof -
  have body: "result_of (cbind (pure_result r) (\<lambda>body. require (\<not> contains body m) e)) = Inr ()
      \<longleftrightarrow> (case r of Inl _ \<Rightarrow> False | Inr body \<Rightarrow> \<not> contains body m)"
    for r :: "'x err_message + string" and m e
    by (auto simp: result_bind_pure [of env src] cfree split: sum.splits)
  have one: "result_of (ceach (\<lambda>(name, want). pure_result (check_string_define internalSource d name want)) xs
        :: ('x, unit) check) = Inr () \<longleftrightarrow> has_strings xs d" for d xs
    by (subst result_each [of env src]) (auto simp: cfree has_strings_def list_all_iff)
  show ?thesis
    unfolding check_remote_mqtt_def remote_agrees_def Let_def
    by (subst result_steps [of env src])
      (simp_all add: cfree result_bind_read body one proxy_ok streaming_ok has_defines_def [abs_def] has_markers_def [abs_def] has_strings_def [abs_def])
qed

section \<open>The whole comparison\<close>

definition sources_agree ::
  "(string \<Rightarrow> string) \<Rightarrow> 'x check_env \<Rightarrow> firmware_source \<Rightarrow> firmware_contract \<Rightarrow> bool" where
  "sources_agree um env src c \<longleftrightarrow>
     list_all (\<lambda>op. file_sat env src (co_file op) (\<lambda>d. contains d (co_symbol op))) (ctr_operations c)
     \<and> status_stream_agrees env src (ctr_status_stream c) \<and> frames_agree env src (ctr_frames c)
     \<and> snapshots_agree um env src c \<and> tools_agree env src (ctr_tools c) \<and> features_agree env src
     \<and> remote_agrees env src (ctr_remote c)"

lemma operation_sources_ok:
  "result_of (check_operation_sources um env src ops) = Inr u \<longleftrightarrow>
     list_all (\<lambda>op. file_sat env src (co_file op) (\<lambda>d. contains d (co_symbol op))) ops"
  by (simp add: check_operation_sources_def result_each [of env src] result_bind_read_prefix cfree)

lemma part_free [cfree]:
  "cache_free env src (check_operation_sources um env src ops)" "cache_free env src (check_status_stream env src ss)"
  "cache_free env src (check_frames env src fc)" "cache_free env src (check_http_screen_transport env src)"
  "cache_free env src (check_snapshots um env src c)" "cache_free env src (check_optional_tools env src t)"
  "cache_free env src (check_required_capabilities env src)" "cache_free env src (check_log_dump env src)"
  "cache_free env src (check_remote_mqtt env src r)"
  unfolding check_defs Let_def by (intro cfree)+

lemma check_sources_ok: "result_of (check_sources um env src c) = Inr u \<longleftrightarrow> sources_agree um env src c"
  unfolding check_sources_def
  by (subst result_steps [of env src])
    (auto simp: cfree sources_agree_def features_agree_def operation_sources_ok status_stream_ok frames_ok
      screen_transport_ok snapshots_ok tools_ok capabilities_ok log_dump_ok remote_ok)

text \<open>The release the contract names: its tag, the version it reports, the protobuf commit it links to.\<close>

definition release_source :: "string \<Rightarrow> firmware_contract \<Rightarrow> firmware_source" where
  "release_source root c = \<lparr>fs_root = root, fs_revision = ''refs/tags/'' @ ctr_release c\<rparr>"

definition release_agrees :: "'x check_env \<Rightarrow> string \<Rightarrow> firmware_contract \<Rightarrow> bool" where
  "release_agrees env root c \<longleftrightarrow>
     (let rev = ''refs/tags/'' @ ctr_release c in
     is_ok (ce_git env root [''rev-parse'', ''--verify'', rev @ ''^{commit}''])
     \<and> file_sat env (release_source root c) versionPath (\<lambda>d.
         map_option (\<lambda>(cs, _). join_with ''.'' cs) (find_match apiVersionPattern d) = Some (ctr_api_version c))
     \<and> (case ce_git env root [''ls-tree'', rev, ''assets/proto''] of
          Inl _ \<Rightarrow> False
        | Inr tree \<Rightarrow> (let fields = string_fields (trim_space tree) in
            3 \<le> length fields \<and> fields ! 1 = ''commit'' \<and> fields ! 2 = ctr_protobuf_commit c)))"

lemma check_version_ok:
  "check_version d c = Inr u \<longleftrightarrow>
     map_option (\<lambda>(cs, _). join_with ''.'' cs) (find_match apiVersionPattern d) = Some (ctr_api_version c)"
  by (auto simp: check_version_def Let_def split: option.splits)

lemma check_protobuf_ok:
  "check_protobuf tree c = Inr u \<longleftrightarrow>
     (let fields = string_fields tree in 3 \<le> length fields \<and> fields ! 1 = ''commit'' \<and> fields ! 2 = ctr_protobuf_commit c)"
  by (auto simp: check_protobuf_def Let_def rbind_eq_Inr not_less)

lemma new_source_ok:
  "new_tagged_firmware_source env root (ctr_release c) = Inr src \<longleftrightarrow>
     src = release_source root c
     \<and> is_ok (ce_git env root [''rev-parse'', ''--verify'', (''refs/tags/'' @ ctr_release c) @ ''^{commit}''])"
  by (cases "ce_git env root [''rev-parse'', ''--verify'', (''refs/tags/'' @ ctr_release c) @ ''^{commit}'']")
    (auto simp: new_tagged_firmware_source_def release_source_def git_output_def git_output_bytes_def Let_def)

lemma check_firmware_ok:
  "check_firmware um env root c = Inr u \<longleftrightarrow>
     release_agrees env root c \<and> sources_agree um env (release_source root c) c"
proof -
  let ?src = "release_source root c"
  have first: "fst (read_file env src versionPath empty_checked) = fetch_file env src versionPath" for src
    using result_read [of env src versionPath] by (simp add: result_of_def)
  have tree: "git_output env root args = Inr t \<longleftrightarrow> (\<exists>out. ce_git env root args = Inr out \<and> t = trim_space out)" for args t
    by (cases "ce_git env root args") (auto simp: git_output_def git_output_bytes_def)
  have revision: "fs_revision ?src = ''refs/tags/'' @ ctr_release c" by (simp add: release_source_def)
  show ?thesis
    unfolding check_firmware_def rbind_eq_Inr new_source_ok first check_version_ok check_protobuf_ok tree
      check_sources_ok [unfolded result_of_def] release_agrees_def file_sat_def Let_def
    by (auto simp: revision split: sum.splits)
qed


end
