(* ===== verification/Spec2Isabelle.thy ===== *)
theory Spec2Isabelle
  imports Prelude PahoTransport ConvertImage ConvertAudio Frame Animation AnimationSources UsbProtocol UsbSession StreamState StatusStream ClientConfig Request Execution VersionCache RemoteHttp RemoteRoundTrip RemoteStream RemoteClient SnapshotStore Services
    LocalStream ResponseTypes BusyJson DisplayJson ServiceResults
    Contract ContractReceipt ContractAgreement ContractConstants SourceScan FirmwareCheck
begin

text \<open>
  A verification library for \<open>busylib-go\<close>, the Go client of the BUSY Bar device.

  \<^bold>\<open>The program.\<close> The root package is an HTTP client: a \<open>Client\<close> is built from options, the fourteen services
  (\<open>Account\<close>, \<open>Assets\<close>, \<open>Audio\<close>, ...) validate their arguments and call \<open>Client.Do\<close>, which prepares a request
  (headers, path, body, the operations refused over MQTT) and executes it with transport retries and one
  compatibility retry; the API version the requests carry is discovered once and shared. The device also
  sends its state: \<open>internal/statusstream\<close> reads it from a websocket, \<open>remote\<close> from MQTT, both over the
  lifecycle state of \<open>internal/streamstate\<close> and the decoder of \<open>internal/statusdecode\<close>. \<open>remote\<close> tunnels the
  HTTP client through a publish/subscribe transport, for which \<open>pahotransport\<close> has an implementation that
  reconnects. \<open>snapshot\<close> collects the state over HTTP and keeps it current from the updates of a stream. \<open>usb\<close>
  speaks with the command line of the firmware. \<open>frame\<close> decodes screen contents; \<open>convert\<close> makes animations,
  images and audio for the device. \<open>internal/api\<close> records the firmware contract the library was written
  against, and a command compares it with the firmware sources.

  \<^bold>\<open>Theories and sources.\<close>
    \<^item> \<open>Prelude\<close>: results as sums, Go string operations, little-endian integers, readers, and the interfaces
      (locales) \<open>configurable\<close> and \<open>plain_options\<close> (functional options) and \<open>bounded_read\<close>.
      \<open>Json\<close>: JSON values and \<open>json.Unmarshal\<close> into Go types. \<open>GoFloat\<close>: \<open>float64\<close> rounding.
    \<^item> \<open>ClientConfig\<close> (\<open>client.go\<close>, \<open>options.go\<close>), \<open>Request\<close> (\<open>request.go\<close> up to \<open>Prepare\<close>, \<open>body.go\<close>,
      \<open>internal/api/metadata.go\<close>), \<open>Execution\<close> (\<open>request.go\<close> from \<open>DoPrepared\<close>, \<open>response.go\<close>, \<open>errors.go\<close>),
      \<open>VersionCache\<close> (\<open>version.go\<close>).
    \<^item> \<open>Validation\<close> (\<open>application_validation.go\<close> and the Validate functions of the services), \<open>DisplayRequests\<close>
      (\<open>display_elements.go\<close>, \<open>display_validation.go\<close>), \<open>BusyState\<close> (\<open>busy.go\<close>), \<open>Services\<close> (all calls of the
      services up to their request), \<open>ResponseTypes\<close> (the structs they return), \<open>BusyJson\<close> (the JSON of busy
      states in both directions), \<open>DisplayJson\<close> (\<open>MarshalJSON\<close> of the display elements, with a reader of their structs), \<open>ServiceResults\<close> (\<open>Client.Do\<close> and the decoding of responses: whole calls).
    \<^item> \<open>StreamState\<close> (\<open>internal/streamstate/state.go\<close>, with the one-shot contract as the locale \<open>one_shot\<close>),
      \<open>StatusStream\<close> (\<open>internal/statusstream/stream.go\<close>, \<open>internal/statusdecode/decode.go\<close>, \<open>stream/types.go\<close>,
      \<open>stream/options.go\<close>), \<open>LocalStream\<close> (\<open>status_stream.go\<close>, \<open>New\<close>, the dialled URL, \<open>stream/errors.go\<close>).
    \<^item> \<open>RemoteHttp\<close> (\<open>remote/options.go\<close>, \<open>NewClient\<close> of \<open>remote/client.go\<close>), \<open>RemoteRoundTrip\<close> (\<open>remote/http.go\<close>),
      \<open>RemoteStream\<close> (\<open>remote/stream.go\<close>), \<open>RemoteClient\<close> (\<open>NewStatusStream\<close> and \<open>Close\<close> of \<open>remote/client.go\<close>, over
      the two), \<open>PahoTransport\<close> (\<open>pahotransport/transport.go\<close>).
    \<^item> \<open>SnapshotTypes\<close>, \<open>SnapshotCollect\<close>, \<open>SnapshotStore\<close> (\<open>snapshot/types.go\<close>, \<open>collect.go\<close>, \<open>store.go\<close>).
    \<^item> \<open>UsbProtocol\<close> (\<open>usb/protocol.go\<close>), \<open>UsbSession\<close> (\<open>usb/session.go\<close>, \<open>client.go\<close>, \<open>commands.go\<close>, \<open>options.go\<close>).
    \<^item> \<open>Frame\<close> (\<open>frame/frame.go\<close>), \<open>Animation\<close> (\<open>convert/animation/animation.go\<close>), \<open>AnimationSources\<close> (its
      \<open>zip.go\<close> and \<open>image.go\<close>), \<open>GifScan\<close> and \<open>ConvertImage\<close> (\<open>convert/image.go\<close>), \<open>ConvertAudio\<close> (\<open>convert/audio\<close>).
    \<^item> \<open>Contract\<close> (\<open>internal/api/contract.go\<close>), \<open>ContractReceipt\<close> (the recorded contract as a value),
      \<open>ContractAgreement\<close> and \<open>ContractConstants\<close> (the contract against the models of the packages), \<open>SourceScan\<close>
      and \<open>FirmwareCheck\<close> (\<open>internal/api/cmd/firmware-contract-check\<close>).

  \<^bold>\<open>How the code is modelled.\<close> A struct is a record, an interface or a union of cases a datatype; errors are the
  left side of a sum and keep their operation, path, status and cause, so that every early return of a
  function is a branch of its definition. Integers whose width matters are words (\<open>Frame\<close>, \<open>Animation\<close>, the
  lease of \<open>RemoteStream\<close>, the stored snapshots), other Go integers are \<open>int\<close> with the bounds written out where
  the code can meet them. A panic is a value (\<open>AnimPanic\<close>, \<open>GifPanic\<close>, \<open>Panic\<close>), and the theorems show that it is
  not reached. Bytes are \<open>8 word\<close>, strings are lists of characters, a character being a byte.
  Operations that hold a mutex are single steps, and goroutines are step relations over them
  (\<open>channel_step\<close>, \<open>version_step\<close>, \<open>trip_step\<close>, \<open>client_step\<close>, the steps of \<open>PahoTransport\<close> and \<open>UsbSession\<close>) with
  invariants by rule induction; every interleaving is covered. What the outside contributes (network,
  device, clock, context, file system, process, random source) is an argument of the operation that meets it,
  one value for each time the code asks.

  \<^bold>\<open>What the groups of lemmas show.\<close>
    \<^item> Client: construction and options; \<open>Prepare\<close> accepts exactly the valid requests and keeps their headers;
      executions send a bounded number of requests, repeat a body only if it can be repeated, and explain their
      result by the last try; the shared version fetch has one owner in every interleaving.
    \<^item> Services: validation against independent descriptions (display elements, busy states, storage paths); a whole
      call sends nothing when it is invalid or refused, carries the token exactly in local mode, and returns the
      decoding of a complete reply; busy states and
      display elements survive the round trip through JSON; the requests of all services
      are exactly the synchronous operations of the recorded contract.
    \<^item> Streams: one start and one end whatever the interleaving; statuses coalesce but the latest is never lost;
      bounded reconnection; messages are delivered in order as an initial part of those received; a stream ends
      with its final status; the MQTT traffic of a stream, and of all streams of one client, follows the lease
      protocol; requests over MQTT are answered once and end after \<open>Close\<close>; the Paho transport delivers without
      gaps and brings the broker to exactly the subscribed topics.
    \<^item> Snapshots: collecting keeps every section on its own; the store refines the map of latest values and reports
      exactly the changed sections; stored values stay in their types.
    \<^item> Media: the frame decoder accepts exactly the wire forms of a token grammar; the animation encoder is read back by a
      player of the format and no shorter encoding shows the same images; image scaling stays within the display and
      the colour bounds; GIF scanning agrees with the block grammar; audio conversion keeps complete PCM.
    \<^item> USB: the session writes only when the device waits at its prompt; prompts split over reads are found.
    \<^item> Contract: what an accepted contract means, its agreement with the constants of the packages, and what a passed
      comparison with the firmware sources establishes.

  \<^bold>\<open>Bounds, recursion and fuel.\<close> Loops are structural recursion over what the outside supplies (reads, events,
  connections, bytes) or have a measure: the attempts left (\<open>execute\<close>, \<open>connect_with_retry\<close>, \<open>remote_connect\<close>),
  the bytes left (\<open>skip_gif\<close>, \<open>strip_iac\<close>), the counter (\<open>format_nat\<close>). No definition uses fuel. A stream that
  still runs when the supplied events are used up has the outcome \<open>Running\<close>; a stream whose context ends has an
  outcome \<open>Done\<close>. Size limits (response bytes, message bytes, archive budget, frame payload, stderr) are those
  of the options or the constants of the sources.

  \<^bold>\<open>Parameters.\<close> The websocket, MQTT, USB and HTTP libraries, protocol buffers, and of the standard library
  \<open>url.Parse\<close>, JSON, ZIP, PNG and image decoding, \<open>time.Parse\<close>, Unicode case tables, regular expressions that are not
  a plain character class, and the order in which a Go map is visited are parameters. The hypotheses about them are
  named: \<open>parses_synthetic\<close> (the constant base URL parses), \<open>remote_ctx_stays_done\<close> and \<open>ctx_stays_done\<close> (a context
  stays done), \<open>keeps_names\<close> (the field names of a JSON document fold to different names), the granting of
  subscriptions by a broker; each is met by the concrete functions of a witness.

  \<^bold>\<open>Not modelled.\<close> The generated packages \<open>proto/*pb\<close> and the \<open>doc.go\<close> files hold no logic of the library. The
  named string constants of firmware enumerations are open strings in the sources and are literals here. The
  texts of \<open>Error\<close> methods are modelled only where a claim is about them (validation errors, status streams). The
  value a service returns beside an error is dropped. Time limits (\<open>withTimeout\<close>) appear only as a context that is done
  or a call that fails. Accessors (\<open>Method\<close>, \<open>Header\<close>, \<open>Messages\<close>, \<open>Statuses\<close>) and the service values
  (\<open>Client.WiFi\<close> and the like) return a component of the modelled state. Examples, tests and documentation are left
  out.
\<close>

end
